(* ===== verification/Prelude.thy ===== *)
theory Prelude
  imports Main "HOL-Library.List_Lexorder" "HOL-Library.Char_ord" "HOL-Library.Sublist"
begin

text \<open>
  What every component of the development shares: the outcome of a host operation (the
  \<open>HostResult\<close> of \<open>apps/janjanode/src/server.service.ts\<close> and the exceptions that leave it),
  the few JavaScript built-ins the source relies on (sets turned into sorted arrays,
  \<open>Array.prototype.join\<close>, safe integers, substring search), and SQL tables with a primary key
  as lists of rows in insertion order.
\<close>

section \<open>Outcomes\<close>

text \<open>
  The error codes the host answers with (\<open>ErrorCodeSchema\<close>, packages/schemas/src/commands.ts).
  The human-readable message beside each code carries no decision and is left out.
\<close>

datatype error_code =
    Not_found | Unauthorized | Forbidden | Invalid_invite | Invite_expired | Invite_revoked
  | Invite_exhausted | Banned | Channel_full | Host_offline | Invalid_input | Conflict
  | Rate_limited | Internal | Unavailable

text \<open>
  Exceptions: a call of a missing method, a violated SQL constraint, an \<open>Error\<close> the code
  raises itself (with the text where a handler looks at it).
\<close>

datatype exn = TypeError | ConstraintError | AppError string

text \<open>
  A host operation answers with \<open>{ ok: true, data }\<close>, with \<open>{ ok: false, error }\<close>, or lets an
  exception escape. The last two are the left summand.
\<close>

datatype hfail = Fail error_code | Throws exn

type_synonym 'a result = "hfail + 'a"

definition is_ok :: "'e + 'a \<Rightarrow> bool" where
  "is_ok r = (case r of Inl _ \<Rightarrow> False | Inr _ \<Rightarrow> True)"

lemma is_ok_simps [simp]: "is_ok (Inr x)" "\<not> is_ok (Inl e)"
  by (simp_all add: is_ok_def)

lemma is_ok_iff: "is_ok r \<longleftrightarrow> (\<exists>x. r = Inr x)"
  by (cases r) simp_all

section \<open>Simplification collections\<close>

text \<open>
  \<open>op_defs\<close>: the definitions of the operations of the component at hand; \<open>tbl\<close>: rewrite rules
  on SQL tables.
\<close>

named_theorems op_defs "definitions of the modelled operations"
named_theorems tbl "rewrite rules on tables"

section \<open>JavaScript built-ins\<close>

text \<open>\<open>Number.isSafeInteger\<close> on the integers the model uses for numbers.\<close>

definition is_safe_integer :: "int \<Rightarrow> bool" where
  "is_safe_integer n \<longleftrightarrow> \<bar>n\<bar> \<le> 9007199254740991"

text \<open>
  \<open>[...new Set(xs)].sort()\<close>: duplicates dropped, the rest in code-unit order (the order of
  \<open>List_Lexorder\<close> on characters).
\<close>

definition sorted_set :: "string list \<Rightarrow> string list" where
  "sorted_set xs = sort (remdups xs)"

lemma set_sorted_set [simp]: "set (sorted_set xs) = set xs"
  by (simp add: sorted_set_def)

lemma distinct_sorted_set [simp]: "distinct (sorted_set xs)"
  by (simp add: sorted_set_def)

lemma length_sorted_set_le: "length (sorted_set xs) \<le> length xs"
  by (simp add: sorted_set_def length_remdups_leq)

lemma length_sorted_set_iff: "length (sorted_set xs) = length xs \<longleftrightarrow> distinct xs"
  by (simp add: sorted_set_def)

lemma sorted_set_eq_iff: "sorted_set xs = sorted_set ys \<longleftrightarrow> set xs = set ys"
proof
  assume "sorted_set xs = sorted_set ys"
  then show "set xs = set ys" by (metis set_sorted_set)
next
  assume "set xs = set ys"
  then show "sorted_set xs = sorted_set ys"
    by (simp add: sorted_set_def sorted_distinct_set_unique)
qed

text \<open>\<open>xs.join(sep)\<close>\<close>

fun join :: "string \<Rightarrow> string list \<Rightarrow> string" where
  "join sep [] = []"
| "join sep [x] = x"
| "join sep (x # y # zs) = x @ sep @ join sep (y # zs)"

text \<open>\<open>hay.includes(needle)\<close> on strings.\<close>

definition str_includes :: "string \<Rightarrow> string \<Rightarrow> bool" where
  "str_includes hay needle = sublist needle hay"

text \<open>Characters the source names by escape.\<close>

definition NUL :: string where "NUL = [CHR 0x00]"
definition DQ :: char where "DQ = CHR 0x22"

lemma prefix_avoiding: "prefix w (zs @ q # ys) \<Longrightarrow> q \<notin> set w \<Longrightarrow> prefix w zs"
  by (auto simp: prefix_append prefix_Cons)

lemma sublist_avoiding:
  "sublist w (xs @ q # ys) \<Longrightarrow> q \<notin> set w \<Longrightarrow> sublist w xs \<or> sublist w ys"
proof (induction xs)
  case Nil
  then show ?case by (auto simp: sublist_Cons_right prefix_Cons)
next
  case (Cons x xs)
  then show ?case
    using prefix_avoiding [of w "x # xs" q ys] by (auto simp: sublist_Cons_right)
qed

text \<open>A JavaScript \<open>Set\<close> is the list of its elements in insertion order.\<close>

definition js_add :: "'a \<Rightarrow> 'a list \<Rightarrow> 'a list" where
  "js_add x xs = (if x \<in> set xs then xs else xs @ [x])"

definition js_delete :: "'a \<Rightarrow> 'a list \<Rightarrow> 'a list" where
  "js_delete x xs = removeAll x xs"

lemma set_js_add [simp]: "set (js_add x xs) = insert x (set xs)"
  by (auto simp: js_add_def)

lemma set_js_delete [simp]: "set (js_delete x xs) = set xs - {x}"
  by (simp add: js_delete_def)

lemma distinct_js_add [simp]: "distinct (js_add x xs) \<longleftrightarrow> distinct xs"
  by (simp add: js_add_def)

lemma distinct_js_delete [simp]: "distinct xs \<Longrightarrow> distinct (js_delete x xs)"
  by (simp add: js_delete_def distinct_removeAll)

lemma js_delete_Nil [simp]: "js_delete x [] = []"
  by (simp add: js_delete_def)

text \<open>\<open>Map.set\<close>: a key already present keeps its place. \<open>m.get(k)\<close> is \<open>map_of m k\<close>.\<close>

fun map_set :: "'k \<Rightarrow> 'v \<Rightarrow> ('k \<times> 'v) list \<Rightarrow> ('k \<times> 'v) list" where
  "map_set k v [] = [(k, v)]"
| "map_set k v ((k', v') # m) = (if k' = k then (k, v) # m else (k', v') # map_set k v m)"

lemma map_of_map_set: "map_of (map_set k v m) = (map_of m)(k \<mapsto> v)"
  by (induction k v m rule: map_set.induct) (auto simp: fun_eq_iff)

lemma keys_map_set: "fst ` set (map_set k v m) = insert k (fst ` set m)"
  by (induction k v m rule: map_set.induct) auto

lemma values_map_set: "p \<in> set (map_set k v m) \<Longrightarrow> p = (k, v) \<or> p \<in> set m"
  by (induction k v m rule: map_set.induct) (auto split: if_splits)

text \<open>Decimal rendering of a number in a template string.\<close>

definition digit :: "nat \<Rightarrow> char" where "digit d = char_of (48 + d)"

fun show_nat :: "nat \<Rightarrow> string" where
  "show_nat n = (if n < 10 then [digit n] else show_nat (n div 10) @ [digit (n mod 10)])"

declare show_nat.simps [simp del]

definition show_int :: "int \<Rightarrow> string" where
  "show_int i = (if i < 0 then CHR ''-'' # show_nat (nat (- i)) else show_nat (nat i))"

definition read_digits :: "string \<Rightarrow> nat" where
  "read_digits s = foldl (\<lambda>acc c. 10 * acc + (of_char c - 48)) 0 s"

lemma of_char_digit: "d < 10 \<Longrightarrow> of_char (digit d) = 48 + d"
  by (simp add: digit_def)

lemma digit_eq_iff: "d < 10 \<Longrightarrow> e < 10 \<Longrightarrow> digit d = digit e \<longleftrightarrow> d = e"
  by (metis add_left_cancel of_char_digit)

lemma read_show_nat: "read_digits (show_nat n) = n"
proof (induction n rule: show_nat.induct)
  case (1 n)
  then show ?case
    by (subst show_nat.simps) (auto simp: read_digits_def of_char_digit)
qed

lemma show_nat_inj [simp]: "show_nat m = show_nat n \<longleftrightarrow> m = n"
  by (metis read_show_nat)

lemma show_nat_digits: "c \<in> set (show_nat n) \<Longrightarrow> 48 \<le> (of_char c :: nat) \<and> (of_char c :: nat) < 58"
proof (induction n rule: show_nat.induct)
  case (1 n)
  then show ?case
    by (subst (asm) (2) show_nat.simps) (auto simp: of_char_digit split: if_splits)
qed

lemma show_nat_no_minus: "hd (show_nat n) \<noteq> CHR ''-''"
proof -
  have "show_nat n \<noteq> []" by (subst show_nat.simps) simp
  then have "hd (show_nat n) \<in> set (show_nat n)" by simp
  from show_nat_digits [OF this] show ?thesis by auto
qed

lemma show_int_inj [simp]: "show_int i = show_int j \<longleftrightarrow> i = j"
proof -
  have "CHR ''-'' # s \<noteq> show_nat n" for s n
    using show_nat_no_minus [of n] by (metis list.sel(1))
  from this this [symmetric] show ?thesis by (auto simp: show_int_def)
qed

lemma show_int_no_nul: "CHR 0x00 \<notin> set (show_int i)"
  using show_nat_digits [of "CHR 0x00"] by (auto simp: show_int_def)

text \<open>Text split at a separator that occurs in neither left part.\<close>

lemma append_sep_inj:
  "x \<notin> set u \<Longrightarrow> x \<notin> set u' \<Longrightarrow> u @ x # v = u' @ x # v' \<longleftrightarrow> u = u' \<and> v = v'"
proof (induction u arbitrary: u')
  case Nil
  then show ?case by (cases u') auto
next
  case (Cons a u)
  then show ?case by (cases u') auto
qed

section \<open>Tables with a primary key\<close>

text \<open>
  A table is the list of its rows in insertion order. \<open>get_row\<close> is
  \<open>SELECT * FROM t WHERE key = ?\<close>, \<open>ins_row\<close> an \<open>INSERT\<close> that fails on a primary key already
  present, \<open>upd_rows\<close> an \<open>UPDATE ... WHERE\<close>, \<open>del_rows\<close> a \<open>DELETE ... WHERE\<close>.
\<close>

definition get_row :: "('r \<Rightarrow> 'k) \<Rightarrow> 'k \<Rightarrow> 'r list \<Rightarrow> 'r option" where
  "get_row key k rs = List.find (\<lambda>r. key r = k) rs"

definition has_row :: "('r \<Rightarrow> 'k) \<Rightarrow> 'k \<Rightarrow> 'r list \<Rightarrow> bool" where
  "has_row key k rs \<longleftrightarrow> k \<in> key ` set rs"

definition ins_row :: "('r \<Rightarrow> 'k) \<Rightarrow> 'r \<Rightarrow> 'r list \<Rightarrow> 'r list option" where
  "ins_row key r rs = (if has_row key (key r) rs then None else Some (rs @ [r]))"

definition upd_rows :: "('r \<Rightarrow> bool) \<Rightarrow> ('r \<Rightarrow> 'r) \<Rightarrow> 'r list \<Rightarrow> 'r list" where
  "upd_rows P f rs = map (\<lambda>r. if P r then f r else r) rs"

definition del_rows :: "('r \<Rightarrow> bool) \<Rightarrow> 'r list \<Rightarrow> 'r list" where
  "del_rows P rs = filter (\<lambda>r. \<not> P r) rs"

text \<open>The invariant of a primary key.\<close>

definition pk :: "('r \<Rightarrow> 'k) \<Rightarrow> 'r list \<Rightarrow> bool" where
  "pk key rs \<longleftrightarrow> distinct (map key rs)"

lemma find_filter_neq:
  "k \<noteq> k' \<Longrightarrow> List.find (\<lambda>r. key r = k) (filter (\<lambda>r. key r \<noteq> k') rs) = List.find (\<lambda>r. key r = k) rs"
  by (induction rs) auto

lemma get_row_Some: "get_row key k rs = Some r \<Longrightarrow> r \<in> set rs \<and> key r = k"
  by (auto simp: get_row_def find_Some_iff)

lemma get_row_None [tbl]: "get_row key k rs = None \<longleftrightarrow> \<not> has_row key k rs"
  by (auto simp: get_row_def has_row_def find_None_iff)

lemma get_row_Nil [tbl]: "get_row key k [] = None"
  by (simp add: get_row_def)

lemma has_row_iff: "has_row key k rs \<longleftrightarrow> (\<exists>r. get_row key k rs = Some r)"
  by (metis get_row_None not_None_eq)

lemma get_row_pk: "pk key rs \<Longrightarrow> r \<in> set rs \<Longrightarrow> get_row key (key r) rs = Some r"
  by (induction rs) (auto simp: pk_def get_row_def)

lemma get_row_append [tbl]:
  "get_row key k (rs @ [r]) = (case get_row key k rs of None \<Rightarrow> if key r = k then Some r else None | Some x \<Rightarrow> Some x)"
  by (induction rs) (auto simp: get_row_def)

lemma has_row_append [tbl]: "has_row key k (rs @ [r]) \<longleftrightarrow> has_row key k rs \<or> key r = k"
  by (auto simp: has_row_def)

lemma map_key_upd: "(\<And>r. key (f r) = key r) \<Longrightarrow> map key (upd_rows P f rs) = map key rs"
  by (induction rs) (auto simp: upd_rows_def)

lemma has_row_upd [tbl]:
  "(\<And>r. key (f r) = key r) \<Longrightarrow> has_row key k (upd_rows P f rs) \<longleftrightarrow> has_row key k rs"
  using map_key_upd [of key f P rs] unfolding has_row_def by (metis set_map)

lemma set_upd: "set (upd_rows P f rs) = (\<lambda>r. if P r then f r else r) ` set rs"
  by (simp add: upd_rows_def)

lemma set_del [tbl]: "set (del_rows P rs) = {r \<in> set rs. \<not> P r}"
  by (simp add: del_rows_def)

lemma pk_Nil [simp]: "pk key []"
  by (simp add: pk_def)

lemma pk_single [simp]: "pk key [r]"
  by (simp add: pk_def)

lemma pk_append: "pk key (rs @ [r]) \<longleftrightarrow> pk key rs \<and> \<not> has_row key (key r) rs"
  by (auto simp: pk_def has_row_def)

lemma pk_ins: "pk key rs \<Longrightarrow> ins_row key r rs = Some rs' \<Longrightarrow> pk key rs'"
  by (auto simp: ins_row_def pk_append split: if_splits)

lemma pk_upd: "(\<And>r. key (f r) = key r) \<Longrightarrow> pk key (upd_rows P f rs) = pk key rs"
  by (simp add: pk_def map_key_upd)

lemma pk_del: "pk key rs \<Longrightarrow> pk key (del_rows P rs)"
  by (simp add: pk_def del_rows_def distinct_map_filter)

lemma get_row_del_key [tbl]:
  "get_row key k (del_rows (\<lambda>r. key r = k') rs) = (if k = k' then None else get_row key k rs)"
  by (induction rs) (auto simp: get_row_def del_rows_def)

lemma get_row_upd:
  "(\<And>r. key (f r) = key r) \<Longrightarrow>
   get_row key k (upd_rows P f rs) = map_option (\<lambda>r. if P r then f r else r) (get_row key k rs)"
  by (induction rs) (auto simp: get_row_def upd_rows_def)

text \<open>The interface the services rely on, independent of the representation as a list.\<close>

locale keyed_table =
  fixes key :: "'r \<Rightarrow> 'k"
    and get :: "'k \<Rightarrow> 't \<Rightarrow> 'r option"
    and ins :: "'r \<Rightarrow> 't \<Rightarrow> 't option"
    and del :: "'k \<Rightarrow> 't \<Rightarrow> 't"
    and ok :: "'t \<Rightarrow> bool"
  assumes get_key: "get k t = Some r \<Longrightarrow> key r = k"
    and ins_None: "ins r t = None \<longleftrightarrow> get (key r) t \<noteq> None"
    and get_ins: "ins r t = Some t' \<Longrightarrow> get k t' = (if k = key r then Some r else get k t)"
    and get_del: "get k (del k' t) = (if k = k' then None else get k t)"
    and ok_ins: "ok t \<Longrightarrow> ins r t = Some t' \<Longrightarrow> ok t'"
    and ok_del: "ok t \<Longrightarrow> ok (del k t)"
begin

lemma ins_twice: "ins r t = Some t' \<Longrightarrow> key r' = key r \<Longrightarrow> ins r' t' = None"
  by (simp add: ins_None get_ins)

lemma ins_after_del: "key r = k \<Longrightarrow> \<exists>t'. ins r (del k t) = Some t'"
  using ins_None [of r "del k t"] by (auto simp: get_del)

lemma ins_del_frame:
  "ins r (del (key r) t) = Some t' \<Longrightarrow> k \<noteq> key r \<Longrightarrow> get k t' = get k t"
  by (simp add: get_ins get_del)

lemma del_other_keeps: "get k t = Some r \<Longrightarrow> k' \<noteq> k \<Longrightarrow> get k (del k' t) = Some r"
  by (simp add: get_del)

end

lemma list_keyed_table:
  "keyed_table key (get_row key) (ins_row key) (\<lambda>k. del_rows (\<lambda>r. key r = k)) (pk key)"
proof
  fix k t r assume "get_row key k t = Some r"
  then show "key r = k" by (auto dest: get_row_Some)
next
  fix r t show "(ins_row key r t = None) = (get_row key (key r) t \<noteq> None)"
    by (auto simp: ins_row_def get_row_None)
next
  fix r t t' k assume a: "ins_row key r t = Some t'"
  then have t': "t' = t @ [r]" and n: "get_row key (key r) t = None"
    by (auto simp: ins_row_def get_row_None split: if_splits)
  from n show "get_row key k t' = (if k = key r then Some r else get_row key k t)"
    by (auto simp: t' get_row_append split: option.splits)
next
  fix k k' t
  show "get_row key k (del_rows (\<lambda>r. key r = k') t) = (if k = k' then None else get_row key k t)"
    by (rule get_row_del_key)
qed (auto intro: pk_ins pk_del)

section \<open>JSON values\<close>

text \<open>
  What \<open>JSON.parse\<close> returns and \<open>JSON.stringify\<close> stores. Numbers are integers here; the text
  form is not modelled, a stored value is read back as it was written.
\<close>

datatype json = JNull | JBool bool | JNum int | JStr string | JArr "json list" | JObj "(string \<times> json) list"

definition obj_get :: "string \<Rightarrow> (string \<times> json) list \<Rightarrow> json option" where
  "obj_get k o1 = map_of o1 k"

fun obj_set :: "string \<Rightarrow> json \<Rightarrow> (string \<times> json) list \<Rightarrow> (string \<times> json) list" where
  "obj_set k v [] = [(k, v)]"
| "obj_set k v ((k', v') # o1) = (if k' = k then (k, v) # o1 else (k', v') # obj_set k v o1)"

text \<open>\<open>{ ...cur, ...patch }\<close>\<close>

fun obj_spread :: "(string \<times> json) list \<Rightarrow> (string \<times> json) list \<Rightarrow> (string \<times> json) list" where
  "obj_spread cur [] = cur"
| "obj_spread cur ((k, v) # patch) = obj_spread (obj_set k v cur) patch"

text \<open>\<open>value ?? d\<close> read as a number; \<open>None\<close> is \<open>NaN\<close>, with which every comparison is false.\<close>

definition number_or :: "json option \<Rightarrow> int \<Rightarrow> int option" where
  "number_or v d = (case v of None \<Rightarrow> Some d | Some JNull \<Rightarrow> Some d | Some (JNum n) \<Rightarrow> Some n | Some _ \<Rightarrow> None)"

definition gt_num :: "int \<Rightarrow> int option \<Rightarrow> bool" where
  "gt_num x q = (case q of None \<Rightarrow> False | Some n \<Rightarrow> x > n)"

lemma obj_get_set: "obj_get k (obj_set k' v o1) = (if k = k' then Some v else obj_get k o1)"
  by (induction k' v o1 rule: obj_set.induct) (auto simp: obj_get_def)

lemma obj_get_spread:
  "distinct (map fst patch) \<Longrightarrow>
   obj_get k (obj_spread cur patch) = (case obj_get k patch of None \<Rightarrow> obj_get k cur | Some v \<Rightarrow> Some v)"
proof (induction patch arbitrary: cur)
  case (Cons e patch)
  obtain k' v where e: "e = (k', v)" by (cases e)
  with Cons.prems have "obj_get k' patch = None" by (simp add: obj_get_def map_of_eq_None_iff)
  moreover have "obj_get k ((k', v) # patch) = (if k = k' then Some v else obj_get k patch)"
    by (simp add: obj_get_def)
  ultimately show ?case using e Cons by (simp add: obj_get_set split: option.split)
qed (simp add: obj_get_def)

section \<open>Truthiness\<close>

text \<open>A nullable timestamp used as a condition: \<open>null\<close> and \<open>0\<close> are falsy.\<close>

definition truthy_num :: "int option \<Rightarrow> bool" where
  "truthy_num v = (case v of None \<Rightarrow> False | Some n \<Rightarrow> n \<noteq> 0)"

text \<open>A nullable string used as a condition.\<close>

definition truthy_str :: "string option \<Rightarrow> bool" where
  "truthy_str v = (case v of None \<Rightarrow> False | Some s \<Rightarrow> s \<noteq> [])"

lemma truthy_num_simps [simp]: "\<not> truthy_num None" "truthy_num (Some n) \<longleftrightarrow> n \<noteq> 0"
  by (simp_all add: truthy_num_def)

lemma truthy_str_simps [simp]: "\<not> truthy_str None" "truthy_str (Some s) \<longleftrightarrow> s \<noteq> []"
  by (simp_all add: truthy_str_def)

end
