(* ===== verification/Permissions.thy ===== *)
theory Permissions
  imports Prelude
begin

text \<open>
  Roles, channels and permissions: \<open>packages/schemas/src/domain.ts\<close> (the permission flags and
  the hierarchy levels) and \<open>packages/permissions/src/index.ts\<close> (\<open>evaluatePermission\<close>,
  \<open>canModify\<close>).

  The service passes two kinds of role to these functions: roles built in memory, whose
  \<open>permissions\<close> is an array, and raw rows of the table \<open>roles\<close>, whose \<open>permissions\<close> column is
  the JSON text of the array (\<open>getRole\<close> casts the row). \<open>includes\<close> exists on both, as
  membership and as substring search; \<open>some\<close> exists on the array only. The type
  \<open>perms_value\<close> keeps the two apart.
\<close>

section \<open>Flags, roles, channels\<close>

datatype permission =
    Manage_server | Manage_channels | Manage_roles | Manage_invites | Manage_hosts
  | Kick_members | Ban_members | Assign_roles
  | View_channel | Send_messages | Send_files
  | Join_call | Speak | Enable_camera | Mute_members | Remove_from_call

definition PERMISSIONS :: "permission list" where
  "PERMISSIONS =
     [Manage_server, Manage_channels, Manage_roles, Manage_invites, Manage_hosts,
      Kick_members, Ban_members, Assign_roles,
      View_channel, Send_messages, Send_files,
      Join_call, Speak, Enable_camera, Mute_members, Remove_from_call]"

fun flag_name :: "permission \<Rightarrow> string" where
  "flag_name Manage_server = ''manage_server''"
| "flag_name Manage_channels = ''manage_channels''"
| "flag_name Manage_roles = ''manage_roles''"
| "flag_name Manage_invites = ''manage_invites''"
| "flag_name Manage_hosts = ''manage_hosts''"
| "flag_name Kick_members = ''kick_members''"
| "flag_name Ban_members = ''ban_members''"
| "flag_name Assign_roles = ''assign_roles''"
| "flag_name View_channel = ''view_channel''"
| "flag_name Send_messages = ''send_messages''"
| "flag_name Send_files = ''send_files''"
| "flag_name Join_call = ''join_call''"
| "flag_name Speak = ''speak''"
| "flag_name Enable_camera = ''enable_camera''"
| "flag_name Mute_members = ''mute_members''"
| "flag_name Remove_from_call = ''remove_from_call''"

text \<open>\<open>ROLE_LEVELS\<close>\<close>

definition level_owner :: int where "level_owner = 100"
definition level_admin :: int where "level_admin = 80"
definition level_moderator :: int where "level_moderator = 50"
definition level_member :: int where "level_member = 10"

text \<open>\<open>JSON.stringify\<close> of an array of flags.\<close>

definition json_flags :: "permission list \<Rightarrow> string" where
  "json_flags ps = ''['' @ join '','' (map (\<lambda>p. DQ # flag_name p @ [DQ]) ps) @ '']''"

datatype perms_value = PermArray "permission list" | PermText string

fun perms_includes :: "perms_value \<Rightarrow> permission \<Rightarrow> bool" where
  "perms_includes (PermArray ps) p \<longleftrightarrow> p \<in> set ps"
| "perms_includes (PermText t) p \<longleftrightarrow> str_includes t (flag_name p)"

text \<open>\<open>permissions.some(f)\<close>: there is no such method on a string.\<close>

fun perms_some :: "perms_value \<Rightarrow> (permission \<Rightarrow> bool) \<Rightarrow> exn + bool" where
  "perms_some (PermArray ps) f = Inr (list_ex f ps)"
| "perms_some (PermText t) f = Inl TypeError"

record role =
  role_id :: string
  role_name :: string
  role_level :: int
  role_perms :: perms_value

record perm_override =
  ov_role :: string
  ov_allow :: "permission list"
  ov_deny :: "permission list"

datatype channel_type = TextChannel | CallChannel

record channel =
  ch_id :: string
  ch_type :: channel_type
  ch_name :: string
  ch_overrides :: "perm_override list"
  ch_created :: int

record member_context =
  mc_identity :: string
  mc_role :: string
  mc_is_owner :: bool

section \<open>Evaluation\<close>

definition override_for :: "role \<Rightarrow> channel option \<Rightarrow> perm_override option" where
  "override_for r ch =
     (case ch of None \<Rightarrow> None | Some c \<Rightarrow> List.find (\<lambda>ov. ov_role ov = role_id r) (ch_overrides c))"

definition evaluatePermission :: "member_context \<Rightarrow> role \<Rightarrow> channel option \<Rightarrow> permission \<Rightarrow> bool" where
  "evaluatePermission m r ch p =
     (if mc_is_owner m \<or> role_level r \<ge> 100 then True
      else case override_for r ch of
          Some ov \<Rightarrow>
            (if p \<in> set (ov_deny ov) then False
             else if p \<in> set (ov_allow ov) then True
             else perms_includes (role_perms r) p)
        | None \<Rightarrow> perms_includes (role_perms r) p)"

definition canModify :: "member_context \<Rightarrow> role \<Rightarrow> role \<Rightarrow> permission \<Rightarrow> bool" where
  "canModify actor actor_role target_role p =
     (if \<not> evaluatePermission actor actor_role None p then False
      else if mc_is_owner actor \<or> role_level actor_role \<ge> 100 then role_level target_role < 100
      else role_level actor_role > role_level target_role)"

section \<open>Stored permissions\<close>

lemma flag_no_quote: "DQ \<notin> set (flag_name p)"
  by (cases p) (simp_all add: DQ_def)

lemma flag_long: "length (flag_name p) > 2"
  by (cases p) simp_all

lemma permission_in_PERMISSIONS: "p \<in> set PERMISSIONS"
  by (cases p) (simp_all add: PERMISSIONS_def)

lemma flag_sublist_all:
  "list_all (\<lambda>p. list_all (\<lambda>q. sublist (flag_name p) (flag_name q) = (p = q)) PERMISSIONS) PERMISSIONS"
  by code_simp

lemma flag_sublist: "sublist (flag_name p) (flag_name q) \<longleftrightarrow> p = q"
  using flag_sublist_all permission_in_PERMISSIONS [of p] permission_in_PERMISSIONS [of q]
  by (auto simp: list_all_iff)

lemma flag_not_in_char: "\<not> sublist (flag_name p) [c]"
  using flag_long [of p] sublist_length_le [of "flag_name p" "[c]"] by auto

lemma quoted_flag_sublist:
  "sublist (flag_name p) (u @ DQ # flag_name q @ DQ # v)
     \<longleftrightarrow> sublist (flag_name p) u \<or> p = q \<or> sublist (flag_name p) v" (is "?l \<longleftrightarrow> ?r")
proof
  assume ?l
  then show ?r
    using sublist_avoiding [of "flag_name p" u DQ "flag_name q @ DQ # v"]
      sublist_avoiding [of "flag_name p" "flag_name q" DQ v] flag_no_quote [of p] flag_sublist
    by auto
next
  have "sublist (flag_name q) (u @ DQ # flag_name q @ DQ # v)"
    unfolding sublist_def by (rule exI [of _ "u @ [DQ]"]) auto
  moreover have "sublist u (u @ DQ # flag_name q @ DQ # v)" by simp
  moreover have "sublist v (u @ DQ # flag_name q @ DQ # v)"
    unfolding sublist_def by (rule exI [of _ "u @ DQ # flag_name q @ [DQ]"]) auto
  ultimately show "?r \<Longrightarrow> ?l" by (auto intro: sublist_order.order.trans)
qed

lemma json_flags_body:
  "sublist (flag_name p) (c # join '','' (map (\<lambda>p. DQ # flag_name p @ [DQ]) ps) @ '']'') \<longleftrightarrow> p \<in> set ps"
proof (induction ps arbitrary: c)
  case Nil
  then show ?case using flag_long [of p] flag_not_in_char [of p]
    by (cases "flag_name p") (auto simp: sublist_Cons_right prefix_Cons)
next
  case (Cons q ps)
  show ?case
  proof (cases ps)
    case Nil
    then show ?thesis
      using quoted_flag_sublist [of p "[c]" q "'']''"] flag_not_in_char [of p] by auto
  next
    case (Cons q' ps')
    then show ?thesis
      using quoted_flag_sublist [of p "[c]" q "'','' @ join '','' (map (\<lambda>p. DQ # flag_name p @ [DQ]) ps) @ '']''"]
        flag_not_in_char [of p] Cons.IH [of "CHR '',''"] by auto
  qed
qed

lemma includes_stored: "str_includes (json_flags ps) (flag_name p) \<longleftrightarrow> p \<in> set ps"
  using json_flags_body [of p "CHR ''[''" ps] by (simp add: json_flags_def str_includes_def)

lemma perms_includes_stored [simp]: "perms_includes (PermText (json_flags ps)) p \<longleftrightarrow> p \<in> set ps"
  by (simp add: includes_stored)

declare perms_includes.simps(2) [simp del]

text \<open>
  A role read back from the database carries the JSON text of its permissions, and the
  evaluator then searches a flag's name as a substring of that text. For every list of flags,
  every member, channel and flag this decides exactly as membership in the array would: no flag
  name occurs in the text of a list that does not hold the flag.
\<close>

theorem stored_role_evaluates_as_array:
  "evaluatePermission m (r\<lparr>role_perms := PermText (json_flags ps)\<rparr>) ch p
     = evaluatePermission m (r\<lparr>role_perms := PermArray ps\<rparr>) ch p"
  by (simp add: evaluatePermission_def override_for_def includes_stored split: option.splits)

section \<open>Precedence and hierarchy\<close>

lemma evaluatePermission_owner [simp]: "mc_is_owner m \<Longrightarrow> evaluatePermission m r ch p"
  by (simp add: evaluatePermission_def)

lemma evaluatePermission_level [simp]: "role_level r \<ge> 100 \<Longrightarrow> evaluatePermission m r ch p"
  by (simp add: evaluatePermission_def)

lemma evaluatePermission_server:
  "\<not> mc_is_owner m \<Longrightarrow> role_level r < 100 \<Longrightarrow>
   evaluatePermission m r None p \<longleftrightarrow> perms_includes (role_perms r) p"
  by (simp add: evaluatePermission_def override_for_def)

lemma canModify_target: "canModify a ar tr p \<Longrightarrow> role_level tr < 100"
  by (auto simp: canModify_def split: if_splits)

lemma canModify_permission: "canModify a ar tr p \<Longrightarrow> evaluatePermission a ar None p"
  by (simp add: canModify_def split: if_splits)

lemma canModify_level:
  "canModify a ar tr p \<Longrightarrow> (mc_is_owner a \<longrightarrow> role_level ar \<ge> 100) \<Longrightarrow> role_level tr < role_level ar"
  by (auto simp: canModify_def split: if_splits)

text \<open>
  Precedence in a channel, as the package's header comment orders it: the owner override wins
  over everything; otherwise a flag the channel's override denies to the role is refused even when
  the same override allows it or the role holds it; otherwise a flag the override allows is granted
  even when the role does not hold it; and a channel without an override for the role changes
  nothing.
\<close>

theorem permission_precedence:
  "(mc_is_owner m \<or> role_level r \<ge> 100 \<longrightarrow> evaluatePermission m r ch p) \<and>
   (\<not> mc_is_owner m \<longrightarrow> role_level r < 100 \<longrightarrow>
      (\<forall>ov. override_for r ch = Some ov \<longrightarrow> p \<in> set (ov_deny ov) \<longrightarrow> \<not> evaluatePermission m r ch p) \<and>
      (\<forall>ov. override_for r ch = Some ov \<longrightarrow> p \<in> set (ov_allow ov) \<longrightarrow> p \<notin> set (ov_deny ov) \<longrightarrow>
          evaluatePermission m r ch p) \<and>
      (\<forall>ov. override_for r ch = Some ov \<longrightarrow> p \<notin> set (ov_allow ov) \<longrightarrow> p \<notin> set (ov_deny ov) \<longrightarrow>
          evaluatePermission m r ch p = evaluatePermission m r None p) \<and>
      (override_for r ch = None \<longrightarrow> evaluatePermission m r ch p = evaluatePermission m r None p))"
  by (auto simp: evaluatePermission_def override_for_def split: option.splits)

definition staff_channel :: channel where
  "staff_channel =
     \<lparr>ch_id = ''c'', ch_type = TextChannel, ch_name = ''staff'',
      ch_overrides = [\<lparr>ov_role = ''role-member'', ov_allow = [View_channel], ov_deny = [View_channel]\<rparr>],
      ch_created = 0\<rparr>"

definition member_role :: role where
  "member_role =
     \<lparr>role_id = ''role-member'', role_name = ''Member'', role_level = 10,
      role_perms = PermArray [View_channel, Send_messages]\<rparr>"

definition admin_role :: role where
  "admin_role =
     \<lparr>role_id = ''role-admin'', role_name = ''Admin'', role_level = 80, role_perms = PermArray [Kick_members]\<rparr>"

theorem permission_precedence_witness:
  "\<not> evaluatePermission \<lparr>mc_identity = ''a'', mc_role = ''role-member'', mc_is_owner = False\<rparr>
        member_role (Some staff_channel) View_channel \<and>
   evaluatePermission \<lparr>mc_identity = ''a'', mc_role = ''role-member'', mc_is_owner = False\<rparr>
        member_role None View_channel"
  using permission_precedence [of "\<lparr>mc_identity = ''a'', mc_role = ''role-member'', mc_is_owner = False\<rparr>"
      member_role "Some staff_channel" View_channel]
  by (simp add: override_for_def staff_channel_def member_role_def evaluatePermission_def)

text \<open>
  The hierarchy is strict: when the owner flag belongs to roles of level 100 only, as the service
  sets it, an actor who may modify a target's role has the higher level, so no two members may act
  on each other and nobody may act on a role of level 100.
\<close>

theorem hierarchy_asymmetric:
  assumes "canModify a ar tr p"
    and "mc_is_owner a \<longrightarrow> role_level ar \<ge> 100"
    and "mc_is_owner t \<longrightarrow> role_level tr \<ge> 100"
  shows "role_level tr < 100 \<and> role_level tr < role_level ar \<and> \<not> canModify t tr ar q"
proof -
  from assms(1,2) have lt: "role_level tr < role_level ar" by (rule canModify_level)
  moreover have "\<not> canModify t tr ar q"
    using canModify_level [OF _ assms(3), of ar q] lt by auto
  ultimately show ?thesis using canModify_target [OF assms(1)] by simp
qed

theorem hierarchy_asymmetric_witness:
  "\<not> canModify \<lparr>mc_identity = ''m'', mc_role = ''role-member'', mc_is_owner = False\<rparr> member_role admin_role Kick_members"
proof -
  have "canModify \<lparr>mc_identity = ''a'', mc_role = ''role-admin'', mc_is_owner = False\<rparr> admin_role member_role Kick_members"
    by (simp add: canModify_def evaluatePermission_def override_for_def admin_role_def member_role_def)
  from hierarchy_asymmetric [OF this] show ?thesis by simp
qed

end
