(* ===== verification/Quorum.thy ===== *)
theory Quorum
  imports Prelude
begin

text \<open>
  Write authority across JanjaBridges: \<open>apps/janjanode/src/registration-quorum.ts\<close> (the
  acknowledgement quorum of one registration round and the write lease it renews) and
  \<open>strictBridgeWitnessQuorum\<close> of \<open>server.service.ts\<close> (the votes a replica needs before it may
  promote itself).

  The locale \<open>strict_majority\<close> states what a strict majority of a configured bridge set promises;
  both the acknowledgement quorum and the witness quorum are instances of it.
\<close>

section \<open>Strict majorities\<close>

locale strict_majority =
  fixes reached :: "'b list \<Rightarrow> 'b list \<Rightarrow> bool"
  assumes reached_majority:
    "reached bridges acks \<Longrightarrow> distinct bridges \<and> distinct acks \<and> set acks \<subseteq> set bridges
       \<and> 2 * length acks > length bridges"
begin

lemma reached_nonempty: "reached bridges acks \<Longrightarrow> acks \<noteq> []"
  using reached_majority by fastforce

lemma reached_intersect:
  assumes "reached bridges acks" and "reached bridges' acks'" and "set bridges = set bridges'"
  shows "\<exists>b \<in> set bridges. b \<in> set acks \<and> b \<in> set acks'"
proof (rule ccontr)
  assume "\<not> ?thesis"
  then have disj: "set acks \<inter> set acks' = {}"
    using reached_majority [OF assms(1)] by auto
  note m = reached_majority [OF assms(1)] and m' = reached_majority [OF assms(2)]
  have "card (set acks \<union> set acks') = length acks + length acks'"
    using m m' disj by (simp add: card_Un_disjoint distinct_card)
  moreover have "card (set acks \<union> set acks') \<le> card (set bridges)"
    using m m' assms(3) by (auto intro: card_mono)
  moreover have "length bridges = card (set bridges)" "length bridges' = card (set bridges)"
    using m m' assms(3) by (simp_all add: distinct_card [symmetric])
  ultimately show False using m m' by linarith
qed

end

section \<open>Registration acknowledgements\<close>

datatype host_role = Primary | Replica

fun role_name_of :: "host_role \<Rightarrow> string" where
  "role_name_of Primary = ''primary''"
| "role_name_of Replica = ''replica''"

record ack_binding =
  ab_hash :: string
  ab_epoch :: int
  ab_role :: host_role

definition bindingKey :: "ack_binding \<Rightarrow> string" where
  "bindingKey b = ab_hash b @ NUL @ show_int (ab_epoch b) @ NUL @ role_name_of (ab_role b)"

record ack_quorum =
  aq_bridges :: "string list"
  aq_key :: "string option"
  aq_acks :: "string list"
  aq_round :: "string option"
  aq_live :: "string list"

definition new_quorum :: "string list \<Rightarrow> exn + ack_quorum" where
  "new_quorum ids =
     (if length ids < 1 \<or> length ids > 3 \<or> length (remdups ids) \<noteq> length ids
      then Inl (AppError ''registration quorum requires one to three unique bridge ids'')
      else Inr \<lparr>aq_bridges = ids, aq_key = None, aq_acks = [], aq_round = None, aq_live = []\<rparr>)"

definition quorum_begin :: "ack_binding \<Rightarrow> ack_quorum \<Rightarrow> ack_quorum" where
  "quorum_begin b q =
     (let next_key = bindingKey b in
      if Some next_key = aq_key q then q
      else q\<lparr>aq_key := Some next_key, aq_acks := [], aq_round := None, aq_live := []\<rparr>)"

definition acknowledge :: "string \<Rightarrow> ack_binding \<Rightarrow> ack_quorum \<Rightarrow> bool \<times> ack_quorum" where
  "acknowledge bridge b q =
     (if bridge \<notin> set (aq_bridges q) \<or> Some (bindingKey b) \<noteq> aq_key q then (False, q)
      else (True, q\<lparr>aq_acks := js_add bridge (aq_acks q), aq_live := js_add bridge (aq_live q)\<rparr>))"

definition beginLivenessRound :: "ack_binding \<Rightarrow> string \<Rightarrow> ack_quorum \<Rightarrow> bool \<times> ack_quorum" where
  "beginLivenessRound b round q =
     (if round = [] \<or> Some (bindingKey b) \<noteq> aq_key q then (False, q)
      else (True, q\<lparr>aq_round := Some round, aq_live := []\<rparr>))"

definition confirmLiveness :: "string \<Rightarrow> ack_binding \<Rightarrow> string \<Rightarrow> ack_quorum \<Rightarrow> bool \<times> ack_quorum" where
  "confirmLiveness bridge b round q =
     (if Some (bindingKey b) \<noteq> aq_key q \<or> Some round \<noteq> aq_round q \<or> bridge \<notin> set (aq_acks q)
      then (False, q)
      else (True, q\<lparr>aq_live := js_add bridge (aq_live q)\<rparr>))"

definition quorum_clear :: "ack_quorum \<Rightarrow> ack_quorum" where
  "quorum_clear q = q\<lparr>aq_key := None, aq_acks := [], aq_round := None, aq_live := []\<rparr>"

definition quorum_remove :: "string \<Rightarrow> ack_quorum \<Rightarrow> ack_quorum" where
  "quorum_remove bridge q =
     q\<lparr>aq_acks := js_delete bridge (aq_acks q), aq_live := js_delete bridge (aq_live q)\<rparr>"

definition hasStrictQuorum :: "ack_binding \<Rightarrow> ack_quorum \<Rightarrow> bool" where
  "hasStrictQuorum b q \<longleftrightarrow>
     Some (bindingKey b) = aq_key q \<and> length (aq_acks q) \<ge> length (aq_bridges q) div 2 + 1"

definition hasStrictLiveQuorum :: "ack_binding \<Rightarrow> ack_quorum \<Rightarrow> bool" where
  "hasStrictLiveQuorum b q \<longleftrightarrow>
     Some (bindingKey b) = aq_key q \<and> length (aq_live q) \<ge> length (aq_bridges q) div 2 + 1"

definition quorum_count :: "ack_binding \<Rightarrow> ack_quorum \<Rightarrow> nat" where
  "quorum_count b q = (if Some (bindingKey b) = aq_key q then length (aq_acks q) else 0)"

section \<open>The write lease\<close>

type_synonym lease = int

definition lease_reset :: "int \<Rightarrow> lease \<Rightarrow> lease" where
  "lease_reset now l = now"

definition lease_observe :: "ack_quorum \<Rightarrow> ack_binding \<Rightarrow> int \<Rightarrow> lease \<Rightarrow> bool \<times> lease" where
  "lease_observe q b now l = (if \<not> hasStrictLiveQuorum b q then (False, l) else (True, now))"

definition shouldFence :: "int \<Rightarrow> int \<Rightarrow> lease \<Rightarrow> bool" where
  "shouldFence timeout now l \<longleftrightarrow> now - l \<ge> timeout"

text \<open>\<open>fenceWriter\<close> is the caller's action on its own state; it runs only when the lease is over.\<close>

definition fenceIfQuorumExpired ::
  "int \<Rightarrow> ('s \<Rightarrow> bool \<times> 's) \<Rightarrow> int \<Rightarrow> lease \<Rightarrow> 's \<Rightarrow> bool \<times> 's" where
  "fenceIfQuorumExpired timeout fenceWriter now l s =
     (if shouldFence timeout now l then fenceWriter s else (False, s))"

section \<open>Promotion votes\<close>

text \<open>An observation is \<open>primaryOnline\<close>: true, false, or null for a bridge that did not answer.\<close>

definition strictBridgeWitnessQuorum :: "int \<Rightarrow> bool option list \<Rightarrow> bool" where
  "strictBridgeWitnessQuorum n obs =
     (if n < 2 \<or> n > 3 \<or> int (length obs) \<noteq> n then False
      else if list_ex (\<lambda>p. p = Some True) obs then False
      else length (filter (\<lambda>p. p = Some False) obs) \<ge> nat n div 2 + 1)"

section \<open>What every use of a quorum keeps\<close>

text \<open>The calls of a quorum object; \<open>quorum_call\<close> runs one.\<close>

datatype quorum_op =
    QBegin ack_binding
  | QAck string ack_binding
  | QRound ack_binding string
  | QLive string ack_binding string
  | QClear
  | QRemove string

fun quorum_call :: "quorum_op \<Rightarrow> ack_quorum \<Rightarrow> ack_quorum" where
  "quorum_call (QBegin b) q = quorum_begin b q"
| "quorum_call (QAck br b) q = snd (acknowledge br b q)"
| "quorum_call (QRound b r) q = snd (beginLivenessRound b r q)"
| "quorum_call (QLive br b r) q = snd (confirmLiveness br b r q)"
| "quorum_call QClear q = quorum_clear q"
| "quorum_call (QRemove br) q = quorum_remove br q"

inductive quorum_reachable :: "string list \<Rightarrow> ack_quorum \<Rightarrow> bool" for ids where
  created: "new_quorum ids = Inr q \<Longrightarrow> quorum_reachable ids q"
| called: "quorum_reachable ids q \<Longrightarrow> quorum_reachable ids (quorum_call c q)"

definition quorum_inv :: "string list \<Rightarrow> ack_quorum \<Rightarrow> bool" where
  "quorum_inv ids q \<longleftrightarrow>
     aq_bridges q = ids \<and> distinct ids \<and> 1 \<le> length ids \<and> length ids \<le> 3 \<and>
     distinct (aq_acks q) \<and> distinct (aq_live q) \<and>
     set (aq_live q) \<subseteq> set (aq_acks q) \<and> set (aq_acks q) \<subseteq> set ids \<and>
     (aq_key q = None \<longrightarrow> aq_acks q = [] \<and> aq_round q = None)"

lemmas quorum_op_defs =
  quorum_begin_def acknowledge_def beginLivenessRound_def confirmLiveness_def quorum_clear_def
  quorum_remove_def

lemma new_quorum_inv: "new_quorum ids = Inr q \<Longrightarrow> quorum_inv ids q"
  by (auto simp: new_quorum_def quorum_inv_def Suc_le_eq card_distinct length_remdups_card_conv
      split: if_splits)

lemma quorum_call_inv: "quorum_inv ids q \<Longrightarrow> quorum_inv ids (quorum_call c q)"
  by (cases c; cases "aq_key q") (auto simp: quorum_inv_def quorum_op_defs Let_def)

lemma quorum_reachable_inv: "quorum_reachable ids q \<Longrightarrow> quorum_inv ids q"
  by (induction rule: quorum_reachable.induct) (auto intro: new_quorum_inv quorum_call_inv)

lemma live_is_registration: "quorum_inv ids q \<Longrightarrow> hasStrictLiveQuorum b q \<Longrightarrow> hasStrictQuorum b q"
proof -
  assume inv: "quorum_inv ids q" and live: "hasStrictLiveQuorum b q"
  have "length (aq_live q) \<le> length (aq_acks q)"
    using inv by (auto simp: quorum_inv_def distinct_card [symmetric] intro: card_mono)
  with live show ?thesis by (simp add: hasStrictLiveQuorum_def hasStrictQuorum_def)
qed

text \<open>The acknowledgement quorum of reachable objects is a strict majority.\<close>

definition ack_reached :: "string list \<Rightarrow> string list \<Rightarrow> bool" where
  "ack_reached ids acks \<longleftrightarrow>
     (\<exists>q b. quorum_reachable ids q \<and> hasStrictQuorum b q \<and> acks = aq_acks q)"

interpretation ackq: strict_majority ack_reached
proof
  fix bridges acks assume "ack_reached bridges acks"
  then obtain q b where "quorum_reachable bridges q" "hasStrictQuorum b q" "acks = aq_acks q"
    by (auto simp: ack_reached_def)
  then show "distinct bridges \<and> distinct acks \<and> set acks \<subseteq> set bridges
       \<and> 2 * length acks > length bridges"
    by (auto dest!: quorum_reachable_inv simp: quorum_inv_def hasStrictQuorum_def)
qed

lemma bindingKey_eq:
  assumes "CHR 0x00 \<notin> set (ab_hash b)" "CHR 0x00 \<notin> set (ab_hash b')" "bindingKey b = bindingKey b'"
  shows "b = b'"
proof -
  from assms(3) have "ab_hash b @ CHR 0x00 # show_int (ab_epoch b) @ CHR 0x00 # role_name_of (ab_role b) =
      ab_hash b' @ CHR 0x00 # show_int (ab_epoch b') @ CHR 0x00 # role_name_of (ab_role b')"
    by (simp add: bindingKey_def NUL_def)
  then have "ab_hash b = ab_hash b'" "ab_epoch b = ab_epoch b'"
    "role_name_of (ab_role b) = role_name_of (ab_role b')"
    by (simp_all add: append_sep_inj assms(1,2) show_int_no_nul)
  then show "b = b'" by (cases "ab_role b"; cases "ab_role b'") auto
qed

section \<open>Properties\<close>

definition demo_binding :: ack_binding where
  "demo_binding = \<lparr>ab_hash = ''h1'', ab_epoch = 4, ab_role = Primary\<rparr>"

definition demo_quorum :: ack_quorum where
  "demo_quorum =
     quorum_call (QAck ''b2'' demo_binding) (quorum_call (QAck ''b1'' demo_binding)
       (quorum_call (QBegin demo_binding)
         \<lparr>aq_bridges = [''b1'', ''b2'', ''b3''], aq_key = None, aq_acks = [], aq_round = None, aq_live = []\<rparr>))"

lemma demo_reachable: "quorum_reachable [''b1'', ''b2'', ''b3''] demo_quorum"
  unfolding demo_quorum_def
  by (intro quorum_reachable.called, rule quorum_reachable.created) (simp add: new_quorum_def)

lemma demo_quorum_eq:
  "demo_quorum = \<lparr>aq_bridges = [''b1'', ''b2'', ''b3''], aq_key = Some (bindingKey demo_binding),
     aq_acks = [''b1'', ''b2''], aq_round = None, aq_live = [''b1'', ''b2'']\<rparr>"
  by (simp add: demo_quorum_def quorum_op_defs js_add_def Let_def)

lemma demo_strict: "hasStrictQuorum demo_binding demo_quorum" "hasStrictLiveQuorum demo_binding demo_quorum"
  by (simp_all add: demo_quorum_eq hasStrictQuorum_def hasStrictLiveQuorum_def)

text \<open>
  Whatever calls a coordinator makes, the object counts each configured bridge at most once, live
  acknowledgements only from bridges that acknowledged the round, and none at all without a round;
  so a live quorum is always a registration quorum too.
\<close>

theorem quorum_object_invariant:
  assumes "quorum_reachable ids q"
  shows "distinct (aq_acks q) \<and> distinct (aq_live q) \<and> set (aq_live q) \<subseteq> set (aq_acks q)
       \<and> set (aq_acks q) \<subseteq> set ids \<and> length (aq_acks q) \<le> 3
       \<and> (aq_key q = None \<longrightarrow> aq_acks q = [])
       \<and> (\<forall>b. hasStrictLiveQuorum b q \<longrightarrow> hasStrictQuorum b q)"
proof -
  from assms have inv: "quorum_inv ids q" by (rule quorum_reachable_inv)
  have le: "length (aq_live q) \<le> length (aq_acks q)" "length (aq_acks q) \<le> length ids"
    using inv by (auto simp: quorum_inv_def distinct_card [symmetric] intro: card_mono)
  then show ?thesis
    using inv by (auto simp: quorum_inv_def hasStrictLiveQuorum_def hasStrictQuorum_def)
qed

theorem quorum_object_invariant_witness:
  "set (aq_live demo_quorum) \<subseteq> set (aq_acks demo_quorum) \<and> hasStrictQuorum demo_binding demo_quorum"
  using quorum_object_invariant [OF demo_reachable] demo_strict by blast

text \<open>
  Two coordinators configured with the same bridges, whatever their bindings, cannot both hold a
  strict quorum without a bridge that acknowledged both: write authority for two records needs one
  bridge to have answered for each.
\<close>

theorem registration_quorums_intersect:
  assumes "quorum_reachable ids q" and "quorum_reachable ids' q'" and "set ids = set ids'"
    and "hasStrictQuorum b q" and "hasStrictQuorum b' q'"
  shows "\<exists>bridge \<in> set ids. bridge \<in> set (aq_acks q) \<and> bridge \<in> set (aq_acks q')"
proof -
  have "ack_reached ids (aq_acks q)" "ack_reached ids' (aq_acks q')"
    using assms by (auto simp: ack_reached_def)
  then show ?thesis using ackq.reached_intersect assms(3) by blast
qed

theorem registration_quorums_intersect_witness:
  "\<exists>bridge \<in> set [''b1'', ''b2'', ''b3'']. bridge \<in> set (aq_acks demo_quorum) \<and> bridge \<in> set (aq_acks demo_quorum)"
  using registration_quorums_intersect [OF demo_reachable demo_reachable refl demo_strict(1) demo_strict(1)] .

text \<open>
  Acknowledgements are bound to one exact record: once a round for \<open>b\<close> has begun, a different
  binding (another record hash, epoch or role; hashes are hex, so hold no NUL) has no quorum and no
  count, its acknowledgements and liveness confirmations are refused and change nothing; and
  beginning a round other than the active one forgets every earlier acknowledgement.
\<close>

theorem acknowledgements_bound_to_round:
  assumes "CHR 0x00 \<notin> set (ab_hash b)" and "CHR 0x00 \<notin> set (ab_hash b')" and "b \<noteq> b'"
  shows "\<not> hasStrictQuorum b' (quorum_begin b q) \<and> \<not> hasStrictLiveQuorum b' (quorum_begin b q)
       \<and> quorum_count b' (quorum_begin b q) = 0
       \<and> acknowledge bridge b' (quorum_begin b q) = (False, quorum_begin b q)
       \<and> confirmLiveness bridge b' round (quorum_begin b q) = (False, quorum_begin b q)
       \<and> (aq_key q = Some (bindingKey b') \<longrightarrow> quorum_count b (quorum_begin b q) = 0)"
proof -
  have ne: "bindingKey b' \<noteq> bindingKey b" using bindingKey_eq [OF assms(2,1)] assms(3) by auto
  have key: "aq_key (quorum_begin b q) = Some (bindingKey b)"
    by (auto simp: quorum_begin_def Let_def)
  show ?thesis
    using ne by (auto simp: key hasStrictQuorum_def hasStrictLiveQuorum_def quorum_count_def
        acknowledge_def confirmLiveness_def) (auto simp: quorum_begin_def Let_def)
qed

theorem acknowledgements_bound_to_round_witness:
  "\<not> hasStrictQuorum (demo_binding\<lparr>ab_epoch := 5\<rparr>) (quorum_begin demo_binding demo_quorum)"
  using acknowledgements_bound_to_round [of demo_binding "demo_binding\<lparr>ab_epoch := 5\<rparr>"]
  by (simp add: demo_binding_def)

text \<open>
  A strict witness quorum needs two or three configured bridges, no bridge that still sees the
  primary, and a strict majority that reported it absent; silence never counts as absence.
\<close>

theorem witness_quorum_iff:
  "strictBridgeWitnessQuorum n obs \<longleftrightarrow>
     (n = 2 \<or> n = 3) \<and> int (length obs) = n \<and> Some True \<notin> set obs \<and> count_list obs (Some False) \<ge> 2"
proof -
  have "length (filter (\<lambda>p. p = Some False) obs) = count_list obs (Some False)"
    by (induction obs) auto
  moreover have "list_ex (\<lambda>p. p = Some True) obs \<longleftrightarrow> Some True \<in> set obs"
    by (auto simp: list_ex_iff)
  moreover have "n < 2 \<or> n > 3 \<longleftrightarrow> \<not> (n = 2 \<or> n = 3)" by auto
  ultimately show ?thesis unfolding strictBridgeWitnessQuorum_def by auto
qed

lemma witness_votes:
  assumes "strictBridgeWitnessQuorum (int (length ids)) (map f ids)" and "distinct ids"
  shows "2 * length (filter (\<lambda>i. f i = Some False) ids) > length ids"
  using assms by (auto simp: strictBridgeWitnessQuorum_def filter_map o_def split: if_splits)

definition votes_reached :: "string list \<Rightarrow> string list \<Rightarrow> bool" where
  "votes_reached ids voters \<longleftrightarrow>
     distinct ids \<and> (\<exists>f. strictBridgeWitnessQuorum (int (length ids)) (map f ids) \<and>
        voters = filter (\<lambda>i. f i = Some False) ids)"

interpretation voteq: strict_majority votes_reached
  by unfold_locales (auto simp: votes_reached_def dest: witness_votes)

interpretation authority: strict_majority "\<lambda>ids acks. ack_reached ids acks \<or> votes_reached ids acks"
  using ackq.reached_majority voteq.reached_majority by unfold_locales blast

text \<open>
  No promotion behind a live writer's back: if the bridges vote a replica into a promotion while
  the old primary's coordinator over the same bridges holds a live quorum, then some bridge both
  confirmed the old primary live in the current round and reported it absent to the replica. With
  bridges that answer consistently the two cannot coexist.
\<close>

theorem promotion_conflicts_with_live_quorum:
  assumes "quorum_reachable ids q" and "hasStrictLiveQuorum b q"
    and "distinct ids'" and "set ids' = set ids"
    and "strictBridgeWitnessQuorum (int (length ids')) (map seen ids')"
  shows "\<exists>bridge \<in> set (aq_acks q). seen bridge = Some False"
proof -
  have "hasStrictQuorum b q" using live_is_registration quorum_reachable_inv [OF assms(1)] assms(2) by blast
  then have "ack_reached ids (aq_acks q)" using assms(1) by (auto simp: ack_reached_def)
  moreover have "votes_reached ids' (filter (\<lambda>i. seen i = Some False) ids')"
    using assms(3,5) by (auto simp: votes_reached_def)
  ultimately show ?thesis
    using authority.reached_intersect [of ids "aq_acks q" ids'] assms(4) by fastforce
qed

theorem promotion_conflicts_with_live_quorum_witness:
  "\<exists>bridge \<in> set (aq_acks demo_quorum).
     (\<lambda>i. if i = ''b1'' then None else Some False) bridge = Some False"
  by (rule promotion_conflicts_with_live_quorum
      [OF demo_reachable demo_strict(2), of "[''b1'', ''b2'', ''b3'']"])
     (simp_all add: strictBridgeWitnessQuorum_def)

text \<open>A lease observed over a run of liveness rounds.\<close>

fun lease_run :: "lease \<Rightarrow> (ack_quorum \<times> ack_binding \<times> int) list \<Rightarrow> lease" where
  "lease_run l [] = l"
| "lease_run l ((q, b, t) # evs) = lease_run (snd (lease_observe q b t l)) evs"

lemma lease_run_fence:
  "sorted (l # map (snd \<circ> snd) evs) \<Longrightarrow>
   shouldFence d now (lease_run l evs) \<longleftrightarrow>
     now - l \<ge> d \<and> (\<forall>(q, b, t) \<in> set evs. hasStrictLiveQuorum b q \<longrightarrow> now - t \<ge> d)"
proof (induction l evs rule: lease_run.induct)
  case (1 l)
  then show ?case by (simp add: shouldFence_def)
next
  case (2 l q b t evs)
  show ?case
  proof (cases "hasStrictLiveQuorum b q")
    case True
    with 2 have "shouldFence d now (lease_run t evs) \<longleftrightarrow>
       now - t \<ge> d \<and> (\<forall>(q, b, t) \<in> set evs. hasStrictLiveQuorum b q \<longrightarrow> now - t \<ge> d)"
      by (auto simp: lease_observe_def)
    with True 2(2) show ?thesis by (auto simp: lease_observe_def)
  next
    case False
    with 2 show ?thesis by (auto simp: lease_observe_def)
  qed
qed

text \<open>
  The lease is bounded: over any run of observations with non-decreasing times, the writer is to
  be fenced exactly when neither the initial proof nor any observation with a strict live quorum
  falls within the timeout; observations of a minority extend nothing.
\<close>

theorem lease_expires_without_quorum:
  assumes "sorted (l # map (snd \<circ> snd) evs)"
  shows "fst (fenceIfQuorumExpired d (\<lambda>s. (True, s)) now (lease_run l evs) s) \<longleftrightarrow>
     now - l \<ge> d \<and> (\<forall>q b t. (q, b, t) \<in> set evs \<longrightarrow> hasStrictLiveQuorum b q \<longrightarrow> now - t \<ge> d)"
  using lease_run_fence [OF assms, of d now] by (auto simp: fenceIfQuorumExpired_def)

theorem lease_expires_without_quorum_witness:
  "fst (fenceIfQuorumExpired 30 (\<lambda>s. (True, s)) 100
      (lease_run 10 [(quorum_remove ''b2'' demo_quorum, demo_binding, 90)]) ())"
  by (subst lease_expires_without_quorum)
     (simp_all add: demo_quorum_eq quorum_remove_def js_delete_def hasStrictLiveQuorum_def)

end
