(* ===== verification/Protocol.thy ===== *)
theory Protocol
  imports Prelude "HOL-Library.Multiset" "HOL-Library.Word"
begin

text \<open>
  The wire protocol's own machinery, \<open>packages/protocol/src/index.ts\<close>: fragmentation of a payload
  into bounded frames, the sliding anti-replay window and the per-sender sequence numbers.
\<close>

type_synonym byte = "8 word"

section \<open>Fragments\<close>

definition MAX_FRAME_BYTES :: nat where "MAX_FRAME_BYTES = 64 * 1024"

record fragment =
  fr_message :: string
  fr_index :: nat
  fr_total :: nat
  fr_data :: "byte list"

definition ceil_div :: "nat \<Rightarrow> nat \<Rightarrow> nat" where
  "ceil_div a b = (a + b - 1) div b"

text \<open>\<open>data.subarray(i * max, (i + 1) * max)\<close>\<close>

definition subarray :: "nat \<Rightarrow> nat \<Rightarrow> 'a list \<Rightarrow> 'a list" where
  "subarray from until xs = take (until - from) (drop from xs)"

definition fragmentMessage :: "string \<Rightarrow> byte list \<Rightarrow> nat \<Rightarrow> fragment list" where
  "fragmentMessage msg data maxBytes =
     (let n = max 1 (ceil_div (length data) maxBytes)
      in map (\<lambda>i. \<lparr>fr_message = msg, fr_index = i, fr_total = n,
                  fr_data = subarray (i * maxBytes) ((i + 1) * maxBytes) data\<rparr>) [0..<n])"

definition defragment :: "fragment list \<Rightarrow> exn + byte list" where
  "defragment fs =
     (case fs of
        [] \<Rightarrow> Inl (AppError ''no fragments'')
      | f # _ \<Rightarrow>
          (if length fs \<noteq> fr_total f then Inl (AppError ''incomplete fragments'')
           else Inr (concat (map fr_data (sort_key fr_index fs)))))"

lemma ceil_div_bounds:
  assumes "0 < b"
  shows "a \<le> ceil_div a b * b" and "0 < a \<Longrightarrow> (ceil_div a b - 1) * b < a"
proof -
  have "(a + b - 1) div b * b + (a + b - 1) mod b = a + b - 1" by simp
  moreover have "(a + b - 1) mod b \<le> b - 1"
    using mod_less_divisor [OF assms, of "a + b - 1"] by linarith
  ultimately show "a \<le> ceil_div a b * b" using assms unfolding ceil_div_def by linarith
next
  assume "0 < a"
  have "(a + b - 1) div b * b \<le> a + b - 1" by simp
  then have "ceil_div a b * b < a + b" using assms \<open>0 < a\<close> unfolding ceil_div_def by linarith
  then show "(ceil_div a b - 1) * b < a" using assms \<open>0 < a\<close> by (simp add: diff_mult_distrib less_diff_conv2 le_less_trans)
qed

lemma concat_blocks:
  "concat (map (\<lambda>i. subarray (i * m) ((i + 1) * m) xs) [0..<n]) = take (n * m) xs"
proof (induction n)
  case (Suc n)
  then show ?case by (simp add: subarray_def take_add [symmetric] add.commute)
qed simp

lemma fragment_blocks:
  assumes "0 < m"
  shows "concat (map fr_data (fragmentMessage msg data m)) = data"
proof -
  have "length data \<le> max 1 (ceil_div (length data) m) * m"
    using ceil_div_bounds(1) [OF assms, of "length data"]
    by (rule order_trans) (intro mult_le_mono1 max.cobounded2)
  then have "take (max 1 (ceil_div (length data) m) * m) data = data" by simp
  then show ?thesis
    by (simp only: fragmentMessage_def Let_def map_map o_def fragment.simps concat_blocks)
qed

lemma sort_key_of_permutation:
  assumes "mset xs = mset ys" and "sorted (map f ys)" and "distinct (map f ys)"
  shows "sort_key f xs = ys"
proof (rule map_sorted_distinct_set_unique)
  have set: "set xs = set ys" using assms(1) by (rule mset_eq_setD)
  have map: "mset (map f xs) = mset (map f ys)" using assms(1) by simp
  show "inj_on f (set (sort_key f xs) \<union> set ys)" using assms(3) set by (simp add: distinct_map)
  show "distinct (map f (sort_key f xs))"
    using assms(3) map by (metis mset_eq_imp_distinct_iff mset_map mset_sort)
qed (use assms in \<open>auto dest: mset_eq_setD\<close>)

text \<open>
  Fragments survive any reordering: reassembling a permutation of the fragments of a message
  gives back its bytes, for every message (the empty one too) and every positive frame size.
\<close>

theorem defragment_fragmentMessage:
  assumes "0 < maxBytes" and "mset fs = mset (fragmentMessage msg data maxBytes)"
  shows "defragment fs = Inr data"
proof -
  let ?n = "max 1 (ceil_div (length data) maxBytes)"
  have set: "set fs = set (fragmentMessage msg data maxBytes)" using assms(2) by (rule mset_eq_setD)
  have len: "length fs = ?n"
    using arg_cong [OF assms(2), of size] by (simp add: fragmentMessage_def Let_def)
  then obtain f gs where fs: "fs = f # gs" by (cases fs) auto
  then have "f \<in> set (fragmentMessage msg data maxBytes)" using set by auto
  then have total: "fr_total f = ?n" by (auto simp: fragmentMessage_def Let_def)
  have "sort_key fr_index fs = fragmentMessage msg data maxBytes"
    by (rule sort_key_of_permutation [OF assms(2)]) (simp_all add: fragmentMessage_def Let_def o_def)
  with fragment_blocks [OF assms(1), of msg data] show ?thesis
    using len total by (simp add: defragment_def fs)
qed

theorem defragment_fragmentMessage_witness:
  "defragment (rev (fragmentMessage ''m'' [1, 2, 3] 2)) = Inr [1, 2, 3 :: byte]"
  by (rule defragment_fragmentMessage [of 2 _ "''m''"]) simp_all

text \<open>
  Every fragment fits the frame: none carries more than the frame size, they all announce the
  same number of fragments, and no more fragments are made than needed.
\<close>

theorem fragments_bounded:
  assumes "0 < maxBytes" and "f \<in> set (fragmentMessage msg data maxBytes)"
  shows "length (fr_data f) \<le> maxBytes \<and> fr_total f = length (fragmentMessage msg data maxBytes)
       \<and> fr_index f < fr_total f
       \<and> (data \<noteq> [] \<longrightarrow> (fr_total f - 1) * maxBytes < length data)"
  using assms ceil_div_bounds(2) [OF assms(1), of "length data"]
  by (auto simp: fragmentMessage_def Let_def subarray_def max_def)

theorem fragments_bounded_witness:
  "length (fr_data (last (fragmentMessage ''m'' [1, 2, 3] 2))) \<le> 2"
  using fragments_bounded [of 2 "last (fragmentMessage ''m'' [1, 2, 3] 2)" "''m''" "[1, 2, 3]"]
    last_in_set [of "fragmentMessage ''m'' [1, 2, 3] 2"]
  by (simp add: fragmentMessage_def Let_def ceil_div_def)

section \<open>The anti-replay window\<close>

text \<open>\<open>seen\<close> in insertion order: message id and the time it was accepted.\<close>

type_synonym replay_guard = "(string \<times> int) list"

definition replay_prune :: "int \<Rightarrow> int \<Rightarrow> replay_guard \<Rightarrow> replay_guard" where
  "replay_prune ttl now seen = filter (\<lambda>(i, t). \<not> now - t > ttl) seen"

definition replay_check :: "int \<Rightarrow> int \<Rightarrow> string \<Rightarrow> replay_guard \<Rightarrow> bool \<times> replay_guard" where
  "replay_check ttl now msg seen =
     (let seen' = replay_prune ttl now seen in
      if msg \<in> fst ` set seen' then (False, seen') else (True, seen' @ [(msg, now)]))"

definition replay_size :: "replay_guard \<Rightarrow> nat" where
  "replay_size seen = length seen"

definition replay_inv :: "int \<Rightarrow> int \<Rightarrow> replay_guard \<Rightarrow> bool" where
  "replay_inv ttl now seen \<longleftrightarrow>
     distinct (map fst seen) \<and> (\<forall>(i, t) \<in> set seen. t \<le> now \<and> now - t \<le> ttl)"

fun replay_run :: "int \<Rightarrow> (int \<times> string) list \<Rightarrow> replay_guard \<Rightarrow> bool list \<times> replay_guard" where
  "replay_run ttl [] g = ([], g)"
| "replay_run ttl ((now, m) # evs) g =
     (let (b, g') = replay_check ttl now m g; (bs, g'') = replay_run ttl evs g' in (b # bs, g''))"

lemma replay_check_inv:
  assumes "0 \<le> ttl" and "\<forall>(i, t) \<in> set g. t \<le> now" and "distinct (map fst g)"
  shows "replay_inv ttl now (snd (replay_check ttl now m g))"
  using assms by (auto simp: replay_check_def replay_prune_def replay_inv_def Let_def distinct_map_filter)

lemma replay_remembers:
  "(m, t) \<in> set g \<Longrightarrow> now - t \<le> ttl \<Longrightarrow>
   (m, t) \<in> set (snd (replay_check ttl now m' g)) \<and> (m' = m \<longrightarrow> \<not> fst (replay_check ttl now m' g))"
  by (force simp: replay_check_def replay_prune_def Let_def)

lemma replay_accepted_stored:
  "fst (replay_check ttl now m g) \<Longrightarrow> (m, now) \<in> set (snd (replay_check ttl now m g))"
  by (auto simp: replay_check_def Let_def split: if_splits)

lemma replay_run_remembered:
  "(m, t) \<in> set g \<Longrightarrow> i < length evs \<Longrightarrow> (\<forall>j \<le> i. fst (evs ! j) - t \<le> ttl) \<Longrightarrow> snd (evs ! i) = m \<Longrightarrow>
   \<not> fst (replay_run ttl evs g) ! i"
proof (induction evs arbitrary: g i)
  case Nil
  then show ?case by simp
next
  case (Cons e evs)
  obtain now m' where e: "e = (now, m')" by (cases e)
  obtain b g' where c: "replay_check ttl now m' g = (b, g')" by (cases "replay_check ttl now m' g")
  from Cons.prems(3) e have "now - t \<le> ttl" by (auto dest: spec [of _ 0])
  from replay_remembers [OF Cons.prems(1) this, of m']
  have keep: "(m, t) \<in> set g'" "m' = m \<longrightarrow> \<not> b" unfolding c fst_conv snd_conv by blast+
  show ?case
  proof (cases i)
    case 0
    with Cons.prems(4) e keep c show ?thesis by (simp add: split_def Let_def)
  next
    case (Suc i')
    have "\<not> fst (replay_run ttl evs g') ! i'"
    proof (rule Cons.IH [OF keep(1)])
      show "\<forall>j \<le> i'. fst (evs ! j) - t \<le> ttl"
        using Cons.prems(3) Suc by (auto dest: spec [of _ "Suc _"])
    qed (use Cons.prems Suc in auto)
    with Suc e c show ?thesis by (simp add: split_def Let_def)
  qed
qed

lemma length_replay_run: "length (fst (replay_run ttl evs g)) = length evs"
  by (induction evs arbitrary: g) (auto simp: split_def Let_def)

text \<open>
  No replay inside the window: over any run of checks whose clock never goes back, if a message id
  is accepted twice then more than the window's length passed between the two.
\<close>

theorem replay_accepts_once_per_window:
  assumes "sorted (map fst evs)" and "i < j" and "j < length evs"
    and "snd (evs ! i) = snd (evs ! j)"
    and "fst (replay_run ttl evs g) ! i" and "fst (replay_run ttl evs g) ! j"
  shows "fst (evs ! j) - fst (evs ! i) > ttl"
  using assms
proof (induction evs arbitrary: g i j)
  case Nil
  then show ?case by simp
next
  case (Cons e evs)
  obtain now m where e: "e = (now, m)" by (cases e)
  obtain b g' where c: "replay_check ttl now m g = (b, g')" by (cases "replay_check ttl now m g")
  obtain j' where j: "j = Suc j'" using Cons.prems(2) by (cases j) auto
  have run: "fst (replay_run ttl (e # evs) g) = b # fst (replay_run ttl evs g')"
    by (simp add: e c split_def Let_def)
  show ?case
  proof (cases i)
    case (Suc i')
    with Cons.prems j run have "fst (evs ! j') - fst (evs ! i') > ttl"
      by (intro Cons.IH [of i' j' g']) auto
    with Suc j show ?thesis by simp
  next
    case 0
    show ?thesis
    proof (rule ccontr)
      assume "\<not> ?thesis"
      then have le: "fst (evs ! j') - now \<le> ttl" by (simp add: 0 j e)
      have "\<forall>k \<le> j'. fst (evs ! k) - now \<le> ttl"
      proof (intro allI impI)
        fix k assume "k \<le> j'"
        with Cons.prems(1,3) j have "map fst evs ! k \<le> map fst evs ! j'"
          by (intro sorted_nth_mono) auto
        with \<open>k \<le> j'\<close> Cons.prems(3) j le show "fst (evs ! k) - now \<le> ttl" by simp
      qed
      moreover have "(m, now) \<in> set g'"
        using replay_accepted_stored [of ttl now m g] Cons.prems(5) 0 run by (simp add: c)
      ultimately have "\<not> fst (replay_run ttl evs g') ! j'"
        using Cons.prems(3,4) 0 j e by (intro replay_run_remembered [of m now]) auto
      with Cons.prems(6) j run show False by simp
    qed
  qed
qed

theorem replay_accepts_once_per_window_witness:
  "fst (replay_run 10 [(0, ''m''), (5, ''m''), (11, ''m'')] []) = [True, False, True] \<and> (11::int) - 0 > 10"
  using replay_accepts_once_per_window [of "[(0, ''m''), (5, ''m''), (11, ''m'')]" 0 2 10 "[]"]
  by (simp add: replay_check_def replay_prune_def image_iff Let_def)

text \<open>
  The window forgets: after any check no entry is older than the window, ids are stored once, so
  the table holds at most the ids accepted within it.
\<close>

theorem replay_window_bounded:
  assumes "0 \<le> ttl" and "replay_inv ttl now g" and "now \<le> now'"
  shows "replay_inv ttl now' (snd (replay_check ttl now' m g))"
  using assms by (intro replay_check_inv) (auto simp: replay_inv_def)

theorem replay_window_bounded_witness:
  "replay_inv 10 11 (snd (replay_check 10 11 ''n'' [(''m'', 0)]))"
  using replay_window_bounded [of 10 5 "[(''m'', 0)]" 11 "''n''"] by (simp add: replay_inv_def)

section \<open>Sequence numbers\<close>

type_synonym sequence_tracker = "string \<Rightarrow> int option"

definition seq_last :: "string \<Rightarrow> sequence_tracker \<Rightarrow> int" where
  "seq_last sender sq = (case sq sender of None \<Rightarrow> 0 | Some v \<Rightarrow> v)"

definition seq_next :: "string \<Rightarrow> sequence_tracker \<Rightarrow> int \<times> sequence_tracker" where
  "seq_next sender sq = (let v = seq_last sender sq + 1 in (v, sq(sender \<mapsto> v)))"

fun seq_run :: "string list \<Rightarrow> sequence_tracker \<Rightarrow> int list \<times> sequence_tracker" where
  "seq_run [] sq = ([], sq)"
| "seq_run (x # xs) sq = (let (v, sq') = seq_next x sq; (vs, sq'') = seq_run xs sq' in (v # vs, sq''))"

lemma seq_last_next: "seq_last x (snd (seq_next y sq)) = (if x = y then seq_last x sq + 1 else seq_last x sq)"
  by (auto simp: seq_next_def seq_last_def Let_def)

lemma fst_seq_next: "fst (seq_next x sq) = seq_last x sq + 1"
  by (simp add: seq_next_def Let_def)

text \<open>
  Sequence numbers have no gap and no repetition per sender, whatever the interleaving of senders:
  the number given to the \<open>i\<close>-th request is the sender's last number plus the requests of that sender
  so far.
\<close>

theorem sequence_counts_sender:
  assumes "i < length xs"
  shows "fst (seq_run xs sq) ! i = seq_last (xs ! i) sq + int (count_list (take (Suc i) xs) (xs ! i))"
  using assms
proof (induction xs arbitrary: sq i)
  case Nil
  then show ?case by simp
next
  case (Cons x xs)
  obtain v sq' where n: "seq_next x sq = (v, sq')" by (cases "seq_next x sq")
  then have v: "v = seq_last x sq + 1" and l: "\<And>y. seq_last y sq' = (if y = x then seq_last y sq + 1 else seq_last y sq)"
    using fst_seq_next [of x sq] seq_last_next [of _ x sq] by simp_all
  show ?case
  proof (cases i)
    case 0
    then show ?thesis by (simp add: n v split_def Let_def)
  next
    case (Suc i')
    then have "fst (seq_run xs sq') ! i' = seq_last (xs ! i') sq' + int (count_list (take (Suc i') xs) (xs ! i'))"
      using Cons by simp
    with Suc show ?thesis by (simp add: n l split_def Let_def)
  qed
qed

theorem sequence_counts_sender_witness:
  "fst (seq_run [''a'', ''b'', ''a''] Map.empty) ! 2 = 2"
  using sequence_counts_sender [of 2 "[''a'', ''b'', ''a'']" Map.empty]
  by (simp add: seq_last_def numeral_2_eq_2)

end
