(* ===== verification/Canonical.thy ===== *)
theory Canonical
  imports Prelude "HOL-Library.Multiset"
begin

text \<open>
  Canonical JSON and the Ed25519 envelope of signed documents (\<open>packages/crypto/src/index.ts\<close> and the
  first functions of \<open>packages/protocol/src/connectivity.ts\<close>). Ed25519, SHA-256, the URL parser and the
  UUID pattern of the schema library are the fields of \<open>crypto\<close>. Texts are lists of 8-bit characters.
\<close>

section \<open>Canonical JSON\<close>

text \<open>\<open>JSON.stringify\<close> of a string: the quote, the backslash and the control characters are escaped.\<close>

definition BS :: char where "BS = CHR 0x5C"

fun short_escape :: "nat \<Rightarrow> char option" where
  "short_escape n =
     (if n = 34 then Some DQ else if n = 92 then Some BS
      else if n = 8 then Some CHR ''b'' else if n = 9 then Some CHR ''t''
      else if n = 10 then Some CHR ''n'' else if n = 12 then Some CHR ''f''
      else if n = 13 then Some CHR ''r'' else None)"

definition hex_lower :: "nat \<Rightarrow> char" where
  "hex_lower d = (if d < 10 then digit d else char_of (87 + d))"

definition json_escape :: "char \<Rightarrow> string" where
  "json_escape c =
     (let n = of_char c :: nat in
      case short_escape n of
        Some e \<Rightarrow> [BS, e]
      | None \<Rightarrow>
          if n < 32 then [BS, CHR ''u'', CHR ''0'', CHR ''0'', hex_lower (n div 16), hex_lower (n mod 16)]
          else [c])"

definition json_quote :: "string \<Rightarrow> string" where
  "json_quote s = DQ # concat (map json_escape s) @ [DQ]"

primrec json_text :: "json \<Rightarrow> string" where
  "json_text JNull = ''null''"
| "json_text (JBool b) = (if b then ''true'' else ''false'')"
| "json_text (JNum n) = show_int n"
| "json_text (JStr s) = json_quote s"
| "json_text (JArr xs) = CHR ''['' # join '','' (map json_text xs) @ '']''"
| "json_text (JObj kvs) =
     CHR ''{'' # join '','' (map (\<lambda>(k, t). json_quote k @ CHR '':'' # t) (map (map_prod id json_text) kvs)) @ ''}''"

text \<open>
  \<open>canonicalize\<close> copies an object key by key in sorted order; enumerating the copy yields the keys
  that are array indices first, in numeric order, as every JavaScript object does.
\<close>

definition is_index :: "string \<Rightarrow> bool" where
  "is_index k \<longleftrightarrow>
     k \<noteq> [] \<and> list_all (\<lambda>c. 48 \<le> (of_char c :: nat) \<and> (of_char c :: nat) \<le> 57) k
     \<and> k = show_nat (read_digits k) \<and> read_digits k < 2 ^ 32 - 1"

definition own_key_order :: "(string \<times> 'a) list \<Rightarrow> (string \<times> 'a) list" where
  "own_key_order kvs =
     sort_key (\<lambda>kv. read_digits (fst kv)) (filter (\<lambda>kv. is_index (fst kv)) kvs)
     @ filter (\<lambda>kv. \<not> is_index (fst kv)) kvs"

primrec canonicalize :: "json \<Rightarrow> json" where
  "canonicalize JNull = JNull"
| "canonicalize (JBool b) = JBool b"
| "canonicalize (JNum n) = JNum n"
| "canonicalize (JStr s) = JStr s"
| "canonicalize (JArr xs) = JArr (map canonicalize xs)"
| "canonicalize (JObj kvs) = JObj (own_key_order (sort_key fst (map (map_prod id canonicalize) kvs)))"

definition canonicalJson :: "json \<Rightarrow> string" where
  "canonicalJson v = json_text (canonicalize v)"

text \<open>The key of every object of a value occurs once, as in every JavaScript object.\<close>

primrec distinct_keys :: "json \<Rightarrow> bool" where
  "distinct_keys JNull = True"
| "distinct_keys (JBool b) = True"
| "distinct_keys (JNum n) = True"
| "distinct_keys (JStr s) = True"
| "distinct_keys (JArr xs) = list_all id (map distinct_keys xs)"
| "distinct_keys (JObj kvs) =
     (distinct (map fst kvs) \<and> list_all snd (map (map_prod id distinct_keys) kvs))"

text \<open>Two values that differ at most in the order of the keys of their objects.\<close>

inductive same_json :: "json \<Rightarrow> json \<Rightarrow> bool" where
  same_null: "same_json JNull JNull"
| same_bool: "same_json (JBool b) (JBool b)"
| same_num: "same_json (JNum n) (JNum n)"
| same_str: "same_json (JStr s) (JStr s)"
| same_arr: "list_all2 same_json xs ys \<Longrightarrow> same_json (JArr xs) (JArr ys)"
| same_obj: "mset zs = mset ys \<Longrightarrow> list_all2 (rel_prod (=) same_json) xs zs \<Longrightarrow>
     same_json (JObj xs) (JObj ys)"
monos list.rel_mono_strong prod.rel_mono_strong

subsection \<open>The text determines the value\<close>

lemma hex_lower_code:
  "d < 16 \<Longrightarrow> of_char (hex_lower d) = (if d < 10 then 48 + d else 87 + d)"
  by (simp add: hex_lower_def of_char_digit)

lemma hex_lower_inj:
  assumes "d < 16" "e < 16"
  shows "hex_lower d = hex_lower e \<longleftrightarrow> d = e"
proof
  assume "hex_lower d = hex_lower e"
  then have "(of_char (hex_lower d) :: nat) = of_char (hex_lower e)" by simp
  then show "d = e" using assms by (simp add: hex_lower_code split: if_splits)
qed simp

lemma json_escape_cases:
  obtains (short) e where "short_escape (of_char c) = Some e" "json_escape c = [BS, e]" "e \<noteq> CHR ''u''"
  | (control) "short_escape (of_char c) = None" "(of_char c :: nat) < 32"
      "json_escape c = [BS, CHR ''u'', CHR ''0'', CHR ''0'', hex_lower (of_char c div 16), hex_lower (of_char c mod 16)]"
  | (plain) "json_escape c = [c]" "c \<noteq> BS" "c \<noteq> DQ"
proof (cases "short_escape (of_char c)")
  case (Some e)
  then have "e \<noteq> CHR ''u''" by (auto simp: DQ_def BS_def split: if_splits)
  with Some short show thesis by (simp add: json_escape_def)
next
  case None
  show thesis
  proof (cases "(of_char c :: nat) < 32")
    case True
    with None control show thesis by (simp add: json_escape_def Let_def)
  next
    case False
    from None have "c \<noteq> BS" "c \<noteq> DQ" by (auto simp: BS_def DQ_def)
    with False None plain show thesis by (simp add: json_escape_def Let_def)
  qed
qed

lemma short_escape_inj: "short_escape m = Some e \<Longrightarrow> short_escape n = Some e \<Longrightarrow> m = n"
  by (auto simp: DQ_def BS_def split: if_splits)

lemma json_escape_prefix: "json_escape c @ r = json_escape c' @ r' \<Longrightarrow> c = c' \<and> r = r'"
proof (cases c rule: json_escape_cases; cases c' rule: json_escape_cases)
  fix e e'
  assume "short_escape (of_char c) = Some e" "short_escape (of_char c') = Some e'"
    "json_escape c = [BS, e]" "json_escape c' = [BS, e']" "json_escape c @ r = json_escape c' @ r'"
  then show ?thesis using short_escape_inj [of "of_char c" e "of_char c'"] by auto
next
  assume "json_escape c = [BS, CHR ''u'', CHR ''0'', CHR ''0'', hex_lower (of_char c div 16), hex_lower (of_char c mod 16)]"
    and "json_escape c' = [BS, CHR ''u'', CHR ''0'', CHR ''0'', hex_lower (of_char c' div 16), hex_lower (of_char c' mod 16)]"
    and e: "json_escape c @ r = json_escape c' @ r'"
    and lt: "(of_char c :: nat) < 32" "(of_char c' :: nat) < 32"
  then have "hex_lower (of_char c div 16) = hex_lower (of_char c' div 16)"
    "hex_lower (of_char c mod 16) = hex_lower (of_char c' mod 16)" and r: "r = r'" by simp_all
  then have "(of_char c :: nat) div 16 = of_char c' div 16" "(of_char c :: nat) mod 16 = of_char c' mod 16"
    using lt by (simp_all add: hex_lower_inj)
  then have "(of_char c :: nat) = of_char c'" by (metis div_mult_mod_eq)
  with r show ?thesis by simp
qed auto

lemma json_escape_not_quote: "json_escape c @ r \<noteq> DQ # r'"
  by (cases c rule: json_escape_cases) (auto simp: DQ_def BS_def)

lemma json_quote_prefix: "json_quote s @ r = json_quote s' @ r' \<Longrightarrow> s = s' \<and> r = r'"
proof -
  have "concat (map json_escape s) @ DQ # r = concat (map json_escape s') @ DQ # r' \<Longrightarrow> s = s' \<and> r = r'"
  proof (induction s arbitrary: s')
    case Nil
    then show ?case
    proof (cases s')
      case (Cons c' t')
      with Nil have "json_escape c' @ concat (map json_escape t') @ DQ # r' = DQ # r" by simp
      then show ?thesis using json_escape_not_quote by blast
    qed simp
  next
    case (Cons c t)
    then show ?case
    proof (cases s')
      case Nil
      with Cons have "json_escape c @ concat (map json_escape t) @ DQ # r = DQ # r'" by simp
      then show ?thesis using json_escape_not_quote by blast
    next
      case (Cons c' t')
      with Cons.prems have "json_escape c @ (concat (map json_escape t) @ DQ # r)
          = json_escape c' @ (concat (map json_escape t') @ DQ # r')" by simp
      from json_escape_prefix [OF this] Cons.IH [of t'] Cons show ?thesis by simp
    qed
  qed
  then show "json_quote s @ r = json_quote s' @ r' \<Longrightarrow> s = s' \<and> r = r'"
    by (simp add: json_quote_def)
qed

text \<open>What may follow a value inside a text.\<close>

definition value_end :: "string \<Rightarrow> bool" where
  "value_end r \<longleftrightarrow> r = [] \<or> hd r \<in> {CHR '','', CHR '']'', CHR ''}''}"

lemma value_end_simps [simp]:
  "value_end []" "value_end (CHR '','' # r)" "value_end (CHR '']'' # r)" "value_end (CHR ''}'' # r)"
  by (simp_all add: value_end_def)

lemma value_end_Cons: "value_end (c # r) \<Longrightarrow> c = CHR '','' \<or> c = CHR '']'' \<or> c = CHR ''}''"
  by (simp add: value_end_def)

definition is_digit :: "char \<Rightarrow> bool" where
  "is_digit c \<longleftrightarrow> 48 \<le> (of_char c :: nat) \<and> (of_char c :: nat) < 58"

lemma show_nat_all_digits: "list_all is_digit (show_nat n)"
  using show_nat_digits by (auto simp: list_all_iff is_digit_def)

lemma value_end_no_digit: "value_end r \<Longrightarrow> takeWhile is_digit r = []"
  by (cases r) (auto simp: is_digit_def dest!: value_end_Cons)

lemma takeWhile_all: "list_all P xs \<Longrightarrow> takeWhile P (xs @ r) = xs @ takeWhile P r"
  by (induction xs) auto

lemma show_nat_prefix: "show_nat m @ r = show_nat n @ r' \<Longrightarrow> value_end r \<Longrightarrow> value_end r' \<Longrightarrow> m = n \<and> r = r'"
proof -
  assume e: "show_nat m @ r = show_nat n @ r'" and ends: "value_end r" "value_end r'"
  then have "takeWhile is_digit (show_nat m @ r) = takeWhile is_digit (show_nat n @ r')" by simp
  then have "show_nat m = show_nat n"
    by (simp add: takeWhile_all show_nat_all_digits value_end_no_digit ends)
  with e show ?thesis by simp
qed

lemma show_nat_nonempty: "show_nat n \<noteq> []"
  by (subst show_nat.simps) simp

lemma show_nat_neq_minus: "show_nat n @ s \<noteq> CHR ''-'' # t"
  using show_nat_no_minus [of n] show_nat_nonempty [of n] by (metis hd_append2 list.sel(1))

lemma show_int_prefix:
  assumes e: "show_int i @ r = show_int j @ r'" and ends: "value_end r" "value_end r'"
  shows "i = j \<and> r = r'"
proof (cases "i < 0")
  case True
  then have j: "j < 0" using e show_nat_neq_minus [symmetric] by (simp add: show_int_def split: if_splits)
  have "show_nat (nat (- i)) @ r = show_nat (nat (- j)) @ r'" using e True j by (simp add: show_int_def)
  from show_nat_prefix [OF this ends] True j show ?thesis by linarith
next
  case False
  then have j: "\<not> j < 0" using e show_nat_neq_minus by (simp add: show_int_def split: if_splits)
  have "show_nat (nat i) @ r = show_nat (nat j) @ r'" using e False j by (simp add: show_int_def)
  from show_nat_prefix [OF this ends] False j show ?thesis by linarith
qed

definition list_tail :: "string list \<Rightarrow> string \<Rightarrow> string" where
  "list_tail ts r = (if ts = [] then r else CHR '','' # join '','' ts @ r)"

lemma join_Cons_tail: "join '','' (t # ts) @ r = t @ list_tail ts r"
  by (cases ts) (simp_all add: list_tail_def)

lemma value_end_tail: "c = CHR '']'' \<or> c = CHR ''}'' \<Longrightarrow> value_end (list_tail ts (c # r))"
  by (auto simp: list_tail_def)

lemma join_inj:
  assumes "\<And>x y r r'. x \<in> set xs \<Longrightarrow> t x @ r = t y @ r' \<Longrightarrow> value_end r \<Longrightarrow> value_end r' \<Longrightarrow> x = y \<and> r = r'"
    and start: "\<And>x r. \<not> value_end (t x @ r)"
    and c: "c = CHR '']'' \<or> c = CHR ''}''"
    and "join '','' (map t xs) @ c # r = join '','' (map t ys) @ c # r'"
  shows "xs = ys \<and> r = r'"
  using assms(1,4)
proof (induction xs arbitrary: ys)
  case Nil
  show ?case
  proof (cases ys)
    case (Cons y ys')
    with Nil(2) have "t y @ list_tail (map t ys') (c # r') = c # r" by (simp add: join_Cons_tail)
    then have "value_end (t y @ list_tail (map t ys') (c # r'))" using c by auto
    with start show ?thesis by blast
  qed (use Nil in simp)
next
  case (Cons x xs)
  show ?case
  proof (cases ys)
    case Nil
    with Cons(3) have "t x @ list_tail (map t xs) (c # r) = c # r'" by (simp add: join_Cons_tail)
    then have "value_end (t x @ list_tail (map t xs) (c # r))" using c by auto
    with start show ?thesis by blast
  next
    case ys: (Cons y ys')
    with Cons(3) have "t x @ list_tail (map t xs) (c # r) = t y @ list_tail (map t ys') (c # r')"
      by (simp add: join_Cons_tail)
    from Cons(2) [OF _ this value_end_tail [OF c] value_end_tail [OF c]]
    have "x = y" and tails: "list_tail (map t xs) (c # r) = list_tail (map t ys') (c # r')" by auto
    have "xs = ys' \<and> r = r'"
    proof (cases "xs = [] \<or> ys' = []")
      case True
      then show ?thesis using tails c by (auto simp: list_tail_def split: if_splits)
    next
      case False
      then have "join '','' (map t xs) @ c # r = join '','' (map t ys') @ c # r'"
        using tails by (simp add: list_tail_def)
      with Cons.IH [of ys'] Cons(2) show ?thesis by auto
    qed
    with \<open>x = y\<close> ys show ?thesis by simp
  qed
qed

text \<open>The first character of a text tells the kind of the value.\<close>

definition kind_char :: "json \<Rightarrow> char \<Rightarrow> bool" where
  "kind_char v c =
     (case v of JNull \<Rightarrow> c = CHR ''n'' | JBool b \<Rightarrow> c = (if b then CHR ''t'' else CHR ''f'')
      | JNum n \<Rightarrow> c = CHR ''-'' \<or> is_digit c | JStr s \<Rightarrow> c = DQ | JArr xs \<Rightarrow> c = CHR ''[''
      | JObj kvs \<Rightarrow> c = CHR ''{'')"

lemma show_int_start: "\<exists>c s. show_int n = c # s \<and> (c = CHR ''-'' \<or> is_digit c)"
proof -
  have "\<exists>c s. show_nat m = c # s \<and> is_digit c" for m
    using show_nat_all_digits [of m] show_nat_nonempty [of m] by (cases "show_nat m") auto
  then show ?thesis unfolding show_int_def by (metis (full_types))
qed

lemma json_text_start: "\<exists>c s. json_text v = c # s \<and> kind_char v c"
proof (cases v)
  case (JNum n)
  then show ?thesis using show_int_start [of n] by (auto simp: kind_char_def)
qed (auto simp: kind_char_def json_quote_def)

lemma kind_char_end: "kind_char v c \<Longrightarrow> \<not> value_end (c # s)"
  by (cases v) (auto simp: kind_char_def value_end_def is_digit_def DQ_def split: if_splits)

lemma json_text_not_end: "\<not> value_end (json_text v @ r)"
  using json_text_start [of v] kind_char_end by auto

lemma kind_char_agree:
  assumes "json_text v @ r = json_text w @ r'"
  obtains c where "kind_char v c" "kind_char w c"
  using json_text_start [of v] json_text_start [of w] assms by auto

definition member_text :: "string \<times> json \<Rightarrow> string" where
  "member_text kv = json_quote (fst kv) @ CHR '':'' # json_text (snd kv)"

lemma json_text_obj: "json_text (JObj kvs) = CHR ''{'' # join '','' (map member_text kvs) @ ''}''"
proof -
  have "(\<lambda>(k, t). json_quote k @ CHR '':'' # t) \<circ> map_prod id json_text = member_text"
    by (simp add: fun_eq_iff member_text_def)
  then show ?thesis by (simp add: map_map)
qed

lemma member_text_not_end: "\<not> value_end (member_text kv @ r)"
  by (simp add: member_text_def json_quote_def value_end_def DQ_def)

lemma member_text_prefix:
  assumes v: "\<And>w r r'. json_text (snd x) @ r = json_text w @ r' \<Longrightarrow> value_end r \<Longrightarrow> value_end r' \<Longrightarrow> snd x = w \<and> r = r'"
    and "member_text x @ r = member_text y @ r'" and "value_end r" "value_end r'"
  shows "x = y \<and> r = r'"
proof -
  from assms(2) have "fst x = fst y" and "json_text (snd x) @ r = json_text (snd y) @ r'"
    using json_quote_prefix [of "fst x" "CHR '':'' # json_text (snd x) @ r" "fst y" "CHR '':'' # json_text (snd y) @ r'"]
    by (simp_all add: member_text_def)
  with v [OF this(2) assms(3,4)] show ?thesis by (simp add: prod_eq_iff)
qed

lemma json_text_prefix:
  "json_text v @ r = json_text w @ r' \<Longrightarrow> value_end r \<Longrightarrow> value_end r' \<Longrightarrow> v = w \<and> r = r'"
proof (induction v arbitrary: w r r')
  case JNull
  then obtain c where "kind_char JNull c" "kind_char w c" by (metis kind_char_agree)
  with JNull show ?case by (cases w) (auto simp: kind_char_def is_digit_def DQ_def split: if_splits)
next
  case (JBool b)
  then obtain c where "kind_char (JBool b) c" "kind_char w c" by (metis kind_char_agree)
  with JBool show ?case by (cases w; cases b) (auto simp: kind_char_def is_digit_def DQ_def split: if_splits)
next
  case (JNum n)
  then obtain c where "kind_char (JNum n) c" "kind_char w c" by (metis kind_char_agree)
  then obtain m where "w = JNum m" by (cases w) (auto simp: kind_char_def is_digit_def DQ_def split: if_splits)
  from JNum.prems(1) have "show_int n @ r = show_int m @ r'" by (simp add: \<open>w = JNum m\<close>)
  from show_int_prefix [OF this JNum.prems(2,3)] show ?case by (simp add: \<open>w = JNum m\<close>)
next
  case (JStr s)
  then obtain c where "kind_char (JStr s) c" "kind_char w c" by (metis kind_char_agree)
  then obtain t where "w = JStr t" by (cases w) (auto simp: kind_char_def is_digit_def DQ_def split: if_splits)
  from JStr.prems(1) have "json_quote s @ r = json_quote t @ r'" by (simp add: \<open>w = JStr t\<close>)
  from json_quote_prefix [OF this] show ?case by (simp add: \<open>w = JStr t\<close>)
next
  case (JArr xs)
  then obtain c where "kind_char (JArr xs) c" "kind_char w c" by (metis kind_char_agree)
  then obtain ys where w: "w = JArr ys" by (cases w) (auto simp: kind_char_def is_digit_def DQ_def split: if_splits)
  with JArr.prems have "join '','' (map json_text xs) @ CHR '']'' # r = join '','' (map json_text ys) @ CHR '']'' # r'"
    by simp
  from join_inj [OF JArr.IH json_text_not_end _ this] have "xs = ys \<and> r = r'" by blast
  then show ?case using w by simp
next
  case (JObj kvs)
  then obtain c where "kind_char (JObj kvs) c" "kind_char w c" by (metis kind_char_agree)
  then obtain ls where w: "w = JObj ls" by (cases w) (auto simp: kind_char_def is_digit_def DQ_def split: if_splits)
  with JObj.prems have "join '','' (map member_text kvs) @ CHR ''}'' # r = join '','' (map member_text ls) @ CHR ''}'' # r'"
    by (simp only: json_text_obj) simp
  moreover have "x = y \<and> q = q'"
    if "x \<in> set kvs" "member_text x @ q = member_text y @ q'" "value_end q" "value_end q'" for x y q q'
  proof (rule member_text_prefix [OF _ that(2-4)])
    have "snd x \<in> Basic_BNFs.snds x" by (cases x) simp
    then show "snd x = w \<and> p = p'"
      if "json_text (snd x) @ p = json_text w @ p'" "value_end p" "value_end p'" for w p p'
      using JObj.IH [OF \<open>x \<in> set kvs\<close> _ that] by blast
  qed
  ultimately have "kvs = ls \<and> r = r'"
    using join_inj [of kvs member_text "CHR ''}''" r ls r'] member_text_not_end by blast
  then show ?case using w by simp
qed

lemma json_text_inj: "json_text v = json_text w \<longleftrightarrow> v = w"
  using json_text_prefix [of v "[]" w "[]"] by auto

subsection \<open>Key order does not matter\<close>

lemma mset_own_key_order: "mset (own_key_order kvs) = mset kvs"
  by (simp add: own_key_order_def)

lemma matching_permutation:
  "mset (map f xs) = mset (map f ys) \<Longrightarrow> \<exists>zs. mset zs = mset ys \<and> map f xs = map f zs"
proof (induction xs arbitrary: ys)
  case (Cons x xs)
  then have "f x \<in># mset (map f ys)" by (metis list.set_intros(1) list.simps(9) set_mset_mset)
  then obtain y where y: "y \<in> set ys" "f y = f x" by auto
  then have "mset ys = add_mset y (mset (remove1 y ys))" by simp
  with Cons.prems y have "mset (map f xs) = mset (map f (remove1 y ys))"
    by (metis add_mset_add_mset_same_iff image_mset_add_mset list.simps(9) mset.simps(2) mset_map)
  from Cons.IH [OF this] obtain zs where "mset zs = mset (remove1 y ys)" "map f xs = map f zs" by blast
  with y show ?case by (intro exI [of _ "y # zs"]) simp
qed simp

lemma sort_key_permutation:
  "mset xs = mset ys \<Longrightarrow> distinct (map f xs) \<Longrightarrow> sort_key f xs = sort_key f ys"
  by (rule sort_key_inj_key_eq) (simp_all add: distinct_map)

lemma canonical_of_same: "same_json v w \<Longrightarrow> distinct_keys v \<Longrightarrow> distinct_keys w \<Longrightarrow> canonicalize v = canonicalize w"
proof (induction rule: same_json.induct)
  case (same_arr xs ys)
  from same_arr(1) same_arr(2,3) have "map canonicalize xs = map canonicalize ys"
    by (induction rule: list_all2_induct) auto
  then show ?case by simp
next
  case (same_obj zs ys xs)
  let ?f = "map_prod id canonicalize"
  have z: "distinct (map fst zs)" "\<forall>p \<in> set zs. distinct_keys (snd p)"
    using same_obj(1,4) mset_eq_setD [OF same_obj(1)]
    by (auto simp: list_all_iff) (metis mset_map mset_eq_imp_distinct_iff)
  have x: "\<forall>p \<in> set xs. distinct_keys (snd p)" using same_obj(3) by (auto simp: list_all_iff)
  from same_obj(2) x z(2) have m: "map ?f xs = map ?f zs"
    by (induction rule: list_all2_induct) auto
  have "mset (map ?f zs) = mset (map ?f ys)" using same_obj(1) by (simp add: mset_map)
  moreover have "map fst (map ?f zs) = map fst zs" by simp
  ultimately have "sort_key fst (map ?f zs) = sort_key fst (map ?f ys)"
    using sort_key_permutation [of "map ?f zs" "map ?f ys" fst] z(1) by simp
  with m show ?case by simp
qed auto

lemma same_of_canonical: "canonicalize v = canonicalize w \<Longrightarrow> same_json v w"
proof (induction v arbitrary: w)
  case JNull
  then show ?case by (cases w) (auto intro: same_json.intros)
next
  case (JBool b)
  then show ?case by (cases w) (auto intro: same_json.intros)
next
  case (JNum n)
  then show ?case by (cases w) (auto intro: same_json.intros)
next
  case (JStr s)
  then show ?case by (cases w) (auto intro: same_json.intros)
next
  case (JArr xs)
  from JArr.prems obtain ys where w: "w = JArr ys" and m: "map canonicalize xs = map canonicalize ys" by (cases w) auto
  from m have "list_all2 same_json xs ys" using JArr.IH
    by (auto simp: list_all2_conv_all_nth list_eq_iff_nth_eq)
  with w show ?case by (auto intro: same_json.intros)
next
  case (JObj kvs)
  let ?f = "map_prod id canonicalize"
  from JObj.prems obtain ls where w: "w = JObj ls"
    and e: "own_key_order (sort_key fst (map ?f kvs)) = own_key_order (sort_key fst (map ?f ls))"
    by (cases w) auto
  then have "mset (map ?f kvs) = mset (map ?f ls)"
    by (metis mset_own_key_order mset_sort)
  then obtain zs where z: "mset zs = mset ls" and m: "map ?f kvs = map ?f zs"
    using matching_permutation by blast
  have "list_all2 (rel_prod (=) same_json) kvs zs"
  proof (rule list_all2_all_nthI)
    show "length kvs = length zs" using m by (metis length_map)
    fix i assume i: "i < length kvs"
    with m have "?f (kvs ! i) = ?f (zs ! i)" by (metis length_map nth_map)
    moreover have "kvs ! i \<in> set kvs" "snd (kvs ! i) \<in> Basic_BNFs.snds (kvs ! i)"
      using i by (auto simp: snds.simps intro: prod.collapse [symmetric])
    ultimately show "rel_prod (=) same_json (kvs ! i) (zs ! i)"
      using JObj.IH by (cases "kvs ! i"; cases "zs ! i") auto
  qed
  with z w show ?case by (auto intro: same_json.intros)
qed

text \<open>
  C35. Canonical JSON is a faithful fingerprint of a value: two values whose objects have no repeated
  key have the same canonical text exactly when they differ at most in the order of object keys. So a
  signature or a hash over the canonical text covers every field of a document and nothing else.
\<close>

theorem canonical_json_determines_value:
  assumes "distinct_keys v" and "distinct_keys w"
  shows "canonicalJson v = canonicalJson w \<longleftrightarrow> same_json v w"
  unfolding canonicalJson_def json_text_inj
  using canonical_of_same [OF _ assms] same_of_canonical by blast

lemma reordered_same: "same_json (JObj [(''a'', JNum 1), (''b'', JNull)]) (JObj [(''b'', JNull), (''a'', JNum 1)])"
proof (rule same_json.same_obj)
  show "mset [(''a'', JNum 1), (''b'', JNull)] = mset [(''b'', JNull), (''a'', JNum 1)]" by simp
qed (simp add: same_json.intros)

theorem canonical_json_determines_value_witness:
  "canonicalJson (JObj [(''a'', JNum 1), (''b'', JNull)]) = canonicalJson (JObj [(''b'', JNull), (''a'', JNum 1)])"
  using canonical_json_determines_value [of "JObj [(''a'', JNum 1), (''b'', JNull)]" "JObj [(''b'', JNull), (''a'', JNum 1)]"]
    reordered_same by simp

section \<open>Signatures\<close>

text \<open>
  What comes from outside: \<open>is_uuid\<close> is the schema library's UUID pattern, \<open>parse_url\<close> is
  \<open>new URL(text)\<close> (\<open>None\<close> where it throws), the rest is \<open>node:crypto\<close> on base64url texts:
  \<open>public_key\<close> of a seed, \<open>fingerprint\<close> of a public key, \<open>sign_message\<close> with a seed and
  \<open>verify_message\<close> with a public key.
\<close>

record url =
  u_protocol :: string
  u_username :: string
  u_password :: string
  u_search :: string
  u_hash :: string
  u_hostname :: string

record crypto =
  is_uuid :: "string \<Rightarrow> bool"
  parse_url :: "string \<Rightarrow> url option"
  sha256Hex :: "string \<Rightarrow> string"
  public_key :: "string \<Rightarrow> string"
  fingerprint :: "string \<Rightarrow> string"
  sign_message :: "string \<Rightarrow> string \<Rightarrow> string"
  verify_message :: "string \<Rightarrow> string \<Rightarrow> string \<Rightarrow> bool"

record 'p signed =
  s_payload :: 'p
  s_key :: string
  s_signature :: string

definition B64URL_ALPHABET :: string where
  "B64URL_ALPHABET = ''ABCDEFGHIJKLMNOPQRSTUVWXYZabcdefghijklmnopqrstuvwxyz0123456789-_''"

definition b64url_char :: "char \<Rightarrow> bool" where
  "b64url_char c \<longleftrightarrow> c \<in> set B64URL_ALPHABET"

text \<open>The position of a character of the alphabet; the last sextet of a text carries unused low bits.\<close>

definition b64url_value :: "char \<Rightarrow> nat" where
  "b64url_value c = length (takeWhile (\<lambda>d. d \<noteq> c) B64URL_ALPHABET)"

text \<open>\<open>fromBase64Url\<close> accepts a text that encoding its decoded bytes gives back.\<close>

definition canonical_base64url :: "string \<Rightarrow> bool" where
  "canonical_base64url s \<longleftrightarrow>
     s \<noteq> [] \<and> list_all b64url_char s \<and>
     (case length s mod 4 of
        0 \<Rightarrow> True
      | Suc 0 \<Rightarrow> False
      | Suc (Suc 0) \<Rightarrow> b64url_value (last s) mod 16 = 0
      | _ \<Rightarrow> b64url_value (last s) mod 4 = 0)"

text \<open>\<open>Buffer.from(s, "base64url").length\<close> on a text of the alphabet\<close>

definition base64url_bytes :: "string \<Rightarrow> nat" where
  "base64url_bytes s = length (filter b64url_char s) * 6 div 8"

definition signature_domain_ok :: "string \<Rightarrow> bool" where
  "signature_domain_ok d \<longleftrightarrow>
     1 \<le> length d \<and> length d \<le> 64 \<and>
     list_all (\<lambda>c. (CHR ''a'' \<le> c \<and> c \<le> CHR ''z'') \<or> (CHR ''0'' \<le> c \<and> c \<le> CHR ''9'')
       \<or> c = CHR ''.'' \<or> c = CHR ''_'' \<or> c = CHR ''-'') d"

definition signatureMessage :: "string \<Rightarrow> json \<Rightarrow> exn + string" where
  "signatureMessage domain payload =
     (if \<not> signature_domain_ok domain then Inl (AppError ''invalid signature domain'')
      else Inr (domain @ NUL @ canonicalJson payload))"

definition signCanonicalPayload :: "'z crypto_scheme \<Rightarrow> string \<Rightarrow> string \<Rightarrow> json \<Rightarrow> exn + string" where
  "signCanonicalPayload c seed domain payload =
     (case signatureMessage domain payload of Inl e \<Rightarrow> Inl e | Inr m \<Rightarrow> Inr (sign_message c seed m))"

definition verifyCanonicalPayload :: "'z crypto_scheme \<Rightarrow> string \<Rightarrow> string \<Rightarrow> json \<Rightarrow> string \<Rightarrow> bool" where
  "verifyCanonicalPayload c key domain payload sig =
     (if base64url_bytes sig \<noteq> 64 then False
      else case signatureMessage domain payload of
        Inl e \<Rightarrow> False
      | Inr m \<Rightarrow> base64url_bytes key = 32 \<and> verify_message c key m sig)"

definition ed25519Fingerprint :: "'z crypto_scheme \<Rightarrow> string \<Rightarrow> exn + string" where
  "ed25519Fingerprint c key =
     (if base64url_bytes key \<noteq> 32 then Inl (AppError ''Ed25519 public key must be 32 bytes'')
      else Inr (fingerprint c key))"

definition signPayload :: "'z crypto_scheme \<Rightarrow> string \<Rightarrow> string \<Rightarrow> ('p \<Rightarrow> json) \<Rightarrow> 'p \<Rightarrow> exn + 'p signed" where
  "signPayload c seed domain enc payload =
     (case signCanonicalPayload c seed domain (enc payload) of
        Inl e \<Rightarrow> Inl e
      | Inr sig \<Rightarrow> Inr \<lparr>s_payload = payload, s_key = public_key c seed, s_signature = sig\<rparr>)"

definition verifySigned :: "'z crypto_scheme \<Rightarrow> string \<Rightarrow> ('p \<Rightarrow> json) \<Rightarrow> 'p signed \<Rightarrow> bool" where
  "verifySigned c domain enc v \<longleftrightarrow>
     canonical_base64url (s_key v) \<and> canonical_base64url (s_signature v)
     \<and> verifyCanonicalPayload c (s_key v) domain (enc (s_payload v)) (s_signature v)"

text \<open>\<open>SIGNATURE_DOMAINS\<close>\<close>

definition DOM_bridgeDescriptor :: string where "DOM_bridgeDescriptor = ''janjacord.bridge-descriptor.v1''"
definition DOM_bridgeWitness :: string where "DOM_bridgeWitness = ''janjacord.bridge-witness.v1''"
definition DOM_directRouteHint :: string where "DOM_directRouteHint = ''janjacord.direct-route-hint.v1''"
definition DOM_inviteV3 :: string where "DOM_inviteV3 = ''janjacord.invite.v3''"
definition DOM_inviteV4 :: string where "DOM_inviteV4 = ''janjacord.invite.v4''"
definition DOM_hostGrant :: string where "DOM_hostGrant = ''janjacord.host-grant.v1''"
definition DOM_hostGrantRevocation :: string where
  "DOM_hostGrantRevocation = ''janjacord.host-grant-revocation.v1''"
definition DOM_hostRecord :: string where "DOM_hostRecord = ''janjacord.host-record.v1''"
definition DOM_sessionAuth :: string where "DOM_sessionAuth = ''janjacord.session-auth.v1''"
definition DOM_hostAuthChallenge :: string where "DOM_hostAuthChallenge = ''janjacord.host-auth-challenge.v1''"
definition DOM_bridgeRegistrationProof :: string where
  "DOM_bridgeRegistrationProof = ''janjacord.bridge-registration-proof.v1''"

definition SIGNATURE_DOMAINS :: "string list" where
  "SIGNATURE_DOMAINS =
     [DOM_bridgeDescriptor, DOM_bridgeWitness, DOM_directRouteHint, DOM_inviteV3, DOM_inviteV4,
      DOM_hostGrant, DOM_hostGrantRevocation, DOM_hostRecord, DOM_sessionAuth, DOM_hostAuthChallenge,
      DOM_bridgeRegistrationProof]"

lemmas domain_defs = DOM_bridgeDescriptor_def DOM_bridgeWitness_def DOM_directRouteHint_def DOM_inviteV3_def
  DOM_inviteV4_def DOM_hostGrant_def DOM_hostGrantRevocation_def DOM_hostRecord_def DOM_sessionAuth_def
  DOM_hostAuthChallenge_def DOM_bridgeRegistrationProof_def

lemma domains_ok: "d \<in> set SIGNATURE_DOMAINS \<Longrightarrow> signature_domain_ok d"
proof -
  have "list_all signature_domain_ok SIGNATURE_DOMAINS"
    by (simp add: SIGNATURE_DOMAINS_def domain_defs signature_domain_ok_def less_eq_char_def)
  then show "d \<in> set SIGNATURE_DOMAINS \<Longrightarrow> signature_domain_ok d" by (simp add: list_all_iff)
qed

lemma domain_no_nul: "signature_domain_ok d \<Longrightarrow> CHR 0x00 \<notin> set d"
  by (auto simp: signature_domain_ok_def list_all_iff less_eq_char_def)

lemma signature_message_unambiguous:
  assumes "signatureMessage d v = Inr m" and "signatureMessage d' v' = Inr m"
  shows "d = d' \<and> same_json v v'"
proof -
  from assms(1,2) have ok: "signature_domain_ok d" "signature_domain_ok d'"
    and "d @ CHR 0x00 # canonicalJson v = d' @ CHR 0x00 # canonicalJson v'"
    by (auto simp: signatureMessage_def NUL_def split: if_splits)
  then have "d = d'" "canonicalJson v = canonicalJson v'"
    by (simp_all add: append_sep_inj domain_no_nul)
  then show ?thesis using same_of_canonical by (simp add: canonicalJson_def json_text_inj)
qed

text \<open>Fields of values that are equal up to key order\<close>

inductive_simps same_json_simps [simp]:
  "same_json JNull w" "same_json (JBool b) w" "same_json (JNum n) w" "same_json (JStr s) w"
  "same_json (JArr xs) w"

inductive_cases same_json_objE: "same_json (JObj xs) (JObj ys)"

lemma map_of_mset: "mset xs = mset ys \<Longrightarrow> distinct (map fst xs) \<Longrightarrow> map_of xs = map_of ys"
  by (metis map_of_eqI mset_eq_setD mset_map mset_eq_imp_distinct_iff set_map map_of_inject_set)

lemma same_json_lookup:
  assumes "same_json (JObj xs) (JObj ys)" and "distinct (map fst ys)"
  shows "rel_option same_json (map_of xs k) (map_of ys k)"
proof -
  from assms(1) obtain zs where z: "mset zs = mset ys" and r: "list_all2 (rel_prod (=) same_json) xs zs"
    by (rule same_json_objE)
  from r have "rel_option same_json (map_of xs k) (map_of zs k)"
    by (induction rule: list_all2_induct) auto
  moreover have "distinct (map fst zs)" using z assms(2) by (metis mset_map mset_eq_imp_distinct_iff)
  with z have "map_of zs = map_of ys" by (rule map_of_mset)
  ultimately show ?thesis by simp
qed

end
