(* ===== verification/Connectivity.thy ===== *)
theory Connectivity
  imports Quorum Canonical
begin

text \<open>
  Signed connectivity documents: their schemas (\<open>packages/schemas/src/connectivity.ts\<close>), the functions
  that create and verify them (\<open>packages/protocol/src/connectivity.ts\<close>) and the check of a bridge's
  answer (\<open>apps/janjanode/src/bridge-witness.ts\<close>).

  A document is a record with the fields of its schema; a value that does not have the schema's shape
  (a missing or an unknown field, a field of another type, another literal \<open>version\<close>) is no such
  record. What a schema checks beyond the shape is a predicate.
\<close>

section \<open>Schemas\<close>

definition text_between :: "nat \<Rightarrow> nat \<Rightarrow> string \<Rightarrow> bool" where
  "text_between lo hi s \<longleftrightarrow> lo \<le> length s \<and> length s \<le> hi"

definition hex_lower_char :: "char \<Rightarrow> bool" where
  "hex_lower_char c \<longleftrightarrow> (CHR ''0'' \<le> c \<and> c \<le> CHR ''9'') \<or> (CHR ''a'' \<le> c \<and> c \<le> CHR ''f'')"

definition hex_any_char :: "char \<Rightarrow> bool" where
  "hex_any_char c \<longleftrightarrow> hex_lower_char c \<or> (CHR ''A'' \<le> c \<and> c \<le> CHR ''F'')"

definition Base64UrlSchema :: "string \<Rightarrow> bool" where
  "Base64UrlSchema s \<longleftrightarrow> s \<noteq> [] \<and> list_all b64url_char s"

definition PublicKeySchema :: "string \<Rightarrow> bool" where
  "PublicKeySchema s \<longleftrightarrow> length s = 43 \<and> list_all b64url_char s"

definition SignatureSchema :: "string \<Rightarrow> bool" where
  "SignatureSchema s \<longleftrightarrow> length s = 86 \<and> list_all b64url_char s"

definition AuthorityFingerprintSchema :: "string \<Rightarrow> bool" where
  "AuthorityFingerprintSchema s \<longleftrightarrow> length s = 64 \<and> list_all hex_any_char s"

definition Hex64Schema :: "string \<Rightarrow> bool" where
  "Hex64Schema s \<longleftrightarrow> length s = 64 \<and> list_all hex_lower_char s"

definition timestampSchema :: "int \<Rightarrow> bool" where
  "timestampSchema t \<longleftrightarrow> is_safe_integer t \<and> 0 \<le> t"

definition positiveSchema :: "int \<Rightarrow> bool" where
  "positiveSchema n \<longleftrightarrow> is_safe_integer n \<and> 0 < n"

definition identityIdSchema :: "string \<Rightarrow> bool" where "identityIdSchema s = text_between 1 128 s"
definition hostIdSchema :: "string \<Rightarrow> bool" where "hostIdSchema s = text_between 1 128 s"

definition routeIdSchema :: "string \<Rightarrow> bool" where
  "routeIdSchema s \<longleftrightarrow> text_between 1 128 s \<and>
     list_all (\<lambda>ch. (b64url_char ch \<or> ch = CHR ''.'' \<or> ch = CHR '':'')) s"

definition endpointSchema :: "'z crypto_scheme \<Rightarrow> string \<Rightarrow> bool" where
  "endpointSchema c s \<longleftrightarrow> text_between 1 2048 s \<and>
     (case parse_url c s of
        None \<Rightarrow> False
      | Some u \<Rightarrow> u_protocol u \<in> {''wss:'', ''https:'', ''stun:'', ''stuns:'', ''turn:'', ''turns:''})"

definition iceCandidateSchema :: "string \<Rightarrow> bool" where "iceCandidateSchema s = text_between 1 4096 s"

datatype route_provider = Tailscale | Ngrok | Cloudflare | Zrok | Manual

fun provider_name :: "route_provider \<Rightarrow> string" where
  "provider_name Tailscale = ''tailscale''"
| "provider_name Ngrok = ''ngrok''"
| "provider_name Cloudflare = ''cloudflare''"
| "provider_name Zrok = ''zrok''"
| "provider_name Manual = ''manual''"

definition DirectWssEndpointSchema :: "'z crypto_scheme \<Rightarrow> string \<Rightarrow> bool" where
  "DirectWssEndpointSchema c s \<longleftrightarrow> text_between 1 2048 s \<and>
     (case parse_url c s of
        None \<Rightarrow> False
      | Some u \<Rightarrow> u_protocol u = ''wss:'' \<and> u_username u = [] \<and> u_password u = []
          \<and> u_search u = [] \<and> u_hash u = [])"

text \<open>JSON of a list of texts and of a field that may be absent\<close>

definition JStrs :: "string list \<Rightarrow> json" where "JStrs xs = JArr (map JStr xs)"

definition opt_field :: "string \<Rightarrow> ('a \<Rightarrow> json) \<Rightarrow> 'a option \<Rightarrow> (string \<times> json) list" where
  "opt_field k enc v = (case v of None \<Rightarrow> [] | Some x \<Rightarrow> [(k, enc x)])"

text \<open>The envelope every signed document shares.\<close>

definition signed_schema :: "('p \<Rightarrow> bool) \<Rightarrow> 'p signed \<Rightarrow> bool" where
  "signed_schema P v \<longleftrightarrow> P (s_payload v) \<and> PublicKeySchema (s_key v) \<and> SignatureSchema (s_signature v)"

definition signed_json :: "('p \<Rightarrow> json) \<Rightarrow> 'p signed \<Rightarrow> json" where
  "signed_json enc v = JObj [(''payload'', enc (s_payload v)), (''publicKey'', JStr (s_key v)),
     (''signature'', JStr (s_signature v))]"

subsection \<open>Direct routes\<close>

record route_config =
  rc_provider :: route_provider
  rc_endpoint :: string
  rc_stable :: bool
  rc_expires :: int

definition DirectRouteHintConfigSchema :: "'z crypto_scheme \<Rightarrow> route_config \<Rightarrow> bool" where
  "DirectRouteHintConfigSchema c r \<longleftrightarrow> DirectWssEndpointSchema c (rc_endpoint r) \<and> timestampSchema (rc_expires r)"

definition DirectRouteHintsConfigSchema :: "'z crypto_scheme \<Rightarrow> route_config list \<Rightarrow> bool" where
  "DirectRouteHintsConfigSchema c rs \<longleftrightarrow>
     list_all (DirectRouteHintConfigSchema c) rs \<and> length rs \<le> 3
     \<and> length (remdups (map (\<lambda>r. provider_name (rc_provider r) @ NUL @ rc_endpoint r) rs)) = length rs"

record route_hint =
  rh_provider :: route_provider
  rh_route :: string
  rh_endpoint :: string
  rh_server :: string
  rh_host :: string
  rh_host_key :: string
  rh_stable :: "bool option"
  rh_issued :: int
  rh_expires :: int

definition DirectRouteHintPayloadSchema :: "'z crypto_scheme \<Rightarrow> route_hint \<Rightarrow> bool" where
  "DirectRouteHintPayloadSchema c p \<longleftrightarrow>
     routeIdSchema (rh_route p) \<and> DirectWssEndpointSchema c (rh_endpoint p) \<and> is_uuid c (rh_server p)
     \<and> hostIdSchema (rh_host p) \<and> PublicKeySchema (rh_host_key p) \<and> timestampSchema (rh_issued p)
     \<and> timestampSchema (rh_expires p) \<and> rh_expires p > rh_issued p"

definition route_hint_json :: "route_hint \<Rightarrow> json" where
  "route_hint_json p = JObj
     ([(''version'', JNum 1), (''provider'', JStr (provider_name (rh_provider p))),
       (''routeId'', JStr (rh_route p)), (''endpoint'', JStr (rh_endpoint p)),
       (''serverId'', JStr (rh_server p)), (''hostId'', JStr (rh_host p)),
       (''hostPublicKey'', JStr (rh_host_key p))]
      @ opt_field ''stable'' JBool (rh_stable p)
      @ [(''issuedAt'', JNum (rh_issued p)), (''expiresAt'', JNum (rh_expires p))])"

subsection \<open>Bridges\<close>

record bridge_descriptor =
  bd_bridge :: string
  bd_endpoints :: "string list"
  bd_issued :: int
  bd_expires :: int

definition BridgeDescriptorPayloadSchema :: "'z crypto_scheme \<Rightarrow> bridge_descriptor \<Rightarrow> bool" where
  "BridgeDescriptorPayloadSchema c p \<longleftrightarrow>
     text_between 1 128 (bd_bridge p) \<and> list_all (endpointSchema c) (bd_endpoints p)
     \<and> 1 \<le> length (bd_endpoints p) \<and> length (bd_endpoints p) \<le> 8
     \<and> timestampSchema (bd_issued p) \<and> timestampSchema (bd_expires p) \<and> bd_expires p > bd_issued p"

definition bridge_descriptor_json :: "bridge_descriptor \<Rightarrow> json" where
  "bridge_descriptor_json p = JObj
     [(''version'', JNum 1), (''bridgeId'', JStr (bd_bridge p)), (''endpoints'', JStrs (bd_endpoints p)),
      (''issuedAt'', JNum (bd_issued p)), (''expiresAt'', JNum (bd_expires p))]"

record bridge_witness =
  bw_bridge :: string
  bw_request :: string
  bw_server :: string
  bw_replica :: string
  bw_primary :: string
  bw_record_hash :: string
  bw_epoch :: int
  bw_online :: bool
  bw_observed :: int
  bw_expires :: int

definition BridgeWitnessPayloadSchema :: "'z crypto_scheme \<Rightarrow> bridge_witness \<Rightarrow> bool" where
  "BridgeWitnessPayloadSchema c p \<longleftrightarrow>
     take 8 (bw_bridge p) = ''ed25519:'' \<and> Hex64Schema (drop 8 (bw_bridge p))
     \<and> is_uuid c (bw_request p) \<and> is_uuid c (bw_server p)
     \<and> text_between 1 128 (bw_replica p) \<and> text_between 1 128 (bw_primary p)
     \<and> Hex64Schema (bw_record_hash p) \<and> timestampSchema (bw_epoch p)
     \<and> timestampSchema (bw_observed p) \<and> positiveSchema (bw_expires p)"

definition bridge_witness_json :: "bridge_witness \<Rightarrow> json" where
  "bridge_witness_json p = JObj
     [(''version'', JNum 1), (''bridgeId'', JStr (bw_bridge p)), (''requestId'', JStr (bw_request p)),
      (''serverId'', JStr (bw_server p)), (''replicaHostId'', JStr (bw_replica p)),
      (''primaryHostId'', JStr (bw_primary p)), (''primaryRecordHash'', JStr (bw_record_hash p)),
      (''primaryEpoch'', JNum (bw_epoch p)), (''primaryOnline'', JBool (bw_online p)),
      (''observedAt'', JNum (bw_observed p)), (''expiresAt'', JNum (bw_expires p))]"

text \<open>The private one-time pairing document and its runtime binding\<close>

definition BridgePairingTokenSchema :: "string \<Rightarrow> bool" where
  "BridgePairingTokenSchema s \<longleftrightarrow> text_between 80 512 s \<and> take 5 s = ''JCP1.'' \<and>
     (let body = drop 5 s; keyPart = takeWhile (\<lambda>ch. ch \<noteq> CHR ''.'') body; macPart = drop (length keyPart + 1) body in
      length keyPart < length body \<and> list_all b64url_char keyPart \<and> 32 \<le> length keyPart \<and> length keyPart \<le> 384
      \<and> length macPart = 43 \<and> list_all b64url_char macPart)"

record pairing_binding =
  pb_bridge :: string
  pb_token :: string

definition BridgePairingBindingSchema :: "pairing_binding \<Rightarrow> bool" where
  "BridgePairingBindingSchema b \<longleftrightarrow> text_between 1 128 (pb_bridge b) \<and> BridgePairingTokenSchema (pb_token b)"

subsection \<open>Invites\<close>

definition inviteSecretSchema :: "string \<Rightarrow> bool" where
  "inviteSecretSchema s \<longleftrightarrow> length s = 22 \<and> list_all b64url_char s"

record invite_v3 =
  i3_server :: string
  i3_authority :: string
  i3_secret :: string
  i3_bridges :: "bridge_descriptor signed list"
  i3_issued :: int
  i3_expires :: int

definition InviteV3PayloadSchema :: "'z crypto_scheme \<Rightarrow> invite_v3 \<Rightarrow> bool" where
  "InviteV3PayloadSchema c p \<longleftrightarrow>
     is_uuid c (i3_server p) \<and> AuthorityFingerprintSchema (i3_authority p) \<and> inviteSecretSchema (i3_secret p)
     \<and> list_all (signed_schema (BridgeDescriptorPayloadSchema c)) (i3_bridges p) \<and> length (i3_bridges p) \<le> 3
     \<and> timestampSchema (i3_issued p) \<and> timestampSchema (i3_expires p) \<and> i3_expires p > i3_issued p"

definition invite_v3_json :: "invite_v3 \<Rightarrow> json" where
  "invite_v3_json p = JObj
     [(''version'', JNum 3), (''serverId'', JStr (i3_server p)), (''authorityFingerprint'', JStr (i3_authority p)),
      (''inviteSecret'', JStr (i3_secret p)),
      (''bridgeHints'', JArr (map (signed_json bridge_descriptor_json) (i3_bridges p))),
      (''issuedAt'', JNum (i3_issued p)), (''expiresAt'', JNum (i3_expires p))]"

record invite_v4 =
  i4_server :: string
  i4_authority :: string
  i4_secret :: string
  i4_routes :: "route_hint signed list"
  i4_bridges :: "bridge_descriptor signed list"
  i4_issued :: int
  i4_expires :: int

definition InviteV4PayloadSchema :: "'z crypto_scheme \<Rightarrow> invite_v4 \<Rightarrow> bool" where
  "InviteV4PayloadSchema c p \<longleftrightarrow>
     is_uuid c (i4_server p) \<and> AuthorityFingerprintSchema (i4_authority p) \<and> inviteSecretSchema (i4_secret p)
     \<and> list_all (signed_schema (DirectRouteHintPayloadSchema c)) (i4_routes p) \<and> length (i4_routes p) \<le> 3
     \<and> list_all (signed_schema (BridgeDescriptorPayloadSchema c)) (i4_bridges p) \<and> length (i4_bridges p) \<le> 3
     \<and> timestampSchema (i4_issued p) \<and> timestampSchema (i4_expires p) \<and> i4_expires p > i4_issued p
     \<and> length (i4_routes p) + length (i4_bridges p) > 0
     \<and> list_all (\<lambda>h. rh_server (s_payload h) = i4_server p) (i4_routes p)
     \<and> length (remdups (map (\<lambda>h. rh_route (s_payload h)) (i4_routes p))) = length (i4_routes p)"

definition SignedInviteV4Schema :: "'z crypto_scheme \<Rightarrow> invite_v4 signed \<Rightarrow> bool" where
  "SignedInviteV4Schema c v \<longleftrightarrow> signed_schema (InviteV4PayloadSchema c) v
     \<and> list_all (\<lambda>h. s_key h = s_key v) (i4_routes (s_payload v))"

definition invite_v4_json :: "invite_v4 \<Rightarrow> json" where
  "invite_v4_json p = JObj
     [(''version'', JNum 4), (''serverId'', JStr (i4_server p)), (''authorityFingerprint'', JStr (i4_authority p)),
      (''inviteSecret'', JStr (i4_secret p)),
      (''directRouteHints'', JArr (map (signed_json route_hint_json) (i4_routes p))),
      (''bridgeHints'', JArr (map (signed_json bridge_descriptor_json) (i4_bridges p))),
      (''issuedAt'', JNum (i4_issued p)), (''expiresAt'', JNum (i4_expires p))]"

subsection \<open>Hosts\<close>

datatype host_capability = Register | Replicate | Promote

fun capability_name :: "host_capability \<Rightarrow> string" where
  "capability_name Register = ''register''"
| "capability_name Replicate = ''replicate''"
| "capability_name Promote = ''promote''"

definition hostCapabilitiesSchema :: "host_capability list \<Rightarrow> bool" where
  "hostCapabilitiesSchema cs \<longleftrightarrow> 1 \<le> length cs \<and> length cs \<le> 3 \<and> length (remdups cs) = length cs"

record grant_payload =
  gp_grant :: string
  gp_server :: string
  gp_issuer :: string
  gp_subject :: string
  gp_subject_key :: string
  gp_device_key :: string
  gp_host :: string
  gp_caps :: "host_capability list"
  gp_witness :: "string list option"
  gp_generation :: int
  gp_issued :: int
  gp_expires :: int

definition witnessIdsSchema :: "string list \<Rightarrow> bool" where
  "witnessIdsSchema ids \<longleftrightarrow> list_all (text_between 1 128) ids \<and> 2 \<le> length ids \<and> length ids \<le> 3
     \<and> length (remdups ids) = length ids"

definition HostGrantPayloadSchema :: "'z crypto_scheme \<Rightarrow> grant_payload \<Rightarrow> bool" where
  "HostGrantPayloadSchema c p \<longleftrightarrow>
     is_uuid c (gp_grant p) \<and> is_uuid c (gp_server p) \<and> identityIdSchema (gp_issuer p)
     \<and> identityIdSchema (gp_subject p) \<and> PublicKeySchema (gp_subject_key p) \<and> PublicKeySchema (gp_device_key p)
     \<and> hostIdSchema (gp_host p) \<and> hostCapabilitiesSchema (gp_caps p)
     \<and> (case gp_witness p of None \<Rightarrow> True | Some ids \<Rightarrow> witnessIdsSchema ids)
     \<and> positiveSchema (gp_generation p) \<and> timestampSchema (gp_issued p) \<and> timestampSchema (gp_expires p)
     \<and> gp_expires p > gp_issued p"

definition grant_json :: "grant_payload \<Rightarrow> json" where
  "grant_json p = JObj
     ([(''version'', JNum 1), (''grantId'', JStr (gp_grant p)), (''serverId'', JStr (gp_server p)),
       (''issuerIdentityId'', JStr (gp_issuer p)), (''subjectIdentityId'', JStr (gp_subject p)),
       (''subjectAuthPublicKey'', JStr (gp_subject_key p)), (''devicePublicKey'', JStr (gp_device_key p)),
       (''hostId'', JStr (gp_host p)), (''capabilities'', JStrs (map capability_name (gp_caps p)))]
      @ opt_field ''witnessBridgeIds'' JStrs (gp_witness p)
      @ [(''generation'', JNum (gp_generation p)), (''issuedAt'', JNum (gp_issued p)),
         (''expiresAt'', JNum (gp_expires p))])"

record revocation =
  rv_grant :: string
  rv_server :: string
  rv_host :: string
  rv_issuer :: string
  rv_at :: int
  rv_generation :: int
  rv_reason :: "string option"

definition HostGrantRevocationPayloadSchema :: "'z crypto_scheme \<Rightarrow> revocation \<Rightarrow> bool" where
  "HostGrantRevocationPayloadSchema c p \<longleftrightarrow>
     is_uuid c (rv_server p) \<and> is_uuid c (rv_grant p) \<and> hostIdSchema (rv_host p) \<and> identityIdSchema (rv_issuer p)
     \<and> timestampSchema (rv_at p) \<and> positiveSchema (rv_generation p)
     \<and> (case rv_reason p of None \<Rightarrow> True | Some r \<Rightarrow> text_between 1 512 r)"

definition revocation_json :: "revocation \<Rightarrow> json" where
  "revocation_json p = JObj
     ([(''version'', JNum 1), (''serverId'', JStr (rv_server p)), (''grantId'', JStr (rv_grant p)),
       (''hostId'', JStr (rv_host p)), (''issuerIdentityId'', JStr (rv_issuer p)),
       (''revokedAt'', JNum (rv_at p)), (''generation'', JNum (rv_generation p))]
      @ opt_field ''reason'' JStr (rv_reason p))"

record host_record =
  hr_server :: string
  hr_grant :: string
  hr_host :: string
  hr_role :: host_role
  hr_epoch :: int
  hr_seq :: int
  hr_previous :: "string option"
  hr_endpoints :: "string list"
  hr_candidates :: "string list"
  hr_issued :: int
  hr_ttl :: int
  hr_expires :: int

definition HostRecordPayloadSchema :: "'z crypto_scheme \<Rightarrow> host_record \<Rightarrow> bool" where
  "HostRecordPayloadSchema c p \<longleftrightarrow>
     is_uuid c (hr_server p) \<and> is_uuid c (hr_grant p) \<and> hostIdSchema (hr_host p)
     \<and> timestampSchema (hr_epoch p) \<and> positiveSchema (hr_seq p)
     \<and> (case hr_previous p of None \<Rightarrow> True | Some h \<Rightarrow> Hex64Schema h)
     \<and> list_all (endpointSchema c) (hr_endpoints p) \<and> length (hr_endpoints p) \<le> 8
     \<and> list_all iceCandidateSchema (hr_candidates p) \<and> length (hr_candidates p) \<le> 32
     \<and> timestampSchema (hr_issued p) \<and> positiveSchema (hr_ttl p) \<and> timestampSchema (hr_expires p)
     \<and> length (hr_endpoints p) + length (hr_candidates p) > 0 \<and> hr_expires p > hr_issued p"

definition host_record_json :: "host_record \<Rightarrow> json" where
  "host_record_json p = JObj
     [(''version'', JNum 1), (''serverId'', JStr (hr_server p)), (''grantId'', JStr (hr_grant p)),
      (''hostId'', JStr (hr_host p)), (''role'', JStr (role_name_of (hr_role p))), (''epoch'', JNum (hr_epoch p)),
      (''recordSeq'', JNum (hr_seq p)),
      (''previousRecordHash'', case hr_previous p of None \<Rightarrow> JNull | Some h \<Rightarrow> JStr h),
      (''endpoints'', JStrs (hr_endpoints p)), (''candidates'', JStrs (hr_candidates p)),
      (''issuedAt'', JNum (hr_issued p)), (''ttlMs'', JNum (hr_ttl p)), (''expiresAt'', JNum (hr_expires p))]"

subsection \<open>Sessions and challenges\<close>

record session_auth =
  sa_server :: string
  sa_identity :: string
  sa_key :: string
  sa_challenge :: string
  sa_nonce :: string
  sa_issued :: int
  sa_expires :: int

definition SessionAuthPayloadSchema :: "'z crypto_scheme \<Rightarrow> session_auth \<Rightarrow> bool" where
  "SessionAuthPayloadSchema c p \<longleftrightarrow>
     is_uuid c (sa_server p) \<and> identityIdSchema (sa_identity p) \<and> PublicKeySchema (sa_key p)
     \<and> is_uuid c (sa_challenge p) \<and> Base64UrlSchema (sa_nonce p) \<and> timestampSchema (sa_issued p)
     \<and> timestampSchema (sa_expires p) \<and> sa_expires p > sa_issued p"

definition session_auth_json :: "session_auth \<Rightarrow> json" where
  "session_auth_json p = JObj
     [(''version'', JNum 1), (''serverId'', JStr (sa_server p)), (''identityId'', JStr (sa_identity p)),
      (''publicKey'', JStr (sa_key p)), (''challengeId'', JStr (sa_challenge p)), (''nonce'', JStr (sa_nonce p)),
      (''issuedAt'', JNum (sa_issued p)), (''expiresAt'', JNum (sa_expires p))]"

record host_challenge =
  ha_server :: string
  ha_authority :: string
  ha_host :: string
  ha_grant :: string
  ha_challenge :: string
  ha_nonce :: string
  ha_issued :: int
  ha_expires :: int

definition HostAuthChallengePayloadSchema :: "'z crypto_scheme \<Rightarrow> host_challenge \<Rightarrow> bool" where
  "HostAuthChallengePayloadSchema c p \<longleftrightarrow>
     is_uuid c (ha_server p) \<and> AuthorityFingerprintSchema (ha_authority p) \<and> hostIdSchema (ha_host p)
     \<and> is_uuid c (ha_grant p) \<and> is_uuid c (ha_challenge p) \<and> Base64UrlSchema (ha_nonce p)
     \<and> timestampSchema (ha_issued p) \<and> timestampSchema (ha_expires p) \<and> ha_expires p > ha_issued p"

definition host_challenge_json :: "host_challenge \<Rightarrow> json" where
  "host_challenge_json p = JObj
     [(''version'', JNum 1), (''serverId'', JStr (ha_server p)), (''authorityFingerprint'', JStr (ha_authority p)),
      (''hostId'', JStr (ha_host p)), (''grantId'', JStr (ha_grant p)), (''challengeId'', JStr (ha_challenge p)),
      (''nonce'', JStr (ha_nonce p)), (''issuedAt'', JNum (ha_issued p)), (''expiresAt'', JNum (ha_expires p))]"

record registration_challenge =
  bc_request :: string
  bc_challenge :: string
  bc_nonce :: string
  bc_record_hash :: string
  bc_expires :: int

definition BridgeRegistrationChallengeSchema :: "'z crypto_scheme \<Rightarrow> registration_challenge \<Rightarrow> bool" where
  "BridgeRegistrationChallengeSchema c p \<longleftrightarrow>
     is_uuid c (bc_request p) \<and> is_uuid c (bc_challenge p) \<and> Base64UrlSchema (bc_nonce p)
     \<and> Hex64Schema (bc_record_hash p) \<and> timestampSchema (bc_expires p)"

record registration_proof =
  rp_server :: string
  rp_host :: string
  rp_grant :: string
  rp_record_hash :: string
  rp_challenge :: string
  rp_nonce :: string
  rp_issued :: int
  rp_expires :: int

definition BridgeRegistrationProofPayloadSchema :: "'z crypto_scheme \<Rightarrow> registration_proof \<Rightarrow> bool" where
  "BridgeRegistrationProofPayloadSchema c p \<longleftrightarrow>
     is_uuid c (rp_server p) \<and> hostIdSchema (rp_host p) \<and> is_uuid c (rp_grant p) \<and> Hex64Schema (rp_record_hash p)
     \<and> is_uuid c (rp_challenge p) \<and> Base64UrlSchema (rp_nonce p) \<and> timestampSchema (rp_issued p)
     \<and> timestampSchema (rp_expires p) \<and> rp_expires p > rp_issued p"

definition registration_proof_json :: "registration_proof \<Rightarrow> json" where
  "registration_proof_json p = JObj
     [(''version'', JNum 1), (''serverId'', JStr (rp_server p)), (''hostId'', JStr (rp_host p)),
      (''grantId'', JStr (rp_grant p)), (''recordHash'', JStr (rp_record_hash p)),
      (''challengeId'', JStr (rp_challenge p)), (''nonce'', JStr (rp_nonce p)),
      (''issuedAt'', JNum (rp_issued p)), (''expiresAt'', JNum (rp_expires p))]"

section \<open>Creating and verifying\<close>

definition zod_error :: exn where "zod_error = AppError ''ZodError''"

text \<open>\<open>XSchema.parse(signPayload(seed, domain, XPayloadSchema.parse(payload)))\<close>\<close>

definition create_signed ::
  "'z crypto_scheme \<Rightarrow> string \<Rightarrow> ('p \<Rightarrow> json) \<Rightarrow> ('p \<Rightarrow> bool) \<Rightarrow> ('p signed \<Rightarrow> bool) \<Rightarrow> 'p \<Rightarrow> string \<Rightarrow> exn + 'p signed" where
  "create_signed c domain enc payloadOk signedOk payload seed =
     (if \<not> payloadOk payload then Inl zod_error
      else case signPayload c seed domain enc payload of
        Inl e \<Rightarrow> Inl e
      | Inr v \<Rightarrow> if signedOk v then Inr v else Inl zod_error)"

definition createSignedBridgeDescriptor :: "'z crypto_scheme \<Rightarrow> bridge_descriptor \<Rightarrow> string \<Rightarrow> exn + bridge_descriptor signed" where
  "createSignedBridgeDescriptor c =
     create_signed c DOM_bridgeDescriptor bridge_descriptor_json (BridgeDescriptorPayloadSchema c)
       (signed_schema (BridgeDescriptorPayloadSchema c))"

definition verifySignedBridgeDescriptor ::
  "'z crypto_scheme \<Rightarrow> bridge_descriptor signed \<Rightarrow> int \<Rightarrow> bridge_descriptor signed option" where
  "verifySignedBridgeDescriptor c v t =
     (if \<not> signed_schema (BridgeDescriptorPayloadSchema c) v \<or> bd_expires (s_payload v) \<le> t then None
      else if \<not> canonical_base64url (s_key v) then None
      else case ed25519Fingerprint c (s_key v) of
        Inl e \<Rightarrow> None
      | Inr fp \<Rightarrow>
          if bd_bridge (s_payload v) \<notin> {fp, ''ed25519:'' @ fp} then None
          else if verifySigned c DOM_bridgeDescriptor bridge_descriptor_json v then Some v else None)"

definition createSignedBridgeWitness :: "'z crypto_scheme \<Rightarrow> bridge_witness \<Rightarrow> string \<Rightarrow> exn + bridge_witness signed" where
  "createSignedBridgeWitness c =
     create_signed c DOM_bridgeWitness bridge_witness_json (BridgeWitnessPayloadSchema c)
       (signed_schema (BridgeWitnessPayloadSchema c))"

definition verifySignedBridgeWitness ::
  "'z crypto_scheme \<Rightarrow> bridge_witness signed \<Rightarrow> bridge_descriptor signed \<Rightarrow> int \<Rightarrow> bridge_witness signed option" where
  "verifySignedBridgeWitness c v descriptor t =
     (if \<not> signed_schema (BridgeWitnessPayloadSchema c) v
         \<or> verifySignedBridgeDescriptor c descriptor t = None then None
      else if s_key v \<noteq> s_key descriptor
         \<or> bw_bridge (s_payload v) \<noteq> bd_bridge (s_payload descriptor)
         \<or> bw_expires (s_payload v) \<le> t
         \<or> bw_expires (s_payload v) > bw_observed (s_payload v) + 10000
         \<or> \<bar>t - bw_observed (s_payload v)\<bar> > 10000 then None
      else if verifySigned c DOM_bridgeWitness bridge_witness_json v then Some v else None)"

definition createSignedDirectRouteHint :: "'z crypto_scheme \<Rightarrow> route_hint \<Rightarrow> string \<Rightarrow> exn + route_hint signed" where
  "createSignedDirectRouteHint c =
     create_signed c DOM_directRouteHint route_hint_json (DirectRouteHintPayloadSchema c)
       (signed_schema (DirectRouteHintPayloadSchema c))"

text \<open>An expectation that is absent or empty is not checked.\<close>

definition unless_expected :: "string option \<Rightarrow> string \<Rightarrow> bool" where
  "unless_expected e x \<longleftrightarrow> truthy_str e \<and> e \<noteq> Some x"

record route_expectation =
  rx_authority :: string
  rx_server :: string
  rx_host :: "string option"
  rx_host_key :: "string option"

definition verifySignedDirectRouteHint ::
  "'z crypto_scheme \<Rightarrow> route_hint signed \<Rightarrow> route_expectation \<Rightarrow> int \<Rightarrow> route_hint signed option" where
  "verifySignedDirectRouteHint c v expected t =
     (if \<not> signed_schema (DirectRouteHintPayloadSchema c) v
         \<or> s_key v \<noteq> rx_authority expected
         \<or> rh_server (s_payload v) \<noteq> rx_server expected
         \<or> rh_expires (s_payload v) \<le> t
         \<or> rh_issued (s_payload v) > t + 5000 then None
      else if unless_expected (rx_host expected) (rh_host (s_payload v)) then None
      else if unless_expected (rx_host_key expected) (rh_host_key (s_payload v)) then None
      else if verifySigned c DOM_directRouteHint route_hint_json v then Some v else None)"

text \<open>\<open>toLowerCase\<close> on hexadecimal text\<close>

definition lower_char :: "char \<Rightarrow> char" where
  "lower_char ch = (if CHR ''A'' \<le> ch \<and> ch \<le> CHR ''Z'' then char_of (of_char ch + 32 :: nat) else ch)"

definition lower_hex :: "string \<Rightarrow> string" where "lower_hex s = map lower_char s"

definition create_signed_invite ::
  "'z crypto_scheme \<Rightarrow> string \<Rightarrow> ('p \<Rightarrow> json) \<Rightarrow> ('p \<Rightarrow> bool) \<Rightarrow> ('p signed \<Rightarrow> bool) \<Rightarrow> ('p \<Rightarrow> string) \<Rightarrow> 'p \<Rightarrow> string \<Rightarrow> exn + 'p signed" where
  "create_signed_invite c domain enc payloadOk signedOk authority payload seed =
     (if \<not> payloadOk payload then Inl zod_error
      else case ed25519Fingerprint c (public_key c seed) of
        Inl e \<Rightarrow> Inl e
      | Inr fp \<Rightarrow>
          if fp \<noteq> lower_hex (authority payload)
          then Inl (AppError ''invite authority fingerprint does not match signing key'')
          else create_signed c domain enc payloadOk signedOk payload seed)"

definition createSignedInviteV3 :: "'z crypto_scheme \<Rightarrow> invite_v3 \<Rightarrow> string \<Rightarrow> exn + invite_v3 signed" where
  "createSignedInviteV3 c =
     create_signed_invite c DOM_inviteV3 invite_v3_json (InviteV3PayloadSchema c)
       (signed_schema (InviteV3PayloadSchema c)) i3_authority"

text \<open>The key of an invite must carry the fingerprint the payload names.\<close>

definition authority_matches :: "'z crypto_scheme \<Rightarrow> string \<Rightarrow> string \<Rightarrow> bool" where
  "authority_matches c key authority \<longleftrightarrow>
     canonical_base64url key \<and> ed25519Fingerprint c key = Inr (lower_hex authority)"

definition verifySignedInviteV3 :: "'z crypto_scheme \<Rightarrow> invite_v3 signed \<Rightarrow> int \<Rightarrow> invite_v3 signed option" where
  "verifySignedInviteV3 c v t =
     (if \<not> signed_schema (InviteV3PayloadSchema c) v \<or> i3_expires (s_payload v) \<le> t then None
      else if \<not> authority_matches c (s_key v) (i3_authority (s_payload v)) then None
      else if list_ex (\<lambda>d. verifySignedBridgeDescriptor c d t = None) (i3_bridges (s_payload v)) then None
      else if verifySigned c DOM_inviteV3 invite_v3_json v then Some v else None)"

definition createSignedInviteV4 :: "'z crypto_scheme \<Rightarrow> invite_v4 \<Rightarrow> string \<Rightarrow> exn + invite_v4 signed" where
  "createSignedInviteV4 c =
     create_signed_invite c DOM_inviteV4 invite_v4_json (InviteV4PayloadSchema c) (SignedInviteV4Schema c) i4_authority"

definition verifySignedInviteV4 :: "'z crypto_scheme \<Rightarrow> invite_v4 signed \<Rightarrow> int \<Rightarrow> invite_v4 signed option" where
  "verifySignedInviteV4 c v t =
     (if \<not> SignedInviteV4Schema c v \<or> i4_expires (s_payload v) \<le> t \<or> i4_issued (s_payload v) > t + 5000 then None
      else if \<not> authority_matches c (s_key v) (i4_authority (s_payload v)) then None
      else let expectedRoute = \<lparr>rx_authority = s_key v, rx_server = i4_server (s_payload v),
                                rx_host = None, rx_host_key = None\<rparr> in
        if list_ex (\<lambda>r. verifySignedDirectRouteHint c r expectedRoute t = None) (i4_routes (s_payload v)) then None
        else if list_ex (\<lambda>d. verifySignedBridgeDescriptor c d t = None) (i4_bridges (s_payload v)) then None
        else if verifySigned c DOM_inviteV4 invite_v4_json v then Some v else None)"

subsection \<open>Hosts\<close>

definition createSignedHostGrant :: "'z crypto_scheme \<Rightarrow> grant_payload \<Rightarrow> string \<Rightarrow> exn + grant_payload signed" where
  "createSignedHostGrant c =
     create_signed c DOM_hostGrant grant_json (HostGrantPayloadSchema c) (signed_schema (HostGrantPayloadSchema c))"

definition verifySignedHostGrant ::
  "'z crypto_scheme \<Rightarrow> grant_payload signed \<Rightarrow> string \<Rightarrow> int \<Rightarrow> grant_payload signed option" where
  "verifySignedHostGrant c v authorityPublicKey t =
     (if \<not> signed_schema (HostGrantPayloadSchema c) v \<or> s_key v \<noteq> authorityPublicKey
         \<or> gp_expires (s_payload v) \<le> t then None
      else if verifySigned c DOM_hostGrant grant_json v then Some v else None)"

definition createSignedHostGrantRevocation :: "'z crypto_scheme \<Rightarrow> revocation \<Rightarrow> string \<Rightarrow> exn + revocation signed" where
  "createSignedHostGrantRevocation c =
     create_signed c DOM_hostGrantRevocation revocation_json (HostGrantRevocationPayloadSchema c)
       (signed_schema (HostGrantRevocationPayloadSchema c))"

definition verifySignedHostGrantRevocation ::
  "'z crypto_scheme \<Rightarrow> revocation signed \<Rightarrow> string \<Rightarrow> revocation signed option" where
  "verifySignedHostGrantRevocation c v authorityPublicKey =
     (if \<not> signed_schema (HostGrantRevocationPayloadSchema c) v \<or> s_key v \<noteq> authorityPublicKey then None
      else if verifySigned c DOM_hostGrantRevocation revocation_json v then Some v else None)"

definition SignedHostRecordSchema :: "'z crypto_scheme \<Rightarrow> host_record signed \<Rightarrow> bool" where
  "SignedHostRecordSchema c = signed_schema (HostRecordPayloadSchema c)"

definition createSignedHostRecord :: "'z crypto_scheme \<Rightarrow> host_record \<Rightarrow> string \<Rightarrow> exn + host_record signed" where
  "createSignedHostRecord c =
     create_signed c DOM_hostRecord host_record_json (HostRecordPayloadSchema c) (SignedHostRecordSchema c)"

definition verifySignedHostRecord ::
  "'z crypto_scheme \<Rightarrow> host_record signed \<Rightarrow> string \<Rightarrow> int \<Rightarrow> host_record signed option" where
  "verifySignedHostRecord c v devicePublicKey t =
     (if \<not> SignedHostRecordSchema c v \<or> s_key v \<noteq> devicePublicKey \<or> hr_expires (s_payload v) \<le> t then None
      else if hr_expires (s_payload v) > hr_issued (s_payload v) + hr_ttl (s_payload v) then None
      else if verifySigned c DOM_hostRecord host_record_json v then Some v else None)"

definition verifyHostRegistration ::
  "'z crypto_scheme \<Rightarrow> host_record signed \<Rightarrow> grant_payload signed \<Rightarrow> string \<Rightarrow> string list \<Rightarrow> int
     \<Rightarrow> (host_record signed \<times> grant_payload signed) option" where
  "verifyHostRegistration c record0 grant0 authorityPublicKey revokedGrantIds t =
     (case verifySignedHostGrant c grant0 authorityPublicKey t of
        None \<Rightarrow> None
      | Some grant \<Rightarrow>
          if gp_grant (s_payload grant) \<in> set revokedGrantIds then None
          else if Register \<notin> set (gp_caps (s_payload grant)) then None
          else case verifySignedHostRecord c record0 (gp_device_key (s_payload grant)) t of
            None \<Rightarrow> None
          | Some record \<Rightarrow>
              if hr_server (s_payload record) \<noteq> gp_server (s_payload grant)
                 \<or> hr_grant (s_payload record) \<noteq> gp_grant (s_payload grant)
                 \<or> hr_host (s_payload record) \<noteq> gp_host (s_payload grant) then None
              else if hr_role (s_payload record) = Replica \<and> Replicate \<notin> set (gp_caps (s_payload grant)) then None
              else if hr_role (s_payload record) = Primary \<and> Promote \<notin> set (gp_caps (s_payload grant)) then None
              else Some (record, grant))"

definition hostRegistrationRecordHash :: "'z crypto_scheme \<Rightarrow> host_record signed \<Rightarrow> exn + string" where
  "hostRegistrationRecordHash c r =
     (if \<not> SignedHostRecordSchema c r then Inl zod_error
      else Inr (sha256Hex c (canonicalJson (signed_json host_record_json r))))"

subsection \<open>Sessions and challenges\<close>

definition createSignedSessionAuth :: "'z crypto_scheme \<Rightarrow> session_auth \<Rightarrow> string \<Rightarrow> exn + session_auth \<times> string" where
  "createSignedSessionAuth c payload seed =
     (case signPayload c seed DOM_sessionAuth session_auth_json payload of
        Inl e \<Rightarrow> Inl e
      | Inr v \<Rightarrow>
          if s_key v \<noteq> sa_key payload then Inl (AppError ''session public key does not match signing key'')
          else if SessionAuthPayloadSchema c (s_payload v) \<and> SignatureSchema (s_signature v)
          then Inr (s_payload v, s_signature v) else Inl zod_error)"

definition verifySignedSessionAuth ::
  "'z crypto_scheme \<Rightarrow> session_auth \<times> string \<Rightarrow> string \<Rightarrow> string \<Rightarrow> string \<Rightarrow> int \<Rightarrow> (session_auth \<times> string) option" where
  "verifySignedSessionAuth c v serverId challengeId nonce t =
     (let p = fst v in
      if \<not> (SessionAuthPayloadSchema c p \<and> SignatureSchema (snd v)) \<or> sa_expires p \<le> t \<or> sa_issued p > t + 5000
      then None
      else if sa_server p \<noteq> serverId \<or> sa_challenge p \<noteq> challengeId \<or> sa_nonce p \<noteq> nonce then None
      else if verifySigned c DOM_sessionAuth session_auth_json \<lparr>s_payload = p, s_key = sa_key p, s_signature = snd v\<rparr>
      then Some v else None)"

definition SignedHostAuthChallengeSchema :: "'z crypto_scheme \<Rightarrow> host_challenge signed \<Rightarrow> bool" where
  "SignedHostAuthChallengeSchema c = signed_schema (HostAuthChallengePayloadSchema c)"

definition createSignedHostAuthChallenge :: "'z crypto_scheme \<Rightarrow> host_challenge \<Rightarrow> string \<Rightarrow> exn + host_challenge signed" where
  "createSignedHostAuthChallenge c =
     create_signed c DOM_hostAuthChallenge host_challenge_json (HostAuthChallengePayloadSchema c)
       (SignedHostAuthChallengeSchema c)"

datatype challenge_mismatch =
    Malformed | Expired | IssuedInFuture | ServerId | AuthorityFingerprint | HostPublicKey | HostId
  | GrantId | BadSignature

record challenge_expectation =
  cx_server :: "string option"
  cx_authority :: "string option"
  cx_host_key :: "string option"
  cx_host :: "string option"
  cx_grant :: "string option"

definition challengeMismatchFromParsed ::
  "'z crypto_scheme \<Rightarrow> host_challenge signed \<Rightarrow> challenge_expectation \<Rightarrow> int \<Rightarrow> challenge_mismatch option" where
  "challengeMismatchFromParsed c v expected t =
     (let p = s_payload v in
      if ha_expires p \<le> t then Some Expired
      else if ha_issued p > t + 5000 then Some IssuedInFuture
      else if unless_expected (cx_server expected) (ha_server p) then Some ServerId
      else if unless_expected (map_option lower_hex (cx_authority expected)) (ha_authority p)
      then Some AuthorityFingerprint
      else if unless_expected (cx_host_key expected) (s_key v) then Some HostPublicKey
      else if unless_expected (cx_host expected) (ha_host p) then Some HostId
      else if unless_expected (cx_grant expected) (ha_grant p) then Some GrantId
      else if verifySigned c DOM_hostAuthChallenge host_challenge_json v then None else Some BadSignature)"

definition hostAuthChallengeMismatch ::
  "'z crypto_scheme \<Rightarrow> host_challenge signed \<Rightarrow> challenge_expectation \<Rightarrow> int \<Rightarrow> challenge_mismatch option" where
  "hostAuthChallengeMismatch c v expected t =
     (if \<not> SignedHostAuthChallengeSchema c v then Some Malformed
      else challengeMismatchFromParsed c v expected t)"

definition verifySignedHostAuthChallenge ::
  "'z crypto_scheme \<Rightarrow> host_challenge signed \<Rightarrow> challenge_expectation \<Rightarrow> int \<Rightarrow> host_challenge signed option" where
  "verifySignedHostAuthChallenge c v expected t =
     (if \<not> SignedHostAuthChallengeSchema c v \<or> challengeMismatchFromParsed c v expected t \<noteq> None then None
      else Some v)"

definition verifyDirectRouteHostAuthChallenge ::
  "'z crypto_scheme \<Rightarrow> host_challenge signed \<Rightarrow> route_hint signed \<Rightarrow> string \<Rightarrow> int \<Rightarrow> host_challenge signed option" where
  "verifyDirectRouteHostAuthChallenge c v route expectedAuthorityPublicKey t =
     (if \<not> signed_schema (DirectRouteHintPayloadSchema c) route
         \<or> verifySignedDirectRouteHint c route
             \<lparr>rx_authority = expectedAuthorityPublicKey, rx_server = rh_server (s_payload route),
              rx_host = None, rx_host_key = None\<rparr> t = None then None
      else if \<not> canonical_base64url expectedAuthorityPublicKey then None
      else case ed25519Fingerprint c expectedAuthorityPublicKey of
        Inl e \<Rightarrow> None
      | Inr fp \<Rightarrow> verifySignedHostAuthChallenge c v
          \<lparr>cx_server = Some (rh_server (s_payload route)), cx_authority = Some fp,
           cx_host_key = Some (rh_host_key (s_payload route)), cx_host = Some (rh_host (s_payload route)),
           cx_grant = None\<rparr> t)"

definition createSignedBridgeRegistrationProof ::
  "'z crypto_scheme \<Rightarrow> registration_proof \<Rightarrow> string \<Rightarrow> exn + registration_proof signed" where
  "createSignedBridgeRegistrationProof c =
     create_signed c DOM_bridgeRegistrationProof registration_proof_json (BridgeRegistrationProofPayloadSchema c)
       (signed_schema (BridgeRegistrationProofPayloadSchema c))"

record proof_expectation =
  px_host_key :: string
  px_server :: string
  px_host :: string
  px_grant :: string
  px_record_hash :: string
  px_challenge :: string
  px_nonce :: string

definition verifySignedBridgeRegistrationProof ::
  "'z crypto_scheme \<Rightarrow> registration_proof signed \<Rightarrow> proof_expectation \<Rightarrow> int \<Rightarrow> registration_proof signed option" where
  "verifySignedBridgeRegistrationProof c v expected t =
     (let p = s_payload v in
      if \<not> signed_schema (BridgeRegistrationProofPayloadSchema c) v \<or> rp_expires p \<le> t \<or> rp_issued p > t + 5000
      then None
      else if s_key v \<noteq> px_host_key expected \<or> rp_server p \<noteq> px_server expected
         \<or> rp_host p \<noteq> px_host expected \<or> rp_grant p \<noteq> px_grant expected
         \<or> rp_record_hash p \<noteq> px_record_hash expected \<or> rp_challenge p \<noteq> px_challenge expected
         \<or> rp_nonce p \<noteq> px_nonce expected then None
      else if verifySigned c DOM_bridgeRegistrationProof registration_proof_json v then Some v else None)"

subsection \<open>A bridge's answer to a replica\<close>

record bridge_observation =
  vw_bridge :: string
  vw_request :: string
  vw_primary :: string
  vw_record_hash :: string
  vw_epoch :: int
  vw_online :: bool
  vw_observed :: int
  vw_expires :: int

record expected_witness =
  ew_request :: string
  ew_server :: string
  ew_replica :: string
  ew_primary :: string
  ew_record_hash :: string
  ew_epoch :: int

definition validateBridgeWitnessResponse ::
  "'z crypto_scheme \<Rightarrow> bridge_witness signed \<Rightarrow> bridge_descriptor signed \<Rightarrow> expected_witness \<Rightarrow> int
     \<Rightarrow> bridge_observation option" where
  "validateBridgeWitnessResponse c v descriptor expected t =
     (case verifySignedBridgeWitness c v descriptor t of
        None \<Rightarrow> None
      | Some verified \<Rightarrow>
          let p = s_payload verified in
          if bw_request p \<noteq> ew_request expected \<or> bw_bridge p \<noteq> bd_bridge (s_payload descriptor)
             \<or> bw_server p \<noteq> ew_server expected \<or> bw_replica p \<noteq> ew_replica expected
             \<or> bw_primary p \<noteq> ew_primary expected \<or> bw_record_hash p \<noteq> ew_record_hash expected
             \<or> bw_epoch p \<noteq> ew_epoch expected then None
          else Some \<lparr>vw_bridge = bw_bridge p, vw_request = bw_request p, vw_primary = bw_primary p,
                     vw_record_hash = bw_record_hash p, vw_epoch = bw_epoch p, vw_online = bw_online p,
                     vw_observed = bw_observed p, vw_expires = bw_expires p\<rparr>)"

section \<open>Properties\<close>

lemmas doc_json_defs = grant_json_def host_record_json_def JStrs_def opt_field_def

lemma same_strs: "list_all2 same_json (map JStr xs) (map JStr ys) \<longleftrightarrow> xs = ys"
proof -
  have "(\<lambda>x y. y = (x :: string)) = (=)" by (auto simp: fun_eq_iff)
  then show ?thesis by (simp add: list_all2_map1 list_all2_map2 list.rel_eq)
qed

lemma same_JStrs [simp]: "same_json (JStrs xs) (JStrs ys) \<longleftrightarrow> xs = ys"
  by (auto simp: JStrs_def same_strs)

lemma capability_name_inj: "inj capability_name"
proof (rule injI)
  fix a b show "capability_name a = capability_name b \<Longrightarrow> a = b" by (cases a; cases b) auto
qed

lemma role_name_of_inj [simp]: "role_name_of a = role_name_of b \<longleftrightarrow> a = b"
  by (cases a; cases b) auto

lemma opt_lookup:
  "map_of (opt_field k enc v) k' = (if k = k' then map_option enc v else None)"
  by (cases v) (auto simp: opt_field_def)

lemma grant_json_keys: "distinct (map fst kvs)" if "grant_json p = JObj kvs" for kvs
  using that by (cases "gp_witness p") (auto simp: grant_json_def opt_field_def)

lemma same_grant:
  assumes "same_json (grant_json p) (grant_json q)"
  shows "p = q"
proof -
  obtain xs ys where x: "grant_json p = JObj xs" and y: "grant_json q = JObj ys"
    by (simp add: grant_json_def)
  have r: "rel_option same_json (map_of xs k) (map_of ys k)" for k
    using same_json_lookup assms grant_json_keys [OF y] by (simp add: x y)
  note xs = x [unfolded grant_json_def json.inject, symmetric] and ys = y [unfolded grant_json_def json.inject, symmetric]
  have "gp_grant p = gp_grant q" "gp_server p = gp_server q" "gp_issuer p = gp_issuer q"
    using r [of "''grantId''"] r [of "''serverId''"] r [of "''issuerIdentityId''"]
    by (simp_all add: xs ys)
  moreover have "gp_subject p = gp_subject q" "gp_subject_key p = gp_subject_key q"
    "gp_device_key p = gp_device_key q" "gp_host p = gp_host q"
    using r [of "''subjectIdentityId''"] r [of "''subjectAuthPublicKey''"] r [of "''devicePublicKey''"]
      r [of "''hostId''"] by (simp_all add: xs ys)
  moreover have "map capability_name (gp_caps p) = map capability_name (gp_caps q)"
    using r [of "''capabilities''"] by (simp add: xs ys)
  then have "gp_caps p = gp_caps q" by (rule map_injective [OF _ capability_name_inj])
  moreover have "rel_option same_json (map_option JStrs (gp_witness p)) (map_option JStrs (gp_witness q))"
    using r [of "''witnessBridgeIds''"] by (simp add: xs ys map_add_def opt_lookup split: option.splits)
  then have "gp_witness p = gp_witness q" by (cases "gp_witness p"; cases "gp_witness q") auto
  moreover have "gp_generation p = gp_generation q" "gp_issued p = gp_issued q" "gp_expires p = gp_expires q"
    using r [of "''generation''"] r [of "''issuedAt''"] r [of "''expiresAt''"]
    by (simp_all add: xs ys map_add_def opt_lookup)
  ultimately show ?thesis by simp
qed

lemma same_record:
  assumes "same_json (host_record_json p) (host_record_json q)"
  shows "p = q"
proof -
  obtain xs ys where x: "host_record_json p = JObj xs" and y: "host_record_json q = JObj ys"
    by (simp add: host_record_json_def)
  note xs = x [unfolded host_record_json_def json.inject, symmetric]
    and ys = y [unfolded host_record_json_def json.inject, symmetric]
  have r: "rel_option same_json (map_of xs k) (map_of ys k)" for k
    using assms by (intro same_json_lookup) (simp_all add: x y, simp add: ys)
  have "hr_server p = hr_server q" "hr_grant p = hr_grant q" "hr_host p = hr_host q" "hr_role p = hr_role q"
    using r [of "''serverId''"] r [of "''grantId''"] r [of "''hostId''"] r [of "''role''"]
    by (simp_all add: xs ys)
  moreover have "hr_epoch p = hr_epoch q" "hr_seq p = hr_seq q" "hr_issued p = hr_issued q"
    "hr_ttl p = hr_ttl q" "hr_expires p = hr_expires q"
    using r [of "''epoch''"] r [of "''recordSeq''"] r [of "''issuedAt''"] r [of "''ttlMs''"] r [of "''expiresAt''"]
    by (simp_all add: xs ys)
  moreover have "hr_endpoints p = hr_endpoints q" "hr_candidates p = hr_candidates q"
    using r [of "''endpoints''"] r [of "''candidates''"] by (simp_all add: xs ys)
  moreover have "hr_previous p = hr_previous q"
    using r [of "''previousRecordHash''"] by (simp add: xs ys split: option.splits)
  ultimately show ?thesis by simp
qed

text \<open>
  C36. Every field of a host grant and of a host record is covered by its signature: two grants (or two
  records) with the same signature message are equal, and no message of a grant is a message of a record,
  so a signature can be moved neither to a changed document nor to a document of the other kind.
\<close>

theorem signatures_bind_every_field:
  "(signatureMessage DOM_hostGrant (grant_json p) = signatureMessage DOM_hostGrant (grant_json p') \<longleftrightarrow> p = p')
   \<and> (signatureMessage DOM_hostRecord (host_record_json r) = signatureMessage DOM_hostRecord (host_record_json r')
        \<longleftrightarrow> r = r')
   \<and> signatureMessage DOM_hostGrant (grant_json p) \<noteq> signatureMessage DOM_hostRecord (host_record_json r)"
proof -
  have msg: "d \<in> set SIGNATURE_DOMAINS \<Longrightarrow> \<exists>m. signatureMessage d v = Inr m" for d v
    using domains_ok [of d] by (simp add: signatureMessage_def)
  have g: "DOM_hostGrant \<in> set SIGNATURE_DOMAINS" and r: "DOM_hostRecord \<in> set SIGNATURE_DOMAINS"
    by (simp_all add: SIGNATURE_DOMAINS_def)
  have "p = p'" if "signatureMessage DOM_hostGrant (grant_json p) = signatureMessage DOM_hostGrant (grant_json p')"
    using that msg [OF g] signature_message_unambiguous same_grant by metis
  moreover have "r = r'"
    if "signatureMessage DOM_hostRecord (host_record_json r) = signatureMessage DOM_hostRecord (host_record_json r')"
    using that msg [OF r] signature_message_unambiguous same_record by metis
  moreover have "DOM_hostGrant \<noteq> DOM_hostRecord" by (simp add: domain_defs)
  then have "signatureMessage DOM_hostGrant (grant_json p) \<noteq> signatureMessage DOM_hostRecord (host_record_json r)"
    using msg [OF g] signature_message_unambiguous by metis
  ultimately show ?thesis by blast
qed

text \<open>
  What the documents rely on Ed25519 for: keys and signatures have the length and the canonical encoding
  the schemas ask for, and a signature verifies under the public key of the seed that made it.
\<close>

definition ed25519_ok :: "'z crypto_scheme \<Rightarrow> bool" where
  "ed25519_ok c \<longleftrightarrow>
     (\<forall>seed. PublicKeySchema (public_key c seed) \<and> canonical_base64url (public_key c seed)) \<and>
     (\<forall>seed m. SignatureSchema (sign_message c seed m) \<and> canonical_base64url (sign_message c seed m)
        \<and> verify_message c (public_key c seed) m (sign_message c seed m))"

lemma schema_bytes:
  "PublicKeySchema k \<Longrightarrow> base64url_bytes k = 32" "SignatureSchema s \<Longrightarrow> base64url_bytes s = 64"
  by (simp_all add: PublicKeySchema_def SignatureSchema_def base64url_bytes_def list_all_iff filter_True)

lemma sign_payload_verifies:
  assumes "ed25519_ok c" "d \<in> set SIGNATURE_DOMAINS" "signPayload c seed d enc p = Inr v"
  shows "s_payload v = p \<and> s_key v = public_key c seed \<and> PublicKeySchema (s_key v)
     \<and> SignatureSchema (s_signature v) \<and> verifySigned c d enc v"
proof -
  have "signatureMessage d x = Inr (d @ NUL @ canonicalJson x)" for x
    using domains_ok [OF assms(2)] by (simp add: signatureMessage_def)
  then show ?thesis
    using assms(1,3) by (auto simp: signPayload_def signCanonicalPayload_def verifySigned_def
        verifyCanonicalPayload_def ed25519_ok_def schema_bytes)
qed

lemma create_signed_verifies:
  assumes "ed25519_ok c" "d \<in> set SIGNATURE_DOMAINS" "create_signed c d enc P S p seed = Inr v"
  shows "P p \<and> S v \<and> s_payload v = p \<and> s_key v = public_key c seed \<and> verifySigned c d enc v"
proof -
  from assms(3) have "P p" "S v" "signPayload c seed d enc p = Inr v"
    by (auto simp: create_signed_def split: if_splits sum.splits)
  with sign_payload_verifies [OF assms(1,2) this(3)] show ?thesis by blast
qed

text \<open>
  C21. A registration built the way a host builds it is accepted by everyone who knows the authority key:
  a grant signed by the authority for the key of the host, and a record signed by that host that names the
  grant, the community and the host of the grant, in a role the grant allows, before either expires. The same
  registration is refused once the grant is revoked or expired, or under another authority key.
\<close>

theorem registration_roundtrip:
  assumes "ed25519_ok c"
    and "createSignedHostGrant c g authoritySeed = Inr grant"
    and "createSignedHostRecord c r hostSeed = Inr record"
    and "gp_device_key g = public_key c hostSeed"
    and "hr_server r = gp_server g" "hr_grant r = gp_grant g" "hr_host r = gp_host g"
    and "Register \<in> set (gp_caps g)"
    and "(if hr_role r = Primary then Promote else Replicate) \<in> set (gp_caps g)"
    and "t < hr_expires r" "hr_expires r \<le> hr_issued r + hr_ttl r"
  shows "verifyHostRegistration c record grant key revoked t =
     (if key = public_key c authoritySeed \<and> t < gp_expires g \<and> gp_grant g \<notin> set revoked
      then Some (record, grant) else None)"
proof -
  have g: "signed_schema (HostGrantPayloadSchema c) grant \<and> s_payload grant = g
      \<and> s_key grant = public_key c authoritySeed \<and> verifySigned c DOM_hostGrant grant_json grant"
    using create_signed_verifies [OF assms(1) _ assms(2) [unfolded createSignedHostGrant_def]]
    by (simp add: SIGNATURE_DOMAINS_def)
  have r: "SignedHostRecordSchema c record \<and> s_payload record = r
      \<and> s_key record = public_key c hostSeed \<and> verifySigned c DOM_hostRecord host_record_json record"
    using create_signed_verifies [OF assms(1) _ assms(3) [unfolded createSignedHostRecord_def]]
    by (simp add: SIGNATURE_DOMAINS_def)
  have rec: "verifySignedHostRecord c record (gp_device_key g) t = Some record"
    using r assms(4,10,11) by (simp add: verifySignedHostRecord_def)
  have role: "hr_role r = Primary \<or> hr_role r = Replica" by (cases "hr_role r") auto
  show ?thesis
  proof (cases "key = public_key c authoritySeed \<and> t < gp_expires g")
    case True
    then have "verifySignedHostGrant c grant key t = Some grant" using g by (simp add: verifySignedHostGrant_def)
    then show ?thesis using g r rec True assms(5-9) role by (auto simp: verifyHostRegistration_def)
  next
    case False
    then have "verifySignedHostGrant c grant key t = None" using g by (auto simp: verifySignedHostGrant_def)
    then show ?thesis using False by (auto simp: verifyHostRegistration_def)
  qed
qed

definition sample_key :: "string \<Rightarrow> string" where
  "sample_key s = (if length s \<le> 42 \<and> list_all b64url_char s then s @ replicate (43 - length s) CHR ''A''
                   else replicate 43 CHR ''A'')"

definition sample_signature :: string where "sample_signature = replicate 86 CHR ''A''"

definition sample_crypto :: crypto where
  "sample_crypto =
     \<lparr>is_uuid = (\<lambda>s. s \<noteq> []), parse_url = (\<lambda>s. Some \<lparr>u_protocol = ''wss:'', u_username = [], u_password = [],
        u_search = [], u_hash = [], u_hostname = s\<rparr>),
      sha256Hex = (\<lambda>s. replicate 64 CHR ''0''), public_key = sample_key, fingerprint = (\<lambda>k. k),
      sign_message = (\<lambda>k m. sample_signature), verify_message = (\<lambda>k m s. s = sample_signature)\<rparr>"

lemma b64url_A [simp]: "b64url_char CHR ''A''" "b64url_value CHR ''A'' = 0"
  by (simp_all add: b64url_char_def b64url_value_def B64URL_ALPHABET_def)

lemma sample_key_ok [simp]: "PublicKeySchema (sample_key s)" "canonical_base64url (sample_key s)"
proof -
  have l: "length (sample_key s) = 43" "list_all b64url_char (sample_key s)"
    by (auto simp: sample_key_def list_all_iff)
  have "last (sample_key s) = CHR ''A''" by (auto simp: sample_key_def last_append)
  moreover have "(43 :: nat) mod 4 = Suc (Suc (Suc 0))" by simp
  ultimately show "PublicKeySchema (sample_key s)" "canonical_base64url (sample_key s)"
    using l by (auto simp: PublicKeySchema_def canonical_base64url_def)
qed

lemma sample_signature_ok [simp]: "SignatureSchema sample_signature" "canonical_base64url sample_signature"
proof -
  have "(86 :: nat) mod 4 = Suc (Suc 0)" by simp
  then show "SignatureSchema sample_signature" "canonical_base64url sample_signature"
    by (simp_all add: SignatureSchema_def canonical_base64url_def sample_signature_def list_all_iff)
qed

lemma sample_crypto_ok: "ed25519_ok sample_crypto"
  by (simp add: ed25519_ok_def sample_crypto_def)

definition sample_grant :: grant_payload where
  "sample_grant =
     \<lparr>gp_grant = ''g1'', gp_server = ''srv'', gp_issuer = ''ann'', gp_subject = ''ann'',
      gp_subject_key = sample_key ''ka'', gp_device_key = sample_key ''hs'', gp_host = ''h1'',
      gp_caps = [Register, Replicate, Promote], gp_witness = None, gp_generation = 1, gp_issued = 10,
      gp_expires = 5000\<rparr>"

definition sample_record :: host_record where
  "sample_record =
     \<lparr>hr_server = ''srv'', hr_grant = ''g1'', hr_host = ''h1'', hr_role = Primary, hr_epoch = 0, hr_seq = 1,
      hr_previous = None, hr_endpoints = [''wss://a''], hr_candidates = [], hr_issued = 20, hr_ttl = 300,
      hr_expires = 320\<rparr>"

definition sample_signed :: "'p \<Rightarrow> string \<Rightarrow> 'p signed" where
  "sample_signed p seed = \<lparr>s_payload = p, s_key = sample_key seed, s_signature = sample_signature\<rparr>"

lemma sample_created:
  "createSignedHostGrant sample_crypto sample_grant ''as'' = Inr (sample_signed sample_grant ''as'')"
  "createSignedHostRecord sample_crypto sample_record ''hs'' = Inr (sample_signed sample_record ''hs'')"
proof -
  have dom: "signatureMessage d v = Inr (d @ NUL @ canonicalJson v)" if "d \<in> set SIGNATURE_DOMAINS" for d v
    using domains_ok [OF that] by (simp add: signatureMessage_def)
  have grant: "HostGrantPayloadSchema sample_crypto sample_grant"
    by (simp add: HostGrantPayloadSchema_def sample_grant_def sample_crypto_def identityIdSchema_def
        hostIdSchema_def text_between_def hostCapabilitiesSchema_def positiveSchema_def timestampSchema_def
        is_safe_integer_def)
  have rec_ok: "HostRecordPayloadSchema sample_crypto sample_record"
    by (simp add: HostRecordPayloadSchema_def sample_record_def sample_crypto_def hostIdSchema_def
        text_between_def endpointSchema_def positiveSchema_def timestampSchema_def is_safe_integer_def)
  show "createSignedHostGrant sample_crypto sample_grant ''as'' = Inr (sample_signed sample_grant ''as'')"
    using grant by (simp add: createSignedHostGrant_def create_signed_def signPayload_def signCanonicalPayload_def
        dom SIGNATURE_DOMAINS_def signed_schema_def sample_signed_def) (simp add: sample_crypto_def)
  show "createSignedHostRecord sample_crypto sample_record ''hs'' = Inr (sample_signed sample_record ''hs'')"
    using rec_ok by (simp add: createSignedHostRecord_def create_signed_def signPayload_def signCanonicalPayload_def
        dom SIGNATURE_DOMAINS_def SignedHostRecordSchema_def signed_schema_def sample_signed_def)
       (simp add: sample_crypto_def)
qed

theorem registration_roundtrip_witness:
  "verifyHostRegistration sample_crypto (sample_signed sample_record ''hs'') (sample_signed sample_grant ''as'')
     (sample_key ''as'') [] 100 = Some (sample_signed sample_record ''hs'', sample_signed sample_grant ''as'')"
proof -
  have "public_key sample_crypto = sample_key" by (simp add: sample_crypto_def)
  then show ?thesis
    by (subst registration_roundtrip [OF sample_crypto_ok sample_created])
       (simp_all add: sample_grant_def sample_record_def)
qed

end
