(* ===== verification/HostState.thy ===== *)
theory HostState
  imports Permissions Quorum Protocol Connectivity
begin

text \<open>
  The state of a community host: the tables of its database (\<open>apps/janjanode/src/store.ts\<close>), the
  fields the service object keeps in memory and the events it emits
  (\<open>apps/janjanode/src/server.service.ts\<close>), and the parameters an operation reads from outside
  (clock, environment variables, cryptography).

  JSON columns hold the value their text stands for, except \<open>roles.permissions\<close>, which the code
  also uses as text. Columns no decision and no answer depends on are left out (the creation times of
  roles, the unused \<open>device_proof\<close> and \<open>host_proof\<close> texts).
\<close>

section \<open>Rows\<close>

record member =
  m_id :: string
  m_nick :: string
  m_role :: string
  m_joined :: int
  m_presence :: string

record device =
  d_identity :: string
  d_key :: string
  d_added :: int
  d_revoked :: "int option"

definition d_pk :: "device \<Rightarrow> string \<times> string" where
  "d_pk d = (d_identity d, d_key d)"

record capability =
  cap_token :: string
  cap_identity :: string
  cap_key :: string
  cap_issued :: int
  cap_expires :: int
  cap_consumed :: "int option"

record ban_row =
  b_id :: string
  b_at :: int

record invite =
  i_id :: string
  i_secret_hash :: string
  i_access_hash :: "string option"
  i_role :: string
  i_max :: int
  i_used :: int
  i_expires :: "int option"
  i_revoked :: bool
  i_created :: int

record attachment_ref =
  ar_asset :: string
  ar_name :: string
  ar_mime :: string
  ar_size :: int
  ar_chunks :: int
  ar_hash :: string

record envelope =
  e_version :: int
  e_message :: string
  e_server :: string
  e_channel :: string
  e_sender :: string
  e_device :: "string option"
  e_epoch :: int
  e_algo :: string
  e_members :: "string list"
  e_commitment :: string
  e_ciphertext :: string
  e_attachments :: "attachment_ref list"
  e_seq :: int
  e_prev :: "string option"
  e_created :: int
  e_expires :: "int option"

record spool_row =
  sp_message :: string
  sp_channel :: string
  sp_envelope :: envelope
  sp_expires :: int
  sp_recipients :: "string list"
  sp_consumed :: "string list"
  sp_created :: int
  sp_sender :: string
  sp_bytes :: int

record attachment =
  at_asset :: string
  at_data :: string
  at_bytes :: int
  at_expires :: int
  at_created :: int
  at_owner :: string
  at_channel :: string
  at_audience :: "string list"
  at_linked :: "string option"
  at_chunks :: int
  at_hash :: string
  at_completed :: "int option"

record chunk =
  c_asset :: string
  c_index :: int
  c_data :: string
  c_bytes :: int
  c_hash :: string
  c_created :: int

definition c_pk :: "chunk \<Rightarrow> string \<times> int" where
  "c_pk c = (c_asset c, c_index c)"

record key_package =
  kp_id :: string
  kp_data :: string
  kp_expires :: int

record welcome_row =
  w_id :: string
  w_data :: string
  w_created :: int

section \<open>Hosts\<close>

record host_grant =
  hg_id :: string
  hg_subject :: string
  hg_host :: string
  hg_subject_key :: string
  hg_device_key :: string
  hg_enroll_key :: string
  hg_caps :: "host_capability list"
  hg_payload :: grant_payload
  hg_signature :: string
  hg_expires :: int
  hg_created :: int
  hg_accepted :: "int option"
  hg_revoked :: "int option"
  hg_revocation :: "(revocation \<times> string) option"

record host_candidate =
  hc_id :: string
  hc_subject :: string
  hc_subject_key :: string
  hc_host_key :: string
  hc_enroll_key :: string
  hc_host :: string
  hc_created :: int
  hc_expires :: int
  hc_revoked :: "int option"

record security_proof =
  pf_id :: string
  pf_purpose :: string
  pf_consumed :: int

record replica_enrollment =
  en_id :: string
  en_grant :: string
  en_generation :: int
  en_snapshot :: string
  en_epoch :: int
  en_seq :: int
  en_issued :: int
  en_expires :: int
  en_consumed :: "int option"

record registration =
  rg_authority :: string
  rg_grant :: "grant_payload signed"
  rg_record :: "host_record signed"

record chain_row =
  cr_host :: string
  cr_seq :: int
  cr_hash :: string
  cr_registration :: registration
  cr_committed :: int

definition cr_pk :: "chain_row \<Rightarrow> string \<times> int" where
  "cr_pk r = (cr_host r, cr_seq r)"

section \<open>The database\<close>

text \<open>Entries of the append-only operation log (\<open>op_log\<close>), by the \<open>type\<close> the code gives them.\<close>

datatype log_op =
    OpBootstrap string
  | OpUpdateConfig "(string \<times> json) list"
  | OpJoin string string
  | OpDeviceEnroll string string
  | OpLeave string
  | OpTransferOwnership string string
  | OpInviteCreate string
  | OpInviteRevoke string
  | OpChannelCreate string
  | OpChannelOverrides string
  | OpRoleCreate string
  | OpRoleAssign string string
  | OpKick string
  | OpBan string
  | OpEnvelope string string string
  | OpPurge string
  | OpHostCandidateRegister string string string
  | OpHostGrantCreate string string string
  | OpHostGrantRevoke string int
  | OpHostGrantAccept string string int
  | OpPromote int string string

text \<open>A value of \<open>server_meta\<close>: plain text, a number rendered with \<open>String\<close>, or JSON.\<close>

datatype meta_value = MText string | MInt int | MJson json | MBad string

record db =
  meta :: "string \<Rightarrow> meta_value option"
  roles :: "role list"
  members :: "member list"
  devices :: "device list"
  capabilities :: "capability list"
  bans :: "ban_row list"
  channels :: "channel list"
  invites :: "invite list"
  spool :: "spool_row list"
  op_log :: "(int \<times> log_op) list"
  key_packages :: "key_package list"
  welcomes :: "welcome_row list"
  attachments :: "attachment list"
  chunks :: "chunk list"
  spool_usage :: "string \<Rightarrow> int option"
  host_grants :: "host_grant list"
  host_candidates :: "host_candidate list"
  security_proofs :: "security_proof list"
  replica_enrollments :: "replica_enrollment list"
  host_record_chains :: "chain_row list"

definition empty_db :: db where
  "empty_db =
     \<lparr>meta = Map.empty, roles = [], members = [], devices = [], capabilities = [], bans = [],
      channels = [], invites = [], spool = [], op_log = [], key_packages = [], welcomes = [],
      attachments = [], chunks = [], spool_usage = Map.empty, host_grants = [], host_candidates = [],
      security_proofs = [], replica_enrollments = [], host_record_chains = []\<rparr>"

section \<open>The service object\<close>

text \<open>
  The payload of a call signal: session descriptions, or the JSON text of an ICE candidate.
\<close>

datatype call_signal = CallOffer string | CallAnswer string | CallCandidate string

text \<open>What the service emits to the gateway.\<close>

datatype presence_event =
    StateChanged
  | InviteUsed string
  | MemberRemoved string string
  | Deliver string envelope
  | Activity
  | Purged string
  | WelcomeFor string string string
  | CallMembership string "string list"
  | CallSignal string string string call_signal
  | Presence string string
  | HostGrantRevoked "revocation signed"
  | WriterPromoted int

text \<open>A host registration awaiting the acknowledgement of the bridges.\<close>

record pending_registration =
  pr_endpoints :: "string list"
  pr_registration :: registration
  pr_hash :: string
  pr_committed :: bool

record resume_eligibility =
  re_host :: string
  re_grant :: string
  re_epoch :: int
  re_configured :: "string list"
  re_witness :: "string list list"

record host =
  db :: db
  events :: "presence_event list"
  replay :: replay_guard
  sequences :: "string \<Rightarrow> sequence_tracker option"
  calls :: "(string \<times> string list) list"
  writer :: bool
  pendingRegistration :: "pending_registration option"
  writerResumeEligibility :: "resume_eligibility option"

section \<open>What an operation reads from outside\<close>

text \<open>
  \<open>now\<close> is \<open>Date.now()\<close>, the same for the whole operation. From the environment come the seeds
  (\<open>JC_AUTHORITY_SIGNING_SEED\<close>, \<open>JC_HOST_SIGNING_SEED\<close>), the entries of \<open>JC_BRIDGE_DESCRIPTORS\<close> and
  \<open>JC_BRIDGE_PAIRINGS\<close> (\<open>None\<close> for an entry that has not the schema's shape; no entries where the text is
  unset or no JSON array), \<open>JC_ALLOW_INSECURE_BRIDGE_LOOPBACK\<close>, whether both \<open>JC_RENDEZVOUS_URL\<close> and
  \<open>JC_PUBLIC_URL\<close> are set, and \<open>JC_DIRECT_ROUTE_HINTS\<close>. \<open>render_url e p q\<close> is the URL of the endpoint
  \<open>e\<close> with its protocol and path replaced, \<open>base64url\<close> encodes bytes, \<open>utf8\<close> a text, and \<open>legacy_invite\<close>
  writes a secret as a JC2 key for this server and its direct endpoint. A parsed invite is the server it names, the authority that
  signed it (versions 3 and 4) and its secret.
\<close>

datatype seed_setting = NoSeed | MalformedSeed | Seed string

datatype routes_setting = RoutesUnset | RoutesTooLong | RoutesNotJson | RoutesOtherShape | Routes "route_config list"

datatype parsed_invite =
    SignedInvite string string string
  | LegacyInvite string string

record world = crypto +
  now :: int
  server_id :: string
  owner_identity :: string
  owner_nickname :: string
  server_name :: string
  authority_seed :: seed_setting
  host_seed :: seed_setting
  owner_public_key :: "string option"
  booted_as_replica :: bool
  bridge_descriptors :: "bridge_descriptor signed option list"
  bridge_pairings :: "pairing_binding option list"
  allow_loopback_downgrade :: bool
  legacy_rendezvous :: bool
  direct_routes :: routes_setting
  render_url :: "string \<Rightarrow> string \<Rightarrow> string \<Rightarrow> string"
  base64url :: "string \<Rightarrow> string"
  utf8 :: "string \<Rightarrow> string"
  legacy_invite :: "string \<Rightarrow> string"
  hmac_sha256 :: "string \<Rightarrow> string \<Rightarrow> string"
  parse_invite :: "string \<Rightarrow> parsed_invite option"
  envelope_bytes :: "envelope \<Rightarrow> int"
  chunk_sha256 :: "byte list \<Rightarrow> string"

section \<open>Elementary steps\<close>

definition emit :: "presence_event \<Rightarrow> host \<Rightarrow> host" where
  "emit e s = events_update (\<lambda>es. es @ [e]) s"

text \<open>\<open>appendOp\<close>: the sequence number is the next of an \<open>AUTOINCREMENT\<close> column.\<close>

definition max_seq :: "db \<Rightarrow> int" where
  "max_seq d = (if op_log d = [] then 0 else Max (fst ` set (op_log d)))"

definition appendOp :: "log_op \<Rightarrow> db \<Rightarrow> db" where
  "appendOp op d = op_log_update (\<lambda>l. l @ [(max_seq d + 1, op)]) d"

text \<open>\<open>INSERT ... ON CONFLICT(key) DO UPDATE SET value=excluded.value\<close> on \<open>server_meta\<close>\<close>

definition set_meta :: "string \<Rightarrow> meta_value \<Rightarrow> db \<Rightarrow> db" where
  "set_meta k v d = meta_update (\<lambda>m. m(k \<mapsto> v)) d"

definition get_member :: "db \<Rightarrow> string \<Rightarrow> member option" where
  "get_member d x = get_row m_id x (members d)"

definition get_role :: "db \<Rightarrow> string \<Rightarrow> role option" where
  "get_role d x = get_row role_id x (roles d)"

definition get_channel :: "db \<Rightarrow> string \<Rightarrow> channel option" where
  "get_channel d x = get_row ch_id x (channels d)"

definition isMember :: "db \<Rightarrow> string \<Rightarrow> bool" where
  "isMember d x = (get_member d x \<noteq> None)"

definition isBanned :: "db \<Rightarrow> string \<Rightarrow> bool" where
  "isBanned d x = has_row b_id x (bans d)"

definition isAuthorizedDevice :: "db \<Rightarrow> string \<Rightarrow> string \<Rightarrow> bool" where
  "isAuthorizedDevice d x k =
     list_ex (\<lambda>r. d_identity r = x \<and> d_key r = k \<and> d_revoked r = None) (devices d)"

definition memberContext :: "member \<Rightarrow> member_context" where
  "memberContext m = \<lparr>mc_identity = m_id m, mc_role = m_role m, mc_is_owner = (m_role m = ''role-owner'')\<rparr>"

text \<open>
  \<open>evaluatePermission(memberContext(m), getRole(m.role_id)!, channel, p)\<close>: the role of a dangling
  \<open>role_id\<close> is \<open>undefined\<close>, whose fields only the owner flag keeps from being read.
\<close>

definition member_permits :: "db \<Rightarrow> member \<Rightarrow> channel option \<Rightarrow> permission \<Rightarrow> exn + bool" where
  "member_permits d m ch p =
     (case get_role d (m_role m) of
        Some r \<Rightarrow> Inr (evaluatePermission (memberContext m) r ch p)
      | None \<Rightarrow> if mc_is_owner (memberContext m) then Inr True else Inl TypeError)"

text \<open>
  The opening of most handlers: the actor must be a member (\<open>forbidden\<close> otherwise) and hold a
  server-wide permission (\<open>forbidden\<close> otherwise).
\<close>

definition require_permission :: "db \<Rightarrow> string \<Rightarrow> permission \<Rightarrow> hfail + member" where
  "require_permission d actorId p =
     (case get_member d actorId of
        None \<Rightarrow> Inl (Fail Forbidden)
      | Some m \<Rightarrow>
          (case member_permits d m None p of
             Inl e \<Rightarrow> Inl (Throws e)
           | Inr False \<Rightarrow> Inl (Fail Forbidden)
           | Inr True \<Rightarrow> Inr m))"

definition getConfig :: "db \<Rightarrow> (string \<times> json) list" where
  "getConfig d = (case meta d ''config'' of Some (MJson (JObj o1)) \<Rightarrow> o1 | _ \<Rightarrow> [])"

definition getEpoch :: "db \<Rightarrow> int" where
  "getEpoch d = (case meta d ''epoch'' of Some (MInt n) \<Rightarrow> n | _ \<Rightarrow> 0)"

definition authorityPublicKey :: "db \<Rightarrow> exn + string" where
  "authorityPublicKey d =
     (case meta d ''authority_public_key'' of
        Some (MText k) \<Rightarrow> Inr k
      | _ \<Rightarrow> Inl (AppError ''authority_public_key is not provisioned''))"

text \<open>The tables whose rows are looked up, inserted and deleted by primary key.\<close>

interpretation invite_rows: keyed_table i_id "get_row i_id" "ins_row i_id"
    "\<lambda>k. del_rows (\<lambda>r. i_id r = k)" "pk i_id"
  by (rule list_keyed_table)

interpretation proof_rows: keyed_table pf_id "get_row pf_id" "ins_row pf_id"
    "\<lambda>k. del_rows (\<lambda>r. pf_id r = k)" "pk pf_id"
  by (rule list_keyed_table)

interpretation device_rows: keyed_table d_pk "get_row d_pk" "ins_row d_pk"
    "\<lambda>k. del_rows (\<lambda>r. d_pk r = k)" "pk d_pk"
  by (rule list_keyed_table)

interpretation ban_rows: keyed_table b_id "get_row b_id" "ins_row b_id"
    "\<lambda>k. del_rows (\<lambda>r. b_id r = k)" "pk b_id"
  by (rule list_keyed_table)

declare emit_def [op_defs] appendOp_def [op_defs] set_meta_def [op_defs]

end
