(* ===== verification/Store.thy ===== *)
theory Store
  imports HostState
begin

text \<open>
  The store, \<open>apps/janjanode/src/store.ts\<close>: the triggers that keep \<open>spool_usage\<close>, the migration of
  the authority metadata, and the replacement of the database of a replica by an encrypted snapshot.
  Opening SQLCipher bytes is the parameter \<open>open_db\<close>; a file is the database it holds, and the
  staging, renaming and syncing of files is left out.
\<close>

section \<open>Spool accounting\<close>

definition member_scope :: "string \<Rightarrow> string" where
  "member_scope x = ''member:'' @ x"

text \<open>\<open>INSERT INTO spool_usage VALUES (scope, n) ON CONFLICT DO UPDATE SET size_bytes = size_bytes + n\<close>\<close>

definition usage_add :: "string \<Rightarrow> int \<Rightarrow> (string \<Rightarrow> int option) \<Rightarrow> (string \<Rightarrow> int option)" where
  "usage_add scope n u = u(scope \<mapsto> (case u scope of None \<Rightarrow> n | Some v \<Rightarrow> v + n))"

text \<open>\<open>... VALUES (scope, 0) ON CONFLICT DO UPDATE SET size_bytes = MAX(0, size_bytes - n)\<close>\<close>

definition usage_sub :: "string \<Rightarrow> int \<Rightarrow> (string \<Rightarrow> int option) \<Rightarrow> (string \<Rightarrow> int option)" where
  "usage_sub scope n u = u(scope \<mapsto> (case u scope of None \<Rightarrow> 0 | Some v \<Rightarrow> max 0 (v - n)))"

definition usage_insert :: "string \<Rightarrow> int \<Rightarrow> (string \<Rightarrow> int option) \<Rightarrow> (string \<Rightarrow> int option)" where
  "usage_insert x n u = usage_add (member_scope x) n (usage_add ''global'' n u)"

definition usage_delete :: "string \<Rightarrow> int \<Rightarrow> (string \<Rightarrow> int option) \<Rightarrow> (string \<Rightarrow> int option)" where
  "usage_delete x n u = usage_sub (member_scope x) n (usage_sub ''global'' n u)"

definition usage_update ::
    "string \<Rightarrow> int \<Rightarrow> string \<Rightarrow> int \<Rightarrow> (string \<Rightarrow> int option) \<Rightarrow> (string \<Rightarrow> int option)" where
  "usage_update old_owner old_n new_owner new_n u =
     (let u1 = u(''global'' \<mapsto> (case u ''global'' of None \<Rightarrow> 0 | Some v \<Rightarrow> max 0 (v - old_n) + new_n))
      in usage_add (member_scope new_owner) new_n (usage_sub (member_scope old_owner) old_n u1))"

definition usage_read :: "(string \<Rightarrow> int option) \<Rightarrow> string \<Rightarrow> int" where
  "usage_read u scope = (case u scope of None \<Rightarrow> 0 | Some v \<Rightarrow> v)"

text \<open>Statements on the two accounted tables, with their triggers.\<close>

definition ins_attachment :: "attachment \<Rightarrow> db \<Rightarrow> db option" where
  "ins_attachment r d =
     map_option (\<lambda>t. d\<lparr>attachments := t, spool_usage := usage_insert (at_owner r) (at_bytes r) (spool_usage d)\<rparr>)
       (ins_row at_asset r (attachments d))"

definition del_attachments :: "(attachment \<Rightarrow> bool) \<Rightarrow> db \<Rightarrow> db" where
  "del_attachments P d =
     (let gone = filter P (attachments d) in
      d\<lparr>attachments := del_rows P (attachments d),
        chunks := del_rows (\<lambda>c. c_asset c \<in> at_asset ` set gone) (chunks d),
        spool_usage := fold (\<lambda>r. usage_delete (at_owner r) (at_bytes r)) gone (spool_usage d)\<rparr>)"

definition ins_spool :: "spool_row \<Rightarrow> db \<Rightarrow> db option" where
  "ins_spool r d =
     map_option (\<lambda>t. d\<lparr>spool := t, spool_usage := usage_insert (sp_sender r) (sp_bytes r) (spool_usage d)\<rparr>)
       (ins_row sp_message r (spool d))"

definition del_spool :: "(spool_row \<Rightarrow> bool) \<Rightarrow> db \<Rightarrow> db" where
  "del_spool P d =
     (let gone = filter P (spool d) in
      d\<lparr>spool := del_rows P (spool d),
        spool_usage := fold (\<lambda>r. usage_delete (sp_sender r) (sp_bytes r)) gone (spool_usage d)\<rparr>)"

text \<open>What the counters should say: the accounted rows as pairs of owner and size.\<close>

definition ledger :: "db \<Rightarrow> (string \<times> int) list" where
  "ledger d = map (\<lambda>r. (at_owner r, at_bytes r)) (attachments d) @ map (\<lambda>r. (sp_sender r, sp_bytes r)) (spool d)"

definition ledger_total :: "(string \<times> int) list \<Rightarrow> int" where
  "ledger_total ws = sum_list (map snd ws)"

definition ledger_owner :: "(string \<times> int) list \<Rightarrow> string \<Rightarrow> int" where
  "ledger_owner ws x = sum_list (map snd (filter (\<lambda>w. fst w = x) ws))"

text \<open>\<open>ensureSpoolAccounting\<close> rebuilds the table; rows without owner are not grouped.\<close>

definition rebuild_usage :: "db \<Rightarrow> db" where
  "rebuild_usage d =
     (let owners = filter (\<lambda>x. x \<noteq> []) (remdups (map fst (ledger d))) in
      d\<lparr>spool_usage :=
          [''global'' \<mapsto> ledger_total (ledger d)]
            ++ map_of (map (\<lambda>x. (member_scope x, ledger_owner (ledger d) x)) owners)\<rparr>)"

definition usage_ok :: "db \<Rightarrow> bool" where
  "usage_ok d \<longleftrightarrow>
     (\<forall>(x, n) \<in> set (ledger d). 0 \<le> n) \<and>
     usage_read (spool_usage d) ''global'' = ledger_total (ledger d) \<and>
     (\<forall>x. x \<noteq> [] \<longrightarrow> usage_read (spool_usage d) (member_scope x) = ledger_owner (ledger d) x)"

lemma member_scope_eq [simp]:
  "member_scope x = member_scope y \<longleftrightarrow> x = y" "member_scope x \<noteq> ''global''" "''global'' \<noteq> member_scope x"
  by (simp_all add: member_scope_def)

lemma read_add: "usage_read (usage_add s n u) s' = (if s = s' then usage_read u s' + n else usage_read u s')"
  by (simp add: usage_add_def usage_read_def split: option.split)

lemma read_sub:
  "0 \<le> n \<Longrightarrow> usage_read (usage_sub s n u) s' = (if s = s' then max 0 (usage_read u s' - n) else usage_read u s')"
  by (simp add: usage_sub_def usage_read_def split: option.split)

lemma read_insert:
  "usage_read (usage_insert x n u) ''global'' = usage_read u ''global'' + n"
  "usage_read (usage_insert x n u) (member_scope y) = usage_read u (member_scope y) + (if x = y then n else 0)"
  by (simp_all add: usage_insert_def read_add)

lemma read_delete:
  "0 \<le> n \<Longrightarrow> usage_read (usage_delete x n u) ''global'' = max 0 (usage_read u ''global'' - n)"
  "0 \<le> n \<Longrightarrow> usage_read (usage_delete x n u) (member_scope y)
     = (if x = y then max 0 (usage_read u (member_scope y) - n) else usage_read u (member_scope y))"
  by (simp_all add: usage_delete_def read_sub)

lemma ledger_nonneg:
  "\<forall>(x, n) \<in> set ws. 0 \<le> n \<Longrightarrow> 0 \<le> ledger_total ws \<and> 0 \<le> ledger_owner ws x"
  by (induction ws) (auto simp: ledger_total_def ledger_owner_def)

lemma read_fold_delete:
  "\<forall>(x, n) \<in> set ws. 0 \<le> n \<Longrightarrow> ledger_total ws \<le> usage_read u ''global'' \<Longrightarrow>
   usage_read (fold (\<lambda>(x, n). usage_delete x n) ws u) ''global'' = usage_read u ''global'' - ledger_total ws"
proof (induction ws arbitrary: u)
  case (Cons w ws)
  then have "0 \<le> ledger_total ws" using ledger_nonneg [of ws] by auto
  with Cons show ?case by (auto simp: read_delete ledger_total_def)
qed (simp add: ledger_total_def)

lemma read_fold_delete_member:
  "\<forall>(x, n) \<in> set ws. 0 \<le> n \<Longrightarrow> ledger_owner ws y \<le> usage_read u (member_scope y) \<Longrightarrow>
   usage_read (fold (\<lambda>(x, n). usage_delete x n) ws u) (member_scope y)
     = usage_read u (member_scope y) - ledger_owner ws y"
proof (induction ws arbitrary: u)
  case (Cons w ws)
  then have "0 \<le> ledger_owner ws y" using ledger_nonneg [of ws y] by auto
  with Cons show ?case by (auto simp: read_delete ledger_owner_def)
qed (simp add: ledger_owner_def)

lemma ledger_total_append [simp]: "ledger_total (xs @ ys) = ledger_total xs + ledger_total ys"
  by (simp add: ledger_total_def)

lemma ledger_owner_append [simp]: "ledger_owner (xs @ ys) x = ledger_owner xs x + ledger_owner ys x"
  by (simp add: ledger_owner_def)

lemma ledger_Cons [simp]:
  "ledger_total ((x, n) # ws) = n + ledger_total ws"
  "ledger_owner ((x, n) # ws) y = (if x = y then n else 0) + ledger_owner ws y"
  "ledger_total [] = 0" "ledger_owner [] y = 0"
  by (simp_all add: ledger_total_def ledger_owner_def)

lemma ledger_partition:
  "ledger_total (map f (filter P rs)) + ledger_total (map f (filter (\<lambda>r. \<not> P r) rs)) = ledger_total (map f rs)"
  "ledger_owner (map f (filter P rs)) x + ledger_owner (map f (filter (\<lambda>r. \<not> P r) rs)) x = ledger_owner (map f rs) x"
  by (induction rs) (auto simp: ledger_total_def ledger_owner_def)

lemma fold_usage_delete:
  "fold (\<lambda>r. usage_delete (f r) (g r)) rs u = fold (\<lambda>(x, n). usage_delete x n) (map (\<lambda>r. (f r, g r)) rs) u"
  by (induction rs arbitrary: u) simp_all

text \<open>
  The shape of the four statements: rows leave or enter one accounted table, the other rows of the
  ledger stay.
\<close>

definition usage_matches :: "(string \<times> int) list \<Rightarrow> (string \<Rightarrow> int option) \<Rightarrow> bool" where
  "usage_matches ws u \<longleftrightarrow>
     (\<forall>(x, n) \<in> set ws. 0 \<le> n) \<and>
     usage_read u ''global'' = ledger_total ws \<and>
     (\<forall>x. x \<noteq> [] \<longrightarrow> usage_read u (member_scope x) = ledger_owner ws x)"

lemma usage_ok_matches: "usage_ok d = usage_matches (ledger d) (spool_usage d)"
  by (simp add: usage_ok_def usage_matches_def)

lemma usage_matches_insert:
  assumes "usage_matches ws u" and "0 \<le> n"
    and "ledger_total ws' = ledger_total ws + n"
    and "\<And>y. ledger_owner ws' y = ledger_owner ws y + (if x = y then n else 0)"
    and "set ws' \<subseteq> insert (x, n) (set ws)"
  shows "usage_matches ws' (usage_insert x n u)"
  using assms by (fastforce simp: usage_matches_def read_insert)

lemma usage_matches_delete:
  assumes "usage_matches (map f rs @ others) u"
  shows "usage_matches (map f (filter (\<lambda>r. \<not> P r) rs) @ others)
           (fold (\<lambda>(x, n). usage_delete x n) (map f (filter P rs)) u)"
proof -
  have gone: "\<forall>(x, n) \<in> set (map f (filter P rs)). 0 \<le> n"
    and kept: "\<forall>(x, n) \<in> set (map f (filter (\<lambda>r. \<not> P r) rs) @ others). 0 \<le> n"
    using assms by (auto simp: usage_matches_def)
  note total = ledger_partition(1) [of f P rs] and owner = ledger_partition(2) [of f P rs]
  have "ledger_total (map f (filter P rs)) \<le> usage_read u ''global''"
    using assms ledger_nonneg [OF kept, THEN conjunct1] total by (simp add: usage_matches_def)
  moreover have "x \<noteq> [] \<Longrightarrow> ledger_owner (map f (filter P rs)) x \<le> usage_read u (member_scope x)" for x
    using assms ledger_nonneg [OF kept, THEN conjunct2, of x] owner [of x] by (simp add: usage_matches_def)
  ultimately show ?thesis
    using assms kept total owner
    by (simp add: usage_matches_def read_fold_delete [OF gone] read_fold_delete_member [OF gone]) (smt (verit))
qed

lemma usage_matches_swap: "usage_matches (xs @ ys) u \<longleftrightarrow> usage_matches (ys @ xs) u"
  by (auto simp: usage_matches_def)

lemma usage_ok_ins_attachment:
  "usage_ok d \<Longrightarrow> ins_attachment r d = Some d' \<Longrightarrow> 0 \<le> at_bytes r \<Longrightarrow> usage_ok d'"
  unfolding usage_ok_matches ins_attachment_def
  by (auto simp: ins_row_def ledger_def split: if_splits elim!: usage_matches_insert)

lemma usage_ok_ins_spool:
  "usage_ok d \<Longrightarrow> ins_spool r d = Some d' \<Longrightarrow> 0 \<le> sp_bytes r \<Longrightarrow> usage_ok d'"
  unfolding usage_ok_matches ins_spool_def
  by (auto simp: ins_row_def ledger_def split: if_splits elim!: usage_matches_insert)

lemma usage_ok_del_attachments: "usage_ok d \<Longrightarrow> usage_ok (del_attachments P d)"
  unfolding usage_ok_matches del_attachments_def ledger_def Let_def fold_usage_delete del_rows_def
  using usage_matches_delete [of _ "attachments d" _ "spool_usage d" P] by simp

lemma usage_ok_del_spool: "usage_ok d \<Longrightarrow> usage_ok (del_spool P d)"
  unfolding usage_ok_matches del_spool_def ledger_def Let_def fold_usage_delete del_rows_def
  using usage_matches_delete [of _ "spool d" _ "spool_usage d" P] by (simp add: usage_matches_swap)

lemma ledger_owner_absent: "x \<notin> fst ` set ws \<Longrightarrow> ledger_owner ws x = 0"
  by (induction ws) (auto simp: ledger_owner_def)

lemma map_of_scopes:
  "map_of (map (\<lambda>x. (member_scope x, f x)) xs) (member_scope y) = (if y \<in> set xs then Some (f y) else None)"
  "map_of (map (\<lambda>x. (member_scope x, f x)) xs) ''global'' = None"
  by (induction xs) auto

lemma ledger_usage_update [simp]: "ledger (spool_usage_update f d) = ledger d"
  by (simp add: ledger_def)

lemma usage_ok_rebuild: "\<forall>(x, n) \<in> set (ledger d). 0 \<le> n \<Longrightarrow> usage_ok (rebuild_usage d)"
  by (auto simp: usage_ok_def rebuild_usage_def Let_def usage_read_def map_of_scopes map_add_def
      ledger_owner_absent split: option.splits)

text \<open>
  C1. The spool counters are exact. From counters that agree with the stored rows, inserting or deleting
  any attachments or messages leaves counters that agree again, for the whole spool and for each member,
  and the clamp \<open>MAX(0, ...)\<close> of the triggers never cuts anything off; the quota checks read true values.
\<close>

theorem spool_accounting_exact:
  assumes "usage_ok d"
  shows "usage_ok (del_attachments P d) \<and> usage_ok (del_spool Q d)
       \<and> (\<forall>r d'. ins_attachment r d = Some d' \<longrightarrow> 0 \<le> at_bytes r \<longrightarrow> usage_ok d')
       \<and> (\<forall>r d'. ins_spool r d = Some d' \<longrightarrow> 0 \<le> sp_bytes r \<longrightarrow> usage_ok d')"
  using assms usage_ok_del_attachments usage_ok_del_spool usage_ok_ins_attachment usage_ok_ins_spool by blast

theorem spool_accounting_exact_witness:
  "usage_ok (del_spool (\<lambda>_. True) empty_db)"
  using spool_accounting_exact [of empty_db "\<lambda>_. True" "\<lambda>_. True"]
  by (simp add: usage_ok_def ledger_def empty_db_def usage_read_def)

text \<open>
  Opening a store repairs the counters: whatever \<open>spool_usage\<close> held, after the rebuild it agrees with
  the stored rows, provided no stored size is negative.
\<close>

theorem spool_accounting_rebuilt:
  assumes "\<forall>(x, n) \<in> set (ledger d). 0 \<le> n"
  shows "usage_ok (rebuild_usage d) \<and> ledger (rebuild_usage d) = ledger d"
  using usage_ok_rebuild [OF assms] by (simp add: rebuild_usage_def Let_def)

definition sample_attachment :: attachment where
  "sample_attachment =
     \<lparr>at_asset = ''a1'', at_data = '''', at_bytes = 40, at_expires = 100, at_created = 0, at_owner = ''bob'',
      at_channel = ''c'', at_audience = [''bob''], at_linked = None, at_chunks = 1, at_hash = ''h'',
      at_completed = None\<rparr>"

theorem spool_accounting_rebuilt_witness:
  "usage_ok (rebuild_usage (empty_db\<lparr>attachments := [sample_attachment], spool_usage := [''global'' \<mapsto> 7]\<rparr>))"
  using spool_accounting_rebuilt [of "empty_db\<lparr>attachments := [sample_attachment], spool_usage := [''global'' \<mapsto> 7]\<rparr>"]
  by (simp add: ledger_def empty_db_def sample_attachment_def)

text \<open>The update trigger moves a row's size between owners.\<close>

lemma usage_matches_update:
  assumes "usage_matches (xs @ (old_owner, old_n) # ys) u" and "0 \<le> new_n"
    and "u ''global'' \<noteq> None"
  shows "usage_matches (xs @ (new_owner, new_n) # ys) (usage_update old_owner old_n new_owner new_n u)"
proof -
  have nonneg: "\<forall>(x, n) \<in> set (xs @ ys). 0 \<le> n" and old: "0 \<le> old_n"
    using assms(1) by (auto simp: usage_matches_def)
  obtain g where g: "u ''global'' = Some g" using assms(3) by blast
  have sums: "0 \<le> ledger_total xs + ledger_total ys" "0 \<le> ledger_owner xs x + ledger_owner ys x" for x
    using ledger_nonneg [OF nonneg, of x] by simp_all
  define u1 where "u1 = u(''global'' \<mapsto> max 0 (g - old_n) + new_n)"
  have u1: "usage_read u1 ''global'' = max 0 (usage_read u ''global'' - old_n) + new_n"
    "usage_read u1 (member_scope x) = usage_read u (member_scope x)" for x
    by (simp_all add: u1_def usage_read_def g)
  have upd: "usage_update old_owner old_n new_owner new_n u
      = usage_add (member_scope new_owner) new_n (usage_sub (member_scope old_owner) old_n u1)"
    by (simp add: usage_update_def u1_def g)
  show ?thesis
    using assms(1,2) sums nonneg old
    by (auto simp: usage_matches_def upd read_add read_sub u1)
qed

section \<open>Authority metadata\<close>

definition hex_digit :: "char \<Rightarrow> bool" where
  "hex_digit c \<longleftrightarrow> c \<in> set ''0123456789abcdefABCDEF''"

text \<open>\<open>/^[0-9a-f]{64}$/i\<close>\<close>

definition hex64 :: "string \<Rightarrow> bool" where
  "hex64 s \<longleftrightarrow> length s = 64 \<and> list_all hex_digit s"

text \<open>\<open>Buffer.from(s, "hex").toString("hex")\<close> of such a text\<close>

definition lower_hex :: "string \<Rightarrow> string" where
  "lower_hex s = map (\<lambda>c. if c \<in> set ''ABCDEF'' then char_of (of_char c + 32 :: nat) else c) s"

definition legacySeed :: "db \<Rightarrow> string option" where
  "legacySeed d =
     (case meta d ''server_key'' of
        Some (MText v) \<Rightarrow> if hex64 v then Some (lower_hex v) else None
      | _ \<Rightarrow> None)"

text \<open>\<open>authority_of\<close> derives the public key of a seed; \<open>fresh\<close> is the hex text of 32 random bytes.\<close>

definition migrateAuthorityMetadata :: "(string \<Rightarrow> string) \<Rightarrow> string \<Rightarrow> db \<Rightarrow> db" where
  "migrateAuthorityMetadata authority_of fresh d =
     (let seed = legacySeed d;
          d1 = (case (meta d ''authority_public_key'', seed) of
                  (None, Some k) \<Rightarrow> set_meta ''authority_public_key'' (MText (authority_of k)) d
                | _ \<Rightarrow> d);
          d2 = (if meta d1 ''invite_hash_key'' = None
                then set_meta ''invite_hash_key'' (MText (case seed of Some k \<Rightarrow> k | None \<Rightarrow> fresh)) d1
                else d1)
      in meta_update (\<lambda>m. m(''server_key'' := None)) d2)"

definition openAndMigrate :: "(string \<Rightarrow> string) \<Rightarrow> string \<Rightarrow> db \<Rightarrow> db" where
  "openAndMigrate authority_of fresh d = migrateAuthorityMetadata authority_of fresh (rebuild_usage d)"

lemma meta_set_meta [simp]: "meta (set_meta k v d) = (meta d)(k \<mapsto> v)"
  by (simp add: set_meta_def)

lemma meta_rebuild [simp]: "meta (rebuild_usage d) = meta d"
  by (simp add: rebuild_usage_def Let_def)

lemma legacySeed_rebuild [simp]: "legacySeed (rebuild_usage d) = legacySeed d"
  by (simp add: legacySeed_def)

lemma meta_openAndMigrate:
  "meta (openAndMigrate derive fresh d) k =
     (if k = ''server_key'' then None
      else if k = ''authority_public_key''
      then (case meta d k of Some v \<Rightarrow> Some v | None \<Rightarrow> map_option (\<lambda>seed. MText (derive seed)) (legacySeed d))
      else if k = ''invite_hash_key''
      then (case meta d k of Some v \<Rightarrow> Some v
                           | None \<Rightarrow> Some (MText (case legacySeed d of Some seed \<Rightarrow> seed | None \<Rightarrow> fresh)))
      else meta d k)"
  by (cases "meta d ''authority_public_key''"; cases "legacySeed d"; cases "meta d ''invite_hash_key''")
    (simp_all add: openAndMigrate_def migrateAuthorityMetadata_def)

text \<open>
  The authority's private key leaves the database before anything can be replicated: after a store is
  opened no \<open>server_key\<close> is left, an invite hash key is present, an authority key already stored is kept,
  one derived from the legacy seed is stored otherwise, and opening twice changes nothing more.
\<close>

theorem open_removes_private_key:
  "meta (openAndMigrate derive fresh d) ''server_key'' = None \<and>
   meta (openAndMigrate derive fresh d) ''invite_hash_key'' \<noteq> None \<and>
   (\<forall>v. meta d ''authority_public_key'' = Some v \<longrightarrow> meta (openAndMigrate derive fresh d) ''authority_public_key'' = Some v) \<and>
   (\<forall>k. meta d ''server_key'' = Some (MText k) \<longrightarrow> hex64 k \<longrightarrow> meta d ''authority_public_key'' = None \<longrightarrow>
        meta (openAndMigrate derive fresh d) ''authority_public_key'' = Some (MText (derive (lower_hex k)))) \<and>
   meta (openAndMigrate derive fresh' (openAndMigrate derive fresh d)) = meta (openAndMigrate derive fresh d)"
proof -
  have "legacySeed (openAndMigrate derive fresh d) = None" by (simp add: legacySeed_def meta_openAndMigrate)
  then have "meta (openAndMigrate derive fresh' (openAndMigrate derive fresh d)) = meta (openAndMigrate derive fresh d)"
    by (intro ext) (simp add: meta_openAndMigrate split: option.split)
  then show ?thesis by (auto simp: meta_openAndMigrate legacySeed_def split: option.split)
qed

theorem open_removes_private_key_witness:
  "meta (openAndMigrate (\<lambda>k. ''pk'') ''00'' (empty_db\<lparr>meta := [''server_key'' \<mapsto> MText (replicate 64 CHR ''a'')]\<rparr>))
     ''authority_public_key'' = Some (MText ''pk'')"
  using open_removes_private_key [of "\<lambda>k. ''pk''" "''00''" "empty_db\<lparr>meta := [''server_key'' \<mapsto> MText (replicate 64 CHR ''a'')]\<rparr>"]
  by (simp add: hex64_def hex_digit_def list_all_iff empty_db_def)

section \<open>Snapshots\<close>

record snapshot_metadata =
  sm_server :: string
  sm_authority :: string
  sm_epoch :: int
  sm_seq :: int

record snapshot_expectation =
  ex_server :: string
  ex_authority :: string
  ex_min_epoch :: "int option"
  ex_min_seq :: "int option"
  ex_exact_epoch :: "int option"
  ex_exact_seq :: "int option"

definition meta_text :: "db \<Rightarrow> string \<Rightarrow> string" where
  "meta_text d k = (case meta d k of Some (MText v) \<Rightarrow> v | _ \<Rightarrow> '''')"

text \<open>\<open>Number(values.get("epoch") ?? 0)\<close>, \<open>None\<close> for \<open>NaN\<close>\<close>

definition meta_number :: "db \<Rightarrow> string \<Rightarrow> int option" where
  "meta_number d k = (case meta d k of None \<Rightarrow> Some 0 | Some (MInt n) \<Rightarrow> Some n | Some _ \<Rightarrow> None)"

definition readMetadata :: "db \<Rightarrow> exn + snapshot_metadata" where
  "readMetadata d =
     (let serverId = meta_text d ''server_id'';
          authority = meta_text d ''authority_public_key''
      in case meta_number d ''epoch'' of
           None \<Rightarrow> Inl (AppError ''replica snapshot is missing valid server identity metadata'')
         | Some epoch \<Rightarrow>
             if serverId = [] \<or> authority = [] \<or> \<not> is_safe_integer epoch \<or> epoch < 0
             then Inl (AppError ''replica snapshot is missing valid server identity metadata'')
             else Inr \<lparr>sm_server = serverId, sm_authority = authority, sm_epoch = epoch, sm_seq = max_seq d\<rparr>)"

definition differs :: "int option \<Rightarrow> int \<Rightarrow> bool" where
  "differs e n = (case e of None \<Rightarrow> False | Some v \<Rightarrow> n \<noteq> v)"

definition validateMetadata :: "snapshot_metadata \<Rightarrow> snapshot_expectation \<Rightarrow> exn + snapshot_metadata" where
  "validateMetadata m ex =
     (if sm_server m \<noteq> ex_server ex then Inl (AppError ''replica snapshot serverId mismatch'')
      else if sm_authority m \<noteq> ex_authority ex then Inl (AppError ''replica snapshot authority mismatch'')
      else if sm_epoch m < (case ex_min_epoch ex of None \<Rightarrow> 0 | Some n \<Rightarrow> n)
      then Inl (AppError ''replica snapshot epoch downgrade'')
      else if sm_seq m < (case ex_min_seq ex of None \<Rightarrow> 0 | Some n \<Rightarrow> n)
      then Inl (AppError ''replica snapshot sequence downgrade'')
      else if differs (ex_exact_epoch ex) (sm_epoch m)
      then Inl (AppError ''replica snapshot epoch envelope mismatch'')
      else if differs (ex_exact_seq ex) (sm_seq m)
      then Inl (AppError ''replica snapshot sequence envelope mismatch'')
      else Inr m)"

definition sqlite_magic :: "byte list" where
  "sqlite_magic = map of_char ''SQLite format 3'' @ [0]"

definition assertEncrypted :: "byte list \<Rightarrow> exn + unit" where
  "assertEncrypted data =
     (if length data < 512 then Inl (AppError ''replica snapshot is too small'')
      else if take 16 data = sqlite_magic then Inl (AppError ''plaintext SQLite snapshots are forbidden'')
      else Inr ())"

text \<open>\<open>open()\<close> of SQLCipher bytes with the store's key, then the metadata checks.\<close>

definition validateEncryptedFile ::
    "(byte list \<Rightarrow> db option) \<Rightarrow> byte list \<Rightarrow> snapshot_expectation \<Rightarrow> exn + db" where
  "validateEncryptedFile open_db data ex =
     (case open_db data of
        None \<Rightarrow> Inl (AppError ''file is not a database'')
      | Some d \<Rightarrow>
          (case readMetadata d of
             Inl e \<Rightarrow> Inl e
           | Inr m \<Rightarrow> (case validateMetadata m ex of Inl e \<Rightarrow> Inl e | Inr _ \<Rightarrow> Inr d)))"

text \<open>
  The preserved registrations of the local host: a record already in the snapshot must be the same one,
  another is inserted; \<open>record_hash\<close> is \<open>UNIQUE\<close>.
\<close>

fun preserve_registrations :: "chain_row list \<Rightarrow> db \<Rightarrow> exn + db" where
  "preserve_registrations [] d = Inr d"
| "preserve_registrations (r # rs) d =
     (case get_row cr_pk (cr_pk r) (host_record_chains d) of
        Some old \<Rightarrow>
          if cr_hash old \<noteq> cr_hash r \<or> cr_registration old \<noteq> cr_registration r
          then Inl (AppError ''replica snapshot conflicts with the local host registration chain'')
          else preserve_registrations rs d
      | None \<Rightarrow>
          if has_row cr_hash (cr_hash r) (host_record_chains d) then Inl ConstraintError
          else preserve_registrations rs (host_record_chains_update (\<lambda>t. t @ [r]) d))"

fun preserve_meta :: "(string \<times> meta_value) list \<Rightarrow> db \<Rightarrow> db" where
  "preserve_meta [] d = d"
| "preserve_meta ((k, v) # es) d = preserve_meta es (set_meta k v d)"

definition stageAndValidate ::
    "(byte list \<Rightarrow> db option) \<Rightarrow> byte list \<Rightarrow> snapshot_expectation \<Rightarrow> (string \<times> meta_value) list
     \<Rightarrow> chain_row list \<Rightarrow> exn + db" where
  "stageAndValidate open_db data ex preservedMeta preservedRegs =
     (case assertEncrypted data of
        Inl e \<Rightarrow> Inl e
      | Inr _ \<Rightarrow>
          (case validateEncryptedFile open_db data ex of
             Inl e \<Rightarrow> Inl e
           | Inr d \<Rightarrow>
               if preservedMeta = [] \<and> preservedRegs = [] then Inr d
               else case preserve_registrations preservedRegs (preserve_meta preservedMeta d) of
                   Inl e \<Rightarrow> Inl e
                 | Inr d' \<Rightarrow>
                     (case readMetadata d' of
                        Inl e \<Rightarrow> Inl e
                      | Inr m \<Rightarrow> (case validateMetadata m ex of Inl e \<Rightarrow> Inl e | Inr _ \<Rightarrow> Inr d'))))"

text \<open>
  \<open>replaceEncryptedSnapshot\<close>: the live database \<open>d\<close> is replaced by the staged one, reopened and checked
  again; when that fails the previous file is put back and reopened.
\<close>

definition replaceEncryptedSnapshot ::
    "(string \<Rightarrow> string) \<Rightarrow> string \<Rightarrow> (byte list \<Rightarrow> db option) \<Rightarrow> byte list \<Rightarrow> snapshot_expectation
     \<Rightarrow> (string \<times> meta_value) list \<Rightarrow> chain_row list \<Rightarrow> db \<Rightarrow> (exn + snapshot_metadata) \<times> db" where
  "replaceEncryptedSnapshot derive fresh open_db data ex preservedMeta preservedRegs d =
     (case stageAndValidate open_db data ex preservedMeta preservedRegs of
        Inl e \<Rightarrow> (Inl e, d)
      | Inr staged \<Rightarrow>
          (let d' = openAndMigrate derive fresh staged in
           case readMetadata d' of
             Inl e \<Rightarrow> (Inl e, openAndMigrate derive fresh d)
           | Inr m \<Rightarrow>
               (case validateMetadata m ex of
                  Inl e \<Rightarrow> (Inl e, openAndMigrate derive fresh d)
                | Inr m' \<Rightarrow> (Inr m', d'))))"

lemma preserve_meta_other [simp]:
  "host_record_chains (preserve_meta es d) = host_record_chains d"
  by (induction es d rule: preserve_meta.induct) (simp_all add: set_meta_def)

lemma meta_preserve_meta:
  "distinct (map fst es) \<Longrightarrow>
   meta (preserve_meta es d) k = (case map_of es k of None \<Rightarrow> meta d k | Some v \<Rightarrow> Some v)"
proof (induction es d rule: preserve_meta.induct)
  case (2 k' v es d)
  then have "map_of es k' = None" by (simp add: map_of_eq_None_iff)
  with 2 show ?case by (simp split: option.split)
qed simp

lemma preserve_registrations_frame:
  "preserve_registrations rs d = Inr d' \<Longrightarrow>
   meta d' = meta d \<and> (\<forall>k r. get_row cr_pk k (host_record_chains d) = Some r \<longrightarrow>
                          get_row cr_pk k (host_record_chains d') = Some r)"
proof (induction rs d rule: preserve_registrations.induct)
  case (2 r rs d)
  then show ?case
    by (auto simp: get_row_append split: option.splits if_splits)
qed simp

lemma preserve_registrations_stored:
  "preserve_registrations rs d = Inr d' \<Longrightarrow> r \<in> set rs \<Longrightarrow>
   \<exists>r'. get_row cr_pk (cr_pk r) (host_record_chains d') = Some r'
        \<and> cr_hash r' = cr_hash r \<and> cr_registration r' = cr_registration r"
proof (induction rs d rule: preserve_registrations.induct)
  case (2 q rs d)
  show ?case
  proof (cases "get_row cr_pk (cr_pk q) (host_record_chains d)")
    case None
    let ?d = "host_record_chains_update (\<lambda>t. t @ [q]) d"
    from 2(3) None have rest: "preserve_registrations rs ?d = Inr d'" by (simp split: if_splits)
    have "get_row cr_pk (cr_pk q) (host_record_chains ?d) = Some q" using None by (simp add: get_row_append)
    then have "get_row cr_pk (cr_pk q) (host_record_chains d') = Some q"
      using preserve_registrations_frame [OF rest] by blast
    then show ?thesis using 2(1) [OF None _ rest] 2(3,4) None by (auto split: if_splits)
  next
    case (Some old)
    with 2(3) have same: "cr_hash old = cr_hash q" "cr_registration old = cr_registration q"
      and rest: "preserve_registrations rs d = Inr d'" by (auto split: if_splits)
    have "get_row cr_pk (cr_pk q) (host_record_chains d') = Some old"
      using preserve_registrations_frame [OF rest] Some by blast
    then show ?thesis using 2(2) [OF Some _ rest] 2(4) same by auto
  qed
qed simp

lemma openAndMigrate_frame [simp]:
  "host_record_chains (openAndMigrate derive fresh d) = host_record_chains d"
  "op_log (openAndMigrate derive fresh d) = op_log d"
  "op_log (set_meta k v d) = op_log d"
  by (simp_all add: openAndMigrate_def migrateAuthorityMetadata_def rebuild_usage_def Let_def set_meta_def
      split: option.split)

lemma openAndMigrate_meta_keeps:
  "meta d k = Some v \<Longrightarrow> k \<noteq> ''server_key'' \<Longrightarrow> meta (openAndMigrate derive fresh d) k = Some v"
  by (cases "k = ''authority_public_key''"; cases "k = ''invite_hash_key''"; simp add: meta_openAndMigrate)

lemma validateMetadata_Inr:
  "validateMetadata m ex = Inr m' \<Longrightarrow> m' = m \<and> sm_server m = ex_server ex \<and> sm_authority m = ex_authority ex
     \<and> (\<forall>n. ex_min_epoch ex = Some n \<longrightarrow> n \<le> sm_epoch m) \<and> (\<forall>n. ex_min_seq ex = Some n \<longrightarrow> n \<le> sm_seq m)
     \<and> (\<forall>n. ex_exact_epoch ex = Some n \<longrightarrow> sm_epoch m = n) \<and> (\<forall>n. ex_exact_seq ex = Some n \<longrightarrow> sm_seq m = n)"
  by (auto simp: validateMetadata_def differs_def split: if_splits)

text \<open>
  A replica's database is replaced only by a snapshot of the same community that does not go back: on
  success the installed database reads as the expected server, authority, epoch and sequence, never below
  the local ones, with every preserved setting and every local registration record in it; on failure the
  live database is untouched, up to the migration that opening it repeats.
\<close>

theorem snapshot_replacement_safe:
  assumes "replaceEncryptedSnapshot derive fresh open_db data ex ms rs d = (res, d')"
  shows "(\<forall>m. res = Inr m \<longrightarrow>
            readMetadata d' = Inr m \<and> sm_server m = ex_server ex \<and> sm_authority m = ex_authority ex
          \<and> (\<forall>n. ex_min_epoch ex = Some n \<longrightarrow> n \<le> sm_epoch m)
          \<and> (\<forall>n. ex_min_seq ex = Some n \<longrightarrow> n \<le> sm_seq m)
          \<and> take 16 data \<noteq> sqlite_magic
          \<and> (distinct (map fst ms) \<longrightarrow>
               (\<forall>(k, v) \<in> set ms. k \<noteq> ''server_key'' \<longrightarrow> meta d' k = Some v))
          \<and> (\<forall>r \<in> set rs. \<exists>r'. get_row cr_pk (cr_pk r) (host_record_chains d') = Some r'
                \<and> cr_hash r' = cr_hash r \<and> cr_registration r' = cr_registration r))
       \<and> (\<forall>e. res = Inl e \<longrightarrow> d' = d \<or> d' = openAndMigrate derive fresh d)"
proof (cases "stageAndValidate open_db data ex ms rs")
  case (Inl e)
  with assms show ?thesis by (auto simp: replaceEncryptedSnapshot_def)
next
  case (Inr staged)
  then have magic: "take 16 data \<noteq> sqlite_magic"
    by (auto simp: stageAndValidate_def assertEncrypted_def split: if_splits)
  have kept: "(\<forall>r \<in> set rs. \<exists>r'. get_row cr_pk (cr_pk r) (host_record_chains staged) = Some r'
                \<and> cr_hash r' = cr_hash r \<and> cr_registration r' = cr_registration r)
      \<and> (distinct (map fst ms) \<longrightarrow> (\<forall>(k, v) \<in> set ms. meta staged k = Some v))"
  proof (cases "ms = [] \<and> rs = []")
    case False
    with Inr obtain d0 where "preserve_registrations rs (preserve_meta ms d0) = Inr staged"
      by (auto simp: stageAndValidate_def split: sum.splits)
    then show ?thesis
      using preserve_registrations_stored preserve_registrations_frame
      by (fastforce simp: meta_preserve_meta)
  qed auto
  show ?thesis
  proof (cases "readMetadata (openAndMigrate derive fresh staged)")
    case (Inr m)
    with kept magic assms \<open>stageAndValidate open_db data ex ms rs = Inr staged\<close> show ?thesis
      using validateMetadata_Inr [of m ex]
      by (cases "validateMetadata m ex") (auto simp: replaceEncryptedSnapshot_def openAndMigrate_meta_keeps)
  qed (use assms Inr in \<open>auto simp: replaceEncryptedSnapshot_def\<close>)
qed

definition snapshot_db :: db where
  "snapshot_db = empty_db\<lparr>meta := [''server_id'' \<mapsto> MText ''s'', ''authority_public_key'' \<mapsto> MText ''k'',
                                  ''epoch'' \<mapsto> MInt 4]\<rparr>"

definition snapshot_expected :: snapshot_expectation where
  "snapshot_expected = \<lparr>ex_server = ''s'', ex_authority = ''k'', ex_min_epoch = Some 3, ex_min_seq = Some 0,
                        ex_exact_epoch = Some 4, ex_exact_seq = Some 0\<rparr>"

theorem snapshot_replacement_safe_witness:
  "\<exists>d'. replaceEncryptedSnapshot (\<lambda>k. k) ''0'' (\<lambda>_. Some snapshot_db) (replicate 512 1) snapshot_expected
          [(''replica_primary_host_id'', MText ''p'')] [] empty_db
        = (Inr \<lparr>sm_server = ''s'', sm_authority = ''k'', sm_epoch = 4, sm_seq = 0\<rparr>, d')
      \<and> meta d' ''replica_primary_host_id'' = Some (MText ''p'')"
proof -
  let ?r = "replaceEncryptedSnapshot (\<lambda>k. k) ''0'' (\<lambda>_. Some snapshot_db) (replicate 512 1) snapshot_expected
          [(''replica_primary_host_id'', MText ''p'')] [] empty_db"
  have "take 16 (replicate 512 1) \<noteq> sqlite_magic"
    by (auto simp: sqlite_magic_def dest: arg_cong [of _ _ hd])
  then have "fst ?r = Inr \<lparr>sm_server = ''s'', sm_authority = ''k'', sm_epoch = 4, sm_seq = 0\<rparr>"
    by (simp add: replaceEncryptedSnapshot_def stageAndValidate_def assertEncrypted_def validateEncryptedFile_def
        readMetadata_def meta_text_def meta_number_def validateMetadata_def snapshot_db_def meta_openAndMigrate
        snapshot_expected_def differs_def is_safe_integer_def max_seq_def empty_db_def Let_def)
  moreover obtain res d' where r: "?r = (res, d')" by (cases ?r)
  ultimately show ?thesis using snapshot_replacement_safe [OF r] by auto
qed

end
