(* ===== verification/Views.thy ===== *)
theory Views
  imports Store
begin

text \<open>
  Configuration and the read-only views of the service (\<open>apps/janjanode/src/server.service.ts\<close>):
  \<open>updateConfig\<close>, the lists of host grants, candidates and eligible devices, and \<open>getState\<close>.
\<close>

section \<open>Configuration\<close>

definition updateConfig ::
    "string \<Rightarrow> (string \<times> json) list \<Rightarrow> host \<Rightarrow> ((string \<times> json) list) result \<times> host" where
  "updateConfig actorId patch s =
     (case require_permission (db s) actorId Manage_server of
        Inl e \<Rightarrow> (Inl e, s)
      | Inr _ \<Rightarrow>
          (let next = obj_spread (getConfig (db s)) patch;
               s1 = db_update (\<lambda>d. appendOp (OpUpdateConfig patch) (set_meta ''config'' (MJson (JObj next)) d)) s
           in (Inr next, emit StateChanged s1)))"

definition config_number :: "db \<Rightarrow> string \<Rightarrow> int \<Rightarrow> int option" where
  "config_number d k def = number_or (obj_get k (getConfig d)) def"

section \<open>Host grants and candidates as the owner sees them\<close>

datatype grant_status = Revoked | Expired | Accepted | Pending

record grant_view =
  gv_id :: string
  gv_subject :: string
  gv_subject_key :: string
  gv_host_key :: string
  gv_enroll_key :: string
  gv_host :: string
  gv_status :: grant_status
  gv_caps :: "host_capability list"
  gv_expires :: int
  gv_created :: int
  gv_accepted :: "int option"
  gv_revoked :: "int option"

record candidate_view =
  cv_id :: string
  cv_subject :: string
  cv_nick :: string
  cv_subject_key :: string
  cv_host_key :: string
  cv_enroll_key :: string
  cv_host :: string
  cv_status :: grant_status
  cv_created :: int
  cv_expires :: int

text \<open>\<open>ORDER BY created_at DESC\<close>\<close>

definition newest_first :: "('r \<Rightarrow> int) \<Rightarrow> 'r list \<Rightarrow> 'r list" where
  "newest_first created rs = sort_key (\<lambda>r. - created r) rs"

text \<open>\<open>(? IS NULL OR subject = ?)\<close>\<close>

definition subject_matches :: "string option \<Rightarrow> string \<Rightarrow> bool" where
  "subject_matches wanted x = (case wanted of None \<Rightarrow> True | Some y \<Rightarrow> x = y)"

definition hostGrantRows :: "db \<Rightarrow> string option \<Rightarrow> host_grant list" where
  "hostGrantRows d wanted = newest_first hg_created (filter (\<lambda>g. subject_matches wanted (hg_subject g)) (host_grants d))"

definition publicHostGrant :: "int \<Rightarrow> host_grant \<Rightarrow> grant_view" where
  "publicHostGrant t g =
     \<lparr>gv_id = hg_id g, gv_subject = hg_subject g, gv_subject_key = hg_subject_key g,
      gv_host_key = hg_device_key g, gv_enroll_key = hg_enroll_key g, gv_host = hg_host g,
      gv_status = (if truthy_num (hg_revoked g) then Revoked
                   else if hg_expires g \<le> t then Expired
                   else if truthy_num (hg_accepted g) then Accepted else Pending),
      gv_caps = hg_caps g, gv_expires = hg_expires g, gv_created = hg_created g,
      gv_accepted = hg_accepted g, gv_revoked = hg_revoked g\<rparr>"

definition candidate_accepted :: "db \<Rightarrow> int \<Rightarrow> host_candidate \<Rightarrow> bool" where
  "candidate_accepted d t c =
     list_ex (\<lambda>g. hg_subject g = hc_subject c \<and> hg_host g = hc_host c \<and> hg_device_key g = hc_host_key c
                \<and> hg_enroll_key g = hc_enroll_key c \<and> hg_accepted g \<noteq> None \<and> hg_revoked g = None
                \<and> hg_expires g > t) (host_grants d)"

definition candidate_view_of :: "db \<Rightarrow> int \<Rightarrow> host_candidate \<Rightarrow> string \<Rightarrow> candidate_view" where
  "candidate_view_of d t c nick =
     \<lparr>cv_id = hc_id c, cv_subject = hc_subject c, cv_nick = nick,
      cv_subject_key = hc_subject_key c, cv_host_key = hc_host_key c, cv_enroll_key = hc_enroll_key c,
      cv_host = hc_host c,
      cv_status = (if truthy_num (hc_revoked c) then Revoked
                   else if hc_expires c \<le> t then Expired
                   else if candidate_accepted d t c then Accepted else Pending),
      cv_created = hc_created c, cv_expires = hc_expires c\<rparr>"

text \<open>The join with \<open>members\<close> and the subject's device that is not revoked.\<close>

definition hostCandidateRows :: "db \<Rightarrow> int \<Rightarrow> string option \<Rightarrow> candidate_view list" where
  "hostCandidateRows d t wanted =
     map (\<lambda>(c, nick). candidate_view_of d t c nick)
       (newest_first (\<lambda>(c, nick). hc_created c)
         [(c, m_nick m). c \<leftarrow> host_candidates d, subject_matches wanted (hc_subject c),
                         m \<leftarrow> members d, m_id m = hc_subject c,
                         v \<leftarrow> devices d, d_identity v = hc_subject c \<and> d_key v = hc_subject_key c \<and> d_revoked v = None])"

definition eligibleHostDevices :: "db \<Rightarrow> string option \<Rightarrow> (string \<times> string \<times> string \<times> int) list" where
  "eligibleHostDevices d wanted =
     newest_first (\<lambda>(_, _, _, added). added)
       [(d_identity v, m_nick m, d_key v, d_added v).
          v \<leftarrow> devices d, d_revoked v = None \<and> subject_matches wanted (d_identity v),
          m \<leftarrow> members d, m_id m = d_identity v]"

section \<open>The state a member sees\<close>

record server_view =
  sv_server :: string
  sv_name :: string
  sv_authority :: string
  sv_fingerprint :: string
  sv_epoch :: int
  sv_writer :: bool
  sv_config :: "(string \<times> json) list"
  sv_roles :: "role list"
  sv_channels :: "channel list"
  sv_members :: "(string \<times> string \<times> string \<times> string) list"
  sv_me :: "string \<times> string \<times> string"
  sv_grants :: "grant_view list"
  sv_candidates :: "candidate_view list"
  sv_devices :: "((string \<times> string \<times> string \<times> int) list) option"

definition getState :: "world \<Rightarrow> string \<Rightarrow> host \<Rightarrow> server_view result" where
  "getState w identityId s =
     (let d = db s in
      case get_member d identityId of
        None \<Rightarrow> Inl (Fail Forbidden)
      | Some m \<Rightarrow>
          (case member_permits d m None Manage_hosts of
             Inl e \<Rightarrow> Inl (Throws e)
           | Inr mayManageHosts \<Rightarrow>
               (case authorityPublicKey d of
                  Inl e \<Rightarrow> Inl (Throws e)
                | Inr authority \<Rightarrow>
                    (let wanted = (if mayManageHosts then None else Some identityId) in
                     Inr \<lparr>sv_server = server_id w, sv_name = server_name w, sv_authority = authority,
                          sv_fingerprint = fingerprint w authority, sv_epoch = getEpoch d,
                          sv_writer = writer s, sv_config = getConfig d, sv_roles = roles d,
                          sv_channels = channels d,
                          sv_members = map (\<lambda>x. (m_id x, m_nick x, m_role x, m_presence x)) (members d),
                          sv_me = (identityId, m_nick m, m_role m),
                          sv_grants = map (publicHostGrant (now w)) (hostGrantRows d wanted),
                          sv_candidates = hostCandidateRows d (now w) wanted,
                          sv_devices = (if mayManageHosts then Some (eligibleHostDevices d None) else None)\<rparr>))))"

lemma hostCandidateRows_origin:
  assumes "v \<in> set (hostCandidateRows d t wanted)"
  shows "\<exists>c \<in> set (host_candidates d). cv_id v = hc_id c \<and> cv_subject v = hc_subject c
     \<and> cv_subject_key v = hc_subject_key c \<and> cv_host_key v = hc_host_key c \<and> cv_host v = hc_host c
     \<and> cv_enroll_key v = hc_enroll_key c
     \<and> (cv_status v \<notin> {Revoked, Expired} \<longrightarrow> \<not> truthy_num (hc_revoked c) \<and> t < hc_expires c)
     \<and> subject_matches wanted (hc_subject c) \<and> isAuthorizedDevice d (hc_subject c) (hc_subject_key c)
     \<and> has_row m_id (hc_subject c) (members d)"
proof -
  from assms obtain c m e where c: "c \<in> set (host_candidates d)" "subject_matches wanted (hc_subject c)"
    and m: "m \<in> set (members d)" "m_id m = hc_subject c"
    and e: "e \<in> set (devices d)" "d_identity e = hc_subject c" "d_key e = hc_subject_key c" "d_revoked e = None"
    and v: "v = candidate_view_of d t c (m_nick m)"
    unfolding hostCandidateRows_def newest_first_def by (clarsimp split: if_splits) blast
  have "isAuthorizedDevice d (hc_subject c) (hc_subject_key c)"
    using e by (auto simp: isAuthorizedDevice_def list_ex_iff)
  moreover have "has_row m_id (hc_subject c) (members d)"
    using m by (metis has_row_def image_eqI)
  ultimately show ?thesis by (intro bexI [OF _ c(1)]) (simp add: v c(2) candidate_view_of_def)
qed

lemma hostGrantRows_origin: "g \<in> set (hostGrantRows d wanted) \<longleftrightarrow> g \<in> set (host_grants d) \<and> subject_matches wanted (hg_subject g)"
  by (auto simp: hostGrantRows_def newest_first_def)

text \<open>
  What a member sees of the community's hosts: without \<open>manage_hosts\<close> the state holds the member's own
  grants and candidates only and no list of other members' devices; and a candidate is listed only while
  its subject is a member with that device linked.
\<close>

theorem state_view_private:
  assumes "getState w x s = Inr v"
  shows "\<exists>m. get_member (db s) x = Some m \<and>
      (member_permits (db s) m None Manage_hosts = Inr False \<longrightarrow>
         (\<forall>g \<in> set (sv_grants v). gv_subject g = x) \<and>
         (\<forall>c \<in> set (sv_candidates v). cv_subject c = x) \<and> sv_devices v = None)
    \<and> (\<forall>c \<in> set (sv_candidates v). isAuthorizedDevice (db s) (cv_subject c) (cv_subject_key c)
                                    \<and> has_row m_id (cv_subject c) (members (db s)))"
proof -
  from assms obtain m where m: "get_member (db s) x = Some m"
    by (auto simp: getState_def Let_def split: option.splits)
  from assms m obtain p where p: "member_permits (db s) m None Manage_hosts = Inr p"
    and v: "sv_grants v = map (publicHostGrant (now w)) (hostGrantRows (db s) (if p then None else Some x))"
      "sv_candidates v = hostCandidateRows (db s) (now w) (if p then None else Some x)"
      "\<not> p \<Longrightarrow> sv_devices v = None"
    by (auto simp: getState_def Let_def split: sum.splits)
  show ?thesis
    using m p v hostCandidateRows_origin [of _ "db s" "now w"]
    by (fastforce simp: hostGrantRows_origin publicHostGrant_def subject_matches_def)
qed

definition lone_member :: member where
  "lone_member = \<lparr>m_id = ''ann'', m_nick = ''Ann'', m_role = ''role-member'', m_joined = 0, m_presence = ''offline''\<rparr>"

definition view_host :: host where
  "view_host = \<lparr>db = empty_db\<lparr>meta := [''authority_public_key'' \<mapsto> MText ''k''],
                    members := [lone_member],
                    roles := [\<lparr>role_id = ''role-member'', role_name = ''Member'', role_level = 10, role_perms = PermText (json_flags [])\<rparr>]\<rparr>,
                events = [], replay = [], sequences = Map.empty, calls = [], writer = True,
                pendingRegistration = None, writerResumeEligibility = None\<rparr>"

theorem state_view_private_witness:
  "\<forall>w. \<exists>v. getState w ''ann'' view_host = Inr v \<and> sv_devices v = None"
proof
  fix w
  have p: "member_permits (db view_host) lone_member None Manage_hosts = Inr False"
    "get_member (db view_host) ''ann'' = Some lone_member"
    by (simp_all add: member_permits_def get_role_def get_member_def get_row_def view_host_def lone_member_def
        memberContext_def evaluatePermission_def override_for_def)
  moreover have "authorityPublicKey (db view_host) = Inr ''k''"
    by (simp add: authorityPublicKey_def view_host_def)
  ultimately have "is_ok (getState w ''ann'' view_host)" by (simp add: getState_def Let_def)
  then obtain v where v: "getState w ''ann'' view_host = Inr v" by (auto simp: is_ok_iff)
  from state_view_private [OF v] p v
  show "\<exists>v. getState w ''ann'' view_host = Inr v \<and> sv_devices v = None" by auto
qed

text \<open>
  Changing the settings needs \<open>manage_server\<close>, and it merges: a setting named in the patch gets the
  patch's value, every other setting keeps its own, and nothing else in the database changes but the log.
\<close>

theorem config_update_merges:
  assumes "updateConfig actorId patch s = (res, s')" and "distinct (map fst patch)"
  shows "(\<forall>cfg. res = Inr cfg \<longrightarrow>
            (\<exists>m. get_member (db s) actorId = Some m \<and> member_permits (db s) m None Manage_server = Inr True)
          \<and> (\<forall>k. obj_get k (getConfig (db s')) =
                  (case obj_get k patch of None \<Rightarrow> obj_get k (getConfig (db s)) | Some v \<Rightarrow> Some v))
          \<and> (\<forall>k. k \<noteq> ''config'' \<longrightarrow> meta (db s') k = meta (db s) k)
          \<and> members (db s') = members (db s) \<and> roles (db s') = roles (db s))
       \<and> (\<forall>e. res = Inl e \<longrightarrow> s' = s)"
  using assms obj_get_spread [OF assms(2), of _ "getConfig (db s)"]
  by (auto simp: updateConfig_def require_permission_def Let_def op_defs getConfig_def
      split: sum.splits option.splits bool.splits)

theorem config_update_merges_witness:
  "fst (updateConfig ''ann'' [(''maxRetentionHours'', JNum 24)] view_host) = Inl (Fail Forbidden)
   \<and> snd (updateConfig ''ann'' [(''maxRetentionHours'', JNum 24)] view_host) = view_host"
proof -
  have "fst (updateConfig ''ann'' [(''maxRetentionHours'', JNum 24)] view_host) = Inl (Fail Forbidden)"
    by (simp add: updateConfig_def require_permission_def member_permits_def get_role_def get_member_def
        get_row_def view_host_def lone_member_def memberContext_def evaluatePermission_def override_for_def)
  with config_update_merges [of "''ann''" "[(''maxRetentionHours'', JNum 24)]" view_host] show ?thesis
    by (cases "updateConfig ''ann'' [(''maxRetentionHours'', JNum 24)] view_host") simp
qed

end
