(* ===== verification/Membership.thy ===== *)
theory Membership
  imports Views
begin

text \<open>
  Members, their devices, roles and bans (\<open>apps/janjanode/src/server.service.ts\<close>): the first boot of a
  community, joining, leaving, transferring ownership, linking devices, creating and assigning roles,
  kicking and banning; with the invariant every one of these handlers keeps.
\<close>

section \<open>Boot\<close>

definition default_config :: "(string \<times> json) list" where
  "default_config =
     [(''maxRetentionHours'', JNum 168), (''networkPrivacy'', JStr ''direct''),
      (''maxAttachmentBytes'', JNum (50 * 1024 * 1024)),
      (''maxSpoolBytes'', JNum (2 * 1024 * 1024 * 1024)),
      (''maxVoiceParticipants'', JNum 10), (''maxVideoParticipants'', JNum 6)]"

definition default_roles :: "role list" where
  "default_roles =
     [\<lparr>role_id = ''role-owner'', role_name = ''Owner'', role_level = level_owner,
        role_perms = PermText (json_flags PERMISSIONS)\<rparr>,
      \<lparr>role_id = ''role-admin'', role_name = ''Admin'', role_level = level_admin,
        role_perms = PermText (json_flags PERMISSIONS)\<rparr>,
      \<lparr>role_id = ''role-mod'', role_name = ''Moderator'', role_level = level_moderator,
        role_perms = PermText (json_flags
          [Kick_members, View_channel, Send_messages, Send_files, Join_call, Speak, Enable_camera,
           Mute_members, Remove_from_call])\<rparr>,
      \<lparr>role_id = ''role-member'', role_name = ''Member'', role_level = level_member,
        role_perms = PermText (json_flags
          [View_channel, Send_messages, Send_files, Join_call, Speak, Enable_camera])\<rparr>]"

text \<open>
  The transaction that creates a community in a database without roles. \<open>general\<close> is the id of the
  first channel. The rest of \<open>bootstrap\<close> repairs the owner's permissions and links the owner's
  configured device; restoring the writer state is part of the theory on hosts.
\<close>

definition create_community :: "world \<Rightarrow> string \<Rightarrow> db \<Rightarrow> exn + db" where
  "create_community w general d =
     (if meta d ''server_name'' \<noteq> None \<or> meta d ''config'' \<noteq> None
        \<or> has_row m_id (owner_identity w) (members d) \<or> has_row ch_id general (channels d)
      then Inl ConstraintError
      else Inr (appendOp (OpBootstrap (server_id w))
        (d\<lparr>meta := (meta d)(''server_name'' \<mapsto> MText (server_name w),
                          ''config'' \<mapsto> MJson (JObj default_config)),
          roles := default_roles,
          members := members d @ [\<lparr>m_id = owner_identity w, m_nick = owner_nickname w, m_role = ''role-owner'',
                                    m_joined = now w, m_presence = ''offline''\<rparr>],
          channels := channels d @ [\<lparr>ch_id = general, ch_type = TextChannel, ch_name = ''general'',
                                      ch_overrides = [], ch_created = now w\<rparr>]\<rparr>)))"

definition repair_owner :: "world \<Rightarrow> db \<Rightarrow> db" where
  "repair_owner w d =
     (let d1 = roles_update (upd_rows (\<lambda>r. role_id r = ''role-owner'')
                 (\<lambda>r. r\<lparr>role_perms := PermText (json_flags PERMISSIONS)\<rparr>)) d
      in case owner_public_key w of
           None \<Rightarrow> d1
         | Some k \<Rightarrow>
             if k = [] \<or> has_row d_pk (owner_identity w, k) (devices d1) then d1
             else devices_update (\<lambda>t. t @ [\<lparr>d_identity = owner_identity w, d_key = k, d_added = now w,
                                              d_revoked = None\<rparr>]) d1)"

text \<open>\<open>authoritySeed()\<close>: unset and empty are \<open>null\<close>, anything but 64 hex digits raises.\<close>

definition read_seed :: "seed_setting \<Rightarrow> exn + string option" where
  "read_seed v = (case v of NoSeed \<Rightarrow> Inr None | MalformedSeed \<Rightarrow> Inl (AppError ''seed'') | Seed k \<Rightarrow> Inr (Some k))"

definition bootstrap_community :: "world \<Rightarrow> string \<Rightarrow> host \<Rightarrow> (exn + unit) \<times> host" where
  "bootstrap_community w general s =
     (if roles (db s) \<noteq> [] then (Inr (), db_update (repair_owner w) s)
      else case read_seed (authority_seed w) of
          Inl e \<Rightarrow> (Inl e, s)
        | Inr None \<Rightarrow> (Inl (AppError ''JC_AUTHORITY_SIGNING_SEED is required''), s)
        | Inr (Some _) \<Rightarrow>
            (case create_community w general (db s) of
               Inl e \<Rightarrow> (Inl e, s)
             | Inr d \<Rightarrow> (Inr (), emit StateChanged (s\<lparr>db := repair_owner w d\<rparr>))))"

section \<open>Joining and leaving\<close>

text \<open>\<open>inviteHashKey()\<close>\<close>

definition inviteHashKey :: "db \<Rightarrow> exn + string" where
  "inviteHashKey d =
     (case meta d ''invite_hash_key'' of
        Some (MText k) \<Rightarrow> if hex64 k then Inr k else Inl (AppError ''invite_hash_key is not provisioned'')
      | _ \<Rightarrow> Inl (AppError ''invite_hash_key is not provisioned''))"

text \<open>The secret of an invite addressed to this server and signed by its authority.\<close>

definition invite_secret :: "world \<Rightarrow> db \<Rightarrow> string \<Rightarrow> string result" where
  "invite_secret w d secret =
     (case parse_invite w secret of
        None \<Rightarrow> Inl (Fail Invalid_invite)
      | Some (LegacyInvite server s) \<Rightarrow>
          if server \<noteq> server_id w then Inl (Fail Invalid_invite) else Inr s
      | Some (SignedInvite server key s) \<Rightarrow>
          if server \<noteq> server_id w then Inl (Fail Invalid_invite)
          else case authorityPublicKey d of
              Inl e \<Rightarrow> Inl (Throws e)
            | Inr k \<Rightarrow> if key \<noteq> k then Inl (Fail Invalid_invite) else Inr s)"

text \<open>Which of the invite's conditions fails first.\<close>

definition invite_rejection :: "int \<Rightarrow> invite \<Rightarrow> error_code option" where
  "invite_rejection t i =
     (if i_revoked i then Some Invite_revoked
      else if truthy_num (i_expires i) \<and> the (i_expires i) < t then Some Invite_expired
      else if i_used i \<ge> i_max i then Some Invite_exhausted
      else None)"

definition redeem_invite :: "world \<Rightarrow> string \<Rightarrow> string \<Rightarrow> invite \<Rightarrow> string \<Rightarrow> db \<Rightarrow> db option" where
  "redeem_invite w identityId nickname iv devicePublicKey d =
     (if has_row m_id identityId (members d) \<or> has_row d_pk (identityId, devicePublicKey) (devices d) then None
      else Some (appendOp (OpJoin identityId (i_id iv))
        (d\<lparr>invites := upd_rows (\<lambda>i. i_id i = i_id iv) (\<lambda>i. i\<lparr>i_used := i_used i + 1\<rparr>) (invites d),
          members := members d @ [\<lparr>m_id = identityId, m_nick = nickname, m_role = i_role iv,
                                    m_joined = now w, m_presence = ''offline''\<rparr>],
          devices := devices d @ [\<lparr>d_identity = identityId, d_key = devicePublicKey, d_added = now w,
                                    d_revoked = None\<rparr>]\<rparr>)))"

definition joinByInvite ::
    "world \<Rightarrow> string \<Rightarrow> string \<Rightarrow> string \<Rightarrow> string \<Rightarrow> host \<Rightarrow> server_view result \<times> host" where
  "joinByInvite w identityId nickname secret devicePublicKey s =
     (let d = db s in
      if get_member d identityId \<noteq> None then (Inl (Fail Conflict), s)
      else if isBanned d identityId then (Inl (Fail Banned), s)
      else case invite_secret w d secret of
          Inl e \<Rightarrow> (Inl e, s)
        | Inr secretBytes \<Rightarrow>
            (case inviteHashKey d of
               Inl e \<Rightarrow> (Inl (Throws e), s)
             | Inr hashKey \<Rightarrow>
                 (case get_row i_secret_hash (sha256Hex w (hmac_sha256 w hashKey secretBytes)) (invites d) of
                    None \<Rightarrow> (Inl (Fail Invalid_invite), s)
                  | Some iv \<Rightarrow>
                      (case invite_rejection (now w) iv of
                         Some e \<Rightarrow> (Inl (Fail e), s)
                       | None \<Rightarrow>
                           (case redeem_invite w identityId nickname iv devicePublicKey d of
                              None \<Rightarrow> (Inl (Throws ConstraintError), s)
                            | Some d' \<Rightarrow>
                                (let s1 = emit StateChanged (emit (InviteUsed (i_id iv)) (s\<lparr>db := d'\<rparr>))
                                 in (getState w identityId s1, s1)))))))"

definition leave :: "string \<Rightarrow> host \<Rightarrow> unit result \<times> host" where
  "leave identityId s =
     (case get_member (db s) identityId of
        None \<Rightarrow> (Inl (Fail Not_found), s)
      | Some m \<Rightarrow>
          if m_role m = ''role-owner'' then (Inl (Fail Forbidden), s)
          else (Inr (), emit StateChanged (emit (MemberRemoved identityId ''left'')
                 (db_update (\<lambda>d. appendOp (OpLeave identityId)
                                   (members_update (del_rows (\<lambda>x. m_id x = identityId)) d)) s))))"

definition set_role :: "string \<Rightarrow> string \<Rightarrow> db \<Rightarrow> db" where
  "set_role identityId role d = members_update (upd_rows (\<lambda>x. m_id x = identityId) (\<lambda>x. x\<lparr>m_role := role\<rparr>)) d"

definition transferOwnership :: "string \<Rightarrow> string \<Rightarrow> host \<Rightarrow> unit result \<times> host" where
  "transferOwnership actorId newOwnerId s =
     (case get_member (db s) actorId of
        None \<Rightarrow> (Inl (Fail Forbidden), s)
      | Some a \<Rightarrow>
          if m_role a \<noteq> ''role-owner'' then (Inl (Fail Forbidden), s)
          else if get_member (db s) newOwnerId = None then (Inl (Fail Not_found), s)
          else (Inr (), emit StateChanged (db_update (\<lambda>d. appendOp (OpTransferOwnership actorId newOwnerId)
                          (set_role newOwnerId ''role-owner'' (set_role actorId ''role-member'' d))) s)))"

section \<open>Linking devices\<close>

text \<open>\<open>/^JDL1-[A-Za-z0-9_-]{43}$/\<close>\<close>

definition base64url_char :: "char \<Rightarrow> bool" where
  "base64url_char c \<longleftrightarrow> c \<in> set ''ABCDEFGHIJKLMNOPQRSTUVWXYZabcdefghijklmnopqrstuvwxyz0123456789-_''"

definition link_capability_text :: "string \<Rightarrow> bool" where
  "link_capability_text s \<longleftrightarrow> length s = 48 \<and> take 5 s = ''JDL1-'' \<and> list_all base64url_char (drop 5 s)"

text \<open>\<open>capability\<close> is \<open>JDL1-\<close> and 32 fresh random bytes.\<close>

definition authorizeDeviceLink ::
    "world \<Rightarrow> string \<Rightarrow> string \<Rightarrow> string \<Rightarrow> string \<Rightarrow> int option \<Rightarrow> host \<Rightarrow> (string \<times> int) result \<times> host" where
  "authorizeDeviceLink w capability identityId authorizing newDevice expiresInMs s =
     (let d = db s in
      if get_member d identityId = None then (Inl (Fail Forbidden), s)
      else if \<not> isAuthorizedDevice d identityId authorizing then (Inl (Fail Unauthorized), s)
      else if isAuthorizedDevice d identityId newDevice then (Inl (Fail Conflict), s)
      else
        let ttl = max 30000 (min 600000 (case expiresInMs of None \<Rightarrow> 300000 | Some n \<Rightarrow> n));
            expiresAt = now w + ttl;
            live = del_rows (\<lambda>c. cap_expires c \<le> now w \<or> cap_consumed c \<noteq> None) (capabilities d);
            active = filter (\<lambda>c. cap_identity c = identityId \<and> cap_expires c > now w \<and> cap_consumed c = None) live;
            row = \<lparr>cap_token = sha256Hex w capability, cap_identity = identityId, cap_key = newDevice,
                   cap_issued = now w, cap_expires = expiresAt, cap_consumed = None\<rparr>
        in if length active \<ge> 8 then (Inl (Fail Rate_limited), s)
           else case ins_row cap_token row live of
               None \<Rightarrow> (Inl (Fail Rate_limited), s)
             | Some t \<Rightarrow> (Inr (capability, expiresAt), db_update (capabilities_update (\<lambda>_. t)) s))"

definition capability_matches :: "int \<Rightarrow> string \<Rightarrow> string \<Rightarrow> string \<Rightarrow> capability \<Rightarrow> bool" where
  "capability_matches t token identityId key c \<longleftrightarrow>
     cap_token c = token \<and> cap_identity c = identityId \<and> cap_key c = key \<and> cap_consumed c = None \<and> cap_expires c > t"

definition enrollDevice :: "world \<Rightarrow> string \<Rightarrow> string \<Rightarrow> string \<Rightarrow> host \<Rightarrow> unit result \<times> host" where
  "enrollDevice w identityId devicePublicKey capability s =
     (let d = db s;
          P = capability_matches (now w) (sha256Hex w capability) identityId devicePublicKey in
      if get_member d identityId = None then (Inl (Fail Forbidden), s)
      else if \<not> link_capability_text capability then (Inl (Fail Unauthorized), s)
      else if length (filter P (capabilities d)) \<noteq> 1 then (Inl (Fail Unauthorized), s)
      else case ins_row d_pk \<lparr>d_identity = identityId, d_key = devicePublicKey, d_added = now w, d_revoked = None\<rparr>
                  (devices d) of
          None \<Rightarrow> (Inl (Fail Unauthorized), s)
        | Some t \<Rightarrow>
            (Inr (), emit StateChanged (db_update (\<lambda>d. appendOp (OpDeviceEnroll identityId devicePublicKey)
               (d\<lparr>capabilities := upd_rows P (\<lambda>c. c\<lparr>cap_consumed := Some (now w)\<rparr>) (capabilities d),
                 devices := t\<rparr>)) s)))"

section \<open>Roles\<close>

definition roleCreate ::
    "world \<Rightarrow> string \<Rightarrow> string \<Rightarrow> string \<Rightarrow> int \<Rightarrow> permission list \<Rightarrow> host \<Rightarrow> role result \<times> host" where
  "roleCreate w newId actorId name level perms s =
     (case require_permission (db s) actorId Manage_roles of
        Inl e \<Rightarrow> (Inl e, s)
      | Inr actor \<Rightarrow>
          (let d = db s;
               isOwner = (m_role actor = ''role-owner'');
               requested = filter (\<lambda>p. p \<in> set perms) PERMISSIONS;
               actorRole = get_role d (m_role actor)
           in if \<not> isOwner \<and> (case actorRole of None \<Rightarrow> False | Some r \<Rightarrow> level \<ge> role_level r)
              then (Inl (Fail Forbidden), s)
              else if \<not> isOwner \<and> (case actorRole of None \<Rightarrow> False
                                     | Some r \<Rightarrow> list_ex (\<lambda>p. \<not> perms_includes (role_perms r) p) requested)
              then (Inl (Fail Forbidden), s)
              else if \<not> isOwner \<and> Manage_hosts \<in> set requested then (Inl (Fail Forbidden), s)
              else
                let row = \<lparr>role_id = newId, role_name = name, role_level = level,
                           role_perms = PermText (json_flags requested)\<rparr>
                in case ins_row role_id row (roles d) of
                     None \<Rightarrow> (Inl (Throws ConstraintError), s)
                   | Some t \<Rightarrow>
                       (Inr (row\<lparr>role_perms := PermArray requested\<rparr>),
                        emit StateChanged (db_update (\<lambda>d. appendOp (OpRoleCreate newId) (d\<lparr>roles := t\<rparr>)) s))))"

text \<open>
  \<open>canModify({ ...memberContext(actor), role: actorRole }, targetRole, p)\<close> with the roles as the table
  has them; a missing role raises where one of its fields is read.
\<close>

definition may_modify :: "db \<Rightarrow> member \<Rightarrow> member \<Rightarrow> permission \<Rightarrow> exn + bool" where
  "may_modify d actor target p =
     (case (get_role d (m_role actor), get_role d (m_role target)) of
        (Some ar, Some tr) \<Rightarrow> Inr (canModify (memberContext actor) ar tr p)
      | (Some ar, None) \<Rightarrow>
          if evaluatePermission (memberContext actor) ar None p then Inl TypeError else Inr False
      | (None, Some tr) \<Rightarrow>
          if mc_is_owner (memberContext actor) then Inr (role_level tr < 100) else Inl TypeError
      | (None, None) \<Rightarrow> Inl TypeError)"

definition roleAssign :: "string \<Rightarrow> string \<Rightarrow> string \<Rightarrow> host \<Rightarrow> unit result \<times> host" where
  "roleAssign actorId memberIdentityId roleId s =
     (let d = db s in
      case (get_member d actorId, get_member d memberIdentityId) of
        (Some actor, Some target) \<Rightarrow>
          (case may_modify d actor target Assign_roles of
             Inl e \<Rightarrow> (Inl (Throws e), s)
           | Inr False \<Rightarrow> (Inl (Fail Forbidden), s)
           | Inr True \<Rightarrow>
               (case get_role d roleId of
                  None \<Rightarrow> (Inl (Fail Not_found), s)
                | Some newRole \<Rightarrow>
                    (let isOwner = (m_role actor = ''role-owner'');
                         actorRole = the (get_role d (m_role actor));
                         assigned = emit StateChanged (db_update (\<lambda>d. appendOp (OpRoleAssign memberIdentityId roleId)
                                       (set_role memberIdentityId roleId d)) s)
                     in if isOwner then (Inr (), assigned)
                        else if role_level newRole \<ge> role_level actorRole then (Inl (Fail Forbidden), s)
                        else case perms_some (role_perms newRole) (\<lambda>p. \<not> perms_includes (role_perms actorRole) p) of
                            Inl e \<Rightarrow> (Inl (Throws e), s)
                          | Inr True \<Rightarrow> (Inl (Fail Forbidden), s)
                          | Inr False \<Rightarrow> (Inr (), assigned))))
      | _ \<Rightarrow> (Inl (Fail Not_found), s))"

section \<open>Kicking and banning\<close>

definition kick :: "string \<Rightarrow> string \<Rightarrow> host \<Rightarrow> unit result \<times> host" where
  "kick actorId targetId s =
     (let d = db s in
      case (get_member d actorId, get_member d targetId) of
        (Some actor, Some target) \<Rightarrow>
          (case may_modify d actor target Kick_members of
             Inl e \<Rightarrow> (Inl (Throws e), s)
           | Inr False \<Rightarrow> (Inl (Fail Forbidden), s)
           | Inr True \<Rightarrow>
               (Inr (), emit StateChanged (emit (MemberRemoved targetId ''kick'')
                  (db_update (\<lambda>d. appendOp (OpKick targetId)
                     (members_update (del_rows (\<lambda>x. m_id x = targetId)) d)) s))))
      | _ \<Rightarrow> (Inl (Fail Not_found), s))"

definition ban :: "world \<Rightarrow> string \<Rightarrow> string \<Rightarrow> host \<Rightarrow> unit result \<times> host" where
  "ban w actorId targetId s =
     (let d = db s in
      case (get_member d actorId, get_member d targetId) of
        (Some actor, Some target) \<Rightarrow>
          (case may_modify d actor target Ban_members of
             Inl e \<Rightarrow> (Inl (Throws e), s)
           | Inr False \<Rightarrow> (Inl (Fail Forbidden), s)
           | Inr True \<Rightarrow>
               (case ins_row b_id \<lparr>b_id = targetId, b_at = now w\<rparr> (bans d) of
                  None \<Rightarrow> (Inl (Throws ConstraintError), s)
                | Some t \<Rightarrow>
                    (Inr (), emit StateChanged (emit (MemberRemoved targetId ''ban'')
                       (db_update (\<lambda>d. appendOp (OpBan targetId)
                          (d\<lparr>members := del_rows (\<lambda>x. m_id x = targetId) (members d), bans := t\<rparr>)) s)))))
      | _ \<Rightarrow> (Inl (Fail Not_found), s))"

section \<open>The invariant\<close>

text \<open>
  What the handlers keep: primary keys are unique; every member and every invite names a role that
  exists; nobody is a member and banned at once; \<open>role-owner\<close> is the one role of level 100, and at least
  one member holds it; no invite is used more often than it allows.
\<close>

definition roles_ok :: "role list \<Rightarrow> bool" where
  "roles_ok rs \<longleftrightarrow>
     pk role_id rs \<and> (\<exists>r \<in> set rs. role_id r = ''role-owner'' \<and> role_level r = 100)
     \<and> (\<forall>r \<in> set rs. role_level r \<ge> 100 \<longrightarrow> role_id r = ''role-owner'')"

definition community_ok :: "db \<Rightarrow> bool" where
  "community_ok d \<longleftrightarrow>
     roles_ok (roles d) \<and>
     pk m_id (members d) \<and> pk d_pk (devices d) \<and> pk b_id (bans d) \<and> pk i_id (invites d) \<and> pk ch_id (channels d) \<and>
     (\<forall>m \<in> set (members d). has_row role_id (m_role m) (roles d) \<and> \<not> has_row b_id (m_id m) (bans d)) \<and>
     (\<exists>m \<in> set (members d). m_role m = ''role-owner'') \<and>
     (\<forall>i \<in> set (invites d). has_row role_id (i_role i) (roles d) \<and> 0 \<le> i_used i \<and> i_used i \<le> i_max i)"

text \<open>The parts of the database the invariant speaks about.\<close>

definition same_community :: "db \<Rightarrow> db \<Rightarrow> bool" where
  "same_community d d' \<longleftrightarrow>
     roles d' = roles d \<and> members d' = members d \<and> devices d' = devices d \<and> bans d' = bans d
     \<and> invites d' = invites d \<and> channels d' = channels d"

lemma community_ok_same: "same_community d d' \<Longrightarrow> community_ok d' = community_ok d"
  by (simp add: same_community_def community_ok_def)

lemma same_community_refl [simp]: "same_community d d"
  by (simp add: same_community_def)

lemma role_of_member:
  assumes "community_ok d" and "get_member d x = Some m"
  shows "\<exists>r. get_role d (m_role m) = Some r"
  using assms get_row_Some [of m_id x "members d" m]
  by (auto simp: community_ok_def get_member_def get_role_def has_row_iff)

lemma role_level_owner:
  assumes "community_ok d" and "get_role d x = Some r"
  shows "role_level r \<ge> 100 \<longleftrightarrow> x = ''role-owner''" and "x = ''role-owner'' \<Longrightarrow> role_level r = 100"
proof -
  have r: "r \<in> set (roles d)" "role_id r = x" using assms(2) get_row_Some by (fastforce simp: get_role_def)+
  obtain o1 where "o1 \<in> set (roles d)" "role_id o1 = ''role-owner''" "role_level o1 = 100"
    and uniq: "pk role_id (roles d)" using assms(1) by (auto simp: community_ok_def roles_ok_def)
  moreover have "x = ''role-owner'' \<Longrightarrow> r = o1"
    using r calculation get_row_pk [of role_id "roles d"] by (metis option.inject)
  ultimately show "role_level r \<ge> 100 \<longleftrightarrow> x = ''role-owner''" "x = ''role-owner'' \<Longrightarrow> role_level r = 100"
    using r assms(1) by (auto simp: community_ok_def roles_ok_def)
qed

text \<open>With the invariant, the roles of members are there: no \<open>TypeError\<close> arises from reading one.\<close>

lemma member_permits_ok:
  assumes "community_ok d" and "get_member d x = Some m"
  obtains r where "get_role d (m_role m) = Some r"
    and "\<And>ch p. member_permits d m ch p = Inr (evaluatePermission (memberContext m) r ch p)"
  using role_of_member [OF assms] by (auto simp: member_permits_def)

lemma require_permission_ok:
  "community_ok d \<Longrightarrow> require_permission d x p \<noteq> Inl (Throws e)"
  by (auto simp: require_permission_def split: option.split sum.split bool.splits elim: member_permits_ok)

lemma may_modify_target:
  assumes "community_ok d" and "get_member d a = Some actor" and "get_member d t = Some target"
  shows "may_modify d actor target p \<noteq> Inl e"
    and "may_modify d actor target p = Inr True \<Longrightarrow> m_role target \<noteq> ''role-owner''"
proof -
  obtain ar tr where r: "get_role d (m_role actor) = Some ar" "get_role d (m_role target) = Some tr"
    using role_of_member [OF assms(1)] assms(2,3) by blast
  then show "may_modify d actor target p \<noteq> Inl e" by (simp add: may_modify_def)
  assume "may_modify d actor target p = Inr True"
  then have "role_level tr < 100" using r canModify_target by (auto simp: may_modify_def)
  then show "m_role target \<noteq> ''role-owner''" using role_level_owner [OF assms(1) r(2)] by simp
qed

section \<open>The handlers keep the invariant\<close>

lemma community_ok_append [simp]: "community_ok (appendOp e d) = community_ok d"
  by (simp add: community_ok_def appendOp_def)

lemma db_emit [simp]: "db (emit e s) = db s"
  by (simp add: emit_def)

lemma community_ok_remove_member:
  assumes "community_ok d" and "\<And>m. get_member d x = Some m \<Longrightarrow> m_role m \<noteq> ''role-owner''"
  shows "community_ok (members_update (del_rows (\<lambda>y. m_id y = x)) d)"
proof -
  obtain o1 where o1: "o1 \<in> set (members d)" "m_role o1 = ''role-owner''" and p: "pk m_id (members d)"
    using assms(1) by (auto simp: community_ok_def)
  have "m_id o1 \<noteq> x" using assms(2) get_row_pk [OF p o1(1)] o1(2) by (auto simp: get_member_def)
  with o1 assms(1) show ?thesis by (auto simp: community_ok_def tbl pk_del)
qed

lemma community_ok_set_role:
  assumes "community_ok d" and "has_row role_id r (roles d)"
    and "r \<noteq> ''role-owner'' \<Longrightarrow> \<exists>m \<in> set (members d). m_id m \<noteq> x \<and> m_role m = ''role-owner''"
  shows "community_ok (set_role x r d)"
proof -
  let ?f = "\<lambda>y. if m_id y = x then y\<lparr>m_role := r\<rparr> else y"
  have set: "set (members (set_role x r d)) = ?f ` set (members d)"
    by (simp add: set_role_def set_upd)
  have pk: "pk m_id (members (set_role x r d)) = pk m_id (members d)"
    by (simp add: set_role_def pk_upd)
  have "\<exists>m \<in> set (members (set_role x r d)). m_role m = ''role-owner''"
  proof (cases "r = ''role-owner''")
    case True
    obtain m where "m \<in> set (members d)" "m_role m = ''role-owner''" using assms(1) by (auto simp: community_ok_def)
    with True show ?thesis unfolding set by (intro bexI [of _ "?f m"]) auto
  next
    case False
    then show ?thesis using assms(3) unfolding set by force
  qed
  moreover have "\<forall>m \<in> set (members (set_role x r d)). has_row role_id (m_role m) (roles d) \<and> \<not> has_row b_id (m_id m) (bans d)"
    using assms(1,2) unfolding set by (auto simp: community_ok_def)
  moreover have "roles (set_role x r d) = roles d" "devices (set_role x r d) = devices d" "bans (set_role x r d) = bans d"
    "invites (set_role x r d) = invites d" "channels (set_role x r d) = channels d"
    by (simp_all add: set_role_def)
  ultimately show ?thesis
    using assms(1) pk unfolding community_ok_def by simp
qed

lemma set_role_frame [simp]:
  "roles (set_role x r d) = roles d" "devices (set_role x r d) = devices d" "bans (set_role x r d) = bans d"
  "invites (set_role x r d) = invites d" "channels (set_role x r d) = channels d"
  by (simp_all add: set_role_def)

lemma default_roles_ok: "roles_ok default_roles"
  by (simp add: roles_ok_def default_roles_def pk_def level_owner_def level_admin_def level_moderator_def level_member_def)

lemma roles_ok_upd:
  assumes "roles_ok rs" and f: "\<And>r. role_id (f r) = role_id r" "\<And>r. role_level (f r) = role_level r"
  shows "roles_ok (upd_rows P f rs)"
proof -
  obtain r where "r \<in> set rs" "role_id r = ''role-owner''" "role_level r = 100"
    using assms(1) by (auto simp: roles_ok_def)
  then have "\<exists>r \<in> set (upd_rows P f rs). role_id r = ''role-owner'' \<and> role_level r = 100"
    unfolding set_upd using f by (intro bexI [of _ "if P r then f r else r"]) auto
  then show ?thesis using assms by (auto simp: roles_ok_def pk_upd set_upd)
qed

lemma community_ok_repair_owner:
  assumes "community_ok d"
  shows "community_ok (repair_owner w d)"
proof -
  let ?fix = "upd_rows (\<lambda>r. role_id r = ''role-owner'') (\<lambda>r. r\<lparr>role_perms := PermText (json_flags PERMISSIONS)\<rparr>) (roles d)"
  have "roles_ok ?fix" using assms by (simp add: community_ok_def roles_ok_upd)
  moreover have "has_row role_id x ?fix = has_row role_id x (roles d)" for x by (simp add: has_row_upd)
  ultimately show ?thesis using assms
    by (auto simp: repair_owner_def community_ok_def Let_def pk_append d_pk_def has_row_def split: option.split)
qed

lemma bootstrap_community_ok:
  assumes "bootstrap_community w general s = (Inr (), s')"
    and "roles (db s) = [] \<Longrightarrow> members (db s) = [] \<and> devices (db s) = [] \<and> bans (db s) = [] \<and> invites (db s) = [] \<and> channels (db s) = []"
    and "roles (db s) \<noteq> [] \<Longrightarrow> community_ok (db s)"
  shows "community_ok (db s')"
proof (cases "roles (db s) = []")
  case False
  with assms show ?thesis by (auto simp: bootstrap_community_def community_ok_repair_owner)
next
  case True
  with assms(1) obtain d where d: "create_community w general (db s) = Inr d" and s': "db s' = repair_owner w d"
    by (auto simp: bootstrap_community_def split: sum.splits option.splits)
  have "has_row role_id ''role-owner'' default_roles" by (simp add: has_row_def default_roles_def)
  with d True assms(2) default_roles_ok have "community_ok d"
    by (auto simp: create_community_def community_ok_def appendOp_def pk_def tbl has_row_def split: if_splits)
  with s' show ?thesis by (simp add: community_ok_repair_owner)
qed

lemma redeem_invite_Some:
  assumes "redeem_invite w x nick iv key d = Some d'"
  shows "\<not> has_row m_id x (members d)" and "\<not> has_row d_pk (x, key) (devices d)"
    and "invites d' = upd_rows (\<lambda>i. i_id i = i_id iv) (\<lambda>i. i\<lparr>i_used := i_used i + 1\<rparr>) (invites d)"
    and "members d' = members d @ [\<lparr>m_id = x, m_nick = nick, m_role = i_role iv, m_joined = now w,
                                     m_presence = ''offline''\<rparr>]"
    and "devices d' = devices d @ [\<lparr>d_identity = x, d_key = key, d_added = now w, d_revoked = None\<rparr>]"
    and "roles d' = roles d" and "bans d' = bans d" and "channels d' = channels d"
  using assms by (auto simp: redeem_invite_def appendOp_def split: if_splits)

lemma redeem_invite_ok:
  assumes "community_ok d" and "redeem_invite w x nick iv key d = Some d'"
    and "iv \<in> set (invites d)" and "i_used iv < i_max iv" and "\<not> isBanned d x"
  shows "community_ok d'"
proof -
  let ?inv = "upd_rows (\<lambda>i. i_id i = i_id iv) (\<lambda>i. i\<lparr>i_used := i_used i + 1\<rparr>) (invites d)"
  have "pk i_id (invites d)" using assms(1) by (simp add: community_ok_def)
  then have same: "i \<in> set (invites d) \<Longrightarrow> i_id i = i_id iv \<Longrightarrow> i_used i < i_max i" for i
    using get_row_pk [of i_id "invites d"] assms(3,4) by (metis option.inject)
  have "\<forall>i \<in> set ?inv. has_row role_id (i_role i) (roles d) \<and> 0 \<le> i_used i \<and> i_used i \<le> i_max i"
    using assms(1) same by (fastforce simp: set_upd community_ok_def)
  moreover have "pk i_id ?inv" using \<open>pk i_id (invites d)\<close> by (simp add: pk_upd)
  moreover have "has_row role_id (i_role iv) (roles d)" using assms(1,3) by (simp add: community_ok_def)
  ultimately show ?thesis using assms(1,2,5)
    by (auto simp: redeem_invite_def community_ok_def appendOp_def pk_append isBanned_def d_pk_def split: if_splits)
qed

lemma invite_rejection_None: "invite_rejection t i = None \<Longrightarrow> i_used i < i_max i"
  by (simp add: invite_rejection_def split: if_splits)

lemma joinByInvite_step:
  assumes "joinByInvite w x nick secret key s = (res, s')" and "db s' \<noteq> db s"
  shows "\<exists>iv. iv \<in> set (invites (db s)) \<and> invite_rejection (now w) iv = None \<and> \<not> isBanned (db s) x
      \<and> get_member (db s) x = None
      \<and> redeem_invite w x nick iv key (db s) = Some (db s')"
  using assms get_row_Some [of i_secret_hash _ "invites (db s)"]
  by (fastforce simp: joinByInvite_def Let_def split: if_splits sum.splits option.splits)

lemma joinByInvite_ok: "community_ok (db s) \<Longrightarrow> joinByInvite w x nick secret key s = (res, s') \<Longrightarrow> community_ok (db s')"
  using joinByInvite_step redeem_invite_ok invite_rejection_None by (cases "db s' = db s") (simp, blast)

lemma leave_ok: "community_ok (db s) \<Longrightarrow> leave x s = (res, s') \<Longrightarrow> community_ok (db s')"
  by (auto simp: leave_def intro!: community_ok_remove_member split: option.splits if_splits)

lemma owner_role_exists: "community_ok d \<Longrightarrow> has_row role_id ''role-owner'' (roles d)"
  unfolding community_ok_def roles_ok_def has_row_def by (metis image_eqI)

lemma transferOwnership_ok:
  assumes "community_ok (db s)" and "transferOwnership a b s = (res, s')"
    and "has_row role_id ''role-member'' (roles (db s))"
  shows "community_ok (db s')"
proof (cases "db s' = db s")
  case False
  let ?d = "db s" and ?d' = "set_role b ''role-owner'' (set_role a ''role-member'' (db s))"
  from False assms(2) have d': "db s' = appendOp (OpTransferOwnership a b) ?d'" and "get_member ?d b \<noteq> None"
    by (auto simp: transferOwnership_def split: option.splits if_splits)
  then obtain m where m: "m \<in> set (members ?d)" "m_id m = b"
    using get_row_Some by (fastforce simp: get_member_def)
  have both: "members ?d' = map (\<lambda>y. if m_id y = b then y\<lparr>m_role := ''role-owner''\<rparr>
                                 else if m_id y = a then y\<lparr>m_role := ''role-member''\<rparr> else y) (members ?d)"
    by (simp add: set_role_def upd_rows_def o_def cong: if_cong)
  have "map m_id (members ?d') = map m_id (members ?d)" unfolding both by simp
  then have "pk m_id (members ?d')" using assms(1) by (simp add: pk_def community_ok_def)
  moreover have "\<exists>m \<in> set (members ?d'). m_role m = ''role-owner''"
    using m unfolding both by (intro bexI [of _ "m\<lparr>m_role := ''role-owner''\<rparr>"]) (auto simp: image_iff intro!: bexI [of _ m])
  moreover have "\<forall>m \<in> set (members ?d'). has_row role_id (m_role m) (roles ?d) \<and> \<not> has_row b_id (m_id m) (bans ?d)"
    using assms(1,3) owner_role_exists [OF assms(1)] unfolding both by (auto simp: community_ok_def)
  ultimately show ?thesis using assms(1) unfolding d' community_ok_append by (simp add: community_ok_def)
qed (use assms in simp)

lemma owner_other_than:
  assumes "community_ok d" and "get_member d x = Some m" and "m_role m \<noteq> ''role-owner''"
  shows "\<exists>o1 \<in> set (members d). m_id o1 \<noteq> x \<and> m_role o1 = ''role-owner''"
proof -
  obtain o1 where o1: "o1 \<in> set (members d)" "m_role o1 = ''role-owner''" and p: "pk m_id (members d)"
    using assms(1) by (auto simp: community_ok_def)
  then have "m_id o1 \<noteq> x" using assms(2,3) get_row_pk [OF p o1(1)] by (auto simp: get_member_def)
  with o1 show ?thesis by blast
qed

lemma roleAssign_step:
  assumes "roleAssign a x r s = (res, s')" and "db s' \<noteq> db s"
  shows "\<exists>actor target. get_member (db s) a = Some actor \<and> get_member (db s) x = Some target
     \<and> may_modify (db s) actor target Assign_roles = Inr True \<and> get_role (db s) r \<noteq> None
     \<and> db s' = appendOp (OpRoleAssign x r) (set_role x r (db s))"
  using assms
  by (auto simp: roleAssign_def Let_def split: option.splits sum.splits bool.splits if_splits)

lemma roleAssign_ok:
  assumes "community_ok (db s)" and "roleAssign a x r s = (res, s')"
  shows "community_ok (db s')"
proof (cases "db s' = db s")
  case False
  from roleAssign_step [OF assms(2) False] obtain actor target where
    m: "get_member (db s) a = Some actor" "get_member (db s) x = Some target"
      "may_modify (db s) actor target Assign_roles = Inr True"
    and r: "get_role (db s) r \<noteq> None" and d': "db s' = appendOp (OpRoleAssign x r) (set_role x r (db s))" by blast
  have "m_role target \<noteq> ''role-owner''" using may_modify_target(2) [OF assms(1) m] .
  then show ?thesis unfolding d' community_ok_append
    using community_ok_set_role [OF assms(1)] owner_other_than [OF assms(1) m(2)] r
    by (auto simp: get_role_def tbl)
qed (use assms in simp)

lemma kick_step:
  assumes "kick a x s = (res, s')" and "db s' \<noteq> db s"
  shows "\<exists>actor target. get_member (db s) a = Some actor \<and> get_member (db s) x = Some target
     \<and> may_modify (db s) actor target Kick_members = Inr True
     \<and> db s' = appendOp (OpKick x) (members_update (del_rows (\<lambda>y. m_id y = x)) (db s))"
  using assms by (auto simp: kick_def Let_def split: option.splits sum.splits bool.splits if_splits)

lemma kick_ok: "community_ok (db s) \<Longrightarrow> kick a x s = (res, s') \<Longrightarrow> community_ok (db s')"
  using kick_step [of a x s res s'] may_modify_target(2) [of "db s"]
  by (cases "db s' = db s") (fastforce intro!: community_ok_remove_member)+

lemma ban_step:
  assumes "ban w a x s = (res, s')" and "db s' \<noteq> db s"
  shows "\<exists>actor target. get_member (db s) a = Some actor \<and> get_member (db s) x = Some target
     \<and> may_modify (db s) actor target Ban_members = Inr True \<and> \<not> has_row b_id x (bans (db s))
     \<and> db s' = appendOp (OpBan x) (db s\<lparr>members := del_rows (\<lambda>y. m_id y = x) (members (db s)),
                                        bans := bans (db s) @ [\<lparr>b_id = x, b_at = now w\<rparr>]\<rparr>)"
  using assms by (auto simp: ban_def Let_def ins_row_def split: option.splits sum.splits bool.splits if_splits)

lemma ban_ok:
  assumes "community_ok (db s)" and "ban w a x s = (res, s')"
  shows "community_ok (db s')"
proof (cases "db s' = db s")
  case False
  from ban_step [OF assms(2) False] obtain actor target where
    m: "get_member (db s) a = Some actor" "get_member (db s) x = Some target"
      "may_modify (db s) actor target Ban_members = Inr True" and b: "\<not> has_row b_id x (bans (db s))"
    and d': "db s' = appendOp (OpBan x) (db s\<lparr>members := del_rows (\<lambda>y. m_id y = x) (members (db s)),
                                        bans := bans (db s) @ [\<lparr>b_id = x, b_at = now w\<rparr>]\<rparr>)" by blast
  have "community_ok (members_update (del_rows (\<lambda>y. m_id y = x)) (db s))"
    using m may_modify_target(2) [OF assms(1) m] by (auto intro: community_ok_remove_member [OF assms(1)])
  then show ?thesis using b unfolding d' community_ok_append
    by (auto simp: community_ok_def pk_append tbl)
qed (use assms in simp)

lemma roles_ok_append:
  assumes "roles_ok rs" and "\<not> has_row role_id (role_id r) rs" and "role_level r < 100"
  shows "roles_ok (rs @ [r])"
  using assms by (auto simp: roles_ok_def pk_append)

lemma roleCreate_step:
  assumes "roleCreate w i a name level perms s = (res, s')" and "db s' \<noteq> db s"
  shows "\<exists>actor. require_permission (db s) a Manage_roles = Inr actor \<and> \<not> has_row role_id i (roles (db s))
     \<and> db s' = appendOp (OpRoleCreate i) (db s\<lparr>roles := roles (db s) @
          [\<lparr>role_id = i, role_name = name, role_level = level,
            role_perms = PermText (json_flags (filter (\<lambda>p. p \<in> set perms) PERMISSIONS))\<rparr>]\<rparr>)"
  using assms by (auto simp: roleCreate_def Let_def ins_row_def split: sum.splits option.splits if_splits)

lemma roleCreate_ok:
  assumes "community_ok (db s)" and "roleCreate w i a name level perms s = (res, s')" and "level < 100"
  shows "community_ok (db s')"
proof (cases "db s' = db s")
  case False
  from roleCreate_step [OF assms(2) False] assms(1,3) show ?thesis
    by (auto simp: community_ok_def roles_ok_append tbl simp flip: ) (auto simp: appendOp_def roles_ok_append tbl)
qed (use assms in simp)

lemma enrollDevice_step:
  assumes "enrollDevice w x key c s = (res, s')" and "db s' \<noteq> db s"
  shows "get_member (db s) x \<noteq> None \<and> \<not> has_row d_pk (x, key) (devices (db s))
     \<and> length (filter (capability_matches (now w) (sha256Hex w c) x key) (capabilities (db s))) = 1
     \<and> db s' = appendOp (OpDeviceEnroll x key) (db s\<lparr>
          capabilities := upd_rows (capability_matches (now w) (sha256Hex w c) x key)
                            (\<lambda>c. c\<lparr>cap_consumed := Some (now w)\<rparr>) (capabilities (db s)),
          devices := devices (db s) @ [\<lparr>d_identity = x, d_key = key, d_added = now w, d_revoked = None\<rparr>]\<rparr>)"
  using assms by (auto simp: enrollDevice_def Let_def ins_row_def d_pk_def split: option.splits if_splits)

lemma enrollDevice_ok:
  assumes "community_ok (db s)" and "enrollDevice w x key c s = (res, s')"
  shows "community_ok (db s')"
proof (cases "db s' = db s")
  case False
  from enrollDevice_step [OF assms(2) False] assms(1) show ?thesis
    by (auto simp: community_ok_def pk_append d_pk_def) (auto simp: appendOp_def pk_append d_pk_def)
qed (use assms in simp)

lemma authorizeDeviceLink_ok:
  "community_ok (db s) \<Longrightarrow> authorizeDeviceLink w c x k k' e s = (res, s') \<Longrightarrow> community_ok (db s')"
proof -
  have "community_ok (capabilities_update f d) = community_ok d" for f d by (simp add: community_ok_def)
  then show "community_ok (db s) \<Longrightarrow> authorizeDeviceLink w c x k k' e s = (res, s') \<Longrightarrow> community_ok (db s')"
    by (auto simp: authorizeDeviceLink_def Let_def split: option.splits if_splits)
qed

section \<open>What the handlers guarantee\<close>

text \<open>A small community for the instances below: an owner, an administrator and a member.\<close>

definition sample_member :: "string \<Rightarrow> string \<Rightarrow> member" where
  "sample_member x r = \<lparr>m_id = x, m_nick = x, m_role = r, m_joined = 0, m_presence = ''offline''\<rparr>"

definition sample_device :: "string \<Rightarrow> string \<Rightarrow> device" where
  "sample_device x k = \<lparr>d_identity = x, d_key = k, d_added = 0, d_revoked = None\<rparr>"

definition sample_invite :: invite where
  "sample_invite = \<lparr>i_id = ''i1'', i_secret_hash = ''s1'', i_access_hash = Some ''s1'', i_role = ''role-member'',
                    i_max = 2, i_used = 0, i_expires = None, i_revoked = False, i_created = 0\<rparr>"

definition sample_db :: db where
  "sample_db = empty_db\<lparr>
     meta := [''authority_public_key'' \<mapsto> MText ''ak'', ''invite_hash_key'' \<mapsto> MText (replicate 64 CHR ''0'')],
     roles := default_roles,
     members := [sample_member ''ann'' ''role-owner'', sample_member ''bob'' ''role-admin'',
                 sample_member ''cat'' ''role-member''],
     devices := [sample_device ''ann'' ''ka'', sample_device ''bob'' ''kb'', sample_device ''cat'' ''kc''],
     invites := [sample_invite],
     channels := [\<lparr>ch_id = ''general'', ch_type = TextChannel, ch_name = ''general'', ch_overrides = [],
                   ch_created = 0\<rparr>,
                  \<lparr>ch_id = ''call'', ch_type = CallChannel, ch_name = ''call'', ch_overrides = [],
                   ch_created = 0\<rparr>]\<rparr>"

definition sample_host :: host where
  "sample_host = \<lparr>db = sample_db, events = [], replay = [], sequences = Map.empty, calls = [], writer = True,
                  pendingRegistration = None, writerResumeEligibility = None\<rparr>"

definition sample_world :: world where
  "sample_world =
     \<lparr>is_uuid = (\<lambda>s. s \<noteq> []), parse_url = parse_url sample_crypto, sha256Hex = (\<lambda>x. x), public_key = sample_key,
      fingerprint = (\<lambda>x. x), sign_message = (\<lambda>k m. sample_signature),
      verify_message = (\<lambda>k m x. x = sample_signature),
      now = 1000, server_id = ''srv'', owner_identity = ''ann'', owner_nickname = ''ann'', server_name = ''S'',
      authority_seed = Seed ''as'', host_seed = Seed ''hs'', owner_public_key = Some ''ka'',
      booted_as_replica = False, bridge_descriptors = [], bridge_pairings = [], allow_loopback_downgrade = False,
      legacy_rendezvous = False, direct_routes = RoutesUnset, render_url = (\<lambda>e p q. p @ e @ q),
      base64url = (\<lambda>x. take 22 (x @ replicate 22 CHR ''A'')), utf8 = (\<lambda>x. x), legacy_invite = (\<lambda>x. ''JC1-'' @ x),
      hmac_sha256 = (\<lambda>k x. x),
      parse_invite = (\<lambda>t. if t = ''JC1-s1'' then Some (LegacyInvite ''srv'' ''s1'') else None),
      envelope_bytes = (\<lambda>e. 100), chunk_sha256 = (\<lambda>b. replicate 64 CHR ''0'')\<rparr>"

lemmas sample_defs = sample_world_def sample_host_def sample_db_def sample_member_def sample_device_def
  sample_invite_def default_roles_def level_owner_def level_admin_def level_moderator_def level_member_def

lemma hex64_zeros [simp]: "hex64 (replicate 64 CHR ''0'')"
  by (simp add: hex64_def hex_digit_def list_all_iff)

lemma sample_lookups [simp]:
  "get_member sample_db ''ann'' = Some (sample_member ''ann'' ''role-owner'')"
  "get_member sample_db ''bob'' = Some (sample_member ''bob'' ''role-admin'')"
  "get_member sample_db ''cat'' = Some (sample_member ''cat'' ''role-member'')"
  "get_member sample_db ''dan'' = None"
  "get_role sample_db ''role-owner'' = Some (default_roles ! 0)"
  "get_role sample_db ''role-admin'' = Some (default_roles ! 1)"
  "get_role sample_db ''role-member'' = Some (default_roles ! 3)"
  "get_role sample_db ''role-mod'' = Some (default_roles ! 2)"
  by (simp_all add: get_member_def get_role_def get_row_def sample_defs)

lemma sample_admin [simp]:
  "require_permission sample_db ''bob'' p = Inr (sample_member ''bob'' ''role-admin'')"
  "member_permits sample_db (sample_member ''bob'' ''role-admin'') None p = Inr True"
  using permission_in_PERMISSIONS [of p]
  by (simp_all add: require_permission_def member_permits_def evaluatePermission_def override_for_def
      memberContext_def sample_member_def default_roles_def)

lemma sample_roles [simp]:
  "has_row role_id x (roles sample_db) \<longleftrightarrow> x \<in> {''role-owner'', ''role-admin'', ''role-mod'', ''role-member''}"
  by (auto simp: sample_db_def has_row_def default_roles_def)

lemma sample_community_ok: "community_ok sample_db"
  using default_roles_ok
  by (simp add: community_ok_def sample_db_def sample_member_def sample_device_def sample_invite_def pk_def d_pk_def
      empty_db_def has_row_def default_roles_def)

text \<open>The secret a text carries for this server: unsigned, or signed with the key of its authority.\<close>

definition carries_secret :: "world \<Rightarrow> db \<Rightarrow> string \<Rightarrow> string \<Rightarrow> bool" where
  "carries_secret w d text secretBytes \<longleftrightarrow>
     parse_invite w text = Some (LegacyInvite (server_id w) secretBytes)
     \<or> (\<exists>k. authorityPublicKey d = Inr k \<and> parse_invite w text = Some (SignedInvite (server_id w) k secretBytes))"

lemma joinByInvite_secret:
  assumes "joinByInvite w x nick secret key s = (res, s')" and "db s' \<noteq> db s"
  shows "\<exists>iv hashKey secretBytes. iv \<in> set (invites (db s)) \<and> carries_secret w (db s) secret secretBytes
      \<and> inviteHashKey (db s) = Inr hashKey \<and> i_secret_hash iv = sha256Hex w (hmac_sha256 w hashKey secretBytes)
      \<and> invite_rejection (now w) iv = None \<and> \<not> isBanned (db s) x \<and> get_member (db s) x = None
      \<and> redeem_invite w x nick iv key (db s) = Some (db s')"
proof -
  have x: "\<not> isBanned (db s) x" "get_member (db s) x = None"
    using assms by (auto simp: joinByInvite_def Let_def split: if_splits)
  obtain b where b: "invite_secret w (db s) secret = Inr b"
    using assms x by (auto simp: joinByInvite_def Let_def split: sum.splits)
  obtain h where h: "inviteHashKey (db s) = Inr h"
    using assms x b by (auto simp: joinByInvite_def Let_def split: sum.splits)
  obtain iv where iv: "get_row i_secret_hash (sha256Hex w (hmac_sha256 w h b)) (invites (db s)) = Some iv"
    using assms x b h by (auto simp: joinByInvite_def Let_def split: option.splits)
  have ok: "invite_rejection (now w) iv = None" "redeem_invite w x nick iv key (db s) = Some (db s')"
    using assms x b h iv by (auto simp: joinByInvite_def Let_def split: option.splits)
  have "carries_secret w (db s) secret b"
    using b by (auto simp: invite_secret_def carries_secret_def split: option.splits parsed_invite.splits sum.splits if_splits)
  then show ?thesis using x h iv ok get_row_Some [OF iv] by blast
qed

text \<open>
  C37. Nobody enters without a valid invite. A join changes the database only for an identity that is neither
  a member nor banned and presents the secret of a stored invite: the presented text carries, for this server and if it is
  signed for its authority, a secret whose keyed hash is the stored one. The invite is not revoked, not
  expired and not used up; the join uses it exactly once, gives the new member the invite's role
  and links exactly the presented device.
\<close>

theorem join_needs_valid_invite:
  assumes "joinByInvite w x nick secret key s = (res, s')" and "db s' \<noteq> db s"
  shows "get_member (db s) x = None \<and> \<not> isBanned (db s) x \<and>
    (\<exists>iv \<in> set (invites (db s)). \<not> i_revoked iv \<and> i_used iv < i_max iv
        \<and> (\<exists>hashKey secretBytes. carries_secret w (db s) secret secretBytes \<and> inviteHashKey (db s) = Inr hashKey
             \<and> i_secret_hash iv = sha256Hex w (hmac_sha256 w hashKey secretBytes))
        \<and> (\<forall>t. i_expires iv = Some t \<longrightarrow> t = 0 \<or> now w \<le> t)
        \<and> invites (db s') = upd_rows (\<lambda>i. i_id i = i_id iv) (\<lambda>i. i\<lparr>i_used := i_used i + 1\<rparr>) (invites (db s))
        \<and> members (db s') = members (db s) @ [\<lparr>m_id = x, m_nick = nick, m_role = i_role iv,
                                               m_joined = now w, m_presence = ''offline''\<rparr>]
        \<and> devices (db s') = devices (db s) @ [\<lparr>d_identity = x, d_key = key, d_added = now w, d_revoked = None\<rparr>])"
proof -
  from joinByInvite_secret [OF assms] obtain iv h b where iv: "iv \<in> set (invites (db s))"
    and c: "carries_secret w (db s) secret b" "inviteHashKey (db s) = Inr h" "i_secret_hash iv = sha256Hex w (hmac_sha256 w h b)"
    and ok: "invite_rejection (now w) iv = None" and r: "redeem_invite w x nick iv key (db s) = Some (db s')"
    and x: "\<not> isBanned (db s) x" "get_member (db s) x = None" by blast
  from ok have "\<not> i_revoked iv \<and> i_used iv < i_max iv \<and> (\<forall>t. i_expires iv = Some t \<longrightarrow> t = 0 \<or> now w \<le> t)"
    by (auto simp: invite_rejection_def split: if_splits)
  with redeem_invite_Some [OF r] iv x c show ?thesis by blast
qed

theorem join_needs_valid_invite_witness:
  "m_role (last (members (db (snd (joinByInvite sample_world ''dan'' ''Dan'' ''JC1-s1'' ''kd'' sample_host))))) = ''role-member''"
proof -
  let ?r = "joinByInvite sample_world ''dan'' ''Dan'' ''JC1-s1'' ''kd'' sample_host"
  have "members (db (snd ?r)) \<noteq> members (db sample_host)"
    by (simp add: joinByInvite_def invite_secret_def inviteHashKey_def isBanned_def get_row_def invite_rejection_def
        redeem_invite_def has_row_def d_pk_def Let_def op_defs empty_db_def sample_defs get_member_def)
  then have "db (snd ?r) \<noteq> db sample_host" by metis
  with join_needs_valid_invite [of sample_world "''dan''" "''Dan''" "''JC1-s1''" "''kd''" sample_host "fst ?r" "snd ?r"]
  show ?thesis by (auto simp: sample_host_def sample_db_def sample_invite_def)
qed

text \<open>
  A member who was kicked or who left cannot come back with a device that was linked before: the row of
  \<open>member_devices\<close> stays, and whatever invite the identity presents with that device, the join never
  succeeds and changes nothing; with a valid invite it ends in a constraint violation instead of an answer.
\<close>

theorem removed_member_device_locked_out:
  assumes "kick a x s = (Inr (), s1) \<or> leave x s = (Inr (), s1)"
    and "has_row d_pk (x, key) (devices (db s))"
    and "joinByInvite w x nick secret key s1 = (res, s2)"
  shows "\<not> is_ok res \<and> db s2 = db s1"
proof -
  have "devices (db s1) = devices (db s)"
    using assms(1) by (auto simp: kick_def leave_def op_defs Let_def split: option.splits sum.splits bool.splits if_splits)
  then have "redeem_invite w x nick iv key (db s1) = None" for iv
    using assms(2) by (simp add: redeem_invite_def)
  then show ?thesis
    using assms(3) by (auto simp: joinByInvite_def Let_def split: if_splits sum.splits option.splits)
qed

lemma sample_kick:
  "kick ''bob'' ''cat'' sample_host = (Inr (), emit StateChanged (emit (MemberRemoved ''cat'' ''kick'')
     (db_update (\<lambda>d. appendOp (OpKick ''cat'') (members_update (del_rows (\<lambda>x. m_id x = ''cat'')) d)) sample_host)))"
  by (simp add: kick_def may_modify_def canModify_def evaluatePermission_def override_for_def memberContext_def
      sample_host_def sample_member_def default_roles_def level_admin_def level_member_def PERMISSIONS_def)

theorem removed_member_device_locked_out_witness:
  "\<not> is_ok (fst (joinByInvite sample_world ''cat'' ''Cat'' ''JC1-s1'' ''kc'' (snd (kick ''bob'' ''cat'' sample_host))))
   \<and> fst (joinByInvite sample_world ''cat'' ''Cat'' ''JC1-s1'' ''kc'' (snd (kick ''bob'' ''cat'' sample_host)))
      = Inl (Throws ConstraintError)"
proof -
  let ?s1 = "snd (kick ''bob'' ''cat'' sample_host)"
  let ?r = "joinByInvite sample_world ''cat'' ''Cat'' ''JC1-s1'' ''kc'' ?s1"
  have "fst ?r = Inl (Throws ConstraintError)"
    unfolding sample_kick snd_conv
    by (simp add: joinByInvite_def invite_secret_def inviteHashKey_def isBanned_def get_row_def invite_rejection_def
        redeem_invite_def has_row_def d_pk_def Let_def op_defs empty_db_def sample_defs get_member_def del_rows_def)
  moreover have "kick ''bob'' ''cat'' sample_host = (Inr (), ?s1)" unfolding sample_kick by simp
  moreover have "has_row d_pk (''cat'', ''kc'') (devices (db sample_host))"
    by (simp add: has_row_def d_pk_def sample_defs)
  ultimately show ?thesis
    using removed_member_device_locked_out [of "''bob''" "''cat''" sample_host ?s1 "''kc''" sample_world "''Cat''"
        "''JC1-s1''" "fst ?r" "snd ?r"] by simp
qed

text \<open>
  Only the owner can assign roles. \<open>manage\<close> permissions notwithstanding, an assignment by any other
  member never succeeds: the roles the database returns carry their permissions as text, on which the code
  calls the array method \<open>some\<close>, so an actor who passes the earlier checks gets an exception.
\<close>

theorem role_assignment_by_others_fails:
  assumes "\<forall>r \<in> set (roles (db s)). \<exists>t. role_perms r = PermText t"
    and "get_member (db s) a = Some actor" and "m_role actor \<noteq> ''role-owner''"
  shows "\<not> is_ok (fst (roleAssign a x r s)) \<and> snd (roleAssign a x r s) = s"
proof -
  have "perms_some (role_perms q) f = Inl TypeError" if "get_role (db s) r = Some q" for q f
    using assms(1) get_row_Some [of role_id r "roles (db s)" q] that by (auto simp: get_role_def)
  with assms(2,3) show ?thesis
    by (auto simp: roleAssign_def Let_def split: option.split sum.split bool.split)
qed

theorem role_assignment_by_others_fails_witness:
  "\<not> is_ok (fst (roleAssign ''bob'' ''cat'' ''role-mod'' sample_host))
   \<and> fst (roleAssign ''bob'' ''cat'' ''role-mod'' sample_host) = Inl (Throws TypeError)"
proof -
  have "fst (roleAssign ''bob'' ''cat'' ''role-mod'' sample_host) = Inl (Throws TypeError)"
    by (simp add: roleAssign_def may_modify_def canModify_def evaluatePermission_def override_for_def memberContext_def
        sample_host_def sample_member_def default_roles_def level_admin_def level_member_def level_moderator_def
        PERMISSIONS_def Let_def)
  moreover have "\<not> is_ok (fst (roleAssign ''bob'' ''cat'' ''role-mod'' sample_host))"
    using role_assignment_by_others_fails [of sample_host "''bob''" "sample_member ''bob'' ''role-admin''" "''cat''" "''role-mod''"]
    by (simp add: sample_host_def) (simp add: sample_db_def default_roles_def sample_member_def)
  ultimately show ?thesis by simp
qed

text \<open>
  Nobody delegates more than they hold. A role a member other than the owner creates has a level below
  the member's own, holds only permissions the member's role includes, and never \<open>manage_hosts\<close>.
\<close>

theorem created_role_below_creator:
  assumes "roleCreate w i a name level perms s = (Inr r, s')"
    and "get_member (db s) a = Some actor" and "m_role actor \<noteq> ''role-owner''"
  shows "\<exists>ar. get_role (db s) (m_role actor) = Some ar
      \<and> evaluatePermission (memberContext actor) ar None Manage_roles
      \<and> level < role_level ar
      \<and> (\<forall>p. perms_includes (role_perms r) p \<longrightarrow> perms_includes (role_perms ar) p \<and> p \<noteq> Manage_hosts)
      \<and> get_role (db s') i = Some (r\<lparr>role_perms := PermText (json_flags (filter (\<lambda>p. p \<in> set perms) PERMISSIONS))\<rparr>)"
proof -
  from assms obtain ar where ar: "get_role (db s) (m_role actor) = Some ar"
    and ev: "evaluatePermission (memberContext actor) ar None Manage_roles"
    and req: "require_permission (db s) a Manage_roles = Inr actor"
    by (auto simp: roleCreate_def require_permission_def member_permits_def memberContext_def
        split: sum.splits option.splits bool.splits)
  let ?req = "filter (\<lambda>p. p \<in> set perms) PERMISSIONS"
  let ?row = "\<lparr>role_id = i, role_name = name, role_level = level, role_perms = PermText (json_flags ?req)\<rparr>"
  from assms(1,3) ar req have lvl: "level < role_level ar"
    and holds: "\<forall>p \<in> set ?req. perms_includes (role_perms ar) p" and hosts: "Manage_hosts \<notin> set ?req"
    and fresh: "\<not> has_row role_id i (roles (db s))" and r: "r = ?row\<lparr>role_perms := PermArray ?req\<rparr>"
    and d': "roles (db s') = roles (db s) @ [?row]"
    by (auto simp: roleCreate_def Let_def ins_row_def op_defs list_ex_iff split: if_splits)
  have "get_role (db s') i = Some ?row"
    using fresh get_row_None [of role_id i "roles (db s)"] by (simp add: get_role_def d' get_row_append)
  then show ?thesis using ar ev lvl holds hosts r by auto
qed

theorem created_role_below_creator_witness:
  "\<exists>r s'. roleCreate sample_world ''r9'' ''bob'' ''Helper'' 20 [Kick_members] sample_host = (Inr r, s')
     \<and> get_role (db s') ''r9'' \<noteq> None"
proof -
  have "is_ok (fst (roleCreate sample_world ''r9'' ''bob'' ''Helper'' 20 [Kick_members] sample_host))"
    using permission_in_PERMISSIONS
    by (simp add: roleCreate_def sample_host_def ins_row_def Let_def sample_member_def default_roles_def
        level_admin_def list_ex_iff)
  then obtain r s' where r: "roleCreate sample_world ''r9'' ''bob'' ''Helper'' 20 [Kick_members] sample_host = (Inr r, s')"
    by (cases "roleCreate sample_world ''r9'' ''bob'' ''Helper'' 20 [Kick_members] sample_host") (auto simp: is_ok_iff)
  with created_role_below_creator [OF r, of "sample_member ''bob'' ''role-admin''"] show ?thesis
    by (simp add: sample_host_def) (simp add: sample_member_def)
qed

text \<open>
  C39. Moderation follows the hierarchy and takes effect. When a kick or a ban succeeds, the actor holds the
  permission for it and the target's role is below level 100 and, unless the actor is an owner, below the
  actor's; the target is then no member, and nobody else's membership changed.
\<close>

theorem moderation_follows_hierarchy:
  assumes "community_ok (db s)"
    and "(kick a x s = (Inr (), s') \<and> p = Kick_members) \<or> (ban w a x s = (Inr (), s') \<and> p = Ban_members)"
  shows "\<exists>actor ar target tr. get_member (db s) a = Some actor \<and> get_role (db s) (m_role actor) = Some ar
      \<and> get_member (db s) x = Some target \<and> get_role (db s) (m_role target) = Some tr
      \<and> evaluatePermission (memberContext actor) ar None p
      \<and> role_level tr < 100 \<and> (m_role actor \<noteq> ''role-owner'' \<longrightarrow> role_level tr < role_level ar)
      \<and> get_member (db s') x = None
      \<and> (\<forall>y. y \<noteq> x \<longrightarrow> get_member (db s') y = get_member (db s) y)"
proof -
  from assms(2) obtain actor target where a: "get_member (db s) a = Some actor" and x: "get_member (db s) x = Some target"
    and may: "may_modify (db s) actor target p = Inr True"
    and ms: "members (db s') = del_rows (\<lambda>y. m_id y = x) (members (db s))"
    by (auto simp: kick_def ban_def Let_def op_defs split: option.splits sum.splits bool.splits)
  obtain ar tr where r: "get_role (db s) (m_role actor) = Some ar" "get_role (db s) (m_role target) = Some tr"
    using role_of_member [OF assms(1)] a x by blast
  with may have can: "canModify (memberContext actor) ar tr p" by (simp add: may_modify_def)
  have "role_level tr < 100" using can canModify_target by blast
  moreover have "m_role actor \<noteq> ''role-owner'' \<longrightarrow> role_level tr < role_level ar"
    using canModify_level [OF can] by (simp add: memberContext_def)
  moreover have "get_member (db s') y = (if y = x then None else get_member (db s) y)" for y
    by (simp add: get_member_def ms get_row_del_key)
  ultimately show ?thesis using a x r canModify_permission [OF can] by simp
qed

theorem moderation_follows_hierarchy_witness:
  "get_member (db (snd (kick ''bob'' ''cat'' sample_host))) ''cat'' = None"
  using moderation_follows_hierarchy [of sample_host "''bob''" "''cat''" "snd (kick ''bob'' ''cat'' sample_host)"
      Kick_members sample_world] sample_kick sample_community_ok
  by (auto simp: sample_host_def)

text \<open>
  C2. A ban lasts. After a ban the identity is banned and no member, and no invite, nickname or device lets
  it back in: every later join from that database is refused with \<open>banned\<close> and changes nothing.
\<close>

theorem banned_stays_out:
  assumes "ban w a x s = (Inr (), s1)"
  shows "isBanned (db s1) x \<and> get_member (db s1) x = None
       \<and> joinByInvite w' x nick secret key s1 = (Inl (Fail Banned), s1)"
proof -
  from assms have "members (db s1) = del_rows (\<lambda>y. m_id y = x) (members (db s))"
    and b: "bans (db s1) = bans (db s) @ [\<lparr>b_id = x, b_at = now w\<rparr>]"
    by (auto simp: ban_def Let_def ins_row_def op_defs split: option.splits sum.splits bool.splits if_splits)
  then have "get_member (db s1) x = None" by (simp add: get_member_def get_row_del_key)
  moreover have "isBanned (db s1) x" by (simp add: isBanned_def b has_row_append)
  ultimately show ?thesis by (simp add: joinByInvite_def Let_def)
qed

theorem banned_stays_out_witness:
  "fst (joinByInvite sample_world ''cat'' ''Cat'' ''JC1-s1'' ''kc2'' (snd (ban sample_world ''bob'' ''cat'' sample_host)))
     = Inl (Fail Banned)"
proof -
  have "fst (ban sample_world ''bob'' ''cat'' sample_host) = Inr ()"
    by (simp add: ban_def may_modify_def canModify_def evaluatePermission_def override_for_def memberContext_def
        sample_host_def sample_member_def default_roles_def level_admin_def level_member_def PERMISSIONS_def
        ins_row_def Let_def) (simp add: sample_db_def empty_db_def has_row_def)
  then have "ban sample_world ''bob'' ''cat'' sample_host = (Inr (), snd (ban sample_world ''bob'' ''cat'' sample_host))"
    by (metis prod.collapse)
  from banned_stays_out [OF this] show ?thesis by simp
qed

text \<open>
  C40. A device-link capability works once, for one device of one member. An enrolment succeeds only with the
  token of an unconsumed, unexpired capability issued for exactly that identity and device; it links that
  device and consumes the capability, which then enrols nothing any more.
\<close>

theorem device_capability_single_use:
  assumes "enrollDevice w x key c s = (Inr (), s1)" and "pk cap_token (capabilities (db s))"
    and "sha256Hex w' = sha256Hex w"
  shows "(\<exists>r \<in> set (capabilities (db s)). cap_token r = sha256Hex w c \<and> cap_identity r = x \<and> cap_key r = key
            \<and> cap_consumed r = None \<and> cap_expires r > now w)
       \<and> isAuthorizedDevice (db s1) x key
       \<and> \<not> is_ok (fst (enrollDevice w' y key' c s1))"
proof -
  let ?P = "capability_matches (now w) (sha256Hex w c) x key"
  from assms(1) have one: "length (filter ?P (capabilities (db s))) = 1"
    and caps: "capabilities (db s1) = upd_rows ?P (\<lambda>c. c\<lparr>cap_consumed := Some (now w)\<rparr>) (capabilities (db s))"
    and devs: "devices (db s1) = devices (db s) @ [\<lparr>d_identity = x, d_key = key, d_added = now w, d_revoked = None\<rparr>]"
    by (auto simp: enrollDevice_def Let_def ins_row_def op_defs split: option.splits if_splits)
  from one have "filter ?P (capabilities (db s)) \<noteq> []" by auto
  then have "hd (filter ?P (capabilities (db s))) \<in> set (filter ?P (capabilities (db s)))" by (rule hd_in_set)
  then obtain r where r: "r \<in> set (capabilities (db s))" "?P r" by auto
  have "q = r" if "q \<in> set (capabilities (db s))" "cap_token q = sha256Hex w c" for q
    using get_row_pk [OF assms(2) that(1)] get_row_pk [OF assms(2) r(1)] r(2) that(2)
    by (simp add: capability_matches_def)
  then have other: "cap_token q \<noteq> sha256Hex w c" if "q \<in> set (capabilities (db s))" "\<not> ?P q" for q
    using that r(2) by blast
  have "\<not> capability_matches (now w') (sha256Hex w c) y key' (if ?P q then q\<lparr>cap_consumed := Some (now w)\<rparr> else q)"
    if "q \<in> set (capabilities (db s))" for q
    using other [OF that] by (cases "?P q") (simp_all, simp_all add: capability_matches_def)
  then have "filter (capability_matches (now w') (sha256Hex w c) y key') (capabilities (db s1)) = []"
    unfolding caps upd_rows_def filter_empty_conv set_map by blast
  then have "\<not> is_ok (fst (enrollDevice w' y key' c s1))"
    by (simp add: enrollDevice_def Let_def assms(3))
  moreover have "isAuthorizedDevice (db s1) x key" by (simp add: isAuthorizedDevice_def devs)
  ultimately show ?thesis using r by (auto simp: capability_matches_def)
qed

definition link_text :: string where
  "link_text = ''JDL1-'' @ replicate 43 CHR ''A''"

definition linking_host :: host where
  "linking_host = sample_host\<lparr>db := sample_db\<lparr>capabilities :=
     [\<lparr>cap_token = link_text, cap_identity = ''cat'', cap_key = ''kc2'', cap_issued = 0, cap_expires = 2000,
       cap_consumed = None\<rparr>]\<rparr>\<rparr>"

theorem device_capability_single_use_witness:
  "isAuthorizedDevice (db (snd (enrollDevice sample_world ''cat'' ''kc2'' link_text linking_host))) ''cat'' ''kc2''"
proof -
  let ?r = "enrollDevice sample_world ''cat'' ''kc2'' link_text linking_host"
  have "fst ?r = Inr ()"
    by (simp add: enrollDevice_def linking_host_def link_text_def link_capability_text_def base64url_char_def
        capability_matches_def ins_row_def has_row_def d_pk_def list_all_iff Let_def)
      (simp add: sample_world_def sample_db_def sample_device_def get_member_def get_row_def sample_member_def d_pk_def)
  then have "?r = (Inr (), snd ?r)" by (metis prod.collapse)
  moreover have "pk cap_token (capabilities (db linking_host))" by (simp add: linking_host_def)
  ultimately show ?thesis using device_capability_single_use [of sample_world "''cat''" "''kc2''" link_text linking_host]
    by blast
qed

text \<open>
  Ownership is not exclusive. The permission document excludes two owners, yet an owner may assign
  \<open>role-owner\<close> to another member like any role: the assignment succeeds and both hold it afterwards.
\<close>

theorem two_owners_possible:
  assumes "community_ok (db s)"
    and "get_member (db s) a = Some actor" and "m_role actor = ''role-owner''"
    and "get_member (db s) x = Some target" and "m_role target \<noteq> ''role-owner''"
  shows "\<exists>s' t'. roleAssign a x ''role-owner'' s = (Inr (), s')
      \<and> get_member (db s') a = Some actor \<and> get_member (db s') x = Some t' \<and> m_role t' = ''role-owner''"
proof -
  obtain ar tr where r: "get_role (db s) (m_role actor) = Some ar" "get_role (db s) (m_role target) = Some tr"
    using role_of_member [OF assms(1)] assms(2,4) by blast
  have "role_level tr < 100" using role_level_owner(1) [OF assms(1) r(2)] assms(5) by simp
  with r assms(3) have may: "may_modify (db s) actor target Assign_roles = Inr True"
    by (simp add: may_modify_def canModify_def memberContext_def)
  let ?s' = "emit StateChanged (db_update (\<lambda>d. appendOp (OpRoleAssign x ''role-owner'') (set_role x ''role-owner'' d)) s)"
  have "roleAssign a x ''role-owner'' s = (Inr (), ?s')"
    using assms(2,3,4) r(1) may by (simp add: roleAssign_def Let_def)
  moreover have "x \<noteq> a" using assms by auto
  then have "get_member (db ?s') a = Some actor" "get_member (db ?s') x = Some (target\<lparr>m_role := ''role-owner''\<rparr>)"
    using assms(2,4) get_row_Some [of m_id x "members (db s)" target] get_row_Some [of m_id a "members (db s)" actor]
    by (simp_all add: get_member_def op_defs set_role_def get_row_upd)
  ultimately show ?thesis by (intro exI [of _ ?s'] exI [of _ "target\<lparr>m_role := ''role-owner''\<rparr>"]) simp
qed

theorem two_owners_possible_witness:
  "\<exists>s' t'. roleAssign ''ann'' ''cat'' ''role-owner'' sample_host = (Inr (), s')
      \<and> get_member (db s') ''ann'' = Some (sample_member ''ann'' ''role-owner'')
      \<and> get_member (db s') ''cat'' = Some t' \<and> m_role t' = ''role-owner''"
  by (rule two_owners_possible [where target = "sample_member ''cat'' ''role-member''"])
    (simp_all add: sample_host_def sample_community_ok, simp_all add: sample_member_def)

end
