(* ===== verification/Grants.thy ===== *)
theory Grants
  imports Membership
begin

text \<open>
  Bridges and host grants (\<open>apps/janjanode/src/server.service.ts\<close>): which bridges the environment
  configures, the grant of the running host, host candidates, and the creation, acceptance, revocation and
  use of grants.
\<close>

section \<open>Configured bridges\<close>

text \<open>The descriptors that verify now, by bridge id.\<close>

definition trustedBridgePublicKeys :: "world \<Rightarrow> (string \<times> string) list" where
  "trustedBridgePublicKeys w =
     foldl (\<lambda>m e. case e of
         None \<Rightarrow> m
       | Some v \<Rightarrow>
           (case verifySignedBridgeDescriptor w v (now w) of
              None \<Rightarrow> m
            | Some d \<Rightarrow> map_set (bd_bridge (s_payload d)) (s_key d) m))
       [] (bridge_descriptors w)"

definition configuredBridgeHints :: "world \<Rightarrow> bridge_descriptor signed list" where
  "configuredBridgeHints w =
     List.map_filter (\<lambda>e. case e of None \<Rightarrow> None | Some v \<Rightarrow> verifySignedBridgeDescriptor w v (now w))
       (take 3 (bridge_descriptors w))"

definition configuredBridgePairings :: "world \<Rightarrow> (string \<times> string) list" where
  "configuredBridgePairings w =
     foldl (\<lambda>m e. case e of
         None \<Rightarrow> m
       | Some b \<Rightarrow> if BridgePairingBindingSchema b then map_set (pb_bridge b) (pb_token b) m else m)
       [] (take 3 (bridge_pairings w))"

record bridge_target =
  tg_bridge :: string
  tg_rendezvous :: string
  tg_signaling :: string
  tg_pairing :: "string option"

definition tls_endpoint :: "string \<Rightarrow> bool" where
  "tls_endpoint e \<longleftrightarrow> take 6 e = ''wss://'' \<or> take 8 e = ''https://''"

definition loopback_host :: "string \<Rightarrow> bool" where
  "loopback_host h \<longleftrightarrow> h \<in> {''127.0.0.1'', ''localhost'', ''::1''}"

text \<open>An endpoint of a verified descriptor parses; \<open>render_url\<close> writes the parsed URL again.\<close>

definition bridge_target_of :: "world \<Rightarrow> bridge_descriptor signed \<Rightarrow> bridge_target option" where
  "bridge_target_of w d =
     (case List.find tls_endpoint (bd_endpoints (s_payload d)) of
        None \<Rightarrow> None
      | Some e \<Rightarrow>
          (let host = (case parse_url w e of None \<Rightarrow> [] | Some u \<Rightarrow> u_hostname u);
               protocol = (if allow_loopback_downgrade w \<and> loopback_host host then ''ws:'' else ''wss:'');
               token = map_of (configuredBridgePairings w) (bd_bridge (s_payload d))
           in Some \<lparr>tg_bridge = bd_bridge (s_payload d),
                    tg_rendezvous = render_url w e protocol ''/rendezvous'',
                    tg_signaling = render_url w e ''wss:'' ''/signaling'',
                    tg_pairing = (if truthy_str token then token else None)\<rparr>))"

definition bridgeRegistrationTargets :: "world \<Rightarrow> bridge_target list" where
  "bridgeRegistrationTargets w = take 3 (List.map_filter (bridge_target_of w) (configuredBridgeHints w))"

definition configuredRegistrationBridgeIds :: "world \<Rightarrow> string list" where
  "configuredRegistrationBridgeIds w =
     (let targets = map snd (foldl (\<lambda>m t. map_set (tg_rendezvous t) t m) [] (bridgeRegistrationTargets w))
      in if targets \<noteq> [] then sort (map tg_bridge targets)
         else if legacy_rendezvous w then [''legacy''] else [])"

text \<open>The witnesses a new grant names: the trusted bridges, when there are at least two.\<close>

definition grant_witnesses :: "world \<Rightarrow> string list option" where
  "grant_witnesses w =
     (if length (trustedBridgePublicKeys w) \<ge> 2 then Some (sort (map fst (trustedBridgePublicKeys w))) else None)"

section \<open>The grant of the running host\<close>

definition authorityFingerprint :: "world \<Rightarrow> db \<Rightarrow> exn + string" where
  "authorityFingerprint w d =
     (case authorityPublicKey d of Inl e \<Rightarrow> Inl e | Inr k \<Rightarrow> ed25519Fingerprint w k)"

definition grant_generation :: "host_grant \<Rightarrow> int" where
  "grant_generation g =
     max (gp_generation (hg_payload g)) (case hg_revocation g of None \<Rightarrow> 0 | Some (r, _) \<Rightarrow> rv_generation r)"

definition currentHostGeneration :: "db \<Rightarrow> string \<Rightarrow> int" where
  "currentHostGeneration d hostId =
     foldl (\<lambda>m g. max m (grant_generation g)) 0 (filter (\<lambda>g. hg_host g = hostId) (host_grants d))"

definition nextHostGeneration :: "db \<Rightarrow> string \<Rightarrow> int" where
  "nextHostGeneration d hostId = currentHostGeneration d hostId + 1"

definition row_grant :: "string \<Rightarrow> host_grant \<Rightarrow> grant_payload signed" where
  "row_grant authority g = \<lparr>s_payload = hg_payload g, s_key = authority, s_signature = hg_signature g\<rparr>"

text \<open>The newest accepted grant for a host key that still verifies for this community.\<close>

definition stored_host_grant :: "world \<Rightarrow> db \<Rightarrow> string \<Rightarrow> exn + (grant_payload signed) option" where
  "stored_host_grant w d key =
     (case newest_first hg_created
             (filter (\<lambda>g. hg_device_key g = key \<and> hg_accepted g \<noteq> None \<and> hg_revoked g = None \<and> hg_expires g > now w)
                (host_grants d)) of
        [] \<Rightarrow> Inr None
      | g # _ \<Rightarrow>
          (case authorityPublicKey d of
             Inl e \<Rightarrow> Inl e
           | Inr k \<Rightarrow>
               (case verifySignedHostGrant w (row_grant k g) k (now w) of
                  None \<Rightarrow> Inr None
                | Some v \<Rightarrow>
                    if gp_server (s_payload v) = server_id w \<and> Register \<in> set (gp_caps (s_payload v))
                    then Inr (Some v) else Inr None)))"

definition all_capabilities :: "host_capability list" where
  "all_capabilities = [Register, Replicate, Promote]"

definition grant_row :: "grant_payload signed \<Rightarrow> string \<Rightarrow> int \<Rightarrow> int option \<Rightarrow> host_grant" where
  "grant_row v enrollKey createdAt acceptedAt =
     (let p = s_payload v in
      \<lparr>hg_id = gp_grant p, hg_subject = gp_subject p, hg_host = gp_host p, hg_subject_key = gp_subject_key p,
       hg_device_key = gp_device_key p, hg_enroll_key = enrollKey, hg_caps = gp_caps p, hg_payload = p,
       hg_signature = s_signature v, hg_expires = gp_expires p, hg_created = createdAt, hg_accepted = acceptedAt,
       hg_revoked = None, hg_revocation = None\<rparr>)"

text \<open>The owner's host issues its own grant the first time it needs one.\<close>

definition issue_primary_grant ::
    "world \<Rightarrow> string \<Rightarrow> string \<Rightarrow> host \<Rightarrow> (string \<times> grant_payload signed) result \<times> host" where
  "issue_primary_grant w newId hostSeed s =
     (case read_seed (authority_seed w) of
        Inl e \<Rightarrow> (Inl (Throws e), s)
      | Inr None \<Rightarrow> (Inl (Fail Forbidden), s)
      | Inr (Some authoritySeed) \<Rightarrow>
          (case owner_public_key w of
             None \<Rightarrow> (Inl (Fail Forbidden), s)
           | Some ownerKey \<Rightarrow>
               if ownerKey = [] \<or> \<not> isAuthorizedDevice (db s) (owner_identity w) ownerKey
               then (Inl (Fail Forbidden), s)
               else
                 (let hostKey = public_key w hostSeed;
                      hostId = ''primary-'' @ take 24 (fingerprint w hostKey)
                  in case createSignedHostGrant w
                         \<lparr>gp_grant = newId, gp_server = server_id w, gp_issuer = owner_identity w,
                          gp_subject = owner_identity w, gp_subject_key = ownerKey, gp_device_key = hostKey,
                          gp_host = hostId, gp_caps = all_capabilities, gp_witness = grant_witnesses w,
                          gp_generation = nextHostGeneration (db s) hostId, gp_issued = now w,
                          gp_expires = now w + 10 * 365 * 24 * 3600000\<rparr> authoritySeed of
                       Inl e \<Rightarrow> (Inl (Throws e), s)
                     | Inr v \<Rightarrow>
                         (case ins_row hg_id (grant_row v [] (now w) (Some (now w))) (host_grants (db s)) of
                            None \<Rightarrow> (Inl (Throws ConstraintError), s)
                          | Some t \<Rightarrow>
                              (Inr (hostSeed, v),
                               db_update (\<lambda>d. appendOp (OpHostGrantCreate newId (owner_identity w) hostId)
                                 (d\<lparr>host_grants := t\<rparr>)) s)))))"

definition currentHostGrant :: "world \<Rightarrow> string \<Rightarrow> host \<Rightarrow> (string \<times> grant_payload signed) result \<times> host" where
  "currentHostGrant w newId s =
     (case read_seed (host_seed w) of
        Inl e \<Rightarrow> (Inl (Throws e), s)
      | Inr None \<Rightarrow> (Inl (Fail Unavailable), s)
      | Inr (Some hostSeed) \<Rightarrow>
          (case stored_host_grant w (db s) (public_key w hostSeed) of
             Inl e \<Rightarrow> (Inl (Throws e), s)
           | Inr (Some v) \<Rightarrow> (Inr (hostSeed, v), s)
           | Inr None \<Rightarrow> issue_primary_grant w newId hostSeed s))"

text \<open>What the host answers to the opening of an authentication.\<close>

definition signedAuthChallenge ::
    "world \<Rightarrow> string \<Rightarrow> string \<Rightarrow> string \<Rightarrow> int \<Rightarrow> host \<Rightarrow> (exn + (error_code + host_challenge signed)) \<times> host" where
  "signedAuthChallenge w newId challengeId nonce expiresAt s =
     (case currentHostGrant w newId s of
        (Inl (Throws e), s1) \<Rightarrow> (Inl e, s1)
      | (Inl (Fail code), s1) \<Rightarrow> (Inr (Inl code), s1)
      | (Inr (hostSeed, g), s1) \<Rightarrow>
          (case authorityFingerprint w (db s1) of
             Inl e \<Rightarrow> (Inl e, s1)
           | Inr fp \<Rightarrow>
               (case createSignedHostAuthChallenge w
                    \<lparr>ha_server = server_id w, ha_authority = fp, ha_host = gp_host (s_payload g),
                     ha_grant = gp_grant (s_payload g), ha_challenge = challengeId, ha_nonce = nonce,
                     ha_issued = now w, ha_expires = expiresAt\<rparr> hostSeed of
                  Inl e \<Rightarrow> (Inl e, s1)
                | Inr v \<Rightarrow> (Inr (Inr v), s1))))"

record bridge_access =
  ba_bridge :: string
  ba_server :: string
  ba_host :: string
  ba_grant :: string
  ba_proof :: string
  ba_issued :: int
  ba_expires :: int

definition bridge_access_json :: "bridge_access \<Rightarrow> json" where
  "bridge_access_json p = JObj
     [(''version'', JNum 1), (''bridgeId'', JStr (ba_bridge p)), (''serverId'', JStr (ba_server p)),
      (''hostId'', JStr (ba_host p)), (''grantId'', JStr (ba_grant p)), (''slot'', JStr ''registration''),
      (''proofId'', JStr (ba_proof p)), (''issuedAt'', JNum (ba_issued p)), (''expiresAt'', JNum (ba_expires p))]"

definition BRIDGE_ACCESS_DOMAIN :: string where "BRIDGE_ACCESS_DOMAIN = ''janjacord.bridge-access.v1''"

definition createBridgeAccessRequest ::
    "world \<Rightarrow> string \<Rightarrow> string \<Rightarrow> string \<Rightarrow> host
     \<Rightarrow> (string \<times> grant_payload signed \<times> bridge_access signed) result \<times> host" where
  "createBridgeAccessRequest w newGrantId proofId bridgeId s =
     (case currentHostGrant w newGrantId s of
        (Inl e, s1) \<Rightarrow> (Inl e, s1)
      | (Inr (hostSeed, g), s1) \<Rightarrow>
          (let payload = \<lparr>ba_bridge = bridgeId, ba_server = server_id w, ba_host = gp_host (s_payload g),
                          ba_grant = gp_grant (s_payload g), ba_proof = proofId, ba_issued = now w,
                          ba_expires = now w + 30000\<rparr>
           in case authorityPublicKey (db s1) of
                Inl e \<Rightarrow> (Inl (Throws e), s1)
              | Inr k \<Rightarrow>
                  (case signCanonicalPayload w hostSeed BRIDGE_ACCESS_DOMAIN (bridge_access_json payload) of
                     Inl e \<Rightarrow> (Inl (Throws e), s1)
                   | Inr sig \<Rightarrow>
                       (Inr (k, g, \<lparr>s_payload = payload, s_key = gp_device_key (s_payload g), s_signature = sig\<rparr>), s1))))"

text \<open>The direct routes of an invite, signed by the authority for the running host.\<close>

definition route_id_json :: "world \<Rightarrow> string \<Rightarrow> string \<Rightarrow> route_config \<Rightarrow> json" where
  "route_id_json w hostId hostKey r = JObj
     [(''provider'', JStr (provider_name (rc_provider r))), (''endpoint'', JStr (rc_endpoint r)),
      (''stable'', JBool (rc_stable r)), (''serverId'', JStr (server_id w)), (''hostId'', JStr hostId),
      (''hostPublicKey'', JStr hostKey)]"

fun sign_routes ::
    "world \<Rightarrow> string \<Rightarrow> string \<Rightarrow> string \<Rightarrow> route_config list \<Rightarrow> (route_hint signed list) result" where
  "sign_routes w authoritySeed hostId hostKey [] = Inr []"
| "sign_routes w authoritySeed hostId hostKey (r # rs) =
     (if rc_expires r \<le> now w then Inl (Fail Invalid_input)
      else case createSignedDirectRouteHint w
             \<lparr>rh_provider = rc_provider r,
              rh_route = ''route-'' @ take 32 (sha256Hex w (canonicalJson (route_id_json w hostId hostKey r))),
              rh_endpoint = rc_endpoint r, rh_server = server_id w, rh_host = hostId, rh_host_key = hostKey,
              rh_stable = Some (rc_stable r), rh_issued = now w, rh_expires = rc_expires r\<rparr> authoritySeed of
          Inl e \<Rightarrow> Inl (Throws e)
        | Inr v \<Rightarrow>
            (case sign_routes w authoritySeed hostId hostKey rs of
               Inl e \<Rightarrow> Inl e
             | Inr vs \<Rightarrow> Inr (v # vs)))"

definition configuredDirectRouteHints ::
    "world \<Rightarrow> string \<Rightarrow> string \<Rightarrow> host \<Rightarrow> (route_hint signed list) result \<times> host" where
  "configuredDirectRouteHints w newId authoritySeed s =
     (case direct_routes w of
        RoutesUnset \<Rightarrow> (Inr [], s)
      | RoutesTooLong \<Rightarrow> (Inl (Fail Invalid_input), s)
      | RoutesNotJson \<Rightarrow> (Inl (Fail Invalid_input), s)
      | RoutesOtherShape \<Rightarrow> (Inl (Fail Invalid_input), s)
      | Routes rs \<Rightarrow>
          if \<not> DirectRouteHintsConfigSchema w rs then (Inl (Fail Invalid_input), s)
          else if rs = [] then (Inr [], s)
          else (case currentHostGrant w newId s of
                  (Inl e, s1) \<Rightarrow> (Inl e, s1)
                | (Inr (hostSeed, g), s1) \<Rightarrow>
                    (sign_routes w authoritySeed (gp_host (s_payload g)) (public_key w hostSeed) rs, s1)))"

section \<open>Possession proofs\<close>

record possession_proof =
  po_id :: string
  po_issued :: int
  po_signature :: string

definition HOST_POSSESSION_DOMAIN :: string where "HOST_POSSESSION_DOMAIN = ''janjacord.host-possession.v1''"
definition HOST_CANDIDATE_DEVICE_DOMAIN :: string where
  "HOST_CANDIDATE_DEVICE_DOMAIN = ''janjacord.host-candidate-device.v1''"
definition HOST_CANDIDATE_POSSESSION_DOMAIN :: string where
  "HOST_CANDIDATE_POSSESSION_DOMAIN = ''janjacord.host-candidate-possession.v1''"

text \<open>A proof is fresh for thirty seconds around its issue, and its signature is 64 canonical bytes.\<close>

definition proof_signed :: "world \<Rightarrow> string \<Rightarrow> string \<Rightarrow> json \<Rightarrow> possession_proof \<Rightarrow> bool" where
  "proof_signed w key domain payload p =
     (if \<not> is_safe_integer (po_issued p) \<or> \<bar>now w - po_issued p\<bar> > 30000 then False
      else if base64url_bytes (po_signature p) \<noteq> 64 \<or> \<not> canonical_base64url (po_signature p) then False
      else verifyCanonicalPayload w key domain payload (po_signature p))"

definition possession_json :: "world \<Rightarrow> string \<Rightarrow> grant_payload \<Rightarrow> string \<Rightarrow> possession_proof \<Rightarrow> json" where
  "possession_json w purpose g enrollKey p = JObj
     [(''purpose'', JStr purpose), (''serverId'', JStr (server_id w)), (''grantId'', JStr (gp_grant g)),
      (''subjectIdentityId'', JStr (gp_subject g)), (''subjectAuthPublicKey'', JStr (gp_subject_key g)),
      (''hostPublicKey'', JStr (gp_device_key g)), (''enrollmentPublicKey'', JStr enrollKey),
      (''proofId'', JStr (po_id p)), (''issuedAt'', JNum (po_issued p))]"

definition verifyHostPossession :: "world \<Rightarrow> string \<Rightarrow> grant_payload signed \<Rightarrow> string \<Rightarrow> possession_proof \<Rightarrow> bool" where
  "verifyHostPossession w purpose g enrollKey p =
     proof_signed w (gp_device_key (s_payload g)) HOST_POSSESSION_DOMAIN
       (possession_json w purpose (s_payload g) enrollKey p) p"

text \<open>A proof id is used once; \<open>None\<close> is the violated primary key.\<close>

definition consumeSecurityProof :: "world \<Rightarrow> string \<Rightarrow> string \<Rightarrow> db \<Rightarrow> db option" where
  "consumeSecurityProof w proofId purpose d =
     map_option (\<lambda>t. d\<lparr>security_proofs := t\<rparr>)
       (ins_row pf_id \<lparr>pf_id = proofId, pf_purpose = purpose, pf_consumed = now w\<rparr> (security_proofs d))"

section \<open>Candidates\<close>

definition candidate_json :: "world \<Rightarrow> string \<Rightarrow> string \<Rightarrow> string \<Rightarrow> string \<Rightarrow> string \<Rightarrow> possession_proof \<Rightarrow> json" where
  "candidate_json w subject subjectKey hostKey enrollKey hostId p = JObj
     [(''serverId'', JStr (server_id w)), (''subjectIdentityId'', JStr subject),
      (''subjectAuthPublicKey'', JStr subjectKey), (''hostPublicKey'', JStr hostKey),
      (''enrollmentPublicKey'', JStr enrollKey), (''hostId'', JStr hostId),
      (''proofId'', JStr (po_id p)), (''issuedAt'', JNum (po_issued p))]"

text \<open>The transaction of \<open>hostCandidateRegister\<close>: any failure inside rolls all of it back.\<close>

definition insert_candidate ::
    "world \<Rightarrow> host_candidate \<Rightarrow> possession_proof \<Rightarrow> possession_proof \<Rightarrow> db \<Rightarrow> db option" where
  "insert_candidate w c deviceProof hostProof d =
     (case consumeSecurityProof w (po_id deviceProof) ''candidate-device'' d of
        None \<Rightarrow> None
      | Some d1 \<Rightarrow>
          (case consumeSecurityProof w (po_id hostProof) ''candidate-host'' d1 of
             None \<Rightarrow> None
           | Some d2 \<Rightarrow>
               map_option (\<lambda>t. appendOp (OpHostCandidateRegister (hc_id c) (hc_subject c) (hc_host c))
                   (d2\<lparr>host_candidates := t\<rparr>)) (ins_row hc_id c (host_candidates d2))))"

definition hostCandidateRegister ::
    "world \<Rightarrow> string \<Rightarrow> string \<Rightarrow> string \<Rightarrow> string \<Rightarrow> string \<Rightarrow> string \<Rightarrow> possession_proof \<Rightarrow> possession_proof \<Rightarrow> host
     \<Rightarrow> candidate_view option result \<times> host" where
  "hostCandidateRegister w newId actorId subjectKey hostKey enrollKey hostId deviceProof hostProof s =
     (if \<not> isMember (db s) actorId \<or> \<not> isAuthorizedDevice (db s) actorId subjectKey
      then (Inl (Fail Forbidden), s)
      else if hostKey = subjectKey then (Inl (Fail Invalid_input), s)
      else if base64url_bytes enrollKey \<noteq> 32 \<or> \<not> canonical_base64url enrollKey then (Inl (Fail Invalid_input), s)
      else if \<not> proof_signed w subjectKey HOST_CANDIDATE_DEVICE_DOMAIN
                (candidate_json w actorId subjectKey hostKey enrollKey hostId deviceProof) deviceProof
      then (Inl (Fail Unauthorized), s)
      else if \<not> proof_signed w hostKey HOST_CANDIDATE_POSSESSION_DOMAIN
                (candidate_json w actorId subjectKey hostKey enrollKey hostId hostProof) hostProof
      then (Inl (Fail Unauthorized), s)
      else case insert_candidate w
              \<lparr>hc_id = newId, hc_subject = actorId, hc_subject_key = subjectKey, hc_host_key = hostKey,
               hc_enroll_key = enrollKey, hc_host = hostId, hc_created = now w,
               hc_expires = now w + 30 * 24 * 3600000, hc_revoked = None\<rparr> deviceProof hostProof (db s) of
          None \<Rightarrow> (Inl (Fail Conflict), s)
        | Some d \<Rightarrow>
            (let s1 = emit StateChanged (s\<lparr>db := d\<rparr>) in
             (Inr (List.find (\<lambda>v. cv_id v = newId) (hostCandidateRows (db s1) (now w) (Some actorId))), s1)))"

section \<open>Grants\<close>

definition hostGrantCreate ::
    "world \<Rightarrow> string \<Rightarrow> string \<Rightarrow> string \<Rightarrow> string \<Rightarrow> host_capability list \<Rightarrow> int option \<Rightarrow> host
     \<Rightarrow> (grant_payload signed \<times> string) result \<times> host" where
  "hostGrantCreate w newId actorId subject candidateId caps expiresInMs s =
     (case require_permission (db s) actorId Manage_hosts of
        Inl e \<Rightarrow> (Inl e, s)
      | Inr _ \<Rightarrow>
          if \<not> isMember (db s) subject then (Inl (Fail Not_found), s)
          else case List.find (\<lambda>v. cv_id v = candidateId \<and> cv_status v \<notin> {Revoked, Expired})
                      (hostCandidateRows (db s) (now w) (Some subject)) of
              None \<Rightarrow> (Inl (Fail Forbidden), s)
            | Some c \<Rightarrow>
                (case read_seed (authority_seed w) of
                   Inl e \<Rightarrow> (Inl (Throws e), s)
                 | Inr None \<Rightarrow> (Inl (Fail Forbidden), s)
                 | Inr (Some authoritySeed) \<Rightarrow>
                     (case createSignedHostGrant w
                          \<lparr>gp_grant = newId, gp_server = server_id w, gp_issuer = actorId, gp_subject = subject,
                           gp_subject_key = cv_subject_key c, gp_device_key = cv_host_key c, gp_host = cv_host c,
                           gp_caps = caps, gp_witness = grant_witnesses w,
                           gp_generation = nextHostGeneration (db s) (cv_host c), gp_issued = now w,
                           gp_expires = now w + (case expiresInMs of None \<Rightarrow> 365 * 24 * 3600000 | Some n \<Rightarrow> n)\<rparr>
                          authoritySeed of
                        Inl e \<Rightarrow> (Inl (Throws e), s)
                      | Inr v \<Rightarrow>
                          (case ins_row hg_id (grant_row v (cv_enroll_key c) (now w) None) (host_grants (db s)) of
                             None \<Rightarrow> (Inl (Throws ConstraintError), s)
                           | Some t \<Rightarrow>
                               (Inr (v, candidateId),
                                emit StateChanged (db_update (\<lambda>d. appendOp (OpHostGrantCreate newId subject (cv_host c))
                                  (d\<lparr>host_grants := t\<rparr>)) s))))))"

definition hostGrantRevoke ::
    "world \<Rightarrow> string \<Rightarrow> string \<Rightarrow> string option \<Rightarrow> host \<Rightarrow> revocation signed result \<times> host" where
  "hostGrantRevoke w actorId grantId reason s =
     (case require_permission (db s) actorId Manage_hosts of
        Inl e \<Rightarrow> (Inl e, s)
      | Inr _ \<Rightarrow>
          (case read_seed (authority_seed w) of
             Inl e \<Rightarrow> (Inl (Throws e), s)
           | Inr None \<Rightarrow> (Inl (Fail Forbidden), s)
           | Inr (Some authoritySeed) \<Rightarrow>
               (case get_row hg_id grantId (host_grants (db s)) of
                  None \<Rightarrow> (Inl (Fail Not_found), s)
                | Some g \<Rightarrow>
                    if truthy_num (hg_revoked g) then (Inl (Fail Conflict), s)
                    else case createSignedHostGrantRevocation w
                           \<lparr>rv_grant = grantId, rv_server = server_id w, rv_host = hg_host g, rv_issuer = actorId,
                            rv_at = now w, rv_generation = nextHostGeneration (db s) (hg_host g),
                            rv_reason = (if truthy_str reason then reason else None)\<rparr> authoritySeed of
                        Inl e \<Rightarrow> (Inl (Throws e), s)
                      | Inr v \<Rightarrow>
                          (Inr v, emit StateChanged (emit (HostGrantRevoked v)
                             (db_update (\<lambda>d. appendOp (OpHostGrantRevoke grantId (now w))
                                (host_grants_update (upd_rows (\<lambda>x. hg_id x = grantId)
                                   (\<lambda>x. x\<lparr>hg_revoked := Some (now w),
                                          hg_revocation := Some (s_payload v, s_signature v)\<rparr>)) d)) s))))))"

text \<open>The transaction of \<open>hostGrantAccept\<close>\<close>

definition accept_grant :: "world \<Rightarrow> string \<Rightarrow> string \<Rightarrow> string \<Rightarrow> db \<Rightarrow> db option" where
  "accept_grant w proofId grantId actorId d =
     map_option (\<lambda>d1. appendOp (OpHostGrantAccept grantId actorId (now w))
         (host_grants_update (upd_rows (\<lambda>g. hg_id g = grantId) (\<lambda>g. g\<lparr>hg_accepted := Some (now w)\<rparr>)) d1))
       (consumeSecurityProof w proofId ''grant-accept'' d)"

definition hostGrantAccept ::
    "world \<Rightarrow> string \<Rightarrow> string \<Rightarrow> string \<Rightarrow> possession_proof \<Rightarrow> host \<Rightarrow> unit result \<times> host" where
  "hostGrantAccept w actorId deviceKey grantId hostProof s =
     (if \<not> isMember (db s) actorId \<or> \<not> isAuthorizedDevice (db s) actorId deviceKey then (Inl (Fail Forbidden), s)
      else case get_row hg_id grantId (host_grants (db s)) of
          None \<Rightarrow> (Inl (Fail Not_found), s)
        | Some g \<Rightarrow>
            if hg_subject g \<noteq> actorId \<or> hg_subject_key g \<noteq> deviceKey then (Inl (Fail Forbidden), s)
            else if truthy_num (hg_revoked g) \<or> hg_expires g \<le> now w then (Inl (Fail Forbidden), s)
            else case authorityPublicKey (db s) of
                Inl e \<Rightarrow> (Inl (Throws e), s)
              | Inr k \<Rightarrow>
                  if (case verifySignedHostGrant w (row_grant k g) k (now w) of
                        None \<Rightarrow> True
                      | Some v \<Rightarrow> \<not> verifyHostPossession w ''accept'' v (hg_enroll_key g) hostProof)
                  then (Inl (Fail Unauthorized), s)
                  else if truthy_num (hg_accepted g) then (Inl (Fail Conflict), s)
                  else case accept_grant w (po_id hostProof) grantId actorId (db s) of
                      None \<Rightarrow> (Inl (Fail Conflict), s)
                    | Some d \<Rightarrow> (Inr (), emit StateChanged (s\<lparr>db := d\<rparr>)))"

definition activeHostGrant ::
    "world \<Rightarrow> string \<Rightarrow> string \<Rightarrow> string \<Rightarrow> host_capability \<Rightarrow> db \<Rightarrow> grant_payload signed result" where
  "activeHostGrant w actorId subjectKey grantId cap d =
     (if \<not> isMember d actorId \<or> \<not> isAuthorizedDevice d actorId subjectKey then Inl (Fail Forbidden)
      else case get_row hg_id grantId (host_grants d) of
          None \<Rightarrow> Inl (Fail Forbidden)
        | Some g \<Rightarrow>
            if hg_subject g \<noteq> actorId \<or> hg_subject_key g \<noteq> subjectKey \<or> \<not> truthy_num (hg_accepted g)
               \<or> truthy_num (hg_revoked g) \<or> hg_expires g \<le> now w then Inl (Fail Forbidden)
            else case authorityPublicKey d of
                Inl e \<Rightarrow> Inl (Throws e)
              | Inr k \<Rightarrow>
                  (case verifySignedHostGrant w (row_grant k g) k (now w) of
                     None \<Rightarrow> Inl (Fail Forbidden)
                   | Some v \<Rightarrow>
                       let p = s_payload v in
                       if gp_server p \<noteq> server_id w \<or> gp_grant p \<noteq> grantId \<or> gp_subject p \<noteq> actorId
                          \<or> gp_subject_key p \<noteq> subjectKey \<or> gp_device_key p \<noteq> hg_device_key g
                          \<or> gp_host p \<noteq> hg_host g \<or> cap \<notin> set (gp_caps p) then Inl (Fail Forbidden)
                       else if gp_generation p \<noteq> currentHostGeneration d (gp_host p) then Inl (Fail Forbidden)
                       else Inr v))"

definition row_revocation :: "string \<Rightarrow> host_grant \<Rightarrow> revocation signed option" where
  "row_revocation k g =
     map_option (\<lambda>(r, sig). \<lparr>s_payload = r, s_key = k, s_signature = sig\<rparr>) (hg_revocation g)"

record grant_listing =
  gl_grants :: "(grant_view \<times> grant_payload signed \<times> revocation signed option) list"
  gl_candidates :: "candidate_view list"
  gl_devices :: "(string \<times> string \<times> string \<times> int) list"

definition hostGrantList :: "world \<Rightarrow> string \<Rightarrow> db \<Rightarrow> grant_listing result" where
  "hostGrantList w actorId d =
     (case require_permission d actorId Manage_hosts of
        Inl e \<Rightarrow> Inl e
      | Inr _ \<Rightarrow>
          let rows = hostGrantRows d None;
              listing = (\<lambda>k. \<lparr>gl_grants = map (\<lambda>g. (publicHostGrant (now w) g, row_grant k g, row_revocation k g)) rows,
                             gl_candidates = hostCandidateRows d (now w) None,
                             gl_devices = eligibleHostDevices d None\<rparr>)
          in if rows = [] then Inr (listing [])
             else case authorityPublicKey d of
                 Inl e \<Rightarrow> Inl (Throws e)
               | Inr k \<Rightarrow> Inr (listing k))"

definition hostRevocations :: "db \<Rightarrow> exn + revocation signed list" where
  "hostRevocations d =
     (let rows = filter (\<lambda>g. hg_revocation g \<noteq> None) (hostGrantRows d None)
      in if rows = [] then Inr []
         else case authorityPublicKey d of
             Inl e \<Rightarrow> Inl e
           | Inr k \<Rightarrow> Inr (List.map_filter (row_revocation k) rows))"

section \<open>What the handlers keep\<close>

text \<open>
  The columns of a grant repeat its payload, ids are unique, and no two grants of a host carry the same
  generation.
\<close>

definition row_consistent :: "host_grant \<Rightarrow> bool" where
  "row_consistent g \<longleftrightarrow> hg_id g = gp_grant (hg_payload g) \<and> hg_host g = gp_host (hg_payload g)
     \<and> hg_subject g = gp_subject (hg_payload g) \<and> hg_subject_key g = gp_subject_key (hg_payload g)
     \<and> hg_device_key g = gp_device_key (hg_payload g) \<and> hg_expires g = gp_expires (hg_payload g)"

definition hg_slot :: "host_grant \<Rightarrow> string \<times> int" where
  "hg_slot g = (hg_host g, gp_generation (hg_payload g))"

definition grants_ok :: "db \<Rightarrow> bool" where
  "grants_ok d \<longleftrightarrow>
     pk hg_id (host_grants d) \<and> pk hg_slot (host_grants d) \<and> pk pf_id (security_proofs d)
     \<and> pk hc_id (host_candidates d) \<and> list_all row_consistent (host_grants d)"

lemma foldl_max_ge:
  fixes f :: "'a \<Rightarrow> int"
  shows "m \<le> foldl (\<lambda>m x. max m (f x)) m xs \<and> (\<forall>x \<in> set xs. f x \<le> foldl (\<lambda>m x. max m (f x)) m xs)"
proof (induction xs arbitrary: m)
  case (Cons a xs)
  from Cons [of "max m (f a)"] show ?case by auto
qed simp

lemma grant_generation_le:
  assumes "g \<in> set (host_grants d)"
  shows "grant_generation g \<le> currentHostGeneration d (hg_host g)"
  using foldl_max_ge [of 0 grant_generation "filter (\<lambda>x. hg_host x = hg_host g) (host_grants d)"] assms
  by (simp add: currentHostGeneration_def)

lemma payload_generation_le:
  "g \<in> set (host_grants d) \<Longrightarrow> gp_generation (hg_payload g) \<le> currentHostGeneration d (hg_host g)"
  using grant_generation_le [of g d] by (simp add: grant_generation_def)

lemma grants_ok_add:
  assumes "grants_ok d" and "ins_row hg_id (grant_row v k c a) (host_grants d) = Some t"
    and "gp_generation (s_payload v) = nextHostGeneration d (gp_host (s_payload v))"
  shows "grants_ok (d\<lparr>host_grants := t\<rparr>)"
proof -
  let ?r = "grant_row v k c a"
  have t: "t = host_grants d @ [?r]" and new: "\<not> has_row hg_id (hg_id ?r) (host_grants d)"
    using assms(2) by (auto simp: ins_row_def split: if_splits)
  have r: "row_consistent ?r" "hg_host ?r = gp_host (s_payload v)" "hg_payload ?r = s_payload v"
    by (simp_all add: grant_row_def row_consistent_def Let_def)
  have "\<not> has_row hg_slot (hg_slot ?r) (host_grants d)"
  proof
    assume "has_row hg_slot (hg_slot ?r) (host_grants d)"
    then obtain g where "g \<in> set (host_grants d)" "hg_slot g = hg_slot ?r" by (auto simp: has_row_def)
    then show False
      using payload_generation_le [of g d] assms(3) r by (simp add: hg_slot_def nextHostGeneration_def)
  qed
  then show ?thesis using assms(1) new r by (simp add: grants_ok_def t pk_append)
qed

lemma grants_ok_upd:
  assumes "grants_ok d" and "\<And>g. hg_slot (f g) = hg_slot g" "\<And>g. hg_id (f g) = hg_id g"
    "\<And>g. row_consistent (f g) = row_consistent g"
  shows "grants_ok (host_grants_update (upd_rows P f) d)"
proof -
  have "list_all row_consistent (upd_rows P f (host_grants d))"
    using assms(1,4) by (auto simp: grants_ok_def list_all_iff set_upd)
  with assms(1-3) show ?thesis by (simp add: grants_ok_def pk_upd)
qed

lemma appendOp_eq: "appendOp op d = d\<lparr>op_log := op_log d @ [(max_seq d + 1, op)]\<rparr>"
  by (simp add: appendOp_def)

lemma grants_ok_frame [simp]:
  "grants_ok (appendOp op d) = grants_ok d"
  "grants_ok (d\<lparr>meta := m\<rparr>) = grants_ok d" "grants_ok (set_meta k v d) = grants_ok d"
  by (simp_all add: grants_ok_def appendOp_def set_meta_def)

lemma created_payload: "createSignedHostGrant w p k = Inr v \<Longrightarrow> s_payload v = p"
  by (auto simp: createSignedHostGrant_def create_signed_def signPayload_def split: if_splits sum.splits)

lemma issue_primary_step:
  assumes "issue_primary_grant w n hs s = (res, s')"
  shows "(\<exists>e. res = Inl e \<and> s' = s) \<or>
     (\<exists>v t. res = Inr (hs, v) \<and> ins_row hg_id (grant_row v [] (now w) (Some (now w))) (host_grants (db s)) = Some t
        \<and> gp_generation (s_payload v) = nextHostGeneration (db s) (gp_host (s_payload v))
        \<and> s' = db_update (\<lambda>d. appendOp (OpHostGrantCreate n (owner_identity w) (gp_host (s_payload v)))
              (d\<lparr>host_grants := t\<rparr>)) s)"
proof -
  have pay: "createSignedHostGrant w p k = Inr v \<Longrightarrow> s_payload v = p" for p k v
    by (auto simp: createSignedHostGrant_def create_signed_def signPayload_def split: if_splits sum.splits)
  from assms show ?thesis
    unfolding issue_primary_grant_def
    by (auto simp: Let_def dest!: pay split: sum.splits option.splits if_splits)
qed

lemma currentHostGrant_step:
  assumes "currentHostGrant w n s = (res, s')"
  shows "s' = s \<or> (\<exists>v t. ins_row hg_id (grant_row v [] (now w) (Some (now w))) (host_grants (db s)) = Some t
        \<and> gp_generation (s_payload v) = nextHostGeneration (db s) (gp_host (s_payload v))
        \<and> s' = db_update (\<lambda>d. appendOp (OpHostGrantCreate n (owner_identity w) (gp_host (s_payload v)))
              (d\<lparr>host_grants := t\<rparr>)) s)"
  using assms issue_primary_step [of w n _ s res s']
  by (auto simp: currentHostGrant_def split: sum.splits option.splits)

text \<open>Asking for the running host's grant leaves everything alone but the grants and the log.\<close>

lemma currentHostGrant_frame:
  assumes "currentHostGrant w n s = (res, s')"
  shows "\<exists>gs l. db s' = (db s)\<lparr>host_grants := gs, op_log := l\<rparr> \<and> s' = s\<lparr>db := db s'\<rparr>"
proof -
  have "\<exists>gs l. db s = (db s)\<lparr>host_grants := gs, op_log := l\<rparr>"
    by (rule exI [of _ "host_grants (db s)"], rule exI [of _ "op_log (db s)"]) simp
  moreover have "\<exists>gs l. appendOp op (db s\<lparr>host_grants := t\<rparr>) = (db s)\<lparr>host_grants := gs, op_log := l\<rparr>" for op t
    unfolding appendOp_eq by blast
  ultimately show ?thesis using currentHostGrant_step [OF assms] by auto
qed

text \<open>A state that differs at most in the grants and the log\<close>

definition only_grants :: "host \<Rightarrow> host \<Rightarrow> bool" where
  "only_grants s s' \<longleftrightarrow> (\<exists>gs l. s' = s\<lparr>db := (db s)\<lparr>host_grants := gs, op_log := l\<rparr>\<rparr>)"

lemma currentHostGrant_only: "currentHostGrant w n s = (res, s') \<Longrightarrow> only_grants s s'"
  unfolding only_grants_def using currentHostGrant_frame by metis

lemma only_grants_refl [simp]: "only_grants s s"
  unfolding only_grants_def
  by (rule exI [of _ "host_grants (db s)"], rule exI [of _ "op_log (db s)"]) simp

lemma only_gr_simps:
  assumes "only_grants s s'"
  shows "members (db s') = members (db s)" "roles (db s') = roles (db s)" "devices (db s') = devices (db s)"
    "bans (db s') = bans (db s)" "invites (db s') = invites (db s)" "channels (db s') = channels (db s)"
    "meta (db s') = meta (db s)" "spool (db s') = spool (db s)" "attachments (db s') = attachments (db s)"
    "chunks (db s') = chunks (db s)" "spool_usage (db s') = spool_usage (db s)"
    "replica_enrollments (db s') = replica_enrollments (db s)" "security_proofs (db s') = security_proofs (db s)"
    "host_record_chains (db s') = host_record_chains (db s)" "writer s' = writer s" "events s' = events s"
    "pendingRegistration s' = pendingRegistration s" "writerResumeEligibility s' = writerResumeEligibility s"
    "replay s' = replay s" "sequences s' = sequences s" "calls s' = calls s"
    "key_packages (db s') = key_packages (db s)" "welcomes (db s') = welcomes (db s)"
    "capabilities (db s') = capabilities (db s)" "host_candidates (db s') = host_candidates (db s)"
  using assms by (auto simp: only_grants_def)

lemma only_grants_community: "only_grants s s' \<Longrightarrow> same_community (db s) (db s')"
  by (simp add: same_community_def only_gr_simps)

lemma configuredDirectRouteHints_only:
  "configuredDirectRouteHints w n k s = (res, s') \<Longrightarrow> only_grants s s'"
  by (auto simp: configuredDirectRouteHints_def dest: currentHostGrant_only
      split: routes_setting.splits if_splits prod.splits sum.splits)

lemma currentHostGrant_ok:
  "grants_ok (db s) \<Longrightarrow> currentHostGrant w n s = (res, s') \<Longrightarrow> grants_ok (db s')"
  using grants_ok_add by (auto dest!: currentHostGrant_step)

lemma configuredDirectRouteHints_ok:
  "grants_ok (db s) \<Longrightarrow> configuredDirectRouteHints w n k s = (res, s') \<Longrightarrow> grants_ok (db s')"
  by (auto simp: configuredDirectRouteHints_def dest: currentHostGrant_ok
      split: routes_setting.splits if_splits prod.splits sum.splits)

text \<open>A proof identifier is consumed once, whatever it is presented for.\<close>

lemma consumed_proof:
  "consumeSecurityProof w i p d = Some d' \<Longrightarrow> has_row pf_id i (security_proofs d')"
  using proof_rows.get_ins [where r = "\<lparr>pf_id = i, pf_purpose = p, pf_consumed = now w\<rparr>" and k = i]
  by (auto simp: consumeSecurityProof_def has_row_iff)

lemma consume_used:
  "has_row pf_id i (security_proofs d) \<Longrightarrow> consumeSecurityProof w i p d = None"
  using proof_rows.ins_None [of "\<lparr>pf_id = i, pf_purpose = p, pf_consumed = now w\<rparr>" "security_proofs d"]
  by (auto simp: consumeSecurityProof_def has_row_iff)

lemma consume_ok: "grants_ok d \<Longrightarrow> consumeSecurityProof w i p d = Some d' \<Longrightarrow> grants_ok d'"
  by (auto simp: consumeSecurityProof_def grants_ok_def intro: pk_ins)

lemma hostCandidateRegister_ok:
  assumes "grants_ok (db s)" "hostCandidateRegister w n a k hk ek h dp hp s = (res, s')"
  shows "grants_ok (db s')"
proof -
  have "grants_ok d \<Longrightarrow> insert_candidate w c dp hp d = Some d' \<Longrightarrow> grants_ok d'" for c d d'
  proof -
    assume "grants_ok d" "insert_candidate w c dp hp d = Some d'"
    then obtain d1 d2 t op where c: "consumeSecurityProof w (po_id dp) ''candidate-device'' d = Some d1"
      "consumeSecurityProof w (po_id hp) ''candidate-host'' d1 = Some d2"
      "ins_row hc_id c (host_candidates d2) = Some t" "d' = appendOp op (d2\<lparr>host_candidates := t\<rparr>)"
      by (auto simp: insert_candidate_def split: option.splits)
    have "grants_ok d2" using \<open>grants_ok d\<close> c(1,2) consume_ok by blast
    then have "grants_ok (d2\<lparr>host_candidates := t\<rparr>)"
      using c(3) by (auto simp: grants_ok_def intro: pk_ins)
    with c(4) show "grants_ok d'" by simp
  qed
  then show ?thesis using assms
    by (auto simp: hostCandidateRegister_def Let_def split: if_splits option.splits)
qed

lemma hostGrantCreate_step:
  assumes "hostGrantCreate w n a x c caps e s = (res, s')"
  shows "(\<exists>err. res = Inl err \<and> s' = s) \<or>
     (\<exists>v t k. res = Inr (v, c) \<and> ins_row hg_id (grant_row v k (now w) None) (host_grants (db s)) = Some t
        \<and> gp_grant (s_payload v) = n \<and> gp_subject (s_payload v) = x
        \<and> gp_generation (s_payload v) = nextHostGeneration (db s) (gp_host (s_payload v))
        \<and> s' = emit StateChanged (db_update (\<lambda>d. appendOp (OpHostGrantCreate n x (gp_host (s_payload v)))
              (d\<lparr>host_grants := t\<rparr>)) s))"
proof (cases "\<exists>err. res = Inl err")
  case True
  with assms show ?thesis
    by (auto simp: hostGrantCreate_def Let_def split: sum.splits option.splits if_splits)
next
  case False
  with assms obtain p k v t k' where v: "createSignedHostGrant w p k = Inr v" "res = Inr (v, c)"
    "ins_row hg_id (grant_row v k' (now w) None) (host_grants (db s)) = Some t"
    and p: "gp_grant p = n" "gp_subject p = x" "gp_generation p = nextHostGeneration (db s) (gp_host p)"
    and s': "s' = emit StateChanged (db_update (\<lambda>d. appendOp (OpHostGrantCreate n x (gp_host p)) (d\<lparr>host_grants := t\<rparr>)) s)"
    unfolding hostGrantCreate_def by (fastforce simp: Let_def split: sum.splits option.splits if_splits)
  from created_payload [OF v(1)] v p s' show ?thesis by blast
qed

lemma hostGrantCreate_ok:
  "grants_ok (db s) \<Longrightarrow> hostGrantCreate w n a x c caps e s = (res, s') \<Longrightarrow> grants_ok (db s')"
  using grants_ok_add by (auto dest!: hostGrantCreate_step)

lemma hostGrantRevoke_ok:
  "grants_ok (db s) \<Longrightarrow> hostGrantRevoke w a g r s = (res, s') \<Longrightarrow> grants_ok (db s')"
  by (auto simp: hostGrantRevoke_def row_consistent_def hg_slot_def intro!: grants_ok_upd split: sum.splits option.splits if_splits)

lemma hostGrantAccept_ok:
  assumes "grants_ok (db s)" "hostGrantAccept w a k g p s = (res, s')"
  shows "grants_ok (db s')"
proof -
  have "grants_ok d \<Longrightarrow> accept_grant w i g a d = Some d' \<Longrightarrow> grants_ok d'" for i d d'
    by (auto simp: accept_grant_def row_consistent_def hg_slot_def intro!: grants_ok_upd dest: consume_ok)
  then show ?thesis using assms
    by (auto simp: hostGrantAccept_def split: if_splits option.splits sum.splits)
qed

section \<open>Properties\<close>

lemma active_row:
  assumes "activeHostGrant w a k i cap d = Inr v"
  shows "\<exists>g. get_row hg_id i (host_grants d) = Some g \<and> hg_subject g = a \<and> hg_subject_key g = k
     \<and> truthy_num (hg_accepted g) \<and> \<not> truthy_num (hg_revoked g) \<and> hg_payload g = s_payload v
     \<and> hg_host g = gp_host (s_payload v) \<and> gp_generation (s_payload v) = currentHostGeneration d (hg_host g)
     \<and> gp_server (s_payload v) = server_id w \<and> cap \<in> set (gp_caps (s_payload v))
     \<and> isMember d a \<and> isAuthorizedDevice d a k \<and> now w < gp_expires (s_payload v)"
proof -
  have pay: "verifySignedHostGrant w x y t = Some z \<Longrightarrow> z = x \<and> t < gp_expires (s_payload x)" for x y t z
    by (auto simp: verifySignedHostGrant_def split: if_splits)
  from assms show ?thesis
    unfolding activeHostGrant_def
    by (auto simp: Let_def row_grant_def dest!: pay split: if_splits option.splits sum.splits)
qed

lemma pk_unique: "pk key rs \<Longrightarrow> r \<in> set rs \<Longrightarrow> r' \<in> set rs \<Longrightarrow> key r = key r' \<Longrightarrow> r = r'"
  using get_row_pk by (metis option.inject)

text \<open>
  C33. A host has at most one usable grant: whatever two grants for the same host are accepted in the same
  database (for any capability, even at different times), they are one grant, used by the member and the
  device it is bound to.
\<close>

theorem one_usable_grant_per_host:
  assumes "grants_ok d"
    and "activeHostGrant w a k i cap d = Inr v" and "activeHostGrant w' a' k' i' cap' d = Inr v'"
    and "gp_host (s_payload v) = gp_host (s_payload v')"
  shows "i = i' \<and> a = a' \<and> k = k' \<and> s_payload v = s_payload v'"
proof -
  obtain g where g: "get_row hg_id i (host_grants d) = Some g" "hg_payload g = s_payload v"
      "hg_subject g = a" "hg_subject_key g = k" "hg_slot g = (gp_host (s_payload v), currentHostGeneration d (gp_host (s_payload v)))"
    using active_row [OF assms(2)] by (auto simp: hg_slot_def)
  obtain g' where g': "get_row hg_id i' (host_grants d) = Some g'" "hg_payload g' = s_payload v'"
      "hg_subject g' = a'" "hg_subject_key g' = k'" "hg_slot g' = (gp_host (s_payload v'), currentHostGeneration d (gp_host (s_payload v')))"
    using active_row [OF assms(3)] by (auto simp: hg_slot_def)
  have "g = g'"
    using assms(1,4) g g' by (intro pk_unique [of hg_slot "host_grants d"]) (auto simp: grants_ok_def dest: get_row_Some)
  with g g' show ?thesis by (auto dest: get_row_Some)
qed

lemma generation_reached:
  assumes "g \<in> set (host_grants d)" and "n \<le> grant_generation g" and "hg_host g = h"
  shows "n \<le> currentHostGeneration d h"
  using grant_generation_le [OF assms(1)] assms(2,3) by simp

text \<open>
  C34. Granting and revoking make every older grant of that host useless at once: after a new grant is
  created for a host, or any grant of a host is revoked, no grant naming the host is usable in the
  resulting database, neither the old ones (their generation is stale) nor the new one (it is not accepted
  yet).
\<close>

theorem grant_change_stales_host:
  assumes "grants_ok (db s)"
    and "(\<exists>v. hostGrantCreate w n a x c caps e s = (Inr (v, c), s1) \<and> h = gp_host (s_payload v))
       \<or> (\<exists>rv. hostGrantRevoke w a n r s = (Inr rv, s1) \<and> h = rv_host (s_payload rv))"
    and "activeHostGrant w' y k i cap (db s1) = Inr v'"
  shows "gp_host (s_payload v') \<noteq> h"
proof
  assume h: "gp_host (s_payload v') = h"
  obtain g where g: "g \<in> set (host_grants (db s1))" "truthy_num (hg_accepted g)" "hg_host g = h"
      "gp_generation (hg_payload g) = currentHostGeneration (db s1) h"
    using active_row [OF assms(3)] h by (auto dest: get_row_Some)
  have old: "currentHostGeneration (db s1) h \<noteq> gp_generation (hg_payload g0)"
    if "g0 \<in> set (host_grants (db s))" "hg_host g0 = h" "nextHostGeneration (db s) h \<le> currentHostGeneration (db s1) h" for g0
    using payload_generation_le [OF that(1)] that(2,3) by (simp add: nextHostGeneration_def)
  from assms(2) show False
  proof (elim disjE exE conjE)
    fix v assume c: "hostGrantCreate w n a x c caps e s = (Inr (v, c), s1)" and hv: "h = gp_host (s_payload v)"
    from hostGrantCreate_step [OF c] obtain q t where t: "ins_row hg_id (grant_row v q (now w) None) (host_grants (db s)) = Some t"
      and gen: "gp_generation (s_payload v) = nextHostGeneration (db s) h" and s1: "host_grants (db s1) = t"
      using hv by (auto simp: appendOp_def)
    have t': "t = host_grants (db s) @ [grant_row v q (now w) None]" using t by (auto simp: ins_row_def split: if_splits)
    have "nextHostGeneration (db s) h \<le> currentHostGeneration (db s1) h"
      by (rule generation_reached [of "grant_row v q (now w) None"])
         (simp_all add: s1 t' grant_generation_def grant_row_def Let_def gen hv)
    moreover have "g \<in> set (host_grants (db s))"
      using g(1,2) by (auto simp: s1 t' grant_row_def Let_def)
    ultimately show False using old g(3,4) by metis
  next
    fix rv assume c: "hostGrantRevoke w a n r s = (Inr rv, s1)" and hv: "h = rv_host (s_payload rv)"
    have pay: "createSignedHostGrantRevocation w p q = Inr z \<Longrightarrow> s_payload z = p" for p q z
      by (auto simp: createSignedHostGrantRevocation_def create_signed_def signPayload_def split: if_splits sum.splits)
    from c obtain g0 where g0: "get_row hg_id n (host_grants (db s)) = Some g0"
      and rv: "s_payload rv = \<lparr>rv_grant = n, rv_server = server_id w, rv_host = hg_host g0, rv_issuer = a, rv_at = now w,
           rv_generation = nextHostGeneration (db s) (hg_host g0), rv_reason = (if truthy_str r then r else None)\<rparr>"
      and s1: "host_grants (db s1) = upd_rows (\<lambda>x. hg_id x = n)
           (\<lambda>x. x\<lparr>hg_revoked := Some (now w), hg_revocation := Some (s_payload rv, s_signature rv)\<rparr>) (host_grants (db s))"
      unfolding hostGrantRevoke_def
      by (auto simp: appendOp_def dest!: pay split: sum.splits option.splits if_splits)
    let ?f = "\<lambda>x. x\<lparr>hg_revoked := Some (now w), hg_revocation := Some (s_payload rv, s_signature rv)\<rparr>"
    have "?f g0 \<in> set (host_grants (db s1))" using g0 by (auto simp: s1 set_upd dest!: get_row_Some)
    then have "nextHostGeneration (db s) h \<le> currentHostGeneration (db s1) h"
      by (rule generation_reached) (simp_all add: grant_generation_def rv hv)
    moreover obtain g1 where "g1 \<in> set (host_grants (db s))" "hg_host g1 = hg_host g" "hg_payload g1 = hg_payload g"
      using g(1) by (auto simp: s1 set_upd split: if_splits)
    ultimately show False using old g(3,4) by metis
  qed
qed

definition grants_db :: db where
  "grants_db = sample_db\<lparr>
     meta := (meta sample_db)(''authority_public_key'' \<mapsto> MText (sample_key ''as'')),
     devices := [sample_device ''ann'' (sample_key ''ka'')],
     host_grants := [grant_row (sample_signed sample_grant ''as'') (sample_key ''ek'') 10 (Some 20)]\<rparr>"

lemma sample_world_crypto [simp]:
  "public_key sample_world = sample_key" "sign_message sample_world k m = sample_signature"
  "verify_message sample_world k m x \<longleftrightarrow> x = sample_signature" "now sample_world = 1000"
  "server_id sample_world = ''srv''" "is_uuid sample_world x \<longleftrightarrow> x \<noteq> []"
  by (simp_all add: sample_world_def)

lemma sample_grant_schema: "HostGrantPayloadSchema sample_world sample_grant"
  by (simp add: HostGrantPayloadSchema_def sample_grant_def identityIdSchema_def hostIdSchema_def text_between_def
      hostCapabilitiesSchema_def positiveSchema_def timestampSchema_def is_safe_integer_def)

lemma sample_signed_simps [simp]:
  "s_payload (sample_signed p k) = p" "s_key (sample_signed p k) = sample_key k"
  "s_signature (sample_signed p k) = sample_signature"
  by (simp_all add: sample_signed_def)

lemma sample_verifies: "d \<in> set SIGNATURE_DOMAINS \<Longrightarrow> verifySigned sample_world d enc (sample_signed p k)"
  by (simp add: verifySigned_def verifyCanonicalPayload_def signatureMessage_def domains_ok schema_bytes)

lemma sample_grant_verifies:
  "t < 5000 \<Longrightarrow> verifySignedHostGrant sample_world (sample_signed sample_grant ''as'') (sample_key ''as'') t
     = Some (sample_signed sample_grant ''as'')"
  using sample_grant_schema sample_verifies [of DOM_hostGrant grant_json sample_grant "''as''"]
  by (simp add: verifySignedHostGrant_def signed_schema_def SIGNATURE_DOMAINS_def) (simp add: sample_grant_def)

lemma sample_grant_row:
  "row_grant (sample_key ''as'') (grant_row (sample_signed sample_grant ''as'') k c a) = sample_signed sample_grant ''as''"
  by (simp add: row_grant_def grant_row_def Let_def sample_signed_def)

lemma grants_db_simps:
  "members grants_db = members sample_db" "roles grants_db = roles sample_db"
  "authorityPublicKey grants_db = Inr (sample_key ''as'')" "isAuthorizedDevice grants_db ''ann'' (sample_key ''ka'')"
  "host_grants grants_db = [grant_row (sample_signed sample_grant ''as'') (sample_key ''ek'') 10 (Some 20)]"
  by (simp_all add: grants_db_def authorityPublicKey_def isAuthorizedDevice_def sample_device_def)

lemma grants_db_member: "isMember grants_db ''ann''"
  using sample_lookups(1) by (simp add: isMember_def get_member_def grants_db_simps)

lemma grants_db_ok: "grants_ok grants_db"
  by (simp add: grants_ok_def grants_db_simps row_consistent_def grant_row_def Let_def)
     (simp add: grants_db_def sample_db_def empty_db_def)

lemma sample_active: "activeHostGrant sample_world ''ann'' (sample_key ''ka'') ''g1'' Promote grants_db
    = Inr (sample_signed sample_grant ''as'')"
proof -
  let ?g = "grant_row (sample_signed sample_grant ''as'') (sample_key ''ek'') 10 (Some 20)"
  have row: "get_row hg_id ''g1'' (host_grants grants_db) = Some ?g"
    by (simp add: grants_db_simps get_row_def grant_row_def Let_def) (simp add: sample_grant_def)
  have gen: "currentHostGeneration grants_db ''h1'' = 1"
    by (simp add: currentHostGeneration_def grants_db_simps grant_generation_def grant_row_def Let_def) (simp add: sample_grant_def)
  have cols: "hg_subject ?g = ''ann''" "hg_subject_key ?g = sample_key ''ka''" "hg_accepted ?g = Some 20"
    "hg_revoked ?g = None" "hg_expires ?g = 5000" "hg_device_key ?g = sample_key ''hs''" "hg_host ?g = ''h1''"
    by (simp_all add: grant_row_def Let_def) (simp_all add: sample_grant_def)
  show ?thesis
    using grants_db_member grants_db_simps(3,4)
    by (simp add: activeHostGrant_def row cols sample_grant_row sample_grant_verifies) (simp add: sample_grant_def gen)
qed

theorem one_usable_grant_per_host_witness:
  "\<nexists>w' a i cap v. activeHostGrant w' a (sample_key ''kb'') i cap grants_db = Inr v \<and> gp_host (s_payload v) = ''h1''"
proof (intro notI, elim exE conjE)
  fix w' a i cap v
  assume "activeHostGrant w' a (sample_key ''kb'') i cap grants_db = Inr v" "gp_host (s_payload v) = ''h1''"
  from one_usable_grant_per_host [OF grants_db_ok sample_active this(1)] this(2)
  have "sample_key ''ka'' = sample_key ''kb''" by (simp add: sample_grant_def)
  then show False by (simp add: sample_key_def b64url_char_def B64URL_ALPHABET_def)
qed

definition grants_host :: host where "grants_host = sample_host\<lparr>db := grants_db\<rparr>"

lemma grants_host_revoke:
  "\<exists>rv s1. hostGrantRevoke sample_world ''bob'' ''g1'' None grants_host = (Inr rv, s1) \<and> rv_host (s_payload rv) = ''h1''"
proof -
  let ?p = "\<lparr>rv_grant = ''g1'', rv_server = ''srv'', rv_host = ''h1'', rv_issuer = ''bob'', rv_at = 1000,
             rv_generation = nextHostGeneration grants_db ''h1'', rv_reason = None\<rparr>"
  have perm: "require_permission grants_db ''bob'' Manage_hosts = Inr (sample_member ''bob'' ''role-admin'')"
  proof -
    have "get_member grants_db = get_member sample_db" "member_permits grants_db = member_permits sample_db"
      by (simp_all add: fun_eq_iff get_member_def member_permits_def get_role_def grants_db_simps)
    then show ?thesis using sample_admin(1) [of Manage_hosts] by (simp add: require_permission_def)
  qed
  have "nextHostGeneration grants_db ''h1'' = 2"
    by (simp add: nextHostGeneration_def currentHostGeneration_def grants_db_simps grant_generation_def grant_row_def Let_def)
       (simp add: sample_grant_def)
  then have "HostGrantRevocationPayloadSchema sample_world ?p"
    by (simp add: HostGrantRevocationPayloadSchema_def hostIdSchema_def identityIdSchema_def text_between_def
        timestampSchema_def positiveSchema_def is_safe_integer_def)
  then have "createSignedHostGrantRevocation sample_world ?p ''as'' = Inr (sample_signed ?p ''as'')"
    using domains_ok [of DOM_hostGrantRevocation]
    by (simp add: createSignedHostGrantRevocation_def create_signed_def signPayload_def signCanonicalPayload_def
        signatureMessage_def signed_schema_def SIGNATURE_DOMAINS_def sample_signed_def)
  moreover have "get_row hg_id ''g1'' (host_grants grants_db) = Some (hd (host_grants grants_db))"
    "hg_revoked (hd (host_grants grants_db)) = None" "hg_host (hd (host_grants grants_db)) = ''h1''"
    by (simp_all add: grants_db_simps get_row_def grant_row_def Let_def) (simp_all add: sample_grant_def)
  moreover have "read_seed (authority_seed sample_world) = Inr (Some ''as'')" by (simp add: sample_world_def read_seed_def)
  ultimately show ?thesis
    using perm by (simp add: hostGrantRevoke_def grants_host_def)
qed

theorem grant_change_stales_host_witness:
  "\<nexists>i cap v. activeHostGrant sample_world ''ann'' (sample_key ''ka'') i cap
       (db (snd (hostGrantRevoke sample_world ''bob'' ''g1'' None grants_host))) = Inr v
     \<and> gp_host (s_payload v) = ''h1''"
proof -
  obtain rv s1 where r: "hostGrantRevoke sample_world ''bob'' ''g1'' None grants_host = (Inr rv, s1)" "rv_host (s_payload rv) = ''h1''"
    using grants_host_revoke by blast
  have "grants_ok (db grants_host)" by (simp add: grants_host_def grants_db_ok)
  then show ?thesis
    using grant_change_stales_host [of grants_host sample_world "''g1''" "''bob''" _ _ _ _ s1 "''h1''" None] r by auto
qed

end
