(* ===== verification/Administration.thy ===== *)
theory Administration
  imports Grants
begin

text \<open>
  Invites, ICE access and channels (\<open>apps/janjanode/src/server.service.ts\<close>). An invite is written as a
  signed JC4 text with as many direct routes and bridges as fit, or as a legacy key when neither is
  configured.
\<close>

section \<open>Invites\<close>

definition MAX_INVITE_V4_CHARS :: nat where "MAX_INVITE_V4_CHARS = 2048"

definition formatInviteV4 :: "world \<Rightarrow> invite_v4 signed \<Rightarrow> exn + string" where
  "formatInviteV4 w v =
     (if \<not> SignedInviteV4Schema w v then Inl zod_error
      else let encoded = ''JC4-'' @ base64url w (utf8 w (canonicalJson (signed_json invite_v4_json v))) in
        if length encoded > MAX_INVITE_V4_CHARS then Inl (AppError ''JC4 exceeds 2048 characters'')
        else Inr encoded)"

text \<open>\<open>for (let n = count; n >= minimum; n--)\<close>\<close>

definition countdown :: "nat \<Rightarrow> nat \<Rightarrow> nat list" where
  "countdown n minimum = rev [minimum..<Suc n]"

fun first_some :: "('a \<Rightarrow> 'b option) \<Rightarrow> 'a list \<Rightarrow> 'b option" where
  "first_some f [] = None"
| "first_some f (x # xs) = (case f x of Some y \<Rightarrow> Some y | None \<Rightarrow> first_some f xs)"

text \<open>One attempt; whatever is thrown inside it only leads to the next one.\<close>

definition encode_attempt ::
    "world \<Rightarrow> db \<Rightarrow> string \<Rightarrow> string \<Rightarrow> int \<Rightarrow> route_hint signed list \<Rightarrow> bridge_descriptor signed list \<Rightarrow> string option" where
  "encode_attempt w d authoritySeed secret expiresAt routes bridges =
     (case authorityFingerprint w d of
        Inl e \<Rightarrow> None
      | Inr fp \<Rightarrow>
          (case createSignedInviteV4 w
               \<lparr>i4_server = server_id w, i4_authority = fp, i4_secret = base64url w secret, i4_routes = routes,
                i4_bridges = bridges, i4_issued = now w, i4_expires = expiresAt\<rparr> authoritySeed of
             Inl e \<Rightarrow> None
           | Inr v \<Rightarrow> (case formatInviteV4 w v of Inl e \<Rightarrow> None | Inr key \<Rightarrow> Some key)))"

definition encode_invite ::
    "world \<Rightarrow> db \<Rightarrow> string \<Rightarrow> string \<Rightarrow> int \<Rightarrow> route_hint signed list \<Rightarrow> string option" where
  "encode_invite w d authoritySeed secret expiresAt routes =
     (let bridges = configuredBridgeHints w in
      if routes = [] \<and> bridges = [] then Some (legacy_invite w secret)
      else first_some (\<lambda>(r, b). encode_attempt w d authoritySeed secret expiresAt (take r routes) (take b bridges))
             [(r, b). r \<leftarrow> countdown (length routes) (if routes = [] then 0 else 1),
                      b \<leftarrow> countdown (length bridges) (if bridges = [] then 0 else 1)])"

definition inviteCreate ::
    "world \<Rightarrow> string \<Rightarrow> string \<Rightarrow> string \<Rightarrow> string \<Rightarrow> string \<Rightarrow> int \<Rightarrow> int option \<Rightarrow> host
     \<Rightarrow> (string \<times> string) result \<times> host" where
  "inviteCreate w newGrantId newId secret actorId initialRoleId maxUses expiresInMs s =
     (let d = db s in
      case get_member d actorId of
        None \<Rightarrow> (Inl (Fail Forbidden), s)
      | Some actor \<Rightarrow>
          if get_role d initialRoleId = None then (Inl (Fail Not_found), s)
          else case member_permits d actor None Manage_invites of
              Inl e \<Rightarrow> (Inl (Throws e), s)
            | Inr False \<Rightarrow> (Inl (Fail Forbidden), s)
            | Inr True \<Rightarrow>
                (case read_seed (authority_seed w) of
                   Inl e \<Rightarrow> (Inl (Throws e), s)
                 | Inr None \<Rightarrow> (Inl (Fail Forbidden), s)
                 | Inr (Some authoritySeed) \<Rightarrow>
                     (case configuredDirectRouteHints w newGrantId authoritySeed s of
                        (Inl e, s1) \<Rightarrow> (Inl e, s1)
                      | (Inr routes, s1) \<Rightarrow>
                          (case inviteHashKey (db s1) of
                             Inl e \<Rightarrow> (Inl (Throws e), s1)
                           | Inr hashKey \<Rightarrow>
                               (let expiresAt = now w + (case expiresInMs of None \<Rightarrow> 30 * 24 * 3600000 | Some n \<Rightarrow> n);
                                    row = \<lparr>i_id = newId, i_secret_hash = sha256Hex w (hmac_sha256 w hashKey secret),
                                           i_access_hash = Some (sha256Hex w secret), i_role = initialRoleId,
                                           i_max = maxUses, i_used = 0, i_expires = Some expiresAt,
                                           i_revoked = False, i_created = now w\<rparr>
                                in case ins_row i_id row (invites (db s1)) of
                                     None \<Rightarrow> (Inl (Throws ConstraintError), s1)
                                   | Some t \<Rightarrow>
                                       (let s2 = emit StateChanged
                                              (db_update (\<lambda>d. appendOp (OpInviteCreate newId) (d\<lparr>invites := t\<rparr>)) s1)
                                        in case encode_invite w (db s2) authoritySeed secret expiresAt routes of
                                             None \<Rightarrow> (Inl (Fail Invalid_input), s2)
                                           | Some key \<Rightarrow> (Inr (newId, key), s2)))))))"

datatype invite_status = InviteRevoked | InviteExpired | InviteExhausted | InviteActive

definition invite_status :: "int \<Rightarrow> invite \<Rightarrow> invite_status" where
  "invite_status t i =
     (if i_revoked i then InviteRevoked
      else if (case i_expires i of None \<Rightarrow> False | Some e \<Rightarrow> e \<le> t) then InviteExpired
      else if i_used i \<ge> i_max i then InviteExhausted
      else InviteActive)"

definition inviteList :: "world \<Rightarrow> string \<Rightarrow> host \<Rightarrow> ((invite \<times> invite_status) list) result" where
  "inviteList w actorId s =
     (case require_permission (db s) actorId Manage_invites of
        Inl e \<Rightarrow> Inl e
      | Inr _ \<Rightarrow> Inr (map (\<lambda>i. (i, invite_status (now w) i)) (newest_first i_created (invites (db s)))))"

definition inviteRevoke :: "string \<Rightarrow> string \<Rightarrow> host \<Rightarrow> unit result \<times> host" where
  "inviteRevoke actorId inviteId s =
     (case require_permission (db s) actorId Manage_invites of
        Inl e \<Rightarrow> (Inl e, s)
      | Inr _ \<Rightarrow>
          if \<not> has_row i_id inviteId (invites (db s)) then (Inl (Fail Not_found), s)
          else (Inr (), emit StateChanged (db_update (\<lambda>d. appendOp (OpInviteRevoke inviteId)
                 (invites_update (upd_rows (\<lambda>i. i_id i = inviteId) (\<lambda>i. i\<lparr>i_revoked := True\<rparr>)) d)) s)))"

section \<open>ICE access\<close>

record ice_proof =
  ip_session :: string
  ip_server :: string
  ip_host :: string
  ip_identity :: string
  ip_device :: string
  ip_invite :: "string option"
  ip_issued :: int
  ip_expires :: int

text \<open>
  The proof is \<open>None\<close> when it does not have the schema's shape; \<open>sigOk\<close> says whether the signature
  verifies under the proof's device key.
\<close>

definition authorizeIceAccess ::
    "world \<Rightarrow> ice_proof option \<Rightarrow> bool \<Rightarrow> string \<Rightarrow> string \<Rightarrow> string \<Rightarrow> host \<Rightarrow> bool" where
  "authorizeIceAccess w value sigOk sessionId serverId hostId s =
     (case value of
        None \<Rightarrow> False
      | Some p \<Rightarrow>
          if ip_session p \<noteq> sessionId \<or> ip_server p \<noteq> serverId \<or> ip_host p \<noteq> hostId \<or> ip_server p \<noteq> server_id w
            \<or> ip_issued p > now w + 5000 \<or> ip_expires p \<le> now w \<or> ip_expires p > ip_issued p + 30000 \<or> \<not> sigOk
          then False
          else if isMember (db s) (ip_identity p) then isAuthorizedDevice (db s) (ip_identity p) (ip_device p)
          else if \<not> truthy_str (ip_invite p) then False
          else list_ex (\<lambda>i. i_access_hash i = ip_invite p \<and> \<not> i_revoked i \<and> i_used i < i_max i
                          \<and> (case i_expires i of None \<Rightarrow> True | Some e \<Rightarrow> e > now w)) (invites (db s)))"

section \<open>Channels\<close>

definition channelCreate :: "world \<Rightarrow> string \<Rightarrow> string \<Rightarrow> channel_type \<Rightarrow> string \<Rightarrow> host \<Rightarrow> channel result \<times> host" where
  "channelCreate w newId actorId type name s =
     (case require_permission (db s) actorId Manage_channels of
        Inl e \<Rightarrow> (Inl e, s)
      | Inr _ \<Rightarrow>
          (let c = \<lparr>ch_id = newId, ch_type = type, ch_name = name, ch_overrides = [], ch_created = now w\<rparr>
           in case ins_row ch_id c (channels (db s)) of
                None \<Rightarrow> (Inl (Throws ConstraintError), s)
              | Some t \<Rightarrow>
                  (Inr c, emit StateChanged (db_update (\<lambda>d. appendOp (OpChannelCreate newId) (d\<lparr>channels := t\<rparr>)) s))))"

definition channelUpdateOverrides :: "string \<Rightarrow> string \<Rightarrow> perm_override list \<Rightarrow> host \<Rightarrow> channel result \<times> host" where
  "channelUpdateOverrides actorId channelId overrides s =
     (case require_permission (db s) actorId Manage_channels of
        Inl e \<Rightarrow> (Inl e, s)
      | Inr _ \<Rightarrow>
          (case get_channel (db s) channelId of
             None \<Rightarrow> (Inl (Fail Not_found), s)
           | Some c \<Rightarrow>
               (Inr (c\<lparr>ch_overrides := overrides\<rparr>),
                emit StateChanged (db_update (\<lambda>d. appendOp (OpChannelOverrides channelId)
                  (channels_update (upd_rows (\<lambda>x. ch_id x = channelId) (\<lambda>x. x\<lparr>ch_overrides := overrides\<rparr>)) d)) s))))"

section \<open>What these handlers keep\<close>

lemma inviteCreate_step:
  assumes "inviteCreate w g newId secret actorId roleId maxUses exp s = (res, s')"
  shows "\<exists>s1. only_grants s s1 \<and> (grants_ok (db s) \<longrightarrow> grants_ok (db s1)) \<and>
     (s' = s1 \<and> (\<exists>e. res = Inl e) \<or> (\<exists>hashKey row. get_role (db s) roleId \<noteq> None \<and> inviteHashKey (db s1) = Inr hashKey
      \<and> \<not> has_row i_id newId (invites (db s))
      \<and> row = \<lparr>i_id = newId, i_secret_hash = sha256Hex w (hmac_sha256 w hashKey secret),
               i_access_hash = Some (sha256Hex w secret), i_role = roleId, i_max = maxUses, i_used = 0,
               i_expires = Some (now w + (case exp of None \<Rightarrow> 30 * 24 * 3600000 | Some n \<Rightarrow> n)),
               i_revoked = False, i_created = now w\<rparr>
      \<and> s' = emit StateChanged (db_update (\<lambda>d. appendOp (OpInviteCreate newId) (d\<lparr>invites := invites (db s) @ [row]\<rparr>)) s1)))"
proof -
  have *: "only_grants s s1 \<and> (grants_ok (db s) \<longrightarrow> grants_ok (db s1)) \<and> invites (db s1) = invites (db s)"
    if "configuredDirectRouteHints w g k s = (r, s1)" for k r s1
    using configuredDirectRouteHints_only [OF that] configuredDirectRouteHints_ok [OF _ that]
    by (auto dest: only_gr_simps(5))
  show ?thesis
  proof (cases "\<exists>k rs s1. read_seed (authority_seed w) = Inr (Some k) \<and> configuredDirectRouteHints w g k s = (rs, s1)
      \<and> get_member (db s) actorId \<noteq> None \<and> get_role (db s) roleId \<noteq> None
      \<and> member_permits (db s) (the (get_member (db s) actorId)) None Manage_invites = Inr True")
    case False
    then have "s' = s" "\<exists>e. res = Inl e"
      using assms by (auto simp: inviteCreate_def Let_def split: option.splits sum.splits bool.splits if_splits)
    then show ?thesis using only_grants_refl by blast
  next
    case True
    then obtain k rs s1 where k: "read_seed (authority_seed w) = Inr (Some k)" "configuredDirectRouteHints w g k s = (rs, s1)"
      "get_member (db s) actorId \<noteq> None" "get_role (db s) roleId \<noteq> None"
      "member_permits (db s) (the (get_member (db s) actorId)) None Manage_invites = Inr True" by blast
    note s1 = * [OF k(2)]
    show ?thesis
    proof (intro exI [of _ s1] conjI)
      show "(s' = s1 \<and> (\<exists>e. res = Inl e) \<or> (\<exists>hashKey row. get_role (db s) roleId \<noteq> None \<and> inviteHashKey (db s1) = Inr hashKey
        \<and> \<not> has_row i_id newId (invites (db s))
        \<and> row = \<lparr>i_id = newId, i_secret_hash = sha256Hex w (hmac_sha256 w hashKey secret),
               i_access_hash = Some (sha256Hex w secret), i_role = roleId, i_max = maxUses, i_used = 0,
               i_expires = Some (now w + (case exp of None \<Rightarrow> 30 * 24 * 3600000 | Some n \<Rightarrow> n)),
               i_revoked = False, i_created = now w\<rparr>
        \<and> s' = emit StateChanged (db_update (\<lambda>d. appendOp (OpInviteCreate newId) (d\<lparr>invites := invites (db s) @ [row]\<rparr>)) s1)))"
        using assms k s1
        by (auto simp: inviteCreate_def Let_def ins_row_def split: sum.splits option.splits if_splits)
    qed (use s1 in auto)
  qed
qed

lemma inviteCreate_ok:
  assumes "community_ok (db s)" and "inviteCreate w g newId secret actorId roleId maxUses exp s = (res, s')"
    and "0 \<le> maxUses"
  shows "community_ok (db s')"
proof -
  from inviteCreate_step [OF assms(2)] obtain s1 where s1: "only_grants s s1"
    and c: "s' = s1 \<or> (\<exists>hashKey row. get_role (db s) roleId \<noteq> None \<and> \<not> has_row i_id newId (invites (db s))
        \<and> row = \<lparr>i_id = newId, i_secret_hash = sha256Hex w (hmac_sha256 w hashKey secret),
               i_access_hash = Some (sha256Hex w secret), i_role = roleId, i_max = maxUses, i_used = 0,
               i_expires = Some (now w + (case exp of None \<Rightarrow> 30 * 24 * 3600000 | Some n \<Rightarrow> n)),
               i_revoked = False, i_created = now w\<rparr>
        \<and> s' = emit StateChanged (db_update (\<lambda>d. appendOp (OpInviteCreate newId) (d\<lparr>invites := invites (db s) @ [row]\<rparr>)) s1))"
    by metis
  note f = only_gr_simps [OF s1]
  from c show ?thesis
  proof (elim disjE exE conjE)
    assume "s' = s1" then show ?thesis using assms(1) s1 by (simp add: community_ok_same [OF only_grants_community])
  qed (use assms(1,3) in \<open>simp add: community_ok_def appendOp_def pk_append get_role_def get_row_None f\<close>)
qed

lemma inviteRevoke_ok:
  assumes "community_ok (db s)" and "inviteRevoke actorId i s = (res, s')"
  shows "community_ok (db s')"
proof -
  have "community_ok (invites_update (upd_rows P (\<lambda>i. i\<lparr>i_revoked := True\<rparr>)) (db s))" for P
    using assms(1) by (auto simp: community_ok_def pk_upd set_upd)
  with assms show ?thesis
    by (auto simp: inviteRevoke_def split: sum.splits if_splits)
qed

lemma channelCreate_ok:
  "community_ok (db s) \<Longrightarrow> channelCreate w c x type n s = (res, s') \<Longrightarrow> community_ok (db s')"
  by (auto simp: channelCreate_def Let_def ins_row_def community_ok_def appendOp_def pk_append
      split: sum.splits option.splits if_splits)

lemma channelUpdateOverrides_ok:
  "community_ok (db s) \<Longrightarrow> channelUpdateOverrides x c os s = (res, s') \<Longrightarrow> community_ok (db s')"
  by (auto simp: channelUpdateOverrides_def community_ok_def appendOp_def pk_upd split: sum.splits option.splits)

lemma updateConfig_ok:
  "community_ok (db s) \<Longrightarrow> updateConfig x patch s = (res, s') \<Longrightarrow> community_ok (db s')"
  by (auto simp: updateConfig_def Let_def community_ok_def appendOp_def set_meta_def split: sum.splits)

section \<open>Invites from making to joining\<close>







text \<open>
  The list of invites and the join agree up to the boundary: an invite listed as active is accepted at
  that moment, and one that the join would accept although it is listed otherwise is one whose expiry is
  exactly now, or is the value 0, which the join takes for no expiry.
\<close>

theorem listed_active_is_redeemable:
  "(invite_status t i = InviteActive \<longrightarrow> invite_rejection t i = None)
   \<and> (invite_rejection t i = None \<longrightarrow> invite_status t i = InviteActive
        \<or> invite_status t i = InviteExpired \<and> (i_expires i = Some t \<or> i_expires i = Some 0))"
  by (auto simp: invite_status_def invite_rejection_def split: if_splits option.splits)

theorem listed_active_is_redeemable_witness:
  "invite_rejection 0 sample_invite = None"
  using listed_active_is_redeemable [of 0 sample_invite] by (simp add: sample_invite_def invite_status_def)

end
