(* ===== verification/AttachmentCodec.thy ===== *)
theory AttachmentCodec
  imports Protocol
begin

text \<open>
  Encrypted attachments on the wire: the allocation-free check of canonical base64
  (\<open>packages/schemas/src/envelope.ts\<close>) and the chunk encoder and decoder
  (\<open>packages/protocol/src/attachments.ts\<close>). SHA-256 is the parameter \<open>sha256\<close>;
  \<open>Buffer.toString("base64")\<close> and \<open>Buffer.from(s, "base64")\<close> are the standard library's RFC 4648
  coding, written out as \<open>b64_encode\<close> and \<open>b64_decode\<close>.
\<close>

section \<open>Limits\<close>

definition MAX_ATTACHMENT_BYTES :: int where "MAX_ATTACHMENT_BYTES = 50 * 1024 * 1024"
definition ATTACHMENT_ENCRYPTION_OVERHEAD_BYTES :: int where "ATTACHMENT_ENCRYPTION_OVERHEAD_BYTES = 28"
definition MAX_ATTACHMENT_PLAINTEXT_BYTES :: int where
  "MAX_ATTACHMENT_PLAINTEXT_BYTES = MAX_ATTACHMENT_BYTES - ATTACHMENT_ENCRYPTION_OVERHEAD_BYTES"
definition ATTACHMENT_CHUNK_BYTES :: int where "ATTACHMENT_CHUNK_BYTES = 30 * 1024"

text \<open>\<open>Math.ceil(a / b)\<close> on integers with \<open>0 < b\<close>\<close>

definition int_ceil_div :: "int \<Rightarrow> int \<Rightarrow> int" where
  "int_ceil_div a b = - ((- a) div b)"

definition MAX_ATTACHMENT_CHUNKS :: int where
  "MAX_ATTACHMENT_CHUNKS = int_ceil_div MAX_ATTACHMENT_BYTES ATTACHMENT_CHUNK_BYTES"
definition MAX_ATTACHMENT_CHUNK_BASE64_CHARS :: int where
  "MAX_ATTACHMENT_CHUNK_BASE64_CHARS = (ATTACHMENT_CHUNK_BYTES div 3) * 4"

section \<open>Base64\<close>

definition BASE64_ALPHABET :: string where
  "BASE64_ALPHABET = ''ABCDEFGHIJKLMNOPQRSTUVWXYZabcdefghijklmnopqrstuvwxyz0123456789+/''"

text \<open>\<open>alphabet.indexOf(c)\<close>, with \<open>None\<close> for \<open>-1\<close>\<close>

fun index_of :: "'a \<Rightarrow> 'a list \<Rightarrow> nat option" where
  "index_of c [] = None"
| "index_of c (x # xs) = (if x = c then Some 0 else map_option Suc (index_of c xs))"

text \<open>\<open>/^[A-Za-z0-9+/]*={0,2}$/.test(value)\<close>\<close>

definition base64_pattern :: "string \<Rightarrow> bool" where
  "base64_pattern v \<longleftrightarrow> dropWhile (\<lambda>c. c \<in> set BASE64_ALPHABET) v \<in> {'''', ''='', ''==''}"

text \<open>\<open>sextet < 0 || (sextet & (m - 1)) !== 0\<close> for a power of two \<open>m\<close>\<close>

definition bad_sextet :: "char \<Rightarrow> nat \<Rightarrow> bool" where
  "bad_sextet c m = (case index_of c BASE64_ALPHABET of None \<Rightarrow> True | Some i \<Rightarrow> i mod m \<noteq> 0)"

definition canonicalBase64DecodedLength :: "string \<Rightarrow> nat option" where
  "canonicalBase64DecodedLength v =
     (if length v mod 4 \<noteq> 0 \<or> \<not> base64_pattern v then None
      else let padding = (if suffix ''=='' v then 2 else if suffix ''='' v then 1 else 0 :: nat) in
        if (case index_of (CHR ''='') v of None \<Rightarrow> False | Some first \<Rightarrow> first \<noteq> length v - padding) then None
        else if v = [] then Some 0
        else if padding = 2 \<and> bad_sextet (v ! (length v - 3)) 16 then None
        else if padding = 1 \<and> bad_sextet (v ! (length v - 2)) 4 then None
        else Some ((length v div 4) * 3 - padding))"

definition b64 :: "nat \<Rightarrow> char" where "b64 i = BASE64_ALPHABET ! i"

fun b64_encode :: "byte list \<Rightarrow> string" where
  "b64_encode [] = []"
| "b64_encode [a] = [b64 (unat a div 4), b64 (unat a mod 4 * 16), CHR ''='', CHR ''='']"
| "b64_encode [a, b] =
     [b64 (unat a div 4), b64 (unat a mod 4 * 16 + unat b div 16), b64 (unat b mod 16 * 4), CHR ''='']"
| "b64_encode (a # b # c # bs) =
     b64 (unat a div 4) # b64 (unat a mod 4 * 16 + unat b div 16)
     # b64 (unat b mod 16 * 4 + unat c div 64) # b64 (unat c mod 64) # b64_encode bs"

fun sextets_decode :: "nat list \<Rightarrow> byte list" where
  "sextets_decode (w # x # y # z # r) =
     of_nat (w * 4 + x div 16) # of_nat (x mod 16 * 16 + y div 4) # of_nat (y mod 4 * 64 + z)
     # sextets_decode r"
| "sextets_decode [w, x, y] = [of_nat (w * 4 + x div 16), of_nat (x mod 16 * 16 + y div 4)]"
| "sextets_decode [w, x] = [of_nat (w * 4 + x div 16)]"
| "sextets_decode _ = []"

definition b64_decode :: "string \<Rightarrow> byte list" where
  "b64_decode v =
     sextets_decode (List.map_filter (\<lambda>c. index_of c BASE64_ALPHABET) (takeWhile (\<lambda>c. c \<noteq> CHR ''='') v))"

lemma index_of_Some: "index_of c xs = Some i \<Longrightarrow> i < length xs \<and> xs ! i = c"
  by (induction xs arbitrary: i) (auto split: if_splits)

lemma index_of_nth: "distinct xs \<Longrightarrow> i < length xs \<Longrightarrow> index_of (xs ! i) xs = Some i"
  by (induction xs arbitrary: i) (auto simp: nth_Cons split: nat.splits)

lemma index_of_None: "index_of c xs = None \<longleftrightarrow> c \<notin> set xs"
  by (induction xs) auto

lemma alphabet64: "length BASE64_ALPHABET = 64" "distinct BASE64_ALPHABET" "CHR ''='' \<notin> set BASE64_ALPHABET"
  by (simp_all add: BASE64_ALPHABET_def)

lemma index_b64 [simp]: "i < 64 \<Longrightarrow> index_of (b64 i) BASE64_ALPHABET = Some i"
  by (simp add: b64_def index_of_nth alphabet64)

lemma b64_in [simp]: "i < 64 \<Longrightarrow> b64 i \<in> set BASE64_ALPHABET"
  by (simp add: b64_def alphabet64)

lemma b64_neq_eq [simp]: "i < 64 \<Longrightarrow> b64 i \<noteq> CHR ''=''"
  using b64_in alphabet64(3) by metis

lemma b64_cases:
  assumes "c \<in> set BASE64_ALPHABET"
  obtains i where "i < 64" "c = b64 i"
  using assms by (metis alphabet64(1) b64_def in_set_conv_nth)

lemma index_of_eq_code:
  "\<forall>i \<in> set is. i < 64 \<Longrightarrow>
   index_of (CHR ''='') (map b64 is @ pad) = map_option ((+) (length is)) (index_of (CHR ''='') pad)"
  by (induction "is"; cases "index_of (CHR ''='') pad") auto

lemma map_b64_no_eq: "\<forall>i \<in> set is. i < 64 \<Longrightarrow> CHR ''='' \<notin> set (map b64 is)"
  by (auto simp: image_iff) (metis b64_neq_eq)

lemma suffix_eq_code: "\<forall>i \<in> set is. i < 64 \<Longrightarrow> \<not> suffix (xs @ ''='') (map b64 is)"
  using map_b64_no_eq [of "is"] by (auto dest: set_mono_suffix)

lemma dropWhile_code:
  "\<forall>i \<in> set is. i < 64 \<Longrightarrow> pad = [] \<or> hd pad = CHR ''='' \<Longrightarrow>
   dropWhile (\<lambda>c. c \<in> set BASE64_ALPHABET) (map b64 is @ pad) = pad"
  by (induction "is"; cases pad) (auto simp: alphabet64)

lemma bad_sextet_b64 [simp]: "i < 64 \<Longrightarrow> bad_sextet (b64 i) m \<longleftrightarrow> i mod m \<noteq> 0"
  by (simp add: bad_sextet_def)

lemma canonical_no_pad:
  "\<forall>i \<in> set is. i < 64 \<Longrightarrow>
   canonicalBase64DecodedLength (map b64 is) = (if length is mod 4 = 0 then Some (length is div 4 * 3) else None)"
  using suffix_eq_code [of "is" "''=''"] suffix_eq_code [of "is" "[]"] index_of_eq_code [of "is" "[]"]
    dropWhile_code [of "is" "[]"]
  by (simp add: canonicalBase64DecodedLength_def base64_pattern_def)

lemma canonical_unfold:
  assumes "base64_pattern v" and "index_of (CHR ''='') v = Some (length v - p)" and "p \<in> {1, 2}"
    and "suffix ''='' v" and "suffix ''=='' v \<longleftrightarrow> p = 2" and "v \<noteq> []"
  shows "canonicalBase64DecodedLength v =
    (if length v mod 4 = 0 \<and> \<not> bad_sextet (v ! (length v - Suc p)) (4 ^ p)
     then Some (length v div 4 * 3 - p) else None)"
  using assms by (auto simp: canonicalBase64DecodedLength_def numeral_2_eq_2 numeral_3_eq_3 Let_def)

lemma canonical_one_pad:
  assumes "\<forall>i \<in> set is. i < 64"
  shows "canonicalBase64DecodedLength (map b64 is @ ''='') =
    (if length is mod 4 = 3 \<and> last is mod 4 = 0 then Some (length is div 4 * 3 + 2) else None)"
proof (cases "is" rule: rev_cases)
  case Nil
  then show ?thesis by (simp add: canonicalBase64DecodedLength_def)
next
  case (snoc js j)
  let ?v = "map b64 is @ ''=''"
  have "canonicalBase64DecodedLength ?v = (if length ?v mod 4 = 0 \<and> \<not> bad_sextet (?v ! (length ?v - Suc 1)) (4 ^ 1)
     then Some (length ?v div 4 * 3 - 1) else None)"
  proof (rule canonical_unfold)
    show "suffix ''=='' ?v \<longleftrightarrow> 1 = (2 :: nat)"
      using suffix_eq_code [OF assms, of "[]"] by (simp add: suffix_snoc)
  qed (use dropWhile_code [OF assms, of "''=''"] index_of_eq_code [OF assms, of "''=''"] in
    \<open>simp_all add: base64_pattern_def suffix_def\<close>)
  moreover have "?v ! (length ?v - Suc 1) = b64 j" "j < 64" "last is = j"
    using assms by (simp_all add: snoc nth_append)
  moreover have "Suc n mod 4 = 0 \<longleftrightarrow> n mod 4 = 3" "n mod 4 = 3 \<Longrightarrow> Suc n div 4 * 3 - 1 = n div 4 * 3 + 2" for n :: nat
    by (auto simp: mod_Suc div_Suc)
  ultimately show ?thesis by simp
qed

lemma canonical_two_pad:
  assumes "\<forall>i \<in> set is. i < 64"
  shows "canonicalBase64DecodedLength (map b64 is @ ''=='') =
    (if length is mod 4 = 2 \<and> last is mod 16 = 0 then Some (length is div 4 * 3 + 1) else None)"
proof (cases "is" rule: rev_cases)
  case Nil
  then show ?thesis by (simp add: canonicalBase64DecodedLength_def)
next
  case (snoc js j)
  let ?v = "map b64 is @ ''==''"
  have "canonicalBase64DecodedLength ?v = (if length ?v mod 4 = 0 \<and> \<not> bad_sextet (?v ! (length ?v - Suc 2)) (4 ^ 2)
     then Some (length ?v div 4 * 3 - 2) else None)"
    by (rule canonical_unfold)
      (use dropWhile_code [OF assms, of "''==''"] index_of_eq_code [OF assms, of "''==''"] in
        \<open>simp_all add: base64_pattern_def suffix_def\<close>)
  moreover have "?v ! (length ?v - Suc 2) = b64 j" "j < 64" "last is = j"
    using assms by (simp_all add: snoc nth_append)
  moreover have "Suc (Suc n) mod 4 = 0 \<longleftrightarrow> n mod 4 = 2"
      "n mod 4 = 2 \<Longrightarrow> Suc (Suc n) div 4 * 3 - 2 = n div 4 * 3 + 1" for n :: nat
    by (auto simp: mod_Suc div_Suc)
  ultimately show ?thesis by simp
qed

lemma base64_pattern_form:
  assumes "base64_pattern v"
  obtains "is" pad where "v = map b64 is @ pad" "\<forall>i \<in> set is. i < 64" "pad \<in> {'''', ''='', ''==''}"
proof -
  let ?P = "\<lambda>c. c \<in> set BASE64_ALPHABET"
  let ?is = "map (\<lambda>c. the (index_of c BASE64_ALPHABET)) (takeWhile ?P v)"
  have body: "\<forall>c \<in> set (takeWhile ?P v). the (index_of c BASE64_ALPHABET) < 64
      \<and> b64 (the (index_of c BASE64_ALPHABET)) = c"
    using b64_cases index_b64 by (metis option.sel set_takeWhileD)
  then have "map b64 ?is = takeWhile ?P v" by (simp add: map_idI)
  then have "v = map b64 ?is @ dropWhile ?P v" by simp
  moreover have "\<forall>i \<in> set ?is. i < 64" using body by auto
  ultimately show thesis using assms that unfolding base64_pattern_def by blast
qed

text \<open>The six-bit groups of a byte string.\<close>

fun sextets :: "byte list \<Rightarrow> nat list" where
  "sextets [] = []"
| "sextets [a] = [unat a div 4, unat a mod 4 * 16]"
| "sextets [a, b] = [unat a div 4, unat a mod 4 * 16 + unat b div 16, unat b mod 16 * 4]"
| "sextets (a # b # c # bs) =
     unat a div 4 # (unat a mod 4 * 16 + unat b div 16) # (unat b mod 16 * 4 + unat c div 64)
     # unat c mod 64 # sextets bs"

definition padding_of :: "nat \<Rightarrow> string" where
  "padding_of n = (if n mod 3 = 0 then '''' else if n mod 3 = 1 then ''=='' else ''='')"

lemma byte_bound: "unat (a :: byte) < 256"
proof -
  have "unat a < 2 ^ LENGTH(8)" by (rule unsigned_less)
  then show ?thesis by simp
qed

lemma b64_encode_sextets: "b64_encode bs = map b64 (sextets bs) @ padding_of (length bs)"
  by (induction bs rule: sextets.induct) (simp_all add: padding_of_def)

lemma sextet_bounds:
  "unat (a :: byte) div 4 < 64" "unat a mod 4 * 16 + unat (b :: byte) div 16 < 64"
  "unat a mod 16 * 4 + unat b div 64 < 64"
proof -
  have "unat a mod 4 < 4" "unat a mod 16 < 16" by simp_all
  then show "unat a div 4 < 64" "unat a mod 4 * 16 + unat b div 16 < 64"
      "unat a mod 16 * 4 + unat b div 64 < 64"
    using byte_bound [of a] byte_bound [of b] by linarith+
qed

lemma sextets_bound: "\<forall>i \<in> set (sextets bs). i < 64"
  by (induction bs rule: sextets.induct)
    (simp_all add: sextet_bounds sextet_bounds(2) [of _ 0, simplified] sextet_bounds(3) [of _ 0, simplified])

lemma sextets_Nil [simp]: "sextets bs = [] \<longleftrightarrow> bs = []"
  by (cases bs rule: sextets.cases) simp_all

lemma three_more: "Suc (Suc (Suc n)) div 3 = Suc (n div 3)" "Suc (Suc (Suc n)) mod 3 = n mod 3"
  by simp_all

lemma length_sextets: "length (sextets bs) = length bs div 3 * 4 + (if length bs mod 3 = 0 then 0 else Suc (length bs mod 3))"
proof (induction bs rule: sextets.induct)
  case (4 a b c bs)
  have "length (a # b # c # bs) div 3 = Suc (length bs div 3)" "length (a # b # c # bs) mod 3 = length bs mod 3"
    by simp_all
  then show ?case by (simp only: 4 sextets.simps list.size) simp
qed simp_all

lemma last_sextets:
  "length bs mod 3 = 1 \<Longrightarrow> last (sextets bs) mod 16 = 0" "length bs mod 3 = 2 \<Longrightarrow> last (sextets bs) mod 4 = 0"
  by (induction bs rule: sextets.induct) (auto simp: three_more)

lemma regroup:
  "y < 16 \<Longrightarrow> (x * 16 + y) div 16 = x" "y < 16 \<Longrightarrow> (x * 16 + y) mod 16 = y"
  "z < 4 \<Longrightarrow> (x * 4 + z) div 4 = x" "z < 4 \<Longrightarrow> (x * 4 + z) mod 4 = z" for x y z :: nat
  by simp_all

lemma split_byte:
  "unat (a :: byte) div 4 * 4 + unat a mod 4 = unat a" "unat a div 16 * 16 + unat a mod 16 = unat a"
  "unat a div 64 * 64 + unat a mod 64 = unat a" "unat a div 16 < 16" "unat a div 64 < 4"
  using byte_bound [of a] by (simp_all add: less_mult_imp_div_less)

lemma sextets_decode_sextets: "sextets_decode (sextets bs) = bs"
  by (induction bs rule: sextets.induct) (simp_all add: regroup split_byte)

lemma byte_of_nat: "n < 256 \<Longrightarrow> unat (of_nat n :: byte) = n"
  by (simp add: unat_of_nat)

lemma byte_of_parts:
  "w < 64 \<Longrightarrow> u < 4 \<Longrightarrow> unat (of_nat (w * 4 + u) :: byte) = w * 4 + u"
  "u < 16 \<Longrightarrow> v < 16 \<Longrightarrow> unat (of_nat (u * 16 + v) :: byte) = u * 16 + v"
  "u < 4 \<Longrightarrow> w < 64 \<Longrightarrow> unat (of_nat (u * 64 + w) :: byte) = u * 64 + w"
  by (intro byte_of_nat; simp)+

lemma bytes_of_sextets:
  "w < 64 \<Longrightarrow> x < 64 \<Longrightarrow> unat (of_nat (w * 4 + x div 16) :: byte) = w * 4 + x div 16"
  "y < 64 \<Longrightarrow> unat (of_nat (x mod 16 * 16 + y div 4) :: byte) = x mod 16 * 16 + y div 4"
  "x < 64 \<Longrightarrow> unat (of_nat (w mod 4 * 64 + x) :: byte) = w mod 4 * 64 + x"
  by (intro byte_of_parts; simp add: less_mult_imp_div_less)+

lemma quads:
  "Suc (Suc (q * 4)) mod 4 = 2" "Suc (Suc (q * 4)) div 4 = q"
  "Suc (Suc (Suc (q * 4))) mod 4 = 3" "Suc (Suc (Suc (q * 4))) div 4 = q"
  by (simp_all add: mod_Suc div_Suc)

lemma padding_of_blocks:
  "padding_of (q * 3) = ''''" "padding_of (q * 3 + 1) = ''==''" "padding_of (q * 3 + 2) = ''=''"
  by (simp_all add: padding_of_def mod_Suc)

lemma sextets_complete:
  "\<forall>i \<in> set is. i < 64 \<Longrightarrow>
   length is mod 4 = 0 \<or> length is mod 4 = 3 \<and> last is mod 4 = 0 \<or> length is mod 4 = 2 \<and> last is mod 16 = 0 \<Longrightarrow>
   sextets (sextets_decode is) = is \<and>
   length (sextets_decode is) = length is div 4 * 3 + (if length is mod 4 = 0 then 0 else length is mod 4 - 1)"
proof (induction "is" rule: sextets_decode.induct)
  case (1 w x y z r)
  have "x div 16 < 4" "y div 4 < 16" using 1(2) by (auto simp: less_mult_imp_div_less)
  moreover have "z div 64 = 0" "z mod 64 = z" using 1(2) by simp_all
  moreover have "sextets (sextets_decode r) = r"
    "length (sextets_decode r) = length r div 4 * 3 + (if length r mod 4 = 0 then 0 else length r mod 4 - 1)"
    using 1 by (auto split: if_splits)
  moreover have "length (w # x # y # z # r) div 4 = Suc (length r div 4)"
    "length (w # x # y # z # r) mod 4 = length r mod 4" by simp_all
  ultimately show ?case using 1(2)
    by (simp add: bytes_of_sextets regroup del: of_nat_add of_nat_mult list.size)
      (simp add: list.size)
next
  case (2 w x y)
  have "x div 16 < 4" "y div 4 < 16" using 2 by (auto simp: less_mult_imp_div_less)
  then show ?case using 2 by (auto simp: bytes_of_sextets regroup simp del: of_nat_add of_nat_mult)
next
  case (3 w x)
  have "x div 16 < 4" using 3 by (auto simp: less_mult_imp_div_less)
  then show ?case using 3 by (auto simp: bytes_of_sextets regroup simp del: of_nat_add of_nat_mult)
qed simp_all

lemma canonical_base64_form:
  "canonicalBase64DecodedLength v = Some n \<longleftrightarrow> (\<exists>bs. length bs = n \<and> v = b64_encode bs)"
proof
  assume c: "canonicalBase64DecodedLength v = Some n"
  then have "base64_pattern v" by (simp add: canonicalBase64DecodedLength_def split: if_splits)
  then obtain "is" pad where v: "v = map b64 is @ pad" and b: "\<forall>i \<in> set is. i < 64" and "pad \<in> {'''', ''='', ''==''}"
    by (rule base64_pattern_form)
  then consider "pad = ''''" "length is mod 4 = 0" "n = length is div 4 * 3"
    | "pad = ''=''" "length is mod 4 = 3" "last is mod 4 = 0" "n = length is div 4 * 3 + 2"
    | "pad = ''==''" "length is mod 4 = 2" "last is mod 16 = 0" "n = length is div 4 * 3 + 1"
    using c canonical_no_pad [OF b] canonical_one_pad [OF b] canonical_two_pad [OF b] by (auto split: if_splits)
  then have "sextets (sextets_decode is) = is" "length (sextets_decode is) = n" "padding_of n = pad"
    using sextets_complete [OF b] padding_of_blocks [of "length is div 4"] by (cases; simp)+
  then have "length (sextets_decode is) = n \<and> v = b64_encode (sextets_decode is)"
    by (simp add: b64_encode_sextets v)
  then show "\<exists>bs. length bs = n \<and> v = b64_encode bs" by blast
next
  assume "\<exists>bs. length bs = n \<and> v = b64_encode bs"
  then obtain bs where n: "n = length bs" and v: "v = b64_encode bs" by blast
  consider "n mod 3 = 0" | "n mod 3 = 1" | "n mod 3 = 2" by linarith
  then show "canonicalBase64DecodedLength v = Some n"
  proof cases
    case 1
    with n v show ?thesis
      by (auto simp: b64_encode_sextets padding_of_def canonical_no_pad [OF sextets_bound] length_sextets)
  next
    case 2
    have "n div 3 * 3 + 1 = n" using div_mult_mod_eq [of n 3] 2 by simp
    with 2 n v show ?thesis
      by (auto simp: b64_encode_sextets padding_of_def canonical_two_pad [OF sextets_bound] length_sextets last_sextets quads)
  next
    case 3
    have "n div 3 * 3 + 2 = n" using div_mult_mod_eq [of n 3] 3 by simp
    with 3 n v show ?thesis
      by (auto simp: b64_encode_sextets padding_of_def canonical_one_pad [OF sextets_bound] length_sextets last_sextets quads)
  qed
qed

section \<open>Chunks\<close>

definition SHA256_HEX :: "string \<Rightarrow> bool" where
  "SHA256_HEX h \<longleftrightarrow> length h = 64 \<and> set h \<subseteq> set ''0123456789abcdef''"

definition attachmentChunkCount :: "int \<Rightarrow> exn + int" where
  "attachmentChunkCount sizeBytes =
     (if \<not> is_safe_integer sizeBytes \<or> sizeBytes < 1 \<or> sizeBytes > MAX_ATTACHMENT_BYTES
      then Inl (AppError ''attachment size is outside the supported range'')
      else Inr (int_ceil_div sizeBytes ATTACHMENT_CHUNK_BYTES))"

definition expectedAttachmentChunkBytes :: "int \<Rightarrow> int \<Rightarrow> int \<Rightarrow> exn + int" where
  "expectedAttachmentChunkBytes totalBytes totalChunks index =
     (case attachmentChunkCount totalBytes of
        Inl e \<Rightarrow> Inl e
      | Inr n \<Rightarrow>
          if totalChunks \<noteq> n then Inl (AppError ''attachment chunk count mismatch'')
          else if \<not> is_safe_integer index \<or> index < 0 \<or> index \<ge> totalChunks
          then Inl (AppError ''attachment chunk index out of range'')
          else if index = totalChunks - 1
          then Inr (totalBytes - ATTACHMENT_CHUNK_BYTES * (totalChunks - 1))
          else Inr ATTACHMENT_CHUNK_BYTES)"

record attachment_chunk =
  ac_index :: int
  ac_data :: string
  ac_sizeBytes :: int
  ac_hash :: string

definition encodeAttachmentChunks :: "(byte list \<Rightarrow> string) \<Rightarrow> byte list \<Rightarrow> exn + attachment_chunk list" where
  "encodeAttachmentChunks sha256 data =
     (case attachmentChunkCount (int (length data)) of
        Inl e \<Rightarrow> Inl e
      | Inr n \<Rightarrow> Inr (map (\<lambda>i.
          (let bytes = subarray (i * nat ATTACHMENT_CHUNK_BYTES) ((i + 1) * nat ATTACHMENT_CHUNK_BYTES) data
           in \<lparr>ac_index = int i, ac_data = b64_encode bytes, ac_sizeBytes = int (length bytes),
               ac_hash = sha256 bytes\<rparr>)) [0..<nat n]))"

text \<open>The data is untrusted: \<open>None\<close> stands for a value that is no string.\<close>

definition decodeAttachmentChunk ::
    "(byte list \<Rightarrow> string) \<Rightarrow> string option \<Rightarrow> int \<Rightarrow> string option \<Rightarrow> exn + byte list" where
  "decodeAttachmentChunk sha256 data expectedSizeBytes expectedHash =
     (case data of
        None \<Rightarrow> Inl (AppError ''attachment chunk encoded length exceeds limit'')
      | Some d \<Rightarrow>
          if int (length d) > MAX_ATTACHMENT_CHUNK_BASE64_CHARS
          then Inl (AppError ''attachment chunk encoded length exceeds limit'')
          else case canonicalBase64DecodedLength d of
            None \<Rightarrow> Inl (AppError ''attachment chunk is not canonical base64'')
          | Some decodedLength \<Rightarrow>
              if \<not> is_safe_integer expectedSizeBytes \<or> expectedSizeBytes < 1
                \<or> expectedSizeBytes > ATTACHMENT_CHUNK_BYTES \<or> int decodedLength \<noteq> expectedSizeBytes
              then Inl (AppError ''attachment chunk declared size mismatch'')
              else if (case expectedHash of None \<Rightarrow> False | Some h \<Rightarrow> \<not> SHA256_HEX h)
              then Inl (AppError ''attachment chunk hash is malformed'')
              else let decoded = b64_decode d in
                if length decoded \<noteq> decodedLength
                then Inl (AppError ''attachment chunk decoded size mismatch'')
                else if (case expectedHash of None \<Rightarrow> False | Some h \<Rightarrow> sha256 decoded \<noteq> h)
                then Inl (AppError ''attachment chunk hash mismatch'')
                else Inr decoded)"

definition assertAttachmentCiphertextHash ::
    "(byte list \<Rightarrow> string) \<Rightarrow> byte list list \<Rightarrow> string \<Rightarrow> exn + unit" where
  "assertAttachmentCiphertextHash sha256 chunks expectedHash =
     (if \<not> SHA256_HEX expectedHash then Inl (AppError ''attachment ciphertext hash is malformed'')
      else if sha256 (concat chunks) \<noteq> expectedHash
      then Inl (AppError ''attachment ciphertext hash mismatch'')
      else Inr ())"

lemmas attachment_limits =
  MAX_ATTACHMENT_BYTES_def ATTACHMENT_CHUNK_BYTES_def MAX_ATTACHMENT_CHUNK_BASE64_CHARS_def
  is_safe_integer_def

lemma int_ceil_div_bounds:
  assumes "0 < b"
  shows "a \<le> int_ceil_div a b * b" and "(int_ceil_div a b - 1) * b < a"
proof -
  have "(- a) div b * b + (- a) mod b = - a" "0 \<le> (- a) mod b" "(- a) mod b < b" using assms by simp_all
  then show "a \<le> int_ceil_div a b * b" "(int_ceil_div a b - 1) * b < a"
    unfolding int_ceil_div_def left_diff_distrib mult_minus_left mult_1 by linarith+
qed

lemma attachmentChunkCount_Inr:
  assumes "attachmentChunkCount s = Inr n"
  shows "1 \<le> s \<and> s \<le> MAX_ATTACHMENT_BYTES \<and> 1 \<le> n \<and> n \<le> MAX_ATTACHMENT_CHUNKS
       \<and> s \<le> n * 30720 \<and> (n - 1) * 30720 < s"
proof -
  have n: "n = int_ceil_div s 30720" and s: "1 \<le> s" "s \<le> 52428800"
    using assms by (auto simp: attachmentChunkCount_def attachment_limits split: if_splits)
  have "s \<le> n * 30720" "(n - 1) * 30720 < s"
    using int_ceil_div_bounds [of 30720 s] by (simp_all add: n)
  moreover have "MAX_ATTACHMENT_CHUNKS = 1707"
    by (simp add: MAX_ATTACHMENT_CHUNKS_def attachment_limits int_ceil_div_def)
  ultimately show ?thesis using s by (simp add: MAX_ATTACHMENT_BYTES_def)
qed

lemma map_filter_code: "\<forall>i \<in> set is. i < 64 \<Longrightarrow> List.map_filter (\<lambda>c. index_of c BASE64_ALPHABET) (map b64 is) = is"
  by (induction "is") (auto simp: List.map_filter_simps)

lemma b64_decode_encode: "b64_decode (b64_encode bs) = bs"
proof -
  have "takeWhile (\<lambda>c. c \<noteq> CHR ''='') (b64_encode bs) = map b64 (sextets bs)"
    using sextets_bound [of bs] map_b64_no_eq [OF sextets_bound, of bs]
    by (auto simp: b64_encode_sextets takeWhile_append padding_of_def split: if_splits)
  then show ?thesis by (simp add: b64_decode_def map_filter_code sextets_bound sextets_decode_sextets)
qed

lemma length_b64_encode: "length (b64_encode bs) = (length bs + 2) div 3 * 4"
proof -
  have "length (b64_encode bs) = length (sextets bs) + length (padding_of (length bs))"
    by (simp add: b64_encode_sextets)
  also have "\<dots> = (length bs + 2) div 3 * 4"
  proof -
    consider "length bs mod 3 = 0" | "length bs mod 3 = 1" | "length bs mod 3 = 2" by linarith
    then show ?thesis by cases (simp_all add: length_sextets padding_of_def div_Suc mod_Suc)
  qed
  finally show ?thesis .
qed

text \<open>When the decoder answers at all.\<close>

lemma decodeAttachmentChunk_Inr:
  "decodeAttachmentChunk sha256 data sz hash = Inr bytes \<longleftrightarrow>
     data = Some (b64_encode bytes) \<and> sz = int (length bytes) \<and> 1 \<le> sz \<and> sz \<le> ATTACHMENT_CHUNK_BYTES
     \<and> (\<forall>h. hash = Some h \<longrightarrow> SHA256_HEX h \<and> sha256 bytes = h)" (is "?L \<longleftrightarrow> ?R")
proof
  assume l: ?L
  then obtain d n where d: "data = Some d" and n: "canonicalBase64DecodedLength d = Some n"
    by (auto simp: decodeAttachmentChunk_def Let_def split: option.splits if_splits)
  from n obtain bs where bs: "length bs = n" "d = b64_encode bs"
    using canonical_base64_form by blast
  with l d n show ?R
    by (auto simp: decodeAttachmentChunk_def Let_def b64_decode_encode split: option.splits if_splits)
next
  assume r: ?R
  then have "canonicalBase64DecodedLength (b64_encode bytes) = Some (length bytes)"
    using canonical_base64_form by blast
  moreover have "length bytes \<le> 30720" using r by (simp add: attachment_limits)
  then have "(length bytes + 2) div 3 \<le> 10240"
    using div_times_less_eq_dividend [of "length bytes + 2" 3] by linarith
  then have "\<not> int (length (b64_encode bytes)) > MAX_ATTACHMENT_CHUNK_BASE64_CHARS"
    unfolding length_b64_encode by (simp add: attachment_limits)
  moreover have "is_safe_integer sz" using r by (simp add: attachment_limits)
  moreover have "bytes \<noteq> []" using r by auto
  ultimately show ?L using r
    by (simp add: decodeAttachmentChunk_def b64_decode_encode split: option.split)
qed

lemma concat_chunks:
  assumes "encodeAttachmentChunks sha256 data = Inr cs"
  shows "\<exists>blocks. cs = map (\<lambda>(i, b). \<lparr>ac_index = int i, ac_data = b64_encode b, ac_sizeBytes = int (length b),
                                    ac_hash = sha256 b\<rparr>) (zip [0..<length blocks] blocks)
    \<and> concat blocks = data \<and> (\<forall>b \<in> set blocks. 1 \<le> length b \<and> length b \<le> 30720)"
proof -
  let ?block = "\<lambda>i. subarray (i * 30720) ((i + 1) * 30720) data"
  obtain n where n: "attachmentChunkCount (int (length data)) = Inr n"
    and cs: "cs = map (\<lambda>i. \<lparr>ac_index = int i, ac_data = b64_encode (?block i), ac_sizeBytes = int (length (?block i)),
                          ac_hash = sha256 (?block i)\<rparr>) [0..<nat n]"
    using assms by (auto simp: encodeAttachmentChunks_def Let_def ATTACHMENT_CHUNK_BYTES_def split: sum.splits)
  from attachmentChunkCount_Inr [OF n] have len: "length data \<le> nat n * 30720" "(nat n - 1) * 30720 < length data"
    by (cases n rule: int_cases; simp; linarith)+
  let ?blocks = "map ?block [0..<nat n]"
  have "cs = map (\<lambda>(i, b). \<lparr>ac_index = int i, ac_data = b64_encode b, ac_sizeBytes = int (length b),
                          ac_hash = sha256 b\<rparr>) (zip [0..<length ?blocks] ?blocks)"
    by (rule nth_equalityI) (simp_all add: cs)
  moreover have "concat ?blocks = data" using len(1) by (simp only: concat_blocks) simp
  moreover have "1 \<le> length b \<and> length b \<le> 30720" if b: "b \<in> set ?blocks" for b
  proof -
    from b obtain i where i: "i < nat n" and "b = ?block i" by auto
    moreover have "i * 30720 < length data" using i len(2) by linarith
    ultimately show ?thesis by (simp add: subarray_def)
  qed
  ultimately show ?thesis by blast
qed

text \<open>
  The canonical-form check is exact: it accepts a string, with length \<open>n\<close>, precisely when the string
  is the base64 encoding of some \<open>n\<close> bytes, so that the byte count it announces before any decoding
  happens is the true one and every byte string has one accepted spelling.
\<close>

theorem canonical_base64_exact:
  "canonicalBase64DecodedLength v = Some n \<longleftrightarrow> (\<exists>bs. length bs = n \<and> v = b64_encode bs)"
  by (rule canonical_base64_form)

text \<open>
  Chunked attachments round trip: for every attachment the encoder accepts, each chunk passes the
  receiver's checks of canonical form, declared size and hash, and the decoded chunks in order are the
  attachment. The hash is any function with the output format of SHA-256.
\<close>

theorem attachment_chunks_roundtrip:
  assumes "\<And>bs. SHA256_HEX (sha256 bs)" and "encodeAttachmentChunks sha256 data = Inr cs"
  shows "\<exists>blocks. map (\<lambda>c. decodeAttachmentChunk sha256 (Some (ac_data c)) (ac_sizeBytes c) (Some (ac_hash c))) cs
             = map Inr blocks \<and> concat blocks = data"
proof -
  from concat_chunks [OF assms(2)] obtain blocks where
    cs: "cs = map (\<lambda>(i, b). \<lparr>ac_index = int i, ac_data = b64_encode b, ac_sizeBytes = int (length b),
                            ac_hash = sha256 b\<rparr>) (zip [0..<length blocks] blocks)"
    and blocks: "concat blocks = data" "\<forall>b \<in> set blocks. 1 \<le> length b \<and> length b \<le> 30720" by blast
  have "map (\<lambda>c. decodeAttachmentChunk sha256 (Some (ac_data c)) (ac_sizeBytes c) (Some (ac_hash c))) cs
      = map (\<lambda>(i, b). Inr b) (zip [0..<length blocks] blocks)"
    using blocks(2) assms(1)
    by (auto simp: cs decodeAttachmentChunk_Inr ATTACHMENT_CHUNK_BYTES_def dest!: set_zip_rightD)
  also have "\<dots> = map Inr blocks" by (simp add: split_def flip: map_map [unfolded o_def])
  finally show ?thesis using blocks(1) by blast
qed

theorem attachment_chunks_roundtrip_witness:
  "\<exists>blocks. map (\<lambda>c. decodeAttachmentChunk (\<lambda>_. replicate 64 CHR ''0'') (Some (ac_data c)) (ac_sizeBytes c)
        (Some (ac_hash c))) (projr (encodeAttachmentChunks (\<lambda>_. replicate 64 CHR ''0'') [7, 8]))
     = map Inr blocks \<and> concat blocks = [7, 8]"
  by (rule attachment_chunks_roundtrip)
    (simp_all add: SHA256_HEX_def encodeAttachmentChunks_def attachmentChunkCount_def attachment_limits)

text \<open>
  The declared chunk sizes partition the attachment: for every supported size, each index below the
  chunk count has an expected size between one byte and the chunk limit, and the sizes add up to the
  attachment.
\<close>

theorem expected_chunk_sizes_partition:
  assumes "attachmentChunkCount bytes = Inr n"
  shows "\<exists>f. (\<forall>i. 0 \<le> i \<and> i < n \<longrightarrow> expectedAttachmentChunkBytes bytes n i = Inr (f i)
                   \<and> 1 \<le> f i \<and> f i \<le> ATTACHMENT_CHUNK_BYTES)
       \<and> (\<Sum>i \<in> {0..<n}. f i) = bytes"
proof -
  note bounds = attachmentChunkCount_Inr [OF assms]
  define f where "f = (\<lambda>i. if i = n - 1 then bytes - 30720 * (n - 1) else 30720)"
  have "expectedAttachmentChunkBytes bytes n i = Inr (f i) \<and> 1 \<le> f i \<and> f i \<le> ATTACHMENT_CHUNK_BYTES"
    if "0 \<le> i \<and> i < n" for i
  proof -
    have "is_safe_integer i" using that bounds
      by (simp add: is_safe_integer_def MAX_ATTACHMENT_CHUNKS_def int_ceil_div_def attachment_limits)
    with that bounds assms show ?thesis by (simp add: f_def expectedAttachmentChunkBytes_def ATTACHMENT_CHUNK_BYTES_def)
  qed
  moreover have "(\<Sum>i \<in> {0..<n}. f i) = bytes"
  proof -
    have "{0..<n} = insert (n - 1) {0..<n - 1}" using bounds by auto
    then have "(\<Sum>i \<in> {0..<n}. f i) = bytes - 30720 * (n - 1) + (\<Sum>i \<in> {0..<n - 1}. f i)"
      by (simp add: f_def)
    also have "(\<Sum>i \<in> {0..<n - 1}. f i) = (\<Sum>i \<in> {0..<n - 1}. 30720)" 
      by (intro sum.cong) (auto simp: f_def)
    also have "\<dots> = 30720 * (n - 1)" using bounds by (simp only: sum_constant card_atLeastLessThan_int) simp
    finally show ?thesis by simp
  qed
  ultimately show ?thesis by (intro exI [of _ f]) simp
qed

theorem expected_chunk_sizes_partition_witness:
  "\<exists>f. (\<forall>i. 0 \<le> i \<and> i < 3 \<longrightarrow> expectedAttachmentChunkBytes 70000 3 i = Inr (f i)
            \<and> 1 \<le> f i \<and> f i \<le> ATTACHMENT_CHUNK_BYTES) \<and> (\<Sum>i \<in> {0..<3}. f i) = 70000"
  by (rule expected_chunk_sizes_partition)
    (simp add: attachmentChunkCount_def attachment_limits int_ceil_div_def)

end
