(* ===== verification/Messages.thy ===== *)
theory Messages
  imports Administration AttachmentCodec
begin

text \<open>
  The message spool, the MLS mailbox, calls and presence (\<open>apps/janjanode/src/server.service.ts\<close>).
  A settings value that is no number is read as \<open>NaN\<close>; the settings schema only lets numbers in.
\<close>

section \<open>The spool\<close>

definition HARD_MAX_ENVELOPE_BYTES :: int where "HARD_MAX_ENVELOPE_BYTES = 2 * 1024 * 1024"
definition DEFAULT_MEMBER_SPOOL_BYTES :: int where "DEFAULT_MEMBER_SPOOL_BYTES = 256 * 1024 * 1024"
definition DEFAULT_SPOOL_BYTES :: int where "DEFAULT_SPOOL_BYTES = 2 * 1024 * 1024 * 1024"
definition REPLAY_TTL :: int where "REPLAY_TTL = 60 * 60 * 1000"

text \<open>A member whose role is known and grants the permission in the channel.\<close>

definition member_may :: "db \<Rightarrow> channel \<Rightarrow> permission \<Rightarrow> string \<Rightarrow> bool" where
  "member_may d ch p x =
     (case get_member d x of
        None \<Rightarrow> False
      | Some m \<Rightarrow>
          (case get_role d (m_role m) of
             None \<Rightarrow> False
           | Some r \<Rightarrow> evaluatePermission (memberContext m) r (Some ch) p))"

definition authorizedAudience :: "db \<Rightarrow> channel \<Rightarrow> string list \<Rightarrow> (string list) result" where
  "authorizedAudience d ch audience =
     (let normalized = sorted_set audience in
      if length normalized \<noteq> length audience \<or> normalized = [] then Inl (Fail Invalid_input)
      else if \<not> list_all (member_may d ch View_channel) normalized then Inl (Fail Forbidden)
      else Inr normalized)"

definition memberSpoolQuota :: "db \<Rightarrow> int option" where
  "memberSpoolQuota d =
     (case (config_number d ''maxSpoolBytes'' DEFAULT_SPOOL_BYTES,
            config_number d ''maxMemberSpoolBytes'' DEFAULT_MEMBER_SPOOL_BYTES) of
        (Some all_bytes, Some configured) \<Rightarrow> Some (max 1 (min all_bytes configured))
      | _ \<Rightarrow> None)"

definition currentSpoolBytes :: "db \<Rightarrow> int" where
  "currentSpoolBytes d = usage_read (spool_usage d) ''global''"

definition currentMemberSpoolBytes :: "db \<Rightarrow> string \<Rightarrow> int" where
  "currentMemberSpoolBytes d x = usage_read (spool_usage d) (member_scope x)"

text \<open>Both quotas, checked before anything of the given size is stored.\<close>

definition quota_exceeded :: "db \<Rightarrow> string \<Rightarrow> int \<Rightarrow> bool" where
  "quota_exceeded d x n \<longleftrightarrow>
     gt_num (currentSpoolBytes d + n) (config_number d ''maxSpoolBytes'' DEFAULT_SPOOL_BYTES)
     \<or> gt_num (currentMemberSpoolBytes d x + n) (memberSpoolQuota d)"

definition seqFor :: "host \<Rightarrow> string \<Rightarrow> sequence_tracker" where
  "seqFor s channelId = (case sequences s channelId of None \<Rightarrow> Map.empty | Some t \<Rightarrow> t)"

text \<open>An attachment the envelope may refer to.\<close>

definition attachment_bound :: "world \<Rightarrow> db \<Rightarrow> string \<Rightarrow> envelope \<Rightarrow> string list \<Rightarrow> attachment_ref \<Rightarrow> bool" where
  "attachment_bound w d actorId env recipients a =
     (case get_row at_asset (ar_asset a) (attachments d) of
        None \<Rightarrow> False
      | Some row \<Rightarrow>
          at_owner row = actorId \<and> at_channel row = e_channel env \<and> \<not> truthy_str (at_linked row)
          \<and> truthy_num (at_completed row) \<and> at_expires row > now w
          \<and> at_bytes row = ar_size a + ATTACHMENT_ENCRYPTION_OVERHEAD_BYTES
          \<and> at_chunks row = ar_chunks a \<and> sort (at_audience row) = recipients)"

text \<open>\<open>UPDATE attachments SET linked_message_id = ? WHERE asset_id = ? AND linked_message_id IS NULL\<close>\<close>

definition link_attachment :: "string \<Rightarrow> attachment_ref \<Rightarrow> db \<Rightarrow> db" where
  "link_attachment msg a d =
     attachments_update (upd_rows (\<lambda>r. at_asset r = ar_asset a \<and> at_linked r = None) (\<lambda>r. r\<lparr>at_linked := Some msg\<rparr>)) d"

text \<open>
  The transaction that stores the message; \<open>None\<close> when a constraint of the table fails. An expiry that
  is \<open>NaN\<close> would be stored as \<open>NULL\<close>, which the column refuses.
\<close>

definition store_envelope :: "world \<Rightarrow> string \<Rightarrow> envelope \<Rightarrow> string list \<Rightarrow> int \<Rightarrow> db \<Rightarrow> db option" where
  "store_envelope w actorId env recipients bytes d =
     (case config_number d ''maxRetentionHours'' 168 of
        None \<Rightarrow> None
      | Some hours \<Rightarrow>
          (let until = now w + hours * 3600000;
               expiresAt = (case e_expires env of None \<Rightarrow> until | Some t \<Rightarrow> min until t)
           in map_option
                (\<lambda>d'. appendOp (OpEnvelope (e_message env) (e_channel env) actorId)
                        (fold (link_attachment (e_message env)) (e_attachments env) d'))
                (ins_spool \<lparr>sp_message = e_message env, sp_channel = e_channel env, sp_envelope = env,
                            sp_expires = expiresAt, sp_recipients = recipients, sp_consumed = [],
                            sp_created = now w, sp_sender = actorId, sp_bytes = bytes\<rparr> d)))"

text \<open>Everything \<open>sendEnvelope\<close> checks before it takes a sequence number: the channel and the recipients.\<close>

definition check_envelope :: "world \<Rightarrow> db \<Rightarrow> string \<Rightarrow> envelope \<Rightarrow> (string list) result" where
  "check_envelope w d actorId env =
     (case get_member d actorId of
        None \<Rightarrow> Inl (Fail Forbidden)
      | Some actor \<Rightarrow>
          if e_server env \<noteq> server_id w then Inl (Fail Invalid_input)
          else case get_channel d (e_channel env) of
              None \<Rightarrow> Inl (Fail Not_found)
            | Some ch \<Rightarrow>
                (case member_permits d actor (Some ch) (if e_attachments env \<noteq> [] then Send_files else Send_messages) of
                   Inl e \<Rightarrow> Inl (Throws e)
                 | Inr False \<Rightarrow> Inl (Fail Forbidden)
                 | Inr True \<Rightarrow>
                     if e_sender env \<noteq> actorId then Inl (Fail Forbidden)
                     else if actorId \<notin> set (e_members env) then Inl (Fail Forbidden)
                     else case authorizedAudience d ch (e_members env) of
                         Inl e \<Rightarrow> Inl e
                       | Inr audience \<Rightarrow>
                           if e_commitment env \<noteq> sha256Hex w (join NUL audience) then Inl (Fail Invalid_input)
                           else Inr audience))"

definition deliver_all :: "string \<Rightarrow> envelope \<Rightarrow> string list \<Rightarrow> host \<Rightarrow> host" where
  "deliver_all actorId env recipients s = fold (\<lambda>r. if r \<noteq> actorId then emit (Deliver r env) else id) recipients s"

definition sendEnvelope :: "world \<Rightarrow> string \<Rightarrow> envelope \<Rightarrow> host \<Rightarrow> unit result \<times> host" where
  "sendEnvelope w actorId env0 s =
     (case check_envelope w (db s) actorId env0 of
        Inl e \<Rightarrow> (Inl e, s)
      | Inr recipients \<Rightarrow>
          (let (v, tracker) = seq_next actorId (seqFor s (e_channel env0));
               s1 = s\<lparr>sequences := (sequences s)(e_channel env0 \<mapsto> tracker)\<rparr>;
               env = env0\<lparr>e_seq := v, e_prev := None\<rparr>;
               bytes = envelope_bytes w env
           in if bytes > HARD_MAX_ENVELOPE_BYTES then (Inl (Fail Invalid_input), s1)
              else if quota_exceeded (db s) actorId bytes then (Inl (Fail Rate_limited), s1)
              else if \<not> list_all (attachment_bound w (db s) actorId env recipients) (e_attachments env)
              then (Inl (Fail Conflict), s1)
              else
                let (fresh, seen) = replay_check REPLAY_TTL (now w) (e_message env) (replay s1);
                    s2 = s1\<lparr>replay := seen\<rparr>
                in if \<not> fresh then (Inl (Fail Conflict), s2)
                   else case store_envelope w actorId env recipients bytes (db s) of
                       None \<Rightarrow> (Inl (Fail Conflict), s2)
                     | Some d \<Rightarrow> (Inr (), emit Activity (deliver_all actorId env recipients (s2\<lparr>db := d\<rparr>)))))"

definition getPending :: "world \<Rightarrow> string \<Rightarrow> host \<Rightarrow> (envelope list) result" where
  "getPending w identityId s =
     (let d = db s in
      case get_member d identityId of
        None \<Rightarrow> Inl (Fail Forbidden)
      | Some m \<Rightarrow>
          Inr (sort_key e_created
            (map sp_envelope
              (filter (\<lambda>r. sp_expires r > now w \<and> identityId \<in> set (sp_recipients r)
                         \<and> (case get_channel d (e_channel (sp_envelope r)) of
                              None \<Rightarrow> False
                            | Some ch \<Rightarrow> member_may d ch View_channel identityId)) (spool d)))))"

definition purge_db :: "string \<Rightarrow> db \<Rightarrow> db" where
  "purge_db messageId d =
     appendOp (OpPurge messageId)
       (del_spool (\<lambda>r. sp_message r = messageId) (del_attachments (\<lambda>a. at_linked a = Some messageId) d))"

definition purgeMessage :: "string \<Rightarrow> host \<Rightarrow> host" where
  "purgeMessage messageId s = emit (Purged messageId) (db_update (purge_db messageId) s)"

text \<open>\<open>new Set(list)\<close>\<close>

definition js_set :: "'a list \<Rightarrow> 'a list" where
  "js_set xs = fold js_add xs []"

definition ackConsumed :: "string \<Rightarrow> string \<Rightarrow> host \<Rightarrow> unit result \<times> host" where
  "ackConsumed identityId messageId s =
     (case get_member (db s) identityId of
        None \<Rightarrow> (Inl (Fail Forbidden), s)
      | Some _ \<Rightarrow>
          (case get_row sp_message messageId (spool (db s)) of
             None \<Rightarrow> (Inr (), s)
           | Some row \<Rightarrow>
               if identityId \<notin> set (sp_recipients row) then (Inl (Fail Forbidden), s)
               else
                 let consumed = js_add identityId (js_set (sp_consumed row));
                     s1 = db_update (spool_update (upd_rows (\<lambda>r. sp_message r = messageId)
                            (\<lambda>r. r\<lparr>sp_consumed := consumed\<rparr>))) s
                 in (Inr (), if list_all (\<lambda>r. r \<in> set consumed) (sp_recipients row)
                             then purgeMessage messageId s1 else s1)))"

text \<open>One tick of the retention loop.\<close>

definition retention_tick :: "world \<Rightarrow> host \<Rightarrow> host" where
  "retention_tick w s =
     (if \<not> writer s then s
      else fold purgeMessage (map sp_message (filter (\<lambda>r. sp_expires r < now w) (spool (db s)))) s)"

section \<open>Key packages and welcomes\<close>

definition isAuthorizedMlsCommitter :: "db \<Rightarrow> string \<Rightarrow> bool" where
  "isAuthorizedMlsCommitter d x =
     (case get_member d x of None \<Rightarrow> False | Some m \<Rightarrow> m_role m = ''role-owner'')"

definition keyPackageUpload :: "world \<Rightarrow> string \<Rightarrow> string \<Rightarrow> host \<Rightarrow> unit result \<times> host" where
  "keyPackageUpload w identityId keyPackageB64 s =
     (if get_member (db s) identityId = None then (Inl (Fail Forbidden), s)
      else
        let row = \<lparr>kp_id = identityId, kp_data = keyPackageB64, kp_expires = now w + 24 * 3600000\<rparr>
        in (Inr (), emit StateChanged (db_update (key_packages_update (\<lambda>t.
              if has_row kp_id identityId t then upd_rows (\<lambda>r. kp_id r = identityId) (\<lambda>_. row) t else t @ [row])) s)))"

definition keyPackageGet :: "world \<Rightarrow> string \<Rightarrow> string \<Rightarrow> host \<Rightarrow> string result" where
  "keyPackageGet w identityId targetId s =
     (let d = db s in
      if \<not> isAuthorizedMlsCommitter d identityId then Inl (Fail Forbidden)
      else if get_member d targetId = None then Inl (Fail Not_found)
      else case List.find (\<lambda>r. kp_id r = targetId \<and> kp_expires r > now w) (key_packages d) of
          None \<Rightarrow> Inl (Fail Not_found)
        | Some r \<Rightarrow> Inr (kp_data r))"

definition welcomePush :: "world \<Rightarrow> string \<Rightarrow> string \<Rightarrow> string \<Rightarrow> host \<Rightarrow> unit result \<times> host" where
  "welcomePush w actorId targetIdentityId welcomeB64 s =
     (let d = db s in
      if \<not> isAuthorizedMlsCommitter d actorId then (Inl (Fail Forbidden), s)
      else if get_member d targetIdentityId = None then (Inl (Fail Not_found), s)
      else case get_row w_id targetIdentityId (welcomes d) of
          Some r \<Rightarrow> if w_data r = welcomeB64 then (Inr (), s) else (Inl (Fail Conflict), s)
        | None \<Rightarrow>
            (Inr (), emit (WelcomeFor targetIdentityId (sha256Hex w welcomeB64) welcomeB64)
               (db_update (welcomes_update (\<lambda>t. t @ [\<lparr>w_id = targetIdentityId, w_data = welcomeB64,
                                                       w_created = now w\<rparr>])) s)))"

definition welcomePending :: "world \<Rightarrow> string \<Rightarrow> host \<Rightarrow> ((string \<times> string) option) result" where
  "welcomePending w identityId s =
     (if get_member (db s) identityId = None then Inl (Fail Forbidden)
      else Inr (map_option (\<lambda>r. (sha256Hex w (w_data r), w_data r)) (get_row w_id identityId (welcomes (db s)))))"

definition welcomeAckConsumed :: "world \<Rightarrow> string \<Rightarrow> string \<Rightarrow> host \<Rightarrow> unit result \<times> host" where
  "welcomeAckConsumed w identityId welcomeId s =
     (if get_member (db s) identityId = None then (Inl (Fail Forbidden), s)
      else case get_row w_id identityId (welcomes (db s)) of
          None \<Rightarrow> (Inr (), s)
        | Some r \<Rightarrow>
            if sha256Hex w (w_data r) \<noteq> welcomeId then (Inr (), s)
            else (Inr (), db_update (welcomes_update
                   (del_rows (\<lambda>x. w_id x = identityId \<and> w_data x = w_data r))) s))"

section \<open>Calls and presence\<close>

definition call_participants :: "host \<Rightarrow> string \<Rightarrow> string list option" where
  "call_participants s channelId = map_of (calls s) channelId"

definition ge_num :: "int \<Rightarrow> int option \<Rightarrow> bool" where
  "ge_num x q = (case q of None \<Rightarrow> False | Some n \<Rightarrow> x \<ge> n)"

definition callJoin :: "string \<Rightarrow> string \<Rightarrow> host \<Rightarrow> (string list) result \<times> host" where
  "callJoin identityId channelId s =
     (let d = db s in
      case get_member d identityId of
        None \<Rightarrow> (Inl (Fail Forbidden), s)
      | Some m \<Rightarrow>
          (case get_channel d channelId of
             None \<Rightarrow> (Inl (Fail Not_found), s)
           | Some ch \<Rightarrow>
               if ch_type ch \<noteq> CallChannel then (Inl (Fail Not_found), s)
               else case member_permits d m (Some ch) Join_call of
                   Inl e \<Rightarrow> (Inl (Throws e), s)
                 | Inr False \<Rightarrow> (Inl (Fail Forbidden), s)
                 | Inr True \<Rightarrow>
                     (let participants = (case call_participants s channelId of None \<Rightarrow> [] | Some p \<Rightarrow> p) in
                      if identityId \<notin> set participants
                         \<and> ge_num (int (length participants)) (config_number d ''maxVoiceParticipants'' 10)
                      then (Inl (Fail Channel_full), s)
                      else
                        let now_in = js_add identityId participants
                        in (Inr now_in, emit (CallMembership channelId now_in)
                              (s\<lparr>calls := map_set channelId now_in (calls s)\<rparr>)))))"

definition callLeave :: "string \<Rightarrow> string \<Rightarrow> host \<Rightarrow> unit result \<times> host" where
  "callLeave identityId channelId s =
     (case call_participants s channelId of
        None \<Rightarrow> (Inr (), s)
      | Some p \<Rightarrow>
          (let left = js_delete identityId p
           in (Inr (), emit (CallMembership channelId left) (s\<lparr>calls := map_set channelId left (calls s)\<rparr>))))"

definition callSignal :: "string \<Rightarrow> string \<Rightarrow> string \<Rightarrow> call_signal \<Rightarrow> host \<Rightarrow> unit result \<times> host" where
  "callSignal identityId channelId to payload s =
     (case call_participants s channelId of
        None \<Rightarrow> (Inl (Fail Forbidden), s)
      | Some p \<Rightarrow>
          if to \<notin> set p \<or> identityId \<notin> set p then (Inl (Fail Forbidden), s)
          else (Inr (), emit (CallSignal to channelId identityId payload) s))"

definition setPresence :: "string \<Rightarrow> string \<Rightarrow> host \<Rightarrow> unit result \<times> host" where
  "setPresence identityId st s =
     (if get_member (db s) identityId = None then (Inl (Fail Forbidden), s)
      else (Inr (), emit (Presence identityId st)
             (db_update (members_update (upd_rows (\<lambda>m. m_id m = identityId) (\<lambda>m. m\<lparr>m_presence := st\<rparr>))) s)))"

section \<open>What the handlers keep\<close>

text \<open>
  A stored message still awaits one of its recipients, carries the envelope it was sent with, and the
  recipients are its audience, sorted and without duplicates. An attachment linked to a message lives
  no longer than the message.
\<close>

definition spool_row_ok :: "spool_row \<Rightarrow> bool" where
  "spool_row_ok r \<longleftrightarrow>
     sp_recipients r = sorted_set (sp_recipients r) \<and> set (e_members (sp_envelope r)) = set (sp_recipients r)
     \<and> sp_sender r \<in> set (sp_recipients r) \<and> distinct (sp_consumed r) \<and> set (sp_consumed r) \<subset> set (sp_recipients r)
     \<and> e_message (sp_envelope r) = sp_message r \<and> e_channel (sp_envelope r) = sp_channel r
     \<and> e_sender (sp_envelope r) = sp_sender r"

definition spool_ok :: "db \<Rightarrow> bool" where
  "spool_ok d \<longleftrightarrow>
     pk sp_message (spool d) \<and> pk at_asset (attachments d) \<and> (\<forall>r \<in> set (spool d). spool_row_ok r)
     \<and> (\<forall>a \<in> set (attachments d). \<forall>m. at_linked a = Some m \<longrightarrow> has_row sp_message m (spool d))"

lemma spool_ok_append [simp]: "spool_ok (appendOp e d) = spool_ok d"
  by (simp add: spool_ok_def appendOp_def)

lemma usage_ok_append [simp]: "usage_ok (appendOp e d) = usage_ok d"
  by (simp add: usage_ok_def ledger_def appendOp_def)

lemma db_deliver_all [simp]: "db (deliver_all a env rs s) = db s"
  by (induction rs arbitrary: s) (simp_all add: deliver_all_def)

lemma ledger_link [simp]: "ledger (link_attachment m a d) = ledger d"
proof -
  have "map (\<lambda>r. (at_owner r, at_bytes r)) (upd_rows P (\<lambda>r. r\<lparr>at_linked := Some m\<rparr>) t)
      = map (\<lambda>r. (at_owner r, at_bytes r)) t" for P t
    by (induction t) (auto simp: upd_rows_def)
  then show ?thesis by (simp only: ledger_def link_attachment_def) simp
qed

lemma link_frame [simp]:
  "spool (link_attachment m a d) = spool d" "spool_usage (link_attachment m a d) = spool_usage d"
  by (simp_all add: link_attachment_def)

lemma usage_ok_link [simp]: "usage_ok (link_attachment m a d) = usage_ok d"
  by (simp add: usage_ok_matches)

lemma usage_ok_links [simp]: "usage_ok (fold (link_attachment m) as d) = usage_ok d"
  by (induction "as" arbitrary: d) simp_all

lemma spool_ok_link: "spool_ok d \<Longrightarrow> has_row sp_message m (spool d) \<Longrightarrow> spool_ok (link_attachment m a d)"
  by (auto simp: spool_ok_def link_attachment_def pk_upd set_upd split: if_splits)

lemma spool_ok_links:
  "spool_ok d \<Longrightarrow> has_row sp_message m (spool d) \<Longrightarrow> spool_ok (fold (link_attachment m) as d)"
proof (induction "as" arbitrary: d)
  case (Cons a "as")
  then have "spool_ok (link_attachment m a d)" by (intro spool_ok_link)
  with Cons show ?case by simp
qed simp

lemma check_envelopeD:
  assumes "check_envelope w d actorId env = Inr audience"
  shows "audience = sorted_set (e_members env)" and "distinct (e_members env)" and "actorId \<in> set (e_members env)"
    and "e_sender env = actorId" and "e_server env = server_id w"
    and "e_commitment env = sha256Hex w (join NUL audience)"
    and "\<exists>ch. get_channel d (e_channel env) = Some ch \<and> (\<forall>x \<in> set audience. member_may d ch View_channel x)"
  using assms
  by (auto simp: check_envelope_def authorizedAudience_def Let_def list_all_iff length_sorted_set_iff
      split: option.splits if_splits sum.splits bool.splits)

lemma store_envelope_ok:
  assumes "store_envelope w actorId env recipients bytes d = Some d'" and "usage_ok d" and "spool_ok d"
    and "0 \<le> bytes" and "recipients = sorted_set (e_members env)" and "actorId \<in> set (e_members env)"
    and "e_sender env = actorId"
  shows "usage_ok d'" and "spool_ok d'"
proof -
  from assms(1) obtain row d1 where ins: "ins_spool row d = Some d1"
    and d': "d' = appendOp (OpEnvelope (e_message env) (e_channel env) actorId)
                    (fold (link_attachment (e_message env)) (e_attachments env) d1)"
    and row: "sp_message row = e_message env" "sp_envelope row = env" "sp_recipients row = recipients"
      "sp_consumed row = []" "sp_sender row = actorId" "sp_bytes row = bytes" "sp_channel row = e_channel env"
    by (auto simp: store_envelope_def Let_def split: option.splits)
  from usage_ok_ins_spool [OF assms(2) ins] assms(4) row have "usage_ok d1" by simp
  then show "usage_ok d'" by (simp add: d')
  from ins have d1: "spool d1 = spool d @ [row]" "attachments d1 = attachments d"
    and new: "\<not> has_row sp_message (e_message env) (spool d)"
    by (auto simp: ins_spool_def ins_row_def row split: if_splits)
  have "sorted_set (sorted_set (e_members env)) = sorted_set (e_members env)" by (simp add: sorted_set_eq_iff)
  then have "spool_row_ok row" using row assms(5-7) by (auto simp: spool_row_ok_def)
  then have "spool_ok d1" using assms(3) new
    by (auto simp: spool_ok_def d1 pk_append row has_row_append)
  then show "spool_ok d'" unfolding d' by (simp add: spool_ok_links d1 has_row_append row)
qed

text \<open>A send either changes no table or stores the message as \<open>store_envelope\<close> does.\<close>

lemma sendEnvelope_step:
  assumes "sendEnvelope w actorId env0 s = (res, s')"
  shows "(\<exists>e. res = Inl e) \<and> db s' = db s
       \<or> res = Inr () \<and> (\<exists>audience v seen env.
            check_envelope w (db s) actorId env0 = Inr audience \<and> env = env0\<lparr>e_seq := v, e_prev := None\<rparr>
          \<and> v = seq_last actorId (seqFor s (e_channel env0)) + 1
          \<and> envelope_bytes w env \<le> HARD_MAX_ENVELOPE_BYTES
          \<and> \<not> quota_exceeded (db s) actorId (envelope_bytes w env)
          \<and> list_all (attachment_bound w (db s) actorId env audience) (e_attachments env0)
          \<and> replay_check REPLAY_TTL (now w) (e_message env0) (replay s) = (True, seen)
          \<and> store_envelope w actorId env audience (envelope_bytes w env) (db s) = Some (db s'))"
proof (cases "check_envelope w (db s) actorId env0")
  case (Inl e)
  with assms show ?thesis by (auto simp: sendEnvelope_def)
next
  case (Inr audience)
  obtain v t where n: "seq_next actorId (seqFor s (e_channel env0)) = (v, t)" by (meson surj_pair)
  then have v: "v = seq_last actorId (seqFor s (e_channel env0)) + 1" using fst_seq_next by (metis fst_conv)
  obtain b seen where r: "replay_check REPLAY_TTL (now w) (e_message env0) (replay s) = (b, seen)" by (meson surj_pair)
  show ?thesis
    using assms Inr n r unfolding sendEnvelope_def
    by (auto simp: Let_def v split: if_splits option.splits)
qed

lemma send_ok:
  assumes "sendEnvelope w actorId env0 s = (res, s')" and "usage_ok (db s)" and "spool_ok (db s)"
    and "\<And>e. 0 \<le> envelope_bytes w e"
  shows "usage_ok (db s') \<and> spool_ok (db s')"
  using sendEnvelope_step [OF assms(1)]
proof (elim disjE conjE exE)
  fix audience v seen env
  assume c: "check_envelope w (db s) actorId env0 = Inr audience" and e: "env = env0\<lparr>e_seq := v, e_prev := None\<rparr>"
    and st: "store_envelope w actorId env audience (envelope_bytes w env) (db s) = Some (db s')"
  show ?thesis
    using store_envelope_ok [OF st assms(2,3) assms(4)] check_envelopeD [OF c] by (simp add: e)
qed (use assms in simp)

lemma has_row_del_key: "has_row key k (del_rows (\<lambda>r. key r = k') t) \<longleftrightarrow> k \<noteq> k' \<and> has_row key k t"
  by (auto simp: has_row_def del_rows_def)

lemma purge_ok: "usage_ok d \<Longrightarrow> spool_ok d \<Longrightarrow> usage_ok (purge_db m d) \<and> spool_ok (purge_db m d)"
proof -
  assume u: "usage_ok d" and s: "spool_ok d"
  have sp: "spool (purge_db m d) = del_rows (\<lambda>r. sp_message r = m) (spool d)"
    and at: "attachments (purge_db m d) = del_rows (\<lambda>a. at_linked a = Some m) (attachments d)"
    by (simp_all add: purge_db_def appendOp_def del_spool_def del_attachments_def Let_def)
  have "spool_ok (purge_db m d)"
    using s unfolding spool_ok_def sp at by (auto simp: pk_del set_del has_row_del_key)
  moreover have "usage_ok (purge_db m d)"
    using u by (simp add: purge_db_def usage_ok_del_spool usage_ok_del_attachments)
  ultimately show ?thesis by simp
qed

lemma db_purge [simp]: "db (purgeMessage m s) = purge_db m (db s)"
  by (simp add: purgeMessage_def)

lemma purge_fold_ok:
  "usage_ok (db s) \<Longrightarrow> spool_ok (db s) \<Longrightarrow> usage_ok (db (fold purgeMessage ms s)) \<and> spool_ok (db (fold purgeMessage ms s))"
  by (induction ms arbitrary: s) (simp_all add: purge_ok)

lemma retention_ok: "usage_ok (db s) \<Longrightarrow> spool_ok (db s) \<Longrightarrow> usage_ok (db (retention_tick w s)) \<and> spool_ok (db (retention_tick w s))"
  by (simp add: retention_tick_def purge_fold_ok)

lemma set_js_set [simp]: "set (js_set xs) = set xs"
proof -
  have "set (fold js_add xs acc) = set xs \<union> set acc" for acc
    by (induction xs arbitrary: acc) auto
  then show ?thesis by (simp add: js_set_def)
qed

lemma distinct_js_set [simp]: "distinct (js_set xs)"
proof -
  have "distinct acc \<Longrightarrow> distinct (fold js_add xs acc)" for acc
    by (induction xs arbitrary: acc) auto
  then show ?thesis by (simp add: js_set_def)
qed

definition set_consumed :: "string \<Rightarrow> string list \<Rightarrow> db \<Rightarrow> db" where
  "set_consumed m c d = spool_update (upd_rows (\<lambda>r. sp_message r = m) (\<lambda>r. r\<lparr>sp_consumed := c\<rparr>)) d"

lemma set_consumed_frame [simp]:
  "members (set_consumed m c d) = members d" "attachments (set_consumed m c d) = attachments d"
  "spool_usage (set_consumed m c d) = spool_usage d"
  by (simp_all add: set_consumed_def)

lemma ledger_set_consumed [simp]: "ledger (set_consumed m c d) = ledger d"
proof -
  have "map (\<lambda>r. (sp_sender r, sp_bytes r)) (upd_rows P (\<lambda>r. r\<lparr>sp_consumed := c\<rparr>) t)
      = map (\<lambda>r. (sp_sender r, sp_bytes r)) t" for P t
    by (induction t) (auto simp: upd_rows_def)
  then show ?thesis by (simp only: ledger_def set_consumed_def) simp
qed

lemma purge_set_consumed: "purge_db m (set_consumed m c d) = purge_db m d"
proof -
  have rows: "del_rows (\<lambda>r. sp_message r = m) (upd_rows (\<lambda>r. sp_message r = m) (\<lambda>r. r\<lparr>sp_consumed := c\<rparr>) t)
      = del_rows (\<lambda>r. sp_message r = m) t" for t
    by (induction t) (auto simp: upd_rows_def del_rows_def)
  have gone: "fold (\<lambda>r. usage_delete (sp_sender r) (sp_bytes r))
        (filter (\<lambda>r. sp_message r = m) (upd_rows (\<lambda>r. sp_message r = m) (\<lambda>r. r\<lparr>sp_consumed := c\<rparr>) t)) u
      = fold (\<lambda>r. usage_delete (sp_sender r) (sp_bytes r)) (filter (\<lambda>r. sp_message r = m) t) u" for t u
    by (induction t arbitrary: u) (auto simp: upd_rows_def)
  show ?thesis
    by (simp add: purge_db_def appendOp_def max_seq_def del_spool_def del_attachments_def set_consumed_def Let_def rows gone)
qed

lemma ack_step:
  assumes "ackConsumed x m s = (res, s')"
  shows "db s' = db s \<and> (res = Inr () \<longrightarrow> \<not> has_row sp_message m (spool (db s)))
       \<or> res = Inr () \<and> get_member (db s) x \<noteq> None
         \<and> (\<exists>row. get_row sp_message m (spool (db s)) = Some row \<and> x \<in> set (sp_recipients row)
            \<and> (if set (sp_recipients row) \<subseteq> insert x (set (sp_consumed row)) then db s' = purge_db m (db s)
               else db s' = set_consumed m (js_add x (js_set (sp_consumed row))) (db s)))"
  using assms
  by (auto simp: ackConsumed_def Let_def list_all_iff get_row_None
      purge_set_consumed [unfolded set_consumed_def] set_consumed_def split: option.splits if_splits)

lemma ack_ok:
  assumes "ackConsumed x m s = (res, s')" and "usage_ok (db s)" and "spool_ok (db s)"
  shows "usage_ok (db s') \<and> spool_ok (db s')"
  using ack_step [OF assms(1)]
proof (elim disjE conjE exE)
  fix row
  assume row: "get_row sp_message m (spool (db s)) = Some row" and x: "x \<in> set (sp_recipients row)"
    and s': "if set (sp_recipients row) \<subseteq> insert x (set (sp_consumed row)) then db s' = purge_db m (db s)
             else db s' = set_consumed m (js_add x (js_set (sp_consumed row))) (db s)"
  show ?thesis
  proof (cases "set (sp_recipients row) \<subseteq> insert x (set (sp_consumed row))")
    case True
    then show ?thesis using s' purge_ok [OF assms(2,3)] by simp
  next
    case False
    let ?c = "js_add x (js_set (sp_consumed row))"
    from False s' have d: "db s' = set_consumed m ?c (db s)" by simp
    have unique: "r \<in> set (spool (db s)) \<Longrightarrow> sp_message r = m \<Longrightarrow> r = row" for r
      using row assms(3) get_row_pk [of sp_message "spool (db s)" r] by (auto simp: spool_ok_def)
    have "spool_row_ok row" using row assms(3) by (auto simp: spool_ok_def dest: get_row_Some)
    then have "spool_row_ok (row\<lparr>sp_consumed := ?c\<rparr>)"
      using False x by (auto simp: spool_row_ok_def)
    then have "\<forall>r \<in> set (spool (db s')). spool_row_ok r"
      using assms(3) unique by (auto simp: d set_consumed_def set_upd spool_ok_def)
    then have "spool_ok (db s')"
      using assms(3) by (simp add: spool_ok_def d) (auto simp: set_consumed_def pk_upd has_row_upd)
    then show ?thesis using assms(2) by (simp add: d usage_ok_matches)
  qed
qed (use assms in simp)

text \<open>A run of acknowledgements of one message, in any order and with repetitions.\<close>

definition ack_run :: "string \<Rightarrow> string list \<Rightarrow> host \<Rightarrow> host" where
  "ack_run m xs s = fold (\<lambda>x s. snd (ackConsumed x m s)) xs s"

lemma ack_run_gone: "\<not> has_row sp_message m (spool (db s)) \<Longrightarrow> \<not> has_row sp_message m (spool (db (ack_run m xs s)))"
proof (induction xs arbitrary: s)
  case (Cons x xs)
  obtain res s' where a: "ackConsumed x m s = (res, s')" by (meson surj_pair)
  have "db s' = db s" using ack_step [OF a] Cons.prems by (auto simp: has_row_iff)
  with Cons a show ?case by (simp add: ack_run_def)
qed (simp add: ack_run_def)

lemma ack_run_iff:
  assumes "get_row sp_message m (spool (db s)) = Some row" and "\<not> set (sp_recipients row) \<subseteq> set (sp_consumed row)"
    and "\<forall>x \<in> set xs. get_member (db s) x \<noteq> None"
  shows "has_row sp_message m (spool (db (ack_run m xs s)))
     \<longleftrightarrow> \<not> set (sp_recipients row) \<subseteq> set (sp_consumed row) \<union> set xs"
  using assms
proof (induction xs arbitrary: s row)
  case Nil
  then show ?case by (auto simp: ack_run_def has_row_iff)
next
  case (Cons x xs)
  obtain res s' where a: "ackConsumed x m s = (res, s')" by (meson surj_pair)
  have run: "ack_run m (x # xs) s = ack_run m xs s'" by (simp add: ack_run_def a)
  consider (other) "x \<notin> set (sp_recipients row)"
    | (purge) "x \<in> set (sp_recipients row)" "set (sp_recipients row) \<subseteq> insert x (set (sp_consumed row))"
    | (more) "x \<in> set (sp_recipients row)" "\<not> set (sp_recipients row) \<subseteq> insert x (set (sp_consumed row))" by blast
  then show ?case
  proof cases
    case other
    then have "db s' = db s" using ack_step [OF a] Cons.prems(1) by auto
    with Cons.IH [of s' row] Cons.prems other show ?thesis unfolding run by auto
  next
    case purge
    then have "db s' = purge_db m (db s)"
      using ack_step [OF a] a Cons.prems(1,3) by (auto simp: has_row_iff ackConsumed_def Let_def split: option.splits)
    then have "\<not> has_row sp_message m (spool (db s'))"
      by (simp add: purge_db_def appendOp_def del_spool_def Let_def has_row_del_key)
    with ack_run_gone [OF this] purge show ?thesis unfolding run by auto
  next
    case more
    let ?row = "row\<lparr>sp_consumed := js_add x (js_set (sp_consumed row))\<rparr>"
    from more have d: "db s' = set_consumed m (js_add x (js_set (sp_consumed row))) (db s)"
      using ack_step [OF a] a Cons.prems(1,3) by (auto simp: has_row_iff ackConsumed_def Let_def split: option.splits)
    have "get_row sp_message m (spool (db s')) = Some ?row"
      using Cons.prems(1) get_row_Some [OF Cons.prems(1)] by (simp add: d set_consumed_def get_row_upd)
    moreover have "\<forall>y \<in> set xs. get_member (db s') y \<noteq> None" using Cons.prems(3) by (simp add: d get_member_def)
    ultimately show ?thesis using Cons.IH [of s' ?row] more unfolding run by auto
  qed
qed

section \<open>What the spool guarantees\<close>

lemma sample_channel [simp]:
  "get_channel sample_db ''general'' = Some \<lparr>ch_id = ''general'', ch_type = TextChannel, ch_name = ''general'',
     ch_overrides = [], ch_created = 0\<rparr>"
  "get_channel sample_db ''call'' = Some \<lparr>ch_id = ''call'', ch_type = CallChannel, ch_name = ''call'',
     ch_overrides = [], ch_created = 0\<rparr>"
  by (simp_all add: get_channel_def get_row_def sample_db_def)

definition sample_envelope :: envelope where
  "sample_envelope =
     \<lparr>e_version = 1, e_message = ''m1'', e_server = ''srv'', e_channel = ''general'', e_sender = ''ann'',
      e_device = None, e_epoch = 0, e_algo = ''sha256'',
      e_members = [''bob'', ''ann''], e_commitment = join NUL [''ann'', ''bob''], e_ciphertext = ''AAAA'',
      e_attachments = [], e_seq = 0, e_prev = None, e_created = 5, e_expires = None\<rparr>"

definition sent_envelope :: envelope where
  "sent_envelope = sample_envelope\<lparr>e_seq := 1\<rparr>"

definition sample_spooled :: spool_row where
  "sample_spooled =
     \<lparr>sp_message = ''m1'', sp_channel = ''general'', sp_envelope = sent_envelope, sp_expires = 604801000,
      sp_recipients = [''ann'', ''bob''], sp_consumed = [], sp_created = 1000, sp_sender = ''ann'', sp_bytes = 100\<rparr>"

lemma sample_sorted [simp]: "sorted_set [''bob'', ''ann''] = [''ann'', ''bob'']" "sorted_set [''ann'', ''bob''] = [''ann'', ''bob'']"
  by (code_simp, code_simp)

lemma sample_checked [simp]: "check_envelope sample_world sample_db ''ann'' sample_envelope = Inr [''ann'', ''bob'']"
  by (simp add: check_envelope_def sample_envelope_def authorizedAudience_def member_may_def member_permits_def
      memberContext_def sample_member_def default_roles_def evaluatePermission_def override_for_def Let_def
      permission_in_PERMISSIONS sample_world_def)

lemma sample_config [simp]: "config_number sample_db k n = Some n"
  by (simp add: config_number_def getConfig_def sample_db_def obj_get_def number_or_def)

lemma sample_sent:
  "fst (sendEnvelope sample_world ''ann'' sample_envelope sample_host) = Inr ()"
  "spool (db (snd (sendEnvelope sample_world ''ann'' sample_envelope sample_host))) = [sample_spooled]"
proof -
  have u: "quota_exceeded sample_db x 100 = False" for x
    by (simp add: quota_exceeded_def currentSpoolBytes_def currentMemberSpoolBytes_def memberSpoolQuota_def usage_read_def
        gt_num_def sample_db_def empty_db_def DEFAULT_SPOOL_BYTES_def DEFAULT_MEMBER_SPOOL_BYTES_def config_number_def
        getConfig_def obj_get_def number_or_def)
  have "replay_check REPLAY_TTL 1000 ''m1'' [] = (True, [(''m1'', 1000)])"
    by (simp add: replay_check_def replay_prune_def Let_def)
  then show "fst (sendEnvelope sample_world ''ann'' sample_envelope sample_host) = Inr ()"
    "spool (db (snd (sendEnvelope sample_world ''ann'' sample_envelope sample_host))) = [sample_spooled]"
    using u sample_checked sample_config [of "''maxRetentionHours''" 168]
    by (simp_all add: sendEnvelope_def sample_host_def seq_next_def seq_last_def seqFor_def Let_def sample_world_def
        HARD_MAX_ENVELOPE_BYTES_def store_envelope_def ins_spool_def ins_row_def has_row_def sample_spooled_def
        sent_envelope_def sample_envelope_def op_defs deliver_all_def)
      (simp_all add: sample_db_def empty_db_def)
qed

text \<open>
  C3. A message is accepted only within the rules: its sender is the authenticated member and part of the
  audience, every recipient may view the channel, its id is neither stored nor remembered by the replay
  window, and with exact counters what is stored afterwards, for everybody and for the sender, stays within
  the configured quotas. It is then stored once, for exactly the members of the audience; a refused message
  leaves the database as it was.
\<close>

theorem accepted_message_within_rules:
  assumes "sendEnvelope w actorId env s = (res, s')" and "usage_ok (db s)" and "actorId \<noteq> []"
    and "\<And>e. 0 \<le> envelope_bytes w e"
  shows "(\<exists>e. res = Inl e) \<and> db s' = db s
     \<or> res = Inr () \<and> e_sender env = actorId \<and> actorId \<in> set (e_members env)
       \<and> \<not> has_row sp_message (e_message env) (spool (db s))
       \<and> (\<forall>t. (e_message env, t) \<in> set (replay s) \<longrightarrow> now w - t > REPLAY_TTL)
       \<and> (\<exists>row ch. spool (db s') = spool (db s) @ [row] \<and> sp_message row = e_message env
            \<and> sp_recipients row = sorted_set (e_members env) \<and> get_channel (db s) (e_channel env) = Some ch
            \<and> (\<forall>x \<in> set (sp_recipients row). member_may (db s) ch View_channel x))
       \<and> (\<forall>q. config_number (db s) ''maxSpoolBytes'' DEFAULT_SPOOL_BYTES = Some q \<longrightarrow> ledger_total (ledger (db s')) \<le> q)
       \<and> (\<forall>q. memberSpoolQuota (db s) = Some q \<longrightarrow> ledger_owner (ledger (db s')) actorId \<le> q)"
  using sendEnvelope_step [OF assms(1)]
proof (elim disjE conjE exE)
  fix audience v seen env'
  let ?n = "envelope_bytes w env'"
  assume ok: "res = Inr ()" and c: "check_envelope w (db s) actorId env = Inr audience"
    and env': "env' = env\<lparr>e_seq := v, e_prev := None\<rparr>" and quota: "\<not> quota_exceeded (db s) actorId ?n"
    and fresh: "replay_check REPLAY_TTL (now w) (e_message env) (replay s) = (True, seen)"
    and st: "store_envelope w actorId env' audience ?n (db s) = Some (db s')"
  note audience = check_envelopeD [OF c]
  from st obtain row d1 where ins: "ins_spool row (db s) = Some d1"
    and s': "db s' = appendOp (OpEnvelope (e_message env') (e_channel env') actorId)
                       (fold (link_attachment (e_message env')) (e_attachments env') d1)"
    and row: "sp_message row = e_message env" "sp_recipients row = audience" "sp_sender row = actorId" "sp_bytes row = ?n"
    by (auto simp: store_envelope_def Let_def env' split: option.splits)
  have spool: "spool (fold (link_attachment m) as d) = spool d" and ledger: "ledger (fold (link_attachment m) as d) = ledger d"
    for m "as" d by (induction "as" arbitrary: d) simp_all
  from ins have d1: "spool d1 = spool (db s) @ [row]" "ledger d1 = ledger (db s) @ [(actorId, ?n)]"
    and new: "\<not> has_row sp_message (e_message env) (spool (db s))"
    by (auto simp: ins_spool_def ins_row_def ledger_def row split: if_splits)
  have now_stored: "spool (db s') = spool (db s) @ [row]" "ledger (db s') = ledger (db s) @ [(actorId, ?n)]"
    using spool ledger d1 by (simp_all add: s' appendOp_def ledger_def)
  have "currentSpoolBytes (db s) = ledger_total (ledger (db s))"
    "currentMemberSpoolBytes (db s) actorId = ledger_owner (ledger (db s)) actorId"
    using assms(2,3) by (simp_all add: usage_ok_def currentSpoolBytes_def currentMemberSpoolBytes_def)
  then have "\<forall>q. config_number (db s) ''maxSpoolBytes'' DEFAULT_SPOOL_BYTES = Some q \<longrightarrow> ledger_total (ledger (db s')) \<le> q"
    "\<forall>q. memberSpoolQuota (db s) = Some q \<longrightarrow> ledger_owner (ledger (db s')) actorId \<le> q"
    using quota by (auto simp: quota_exceeded_def gt_num_def now_stored)
  moreover have "\<forall>t. (e_message env, t) \<in> set (replay s) \<longrightarrow> now w - t > REPLAY_TTL"
    using fresh replay_remembers [of "e_message env" _ "replay s" "now w" REPLAY_TTL "e_message env"] by fastforce
  ultimately show ?thesis
    using ok audience new now_stored(1) row by (intro disjI2) (auto simp: set_sorted_set)
qed simp

theorem accepted_message_within_rules_witness:
  "\<exists>row. spool (db (snd (sendEnvelope sample_world ''ann'' sample_envelope sample_host))) = [row]
     \<and> ledger_total (ledger (db (snd (sendEnvelope sample_world ''ann'' sample_envelope sample_host)))) \<le> DEFAULT_SPOOL_BYTES"
proof -
  let ?r = "sendEnvelope sample_world ''ann'' sample_envelope sample_host"
  have u: "usage_ok sample_db" by (simp add: usage_ok_def ledger_def usage_read_def sample_db_def empty_db_def)
  have "?r = (fst ?r, snd ?r)" by simp
  from accepted_message_within_rules [OF this] u sample_sent(1) sample_config [of "''maxSpoolBytes''" DEFAULT_SPOOL_BYTES]
  have "ledger_total (ledger (db (snd ?r))) \<le> DEFAULT_SPOOL_BYTES"
    by (simp add: sample_host_def) (simp add: sample_world_def)
  with sample_sent(2) show ?thesis by simp
qed

definition spooled_host :: host where
  "spooled_host = sample_host\<lparr>db := sample_db\<lparr>spool := [sample_spooled],
                    spool_usage := usage_insert ''ann'' 100 Map.empty\<rparr>\<rparr>"

lemma spooled_lookups [simp]:
  "get_member (db spooled_host) x = get_member sample_db x" "spool (db spooled_host) = [sample_spooled]"
  "get_role (db spooled_host) x = get_role sample_db x" "get_channel (db spooled_host) x = get_channel sample_db x"
  by (simp_all add: spooled_host_def get_member_def get_role_def get_channel_def)

lemma spooled_ok: "spool_ok (db spooled_host)"
  by (auto simp: spool_ok_def spool_row_ok_def sample_spooled_def sent_envelope_def sample_envelope_def
      spooled_host_def sample_db_def empty_db_def)

text \<open>
  C4. A message disappears exactly when everybody has acknowledged it. Take a stored message and any run of
  acknowledgements by members, in any order, with repetitions and with members it was not addressed to: at
  the end the message is still stored if and only if some recipient has acknowledged neither before nor
  during the run.
\<close>

theorem message_purged_iff_all_consumed:
  assumes "spool_ok (db s)" and "get_row sp_message m (spool (db s)) = Some row"
    and "\<forall>x \<in> set xs. isMember (db s) x"
  shows "has_row sp_message m (spool (db (ack_run m xs s)))
     \<longleftrightarrow> (\<exists>r \<in> set (sp_recipients row). r \<notin> set (sp_consumed row) \<and> r \<notin> set xs)"
proof -
  have "spool_row_ok row" using assms(1,2) by (auto simp: spool_ok_def dest: get_row_Some)
  then have "\<not> set (sp_recipients row) \<subseteq> set (sp_consumed row)" by (auto simp: spool_row_ok_def)
  from ack_run_iff [OF assms(2) this] assms(3) show ?thesis by (auto simp: isMember_def)
qed

theorem message_purged_iff_all_consumed_witness:
  "has_row sp_message ''m1'' (spool (db (ack_run ''m1'' [''bob'', ''cat'', ''bob''] spooled_host)))
   \<and> \<not> has_row sp_message ''m1'' (spool (db (ack_run ''m1'' [''bob'', ''cat'', ''ann''] spooled_host)))"
proof -
  have row: "get_row sp_message ''m1'' (spool (db spooled_host)) = Some sample_spooled"
    by (simp add: get_row_def sample_spooled_def)
  have m: "\<forall>x \<in> set xs. isMember (db spooled_host) x" if "set xs \<subseteq> {''ann'', ''bob'', ''cat''}" for xs
    using that by (auto simp: isMember_def)
  show ?thesis
    using message_purged_iff_all_consumed [OF spooled_ok row m, of "[''bob'', ''cat'', ''bob'']"]
      message_purged_iff_all_consumed [OF spooled_ok row m, of "[''bob'', ''cat'', ''ann'']"]
    by (simp add: sample_spooled_def)
qed

text \<open>
  A member is handed exactly the stored messages that are unexpired, that were addressed to the member
  by their sender and whose channel exists and is visible to the member now; in the order of their creation.
\<close>

theorem pending_exactly_addressed:
  assumes "getPending w x s = Inr es" and "spool_ok (db s)"
  shows "sorted (map e_created es)
    \<and> (\<forall>e. e \<in> set es \<longleftrightarrow> (\<exists>r \<in> set (spool (db s)). sp_envelope r = e \<and> sp_expires r > now w \<and> x \<in> set (e_members e)
          \<and> (\<exists>ch. get_channel (db s) (e_channel e) = Some ch \<and> member_may (db s) ch View_channel x)))"
proof -
  from assms(1) have es: "es = sort_key e_created (map sp_envelope (filter (\<lambda>r. sp_expires r > now w
      \<and> x \<in> set (sp_recipients r) \<and> (case get_channel (db s) (e_channel (sp_envelope r)) of None \<Rightarrow> False
          | Some ch \<Rightarrow> member_may (db s) ch View_channel x)) (spool (db s))))"
    by (cases "get_member (db s) x") (simp_all add: getPending_def Let_def)
  have "r \<in> set (spool (db s)) \<Longrightarrow> set (sp_recipients r) = set (e_members (sp_envelope r))" for r
    using assms(2) by (auto simp: spool_ok_def spool_row_ok_def)
  moreover have "e \<in> set es \<longleftrightarrow> (\<exists>r \<in> set (spool (db s)). sp_envelope r = e \<and> sp_expires r > now w \<and> x \<in> set (sp_recipients r)
      \<and> (\<exists>ch. get_channel (db s) (e_channel e) = Some ch \<and> member_may (db s) ch View_channel x))" for e
    unfolding es by (auto split: option.splits)
  ultimately show ?thesis unfolding es by (auto simp del: set_filter)
qed

theorem pending_exactly_addressed_witness:
  "\<exists>es. getPending sample_world ''bob'' spooled_host = Inr es \<and> sent_envelope \<in> set es"
proof -
  obtain es where es: "getPending sample_world ''bob'' spooled_host = Inr es"
    by (simp add: getPending_def Let_def)
  have "member_may (db spooled_host) \<lparr>ch_id = ''general'', ch_type = TextChannel, ch_name = ''general'',
      ch_overrides = [], ch_created = 0\<rparr> View_channel ''bob''"
    by (simp add: member_may_def sample_member_def default_roles_def evaluatePermission_def override_for_def
        permission_in_PERMISSIONS memberContext_def)
  then have "\<exists>r \<in> set (spool (db spooled_host)). sp_envelope r = sent_envelope \<and> sp_expires r > now sample_world
      \<and> ''bob'' \<in> set (e_members sent_envelope)
      \<and> (\<exists>ch. get_channel (db spooled_host) (e_channel sent_envelope) = Some ch \<and> member_may (db spooled_host) ch View_channel ''bob'')"
    by (simp add: sample_spooled_def sent_envelope_def sample_envelope_def sample_world_def)
  with pending_exactly_addressed [OF es spooled_ok] es show ?thesis by blast
qed

text \<open>
  A welcome is never lost on the way: while one is pending for a member, pushing another is refused (the
  same one is accepted without effect), and the one command that removes it is its recipient's own
  acknowledgement naming its hash; only the owner can push at all.
\<close>

theorem welcome_kept_until_acknowledged:
  assumes "get_row w_id x (welcomes (db s)) = Some row"
  shows "welcomes (db (snd (welcomePush w a y text s))) = welcomes (db s) @
            (if isAuthorizedMlsCommitter (db s) a \<and> isMember (db s) y \<and> \<not> has_row w_id y (welcomes (db s))
             then [\<lparr>w_id = y, w_data = text, w_created = now w\<rparr>] else [])
       \<and> (fst (welcomePush w a x text s) = Inr () \<longrightarrow> text = w_data row \<and> isAuthorizedMlsCommitter (db s) a)
       \<and> (get_row w_id x (welcomes (db (snd (welcomeAckConsumed w y hash s)))) \<noteq> Some row \<longrightarrow>
            y = x \<and> isMember (db s) x \<and> hash = sha256Hex w (w_data row))"
proof -
  have "get_row w_id x (del_rows (\<lambda>r. w_id r = y \<and> w_data r = z) t) = get_row w_id x t" if "y \<noteq> x" for y z and t :: "welcome_row list"
    using that by (induction t) (auto simp: get_row_def del_rows_def)
  with assms have "get_row w_id x (welcomes (db (snd (welcomeAckConsumed w y hash s)))) \<noteq> Some row \<longrightarrow>
      y = x \<and> isMember (db s) x \<and> hash = sha256Hex w (w_data row)"
    by (cases "y = x") (auto simp: welcomeAckConsumed_def isMember_def split: option.splits)
  moreover have "fst (welcomePush w a x text s) = Inr () \<longrightarrow> text = w_data row \<and> isAuthorizedMlsCommitter (db s) a"
    using assms by (auto simp: welcomePush_def Let_def)
  moreover have "welcomes (db (snd (welcomePush w a y text s))) = welcomes (db s) @
      (if isAuthorizedMlsCommitter (db s) a \<and> isMember (db s) y \<and> \<not> has_row w_id y (welcomes (db s))
       then [\<lparr>w_id = y, w_data = text, w_created = now w\<rparr>] else [])"
    by (cases "get_row w_id y (welcomes (db s))") (simp_all add: welcomePush_def Let_def isMember_def has_row_iff)
  ultimately show ?thesis by blast
qed

theorem welcome_kept_until_acknowledged_witness:
  "fst (welcomePush sample_world ''ann'' ''cat'' ''B''
      (sample_host\<lparr>db := sample_db\<lparr>welcomes := [\<lparr>w_id = ''cat'', w_data = ''A'', w_created = 0\<rparr>]\<rparr>\<rparr>)) \<noteq> Inr ()"
  using welcome_kept_until_acknowledged [of "''cat''"
      "sample_host\<lparr>db := sample_db\<lparr>welcomes := [\<lparr>w_id = ''cat'', w_data = ''A'', w_created = 0\<rparr>]\<rparr>\<rparr>"
      "\<lparr>w_id = ''cat'', w_data = ''A'', w_created = 0\<rparr>" sample_world "''ann''" "''cat''" "''B''"]
  by (auto simp: get_row_def)

section \<open>Frames for the invariants of the other components\<close>

lemma same_community_link [simp]: "same_community d (link_attachment m a d') = same_community d d'"
  by (simp add: same_community_def link_attachment_def)

lemma same_community_links [simp]: "same_community d (fold (link_attachment m) as d') = same_community d d'"
  by (induction "as" arbitrary: d') simp_all

lemma store_envelope_same: "store_envelope w x env audience n d = Some d' \<Longrightarrow> same_community d d'"
proof -
  assume "store_envelope w x env audience n d = Some d'"
  then obtain row d1 where "ins_spool row d = Some d1"
    and d': "d' = appendOp (OpEnvelope (e_message env) (e_channel env) x)
                    (fold (link_attachment (e_message env)) (e_attachments env) d1)"
    by (auto simp: store_envelope_def Let_def split: option.splits)
  then have "same_community d d1" by (auto simp: ins_spool_def same_community_def)
  then have "same_community d (fold (link_attachment (e_message env)) (e_attachments env) d1)" by simp
  then show ?thesis by (simp add: d' same_community_def appendOp_def)
qed

lemma same_community_send:
  assumes "sendEnvelope w x e s = (res, s')"
  shows "same_community (db s) (db s')"
  using sendEnvelope_step [OF assms]
proof (elim disjE conjE exE)
  fix audience env n
  assume "store_envelope w x env audience n (db s) = Some (db s')"
  then show ?thesis by (rule store_envelope_same)
qed simp

lemma same_community_purge [simp]: "same_community d (purge_db m d)"
  by (simp add: purge_db_def del_spool_def del_attachments_def Let_def appendOp_def same_community_def)

lemma same_community_consumed [simp]: "same_community d (set_consumed m c d)"
  by (simp add: same_community_def set_consumed_def)

lemma same_community_ack:
  assumes "ackConsumed x m s = (res, s')"
  shows "same_community (db s) (db s')"
proof -
  from ack_step [OF assms] have "db s' = db s \<or> db s' = purge_db m (db s) \<or> (\<exists>c. db s' = set_consumed m c (db s))"
    by (meson)
  then show ?thesis by auto
qed

lemma same_community_trans: "same_community d d' \<Longrightarrow> same_community d' d'' \<Longrightarrow> same_community d d''"
  by (simp add: same_community_def)

lemma same_community_retention: "same_community (db s) (db (retention_tick w s))"
proof -
  have "same_community (db s) (db (fold purgeMessage ms s))" for ms
  proof (induction ms arbitrary: s)
    case (Cons m ms)
    from Cons.IH [of "purgeMessage m s"] same_community_trans [OF same_community_purge [of "db s" m]]
    show ?case by simp
  qed simp
  then show ?thesis by (simp add: retention_tick_def)
qed

lemma community_ok_presence:
  assumes "community_ok d"
  shows "community_ok (members_update (upd_rows P (\<lambda>m. m\<lparr>m_presence := st\<rparr>)) d)"
proof -
  let ?f = "\<lambda>m. if P m then m\<lparr>m_presence := st\<rparr> else m"
  obtain o1 where "o1 \<in> set (members d)" "m_role o1 = ''role-owner''" using assms by (auto simp: community_ok_def)
  then have "\<exists>m \<in> ?f ` set (members d). m_role m = ''role-owner''" by (intro bexI [of _ "?f o1"]) auto
  moreover have "\<forall>m \<in> ?f ` set (members d). has_row role_id (m_role m) (roles d) \<and> \<not> has_row b_id (m_id m) (bans d)"
    using assms by (auto simp: community_ok_def)
  ultimately show ?thesis
    using assms unfolding community_ok_def by (simp add: pk_upd set_upd del: image_iff)
qed

lemma setPresence_ok: "community_ok (db s) \<Longrightarrow> setPresence x st s = (res, s') \<Longrightarrow> community_ok (db s')"
  by (auto simp: setPresence_def community_ok_presence split: if_splits)

end
