(* ===== verification/Transfers.thy ===== *)
theory Transfers
  imports Messages
begin

text \<open>
  Attachment transfers (\<open>apps/janjanode/src/server.service.ts\<close>): the encrypted file is announced, its
  chunks are stored one by one, completing checks the hash of the whole, a message links it, and the
  message's audience may download it.
\<close>

section \<open>Operations\<close>

definition ABANDONED_ATTACHMENT_TTL_MS :: int where "ABANDONED_ATTACHMENT_TTL_MS = 60 * 60000"
definition MAX_PENDING_ATTACHMENT_TRANSFERS_PER_MEMBER :: nat where "MAX_PENDING_ATTACHMENT_TRANSFERS_PER_MEMBER = 16"
definition MAX_PENDING_ATTACHMENT_TRANSFERS_GLOBAL :: nat where "MAX_PENDING_ATTACHMENT_TRANSFERS_GLOBAL = 256"

definition max_attachment_bytes :: "db \<Rightarrow> int" where
  "max_attachment_bytes d =
     (case config_number d ''maxAttachmentBytes'' MAX_ATTACHMENT_BYTES of
        None \<Rightarrow> MAX_ATTACHMENT_BYTES
      | Some n \<Rightarrow> if is_safe_integer n \<and> n > 0 then min MAX_ATTACHMENT_BYTES n else MAX_ATTACHMENT_BYTES)"

definition pending_of :: "string \<Rightarrow> db \<Rightarrow> nat" where
  "pending_of x d = length (filter (\<lambda>a. at_linked a = None \<and> at_owner a = x) (attachments d))"

definition pending_all :: "db \<Rightarrow> nat" where
  "pending_all d = length (filter (\<lambda>a. at_linked a = None) (attachments d))"

definition stored_chunks :: "db \<Rightarrow> string \<Rightarrow> chunk list" where
  "stored_chunks d assetId = sort_key c_index (filter (\<lambda>c. c_asset c = assetId) (chunks d))"

text \<open>The checks on what a client announces, up to the question whether the transfer exists already.\<close>

definition check_upload ::
    "db \<Rightarrow> string \<Rightarrow> string \<Rightarrow> string list \<Rightarrow> int \<Rightarrow> int \<Rightarrow> string \<Rightarrow> int \<Rightarrow> (string list) result" where
  "check_upload d actorId channelId audienceMembers sizeBytes totalChunks ciphertextHash ttlHours =
     (case get_member d actorId of
        None \<Rightarrow> Inl (Fail Forbidden)
      | Some m \<Rightarrow>
          (case (get_channel d channelId, get_role d (m_role m)) of
             (Some ch, Some r) \<Rightarrow>
               if \<not> evaluatePermission (memberContext m) r (Some ch) Send_files then Inl (Fail Forbidden)
               else (case authorizedAudience d ch audienceMembers of
                   Inl _ \<Rightarrow> Inl (Fail Forbidden)
                 | Inr audience \<Rightarrow>
                     if actorId \<notin> set audience then Inl (Fail Forbidden)
                     else if sizeBytes \<le> ATTACHMENT_ENCRYPTION_OVERHEAD_BYTES
                       \<or> attachmentChunkCount sizeBytes \<noteq> Inr totalChunks then Inl (Fail Invalid_input)
                     else if \<not> SHA256_HEX ciphertextHash then Inl (Fail Invalid_input)
                     else if \<not> is_safe_integer ttlHours \<or> ttlHours < 1 \<or> ttlHours > 24 then Inl (Fail Invalid_input)
                     else if sizeBytes > max_attachment_bytes d then Inl (Fail Invalid_input)
                     else Inr audience)
           | _ \<Rightarrow> Inl (Fail Not_found)))"

definition attachmentUploadBegin ::
    "world \<Rightarrow> string \<Rightarrow> string \<Rightarrow> string \<Rightarrow> string list \<Rightarrow> int \<Rightarrow> int \<Rightarrow> string \<Rightarrow> int option \<Rightarrow> host
     \<Rightarrow> (int list) result \<times> host" where
  "attachmentUploadBegin w actorId assetId channelId audienceMembers sizeBytes totalChunks ciphertextHash ttl s =
     (let d = db s; ttlHours = (case ttl of None \<Rightarrow> 24 | Some t \<Rightarrow> t) in
      case check_upload d actorId channelId audienceMembers sizeBytes totalChunks ciphertextHash ttlHours of
        Inl e \<Rightarrow> (Inl e, s)
      | Inr audience \<Rightarrow>
          (case get_row at_asset assetId (attachments d) of
             Some existing \<Rightarrow>
               if at_owner existing \<noteq> actorId \<or> at_channel existing \<noteq> channelId \<or> truthy_str (at_linked existing)
                 \<or> at_bytes existing \<noteq> sizeBytes \<or> at_chunks existing \<noteq> totalChunks \<or> at_hash existing \<noteq> ciphertextHash
                 \<or> sort (at_audience existing) \<noteq> audience
               then (Inl (Fail Conflict), s)
               else (Inr (map c_index (stored_chunks d assetId)), s)
           | None \<Rightarrow>
               if pending_of actorId d \<ge> MAX_PENDING_ATTACHMENT_TRANSFERS_PER_MEMBER then (Inl (Fail Rate_limited), s)
               else if pending_all d \<ge> MAX_PENDING_ATTACHMENT_TRANSFERS_GLOBAL then (Inl (Fail Rate_limited), s)
               else if quota_exceeded d actorId sizeBytes then (Inl (Fail Rate_limited), s)
               else (case ins_attachment \<lparr>at_asset = assetId, at_data = [], at_bytes = sizeBytes,
                            at_expires = now w + min 24 ttlHours * 3600000, at_created = now w, at_owner = actorId,
                            at_channel = channelId, at_audience = audience, at_linked = None, at_chunks = totalChunks,
                            at_hash = ciphertextHash, at_completed = None\<rparr> d of
                   None \<Rightarrow> (Inl (Throws ConstraintError), s)
                 | Some d' \<Rightarrow> (Inr [], s\<lparr>db := d'\<rparr>))))"

definition live_transfer :: "world \<Rightarrow> db \<Rightarrow> string \<Rightarrow> attachment option" where
  "live_transfer w d assetId = List.find (\<lambda>a. at_asset a = assetId \<and> at_expires a > now w) (attachments d)"

text \<open>The size the chunk with this index must have.\<close>

definition chunk_size :: "attachment \<Rightarrow> int \<Rightarrow> int" where
  "chunk_size a index =
     (if index = at_chunks a - 1 then at_bytes a - ATTACHMENT_CHUNK_BYTES * (at_chunks a - 1) else ATTACHMENT_CHUNK_BYTES)"

definition attachmentUploadChunk ::
    "world \<Rightarrow> string \<Rightarrow> string \<Rightarrow> int \<Rightarrow> string \<Rightarrow> int \<Rightarrow> string \<Rightarrow> host \<Rightarrow> unit result \<times> host" where
  "attachmentUploadChunk w actorId assetId index dataB64 sizeBytes hash s =
     (let d = db s in
      case live_transfer w d assetId of
        None \<Rightarrow> (Inl (Fail Not_found), s)
      | Some a \<Rightarrow>
          if at_owner a \<noteq> actorId \<or> truthy_str (at_linked a) then (Inl (Fail Forbidden), s)
          else if (case get_channel d (at_channel a) of None \<Rightarrow> True | Some ch \<Rightarrow> \<not> member_may d ch Send_files actorId)
          then (Inl (Fail Forbidden), s)
          else if \<not> is_safe_integer index \<or> index < 0 \<or> index \<ge> at_chunks a \<or> chunk_size a index < 1
            \<or> \<not> is_ok (decodeAttachmentChunk (chunk_sha256 w) (Some dataB64) (chunk_size a index) (Some hash))
          then (Inl (Fail Invalid_input), s)
          else if sizeBytes \<noteq> chunk_size a index then (Inl (Fail Invalid_input), s)
          else case get_row c_pk (assetId, index) (chunks d) of
              Some c \<Rightarrow>
                if c_bytes c = sizeBytes \<and> c_hash c = hash \<and> c_data c = dataB64 then (Inr (), s)
                else (Inl (Fail Conflict), s)
            | None \<Rightarrow>
                (Inr (), db_update (chunks_update (\<lambda>t. t @
                   [\<lparr>c_asset = assetId, c_index = index, c_data = dataB64, c_bytes = sizeBytes, c_hash = hash,
                     c_created = now w\<rparr>])) s))"

text \<open>The loop of \<open>attachmentUploadComplete\<close>: the decoded chunks, in order.\<close>

fun decode_rows :: "world \<Rightarrow> attachment \<Rightarrow> int \<Rightarrow> chunk list \<Rightarrow> exn + byte list list" where
  "decode_rows w a index [] = Inr []"
| "decode_rows w a index (c # cs) =
     (if c_index c \<noteq> index then Inl (AppError ''attachment chunk sequence is incomplete'')
      else case decodeAttachmentChunk (chunk_sha256 w) (Some (c_data c)) (chunk_size a index) (Some (c_hash c)) of
          Inl e \<Rightarrow> Inl e
        | Inr b \<Rightarrow> (case decode_rows w a (index + 1) cs of Inl e \<Rightarrow> Inl e | Inr bs \<Rightarrow> Inr (b # bs)))"

definition attachmentUploadComplete :: "world \<Rightarrow> string \<Rightarrow> string \<Rightarrow> host \<Rightarrow> unit result \<times> host" where
  "attachmentUploadComplete w actorId assetId s =
     (let d = db s in
      case live_transfer w d assetId of
        None \<Rightarrow> (Inl (Fail Not_found), s)
      | Some a \<Rightarrow>
          if at_owner a \<noteq> actorId \<or> truthy_str (at_linked a) then (Inl (Fail Forbidden), s)
          else if truthy_num (at_completed a) then (Inr (), s)
          else
            let rows = stored_chunks d assetId
            in if int (length rows) \<noteq> at_chunks a then (Inl (Fail Conflict), s)
               else case decode_rows w a 0 rows of
                   Inl _ \<Rightarrow> (Inl (Fail Conflict), s)
                 | Inr decoded \<Rightarrow>
                     if int (length (concat decoded)) \<noteq> at_bytes a \<or> chunk_sha256 w (concat decoded) \<noteq> at_hash a
                     then (Inl (Fail Conflict), s)
                     else (Inr (), db_update (attachments_update
                            (upd_rows (\<lambda>r. at_asset r = assetId \<and> at_completed r = None)
                               (\<lambda>r. r\<lparr>at_completed := Some (now w)\<rparr>))) s))"

definition attachmentUploadAbort :: "string \<Rightarrow> string \<Rightarrow> host \<Rightarrow> unit result \<times> host" where
  "attachmentUploadAbort actorId assetId s =
     (case get_row at_asset assetId (attachments (db s)) of
        None \<Rightarrow> (Inr (), s)
      | Some a \<Rightarrow>
          if at_owner a \<noteq> actorId then (Inl (Fail Forbidden), s)
          else if truthy_str (at_linked a) then (Inl (Fail Conflict), s)
          else (Inr (), db_update (del_attachments (\<lambda>r. at_asset r = assetId)) s))"

text \<open>
  Attachments stored whole by earlier versions, in \<open>data\<close>, are cut into chunks when they are first read.
  The slices of the text, decoded; an exception leaves the database as it was.
\<close>

fun legacy_chunks :: "world \<Rightarrow> attachment \<Rightarrow> int \<Rightarrow> nat \<Rightarrow> nat list \<Rightarrow> exn + (chunk \<times> byte list) list" where
  "legacy_chunks w a decodedLength n [] = Inr []"
| "legacy_chunks w a decodedLength n (i # is) =
     (let chars = nat MAX_ATTACHMENT_CHUNK_BASE64_CHARS;
          data = subarray (i * chars) ((i + 1) * chars) (at_data a);
          expected = (if i = n - 1 then decodedLength - ATTACHMENT_CHUNK_BYTES * int (n - 1) else ATTACHMENT_CHUNK_BYTES)
      in case decodeAttachmentChunk (chunk_sha256 w) (Some data) expected None of
           Inl e \<Rightarrow> Inl e
         | Inr b \<Rightarrow>
             (case legacy_chunks w a decodedLength n is of
                Inl e \<Rightarrow> Inl e
              | Inr cs \<Rightarrow> Inr ((\<lparr>c_asset = at_asset a, c_index = int i, c_data = data, c_bytes = int (length b),
                                c_hash = chunk_sha256 w b, c_created = at_created a\<rparr>, b) # cs)))"

definition migrateLegacyAttachment :: "world \<Rightarrow> string \<Rightarrow> db \<Rightarrow> exn + db" where
  "migrateLegacyAttachment w assetId d =
     (case get_row at_asset assetId (attachments d) of
        None \<Rightarrow> Inr d
      | Some a \<Rightarrow>
          if truthy_num (at_completed a) \<or> at_data a = [] then Inr d
          else if int (length (at_data a)) > int_ceil_div MAX_ATTACHMENT_BYTES 3 * 4 then Inr d
          else case canonicalBase64DecodedLength (at_data a) of
              None \<Rightarrow> Inr d
            | Some len \<Rightarrow>
                if int len \<noteq> at_bytes a \<or> int len > MAX_ATTACHMENT_BYTES then Inr d
                else case attachmentChunkCount (int len) of
                    Inl e \<Rightarrow> Inl e
                  | Inr n \<Rightarrow>
                      (case legacy_chunks w a (int len) (nat n) [0..<nat n] of
                         Inl e \<Rightarrow> Inl e
                       | Inr cs \<Rightarrow>
                           Inr (d\<lparr>chunks := del_rows (\<lambda>c. c_asset c = assetId) (chunks d) @ map fst cs,
                                  attachments := upd_rows (\<lambda>r. at_asset r = assetId)
                                    (\<lambda>r. r\<lparr>at_data := [], at_chunks := n,
                                           at_hash := chunk_sha256 w (concat (map snd cs)),
                                           at_completed := Some (at_created a)\<rparr>) (attachments d)\<rparr>)))"

definition readableAttachment :: "world \<Rightarrow> string \<Rightarrow> string \<Rightarrow> host \<Rightarrow> attachment result \<times> host" where
  "readableAttachment w actorId assetId s =
     (if get_member (db s) actorId = None then (Inl (Fail Forbidden), s)
      else case migrateLegacyAttachment w assetId (db s) of
          Inl _ \<Rightarrow> (Inl (Fail Internal), s)
        | Inr d \<Rightarrow>
            (let s1 = s\<lparr>db := d\<rparr> in
             case live_transfer w d assetId of
               None \<Rightarrow> (Inl (Fail Not_found), s1)
             | Some a \<Rightarrow>
                 if \<not> truthy_num (at_completed a) \<or> \<not> truthy_str (at_linked a) \<or> actorId \<notin> set (at_audience a)
                   \<or> (case get_channel d (at_channel a) of None \<Rightarrow> True | Some ch \<Rightarrow> \<not> member_may d ch View_channel actorId)
                 then (Inl (Fail Forbidden), s1)
                 else (Inr a, s1)))"

definition attachmentDownload :: "world \<Rightarrow> string \<Rightarrow> string \<Rightarrow> host \<Rightarrow> (int \<times> int \<times> string) result \<times> host" where
  "attachmentDownload w actorId assetId s =
     (case readableAttachment w actorId assetId s of
        (Inl e, s1) \<Rightarrow> (Inl e, s1)
      | (Inr a, s1) \<Rightarrow> (Inr (at_bytes a, at_chunks a, at_hash a), s1))"

definition attachmentDownloadChunk :: "world \<Rightarrow> string \<Rightarrow> string \<Rightarrow> int \<Rightarrow> host \<Rightarrow> attachment_chunk result \<times> host" where
  "attachmentDownloadChunk w actorId assetId index s =
     (case readableAttachment w actorId assetId s of
        (Inl e, s1) \<Rightarrow> (Inl e, s1)
      | (Inr a, s1) \<Rightarrow>
          if \<not> is_safe_integer index \<or> index < 0 \<or> index \<ge> at_chunks a then (Inl (Fail Invalid_input), s1)
          else case get_row c_pk (assetId, index) (chunks (db s1)) of
              None \<Rightarrow> (Inl (Fail Not_found), s1)
            | Some c \<Rightarrow>
                if \<not> is_ok (decodeAttachmentChunk (chunk_sha256 w) (Some (c_data c)) (chunk_size a index) (Some (c_hash c)))
                then (Inl (Fail Internal), s1)
                else (Inr \<lparr>ac_index = index, ac_data = c_data c, ac_sizeBytes = c_bytes c, ac_hash = c_hash c\<rparr>, s1))"

text \<open>One tick of the cleanup loop.\<close>

definition cleanup_tick :: "world \<Rightarrow> host \<Rightarrow> host" where
  "cleanup_tick w s =
     (if \<not> writer s then s
      else db_update (del_attachments (\<lambda>a. at_expires a < now w
             \<or> at_linked a = None \<and> at_created a < now w - ABANDONED_ATTACHMENT_TTL_MS)) s)"

section \<open>The invariant\<close>

text \<open>
  On the two tables: chunks belong to a stored transfer and are valid for it (index in range, size and hash
  as declared); a completed transfer has all its chunks and their concatenation has the announced length
  and hash.
\<close>

definition chunk_valid :: "world \<Rightarrow> attachment \<Rightarrow> chunk \<Rightarrow> bool" where
  "chunk_valid w a c \<longleftrightarrow>
     at_asset a = c_asset c \<and> 0 \<le> c_index c \<and> c_index c < at_chunks a
     \<and> is_ok (decodeAttachmentChunk (chunk_sha256 w) (Some (c_data c)) (chunk_size a (c_index c)) (Some (c_hash c)))"

definition chunks_of :: "chunk list \<Rightarrow> string \<Rightarrow> chunk list" where
  "chunks_of cs assetId = sort_key c_index (filter (\<lambda>c. c_asset c = assetId) cs)"

definition transfer_complete :: "world \<Rightarrow> chunk list \<Rightarrow> attachment \<Rightarrow> bool" where
  "transfer_complete w cs a \<longleftrightarrow>
     int (length (chunks_of cs (at_asset a))) = at_chunks a
     \<and> (\<exists>bs. decode_rows w a 0 (chunks_of cs (at_asset a)) = Inr bs \<and> int (length (concat bs)) = at_bytes a
            \<and> chunk_sha256 w (concat bs) = at_hash a)"

definition tables_ok :: "world \<Rightarrow> attachment list \<Rightarrow> chunk list \<Rightarrow> bool" where
  "tables_ok w as cs \<longleftrightarrow>
     pk at_asset as \<and> pk c_pk cs \<and> (\<forall>c \<in> set cs. \<exists>a \<in> set as. chunk_valid w a c)
     \<and> (\<forall>a \<in> set as. at_chunks a \<le> MAX_ATTACHMENT_CHUNKS \<and> (at_completed a \<noteq> None \<longrightarrow> transfer_complete w cs a))"

definition transfers_ok :: "world \<Rightarrow> db \<Rightarrow> bool" where
  "transfers_ok w d \<longleftrightarrow> tables_ok w (attachments d) (chunks d)"

lemma stored_chunks_of: "stored_chunks d x = chunks_of (chunks d) x"
  by (simp add: stored_chunks_def chunks_of_def)

lemma decode_rows_indices:
  "decode_rows w a k cs = Inr bs \<Longrightarrow> map c_index cs = map (\<lambda>i. k + int i) [0..<length cs] \<and> length bs = length cs"
proof (induction cs arbitrary: k bs)
  case (Cons c cs)
  then obtain b bs' where "c_index c = k" "decode_rows w a (k + 1) cs = Inr bs'" "bs = b # bs'"
    by (auto split: if_splits sum.splits)
  with Cons.IH [of "k + 1" bs'] show ?case
    by (auto simp del: upt_Suc simp: upt_conv_Cons map_Suc_upt [symmetric])
qed simp

lemma decode_rows_nth:
  "decode_rows w a k cs = Inr bs \<Longrightarrow> i < length cs \<Longrightarrow>
   c_index (cs ! i) = k + int i
   \<and> decodeAttachmentChunk (chunk_sha256 w) (Some (c_data (cs ! i))) (chunk_size a (k + int i)) (Some (c_hash (cs ! i))) = Inr (bs ! i)"
proof (induction cs arbitrary: k bs i)
  case (Cons c cs)
  then obtain b bs' where "c_index c = k" "decode_rows w a (k + 1) cs = Inr bs'" "bs = b # bs'"
    "decodeAttachmentChunk (chunk_sha256 w) (Some (c_data c)) (chunk_size a k) (Some (c_hash c)) = Inr b"
    by (auto split: if_splits sum.splits)
  with Cons.IH [of "k + 1" bs' "i - 1"] Cons.prems(2) show ?case by (cases i) (auto simp: algebra_simps)
qed simp

lemma set_chunks_of: "set (chunks_of cs x) = {c \<in> set cs. c_asset c = x}"
  by (simp add: chunks_of_def)

text \<open>A complete transfer has a chunk for every index.\<close>

lemma transfer_complete_chunk:
  assumes "transfer_complete w cs a" and "0 \<le> i" and "i < at_chunks a"
  shows "has_row c_pk (at_asset a, i) cs"
proof -
  let ?rows = "chunks_of cs (at_asset a)"
  obtain bs where "decode_rows w a 0 ?rows = Inr bs" and len: "int (length ?rows) = at_chunks a"
    using assms(1) by (auto simp: transfer_complete_def)
  from decode_rows_nth [OF this(1), of "nat i"] assms(2,3) len
  have "c_index (?rows ! nat i) = i" "?rows ! nat i \<in> set ?rows" by auto
  then show ?thesis by (force simp: has_row_def c_pk_def set_chunks_of)
qed

lemma decode_rows_cong:
  "at_chunks a = at_chunks a' \<Longrightarrow> at_bytes a = at_bytes a' \<Longrightarrow> decode_rows w a k cs = decode_rows w a' k cs"
  by (induction cs arbitrary: k) (simp_all add: chunk_size_def cong: sum.case_cong)

lemma transfer_complete_cong:
  "at_asset a = at_asset a' \<Longrightarrow> at_chunks a = at_chunks a' \<Longrightarrow> at_bytes a = at_bytes a' \<Longrightarrow> at_hash a = at_hash a'
   \<Longrightarrow> transfer_complete w cs a = transfer_complete w cs a'"
  using decode_rows_cong [of a a'] by (simp add: transfer_complete_def)

lemma chunk_valid_cong:
  "at_asset a = at_asset a' \<Longrightarrow> at_chunks a = at_chunks a' \<Longrightarrow> at_bytes a = at_bytes a'
   \<Longrightarrow> chunk_valid w a c = chunk_valid w a' c"
  by (simp add: chunk_valid_def chunk_size_def)

text \<open>Rows change without losing their identity; a transfer newly completed must be complete.\<close>

lemma tables_ok_upd:
  assumes ok: "tables_ok w as cs"
    and f: "\<And>a. at_asset (f a) = at_asset a" "\<And>a. at_chunks (f a) = at_chunks a" "\<And>a. at_bytes (f a) = at_bytes a"
      "\<And>a. at_hash (f a) = at_hash a"
    and newly: "\<And>a. a \<in> set as \<Longrightarrow> P a \<Longrightarrow> at_completed (f a) \<noteq> None \<Longrightarrow> at_completed a = None \<Longrightarrow> transfer_complete w cs a"
  shows "tables_ok w (upd_rows P f as) cs"
proof -
  have valid: "chunk_valid w (f a) c = chunk_valid w a c" for a c using f by (intro chunk_valid_cong)
  have complete: "transfer_complete w cs (f a) = transfer_complete w cs a" for a using f by (intro transfer_complete_cong)
  have "\<exists>a \<in> set (upd_rows P f as). chunk_valid w a c" if c: "c \<in> set cs" for c
  proof -
    obtain a where "a \<in> set as" "chunk_valid w a c" using ok c by (auto simp: tables_ok_def)
    then show ?thesis unfolding set_upd by (intro bexI [of _ "if P a then f a else a"]) (auto simp: valid)
  qed
  moreover have "at_completed (f a) \<noteq> None \<Longrightarrow> a \<in> set as \<Longrightarrow> P a \<Longrightarrow> transfer_complete w cs (f a)" for a
    using newly [of a] ok by (cases "at_completed a") (auto simp: tables_ok_def complete)
  ultimately show ?thesis
    using ok f by (auto simp: tables_ok_def pk_upd set_upd)
qed

lemma chunks_of_del_other:
  "x \<notin> X \<Longrightarrow> chunks_of (del_rows (\<lambda>c. c_asset c \<in> X) cs) x = chunks_of cs x"
proof -
  assume "x \<notin> X"
  then have "filter (\<lambda>c. c_asset c = x) (del_rows (\<lambda>c. c_asset c \<in> X) cs) = filter (\<lambda>c. c_asset c = x) cs"
    by (induction cs) (auto simp: del_rows_def)
  then show ?thesis by (simp add: chunks_of_def)
qed

lemma tables_ok_del:
  assumes "tables_ok w as cs"
  shows "tables_ok w (del_rows P as) (del_rows (\<lambda>c. c_asset c \<in> at_asset ` set (filter P as)) cs)"
proof -
  let ?X = "at_asset ` set (filter P as)"
  have keep: "at_asset a \<notin> ?X" if "a \<in> set as" "\<not> P a" for a
  proof
    assume "at_asset a \<in> ?X"
    then obtain b where "b \<in> set as" "P b" "at_asset b = at_asset a" by auto
    with that assms show False using get_row_pk [of at_asset "as"] by (auto simp: tables_ok_def) (metis option.inject)
  qed
  have "\<exists>a \<in> set (del_rows P as). chunk_valid w a c" if c: "c \<in> set cs" "c_asset c \<notin> ?X" for c
  proof -
    obtain a where a: "a \<in> set as" "chunk_valid w a c" using assms c(1) by (auto simp: tables_ok_def)
    with c(2) have "\<not> P a" by (auto simp: chunk_valid_def image_iff)
    with a show ?thesis by (auto simp: set_del)
  qed
  moreover have "transfer_complete w (del_rows (\<lambda>c. c_asset c \<in> ?X) cs) a" if "a \<in> set as" "\<not> P a" "at_completed a \<noteq> None" for a
    using assms that chunks_of_del_other [OF keep] by (simp add: tables_ok_def transfer_complete_def)
  ultimately show ?thesis
    using assms unfolding tables_ok_def by (auto simp: pk_del set_del)
qed

lemma transfers_ok_del_attachments: "transfers_ok w d \<Longrightarrow> transfers_ok w (del_attachments P d)"
  using tables_ok_del [of w "attachments d" "chunks d" P]
  by (simp add: transfers_ok_def del_attachments_def Let_def del: set_filter)

section \<open>The operations keep the invariant\<close>

text \<open>A transfer is announced only while few are pending and the quotas have room.\<close>

definition pending_ok :: "db \<Rightarrow> bool" where
  "pending_ok d \<longleftrightarrow>
     pending_all d \<le> MAX_PENDING_ATTACHMENT_TRANSFERS_GLOBAL
     \<and> (\<forall>x. pending_of x d \<le> MAX_PENDING_ATTACHMENT_TRANSFERS_PER_MEMBER)"

lemma begin_step:
  assumes "attachmentUploadBegin w actorId assetId channelId audience n k h ttl s = (res, s')"
  shows "s' = s \<or> (\<exists>row aud. s' = s\<lparr>db := db s'\<rparr> \<and> ins_attachment row (db s) = Some (db s')
      \<and> check_upload (db s) actorId channelId audience n k h (case ttl of None \<Rightarrow> 24 | Some t \<Rightarrow> t) = Inr aud
      \<and> \<not> has_row at_asset assetId (attachments (db s))
      \<and> pending_of actorId (db s) < MAX_PENDING_ATTACHMENT_TRANSFERS_PER_MEMBER
      \<and> pending_all (db s) < MAX_PENDING_ATTACHMENT_TRANSFERS_GLOBAL
      \<and> at_asset row = assetId \<and> at_linked row = None \<and> at_owner row = actorId \<and> at_completed row = None
      \<and> at_chunks row = k \<and> at_bytes row = n \<and> at_hash row = h \<and> \<not> quota_exceeded (db s) actorId n)"
  using assms
  by (auto simp: attachmentUploadBegin_def Let_def get_row_None not_le split: sum.splits option.splits if_splits)

lemma check_uploadD:
  assumes "check_upload d x c audience n k h t = Inr aud"
  shows "attachmentChunkCount n = Inr k" and "ATTACHMENT_ENCRYPTION_OVERHEAD_BYTES < n" and "SHA256_HEX h"
    and "x \<in> set aud" and "n \<le> max_attachment_bytes d"
    and "\<exists>ch. get_channel d c = Some ch \<and> member_may d ch Send_files x \<and> authorizedAudience d ch audience = Inr aud"
  using assms
  by (auto simp: check_upload_def member_may_def split: option.splits sum.splits if_splits)

lemma ins_attachment_tables:
  "ins_attachment row d = Some d' \<Longrightarrow>
   attachments d' = attachments d @ [row] \<and> chunks d' = chunks d \<and> spool d' = spool d
   \<and> \<not> has_row at_asset (at_asset row) (attachments d) \<and> same_community d d' \<and> meta d' = meta d"
  by (auto simp: ins_attachment_def ins_row_def same_community_def split: if_splits)

lemma ledger_ins_attachment:
  "ins_attachment row d = Some d' \<Longrightarrow>
   ledger_total (ledger d') = ledger_total (ledger d) + at_bytes row
   \<and> ledger_owner (ledger d') y = ledger_owner (ledger d) y + (if at_owner row = y then at_bytes row else 0)"
  by (auto simp: ins_attachment_def ins_row_def ledger_def split: if_splits)

lemma begin_ok:
  assumes "attachmentUploadBegin w x asset c audience n k h ttl s = (res, s')"
    and "transfers_ok w (db s)" and "usage_ok (db s)" and "spool_ok (db s)" and "pending_ok (db s)"
  shows "transfers_ok w (db s') \<and> usage_ok (db s') \<and> spool_ok (db s') \<and> pending_ok (db s')
       \<and> same_community (db s) (db s')"
  using begin_step [OF assms(1)]
proof (elim disjE exE conjE)
  fix row aud
  assume ins: "ins_attachment row (db s) = Some (db s')"
    and chk: "check_upload (db s) x c audience n k h (case ttl of None \<Rightarrow> 24 | Some t \<Rightarrow> t) = Inr aud"
    and p: "pending_of x (db s) < MAX_PENDING_ATTACHMENT_TRANSFERS_PER_MEMBER"
      "pending_all (db s) < MAX_PENDING_ATTACHMENT_TRANSFERS_GLOBAL"
    and row: "at_asset row = asset" "at_linked row = None" "at_owner row = x" "at_completed row = None"
      "at_chunks row = k" "at_bytes row = n"
  note t = ins_attachment_tables [OF ins] and cnt = check_uploadD(1,2) [OF chk]
  from attachmentChunkCount_Inr [OF cnt(1)] have k: "k \<le> MAX_ATTACHMENT_CHUNKS" "0 \<le> n" by auto
  have "transfers_ok w (db s')"
    using assms(2) t k row by (auto simp: transfers_ok_def tables_ok_def pk_append)
  moreover have "usage_ok (db s')" using usage_ok_ins_attachment [OF assms(3) ins] k row by simp
  moreover have "spool_ok (db s')" using assms(4) t row by (auto simp: spool_ok_def pk_append)
  moreover have "pending_ok (db s')"
    using assms(5) p t row by (auto simp: pending_ok_def pending_of_def pending_all_def)
  ultimately show ?thesis using t by simp
qed (use assms in simp)

lemma chunk_step:
  assumes "attachmentUploadChunk w x asset i data n h s = (res, s')"
  shows "s' = s \<or> (\<exists>a. live_transfer w (db s) asset = Some a \<and> \<not> has_row c_pk (asset, i) (chunks (db s))
      \<and> 0 \<le> i \<and> i < at_chunks a \<and> is_ok (decodeAttachmentChunk (chunk_sha256 w) (Some data) (chunk_size a i) (Some h))
      \<and> n = chunk_size a i
      \<and> s' = db_update (chunks_update (\<lambda>t. t @ [\<lparr>c_asset = asset, c_index = i, c_data = data, c_bytes = n, c_hash = h,
                                                 c_created = now w\<rparr>])) s)"
  using assms
  by (auto simp: attachmentUploadChunk_def Let_def get_row_None split: option.splits if_splits)

lemma live_transferD: "live_transfer w d asset = Some a \<Longrightarrow> a \<in> set (attachments d) \<and> at_asset a = asset \<and> at_expires a > now w"
  by (auto simp: live_transfer_def find_Some_iff)

lemma chunks_of_append_other: "c_asset c \<noteq> x \<Longrightarrow> chunks_of (cs @ [c]) x = chunks_of cs x"
  by (simp add: chunks_of_def)

lemma chunk_ok:
  assumes "attachmentUploadChunk w x asset i data n h s = (res, s')" and "transfers_ok w (db s)"
  shows "transfers_ok w (db s')"
  using chunk_step [OF assms(1)]
proof (elim disjE exE conjE)
  fix a
  assume a: "live_transfer w (db s) asset = Some a" and new: "\<not> has_row c_pk (asset, i) (chunks (db s))"
    and i: "0 \<le> i" "i < at_chunks a"
    and dec: "is_ok (decodeAttachmentChunk (chunk_sha256 w) (Some data) (chunk_size a i) (Some h))"
    and s': "s' = db_update (chunks_update (\<lambda>t. t @ [\<lparr>c_asset = asset, c_index = i, c_data = data, c_bytes = n,
               c_hash = h, c_created = now w\<rparr>])) s"
  let ?as = "attachments (db s)" and ?cs = "chunks (db s)"
  let ?c = "\<lparr>c_asset = asset, c_index = i, c_data = data, c_bytes = n, c_hash = h, c_created = now w\<rparr>"
  from live_transferD [OF a] have am: "a \<in> set ?as" "at_asset a = asset" by auto
  have valid: "chunk_valid w a ?c" using am i dec by (simp add: chunk_valid_def)
  have "transfer_complete w (?cs @ [?c]) b" if b: "b \<in> set ?as" "at_completed b \<noteq> None" for b
  proof -
    have bc: "transfer_complete w ?cs b" using assms(2) b by (auto simp: transfers_ok_def tables_ok_def)
    have "at_asset b \<noteq> asset"
    proof
      assume "at_asset b = asset"
      then have "b = a" using am b(1) assms(2) get_row_pk [of at_asset ?as]
        by (auto simp: transfers_ok_def tables_ok_def) (metis option.inject)
      then show False using transfer_complete_chunk [OF bc i(1)] i(2) am new by simp
    qed
    then show ?thesis using bc by (simp add: transfer_complete_def chunks_of_append_other)
  qed
  then show ?thesis
    using assms(2) new valid am unfolding transfers_ok_def tables_ok_def s'
    by (auto simp: pk_append c_pk_def)
qed (use assms in simp)

lemma complete_step:
  assumes "attachmentUploadComplete w x asset s = (res, s')"
  shows "s' = s \<or> (\<exists>a. live_transfer w (db s) asset = Some a \<and> transfer_complete w (chunks (db s)) a
      \<and> s' = db_update (attachments_update (upd_rows (\<lambda>r. at_asset r = asset \<and> at_completed r = None)
               (\<lambda>r. r\<lparr>at_completed := Some (now w)\<rparr>))) s)"
  using assms
  by (auto simp: attachmentUploadComplete_def Let_def transfer_complete_def stored_chunks_of
      dest: live_transferD split: option.splits if_splits sum.splits)

lemma complete_ok:
  assumes "attachmentUploadComplete w x asset s = (res, s')" and "transfers_ok w (db s)"
  shows "transfers_ok w (db s')"
  using complete_step [OF assms(1)]
proof (elim disjE exE conjE)
  fix a
  assume a: "live_transfer w (db s) asset = Some a" and complete: "transfer_complete w (chunks (db s)) a"
    and s': "s' = db_update (attachments_update (upd_rows (\<lambda>r. at_asset r = asset \<and> at_completed r = None)
               (\<lambda>r. r\<lparr>at_completed := Some (now w)\<rparr>))) s"
  have "b = a" if "b \<in> set (attachments (db s))" "at_asset b = asset" for b
    using that live_transferD [OF a] assms(2) get_row_pk [of at_asset "attachments (db s)"]
    by (auto simp: transfers_ok_def tables_ok_def) (metis option.inject)
  with complete assms(2) show ?thesis
    unfolding transfers_ok_def s' by (simp, intro tables_ok_upd) auto
qed (use assms in simp)

lemma pending_ok_less:
  assumes "pending_ok d" and less: "\<And>P. length (filter (\<lambda>a. at_linked a = None \<and> P a) (attachments d'))
      \<le> length (filter (\<lambda>a. at_linked a = None \<and> P a) (attachments d))"
  shows "pending_ok d'"
proof -
  have "pending_all d' \<le> pending_all d" using less [of "\<lambda>_. True"] by (simp add: pending_all_def)
  moreover have "pending_of x d' \<le> pending_of x d" for x
    unfolding pending_of_def by (rule less)
  ultimately show ?thesis using assms(1) unfolding pending_ok_def by (meson le_trans)
qed

lemma filter_del_rows: "length (filter Q (del_rows P t)) \<le> length (filter Q t)"
  by (induction t) (auto simp: del_rows_def)

lemma filter_linked: "length (filter (\<lambda>a. at_linked a = None \<and> P a) (upd_rows Q (\<lambda>r. r\<lparr>at_linked := Some m\<rparr>) t))
      \<le> length (filter (\<lambda>a. at_linked a = None \<and> P a) t)"
  by (induction t) (auto simp: upd_rows_def)

lemma del_attachments_rows [simp]: "attachments (del_attachments P d) = del_rows P (attachments d)"
  by (simp add: del_attachments_def Let_def)

lemma pending_ok_del: "pending_ok d \<Longrightarrow> pending_ok (del_attachments P d)"
  by (erule pending_ok_less) (simp only: del_attachments_rows filter_del_rows)

lemma pending_ok_link: "pending_ok d \<Longrightarrow> pending_ok (link_attachment m a d)"
proof (erule pending_ok_less)
  fix P
  have "attachments (link_attachment m a d) = upd_rows (\<lambda>r. at_asset r = ar_asset a \<and> at_linked r = None)
      (\<lambda>r. r\<lparr>at_linked := Some m\<rparr>) (attachments d)"
    by (simp add: link_attachment_def)
  then show "length (filter (\<lambda>a. at_linked a = None \<and> P a) (attachments (link_attachment m a d)))
      \<le> length (filter (\<lambda>a. at_linked a = None \<and> P a) (attachments d))"
    by (simp only: filter_linked)
qed

lemma transfers_ok_link: "transfers_ok w d \<Longrightarrow> transfers_ok w (link_attachment m a d)"
  unfolding transfers_ok_def link_attachment_def by (simp, intro tables_ok_upd) auto

lemma links_keep:
  "transfers_ok w d \<Longrightarrow> transfers_ok w (fold (link_attachment m) as d)"
  "pending_ok d \<Longrightarrow> pending_ok (fold (link_attachment m) as d)"
  by (induction "as" arbitrary: d) (simp_all add: transfers_ok_link pending_ok_link)

lemma store_envelope_transfers:
  assumes "store_envelope w x env audience n d = Some d'" and "transfers_ok w d" and "pending_ok d"
  shows "transfers_ok w d' \<and> pending_ok d'"
proof -
  obtain row d1 where ins: "ins_spool row d = Some d1"
    and d': "d' = appendOp (OpEnvelope (e_message env) (e_channel env) x)
                    (fold (link_attachment (e_message env)) (e_attachments env) d1)"
    using assms(1) by (auto simp: store_envelope_def Let_def split: option.splits)
  then have "attachments d1 = attachments d" "chunks d1 = chunks d" by (auto simp: ins_spool_def)
  with assms(2,3) have "transfers_ok w d1" "pending_ok d1"
    by (simp_all add: transfers_ok_def pending_ok_def pending_of_def pending_all_def)
  from links_keep(1) [OF this(1)] links_keep(2) [OF this(2)] show ?thesis
    unfolding d' by (simp add: appendOp_def transfers_ok_def pending_ok_def pending_of_def pending_all_def)
qed

lemma send_transfers:
  assumes "sendEnvelope w x e s = (res, s')" and "transfers_ok w (db s)" and "pending_ok (db s)"
  shows "transfers_ok w (db s') \<and> pending_ok (db s')"
  using sendEnvelope_step [OF assms(1)]
proof (elim disjE conjE exE)
  fix audience env n
  assume "store_envelope w x env audience n (db s) = Some (db s')"
  from store_envelope_transfers [OF this assms(2,3)] show ?thesis .
qed (use assms in simp)

lemma transfers_cong:
  assumes "attachments d' = attachments d" and "chunks d' = chunks d"
  shows "transfers_ok w d' = transfers_ok w d" and "pending_ok d' = pending_ok d"
  using assms by (simp_all only: transfers_ok_def pending_ok_def pending_of_def pending_all_def)

lemma purge_tables:
  "attachments (purge_db m d) = attachments (del_attachments (\<lambda>a. at_linked a = Some m) d)"
  "chunks (purge_db m d) = chunks (del_attachments (\<lambda>a. at_linked a = Some m) d)"
  by (simp_all add: purge_db_def appendOp_def del_spool_def Let_def)

lemma purge_transfers: "transfers_ok w d \<Longrightarrow> pending_ok d \<Longrightarrow> transfers_ok w (purge_db m d) \<and> pending_ok (purge_db m d)"
  by (simp only: transfers_cong [OF purge_tables] transfers_ok_del_attachments pending_ok_del)

lemma set_consumed_chunks [simp]: "chunks (set_consumed m c d) = chunks d"
  by (simp add: set_consumed_def)

lemma ack_transfers:
  assumes "ackConsumed x m s = (res, s')" and "transfers_ok w (db s)" and "pending_ok (db s)"
  shows "transfers_ok w (db s') \<and> pending_ok (db s')"
proof -
  from ack_step [OF assms(1)] consider "db s' = db s" | "db s' = purge_db m (db s)" | c where "db s' = set_consumed m c (db s)"
    by meson
  then show ?thesis
  proof cases
    case 3
    then show ?thesis
      using assms(2,3) transfers_cong [OF set_consumed_frame(2) set_consumed_chunks] by simp
  qed (use assms(2,3) purge_transfers in simp_all)
qed

lemma retention_transfers:
  assumes "transfers_ok w (db s)" and "pending_ok (db s)"
  shows "transfers_ok w (db (retention_tick w' s)) \<and> pending_ok (db (retention_tick w' s))"
proof -
  have "transfers_ok w (db s) \<Longrightarrow> pending_ok (db s) \<Longrightarrow>
      transfers_ok w (db (fold purgeMessage ms s)) \<and> pending_ok (db (fold purgeMessage ms s))" for ms
    by (induction ms arbitrary: s) (simp_all add: purge_transfers)
  with assms show ?thesis by (simp add: retention_tick_def)
qed

lemma spool_ok_del_unlinked:
  "spool_ok d \<Longrightarrow> spool_ok (del_attachments P d)"
  by (auto simp: spool_ok_def del_attachments_def Let_def pk_del set_del)

lemma abort_ok:
  assumes "attachmentUploadAbort x asset s = (res, s')" and "transfers_ok w (db s)" and "usage_ok (db s)"
    and "spool_ok (db s)" and "pending_ok (db s)"
  shows "transfers_ok w (db s') \<and> usage_ok (db s') \<and> spool_ok (db s') \<and> pending_ok (db s') \<and> same_community (db s) (db s')"
  using assms
  by (auto simp: attachmentUploadAbort_def usage_ok_del_attachments transfers_ok_del_attachments pending_ok_del
      spool_ok_del_unlinked split: option.splits if_splits)
    (simp_all add: same_community_def del_attachments_def Let_def)

lemma cleanup_ok:
  assumes "transfers_ok w (db s)" and "usage_ok (db s)" and "spool_ok (db s)" and "pending_ok (db s)"
  shows "transfers_ok w (db (cleanup_tick w' s)) \<and> usage_ok (db (cleanup_tick w' s)) \<and> spool_ok (db (cleanup_tick w' s))
       \<and> pending_ok (db (cleanup_tick w' s)) \<and> same_community (db s) (db (cleanup_tick w' s))"
  using assms
  by (simp add: cleanup_tick_def usage_ok_del_attachments transfers_ok_del_attachments pending_ok_del spool_ok_del_unlinked)
    (simp add: same_community_def del_attachments_def Let_def)

section \<open>Legacy attachments\<close>

text \<open>The output format of the hash function.\<close>

definition sha_ok :: "world \<Rightarrow> bool" where
  "sha_ok w \<longleftrightarrow> (\<forall>b. SHA256_HEX (chunk_sha256 w b))"

lemma legacy_chunks_decode:
  assumes "legacy_chunks w a len n [k..<n] = Inr cs" and "k \<le> n" and "sha_ok w"
    and "at_chunks a' = int n" and "at_bytes a' = len"
  shows "decode_rows w a' (int k) (map fst cs) = Inr (map snd cs) \<and> length cs = n - k
    \<and> (\<forall>c \<in> fst ` set cs. c_asset c = at_asset a)"
  using assms(1,2)
proof (induction "n - k" arbitrary: k cs)
  case 0
  then show ?case by simp
next
  case (Suc j)
  then have up: "[k..<n] = k # [Suc k..<n]" by (simp add: upt_conv_Cons)
  define data where "data = subarray (k * nat MAX_ATTACHMENT_CHUNK_BASE64_CHARS)
      ((k + 1) * nat MAX_ATTACHMENT_CHUNK_BASE64_CHARS) (at_data a)"
  have size: "(if k = n - 1 then len - ATTACHMENT_CHUNK_BYTES * int (n - 1) else ATTACHMENT_CHUNK_BYTES) = chunk_size a' (int k)"
    using Suc.hyps(2) assms(4,5) by (auto simp: chunk_size_def of_nat_diff)
  from Suc.prems(1) obtain b cs' where
    raw: "decodeAttachmentChunk (chunk_sha256 w) (Some data)
            (if k = n - 1 then len - ATTACHMENT_CHUNK_BYTES * int (n - 1) else ATTACHMENT_CHUNK_BYTES) None = Inr b"
    and rest: "legacy_chunks w a len n [Suc k..<n] = Inr cs'"
    and cs: "cs = (\<lparr>c_asset = at_asset a, c_index = int k, c_data = data, c_bytes = int (length b),
                    c_hash = chunk_sha256 w b, c_created = at_created a\<rparr>, b) # cs'"
    unfolding up by (auto simp: Let_def data_def split: sum.splits)
  note dec = raw [unfolded size]
  have "j = n - Suc k" "Suc k \<le> n" using Suc.hyps(2) by auto
  note ih = Suc.hyps(1) [OF this(1) rest this(2)]
  have "decodeAttachmentChunk (chunk_sha256 w) (Some data) (chunk_size a' (int k)) (Some (chunk_sha256 w b)) = Inr b"
    using dec assms(3) by (auto simp: decodeAttachmentChunk_Inr sha_ok_def)
  with ih Suc.hyps(2) show ?case by (auto simp: cs algebra_simps)
qed

lemma decode_rows_length:
  assumes "decode_rows w a k cs = Inr bs" and "k + int (length cs) = at_chunks a" and "cs \<noteq> []"
  shows "int (length (concat bs)) = at_bytes a - ATTACHMENT_CHUNK_BYTES * k"
  using assms
proof (induction cs arbitrary: k bs)
  case (Cons c cs)
  then obtain b bs' where rest: "decode_rows w a (k + 1) cs = Inr bs'" and bs: "bs = b # bs'"
    and "decodeAttachmentChunk (chunk_sha256 w) (Some (c_data c)) (chunk_size a k) (Some (c_hash c)) = Inr b"
    by (auto split: if_splits sum.splits)
  then have b: "int (length b) = chunk_size a k" by (simp add: decodeAttachmentChunk_Inr)
  show ?case
  proof (cases "cs = []")
    case True
    with Cons.prems(2) have "at_chunks a = k + 1" by simp
    with True rest b bs show ?thesis by (auto simp: chunk_size_def)
  next
    case False
    then have "0 < int (length cs)" by simp
    with Cons.prems(2) have "k \<noteq> at_chunks a - 1" unfolding length_Cons of_nat_Suc by linarith
    then have "chunk_size a k = ATTACHMENT_CHUNK_BYTES" by (simp add: chunk_size_def)
    with False Cons.IH [OF rest] Cons.prems(2) b bs show ?thesis by (simp add: algebra_simps)
  qed
qed simp

lemma chunks_of_replace:
  assumes "map c_index new = map int [0..<length new]" and "\<forall>c \<in> set new. c_asset c = x"
  shows "chunks_of (del_rows (\<lambda>c. c_asset c = x) cs @ new) x = new"
    and "y \<noteq> x \<Longrightarrow> chunks_of (del_rows (\<lambda>c. c_asset c = x) cs @ new) y = chunks_of cs y"
proof -
  have "filter (\<lambda>c. c_asset c = x) (del_rows (\<lambda>c. c_asset c = x) cs) = []"
    by (induction cs) (auto simp: del_rows_def)
  moreover have "filter (\<lambda>c. c_asset c = x) new = new" using assms(2) by (simp add: filter_id_conv)
  moreover have "sorted (map c_index new)" unfolding assms(1) by (simp add: sorted_iff_nth_mono)
  ultimately show "chunks_of (del_rows (\<lambda>c. c_asset c = x) cs @ new) x = new"
    by (simp add: chunks_of_def sort_key_id_if_sorted)
  assume y: "y \<noteq> x"
  then have "filter (\<lambda>c. c_asset c = y) (del_rows (\<lambda>c. c_asset c = x) cs) = filter (\<lambda>c. c_asset c = y) cs"
    by (induction cs) (auto simp: del_rows_def)
  moreover have "filter (\<lambda>c. c_asset c = y) new = []" using assms(2) y by (auto simp: filter_empty_conv)
  ultimately show "chunks_of (del_rows (\<lambda>c. c_asset c = x) cs @ new) y = chunks_of cs y"
    by (simp add: chunks_of_def)
qed

lemma migrate_step:
  assumes "migrateLegacyAttachment w asset d = Inr d'"
  shows "d' = d \<or> (\<exists>a n cs. get_row at_asset asset (attachments d) = Some a
      \<and> attachmentChunkCount (at_bytes a) = Inr n \<and> legacy_chunks w a (at_bytes a) (nat n) [0..<nat n] = Inr cs
      \<and> d' = d\<lparr>chunks := del_rows (\<lambda>c. c_asset c = asset) (chunks d) @ map fst cs,
               attachments := upd_rows (\<lambda>r. at_asset r = asset)
                 (\<lambda>r. r\<lparr>at_data := [], at_chunks := n, at_hash := chunk_sha256 w (concat (map snd cs)),
                        at_completed := Some (at_created a)\<rparr>) (attachments d)\<rparr>)"
  using assms
  by (auto simp: migrateLegacyAttachment_def split: option.splits if_splits sum.splits)

lemma migrate_ok:
  assumes "migrateLegacyAttachment w asset d = Inr d'" and "transfers_ok w d" and "sha_ok w"
  shows "transfers_ok w d'"
  using migrate_step [OF assms(1)]
proof (elim disjE exE conjE)
  fix a n cs
  assume a: "get_row at_asset asset (attachments d) = Some a" and n: "attachmentChunkCount (at_bytes a) = Inr n"
    and cs: "legacy_chunks w a (at_bytes a) (nat n) [0..<nat n] = Inr cs"
    and d': "d' = d\<lparr>chunks := del_rows (\<lambda>c. c_asset c = asset) (chunks d) @ map fst cs,
               attachments := upd_rows (\<lambda>r. at_asset r = asset)
                 (\<lambda>r. r\<lparr>at_data := [], at_chunks := n, at_hash := chunk_sha256 w (concat (map snd cs)),
                        at_completed := Some (at_created a)\<rparr>) (attachments d)\<rparr>"
  let ?f = "\<lambda>r. r\<lparr>at_data := [], at_chunks := n, at_hash := chunk_sha256 w (concat (map snd cs)),
                  at_completed := Some (at_created a)\<rparr>"
  let ?as = "upd_rows (\<lambda>r. at_asset r = asset) ?f (attachments d)" and ?new = "map fst cs"
  let ?cs = "del_rows (\<lambda>c. c_asset c = asset) (chunks d) @ ?new" and ?a = "?f a"
  from attachmentChunkCount_Inr [OF n] have n1: "1 \<le> n" "n \<le> MAX_ATTACHMENT_CHUNKS" by auto
  from a have am: "a \<in> set (attachments d)" "at_asset a = asset" by (auto dest: get_row_Some)
  have dec: "decode_rows w ?a 0 ?new = Inr (map snd cs)" "length cs = nat n" "\<forall>c \<in> set ?new. c_asset c = asset"
    using legacy_chunks_decode [OF cs _ assms(3), of ?a] n1 am by auto
  from decode_rows_indices [OF dec(1)] have ix: "map c_index ?new = map int [0..<length ?new]" by simp
  note of = chunks_of_replace [OF ix dec(3), where cs = "chunks d"]
  have complete: "transfer_complete w ?cs ?a"
    using dec(1,2) of(1) decode_rows_length [OF dec(1)] n1 am by (cases cs) (auto simp: transfer_complete_def)
  have others: "transfer_complete w ?cs b = transfer_complete w (chunks d) b" if "at_asset b \<noteq> asset" for b
    using of(2) [OF that] by (simp add: transfer_complete_def)
  have row: "b = a" if "b \<in> set (attachments d)" "at_asset b = asset" for b
    using that am assms(2) get_row_pk [of at_asset "attachments d"]
    by (auto simp: transfers_ok_def tables_ok_def) (metis option.inject)
  have "chunk_valid w ?a c" if "c \<in> set ?new" for c
  proof -
    from that obtain i where i: "i < length ?new" "c = ?new ! i" by (auto simp: in_set_conv_nth)
    with decode_rows_nth [OF dec(1) i(1)] dec(2,3) that am n1 show ?thesis
      by (auto simp: chunk_valid_def)
  qed
  moreover have "?a \<in> set ?as" using am by (force simp: set_upd)
  moreover have "\<exists>b \<in> set ?as. chunk_valid w b c" if c: "c \<in> set (chunks d)" "c_asset c \<noteq> asset" for c
  proof -
    obtain b where "b \<in> set (attachments d)" "chunk_valid w b c" using assms(2) c by (auto simp: transfers_ok_def tables_ok_def)
    with c(2) show ?thesis by (intro bexI [of _ b]) (auto simp: set_upd chunk_valid_def image_iff)
  qed
  moreover have "pk c_pk ?cs"
  proof -
    have "distinct (map c_index ?new)" unfolding ix by (simp add: distinct_map)
    then have "distinct (map c_pk ?new)" by (auto simp: c_pk_def distinct_map inj_on_def)
    then show ?thesis using assms(2) dec(3)
      by (auto simp: transfers_ok_def tables_ok_def pk_def del_rows_def distinct_map_filter c_pk_def)
  qed
  moreover have "pk at_asset ?as" using assms(2) by (simp add: transfers_ok_def tables_ok_def pk_upd)
  moreover have "at_chunks b \<le> MAX_ATTACHMENT_CHUNKS \<and> (at_completed b \<noteq> None \<longrightarrow> transfer_complete w ?cs b)"
    if b: "b \<in> set ?as" for b
  proof -
    from b obtain b0 where b0: "b0 \<in> set (attachments d)" "b = (if at_asset b0 = asset then ?f b0 else b0)"
      by (auto simp: set_upd)
    show ?thesis
    proof (cases "at_asset b0 = asset")
      case True
      with b0 row complete n1 show ?thesis by auto
    next
      case False
      with b0 others assms(2) show ?thesis by (auto simp: transfers_ok_def tables_ok_def)
    qed
  qed
  ultimately show ?thesis
    unfolding transfers_ok_def tables_ok_def d' by (simp add: set_del) blast
qed (use assms in simp)

section \<open>What transfers guarantee\<close>

lemma readable_step:
  assumes "readableAttachment w x asset s = (Inr a, s1)"
  shows "migrateLegacyAttachment w asset (db s) = Inr (db s1) \<and> s1 = s\<lparr>db := db s1\<rparr> \<and> isMember (db s) x
    \<and> live_transfer w (db s1) asset = Some a \<and> truthy_num (at_completed a) \<and> truthy_str (at_linked a)
    \<and> x \<in> set (at_audience a)
    \<and> (\<exists>ch. get_channel (db s1) (at_channel a) = Some ch \<and> member_may (db s1) ch View_channel x)"
  using assms
  by (auto simp: readableAttachment_def isMember_def Let_def split: if_splits sum.splits option.splits)

text \<open>
  C11. What is downloaded is what was announced. Whoever can read an attachment is a member in its audience and may
  view its channel, and can fetch every chunk; the attachment is complete, linked to a message and not expired, and the
  chunks decode, in order, to bytes of exactly the announced length whose hash is the announced hash, also for
  attachments stored by earlier versions and cut into chunks at this moment.
\<close>

theorem download_integrity:
  assumes "readableAttachment w x asset s = (Inr a, s1)" and "transfers_ok w (db s)" and "sha_ok w"
  shows "get_member (db s) x \<noteq> None \<and> x \<in> set (at_audience a)
    \<and> (\<exists>ch. get_channel (db s1) (at_channel a) = Some ch \<and> member_may (db s1) ch View_channel x)
    \<and> live_transfer w (db s1) asset = Some a \<and> truthy_num (at_completed a) \<and> truthy_str (at_linked a)
    \<and> transfers_ok w (db s1)
    \<and> (\<exists>bs. int (length bs) = at_chunks a \<and> int (length (concat bs)) = at_bytes a \<and> chunk_sha256 w (concat bs) = at_hash a
        \<and> (\<forall>i < length bs. \<exists>c. attachmentDownloadChunk w x asset (int i) s = (Inr c, s1)
             \<and> decodeAttachmentChunk (chunk_sha256 w) (Some (ac_data c)) (chunk_size a (int i)) (Some (ac_hash c)) = Inr (bs ! i)))"
proof -
  note r = readable_step [OF assms(1)]
  have ok: "transfers_ok w (db s1)" using migrate_ok [of w asset "db s" "db s1"] r assms(2,3) by blast
  have am: "a \<in> set (attachments (db s1))" "at_asset a = asset" using r live_transferD by blast+
  have "at_completed a \<noteq> None" using r by (cases "at_completed a") auto
  with ok am have complete: "transfer_complete w (chunks (db s1)) a" and small: "at_chunks a \<le> MAX_ATTACHMENT_CHUNKS"
    by (auto simp: transfers_ok_def tables_ok_def)
  let ?rows = "chunks_of (chunks (db s1)) asset"
  obtain bs where bs: "decode_rows w a 0 ?rows = Inr bs" "int (length (concat bs)) = at_bytes a"
    "chunk_sha256 w (concat bs) = at_hash a" and len: "int (length ?rows) = at_chunks a"
    using complete am by (auto simp: transfer_complete_def)
  from decode_rows_indices [OF bs(1)] have lbs: "length bs = length ?rows" by simp
  have fetch: "\<exists>c. attachmentDownloadChunk w x asset (int i) s = (Inr c, s1)
      \<and> decodeAttachmentChunk (chunk_sha256 w) (Some (ac_data c)) (chunk_size a (int i)) (Some (ac_hash c)) = Inr (bs ! i)"
    if i: "i < length bs" for i
  proof -
    let ?c = "?rows ! i"
    from i lbs decode_rows_nth [OF bs(1), of i] have ix: "c_index ?c = int i"
      and dec: "decodeAttachmentChunk (chunk_sha256 w) (Some (c_data ?c)) (chunk_size a (int i)) (Some (c_hash ?c)) = Inr (bs ! i)"
      by simp_all
    have "?c \<in> set ?rows" using i lbs by simp
    then have "?c \<in> set (chunks (db s1))" "c_pk ?c = (asset, int i)" using ix by (simp_all add: set_chunks_of c_pk_def)
    then have get: "get_row c_pk (asset, int i) (chunks (db s1)) = Some ?c"
      using ok get_row_pk [of c_pk "chunks (db s1)" ?c] by (simp add: transfers_ok_def tables_ok_def)
    have "MAX_ATTACHMENT_CHUNKS = 1707"
      by (simp add: MAX_ATTACHMENT_CHUNKS_def attachment_limits int_ceil_div_def)
    then have "is_safe_integer (int i)" "int i < at_chunks a" using i lbs len small by (simp_all add: is_safe_integer_def)
    with get dec assms(1) show ?thesis by (simp add: attachmentDownloadChunk_def)
  qed
  have "get_member (db s) x \<noteq> None" using r by (auto simp: isMember_def)
  moreover have "\<exists>bs. int (length bs) = at_chunks a \<and> int (length (concat bs)) = at_bytes a \<and> chunk_sha256 w (concat bs) = at_hash a
        \<and> (\<forall>i < length bs. \<exists>c. attachmentDownloadChunk w x asset (int i) s = (Inr c, s1)
             \<and> decodeAttachmentChunk (chunk_sha256 w) (Some (ac_data c)) (chunk_size a (int i)) (Some (ac_hash c)) = Inr (bs ! i))"
    by (intro conjI exI [of _ bs] allI impI fetch) (simp_all add: bs len lbs)
  ultimately show ?thesis using r ok by blast
qed

text \<open>Uploading the chunks of an encoded file, in the order of the list.\<close>

definition upload_run :: "world \<Rightarrow> string \<Rightarrow> string \<Rightarrow> attachment_chunk list \<Rightarrow> host \<Rightarrow> host" where
  "upload_run w x asset cs s =
     fold (\<lambda>c s. snd (attachmentUploadChunk w x asset (ac_index c) (ac_data c) (ac_sizeBytes c) (ac_hash c) s)) cs s"

definition writable :: "world \<Rightarrow> db \<Rightarrow> string \<Rightarrow> string \<Rightarrow> attachment \<Rightarrow> bool" where
  "writable w d x asset a \<longleftrightarrow>
     live_transfer w d asset = Some a \<and> at_owner a = x \<and> \<not> truthy_str (at_linked a)
     \<and> (\<exists>ch. get_channel d (at_channel a) = Some ch \<and> member_may d ch Send_files x)"

definition chunk_row :: "world \<Rightarrow> string \<Rightarrow> attachment_chunk \<Rightarrow> chunk" where
  "chunk_row w asset c = \<lparr>c_asset = asset, c_index = ac_index c, c_data = ac_data c, c_bytes = ac_sizeBytes c,
                          c_hash = ac_hash c, c_created = now w\<rparr>"

lemma member_may_cong: "members d' = members d \<Longrightarrow> roles d' = roles d \<Longrightarrow> member_may d' = member_may d"
  by (simp add: fun_eq_iff member_may_def get_member_def get_role_def split: option.split)

lemma chunk_row_simps [simp]:
  "c_asset (chunk_row w asset c) = asset" "c_index (chunk_row w asset c) = ac_index c"
  "c_data (chunk_row w asset c) = ac_data c" "c_hash (chunk_row w asset c) = ac_hash c"
  "c_bytes (chunk_row w asset c) = ac_sizeBytes c"
  by (simp_all add: chunk_row_def)

lemma writable_chunks [simp]: "writable w (chunks_update f d) x asset a = writable w d x asset a"
  using member_may_cong [of "chunks_update f d" d] by (simp add: writable_def live_transfer_def get_channel_def)

lemma encoded_chunk:
  assumes "encodeAttachmentChunks sha data = Inr cs" and "at_bytes a = int (length data)" and "at_chunks a = int (length cs)"
    and "i < length cs"
  shows "ac_index (cs ! i) = int i" and "ac_sizeBytes (cs ! i) = chunk_size a (int i)"
    and "\<exists>b. ac_data (cs ! i) = b64_encode b \<and> ac_hash (cs ! i) = sha b \<and> int (length b) = chunk_size a (int i)
             \<and> 1 \<le> chunk_size a (int i) \<and> chunk_size a (int i) \<le> ATTACHMENT_CHUNK_BYTES"
proof -
  let ?block = "\<lambda>i. subarray (i * 30720) ((i + 1) * 30720) data"
  obtain n where n: "attachmentChunkCount (int (length data)) = Inr n"
    and cs: "cs = map (\<lambda>i. \<lparr>ac_index = int i, ac_data = b64_encode (?block i), ac_sizeBytes = int (length (?block i)),
                          ac_hash = sha (?block i)\<rparr>) [0..<nat n]"
    using assms(1) by (auto simp: encodeAttachmentChunks_def Let_def ATTACHMENT_CHUNK_BYTES_def split: sum.splits)
  from attachmentChunkCount_Inr [OF n] have len: "int (length data) \<le> n * 30720" "(n - 1) * 30720 < int (length data)" "1 \<le> n"
    by auto
  have i: "int i < n" using assms(4) len(3) by (simp add: cs)
  have "int (length (?block i)) = (if int i = n - 1 then int (length data) - 30720 * (n - 1) else 30720)"
  proof (cases "int i = n - 1")
    case True
    then have "int (i * 30720) < int (length data)" "int (length data) \<le> int ((i + 1) * 30720)" using len by auto
    with True show ?thesis by (simp add: subarray_def of_nat_diff)
  next
    case False
    with i have "int i + 1 \<le> n - 1" by simp
    then have "(int i + 1) * 30720 \<le> (n - 1) * 30720" by simp
    with len(2) have "int ((i + 1) * 30720) < int (length data)" by simp
    with False show ?thesis by (simp add: subarray_def)
  qed
  moreover have "n = at_chunks a" using assms(3) len(3) by (simp add: cs)
  ultimately have size: "int (length (?block i)) = chunk_size a (int i)"
    using assms(2) by (simp add: chunk_size_def ATTACHMENT_CHUNK_BYTES_def)
  have bound: "1 \<le> chunk_size a (int i) \<and> chunk_size a (int i) \<le> ATTACHMENT_CHUNK_BYTES"
    using len assms(2) \<open>n = at_chunks a\<close> by (simp add: chunk_size_def ATTACHMENT_CHUNK_BYTES_def)
  have nth: "cs ! i = \<lparr>ac_index = int i, ac_data = b64_encode (?block i), ac_sizeBytes = int (length (?block i)),
                       ac_hash = sha (?block i)\<rparr>"
    using assms(4) by (simp add: cs)
  show "ac_index (cs ! i) = int i" by (simp add: nth)
  show "ac_sizeBytes (cs ! i) = chunk_size a (int i)" by (simp only: nth attachment_chunk.simps size)
  show "\<exists>b. ac_data (cs ! i) = b64_encode b \<and> ac_hash (cs ! i) = sha b \<and> int (length b) = chunk_size a (int i)
             \<and> 1 \<le> chunk_size a (int i) \<and> chunk_size a (int i) \<le> ATTACHMENT_CHUNK_BYTES"
    using size bound by (intro exI [of _ "?block i"]) (simp add: nth)
qed

lemma set_chunks: "db_update (chunks_update f) s = db_update (chunks_update (\<lambda>_. f (chunks (db s)))) s"
proof -
  have "chunks_update f d = chunks_update (\<lambda>_. f (chunks d)) d" for d by (cases d) simp
  then show ?thesis by (cases s) simp
qed

lemma upload_one:
  assumes "writable w (db s) x asset a" and "encodeAttachmentChunks (chunk_sha256 w) data = Inr cs"
    and "at_bytes a = int (length data)" and "at_chunks a = int (length cs)" and "sha_ok w" and "c \<in> set cs"
    and "chunks (db s) = rest @ map (chunk_row w asset) acc" and "\<forall>c \<in> set rest. c_asset c \<noteq> asset" and "set acc \<subseteq> set cs"
  shows "snd (attachmentUploadChunk w x asset (ac_index c) (ac_data c) (ac_sizeBytes c) (ac_hash c) s)
       = db_update (chunks_update (\<lambda>_. rest @ map (chunk_row w asset) (js_add c acc))) s"
proof -
  from assms(6) obtain i where i: "i < length cs" "c = cs ! i" by (auto simp: in_set_conv_nth)
  note enc = encoded_chunk [OF assms(2-4) i(1), folded i(2)]
  from enc(3) obtain b where b: "ac_data c = b64_encode b" "ac_hash c = chunk_sha256 w b" "int (length b) = chunk_size a (int i)"
    "1 \<le> chunk_size a (int i)" "chunk_size a (int i) \<le> ATTACHMENT_CHUNK_BYTES" by blast
  have dec: "is_ok (decodeAttachmentChunk (chunk_sha256 w) (Some (ac_data c)) (chunk_size a (int i)) (Some (ac_hash c)))"
    using b assms(5) decodeAttachmentChunk_Inr [of "chunk_sha256 w" "Some (ac_data c)" "chunk_size a (int i)" "Some (ac_hash c)" b]
    by (auto simp: is_ok_iff sha_ok_def)
  have "length cs \<le> 1707"
  proof -
    obtain n where n: "attachmentChunkCount (int (length data)) = Inr n" and "length cs = nat n"
      using assms(2) by (auto simp: encodeAttachmentChunks_def split: sum.splits)
    moreover have "MAX_ATTACHMENT_CHUNKS = 1707" by (simp add: MAX_ATTACHMENT_CHUNKS_def attachment_limits int_ceil_div_def)
    ultimately show ?thesis using attachmentChunkCount_Inr [OF n] by auto
  qed
  then have safe: "is_safe_integer (int i)" "int i < at_chunks a" using i assms(4) by (simp_all add: is_safe_integer_def)
  have row: "get_row c_pk (asset, int i) (chunks (db s)) = (if c \<in> set acc then Some (chunk_row w asset c) else None)"
  proof (cases "c \<in> set acc")
    case True
    have same: "c' = c" if "c' \<in> set acc" "ac_index c' = int i" for c'
    proof -
      from that(1) assms(9) have "c' \<in> set cs" by auto
      then obtain j where j: "j < length cs" "c' = cs ! j" by (auto simp: in_set_conv_nth)
      with encoded_chunk(1) [OF assms(2-4) j(1)] that(2) i(2) show ?thesis by simp
    qed
    have "has_row c_pk (asset, int i) (chunks (db s))"
      using True enc(1) by (force simp: assms(7) has_row_def c_pk_def)
    then obtain r where r: "get_row c_pk (asset, int i) (chunks (db s)) = Some r" by (auto simp: has_row_iff)
    then have "r \<in> set (rest @ map (chunk_row w asset) acc)" "c_pk r = (asset, int i)"
      using get_row_Some assms(7) by fastforce+
    then have "r \<in> chunk_row w asset ` set acc" "c_index r = int i" using assms(8) by (auto simp: c_pk_def)
    then obtain c' where "r = chunk_row w asset c'" "c' \<in> set acc" "c_index r = int i" by blast
    with same have "r = chunk_row w asset c" by (metis chunk_row_simps(2))
    with r have "get_row c_pk (asset, int i) (chunks (db s)) = Some (chunk_row w asset c)" by simp
    with True show ?thesis by simp
  next
    case False
    have fresh: "ac_index c' \<noteq> int i" if "c' \<in> set acc" for c'
    proof
      assume "ac_index c' = int i"
      from that assms(9) have "c' \<in> set cs" by auto
      then obtain j where j: "j < length cs" "c' = cs ! j" by (auto simp: in_set_conv_nth)
      with encoded_chunk(1) [OF assms(2-4) j(1)] \<open>ac_index c' = int i\<close> i(2) that False show False by simp
    qed
    have "\<not> has_row c_pk (asset, int i) (chunks (db s))"
    proof
      assume "has_row c_pk (asset, int i) (chunks (db s))"
      then obtain r where "r \<in> set (rest @ map (chunk_row w asset) acc)" "c_pk r = (asset, int i)"
        unfolding has_row_def assms(7) by (metis imageE)
      then have "c_asset r = asset" "c_index r = int i" by (simp_all add: c_pk_def)
      then have "r \<in> chunk_row w asset ` set acc" using assms(8) \<open>r \<in> set (rest @ map (chunk_row w asset) acc)\<close> by auto
      with fresh \<open>c_index r = int i\<close> show False by (auto simp: image_iff)
    qed
    then show ?thesis using False by (simp add: get_row_None)
  qed
  have w: "live_transfer w (db s) asset = Some a" "at_owner a = x" "\<not> truthy_str (at_linked a)"
    "\<not> (case get_channel (db s) (at_channel a) of None \<Rightarrow> True | Some ch \<Rightarrow> \<not> member_may (db s) ch Send_files x)"
    using assms(1) by (auto simp: writable_def)
  have "snd (attachmentUploadChunk w x asset (ac_index c) (ac_data c) (ac_sizeBytes c) (ac_hash c) s)
      = (if c \<in> set acc then s else db_update (chunks_update (\<lambda>t. t @ [chunk_row w asset c])) s)"
    using w safe dec row b(4) enc(1,2) i(2)
    by (simp add: attachmentUploadChunk_def Let_def chunk_row_def)
  also have "\<dots> = db_update (chunks_update (\<lambda>_. rest @ map (chunk_row w asset) (js_add c acc))) s"
  proof (cases "c \<in> set acc")
    case True
    have "db_update (chunks_update (\<lambda>_. chunks (db s))) s = s" by simp
    with True show ?thesis by (simp add: js_add_def assms(7) [symmetric])
  next
    case False
    then show ?thesis using set_chunks [of "\<lambda>t. t @ [chunk_row w asset c]" s] by (simp add: js_add_def assms(7))
  qed
  finally show ?thesis .
qed

lemma upload_run_chunks:
  assumes "writable w (db s) x asset a" and "encodeAttachmentChunks (chunk_sha256 w) data = Inr cs"
    and "at_bytes a = int (length data)" and "at_chunks a = int (length cs)" and "sha_ok w" and "set xs \<subseteq> set cs"
    and "chunks (db s) = rest @ map (chunk_row w asset) acc" and "\<forall>c \<in> set rest. c_asset c \<noteq> asset" and "set acc \<subseteq> set cs"
  shows "upload_run w x asset xs s = db_update (chunks_update (\<lambda>_. rest @ map (chunk_row w asset) (fold js_add xs acc))) s"
  using assms(1,6,7,9)
proof (induction xs arbitrary: s acc)
  case Nil
  have "db_update (chunks_update (\<lambda>_. chunks (db s))) s = s" by simp
  with Nil show ?case by (simp add: upload_run_def)
next
  case (Cons c xs)
  let ?s = "db_update (chunks_update (\<lambda>_. rest @ map (chunk_row w asset) (js_add c acc))) s"
  have c: "c \<in> set cs" using Cons.prems(2) by simp
  have "upload_run w x asset (c # xs) s = upload_run w x asset xs ?s"
    using upload_one [OF Cons.prems(1) assms(2-5) c Cons.prems(3) assms(8) Cons.prems(4)] by (simp add: upload_run_def)
  also have "\<dots> = db_update (chunks_update (\<lambda>_. rest @ map (chunk_row w asset) (fold js_add xs (js_add c acc)))) ?s"
    using Cons.prems c by (intro Cons.IH) simp_all
  finally show ?case by simp
qed

lemma decode_rowsI:
  "length bs = length cs \<Longrightarrow>
   (\<And>i. i < length cs \<Longrightarrow> c_index (cs ! i) = k + int i
      \<and> decodeAttachmentChunk (chunk_sha256 w) (Some (c_data (cs ! i))) (chunk_size a (k + int i)) (Some (c_hash (cs ! i))) = Inr (bs ! i))
   \<Longrightarrow> decode_rows w a k cs = Inr bs"
proof (induction cs arbitrary: k bs)
  case (Cons c cs)
  then obtain b bs' where bs: "bs = b # bs'" "length bs' = length cs" by (cases bs) auto
  have "decode_rows w a (k + 1) cs = Inr bs'"
    using Cons.prems(2) [of "Suc _"] bs by (intro Cons.IH) (auto simp: algebra_simps)
  with Cons.prems(2) [of 0] bs show ?case by simp
qed simp

lemma encoded_distinct:
  assumes "encodeAttachmentChunks sha data = Inr cs"
  shows "map ac_index cs = map int [0..<length cs]" and "distinct cs"
proof -
  show ix: "map ac_index cs = map int [0..<length cs]"
    using assms by (auto simp: encodeAttachmentChunks_def Let_def o_def split: sum.splits)
  have "distinct (map ac_index cs)" unfolding ix by (simp add: distinct_map)
  then show "distinct cs" by (simp add: distinct_map)
qed

lemma sort_key_rows:
  "sort_key c_index (map (chunk_row w asset) acc) = map (chunk_row w asset) (sort_key ac_index acc)"
proof -
  have "insort_key c_index (chunk_row w asset c) (map (chunk_row w asset) t) = map (chunk_row w asset) (insort_key ac_index c t)"
    for c t by (induction t) (simp_all add: chunk_row_def)
  then show ?thesis by (induction acc) simp_all
qed

lemma chunks_of_rows:
  assumes "encodeAttachmentChunks sha data = Inr cs" and "set acc = set cs" and "distinct acc"
    and "\<forall>c \<in> set rest. c_asset c \<noteq> asset"
  shows "chunks_of (rest @ map (chunk_row w asset) acc) asset = map (chunk_row w asset) cs"
proof -
  note ix = encoded_distinct [OF assms(1)]
  have "distinct (map ac_index cs)" unfolding ix(1) by (simp add: distinct_map)
  then have inj: "inj_on ac_index (set cs)" by (simp add: distinct_map)
  have "sorted (map ac_index cs)" unfolding ix(1) by (simp add: sorted_iff_nth_mono)
  then have "sort_key ac_index acc = cs"
    using inj assms(2,3) ix(2)
    by (intro map_sorted_distinct_set_unique [of ac_index]) (simp_all add: distinct_map)
  moreover have "filter (\<lambda>c. c_asset c = asset) rest = []" using assms(4) by (simp add: filter_empty_conv)
  moreover have "filter (\<lambda>c. c_asset c = asset) (map (chunk_row w asset) acc) = map (chunk_row w asset) acc"
    by (simp add: filter_id_conv chunk_row_def)
  ultimately show ?thesis by (simp add: chunks_of_def sort_key_rows)
qed

lemma decode_encoded:
  assumes "encodeAttachmentChunks (chunk_sha256 w) data = Inr cs" and "at_bytes a = int (length data)"
    and "at_chunks a = int (length cs)" and "sha_ok w"
  shows "\<exists>blocks. concat blocks = data \<and> decode_rows w a 0 (map (chunk_row w asset) cs) = Inr blocks"
proof -
  from concat_chunks [OF assms(1)] obtain blocks where
    enc: "cs = map (\<lambda>(i, b). \<lparr>ac_index = int i, ac_data = b64_encode b, ac_sizeBytes = int (length b),
                             ac_hash = chunk_sha256 w b\<rparr>) (zip [0..<length blocks] blocks)" and data: "concat blocks = data" by blast
  then have len: "length blocks = length cs" by simp
  have "decode_rows w a 0 (map (chunk_row w asset) cs) = Inr blocks"
  proof (rule decode_rowsI)
    fix i assume "i < length (map (chunk_row w asset) cs)"
    then have i: "i < length cs" by simp
    have nth: "cs ! i = \<lparr>ac_index = int i, ac_data = b64_encode (blocks ! i), ac_sizeBytes = int (length (blocks ! i)),
        ac_hash = chunk_sha256 w (blocks ! i)\<rparr>"
      using i len by (subst enc) simp
    from encoded_chunk(2,3) [OF assms(1-3) i] nth
    show "c_index (map (chunk_row w asset) cs ! i) = 0 + int i \<and>
        decodeAttachmentChunk (chunk_sha256 w) (Some (c_data (map (chunk_row w asset) cs ! i))) (chunk_size a (0 + int i))
          (Some (c_hash (map (chunk_row w asset) cs ! i))) = Inr (blocks ! i)"
      using i assms(4) by (auto simp: chunk_row_def decodeAttachmentChunk_Inr sha_ok_def)
  qed (simp add: len)
  with data show ?thesis by blast
qed

lemma find_complete:
  "List.find (\<lambda>r. at_asset r = k \<and> at_expires r > t) rs = Some a \<Longrightarrow> at_completed a = None \<Longrightarrow>
     List.find (\<lambda>r. at_asset r = k \<and> at_expires r > t)
       (upd_rows (\<lambda>r. at_asset r = k \<and> at_completed r = None) (\<lambda>r. r\<lparr>at_completed := c\<rparr>) rs) = Some (a\<lparr>at_completed := c\<rparr>)"
  by (induction rs) (auto simp: upd_rows_def split: if_splits)

text \<open>
  C10. Uploading works, in any order. Let a file be encoded into chunks and announced with its size, chunk count
  and hash, by a member who may send files, nothing of it being stored yet. After uploading any list of its
  chunks, in any order and with retries, completing the transfer succeeds exactly when every chunk is among
  the uploaded ones. Then the transfer is found completed at this time, with exactly the file's chunks stored in order;
  otherwise completing changes nothing.
\<close>

theorem upload_completes_iff_all_chunks:
  assumes "writable w (db s) x asset a" and "encodeAttachmentChunks (chunk_sha256 w) data = Inr cs"
    and "at_bytes a = int (length data)" and "at_chunks a = int (length cs)" and "at_hash a = chunk_sha256 w data"
    and "at_completed a = None" and "sha_ok w" and "set xs \<subseteq> set cs" and "\<forall>c \<in> set (chunks (db s)). c_asset c \<noteq> asset"
  shows "(fst (attachmentUploadComplete w x asset (upload_run w x asset xs s)) = Inr () \<longleftrightarrow> set xs = set cs)
    \<and> (set xs = set cs \<longrightarrow>
         live_transfer w (db (snd (attachmentUploadComplete w x asset (upload_run w x asset xs s)))) asset
           = Some (a\<lparr>at_completed := Some (now w)\<rparr>)
         \<and> stored_chunks (db (snd (attachmentUploadComplete w x asset (upload_run w x asset xs s)))) asset = map (chunk_row w asset) cs)
    \<and> (set xs \<noteq> set cs \<longrightarrow>
         snd (attachmentUploadComplete w x asset (upload_run w x asset xs s)) = upload_run w x asset xs s)"
proof -
  let ?t = "upload_run w x asset xs s" and ?acc = "js_set xs"
  have run: "?t = db_update (chunks_update (\<lambda>_. chunks (db s) @ map (chunk_row w asset) ?acc)) s"
    using upload_run_chunks [OF assms(1-4,7,8), of "chunks (db s)" "[]"] assms(9) by (simp add: js_set_def)
  have live: "live_transfer w (db ?t) asset = Some a" "at_owner a = x" "\<not> truthy_str (at_linked a)"
    using assms(1) by (auto simp: run writable_def live_transfer_def)
  have rows: "stored_chunks (db ?t) asset = sort_key c_index (map (chunk_row w asset) ?acc)"
  proof -
    have "filter (\<lambda>c. c_asset c = asset) (chunks (db s)) = []" using assms(9) by (simp add: filter_empty_conv)
    moreover have "filter (\<lambda>c. c_asset c = asset) (map (chunk_row w asset) ?acc) = map (chunk_row w asset) ?acc"
      by (simp add: filter_id_conv chunk_row_def)
    ultimately show ?thesis by (simp add: stored_chunks_def run)
  qed
  note cs = encoded_distinct [OF assms(2)]
  show ?thesis
  proof (cases "set xs = set cs")
    case True
    have sorted: "stored_chunks (db ?t) asset = map (chunk_row w asset) cs"
      using chunks_of_rows [OF assms(2) _ distinct_js_set assms(9), of xs] True by (simp add: stored_chunks_of run)
    from decode_encoded [OF assms(2-4,7)] obtain blocks where
      data: "concat blocks = data" and "decode_rows w a 0 (map (chunk_row w asset) cs) = Inr blocks" by blast
    then have marked: "attachmentUploadComplete w x asset ?t = (Inr (), db_update (attachments_update (upd_rows
        (\<lambda>r. at_asset r = asset \<and> at_completed r = None) (\<lambda>r. r\<lparr>at_completed := Some (now w)\<rparr>))) ?t)"
      using live sorted data assms(3-6) by (simp add: attachmentUploadComplete_def Let_def)
    have "live_transfer w (db (snd (attachmentUploadComplete w x asset ?t))) asset = Some (a\<lparr>at_completed := Some (now w)\<rparr>)"
      using live(1) assms(6) by (simp add: marked live_transfer_def find_complete)
    moreover have "stored_chunks (db (snd (attachmentUploadComplete w x asset ?t))) asset = map (chunk_row w asset) cs"
      using sorted by (simp add: marked stored_chunks_def)
    ultimately show ?thesis using True by (simp add: marked)
  next
    case False
    then have "set xs \<subset> set cs" using assms(8) by auto
    then have "card (set ?acc) < card (set cs)" by (simp add: psubset_card_mono)
    then have "length ?acc < length cs" using distinct_card [OF distinct_js_set [of xs]] distinct_card [OF cs(2)] by simp
    then have "int (length (stored_chunks (db ?t) asset)) \<noteq> at_chunks a" by (simp add: rows assms(4))
    then show ?thesis using live False assms(6) by (simp add: attachmentUploadComplete_def Let_def)
  qed
qed

text \<open>A two-byte file of the owner, announced, and the same file stored and linked.\<close>

definition sample_upload :: attachment where
  "sample_upload = \<lparr>at_asset = ''f'', at_data = [], at_bytes = 2, at_expires = 9999, at_created = 5, at_owner = ''ann'',
                    at_channel = ''general'', at_audience = [''ann''], at_linked = None, at_chunks = 1,
                    at_hash = replicate 64 CHR ''0'', at_completed = None\<rparr>"

definition sample_piece :: attachment_chunk where
  "sample_piece = \<lparr>ac_index = 0, ac_data = b64_encode [7, 8], ac_sizeBytes = 2, ac_hash = replicate 64 CHR ''0''\<rparr>"

definition uploading_host :: host where
  "uploading_host = sample_host\<lparr>db := sample_db\<lparr>attachments := [sample_upload]\<rparr>\<rparr>"

definition stored_host :: host where
  "stored_host = sample_host\<lparr>db := sample_db\<lparr>
     attachments := [sample_upload\<lparr>at_linked := Some ''m1'', at_completed := Some 7\<rparr>],
     chunks := [chunk_row sample_world ''f'' sample_piece]\<rparr>\<rparr>"

lemma sample_sha [simp]: "sha_ok sample_world" "chunk_sha256 sample_world b = replicate 64 CHR ''0''"
  by (simp_all add: sha_ok_def sample_world_def SHA256_HEX_def)

lemma sample_piece_encoded: "encodeAttachmentChunks (chunk_sha256 sample_world) [7, 8] = Inr [sample_piece]"
  by (simp add: encodeAttachmentChunks_def attachmentChunkCount_def attachment_limits int_ceil_div_def sample_piece_def
      subarray_def)

lemma sample_owner_may: "members d = members sample_db \<Longrightarrow> roles d = roles sample_db \<Longrightarrow> member_may d ch p ''ann''"
  using member_may_cong [of d sample_db] by (simp add: member_may_def sample_member_def memberContext_def)

lemma uploading_writable: "writable sample_world (db uploading_host) ''ann'' ''f'' sample_upload"
  using sample_owner_may [of "db uploading_host"]
  by (simp add: writable_def uploading_host_def live_transfer_def sample_upload_def sample_world_def get_channel_def
      get_row_def) (simp add: sample_db_def)

theorem upload_completes_iff_all_chunks_witness:
  "map_option at_completed (live_transfer sample_world (db (snd (attachmentUploadComplete sample_world ''ann'' ''f''
       (upload_run sample_world ''ann'' ''f'' [sample_piece, sample_piece] uploading_host)))) ''f'') = Some (Some (now sample_world))
   \<and> fst (attachmentUploadComplete sample_world ''ann'' ''f'' (upload_run sample_world ''ann'' ''f'' [] uploading_host)) \<noteq> Inr ()"
proof -
  note main = upload_completes_iff_all_chunks [OF uploading_writable sample_piece_encoded]
  have "chunks (db uploading_host) = []" by (simp add: uploading_host_def sample_db_def empty_db_def)
  with main [of "[sample_piece, sample_piece]"] main [of "[]"] show ?thesis by (simp add: sample_upload_def)
qed

lemma stored_ok: "transfers_ok sample_world (db stored_host)"
proof -
  let ?a = "sample_upload\<lparr>at_linked := Some ''m1'', at_completed := Some 7\<rparr>" and ?c = "chunk_row sample_world ''f'' sample_piece"
  have dec: "decodeAttachmentChunk (chunk_sha256 sample_world) (Some (c_data ?c)) (chunk_size ?a 0) (Some (c_hash ?c)) = Inr [7, 8]"
    by (simp add: decodeAttachmentChunk_Inr sample_piece_def chunk_size_def sample_upload_def ATTACHMENT_CHUNK_BYTES_def SHA256_HEX_def)
  have "chunks_of [?c] ''f'' = [?c]" "at_asset ?a = ''f''" by (simp_all add: chunks_of_def sample_upload_def)
  moreover have "decode_rows sample_world ?a 0 [?c] = Inr [[7, 8]]" using dec by (simp add: sample_piece_def)
  ultimately have "transfer_complete sample_world [?c] ?a"
    by (simp add: transfer_complete_def) (simp add: sample_upload_def)
  moreover have "chunk_valid sample_world ?a ?c"
    using dec by (simp add: chunk_valid_def is_ok_iff sample_piece_def sample_upload_def)
  moreover have "MAX_ATTACHMENT_CHUNKS = 1707" by (simp add: MAX_ATTACHMENT_CHUNKS_def attachment_limits int_ceil_div_def)
  ultimately show ?thesis
    by (simp add: transfers_ok_def tables_ok_def stored_host_def) (simp add: sample_upload_def)
qed

theorem download_integrity_witness:
  "\<exists>a s1. readableAttachment sample_world ''ann'' ''f'' stored_host = (Inr a, s1) \<and> ''ann'' \<in> set (at_audience a)
     \<and> (\<exists>ch. get_channel (db s1) (at_channel a) = Some ch \<and> member_may (db s1) ch View_channel ''ann'')"
proof -
  let ?a = "sample_upload\<lparr>at_linked := Some ''m1'', at_completed := Some 7\<rparr>"
  have "migrateLegacyAttachment sample_world ''f'' (db stored_host) = Inr (db stored_host)"
    by (simp add: migrateLegacyAttachment_def stored_host_def get_row_def sample_upload_def)
  moreover have "live_transfer sample_world (db stored_host) ''f'' = Some ?a"
    by (simp add: live_transfer_def stored_host_def sample_upload_def sample_world_def)
  moreover have "get_member (db stored_host) ''ann'' \<noteq> None" "get_channel (db stored_host) ''general'' = get_channel sample_db ''general''"
    by (simp_all add: stored_host_def get_member_def get_channel_def) (simp add: get_row_def sample_db_def sample_member_def)
  moreover have "member_may (db stored_host) ch View_channel ''ann''" for ch
    by (rule sample_owner_may) (simp_all add: stored_host_def)
  ultimately have r: "readableAttachment sample_world ''ann'' ''f'' stored_host = (Inr ?a, stored_host)"
    by (simp add: readableAttachment_def) (simp add: sample_upload_def)
  from download_integrity [OF r stored_ok] r show ?thesis by auto
qed

end
