(* ===== verification/Writer.thy ===== *)
theory Writer
  imports Grants
begin

text \<open>
  Write authority of a host (\<open>apps/janjanode/src/server.service.ts\<close>): the persisted writer state with its
  witness sets, start-up, the registration of the host with the bridges, resuming after a registration
  quorum, fencing, and promotion of a replica.
\<close>

section \<open>Witness sets\<close>

definition writerStateKey :: "string \<Rightarrow> string" where
  "writerStateKey hostId = ''writer_state:'' @ hostId"

fun json_strings :: "json list \<Rightarrow> string list option" where
  "json_strings [] = Some []"
| "json_strings (JStr s # vs) = map_option ((#) s) (json_strings vs)"
| "json_strings (_ # vs) = None"

definition normalizedWitnessBridgeSet :: "json \<Rightarrow> string list option" where
  "normalizedWitnessBridgeSet v =
     (case v of
        JArr xs \<Rightarrow>
          if length xs > 3 then None
          else (case json_strings xs of
                  None \<Rightarrow> None
                | Some ids \<Rightarrow>
                    if length (remdups ids) \<noteq> length ids \<or> list_ex (\<lambda>b. length b < 1 \<or> length b > 256) ids
                    then None else Some (sort ids))
      | _ \<Rightarrow> None)"

text \<open>
  The code keys a \<open>Map\<close> of sets by their JSON text, which determines the list (\<open>json_text_inj\<close>): adding a
  set already present changes nothing. Only the set of sets is ever used; the order in which they are
  written follows their text, which the code compares with \<open>localeCompare\<close> and the model by character codes.
\<close>

definition sort_sets :: "string list list \<Rightarrow> string list list" where
  "sort_sets sets = sort_key (\<lambda>ids. json_text (JStrs ids)) sets"

fun collect_sets :: "json list \<Rightarrow> string list list \<Rightarrow> string list list option" where
  "collect_sets [] acc = Some acc"
| "collect_sets (v # vs) acc =
     (case normalizedWitnessBridgeSet v of
        None \<Rightarrow> None
      | Some ids \<Rightarrow> if length ids < 2 then None else collect_sets vs (js_add ids acc))"

definition normalizedWitnessBridgeSets :: "json option \<Rightarrow> string list list option" where
  "normalizedWitnessBridgeSets v =
     (case v of
        Some (JArr xs) \<Rightarrow> if length xs > 64 then None else map_option sort_sets (collect_sets xs [])
      | _ \<Rightarrow> None)"

type_synonym witness_state = "string list list \<times> bool"

definition persistedWriterWitnessState :: "db \<Rightarrow> grant_payload \<Rightarrow> witness_state" where
  "persistedWriterWitnessState d g =
     (case meta d (writerStateKey (gp_host g)) of
        None \<Rightarrow> ([], True)
      | Some (MJson (JObj o1)) \<Rightarrow>
          if obj_get ''version'' o1 \<noteq> Some (JNum 2) \<or> obj_get ''hostId'' o1 \<noteq> Some (JStr (gp_host g))
             \<or> obj_get ''grantId'' o1 \<noteq> Some (JStr (gp_grant g)) then ([], True)
          else (case (normalizedWitnessBridgeSets (obj_get ''witnessBridgeSets'' o1),
                      obj_get ''witnessHistoryComplete'' o1) of
                  (Some sets, Some (JBool b)) \<Rightarrow> (sets, b)
                | _ \<Rightarrow> ([], False))
      | Some (MJson JNull) \<Rightarrow> ([], False)
      | Some (MJson _) \<Rightarrow> ([], True)
      | Some (MInt _) \<Rightarrow> ([], True)
      | Some _ \<Rightarrow> ([], False))"

text \<open>At most 64 sets are kept; losing one makes the history incomplete.\<close>

definition add_witness_set :: "json \<Rightarrow> witness_state \<Rightarrow> witness_state" where
  "add_witness_set v st =
     (case normalizedWitnessBridgeSet v of
        None \<Rightarrow> (fst st, False)
      | Some ids \<Rightarrow>
          if length ids < 2 then st
          else if ids \<notin> set (fst st) \<and> length (fst st) \<ge> 64 then (fst st, False)
          else (js_add ids (fst st), snd st))"

definition add_witness_sets :: "string list list \<Rightarrow> witness_state \<Rightarrow> witness_state" where
  "add_witness_sets sets st = foldl (\<lambda>st ids. add_witness_set (JStrs ids) st) st sets"

text \<open>The witnesses of one enrolled replica's grant, checked as of the time it was issued.\<close>

definition add_enrolled :: "world \<Rightarrow> db \<Rightarrow> host_grant \<Rightarrow> witness_state \<Rightarrow> witness_state" where
  "add_enrolled w d g st =
     (case authorityPublicKey d of
        Inl e \<Rightarrow> (fst st, False)
      | Inr k \<Rightarrow>
          (case verifySignedHostGrant w (row_grant k g) k (gp_issued (hg_payload g)) of
             None \<Rightarrow> (fst st, False)
           | Some v \<Rightarrow>
               if Promote \<in> set (gp_caps (s_payload v))
               then add_witness_set (JStrs (case gp_witness (s_payload v) of None \<Rightarrow> [] | Some ids \<Rightarrow> ids)) st
               else st))"

definition enrolled_grants :: "db \<Rightarrow> host_grant list" where
  "enrolled_grants d = [h. r \<leftarrow> replica_enrollments d, h \<leftarrow> host_grants d, hg_id h = en_grant r]"

definition add_local_trust :: "db \<Rightarrow> witness_state \<Rightarrow> witness_state" where
  "add_local_trust d st =
     (case meta d ''replica_witness_bridge_ids'' of
        None \<Rightarrow> st
      | Some (MJson v) \<Rightarrow> add_witness_set v st
      | Some (MInt n) \<Rightarrow> add_witness_set (JNum n) st
      | Some _ \<Rightarrow> (fst st, False))"

definition writerWitnessState :: "world \<Rightarrow> db \<Rightarrow> grant_payload \<Rightarrow> string list list \<Rightarrow> witness_state" where
  "writerWitnessState w d g additional =
     (let canPromote = Promote \<in> set (gp_caps g);
          configured = configuredRegistrationBridgeIds w;
          persisted = persistedWriterWitnessState d g;
          st1 = add_witness_sets additional (add_witness_sets (fst persisted) ([], snd persisted));
          st2 = (if canPromote \<and> configured \<noteq> [] then add_witness_set (JStrs configured) st1 else st1);
          st3 = (case gp_witness g of
                   Some (b # bs) \<Rightarrow> if canPromote then add_witness_set (JStrs (b # bs)) st2 else st2
                 | _ \<Rightarrow> st2);
          st4 = foldl (\<lambda>st h. add_enrolled w d h st) (add_local_trust d st3) (enrolled_grants d)
      in (sort_sets (fst st4), snd st4))"

definition writer_state_json :: "world \<Rightarrow> string \<Rightarrow> grant_payload \<Rightarrow> int \<Rightarrow> witness_state \<Rightarrow> json" where
  "writer_state_json w state g epoch st = JObj
     [(''version'', JNum 2), (''state'', JStr state), (''hostId'', JStr (gp_host g)), (''grantId'', JStr (gp_grant g)),
      (''epoch'', JNum epoch), (''witnessBridgeSets'', JArr (map JStrs (fst st))),
      (''witnessHistoryComplete'', JBool (snd st)), (''updatedAt'', JNum (now w))]"

definition persistWriterState :: "world \<Rightarrow> string \<Rightarrow> grant_payload \<Rightarrow> int \<Rightarrow> string list list \<Rightarrow> db \<Rightarrow> db" where
  "persistWriterState w state g epoch additional d =
     set_meta (writerStateKey (gp_host g))
       (MJson (writer_state_json w state g epoch (writerWitnessState w d g additional))) d"

section \<open>Start-up\<close>

text \<open>\<open>reconcileAuthorityPublicKey\<close>: the configured authority may replace a stored one only before any grant.\<close>

definition reconcileAuthorityPublicKey :: "world \<Rightarrow> db \<Rightarrow> exn + db" where
  "reconcileAuthorityPublicKey w d =
     (case read_seed (authority_seed w) of
        Inl e \<Rightarrow> Inl e
      | Inr None \<Rightarrow> Inr d
      | Inr (Some seed) \<Rightarrow>
          (let configured = public_key w seed in
           case meta d ''authority_public_key'' of
             None \<Rightarrow> Inr (set_meta ''authority_public_key'' (MText configured) d)
           | Some stored \<Rightarrow>
               if stored = MText configured then Inr d
               else if host_grants d \<noteq> [] then
                 Inl (AppError ''JC_AUTHORITY_SIGNING_SEED does not match the persisted authority_public_key'')
               else Inr (d\<lparr>meta := ((meta d)(''authority_public_key'' \<mapsto> MText configured))
                                   (''host_record_seq'' := None, ''host_record_hash'' := None)\<rparr>)))"

text \<open>The checks on a stored writer state; the sets are those of version 2.\<close>

definition safe_num :: "json option \<Rightarrow> bool" where
  "safe_num v = (case v of Some (JNum n) \<Rightarrow> is_safe_integer n | _ \<Rightarrow> False)"

definition writer_state_keys :: "int \<Rightarrow> string list" where
  "writer_state_keys version =
     (if version = 1 then [''epoch'', ''grantId'', ''hostId'', ''state'', ''updatedAt'', ''version'']
      else [''epoch'', ''grantId'', ''hostId'', ''state'', ''updatedAt'', ''version'', ''witnessBridgeSets'',
            ''witnessHistoryComplete''])"

definition persisted_sets :: "(string \<times> json) list \<Rightarrow> string list list option" where
  "persisted_sets o1 =
     (if obj_get ''version'' o1 = Some (JNum 2) then normalizedWitnessBridgeSets (obj_get ''witnessBridgeSets'' o1)
      else Some [])"

definition valid_writer_state :: "grant_payload \<Rightarrow> int \<Rightarrow> (string \<times> json) list \<Rightarrow> bool" where
  "valid_writer_state g epoch o1 \<longleftrightarrow>
     (obj_get ''version'' o1 = Some (JNum 1) \<or> obj_get ''version'' o1 = Some (JNum 2))
     \<and> join NUL (sort (map fst o1))
         = join NUL (sort (writer_state_keys (if obj_get ''version'' o1 = Some (JNum 1) then 1 else 2)))
     \<and> obj_get ''hostId'' o1 = Some (JStr (gp_host g)) \<and> obj_get ''grantId'' o1 = Some (JStr (gp_grant g))
     \<and> safe_num (obj_get ''epoch'' o1) \<and> obj_get ''epoch'' o1 = Some (JNum epoch)
     \<and> safe_num (obj_get ''updatedAt'' o1)
     \<and> (obj_get ''version'' o1 = Some (JNum 1)
        \<or> (persisted_sets o1 \<noteq> None \<and> (\<exists>b \<in> {True, False}. obj_get ''witnessHistoryComplete'' o1 = Some (JBool b))))
     \<and> (obj_get ''state'' o1 = Some (JStr ''writer'') \<or> obj_get ''state'' o1 = Some (JStr ''fenced''))"

definition eligibility :: "world \<Rightarrow> grant_payload \<Rightarrow> int \<Rightarrow> string list list \<Rightarrow> resume_eligibility" where
  "eligibility w g epoch sets =
     \<lparr>re_host = gp_host g, re_grant = gp_grant g, re_epoch = epoch,
      re_configured = configuredRegistrationBridgeIds w, re_witness = sets\<rparr>"

text \<open>No writer state is stored for this host yet.\<close>

definition restore_first :: "world \<Rightarrow> bool \<Rightarrow> grant_payload \<Rightarrow> host \<Rightarrow> host" where
  "restore_first w created g s =
     (let epoch = getEpoch (db s);
          bridgeIds = configuredRegistrationBridgeIds w;
          witness = writerWitnessState w (db s) g [];
          persist = db_update (persistWriterState w ''writer'' g epoch (fst witness))
      in if \<not> booted_as_replica w \<and> (created \<or> (bridgeIds = [] \<and> fst witness = [] \<and> snd witness))
         then (persist s)\<lparr>writer := True\<rparr>
         else if \<not> booted_as_replica w \<and> bridgeIds \<noteq> []
         then (persist s)\<lparr>writer := False,
                 writerResumeEligibility :=
                   (if snd witness then Some (eligibility w g epoch (fst witness))
                    else writerResumeEligibility s)\<rparr>
         else s\<lparr>writer := False\<rparr>)"

text \<open>A stored state is taken up again, suspended while any witness set or a gap in the history exists.\<close>

definition restore_stored :: "world \<Rightarrow> grant_payload \<Rightarrow> (string \<times> json) list \<Rightarrow> host \<Rightarrow> host" where
  "restore_stored w g o1 s =
     (let epoch = getEpoch (db s) in
      if valid_writer_state g epoch o1 \<and> obj_get ''state'' o1 = Some (JStr ''writer'')
      then (let witness = writerWitnessState w (db s) g (case persisted_sets o1 of None \<Rightarrow> [] | Some sets \<Rightarrow> sets);
                s1 = db_update (persistWriterState w ''writer'' g epoch (fst witness)) s
            in if fst witness \<noteq> [] \<or> \<not> snd witness
               then s1\<lparr>writer := False,
                       writerResumeEligibility :=
                         (if snd witness then Some (eligibility w g epoch (fst witness))
                          else writerResumeEligibility s)\<rparr>
               else s1\<lparr>writer := True\<rparr>)
      else s\<lparr>writer := False\<rparr>)"

definition restoreWriterState :: "world \<Rightarrow> string \<Rightarrow> bool \<Rightarrow> host \<Rightarrow> (exn + unit) \<times> host" where
  "restoreWriterState w newId created s0 =
     (case currentHostGrant w newId (s0\<lparr>writerResumeEligibility := None\<rparr>) of
        (Inl (Throws e), s) \<Rightarrow> (Inl e, s)
      | (Inl (Fail _), s) \<Rightarrow> (Inr (), s\<lparr>writer := False\<rparr>)
      | (Inr (_, v), s) \<Rightarrow>
          (let g = s_payload v in
           case meta (db s) (writerStateKey (gp_host g)) of
             None \<Rightarrow> (Inr (), restore_first w created g s)
           | Some (MJson (JObj o1)) \<Rightarrow> (Inr (), restore_stored w g o1 s)
           | Some _ \<Rightarrow> (Inr (), s\<lparr>writer := False\<rparr>)))"

definition bootstrap :: "world \<Rightarrow> string \<Rightarrow> string \<Rightarrow> host \<Rightarrow> (exn + unit) \<times> host" where
  "bootstrap w general newGrantId s =
     (case reconcileAuthorityPublicKey w (db s) of
        Inl e \<Rightarrow> (Inl e, s)
      | Inr d \<Rightarrow>
          (case bootstrap_community w general (s\<lparr>db := d\<rparr>) of
             (Inl e, s1) \<Rightarrow> (Inl e, s1)
           | (Inr _, s1) \<Rightarrow> restoreWriterState w newGrantId (roles d = []) s1))"

section \<open>Registration with the bridges\<close>

definition hostRecordSeqKey :: "string \<Rightarrow> string" where "hostRecordSeqKey h = ''host_record_seq:'' @ h"
definition hostRecordHashKey :: "string \<Rightarrow> string" where "hostRecordHashKey h = ''host_record_hash:'' @ h"

definition previous_hash :: "db \<Rightarrow> string \<Rightarrow> string option" where
  "previous_hash d h = (case meta d (hostRecordHashKey h) of Some (MText t) \<Rightarrow> Some t | _ \<Rightarrow> None)"

text \<open>
  The record of the next round. A stored sequence number that is no number makes the record's number
  \<open>NaN\<close>, which its schema refuses.
\<close>

definition next_record :: "world \<Rightarrow> grant_payload \<Rightarrow> int \<Rightarrow> string list \<Rightarrow> host \<Rightarrow> host_record" where
  "next_record w g previousSeq endpoints s =
     \<lparr>hr_server = server_id w, hr_grant = gp_grant g, hr_host = gp_host g,
      hr_role = (if writer s \<or> writerResumeEligibility s \<noteq> None then Primary else Replica),
      hr_epoch = getEpoch (db s), hr_seq = previousSeq + 1, hr_previous = previous_hash (db s) (gp_host g),
      hr_endpoints = endpoints, hr_candidates = [], hr_issued = now w, hr_ttl = 5 * 60000,
      hr_expires = now w + 5 * 60000\<rparr>"

definition createPrimaryRegistration ::
    "world \<Rightarrow> string \<Rightarrow> string list \<Rightarrow> host \<Rightarrow> pending_registration result \<times> host" where
  "createPrimaryRegistration w newId endpoints s =
     (let normalized = sorted_set endpoints in
      if length normalized = 0 \<or> length normalized > 3 then (Inl (Fail Invalid_input), s)
      else case pendingRegistration s of
          Some p \<Rightarrow> if pr_endpoints p = normalized then (Inr p, s) else (Inl (Fail Conflict), s)
        | None \<Rightarrow>
            (case currentHostGrant w newId s of
               (Inl e, s1) \<Rightarrow> (Inl e, s1)
             | (Inr (hostSeed, v), s1) \<Rightarrow>
                 (case meta_number (db s1) (hostRecordSeqKey (gp_host (s_payload v))) of
                    None \<Rightarrow> (Inl (Throws zod_error), s1)
                  | Some previousSeq \<Rightarrow>
                      (case createSignedHostRecord w (next_record w (s_payload v) previousSeq normalized s1) hostSeed of
                         Inl e \<Rightarrow> (Inl (Throws e), s1)
                       | Inr r \<Rightarrow>
                           (case authorityPublicKey (db s1) of
                              Inl e \<Rightarrow> (Inl (Throws e), s1)
                            | Inr k \<Rightarrow>
                                (case hostRegistrationRecordHash w r of
                                   Inl e \<Rightarrow> (Inl (Throws e), s1)
                                 | Inr hash \<Rightarrow>
                                     (let p = \<lparr>pr_endpoints = normalized,
                                               pr_registration = \<lparr>rg_authority = k, rg_grant = v, rg_record = r\<rparr>,
                                               pr_hash = hash, pr_committed = False\<rparr>
                                      in (Inr p, s1\<lparr>pendingRegistration := Some p\<rparr>))))))))"

text \<open>The committed registrations of the running host, in order; none when it has no grant.\<close>

definition registrationChain :: "world \<Rightarrow> string \<Rightarrow> host \<Rightarrow> (exn + chain_row list) \<times> host" where
  "registrationChain w newId s =
     (case currentHostGrant w newId s of
        (Inl (Throws e), s1) \<Rightarrow> (Inl e, s1)
      | (Inl (Fail _), s1) \<Rightarrow> (Inr [], s1)
      | (Inr (_, v), s1) \<Rightarrow>
          (Inr (sort_key cr_seq (filter (\<lambda>r. cr_host r = gp_host (s_payload v)) (host_record_chains (db s1)))), s1))"

text \<open>The registration a bridge's challenge names: the pending one, or one of the chain.\<close>

definition challenged_registration ::
    "world \<Rightarrow> string \<Rightarrow> string \<Rightarrow> host \<Rightarrow> (exn + registration option) \<times> host" where
  "challenged_registration w newId hash s =
     (case pendingRegistration s of
        Some p \<Rightarrow>
          if pr_hash p = hash then (Inr (Some (pr_registration p)), s)
          else map_prod (map_sum id (\<lambda>rows. map_option cr_registration (List.find (\<lambda>r. cr_hash r = hash) rows))) id
                 (registrationChain w newId s)
      | None \<Rightarrow>
          map_prod (map_sum id (\<lambda>rows. map_option cr_registration (List.find (\<lambda>r. cr_hash r = hash) rows))) id
            (registrationChain w newId s))"

text \<open>The challenge is \<open>None\<close> when it has not the schema's shape.\<close>

definition provePrimaryRegistration ::
    "world \<Rightarrow> string \<Rightarrow> registration_challenge option \<Rightarrow> host \<Rightarrow> registration_proof signed result \<times> host" where
  "provePrimaryRegistration w newId challenge s =
     (case challenge of
        None \<Rightarrow> (Inl (Fail Invalid_input), s)
      | Some c \<Rightarrow>
          if \<not> BridgeRegistrationChallengeSchema w c then (Inl (Fail Invalid_input), s)
          else case challenged_registration w newId (bc_record_hash c) s of
              (Inl e, s1) \<Rightarrow> (Inl (Throws e), s1)
            | (Inr None, s1) \<Rightarrow> (Inl (Fail Unauthorized), s1)
            | (Inr (Some r), s1) \<Rightarrow>
                if bc_expires c \<le> now w then (Inl (Fail Unauthorized), s1)
                else case read_seed (host_seed w) of
                    Inl e \<Rightarrow> (Inl (Throws e), s1)
                  | Inr None \<Rightarrow> (Inl (Fail Unavailable), s1)
                  | Inr (Some hostSeed) \<Rightarrow>
                      (let p = s_payload (rg_record r) in
                       case createSignedBridgeRegistrationProof w
                          \<lparr>rp_server = hr_server p, rp_host = hr_host p, rp_grant = hr_grant p,
                           rp_record_hash = bc_record_hash c, rp_challenge = bc_challenge c, rp_nonce = bc_nonce c,
                           rp_issued = now w, rp_expires = min (bc_expires c) (now w + 30000)\<rparr> hostSeed of
                         Inl e \<Rightarrow> (Inl (Throws e), s1)
                       | Inr proof \<Rightarrow> (Inr proof, s1)))"

text \<open>\<open>INSERT OR IGNORE\<close>: a row that would break either key is dropped.\<close>

definition insert_chain_row :: "chain_row \<Rightarrow> chain_row list \<Rightarrow> chain_row list" where
  "insert_chain_row r rows =
     (if has_row cr_pk (cr_pk r) rows \<or> has_row cr_hash (cr_hash r) rows then rows else rows @ [r])"

definition commitPrimaryRegistration :: "world \<Rightarrow> string \<Rightarrow> host \<Rightarrow> unit result \<times> host" where
  "commitPrimaryRegistration w recordHash s =
     (case pendingRegistration s of
        None \<Rightarrow> (Inl (Fail Conflict), s)
      | Some p \<Rightarrow>
          if pr_hash p \<noteq> recordHash then (Inl (Fail Conflict), s)
          else if pr_committed p then (Inr (), s)
          else case hostRegistrationRecordHash w (rg_record (pr_registration p)) of
              Inl e \<Rightarrow> (Inl (Throws e), s)
            | Inr hash \<Rightarrow>
                (let r = s_payload (rg_record (pr_registration p));
                     row = \<lparr>cr_host = hr_host r, cr_seq = hr_seq r, cr_hash = hash,
                            cr_registration = pr_registration p, cr_committed = now w\<rparr>
                 in (Inr (),
                     (db_update (\<lambda>d. host_record_chains_update (insert_chain_row row)
                         (set_meta (hostRecordHashKey (hr_host r)) (MText hash)
                           (set_meta (hostRecordSeqKey (hr_host r)) (MInt (hr_seq r)) d))) s)
                       \<lparr>pendingRegistration := Some (p\<lparr>pr_committed := True\<rparr>)\<rparr>)))"

definition abandonPrimaryRegistration :: "string option \<Rightarrow> host \<Rightarrow> host" where
  "abandonPrimaryRegistration recordHash s =
     (case pendingRegistration s of
        None \<Rightarrow> s
      | Some p \<Rightarrow>
          if \<not> truthy_str recordHash \<or> recordHash = Some (pr_hash p) then s\<lparr>pendingRegistration := None\<rparr> else s)"

section \<open>Resuming and fencing\<close>

definition set_majority :: "string list \<Rightarrow> string list \<Rightarrow> bool" where
  "set_majority acked ids \<longleftrightarrow> length (filter (\<lambda>b. b \<in> set ids) acked) \<ge> length ids div 2 + 1"

text \<open>The acknowledgements name exactly the bridges configured at start-up and reach every witness set.\<close>

definition resume_quorum :: "resume_eligibility \<Rightarrow> string list \<Rightarrow> string list \<Rightarrow> bool" where
  "resume_quorum el ackedIds configuredIds \<longleftrightarrow>
     (let configured = sorted_set configuredIds; acked = sorted_set ackedIds in
      length configured = length configuredIds \<and> length acked = length ackedIds
      \<and> configured = re_configured el \<and> list_all (\<lambda>b. b \<in> set configured) acked \<and> configured \<noteq> []
      \<and> length acked \<ge> length configured div 2 + 1 \<and> list_all (set_majority acked) (re_witness el))"

definition resumeWriterAfterRegistrationQuorum ::
    "world \<Rightarrow> string \<Rightarrow> ack_binding \<Rightarrow> string list \<Rightarrow> string list \<Rightarrow> host \<Rightarrow> (exn + bool) \<times> host" where
  "resumeWriterAfterRegistrationQuorum w newId b ackedIds configuredIds s =
     (case writerResumeEligibility s of
        None \<Rightarrow> (Inr False, s)
      | Some el \<Rightarrow>
          if writer s \<or> ab_role b \<noteq> Primary \<or> \<not> resume_quorum el ackedIds configuredIds then (Inr False, s)
          else case pendingRegistration s of
              None \<Rightarrow> (Inr False, s)
            | Some p \<Rightarrow>
                if \<not> pr_committed p \<or> pr_hash p \<noteq> ab_hash b then (Inr False, s)
                else let r = s_payload (rg_record (pr_registration p)) in
                  if hr_role r \<noteq> Primary \<or> hr_epoch r \<noteq> ab_epoch b \<or> hr_epoch r \<noteq> re_epoch el
                     \<or> hr_host r \<noteq> re_host el \<or> hr_grant r \<noteq> re_grant el then (Inr False, s)
                  else case currentHostGrant w newId s of
                      (Inl (Throws e), s1) \<Rightarrow> (Inl e, s1)
                    | (Inl (Fail _), s1) \<Rightarrow> (Inr False, s1)
                    | (Inr (_, v), s1) \<Rightarrow>
                        if gp_host (s_payload v) \<noteq> re_host el \<or> gp_grant (s_payload v) \<noteq> re_grant el
                        then (Inr False, s1)
                        else (Inr True,
                              emit StateChanged
                                ((db_update (persistWriterState w ''writer'' (s_payload v) (re_epoch el) (re_witness el)) s1)
                                   \<lparr>writerResumeEligibility := None, writer := True\<rparr>)))"

definition fencePrimaryWriter :: "world \<Rightarrow> string \<Rightarrow> host \<Rightarrow> (exn + bool) \<times> host" where
  "fencePrimaryWriter w newId s =
     (if \<not> writer s \<and> writerResumeEligibility s = None then (Inr False, s)
      else case currentHostGrant w newId s of
          (Inl (Throws e), s1) \<Rightarrow> (Inl e, s1)
        | (res, s1) \<Rightarrow>
            (let d1 = set_meta ''writer_fenced_at'' (MInt (now w)) (db s1);
                 d2 = (case res of Inr (_, v) \<Rightarrow> persistWriterState w ''fenced'' (s_payload v) (getEpoch d1) [] d1
                                 | Inl _ \<Rightarrow> d1)
             in (Inr True, emit StateChanged
                   (s1\<lparr>db := d2, writerResumeEligibility := None, pendingRegistration := None, writer := False\<rparr>))))"

section \<open>Promotion\<close>

definition PROMOTION_VOTE_DOMAIN :: string where "PROMOTION_VOTE_DOMAIN = ''janjacord.promotion-vote.v1''"

record promotion_vote =
  pv_bridge :: string
  pv_candidate :: string
  pv_election :: int
  pv_expires :: int
  pv_issued :: int
  pv_primary_epoch :: int
  pv_primary :: string
  pv_record_hash :: string
  pv_request :: string
  pv_server :: string
  pv_granted :: int

definition promotion_vote_json :: "promotion_vote \<Rightarrow> json" where
  "promotion_vote_json p = JObj
     [(''version'', JNum 1), (''bridgeId'', JStr (pv_bridge p)), (''candidateHostId'', JStr (pv_candidate p)),
      (''electionEpoch'', JNum (pv_election p)), (''expiresAt'', JNum (pv_expires p)),
      (''issuedAt'', JNum (pv_issued p)), (''primaryEpoch'', JNum (pv_primary_epoch p)),
      (''primaryHostId'', JStr (pv_primary p)), (''primaryRecordHash'', JStr (pv_record_hash p)),
      (''requestId'', JStr (pv_request p)), (''serverId'', JStr (pv_server p)), (''voteGrantedAt'', JNum (pv_granted p))]"

text \<open>A registration announced by another host, and what the primary knows of itself.\<close>

record announced_registration =
  an_authority :: string
  an_grant :: "grant_payload signed"
  an_record :: "host_record signed"

record primary_expectation =
  pe_primary :: string
  pe_record_hash :: string
  pe_epoch :: int

definition receipt_ok ::
    "world \<Rightarrow> (string \<times> string) list \<Rightarrow> string list \<Rightarrow> host_record \<Rightarrow> primary_expectation \<Rightarrow> promotion_vote signed \<Rightarrow> bool" where
  "receipt_ok w trusted approved r expected v \<longleftrightarrow>
     (let p = s_payload v in
      pv_bridge p \<in> set approved \<and> map_of trusted (pv_bridge p) = Some (s_key v)
      \<and> (case ed25519Fingerprint w (s_key v) of Inl e \<Rightarrow> False | Inr fp \<Rightarrow> pv_bridge p = ''ed25519:'' @ fp)
      \<and> 1 \<le> length (pv_request p) \<and> length (pv_request p) \<le> 128
      \<and> pv_server p = hr_server r \<and> pv_candidate p = hr_host r
      \<and> pv_primary p = pe_primary expected \<and> pv_record_hash p = pe_record_hash expected
      \<and> pv_primary_epoch p = pe_epoch expected \<and> pv_election p = hr_epoch r
      \<and> is_safe_integer (pv_granted p) \<and> is_safe_integer (pv_issued p) \<and> is_safe_integer (pv_expires p)
      \<and> pv_granted p \<le> pv_issued p \<and> pv_issued p \<le> now w + 5000 \<and> pv_expires p > now w
      \<and> pv_expires p \<le> pv_issued p + 24 * 3600000
      \<and> base64url_bytes (s_signature v) = 64 \<and> canonical_base64url (s_signature v)
      \<and> verifyCanonicalPayload w (s_key v) PROMOTION_VOTE_DOMAIN (promotion_vote_json p) (s_signature v))"

text \<open>A receipt is \<open>None\<close> when it has not exactly the expected fields.\<close>

fun receipts_ok ::
    "world \<Rightarrow> (string \<times> string) list \<Rightarrow> string list \<Rightarrow> host_record \<Rightarrow> primary_expectation
     \<Rightarrow> promotion_vote signed option list \<Rightarrow> string list \<Rightarrow> string list \<Rightarrow> bool" where
  "receipts_ok w trusted approved r expected [] bridgeIds requestIds = (length bridgeIds \<ge> 2)"
| "receipts_ok w trusted approved r expected (None # vs) bridgeIds requestIds = False"
| "receipts_ok w trusted approved r expected (Some v # vs) bridgeIds requestIds =
     (if \<not> receipt_ok w trusted approved r expected v
         \<or> pv_bridge (s_payload v) \<in> set bridgeIds \<or> pv_request (s_payload v) \<in> set requestIds then False
      else receipts_ok w trusted approved r expected vs (pv_bridge (s_payload v) # bridgeIds)
             (pv_request (s_payload v) # requestIds))"

text \<open>The certificate is \<open>None\<close> when it is no array.\<close>

definition validObservedPromotionCertificate ::
    "world \<Rightarrow> promotion_vote signed option list option \<Rightarrow> announced_registration \<Rightarrow> primary_expectation \<Rightarrow> bool" where
  "validObservedPromotionCertificate w value candidate expected =
     (case value of
        None \<Rightarrow> False
      | Some receipts \<Rightarrow>
          if length receipts < 2 \<or> length receipts > 3
             \<or> hr_epoch (s_payload (an_record candidate)) \<noteq> pe_epoch expected + 1 then False
          else let trusted = trustedBridgePublicKeys w;
                   approved = remdups (case gp_witness (s_payload (an_grant candidate)) of None \<Rightarrow> [] | Some ids \<Rightarrow> ids)
            in if length trusted < 2 \<or> length approved < 2 then False
               else receipts_ok w trusted approved (s_payload (an_record candidate)) expected receipts [] [])"

definition configureReplicaTrust :: "string \<Rightarrow> string list \<Rightarrow> host \<Rightarrow> (exn + unit) \<times> host" where
  "configureReplicaTrust primaryHostId bridgeIds s =
     (if writer s then (Inr (), s)
      else let normalized = sorted_set bridgeIds in
        if primaryHostId = [] \<or> length normalized > 3
        then (Inl (AppError ''invalid replica witness trust configuration''), s)
        else if (case meta (db s) ''replica_primary_host_id'' of None \<Rightarrow> False | Some v \<Rightarrow> v \<noteq> MText primaryHostId)
        then (Inl (AppError ''replica primary trust substitution rejected''), s)
        else (Inr (), db_update (\<lambda>d. set_meta ''replica_witness_bridge_ids'' (MJson (JStrs normalized))
                 (set_meta ''replica_primary_host_id'' (MText primaryHostId) d)) s))"

text \<open>The stored grant of the candidate: accepted, not revoked, not expired, and literally the same.\<close>

definition candidate_grant_current :: "world \<Rightarrow> db \<Rightarrow> grant_payload signed \<Rightarrow> bool" where
  "candidate_grant_current w d v =
     (case get_row hg_id (gp_grant (s_payload v)) (host_grants d) of
        None \<Rightarrow> False
      | Some g \<Rightarrow>
          truthy_num (hg_accepted g) \<and> \<not> truthy_num (hg_revoked g) \<and> hg_expires g > now w
          \<and> canonicalJson (grant_json (hg_payload g)) = canonicalJson (grant_json (s_payload v))
          \<and> hg_signature g = s_signature v)"

text \<open>The last record this primary committed in its epoch\<close>

definition last_primary_record :: "int \<Rightarrow> chain_row list \<Rightarrow> chain_row option" where
  "last_primary_record epoch rows =
     (case sort_key (\<lambda>r. - cr_seq r)
             (filter (\<lambda>r. hr_role (s_payload (rg_record (cr_registration r))) = Primary
                        \<and> hr_epoch (s_payload (rg_record (cr_registration r))) = epoch) rows) of
        [] \<Rightarrow> None
      | r # _ \<Rightarrow> Some r)"

definition observeHigherEpoch ::
    "world \<Rightarrow> string \<Rightarrow> string \<Rightarrow> announced_registration \<Rightarrow> promotion_vote signed option list option \<Rightarrow> host
     \<Rightarrow> (exn + bool) \<times> host" where
  "observeHigherEpoch w newId newId' candidate certificate s =
     (case authorityPublicKey (db s) of
        Inl e \<Rightarrow> (Inl e, s)
      | Inr k \<Rightarrow>
          if an_authority candidate \<noteq> k then (Inr False, s)
          else case verifyHostRegistration w (an_record candidate) (an_grant candidate) k [] (now w) of
              None \<Rightarrow> (Inr False, s)
            | Some (r, g) \<Rightarrow>
                if hr_server (s_payload r) \<noteq> server_id w \<or> hr_role (s_payload r) \<noteq> Primary
                   \<or> hr_epoch (s_payload r) \<noteq> getEpoch (db s) + 1 then (Inr False, s)
                else (case currentHostGrant w newId s of
                  (Inl (Throws e), s1) \<Rightarrow> (Inl e, s1)
                | (Inl (Fail _), s1) \<Rightarrow> (Inr False, s1)
                | (Inr (_, current), s1) \<Rightarrow>
                    if \<not> candidate_grant_current w (db s1) g then (Inr False, s1)
                    else (case registrationChain w newId' s1 of
                      (Inl e, s2) \<Rightarrow> (Inl e, s2)
                    | (Inr rows, s2) \<Rightarrow>
                        (case last_primary_record (getEpoch (db s2)) rows of
                           None \<Rightarrow> (Inr False, s2)
                         | Some prior \<Rightarrow>
                             if \<not> validObservedPromotionCertificate w certificate
                                    \<lparr>an_authority = an_authority candidate, an_grant = g, an_record = r\<rparr>
                                    \<lparr>pe_primary = gp_host (s_payload current), pe_record_hash = cr_hash prior,
                                     pe_epoch = getEpoch (db s2)\<rparr> then (Inr False, s2)
                             else (Inr True, emit StateChanged
                               (s2\<lparr>db := persistWriterState w ''fenced'' (s_payload current) (hr_epoch (s_payload r)) []
                                          (set_meta ''writer_fenced_at'' (MInt (now w))
                                            (set_meta ''epoch'' (MInt (hr_epoch (s_payload r))) (db s2))),
                                   writerResumeEligibility := None, pendingRegistration := None, writer := False\<rparr>))))))"

record observation =
  ob_bridge :: string
  ob_request :: string
  ob_candidate :: string
  ob_primary :: string
  ob_record_hash :: string
  ob_primary_epoch :: int
  ob_election :: int
  ob_online :: bool
  ob_observed :: int
  ob_expires :: int
  ob_receipt :: json

definition vote_ok :: "world \<Rightarrow> string list \<Rightarrow> string \<Rightarrow> string \<Rightarrow> int \<Rightarrow> observation \<Rightarrow> bool" where
  "vote_ok w bridgeIds candidate primary epoch e \<longleftrightarrow>
     ob_bridge e \<in> set bridgeIds \<and> ob_candidate e = candidate \<and> ob_primary e = primary \<and> \<not> ob_online e
     \<and> ob_primary_epoch e = epoch \<and> ob_election e = epoch + 1 \<and> Hex64Schema (ob_record_hash e)
     \<and> ob_expires e > now w \<and> ob_expires e \<le> ob_observed e + 24 * 3600000
     \<and> \<bar>now w - ob_observed e\<bar> \<le> 10000"

text \<open>
  The bridge ids are what \<open>configureReplicaTrust\<close> stored; a text that is no JSON array of strings is
  corrupt trust.
\<close>

definition stored_witness_ids :: "db \<Rightarrow> string list option" where
  "stored_witness_ids d =
     (case meta d ''replica_witness_bridge_ids'' of
        None \<Rightarrow> Some []
      | Some (MJson (JArr xs)) \<Rightarrow> json_strings xs
      | Some _ \<Rightarrow> None)"

definition promotion_votes_ok :: "world \<Rightarrow> string list \<Rightarrow> string \<Rightarrow> string \<Rightarrow> int \<Rightarrow> observation list \<Rightarrow> bool" where
  "promotion_votes_ok w bridgeIds candidate primary epoch obs \<longleftrightarrow>
     length bridgeIds \<ge> 2 \<and> length (remdups bridgeIds) = length bridgeIds
     \<and> length (remdups (map ob_bridge obs)) = length obs \<and> length (remdups (map ob_request obs)) = length obs
     \<and> length (remdups (map ob_record_hash obs)) = 1
     \<and> list_all (vote_ok w bridgeIds candidate primary epoch) obs
     \<and> strictBridgeWitnessQuorum (int (length bridgeIds))
         (map (\<lambda>i. if i \<in> set (map ob_bridge obs) then Some False else None) bridgeIds)"

definition promoteFromWitness ::
    "world \<Rightarrow> string \<Rightarrow> string \<Rightarrow> string \<Rightarrow> int \<Rightarrow> observation list \<Rightarrow> host \<Rightarrow> int result \<times> host" where
  "promoteFromWitness w actorId subjectKey grantId expectedEpoch obs s =
     (if writer s then (Inl (Fail Conflict), s)
      else case activeHostGrant w actorId subjectKey grantId Promote (db s) of
          Inl e \<Rightarrow> (Inl e, s)
        | Inr v \<Rightarrow>
            if expectedEpoch \<noteq> getEpoch (db s) then (Inl (Fail Conflict), s)
            else case stored_witness_ids (db s) of
                None \<Rightarrow> (Inl (Fail Forbidden), s)
              | Some bridgeIds \<Rightarrow>
                  (case meta (db s) ''replica_primary_host_id'' of
                     Some (MText primary) \<Rightarrow>
                       if \<not> promotion_votes_ok w bridgeIds (gp_host (s_payload v)) primary expectedEpoch obs
                       then (Inl (Fail Forbidden), s)
                       else let next = expectedEpoch + 1;
                                d1 = appendOp (OpPromote next grantId (gp_host (s_payload v)))
                                       (set_meta ''epoch'' (MInt next) (db s));
                                d2 = set_meta ''promotion_certificate'' (MJson (JArr (map ob_receipt obs))) d1;
                                d3 = persistWriterState w ''writer'' (s_payload v) next [] d2
                         in (Inr next, emit StateChanged (emit (WriterPromoted next)
                               (s\<lparr>db := d3, writerResumeEligibility := None, pendingRegistration := None,
                                   writer := True\<rparr>)))
                   | _ \<Rightarrow> (Inl (Fail Forbidden), s)))"

definition promotionCertificate :: "db \<Rightarrow> json list" where
  "promotionCertificate d =
     (case meta d ''promotion_certificate'' of Some (MJson (JArr xs)) \<Rightarrow> take 3 xs | _ \<Rightarrow> [])"

definition fenceReplicaGrant :: "world \<Rightarrow> string \<Rightarrow> host \<Rightarrow> host" where
  "fenceReplicaGrant w grantId s =
     (if writer s then s
      else db_update (\<lambda>d. set_meta ''replica_fenced_grant_id'' (MText grantId)
             (host_grants_update (upd_rows (\<lambda>g. hg_id g = grantId)
                (\<lambda>g. g\<lparr>hg_revoked := (case hg_revoked g of None \<Rightarrow> Some (now w) | r \<Rightarrow> r)\<rparr>)) d)) s)"

section \<open>Two writers need a common bridge\<close>

text \<open>The bridges that voted for a promotion are a strict majority of the replica's witnesses.\<close>

definition promotion_reached :: "string list \<Rightarrow> string list \<Rightarrow> bool" where
  "promotion_reached ids voters \<longleftrightarrow>
     (\<exists>w candidate primary epoch obs. promotion_votes_ok w ids candidate primary epoch obs \<and> voters = map ob_bridge obs)"

text \<open>The acknowledgements of a resumed writer are a strict majority of every witness set it keeps.\<close>

definition resume_reached :: "string list \<Rightarrow> string list \<Rightarrow> bool" where
  "resume_reached ids acks \<longleftrightarrow>
     distinct ids \<and> (\<exists>el acked configured. resume_quorum el acked configured \<and> ids \<in> set (re_witness el)
        \<and> acks = filter (\<lambda>b. b \<in> set ids) (sorted_set acked))"

lemma promotion_reachedI:
  "promotion_votes_ok w ids candidate primary epoch obs \<Longrightarrow> promotion_reached ids (map ob_bridge obs)"
  unfolding promotion_reached_def by (intro exI conjI) (assumption, rule refl)

lemma remdups_length: "length (remdups xs) = length xs \<longleftrightarrow> distinct xs"
  by (metis distinct_remdups distinct_remdups_id length_remdups_card_conv card_distinct distinct_card)

lemma count_voters:
  assumes "distinct ids" "distinct voters" "set voters \<subseteq> set ids"
  shows "length (filter (\<lambda>p. p = Some False) (map (\<lambda>i. if i \<in> set voters then Some False else None) ids)) = length voters"
proof -
  have "length (filter (\<lambda>p. p = Some False) (map (\<lambda>i. if i \<in> set voters then Some False else None) ids))
      = length (filter (\<lambda>i. i \<in> set voters) ids)"
    by (induction ids) auto
  also have "\<dots> = card (set voters)"
    using assms by (subst distinct_card [symmetric]) (auto intro: arg_cong [where f = card])
  finally show ?thesis using assms(2) by (simp add: distinct_card)
qed

lemma promotion_majority:
  assumes "promotion_votes_ok w ids candidate primary epoch obs"
  shows "distinct ids \<and> distinct (map ob_bridge obs) \<and> set (map ob_bridge obs) \<subseteq> set ids
     \<and> 2 * length (map ob_bridge obs) > length ids"
proof -
  have d: "distinct ids" "distinct (map ob_bridge obs)"
    using assms remdups_length [of ids] remdups_length [of "map ob_bridge obs"] by (simp_all add: promotion_votes_ok_def)
  have sub: "set (map ob_bridge obs) \<subseteq> set ids"
    using assms by (auto simp: promotion_votes_ok_def list_all_iff vote_ok_def)
  have q: "strictBridgeWitnessQuorum (int (length ids)) (map (\<lambda>i. if i \<in> set (map ob_bridge obs) then Some False else None) ids)"
    using assms by (simp add: promotion_votes_ok_def)
  have "2 * length (map ob_bridge obs) > length ids"
    using q count_voters [OF d sub] unfolding strictBridgeWitnessQuorum_def by (auto split: if_splits)
  with d sub show ?thesis by blast
qed

interpretation promoteq: strict_majority promotion_reached
  using promotion_majority by unfold_locales (unfold promotion_reached_def, blast)

interpretation resumeq: strict_majority resume_reached
proof
  fix ids acks assume "resume_reached ids acks"
  then obtain el acked configured where d: "distinct ids" and q: "resume_quorum el acked configured" "ids \<in> set (re_witness el)"
    and acks: "acks = filter (\<lambda>b. b \<in> set ids) (sorted_set acked)" by (auto simp: resume_reached_def)
  have "set_majority (sorted_set acked) ids" using q by (simp add: resume_quorum_def Let_def list_all_iff)
  then show "distinct ids \<and> distinct acks \<and> set acks \<subseteq> set ids \<and> 2 * length acks > length ids"
    using d acks by (auto simp: set_majority_def)
qed

interpretation write_authority: strict_majority "\<lambda>ids acks. promotion_reached ids acks \<or> resume_reached ids acks"
  using promoteq.reached_majority resumeq.reached_majority by unfold_locales blast

lemma resume_quorum_used:
  assumes "resumeWriterAfterRegistrationQuorum w n b acks configured s = (Inr True, s1)"
  shows "\<exists>el. writerResumeEligibility s = Some el \<and> resume_quorum el acks configured"
  using assms by (auto simp: resumeWriterAfterRegistrationQuorum_def Let_def split: option.splits if_splits)

lemma meta_keys [simp]:
  "writerStateKey h \<noteq> ''epoch''" "''epoch'' \<noteq> writerStateKey h" "writerStateKey h = writerStateKey h' \<longleftrightarrow> h = h'"
  "hostRecordSeqKey h \<noteq> hostRecordHashKey h'" "hostRecordHashKey h' \<noteq> hostRecordSeqKey h"
  "hostRecordHashKey h = hostRecordHashKey h' \<longleftrightarrow> h = h'" "hostRecordSeqKey h = hostRecordSeqKey h' \<longleftrightarrow> h = h'"
  by (auto simp: writerStateKey_def hostRecordSeqKey_def hostRecordHashKey_def)

lemma getEpoch_simps [simp]:
  "getEpoch (set_meta k v d) = (if k = ''epoch'' then (case v of MInt n \<Rightarrow> n | _ \<Rightarrow> 0) else getEpoch d)"
  "getEpoch (appendOp op d) = getEpoch d" "getEpoch (persistWriterState w st g e add d) = getEpoch d"
  "getEpoch (host_grants_update f d) = getEpoch d"
  by (simp_all add: getEpoch_def set_meta_def appendOp_def persistWriterState_def)

lemma emit_writer [simp]:
  "writer (emit e s) = writer s" "writerResumeEligibility (emit e s) = writerResumeEligibility s"
  "pendingRegistration (emit e s) = pendingRegistration s"
  by (simp_all add: emit_def)

lemma promotion_votes_used:
  assumes "promoteFromWitness w a k g e obs s = (Inr e', s1)"
  shows "\<exists>ids candidate primary. stored_witness_ids (db s) = Some ids \<and> promotion_votes_ok w ids candidate primary e obs
     \<and> e' = e + 1 \<and> getEpoch (db s) = e \<and> \<not> writer s \<and> writer s1 \<and> getEpoch (db s1) = e + 1"
  using assms
  by (auto simp: promoteFromWitness_def Let_def split: if_splits sum.splits option.splits meta_value.splits)

text \<open>
  C24. A returning primary and a promoted replica cannot both obtain write authority without a bridge that
  served both: if a suspended writer resumes with some acknowledgements, and a replica whose witnesses are
  one of the sets the writer kept promotes itself with some votes, then a bridge that acknowledged the
  primary's registration is among the bridges that voted the primary absent.
\<close>

theorem resume_conflicts_with_promotion:
  assumes "resumeWriterAfterRegistrationQuorum w n b acks configured s = (Inr True, s1)"
    and "writerResumeEligibility s = Some el" and "ids \<in> set (re_witness el)" and "distinct ids"
    and "promoteFromWitness w' a k g e obs r = (Inr e', r1)"
    and "stored_witness_ids (db r) = Some ids'" and "set ids' = set ids"
  shows "\<exists>bridge \<in> set acks. \<exists>vote \<in> set obs. ob_bridge vote = bridge"
proof -
  have r: "resume_reached ids (filter (\<lambda>b. b \<in> set ids) (sorted_set acks))"
    using resume_quorum_used [OF assms(1)] assms(2-4) by (auto simp: resume_reached_def)
  obtain candidate primary where "promotion_votes_ok w' ids' candidate primary e obs"
    using promotion_votes_used [OF assms(5)] assms(6) by auto
  then have p: "promotion_reached ids' (map ob_bridge obs)" by (rule promotion_reachedI)
  from write_authority.reached_intersect [OF disjI2 [OF r] disjI1 [OF p] assms(7) [symmetric]]
  show ?thesis by (auto simp: image_iff)
qed

lemma sample_stored_grant:
  assumes "host_grants d = host_grants grants_db" and "authorityPublicKey d = Inr (sample_key ''as'')"
  shows "stored_host_grant sample_world d (sample_key ''hs'') = Inr (Some (sample_signed sample_grant ''as''))"
proof -
  let ?g = "grant_row (sample_signed sample_grant ''as'') (sample_key ''ek'') 10 (Some 20)"
  have cols: "hg_accepted ?g = Some 20" "hg_revoked ?g = None" "hg_expires ?g = 5000" "hg_device_key ?g = sample_key ''hs''"
    by (simp_all add: grant_row_def Let_def) (simp_all add: sample_grant_def)
  show ?thesis
    using assms by (simp add: stored_host_grant_def grants_db_simps cols newest_first_def sample_grant_row sample_grant_verifies)
      (simp add: sample_grant_def)
qed

lemma sample_current_grant:
  assumes "host_grants (db s) = host_grants grants_db" and "authorityPublicKey (db s) = Inr (sample_key ''as'')"
  shows "currentHostGrant sample_world n s = (Inr (''hs'', sample_signed sample_grant ''as''), s)"
proof -
  have "read_seed (host_seed sample_world) = Inr (Some ''hs'')" by (simp add: sample_world_def read_seed_def)
  with sample_stored_grant [OF assms] show ?thesis by (simp add: currentHostGrant_def)
qed

definition demo_bridges :: "string list" where "demo_bridges = [''b1'', ''b2'', ''b3'']"

definition suspended_host :: host where
  "suspended_host = grants_host\<lparr>writer := False,
     pendingRegistration := Some
       \<lparr>pr_endpoints = [''wss://a''],
        pr_registration = \<lparr>rg_authority = sample_key ''as'', rg_grant = sample_signed sample_grant ''as'',
                           rg_record = sample_signed sample_record ''hs''\<rparr>,
        pr_hash = ''hh'', pr_committed = True\<rparr>,
     writerResumeEligibility := Some
       \<lparr>re_host = ''h1'', re_grant = ''g1'', re_epoch = 0, re_configured = demo_bridges,
        re_witness = [demo_bridges]\<rparr>\<rparr>"

definition demo_vote :: "string \<Rightarrow> string \<Rightarrow> observation" where
  "demo_vote bridge request =
     \<lparr>ob_bridge = bridge, ob_request = request, ob_candidate = ''h1'', ob_primary = ''h0'',
      ob_record_hash = replicate 64 CHR ''0'', ob_primary_epoch = 0, ob_election = 1, ob_online = False,
      ob_observed = 1000, ob_expires = 2000, ob_receipt = JNull\<rparr>"

definition replica_host :: host where
  "replica_host = grants_host\<lparr>writer := False,
     db := set_meta ''replica_witness_bridge_ids'' (MJson (JStrs demo_bridges))
             (set_meta ''replica_primary_host_id'' (MText ''h0'') grants_db)\<rparr>"

lemma sorted_set_demo: "sorted_set demo_bridges = demo_bridges" "sorted_set [''b1'', ''b2''] = [''b1'', ''b2'']"
  by (simp_all add: sorted_set_def demo_bridges_def less_eq_char_def less_char_def)

lemma suspended_resumes:
  "fst (resumeWriterAfterRegistrationQuorum sample_world ''n'' \<lparr>ab_hash = ''hh'', ab_epoch = 0, ab_role = Primary\<rparr>
     [''b1'', ''b2''] demo_bridges suspended_host) = Inr True"
proof -
  have db: "db suspended_host = grants_db" by (simp add: suspended_host_def grants_host_def)
  have c: "currentHostGrant sample_world ''n'' suspended_host = (Inr (''hs'', sample_signed sample_grant ''as''), suspended_host)"
    by (rule sample_current_grant) (simp_all add: db grants_db_simps)
  have q: "resume_quorum (the (writerResumeEligibility suspended_host)) [''b1'', ''b2''] demo_bridges"
    by (simp add: resume_quorum_def sorted_set_demo suspended_host_def set_majority_def) (simp add: demo_bridges_def)
  have p: "pendingRegistration suspended_host \<noteq> None" "writerResumeEligibility suspended_host \<noteq> None"
    "pr_committed (the (pendingRegistration suspended_host))" "pr_hash (the (pendingRegistration suspended_host)) = ''hh''"
    "s_payload (rg_record (pr_registration (the (pendingRegistration suspended_host)))) = sample_record"
    "\<not> writer suspended_host" "re_host (the (writerResumeEligibility suspended_host)) = ''h1''"
    "re_grant (the (writerResumeEligibility suspended_host)) = ''g1''" "re_epoch (the (writerResumeEligibility suspended_host)) = 0"
    by (simp_all add: suspended_host_def)
  have r: "hr_role sample_record = Primary" "hr_epoch sample_record = 0" "hr_host sample_record = ''h1''"
    "hr_grant sample_record = ''g1''" "gp_host sample_grant = ''h1''" "gp_grant sample_grant = ''g1''"
    by (simp_all add: sample_record_def sample_grant_def)
  show ?thesis
    using p q by (auto simp: resumeWriterAfterRegistrationQuorum_def c r)
qed

lemma replica_promotes:
  "fst (promoteFromWitness sample_world ''ann'' (sample_key ''ka'') ''g1'' 0
     [demo_vote ''b2'' ''r2'', demo_vote ''b3'' ''r3''] replica_host) = Inr 1"
  "stored_witness_ids (db replica_host) = Some demo_bridges"
proof -
  let ?d = "db replica_host"
  have tables: "members ?d = members grants_db" "devices ?d = devices grants_db" "host_grants ?d = host_grants grants_db"
    by (simp_all add: replica_host_def set_meta_def)
  have m: "meta ?d ''authority_public_key'' = meta grants_db ''authority_public_key''"
    "meta ?d ''replica_witness_bridge_ids'' = Some (MJson (JStrs demo_bridges))"
    "meta ?d ''replica_primary_host_id'' = Some (MText ''h0'')" "getEpoch ?d = 0"
    by (simp_all add: replica_host_def set_meta_def) (simp add: getEpoch_def grants_db_def sample_db_def)
  have "activeHostGrant sample_world ''ann'' (sample_key ''ka'') ''g1'' Promote ?d
      = activeHostGrant sample_world ''ann'' (sample_key ''ka'') ''g1'' Promote grants_db"
  proof -
    have "authorityPublicKey ?d = authorityPublicKey grants_db" by (simp add: authorityPublicKey_def m)
    moreover have "currentHostGeneration ?d = currentHostGeneration grants_db" "isMember ?d = isMember grants_db"
      "isAuthorizedDevice ?d = isAuthorizedDevice grants_db"
      by (simp_all add: fun_eq_iff currentHostGeneration_def isMember_def get_member_def isAuthorizedDevice_def tables)
    ultimately show ?thesis by (simp only: activeHostGrant_def tables)
  qed
  then have a: "activeHostGrant sample_world ''ann'' (sample_key ''ka'') ''g1'' Promote ?d = Inr (sample_signed sample_grant ''as'')"
    by (simp add: sample_active)
  show ids: "stored_witness_ids ?d = Some demo_bridges"
    by (simp add: stored_witness_ids_def m JStrs_def demo_bridges_def)
  have "promotion_votes_ok sample_world demo_bridges ''h1'' ''h0'' 0 [demo_vote ''b2'' ''r2'', demo_vote ''b3'' ''r3'']"
    by (simp add: promotion_votes_ok_def demo_bridges_def vote_ok_def demo_vote_def Hex64Schema_def hex_lower_char_def
        list_all_iff strictBridgeWitnessQuorum_def)
  moreover have "\<not> writer replica_host" by (simp add: replica_host_def)
  ultimately show "fst (promoteFromWitness sample_world ''ann'' (sample_key ''ka'') ''g1'' 0
     [demo_vote ''b2'' ''r2'', demo_vote ''b3'' ''r3''] replica_host) = Inr 1"
    by (simp add: promoteFromWitness_def a m ids Let_def sample_grant_def)
qed

theorem resume_conflicts_with_promotion_witness:
  "\<exists>bridge \<in> set [''b1'', ''b2'']. \<exists>vote \<in> set [demo_vote ''b2'' ''r2'', demo_vote ''b3'' ''r3'']. ob_bridge vote = bridge"
proof (rule resume_conflicts_with_promotion)
  show "resumeWriterAfterRegistrationQuorum sample_world ''n'' \<lparr>ab_hash = ''hh'', ab_epoch = 0, ab_role = Primary\<rparr>
     [''b1'', ''b2''] demo_bridges suspended_host = (Inr True, snd (resumeWriterAfterRegistrationQuorum sample_world ''n''
       \<lparr>ab_hash = ''hh'', ab_epoch = 0, ab_role = Primary\<rparr> [''b1'', ''b2''] demo_bridges suspended_host))"
    using suspended_resumes by (simp add: prod_eq_iff)
  show "writerResumeEligibility suspended_host = Some
       \<lparr>re_host = ''h1'', re_grant = ''g1'', re_epoch = 0, re_configured = demo_bridges, re_witness = [demo_bridges]\<rparr>"
    by (simp add: suspended_host_def)
  show "promoteFromWitness sample_world ''ann'' (sample_key ''ka'') ''g1'' 0 [demo_vote ''b2'' ''r2'', demo_vote ''b3'' ''r3'']
     replica_host = (Inr 1, snd (promoteFromWitness sample_world ''ann'' (sample_key ''ka'') ''g1'' 0
       [demo_vote ''b2'' ''r2'', demo_vote ''b3'' ''r3''] replica_host))"
    using replica_promotes(1) by (simp add: prod_eq_iff)
  show "stored_witness_ids (db replica_host) = Some demo_bridges" by (rule replica_promotes(2))
  show "demo_bridges \<in> set (re_witness \<lparr>re_host = ''h1'', re_grant = ''g1'', re_epoch = 0, re_configured = demo_bridges,
       re_witness = [demo_bridges]\<rparr>)" by simp
qed (simp_all add: demo_bridges_def)

section \<open>The witness floor\<close>

definition normal_set :: "string list \<Rightarrow> bool" where
  "normal_set ids \<longleftrightarrow> sorted ids \<and> distinct ids \<and> length ids \<le> 3 \<and> (\<forall>b \<in> set ids. 1 \<le> length b \<and> length b \<le> 256)"

definition floor_ok :: "string list list \<Rightarrow> bool" where
  "floor_ok sets \<longleftrightarrow> distinct sets \<and> length sets \<le> 64 \<and> (\<forall>ids \<in> set sets. normal_set ids \<and> 2 \<le> length ids)"

lemma json_strings_map [simp]: "json_strings (map JStr ids) = Some ids"
  by (induction ids) auto

lemma json_strings_Some: "json_strings vs = Some ids \<Longrightarrow> vs = map JStr ids"
  by (induction vs arbitrary: ids rule: json_strings.induct) auto

lemma normalized_Some:
  assumes "normalizedWitnessBridgeSet v = Some ids"
  shows "\<exists>ids0. length ids0 \<le> 3 \<and> distinct ids0 \<and> \<not> list_ex (\<lambda>b. length b < 1 \<or> length b > 256) ids0 \<and> ids = sort ids0"
proof (cases v)
  case (JArr xs)
  with assms obtain ids0 where j: "json_strings xs = Some ids0" by (auto simp: normalizedWitnessBridgeSet_def split: if_splits option.splits)
  with json_strings_Some [OF j] JArr assms show ?thesis
    by (intro exI [of _ ids0]) (auto simp: normalizedWitnessBridgeSet_def remdups_length split: if_splits)
qed (use assms in \<open>simp_all add: normalizedWitnessBridgeSet_def\<close>)

lemma normalized_normal: "normalizedWitnessBridgeSet v = Some ids \<Longrightarrow> normal_set ids"
proof -
  assume "normalizedWitnessBridgeSet v = Some ids"
  from normalized_Some [OF this] obtain ids0 where h: "length ids0 \<le> 3" "distinct ids0" "ids = sort ids0"
    and ex: "\<not> list_ex (\<lambda>b. length b < 1 \<or> length b > 256) ids0" by blast
  from ex have "\<forall>b \<in> set ids0. 1 \<le> length b \<and> length b \<le> 256"
    unfolding list_ex_iff by (meson linorder_not_less)
  with h show ?thesis by (simp add: normal_set_def)
qed

lemma normalized_JStrs: "normalizedWitnessBridgeSet (JStrs ids) = Some ids' \<Longrightarrow> ids' = sort ids"
  by (auto simp: normalizedWitnessBridgeSet_def JStrs_def split: if_splits)

lemma normalized_of_normal: "normal_set ids \<Longrightarrow> normalizedWitnessBridgeSet (JStrs ids) = Some ids"
  by (auto simp: normalizedWitnessBridgeSet_def JStrs_def normal_set_def remdups_length list_ex_iff not_less
      sorted_sort_id)

lemma sort_sets_simps [simp]:
  "set (sort_sets sets) = set sets" "distinct (sort_sets sets) = distinct sets" "length (sort_sets sets) = length sets"
  by (simp_all add: sort_sets_def)

lemma floor_ok_sort [simp]: "floor_ok (sort_sets sets) = floor_ok sets"
  by (simp add: floor_ok_def)

lemma collect_sets_floor:
  "collect_sets vs acc = Some sets \<Longrightarrow> distinct acc \<Longrightarrow> \<forall>ids \<in> set acc. normal_set ids \<and> 2 \<le> length ids \<Longrightarrow>
   distinct sets \<and> (\<forall>ids \<in> set sets. normal_set ids \<and> 2 \<le> length ids) \<and> length sets \<le> length acc + length vs"
proof (induction vs acc rule: collect_sets.induct)
  case (2 v vs acc)
  then obtain ids where v: "normalizedWitnessBridgeSet v = Some ids" "\<not> length ids < 2" "collect_sets vs (js_add ids acc) = Some sets"
    by (auto split: option.splits if_splits)
  have "length (js_add ids acc) \<le> Suc (length acc)" by (simp add: js_add_def)
  moreover have "\<forall>x \<in> set (js_add ids acc). normal_set x \<and> 2 \<le> length x"
    using 2(4) normalized_normal [OF v(1)] v(2) by auto
  moreover have "distinct (js_add ids acc)" using 2(3) by simp
  ultimately show ?case using 2(1) [OF v] by simp
qed auto

lemma collect_sets_floor_ok:
  "\<forall>ids \<in> set sets. normal_set ids \<and> 2 \<le> length ids \<Longrightarrow> distinct (acc @ sets) \<Longrightarrow>
   collect_sets (map JStrs sets) acc = Some (acc @ sets)"
proof (induction sets arbitrary: acc)
  case (Cons ids sets)
  then have "collect_sets (map JStrs sets) (acc @ [ids]) = Some ((acc @ [ids]) @ sets)" by (intro Cons.IH) auto
  moreover have "js_add ids acc = acc @ [ids]" using Cons(3) by (auto simp: js_add_def)
  ultimately show ?case using Cons(2) by (simp add: normalized_of_normal)
qed simp

lemma normalized_sets_floor: "normalizedWitnessBridgeSets v = Some sets \<Longrightarrow> floor_ok sets"
proof -
  assume "normalizedWitnessBridgeSets v = Some sets"
  then obtain xs where "\<not> 64 < length xs" "map_option sort_sets (collect_sets xs []) = Some sets"
    by (auto simp: normalizedWitnessBridgeSets_def split: option.splits json.splits if_splits)
  then obtain sets0 where c: "\<not> 64 < length xs" "collect_sets xs [] = Some sets0" and s: "sets = sort_sets sets0"
    by (cases "collect_sets xs []") auto
  from collect_sets_floor [OF c(2)] c(1) have "floor_ok sets0" by (simp add: floor_ok_def)
  with s show ?thesis by simp
qed

lemma normalized_sets_written:
  "floor_ok sets \<Longrightarrow> normalizedWitnessBridgeSets (Some (JArr (map JStrs sets))) = Some (sort_sets sets)"
  using collect_sets_floor_ok [of sets "[]"] by (simp add: normalizedWitnessBridgeSets_def floor_ok_def)

lemma persisted_floor: "floor_ok (fst (persistedWriterWitnessState d g))"
  by (auto simp: persistedWriterWitnessState_def floor_ok_def [of "[]"] dest: normalized_sets_floor
      split: option.splits meta_value.splits json.splits if_splits)

text \<open>Adding sets only adds, and completeness once lost stays lost.\<close>

definition grows :: "witness_state \<Rightarrow> witness_state \<Rightarrow> bool" where
  "grows st st' \<longleftrightarrow> set (fst st) \<subseteq> set (fst st') \<and> (snd st' \<longrightarrow> snd st) \<and> (floor_ok (fst st) \<longrightarrow> floor_ok (fst st'))"

lemma grows_refl [simp]: "grows st st" "grows st (fst st, False)"
  by (simp_all add: grows_def)

lemma grows_trans: "grows a b \<Longrightarrow> grows b c \<Longrightarrow> grows a c"
  by (auto simp: grows_def)

lemma add_set_grows: "grows st (add_witness_set v st)"
proof (cases "normalizedWitnessBridgeSet v")
  case (Some ids)
  have "floor_ok (js_add ids (fst st))" if "floor_ok (fst st)" "\<not> length ids < 2" "ids \<in> set (fst st) \<or> length (fst st) < 64"
    using that normalized_normal [OF Some] by (auto simp: floor_ok_def js_add_def)
  with Some show ?thesis by (auto simp: add_witness_set_def grows_def)
qed (simp add: add_witness_set_def)

lemma add_set_contains:
  "snd (add_witness_set (JStrs ids) st) \<Longrightarrow> 2 \<le> length ids \<Longrightarrow> sort ids \<in> set (fst (add_witness_set (JStrs ids) st))"
  by (auto simp: add_witness_set_def dest: normalized_JStrs split: option.splits if_splits)

lemma foldl_grows:
  assumes "\<And>st x. grows st (f st x)"
  shows "grows st (foldl f st xs)"
proof (induction xs arbitrary: st)
  case (Cons x xs)
  show ?case using grows_trans [OF assms Cons.IH [of "f st x"]] by simp
qed simp

lemma foldl_contains:
  assumes g: "\<And>st x. grows st (f st x)" and t: "\<And>st x. snd (f st x) \<Longrightarrow> T x \<subseteq> set (fst (f st x))"
    and "snd (foldl f st xs)" and "x \<in> set xs"
  shows "T x \<subseteq> set (fst (foldl f st xs))"
  using assms(3,4)
proof (induction xs arbitrary: st)
  case (Cons y xs)
  have "grows (f st y) (foldl f (f st y) xs)" by (rule foldl_grows [OF g])
  then have up: "set (fst (f st y)) \<subseteq> set (fst (foldl f (f st y) xs))" "snd (f st y)"
    using Cons.prems(1) by (simp_all add: grows_def)
  show ?case
  proof (cases "x \<in> set xs")
    case True
    then show ?thesis using Cons.IH [of "f st y"] Cons.prems(1) by simp
  next
    case False
    then show ?thesis using Cons.prems(2) t [of st y] up by simp
  qed
qed simp

lemma add_sets_grows: "grows st (add_witness_sets sets st)"
  unfolding add_witness_sets_def by (rule foldl_grows) (rule add_set_grows)

lemma add_sets_contains:
  assumes "snd (add_witness_sets sets st)" "ids \<in> set sets" "2 \<le> length ids"
  shows "sort ids \<in> set (fst (add_witness_sets sets st))"
  using foldl_contains [of "\<lambda>st ids. add_witness_set (JStrs ids) st" "\<lambda>ids. if 2 \<le> length ids then {sort ids} else {}" st sets ids]
    add_set_grows add_set_contains assms by (auto simp: add_witness_sets_def)

lemma add_enrolled_grows: "grows st (add_enrolled w d h st)"
  by (auto simp: add_enrolled_def add_set_grows split: sum.splits option.splits)

lemma add_local_grows: "grows st (add_local_trust d st)"
  by (auto simp: add_local_trust_def add_set_grows split: option.splits meta_value.splits)

definition enrolled_sets :: "host_grant \<Rightarrow> string list set" where
  "enrolled_sets h =
     (if Promote \<in> set (gp_caps (hg_payload h))
      then (case gp_witness (hg_payload h) of Some ids \<Rightarrow> if 2 \<le> length ids then {sort ids} else {} | None \<Rightarrow> {}) else {})"

lemma add_enrolled_contains:
  "snd (add_enrolled w d h st) \<Longrightarrow> enrolled_sets h \<subseteq> set (fst (add_enrolled w d h st))"
proof -
  have pay: "verifySignedHostGrant w x y t = Some z \<Longrightarrow> s_payload z = s_payload x" for x y t z
    by (auto simp: verifySignedHostGrant_def split: if_splits)
  show "snd (add_enrolled w d h st) \<Longrightarrow> enrolled_sets h \<subseteq> set (fst (add_enrolled w d h st))"
    by (auto simp: add_enrolled_def enrolled_sets_def row_grant_def dest!: pay intro!: add_set_contains
        split: sum.splits option.splits if_splits)
qed

lemma persisted_restored_acc:
  "floor_ok (fst st @ sets) \<Longrightarrow> add_witness_sets sets st = (fst st @ sets, snd st)"
proof (induction sets arbitrary: st)
  case (Cons ids sets)
  have n: "normal_set ids" "2 \<le> length ids" "ids \<notin> set (fst st)" "length (fst st) < 64"
    using Cons.prems by (auto simp: floor_ok_def)
  then have "add_witness_set (JStrs ids) st = (fst st @ [ids], snd st)"
    by (simp add: add_witness_set_def normalized_of_normal js_add_def)
  then show ?case using Cons.IH [of "(fst st @ [ids], snd st)"] Cons.prems by (simp add: add_witness_sets_def)
qed (simp add: add_witness_sets_def)

lemma persisted_restored: "floor_ok sets \<Longrightarrow> set (fst (add_witness_sets sets ([], b))) = set sets"
  using persisted_restored_acc [of "([], b)" sets] by simp

lemma persisted_written:
  assumes "floor_ok (fst st)"
  shows "persistedWriterWitnessState (set_meta (writerStateKey (gp_host g)) (MJson (writer_state_json w state g epoch st)) d) g
     = (sort_sets (fst st), snd st)"
  using normalized_sets_written [OF assms]
  by (simp add: persistedWriterWitnessState_def writer_state_json_def obj_get_def set_meta_def)

text \<open>The stages of \<open>writerWitnessState\<close>, each of which only adds.\<close>

lemma writer_witness_stages:
  obtains s0 s1 s2 s3 s4 where
    "writerWitnessState w d g additional = (sort_sets (fst s4), snd s4)"
    and "s0 = add_witness_sets (fst (persistedWriterWitnessState d g)) ([], snd (persistedWriterWitnessState d g))"
      "s1 = add_witness_sets additional s0"
    and "grows s1 s2" "s3 = add_local_trust d s2"
    and "s4 = foldl (\<lambda>st h. add_enrolled w d h st) s3 (enrolled_grants d)"
proof -
  let ?p = "persistedWriterWitnessState d g"
  let ?s0 = "add_witness_sets (fst ?p) ([], snd ?p)"
  let ?s1 = "add_witness_sets additional ?s0"
  let ?a = "if Promote \<in> set (gp_caps g) \<and> configuredRegistrationBridgeIds w \<noteq> []
     then add_witness_set (JStrs (configuredRegistrationBridgeIds w)) ?s1 else ?s1"
  let ?b = "case gp_witness g of Some (b # bs) \<Rightarrow>
       if Promote \<in> set (gp_caps g) then add_witness_set (JStrs (b # bs)) ?a else ?a | _ \<Rightarrow> ?a"
  have "grows ?s1 ?a" by (simp add: add_set_grows)
  moreover have "grows ?a ?b" by (simp add: add_set_grows split: option.split list.split)
  ultimately have "grows ?s1 ?b" by (rule grows_trans)
  then show thesis by (intro that [OF _ refl refl _ refl refl]) (simp_all only: writerWitnessState_def Let_def)
qed

lemma witness_state_grows:
  assumes "snd (writerWitnessState w d g additional) = b"
  shows "set (fst (persistedWriterWitnessState d g)) \<subseteq> set (fst (writerWitnessState w d g additional))"
    and "floor_ok (fst (writerWitnessState w d g additional))"
    and "b \<Longrightarrow> snd (persistedWriterWitnessState d g)"
    and "b \<Longrightarrow> ids \<in> set additional \<Longrightarrow> 2 \<le> length ids \<Longrightarrow> sort ids \<in> set (fst (writerWitnessState w d g additional))"
    and "b \<Longrightarrow> h \<in> set (enrolled_grants d) \<Longrightarrow> enrolled_sets h \<subseteq> set (fst (writerWitnessState w d g additional))"
proof -
  let ?p = "persistedWriterWitnessState d g"
  obtain s0 s1 s2 s3 s4 where e: "writerWitnessState w d g additional = (sort_sets (fst s4), snd s4)"
    and s0: "s0 = add_witness_sets (fst ?p) ([], snd ?p)" and s1: "s1 = add_witness_sets additional s0"
    and g12: "grows s1 s2" and s3: "s3 = add_local_trust d s2"
    and s4: "s4 = foldl (\<lambda>st h. add_enrolled w d h st) s3 (enrolled_grants d)"
    by (rule writer_witness_stages)
  have g01: "grows s0 s1" and g0: "grows ([], snd ?p) s0" by (simp_all add: s0 s1 add_sets_grows)
  have g34: "grows s3 s4" unfolding s4 by (rule foldl_grows) (rule add_enrolled_grows)
  have g23: "grows s2 s3" by (simp add: s3 add_local_grows)
  have g14: "grows s1 s4" by (rule grows_trans [OF g12 grows_trans [OF g23 g34]])
  have g04: "grows s0 s4" by (rule grows_trans [OF g01 g14])
  have floor: "floor_ok (fst s4)" using grows_trans [OF g0 g04] by (simp add: grows_def floor_ok_def)
  then show "floor_ok (fst (writerWitnessState w d g additional))" by (simp add: e)
  have snd: "b \<Longrightarrow> snd s4" using assms e by simp
  show "b \<Longrightarrow> snd ?p" using snd grows_trans [OF g0 g04] by (simp add: grows_def)
  show "set (fst ?p) \<subseteq> set (fst (writerWitnessState w d g additional))"
    using persisted_restored [OF persisted_floor [of d g], of "snd ?p"] g04 by (simp add: e s0 grows_def)
  show "sort ids \<in> set (fst (writerWitnessState w d g additional))" if "b" "ids \<in> set additional" "2 \<le> length ids"
    using add_sets_contains [of additional s0 ids] that snd g14 by (auto simp: e s1 [symmetric] grows_def)
  show "enrolled_sets h \<subseteq> set (fst (writerWitnessState w d g additional))" if "b" "h \<in> set (enrolled_grants d)"
    using foldl_contains [of "\<lambda>st h. add_enrolled w d h st" enrolled_sets s3 "enrolled_grants d" h]
      add_enrolled_grows add_enrolled_contains that snd by (simp add: e s4 [symmetric])
qed

lemma witness_floor_append_only_parts:
  assumes "d' = persistWriterState w state g epoch additional d"
    and "persistedWriterWitnessState d g = (sets, complete)" and "persistedWriterWitnessState d' g = (sets', complete')"
  shows "set sets \<subseteq> set sets'" and "complete' \<longrightarrow> complete"
    and "complete' \<longrightarrow> (\<forall>ids \<in> set additional. 2 \<le> length ids \<longrightarrow> sort ids \<in> set sets')"
    and "complete' \<longrightarrow> (\<forall>h \<in> set (enrolled_grants d). enrolled_sets h \<subseteq> set sets')"
proof -
  let ?st = "writerWitnessState w d g additional"
  note st = witness_state_grows [where w = w and d = d and g = g and additional = additional, OF refl]
  have "sets' = sort_sets (fst ?st)" "complete' = snd ?st"
    using assms(3) persisted_written [OF st(2)] by (simp_all add: assms(1) persistWriterState_def)
  then show "set sets \<subseteq> set sets'" "complete' \<longrightarrow> complete"
    "complete' \<longrightarrow> (\<forall>ids \<in> set additional. 2 \<le> length ids \<longrightarrow> sort ids \<in> set sets')"
    "complete' \<longrightarrow> (\<forall>h \<in> set (enrolled_grants d). enrolled_sets h \<subseteq> set sets')"
    using st(1,3,4,5) assms(2) by auto
qed

lemma written_elsewhere:
  "gp_host h \<noteq> gp_host g \<Longrightarrow> persistedWriterWitnessState (persistWriterState w state g epoch additional d) h = persistedWriterWitnessState d h"
  by (simp add: persistWriterState_def persistedWriterWitnessState_def set_meta_def writerStateKey_def)

lemma written_under_other_grant:
  "gp_host h = gp_host g \<Longrightarrow> gp_grant h \<noteq> gp_grant g \<Longrightarrow>
     persistedWriterWitnessState (persistWriterState w state g epoch additional d) h = ([], True)"
  by (simp add: persistWriterState_def persistedWriterWitnessState_def set_meta_def writer_state_json_def obj_get_def)

text \<open>
  C23. The witness sets a writer must reach again after a restart never shrink while its grant stays. Whatever operation
  writes the writer state under a grant, what is read under that grant afterwards has every set read before, a history
  once incomplete stays incomplete, and while it is complete every set named by the operation and the witnesses of every
  enrolled promotable replica are in it; the state of every other host is untouched. The floor belongs to one grant: under
  another grant of the same host the write reads as a complete, empty history, whatever was stored for it.
\<close>

theorem witness_floor_append_only:
  assumes "d' = persistWriterState w state g epoch additional d"
    and "persistedWriterWitnessState d h = (sets, complete)" and "persistedWriterWitnessState d' h = (sets', complete')"
  shows "(gp_host h = gp_host g \<and> gp_grant h = gp_grant g \<longrightarrow> set sets \<subseteq> set sets' \<and> (complete' \<longrightarrow> complete
       \<and> (\<forall>ids \<in> set additional. 2 \<le> length ids \<longrightarrow> sort ids \<in> set sets')
       \<and> (\<forall>r \<in> set (enrolled_grants d). enrolled_sets r \<subseteq> set sets')))
    \<and> (gp_host h \<noteq> gp_host g \<longrightarrow> sets' = sets \<and> complete' = complete)
    \<and> (gp_host h = gp_host g \<and> gp_grant h \<noteq> gp_grant g \<longrightarrow> sets' = [] \<and> complete')"
proof (intro conjI)
  show "gp_host h = gp_host g \<and> gp_grant h = gp_grant g \<longrightarrow> set sets \<subseteq> set sets' \<and> (complete' \<longrightarrow> complete
       \<and> (\<forall>ids \<in> set additional. 2 \<le> length ids \<longrightarrow> sort ids \<in> set sets')
       \<and> (\<forall>r \<in> set (enrolled_grants d). enrolled_sets r \<subseteq> set sets'))"
  proof
    assume e: "gp_host h = gp_host g \<and> gp_grant h = gp_grant g"
    have "persistedWriterWitnessState d h = persistedWriterWitnessState d g" for d
      unfolding persistedWriterWitnessState_def conjunct1 [OF e] conjunct2 [OF e] by (rule refl)
    with witness_floor_append_only_parts [OF assms(1)] assms(2,3)
    show "set sets \<subseteq> set sets' \<and> (complete' \<longrightarrow> complete
       \<and> (\<forall>ids \<in> set additional. 2 \<le> length ids \<longrightarrow> sort ids \<in> set sets')
       \<and> (\<forall>r \<in> set (enrolled_grants d). enrolled_sets r \<subseteq> set sets'))" by simp
  qed
qed (use assms written_elsewhere written_under_other_grant in auto)

lemma sample_floor:
  "persistedWriterWitnessState
     (set_meta (writerStateKey (gp_host sample_grant))
       (MJson (writer_state_json sample_world ''writer'' sample_grant 0 ([demo_bridges], True))) grants_db) sample_grant
   = ([demo_bridges], True)"
proof -
  have "floor_ok [demo_bridges]"
    by (simp add: floor_ok_def normal_set_def demo_bridges_def less_eq_char_def less_char_def)
  then show ?thesis by (simp add: persisted_written sort_sets_def)
qed

theorem witness_floor_append_only_witness:
  "\<forall>w add. let d = set_meta (writerStateKey (gp_host sample_grant))
       (MJson (writer_state_json sample_world ''writer'' sample_grant 0 ([demo_bridges], True))) grants_db in
     demo_bridges \<in> set (fst (persistedWriterWitnessState (persistWriterState w ''fenced'' sample_grant 1 add d) sample_grant))"
proof (intro allI)
  fix w add
  let ?d = "set_meta (writerStateKey (gp_host sample_grant))
       (MJson (writer_state_json sample_world ''writer'' sample_grant 0 ([demo_bridges], True))) grants_db"
  show "let d = ?d in
     demo_bridges \<in> set (fst (persistedWriterWitnessState (persistWriterState w ''fenced'' sample_grant 1 add d) sample_grant))"
    using witness_floor_append_only [OF refl sample_floor prod.collapse [symmetric], where w = w and state = "''fenced''" and epoch = 1 and additional = add and g = sample_grant]
    by (simp add: Let_def)
qed

end
