(* ===== verification/Authority.thy ===== *)
theory Authority
  imports Writer
begin

text \<open>
  What the host writes on its authority: it gives up writing only to a majority certificate, its committed
  registrations form one hash chain, and every step keeps the grants well formed.
\<close>

section \<open>Fencing\<close>

abbreviation vote_bridge :: "promotion_vote signed \<Rightarrow> string" where
  "vote_bridge v \<equiv> pv_bridge (s_payload v)"

lemma receipts_ok_votes:
  "receipts_ok w trusted approved r expected vs bs rs \<Longrightarrow>
   \<exists>votes. vs = map Some votes \<and> list_all (receipt_ok w trusted approved r expected) votes
     \<and> distinct (map vote_bridge votes) \<and> set (map vote_bridge votes) \<inter> set bs = {}
     \<and> 2 \<le> length bs + length votes"
proof (induction vs arbitrary: bs rs)
  case (Cons v vs)
  then obtain v' where v: "v = Some v'" by (cases v) auto
  with Cons.prems have ok: "receipt_ok w trusted approved r expected v'" "pv_bridge (s_payload v') \<notin> set bs"
    and rest: "receipts_ok w trusted approved r expected vs (pv_bridge (s_payload v') # bs) (pv_request (s_payload v') # rs)"
    by (auto split: if_splits)
  from Cons.IH [OF rest] obtain votes where vs: "vs = map Some votes" "list_all (receipt_ok w trusted approved r expected) votes"
    "distinct (map vote_bridge votes)"
    "set (map vote_bridge votes) \<inter> set (pv_bridge (s_payload v') # bs) = {}"
    "2 \<le> length (pv_bridge (s_payload v') # bs) + length votes" by blast
  show ?case by (rule exI [of _ "v' # votes"]) (use v ok vs in auto)
qed simp

text \<open>What one receipt of an accepted certificate establishes.\<close>

definition vote_against :: "world \<Rightarrow> host_record \<Rightarrow> primary_expectation \<Rightarrow> promotion_vote signed \<Rightarrow> bool" where
  "vote_against w r expected v \<longleftrightarrow>
     map_of (trustedBridgePublicKeys w) (pv_bridge (s_payload v)) = Some (s_key v)
     \<and> verifyCanonicalPayload w (s_key v) PROMOTION_VOTE_DOMAIN (promotion_vote_json (s_payload v)) (s_signature v)
     \<and> pv_candidate (s_payload v) = hr_host r \<and> pv_election (s_payload v) = hr_epoch r
     \<and> pv_primary (s_payload v) = pe_primary expected \<and> pv_primary_epoch (s_payload v) = pe_epoch expected
     \<and> pv_record_hash (s_payload v) = pe_record_hash expected"

lemma receipt_is_vote: "receipt_ok w (trustedBridgePublicKeys w) approved r expected v \<Longrightarrow> vote_against w r expected v"
  by (simp add: receipt_ok_def vote_against_def Let_def)

lemma certificate_votes:
  assumes "validObservedPromotionCertificate w certificate candidate expected"
    and "\<And>ids. gp_witness (s_payload (an_grant candidate)) = Some ids \<Longrightarrow> length ids \<le> 3 \<and> distinct ids"
  shows "\<exists>ids votes. certificate = Some (map Some votes) \<and> gp_witness (s_payload (an_grant candidate)) = Some ids
    \<and> list_all (vote_against w (s_payload (an_record candidate)) expected) votes
    \<and> distinct (map vote_bridge votes) \<and> set (map vote_bridge votes) \<subseteq> set ids
    \<and> 2 * length votes > length ids"
proof -
  obtain receipts where c: "certificate = Some receipts" using assms(1) by (auto simp: validObservedPromotionCertificate_def split: option.splits)
  obtain ids where ids: "gp_witness (s_payload (an_grant candidate)) = Some ids"
    using assms(1) c by (auto simp: validObservedPromotionCertificate_def Let_def split: option.splits if_splits)
  have ok: "receipts_ok w (trustedBridgePublicKeys w) (remdups ids) (s_payload (an_record candidate)) expected receipts [] []"
    using assms(1) c ids by (auto simp: validObservedPromotionCertificate_def Let_def split: if_splits)
  obtain votes where v: "receipts = map Some votes" "distinct (map vote_bridge votes)" "2 \<le> length votes"
    "list_all (receipt_ok w (trustedBridgePublicKeys w) (remdups ids) (s_payload (an_record candidate)) expected) votes"
    using receipts_ok_votes [OF ok] by auto
  have sub: "set (map vote_bridge votes) \<subseteq> set ids"
    using v(4) by (auto simp: list_all_iff receipt_ok_def Let_def)
  have "list_all (vote_against w (s_payload (an_record candidate)) expected) votes"
    using v(4) by (auto simp: list_all_iff intro: receipt_is_vote)
  with c ids v sub assms(2) [OF ids] show ?thesis by auto
qed

lemma verified_registration:
  assumes "verifyHostRegistration w record grant k revoked t = Some (r, g)"
  shows "r = record \<and> g = grant \<and> HostGrantPayloadSchema w (s_payload grant)"
  using assms
  by (auto simp: verifyHostRegistration_def verifySignedHostGrant_def verifySignedHostRecord_def signed_schema_def
      split: option.splits if_splits)

lemma registrationChain_only: "registrationChain w n s = (Inr rows, s') \<Longrightarrow> only_grants s s'"
  by (auto simp: registrationChain_def dest: currentHostGrant_only split: prod.splits sum.splits hfail.splits)

lemma registrationChain_rows:
  "registrationChain w n s = (Inr rows, s') \<Longrightarrow>
     rows = [] \<or> (\<exists>again. fst (currentHostGrant w n s) = Inr again
       \<and> set rows = {r \<in> set (host_record_chains (db s')). cr_host r = gp_host (s_payload (snd again))})"
  by (auto simp: registrationChain_def split: prod.splits sum.splits hfail.splits)

text \<open>The last registration a host committed as primary in an epoch.\<close>

definition primary_row :: "string \<Rightarrow> int \<Rightarrow> chain_row \<Rightarrow> bool" where
  "primary_row h e r \<longleftrightarrow> cr_host r = h \<and> hr_role (s_payload (rg_record (cr_registration r))) = Primary
     \<and> hr_epoch (s_payload (rg_record (cr_registration r))) = e"

definition last_committed :: "db \<Rightarrow> string \<Rightarrow> int \<Rightarrow> chain_row \<Rightarrow> bool" where
  "last_committed d h e r \<longleftrightarrow> r \<in> set (host_record_chains d) \<and> primary_row h e r
     \<and> (\<forall>r' \<in> set (host_record_chains d). primary_row h e r' \<longrightarrow> cr_seq r' \<le> cr_seq r)"

lemma sort_key_hd: "sort_key f xs = y # ys \<Longrightarrow> x \<in> set xs \<Longrightarrow> f y \<le> f x"
proof -
  assume e: "sort_key f xs = y # ys" and x: "x \<in> set xs"
  have "x \<in> set (y # ys)" using x arg_cong [OF e, of set] by simp
  moreover have "sorted (map f (y # ys))" using sorted_sort_key [of f xs] by (simp add: e)
  ultimately show ?thesis by auto
qed

lemma last_primary_record_last:
  assumes "last_primary_record e rows = Some r" and "set rows = {r \<in> set (host_record_chains d). cr_host r = h}"
  shows "last_committed d h e r"
proof -
  let ?p = "\<lambda>r. hr_role (s_payload (rg_record (cr_registration r))) = Primary \<and> hr_epoch (s_payload (rg_record (cr_registration r))) = e"
  obtain rest where l: "sort_key (\<lambda>r. - cr_seq r) (filter ?p rows) = r # rest"
    using assms(1) unfolding last_primary_record_def by (auto split: list.splits)
  have "r \<in> set (filter ?p rows)" using arg_cong [OF l, of set] by auto
  moreover have "cr_seq r' \<le> cr_seq r" if "r' \<in> set (filter ?p rows)" for r' using sort_key_hd [OF l that] by simp
  ultimately show ?thesis using assms(2) by (auto simp: last_committed_def primary_row_def)
qed

text \<open>The primary the votes must name, as the host knows itself: its grant, and the last registration it committed.\<close>

definition own_primary :: "world \<Rightarrow> string \<Rightarrow> string \<Rightarrow> host \<Rightarrow> primary_expectation \<Rightarrow> bool" where
  "own_primary w n n' s expected \<longleftrightarrow>
     (\<exists>current again row. fst (currentHostGrant w n s) = Inr current
        \<and> fst (currentHostGrant w n' (snd (currentHostGrant w n s))) = Inr again
        \<and> last_committed (db s) (gp_host (s_payload (snd again))) (getEpoch (db s)) row
        \<and> pe_primary expected = gp_host (s_payload (snd current)) \<and> pe_epoch expected = getEpoch (db s)
        \<and> pe_record_hash expected = cr_hash row)"

lemma observed_epoch:
  assumes "observeHigherEpoch w n n' candidate certificate s = (Inr True, s')"
  shows "\<exists>expected. validObservedPromotionCertificate w certificate candidate expected \<and> own_primary w n n' s expected
      \<and> hr_epoch (s_payload (an_record candidate)) = getEpoch (db s) + 1
      \<and> HostGrantPayloadSchema w (s_payload (an_grant candidate))
      \<and> \<not> writer s' \<and> getEpoch (db s') = getEpoch (db s) + 1"
proof -
  obtain k where k: "authorityPublicKey (db s) = Inr k" "an_authority candidate = k"
    using assms by (auto simp: observeHigherEpoch_def split: sum.splits if_splits)
  obtain r g where v: "verifyHostRegistration w (an_record candidate) (an_grant candidate) k [] (now w) = Some (r, g)"
    using assms k by (auto simp: observeHigherEpoch_def split: option.splits)
  note rg = verified_registration [OF v]
  have e: "hr_epoch (s_payload r) = getEpoch (db s) + 1"
    using assms k v by (auto simp: observeHigherEpoch_def split: if_splits)
  obtain hs current s1 where c: "currentHostGrant w n s = (Inr (hs, current), s1)"
    using assms k v by (cases "currentHostGrant w n s")
      (auto simp: observeHigherEpoch_def split: if_splits sum.splits hfail.splits)
  obtain rows s2 where rows: "registrationChain w n' s1 = (Inr rows, s2)"
    using assms k v c by (cases "registrationChain w n' s1")
      (auto simp: observeHigherEpoch_def split: if_splits sum.splits)
  note frame = only_gr_simps [OF currentHostGrant_only [OF c]] only_gr_simps [OF registrationChain_only [OF rows]]
  have ep: "getEpoch (db s2) = getEpoch (db s)" by (simp add: getEpoch_def frame)
  obtain prior where p: "last_primary_record (getEpoch (db s2)) rows = Some prior"
    using assms k v c rows by (auto simp: observeHigherEpoch_def split: if_splits option.splits)
  let ?x = "\<lparr>pe_primary = gp_host (s_payload current), pe_record_hash = cr_hash prior, pe_epoch = getEpoch (db s2)\<rparr>"
  have cert: "validObservedPromotionCertificate w certificate \<lparr>an_authority = an_authority candidate, an_grant = g, an_record = r\<rparr> ?x"
    and s': "\<not> writer s'" "getEpoch (db s') = hr_epoch (s_payload r)"
    using assms k v c rows p by (auto simp: observeHigherEpoch_def split: if_splits)
  have cand: "\<lparr>an_authority = an_authority candidate, an_grant = g, an_record = r\<rparr> = candidate" using rg by simp
  have "rows \<noteq> []" using p by (auto simp: last_primary_record_def)
  then obtain again where a: "fst (currentHostGrant w n' s1) = Inr again"
    and sr: "set rows = {r \<in> set (host_record_chains (db s2)). cr_host r = gp_host (s_payload (snd again))}"
    using registrationChain_rows [OF rows] by blast
  have "own_primary w n n' s ?x"
    using c a last_primary_record_last [OF p, of "db s"] sr
    by (simp add: own_primary_def frame ep) blast
  then show ?thesis using cert [unfolded cand] s' e rg by (intro exI [of _ ?x]) auto
qed

text \<open>
  C25. A primary gives way to a higher epoch only for a majority certificate: when an announced registration
  fences it, the certificate is a list of votes by different bridges, all of them witnesses named in the
  candidate's grant and more than half of these; every vote verifies under the key of a bridge the host trusts
  and names this candidate, the next epoch, this host as the primary that is missing, and of the registrations it committed
  as primary in its own epoch the one with the highest number. The host then stops writing and stands in exactly the
  next epoch. The code only asks for two votes; that two are a majority follows from the schema's bound of three
  witnesses.
\<close>

theorem fenced_only_by_majority_certificate:
  assumes "observeHigherEpoch w n n' candidate certificate s = (Inr True, s')"
  shows "(\<exists>expected ids votes. certificate = Some (map Some votes) \<and> own_primary w n n' s expected
       \<and> gp_witness (s_payload (an_grant candidate)) = Some ids
       \<and> distinct (map vote_bridge votes) \<and> set (map vote_bridge votes) \<subseteq> set ids \<and> 2 * length votes > length ids
       \<and> list_all (vote_against w (s_payload (an_record candidate)) expected) votes)
    \<and> hr_epoch (s_payload (an_record candidate)) = getEpoch (db s) + 1
    \<and> \<not> writer s' \<and> getEpoch (db s') = getEpoch (db s) + 1"
proof -
  obtain expected where o: "validObservedPromotionCertificate w certificate candidate expected" "own_primary w n n' s expected"
    "hr_epoch (s_payload (an_record candidate)) = getEpoch (db s) + 1"
    "HostGrantPayloadSchema w (s_payload (an_grant candidate))" "\<not> writer s'" "getEpoch (db s') = getEpoch (db s) + 1"
    using observed_epoch [OF assms] by blast
  have "length ids \<le> 3 \<and> distinct ids" if "gp_witness (s_payload (an_grant candidate)) = Some ids" for ids
    using o(4) that by (simp add: HostGrantPayloadSchema_def witnessIdsSchema_def remdups_length)
  from certificate_votes [OF o(1) this] o(2,3,5,6) show ?thesis by blast
qed


definition fence_bridge :: "string \<Rightarrow> string" where "fence_bridge b = ''ed25519:'' @ sample_key b"

definition fence_world :: world where
  "fence_world = sample_world\<lparr>bridge_descriptors := map (\<lambda>b. Some (sample_signed
     \<lparr>bd_bridge = fence_bridge b, bd_endpoints = [''wss://b''], bd_issued = 10, bd_expires = 5000\<rparr> b)) [''b1'', ''b2'']\<rparr>"

definition fence_grant :: grant_payload where
  "fence_grant = sample_grant\<lparr>gp_grant := ''g2'', gp_host := ''h2'', gp_device_key := sample_key ''hx'',
     gp_witness := Some (map fence_bridge [''b1'', ''b2'', ''b3''])\<rparr>"

definition fence_record :: host_record where
  "fence_record = sample_record\<lparr>hr_grant := ''g2'', hr_host := ''h2'', hr_epoch := 1, hr_issued := 900, hr_expires := 1200\<rparr>"

definition fence_host :: host where
  "fence_host = grants_host\<lparr>db := grants_db\<lparr>
     host_grants := host_grants grants_db @ [grant_row (sample_signed fence_grant ''as'') (sample_key ''ex'') 10 (Some 20)],
     host_record_chains := [\<lparr>cr_host = ''h1'', cr_seq = 1, cr_hash = replicate 64 CHR ''0'',
       cr_registration = \<lparr>rg_authority = sample_key ''as'', rg_grant = sample_signed sample_grant ''as'',
                          rg_record = sample_signed sample_record ''hs''\<rparr>, cr_committed = 30\<rparr>]\<rparr>\<rparr>"

definition fence_candidate :: announced_registration where
  "fence_candidate = \<lparr>an_authority = sample_key ''as'', an_grant = sample_signed fence_grant ''as'',
     an_record = sample_signed fence_record ''hx''\<rparr>"

definition fence_vote :: "string \<Rightarrow> promotion_vote signed" where
  "fence_vote b = sample_signed
     \<lparr>pv_bridge = fence_bridge b, pv_candidate = ''h2'', pv_election = 1, pv_expires = 4000, pv_issued = 990,
      pv_primary_epoch = 0, pv_primary = ''h1'', pv_record_hash = replicate 64 CHR ''0'', pv_request = b,
      pv_server = ''srv'', pv_granted = 980\<rparr> b"

lemma fence_world_simps [simp]:
  "public_key fence_world = sample_key" "sign_message fence_world k m = sample_signature"
  "verify_message fence_world k m x \<longleftrightarrow> x = sample_signature" "now fence_world = 1000"
  "server_id fence_world = ''srv''" "is_uuid fence_world x \<longleftrightarrow> x \<noteq> []" "fingerprint fence_world x = x"
  "parse_url fence_world = parse_url sample_crypto" "host_seed fence_world = Seed ''hs''"
  by (simp_all add: fence_world_def) (simp_all add: sample_world_def)

lemma fence_verifies: "d \<in> set SIGNATURE_DOMAINS \<Longrightarrow> verifySigned fence_world d enc (sample_signed p k)"
  by (simp add: verifySigned_def verifyCanonicalPayload_def signatureMessage_def domains_ok schema_bytes)

lemma sample_key_bytes [simp]: "base64url_bytes (sample_key k) = 32" "length (sample_key k) = 43"
  using schema_bytes(1) [of "sample_key k"] sample_key_ok(1) [of k] by (simp_all add: PublicKeySchema_def)

lemma sample_key_distinct: "sample_key ''b1'' \<noteq> sample_key ''b2''" "sample_key ''b1'' \<noteq> sample_key ''b3''"
  "sample_key ''b2'' \<noteq> sample_key ''b3''" "sample_key ''hs'' \<noteq> sample_key ''hx''"
  by (simp_all add: sample_key_def b64url_char_def B64URL_ALPHABET_def)

lemma fence_descriptor:
  "verifySignedBridgeDescriptor fence_world (sample_signed
     \<lparr>bd_bridge = fence_bridge b, bd_endpoints = [''wss://b''], bd_issued = 10, bd_expires = 5000\<rparr> b) 1000
   = Some (sample_signed \<lparr>bd_bridge = fence_bridge b, bd_endpoints = [''wss://b''], bd_issued = 10, bd_expires = 5000\<rparr> b)"
proof -
  have "DOM_bridgeDescriptor \<in> set SIGNATURE_DOMAINS" by (simp add: SIGNATURE_DOMAINS_def)
  moreover have "BridgeDescriptorPayloadSchema fence_world
     \<lparr>bd_bridge = fence_bridge b, bd_endpoints = [''wss://b''], bd_issued = 10, bd_expires = 5000\<rparr>"
    by (simp add: BridgeDescriptorPayloadSchema_def text_between_def fence_bridge_def endpointSchema_def timestampSchema_def
        is_safe_integer_def) (simp add: sample_crypto_def)
  ultimately show ?thesis
    by (simp add: verifySignedBridgeDescriptor_def signed_schema_def fence_verifies ed25519Fingerprint_def fence_bridge_def)
qed

lemma fence_trusted:
  "trustedBridgePublicKeys fence_world
     = [(fence_bridge ''b1'', sample_key ''b1''), (fence_bridge ''b2'', sample_key ''b2'')]"
proof -
  have "bridge_descriptors fence_world = map (\<lambda>b. Some (sample_signed
     \<lparr>bd_bridge = fence_bridge b, bd_endpoints = [''wss://b''], bd_issued = 10, bd_expires = 5000\<rparr> b)) [''b1'', ''b2'']"
    by (simp add: fence_world_def)
  then show ?thesis
    by (simp add: trustedBridgePublicKeys_def fence_descriptor) (simp add: fence_bridge_def sample_key_distinct)
qed

lemma fence_receipt:
  assumes "b \<in> {''b1'', ''b2''}"
  shows "receipt_ok fence_world (trustedBridgePublicKeys fence_world) (map fence_bridge [''b1'', ''b2'', ''b3'']) fence_record
     \<lparr>pe_primary = ''h1'', pe_record_hash = replicate 64 CHR ''0'', pe_epoch = 0\<rparr> (fence_vote b)"
proof -
  have "signature_domain_ok PROMOTION_VOTE_DOMAIN"
    by (simp add: PROMOTION_VOTE_DOMAIN_def signature_domain_ok_def less_eq_char_def)
  have "map_of (trustedBridgePublicKeys fence_world) (fence_bridge b) = Some (sample_key b)"
    using assms sample_key_distinct(1) [symmetric] by (auto simp: fence_trusted fence_bridge_def)
  moreover have "verifyCanonicalPayload fence_world k PROMOTION_VOTE_DOMAIN v sample_signature"
    if "PublicKeySchema k" for k v
    using that \<open>signature_domain_ok _\<close> by (simp add: verifyCanonicalPayload_def signatureMessage_def schema_bytes)
  ultimately show ?thesis using assms
    by (simp add: receipt_ok_def Let_def fence_vote_def fence_record_def ed25519Fingerprint_def schema_bytes is_safe_integer_def)
       (auto simp: fence_bridge_def sample_record_def)
qed

lemma fence_grants_ok:
  "verifySignedHostGrant fence_world (sample_signed sample_grant ''as'') (sample_key ''as'') 1000
     = Some (sample_signed sample_grant ''as'')"
  "verifySignedHostGrant fence_world (sample_signed fence_grant ''as'') (sample_key ''as'') 1000
     = Some (sample_signed fence_grant ''as'')"
proof -
  have "DOM_hostGrant \<in> set SIGNATURE_DOMAINS" by (simp add: SIGNATURE_DOMAINS_def)
  moreover have "HostGrantPayloadSchema fence_world sample_grant"
    by (simp add: HostGrantPayloadSchema_def sample_grant_def identityIdSchema_def hostIdSchema_def text_between_def
        hostCapabilitiesSchema_def positiveSchema_def timestampSchema_def is_safe_integer_def)
  moreover from this have "HostGrantPayloadSchema fence_world fence_grant"
    using sample_key_distinct
    by (simp add: HostGrantPayloadSchema_def fence_grant_def hostIdSchema_def text_between_def witnessIdsSchema_def fence_bridge_def)
  moreover have "gp_expires sample_grant = 5000" "gp_expires fence_grant = 5000" by (simp_all add: fence_grant_def sample_grant_def)
  ultimately show "verifySignedHostGrant fence_world (sample_signed sample_grant ''as'') (sample_key ''as'') 1000
      = Some (sample_signed sample_grant ''as'')"
    "verifySignedHostGrant fence_world (sample_signed fence_grant ''as'') (sample_key ''as'') 1000
      = Some (sample_signed fence_grant ''as'')"
    by (simp_all add: verifySignedHostGrant_def signed_schema_def fence_verifies)
qed

lemma fence_registration:
  "verifyHostRegistration fence_world (sample_signed fence_record ''hx'') (sample_signed fence_grant ''as'') (sample_key ''as'') [] 1000
     = Some (sample_signed fence_record ''hx'', sample_signed fence_grant ''as'')"
proof -
  have "DOM_hostRecord \<in> set SIGNATURE_DOMAINS" by (simp add: SIGNATURE_DOMAINS_def)
  moreover have "HostRecordPayloadSchema fence_world fence_record"
    by (simp add: HostRecordPayloadSchema_def fence_record_def sample_record_def hostIdSchema_def
        text_between_def endpointSchema_def positiveSchema_def timestampSchema_def is_safe_integer_def) (simp add: sample_crypto_def)
  ultimately have "verifySignedHostRecord fence_world (sample_signed fence_record ''hx'') (sample_key ''hx'') 1000
      = Some (sample_signed fence_record ''hx'')"
    by (simp add: verifySignedHostRecord_def SignedHostRecordSchema_def signed_schema_def fence_verifies)
       (simp add: fence_record_def sample_record_def)
  then show ?thesis
    by (simp add: verifyHostRegistration_def fence_grants_ok)
       (simp add: fence_grant_def fence_record_def sample_grant_def sample_record_def)
qed

lemma fence_host_tables:
  "authorityPublicKey (db fence_host) = Inr (sample_key ''as'')" "getEpoch (db fence_host) = 0"
  "host_grants (db fence_host) = [grant_row (sample_signed sample_grant ''as'') (sample_key ''ek'') 10 (Some 20),
     grant_row (sample_signed fence_grant ''as'') (sample_key ''ex'') 10 (Some 20)]"
  "host_record_chains (db fence_host) = [\<lparr>cr_host = ''h1'', cr_seq = 1, cr_hash = replicate 64 CHR ''0'',
       cr_registration = \<lparr>rg_authority = sample_key ''as'', rg_grant = sample_signed sample_grant ''as'',
                          rg_record = sample_signed sample_record ''hs''\<rparr>, cr_committed = 30\<rparr>]"
  using grants_db_simps(3)
  by (simp_all add: fence_host_def authorityPublicKey_def grants_db_simps(5)) (simp add: getEpoch_def grants_db_def sample_db_def)

lemma fence_current_grant:
  "currentHostGrant fence_world n fence_host = (Inr (''hs'', sample_signed sample_grant ''as''), fence_host)"
proof -
  let ?g = "grant_row (sample_signed sample_grant ''as'') (sample_key ''ek'') 10 (Some 20)"
  let ?x = "grant_row (sample_signed fence_grant ''as'') (sample_key ''ex'') 10 (Some 20)"
  have cols: "hg_accepted ?g = Some 20" "hg_revoked ?g = None" "hg_expires ?g = 5000" "hg_device_key ?g = sample_key ''hs''"
    "hg_device_key ?x = sample_key ''hx''"
    by (simp_all add: grant_row_def Let_def) (simp_all add: sample_grant_def fence_grant_def)
  have "stored_host_grant fence_world (db fence_host) (sample_key ''hs'') = Inr (Some (sample_signed sample_grant ''as''))"
    using sample_key_distinct(4)
    by (simp add: stored_host_grant_def fence_host_tables cols newest_first_def sample_grant_row fence_grants_ok)
       (simp add: sample_grant_def)
  then show ?thesis by (simp add: currentHostGrant_def read_seed_def)
qed

lemma fence_certificate:
  "validObservedPromotionCertificate fence_world (Some [Some (fence_vote ''b1''), Some (fence_vote ''b2'')]) fence_candidate
     \<lparr>pe_primary = ''h1'', pe_record_hash = replicate 64 CHR ''0'', pe_epoch = 0\<rparr>"
proof -
  have "remdups (map fence_bridge [''b1'', ''b2'', ''b3'']) = map fence_bridge [''b1'', ''b2'', ''b3'']"
    using sample_key_distinct by (simp add: fence_bridge_def)
  moreover have "gp_witness fence_grant = Some (map fence_bridge [''b1'', ''b2'', ''b3''])" "hr_epoch fence_record = 1"
    by (simp_all add: fence_grant_def fence_record_def)
  moreover have "vote_bridge (fence_vote ''b1'') \<noteq> vote_bridge (fence_vote ''b2'')"
    "pv_request (s_payload (fence_vote ''b1'')) \<noteq> pv_request (s_payload (fence_vote ''b2''))"
    using sample_key_distinct by (simp_all add: fence_vote_def fence_bridge_def)
  ultimately show ?thesis
    using fence_receipt [of "''b1''"] fence_receipt [of "''b2''"]
    by (simp add: validObservedPromotionCertificate_def fence_candidate_def Let_def fence_trusted)
qed

lemma fence_observes:
  "fst (observeHigherEpoch fence_world n n' fence_candidate (Some [Some (fence_vote ''b1''), Some (fence_vote ''b2'')]) fence_host)
     = Inr True"
proof -
  have c: "an_authority fence_candidate = sample_key ''as''" "an_record fence_candidate = sample_signed fence_record ''hx''"
    "an_grant fence_candidate = sample_signed fence_grant ''as''" by (simp_all add: fence_candidate_def)
  have r: "hr_server fence_record = ''srv''" "hr_role fence_record = Primary" "hr_epoch fence_record = 1"
    by (simp_all add: fence_record_def sample_record_def)
  have g: "candidate_grant_current fence_world (db fence_host) (sample_signed fence_grant ''as'')"
    by (simp add: candidate_grant_current_def get_row_def fence_host_tables grant_row_def Let_def truthy_num_def)
       (simp add: fence_grant_def sample_grant_def)
  have ch: "registrationChain fence_world n' fence_host = (Inr (host_record_chains (db fence_host)), fence_host)"
    by (simp add: registrationChain_def fence_current_grant fence_host_tables) (simp add: sample_grant_def)
  have p: "last_primary_record 0 (host_record_chains (db fence_host)) = Some (hd (host_record_chains (db fence_host)))"
    by (simp add: last_primary_record_def fence_host_tables) (simp add: sample_record_def)
  have v: "validObservedPromotionCertificate fence_world (Some [Some (fence_vote ''b1''), Some (fence_vote ''b2'')])
      \<lparr>an_authority = sample_key ''as'', an_grant = sample_signed fence_grant ''as'', an_record = sample_signed fence_record ''hx''\<rparr>
      \<lparr>pe_primary = gp_host sample_grant, pe_record_hash = cr_hash (hd (host_record_chains (db fence_host))), pe_epoch = 0\<rparr>"
    using fence_certificate by (simp add: fence_host_tables fence_candidate_def) (simp add: sample_grant_def)
  show ?thesis
    by (simp add: observeHigherEpoch_def c r fence_host_tables(1,2) fence_registration fence_current_grant g ch p v)
qed

theorem fenced_only_by_majority_certificate_witness:
  "\<not> writer (snd (observeHigherEpoch fence_world ''n'' ''m'' fence_candidate
     (Some [Some (fence_vote ''b1''), Some (fence_vote ''b2'')]) fence_host))"
  using fenced_only_by_majority_certificate [of fence_world "''n''" "''m''" fence_candidate
        "Some [Some (fence_vote ''b1''), Some (fence_vote ''b2'')]" fence_host, OF prod_eqI]
  by (simp add: fence_observes)

section \<open>The chain of registrations\<close>

text \<open>Each row follows the one before: its number is the next, and its record names the hash of the last.\<close>

fun linked :: "world \<Rightarrow> string option \<Rightarrow> int \<Rightarrow> chain_row list \<Rightarrow> bool" where
  "linked w prev n [] = True"
| "linked w prev n (r # rs) =
     (hostRegistrationRecordHash w (rg_record (cr_registration r)) = Inr (cr_hash r)
      \<and> cr_seq r = n + 1 \<and> hr_seq (s_payload (rg_record (cr_registration r))) = n + 1
      \<and> hr_previous (s_payload (rg_record (cr_registration r))) = prev
      \<and> linked w (Some (cr_hash r)) (n + 1) rs)"

definition last_hash :: "string option \<Rightarrow> chain_row list \<Rightarrow> string option" where
  "last_hash prev rows = (if rows = [] then prev else Some (cr_hash (last rows)))"

definition host_rows :: "db \<Rightarrow> string \<Rightarrow> chain_row list" where
  "host_rows d h = filter (\<lambda>r. cr_host r = h) (host_record_chains d)"

text \<open>The stored number and hash of a host are those of its last row.\<close>

definition chain_ok :: "world \<Rightarrow> db \<Rightarrow> bool" where
  "chain_ok w d \<longleftrightarrow> (\<forall>h. linked w None 0 (host_rows d h)
     \<and> meta_number d (hostRecordSeqKey h) = Some (int (length (host_rows d h)))
     \<and> previous_hash d h = last_hash None (host_rows d h))"

text \<open>A registration that is not committed yet would be the next row.\<close>

definition pending_next :: "world \<Rightarrow> host \<Rightarrow> bool" where
  "pending_next w s \<longleftrightarrow>
     (case pendingRegistration s of
        None \<Rightarrow> True
      | Some p \<Rightarrow>
          (let r = s_payload (rg_record (pr_registration p)) in
           pr_committed p \<or>
             (hostRegistrationRecordHash w (rg_record (pr_registration p)) = Inr (pr_hash p)
              \<and> hr_seq r = int (length (host_rows (db s) (hr_host r))) + 1
              \<and> hr_previous r = last_hash None (host_rows (db s) (hr_host r)))))"

lemma linked_snoc:
  "linked w prev n (rows @ [r]) \<longleftrightarrow> linked w prev n rows
     \<and> hostRegistrationRecordHash w (rg_record (cr_registration r)) = Inr (cr_hash r)
     \<and> cr_seq r = n + int (length rows) + 1 \<and> hr_seq (s_payload (rg_record (cr_registration r))) = n + int (length rows) + 1
     \<and> hr_previous (s_payload (rg_record (cr_registration r))) = last_hash prev rows"
  by (induction rows arbitrary: prev n) (auto simp: last_hash_def)

lemma linked_seq:
  "linked w prev n rows \<Longrightarrow> sorted (map cr_seq rows) \<and> (\<forall>r \<in> set rows. n < cr_seq r \<and> cr_seq r \<le> n + int (length rows))"
  by (induction rows arbitrary: prev n) (auto, force, force, force)

lemma created_record:
  "createSignedHostRecord w p seed = Inr r \<Longrightarrow> s_payload r = p"
  by (auto simp: createSignedHostRecord_def create_signed_def signPayload_def split: sum.splits if_splits)

lemma same_chain:
  assumes "meta d' = meta d" "host_record_chains d' = host_record_chains d"
  shows "chain_ok w d' = chain_ok w d" "host_rows d' = host_rows d" "previous_hash d' = previous_hash d"
    "meta_number d' = meta_number d"
  using assms by (simp_all add: fun_eq_iff chain_ok_def host_rows_def previous_hash_def meta_number_def)

lemma created_pending:
  assumes "createPrimaryRegistration w n endpoints s = (res, s')" "pendingRegistration s = None"
    "currentHostGrant w n s = (f, s1)"
  shows "s' \<in> {s, s1} \<or> (\<exists>hs v r k hash seq. f = Inr (hs, v)
     \<and> meta_number (db s1) (hostRecordSeqKey (gp_host (s_payload v))) = Some seq
     \<and> createSignedHostRecord w (next_record w (s_payload v) seq (sorted_set endpoints) s1) hs = Inr r
     \<and> hostRegistrationRecordHash w r = Inr hash
     \<and> s' = s1\<lparr>pendingRegistration := Some \<lparr>pr_endpoints = sorted_set endpoints,
         pr_registration = \<lparr>rg_authority = k, rg_grant = v, rg_record = r\<rparr>, pr_hash = hash, pr_committed = False\<rparr>\<rparr>)"
proof (cases "length (sorted_set endpoints) = 0 \<or> length (sorted_set endpoints) > 3")
  case True
  then show ?thesis using assms by (simp add: createPrimaryRegistration_def Let_def)
next
  case False
  note run = assms(1) [unfolded createPrimaryRegistration_def Let_def assms(2,3) if_not_P [OF False] option.case prod.case]
  show ?thesis
  proof (cases f)
    case (Inl e)
    then show ?thesis using run by simp
  next
    case (Inr hv)
    obtain hs v where hv: "hv = (hs, v)" by force
    note run = run [unfolded Inr hv sum.case prod.case]
    show ?thesis
    proof (cases "meta_number (db s1) (hostRecordSeqKey (gp_host (s_payload v)))")
      case (Some seq)
      note run = run [unfolded Some option.case]
      show ?thesis
      proof (cases "createSignedHostRecord w (next_record w (s_payload v) seq (sorted_set endpoints) s1) hs")
        case r: (Inr r)
        note run = run [unfolded r sum.case]
        show ?thesis
        proof (cases "authorityPublicKey (db s1)")
          case k: (Inr k)
          note run = run [unfolded k sum.case]
          show ?thesis
          proof (cases "hostRegistrationRecordHash w r")
            case hash: (Inr hash)
            have "s' = s1\<lparr>pendingRegistration := Some \<lparr>pr_endpoints = sorted_set endpoints,
               pr_registration = \<lparr>rg_authority = k, rg_grant = v, rg_record = r\<rparr>, pr_hash = hash, pr_committed = False\<rparr>\<rparr>"
              using run by (simp add: hash)
            then show ?thesis using Inr [unfolded hv] Some r hash by (intro disjI2 exI conjI)
          qed (use run in simp)
        qed (use run in simp)
      qed (use run in simp)
    qed (use run in simp)
  qed
qed

lemma create_keeps_chain:
  assumes "chain_ok w (db s)" "pending_next w s" "createPrimaryRegistration w n endpoints s = (res, s')"
  shows "chain_ok w (db s') \<and> pending_next w s'"
proof (cases "pendingRegistration s = None")
  case False
  then have "s' = s" using assms(3) by (auto simp: createPrimaryRegistration_def Let_def split: if_splits)
  with assms show ?thesis by simp
next
  case None: True
  obtain f s1 where c: "currentHostGrant w n s = (f, s1)" by force
  note frame = only_gr_simps [OF currentHostGrant_only [OF c]]
  note same = same_chain [OF frame(7,14)]
  have s1: "chain_ok w (db s1) \<and> pending_next w s1"
    using assms(1) None by (simp add: same pending_next_def frame)
  from created_pending [OF assms(3) None c] show ?thesis
  proof (elim disjE exE conjE)
    assume "s' \<in> {s, s1}"
    with assms s1 show ?thesis by auto
  next
    fix hs v r k hash seq
    assume seq: "meta_number (db s1) (hostRecordSeqKey (gp_host (s_payload v))) = Some seq"
      and r: "createSignedHostRecord w (next_record w (s_payload v) seq (sorted_set endpoints) s1) hs = Inr r"
      and h: "hostRegistrationRecordHash w r = Inr hash"
        "s' = s1\<lparr>pendingRegistration := Some \<lparr>pr_endpoints = sorted_set endpoints,
           pr_registration = \<lparr>rg_authority = k, rg_grant = v, rg_record = r\<rparr>, pr_hash = hash, pr_committed = False\<rparr>\<rparr>"
    have "seq = int (length (host_rows (db s1) (gp_host (s_payload v))))"
      "previous_hash (db s1) (gp_host (s_payload v)) = last_hash None (host_rows (db s1) (gp_host (s_payload v)))"
      using s1 seq by (simp_all add: chain_ok_def)
    with h created_record [OF r] s1 show ?thesis by (simp add: pending_next_def next_record_def)
  qed
qed

lemma commit_keeps_chain:
  assumes inv: "chain_ok w (db s)" "pending_next w s"
    and fresh: "\<forall>p \<in> set_option (pendingRegistration s). \<not> pr_committed p \<longrightarrow> \<not> has_row cr_hash (pr_hash p) (host_record_chains (db s))"
    and run: "commitPrimaryRegistration w hash s = (res, s')"
  shows "chain_ok w (db s') \<and> pending_next w s'"
proof (cases "s' = s")
  case False
  then obtain p where p: "pendingRegistration s = Some p" "\<not> pr_committed p"
    using run by (auto simp: commitPrimaryRegistration_def Let_def split: option.splits if_splits)
  let ?r = "s_payload (rg_record (pr_registration p))" and ?h = "hr_host (s_payload (rg_record (pr_registration p)))"
  let ?row = "\<lparr>cr_host = ?h, cr_seq = hr_seq ?r, cr_hash = pr_hash p, cr_registration = pr_registration p, cr_committed = now w\<rparr>"
  have ok: "hostRegistrationRecordHash w (rg_record (pr_registration p)) = Inr (pr_hash p)"
    "hr_seq ?r = int (length (host_rows (db s) ?h)) + 1" "hr_previous ?r = last_hash None (host_rows (db s) ?h)"
    using inv(2) p by (simp_all add: pending_next_def Let_def)
  have new: "\<not> has_row cr_pk (cr_pk ?row) (host_record_chains (db s))"
  proof
    assume "has_row cr_pk (cr_pk ?row) (host_record_chains (db s))"
    then obtain x where "x \<in> set (host_rows (db s) ?h)" "cr_seq x = hr_seq ?r"
      by (auto simp: has_row_def list_ex_iff cr_pk_def host_rows_def)
    moreover have "linked w None 0 (host_rows (db s) ?h)" using inv(1) by (simp add: chain_ok_def)
    ultimately show False using linked_seq [of w None 0 "host_rows (db s) ?h"] ok(2) by auto
  qed
  have hash: "hash = pr_hash p"
    using run False p by (auto simp: commitPrimaryRegistration_def split: if_splits)
  have ins: "insert_chain_row ?row (host_record_chains (db s)) = host_record_chains (db s) @ [?row]"
    using new fresh p by (simp add: insert_chain_row_def)
  have s': "s' = (db_update (\<lambda>d. host_record_chains_update (insert_chain_row ?row)
       (set_meta (hostRecordHashKey ?h) (MText (pr_hash p)) (set_meta (hostRecordSeqKey ?h) (MInt (hr_seq ?r)) d))) s)
       \<lparr>pendingRegistration := Some (p\<lparr>pr_committed := True\<rparr>)\<rparr>"
    using run p(2) unfolding commitPrimaryRegistration_def p(1) hash ok(1) by (simp add: Let_def ok(1))
  have rows: "host_rows (db s') h = (if h = ?h then host_rows (db s) h @ [?row] else host_rows (db s) h)" for h
    by (simp add: s' host_rows_def set_meta_def ins)
  have meta: "meta_number (db s') (hostRecordSeqKey h) = (if h = ?h then Some (hr_seq ?r) else meta_number (db s) (hostRecordSeqKey h))"
    "previous_hash (db s') h = (if h = ?h then Some (pr_hash p) else previous_hash (db s) h)" for h
    by (simp_all add: s' meta_number_def previous_hash_def set_meta_def)
  have "chain_ok w (db s')"
    using inv(1) ok by (auto simp: chain_ok_def rows meta linked_snoc last_hash_def [of None "_ @ _"])
  then show ?thesis by (simp add: pending_next_def s')
qed (use inv in simp)

lemma registration_chain_linked_parts:
  assumes "chain_ok w (db s)" and "pending_next w s"
  shows "createPrimaryRegistration w n endpoints s = (res, s1) \<Longrightarrow> chain_ok w (db s1) \<and> pending_next w s1"
    and "commitPrimaryRegistration w hash s = (res', s2) \<Longrightarrow>
         \<forall>p \<in> set_option (pendingRegistration s). \<not> pr_committed p \<longrightarrow> \<not> has_row cr_hash (pr_hash p) (host_record_chains (db s)) \<Longrightarrow>
         chain_ok w (db s2) \<and> pending_next w s2"
    and "s3 = abandonPrimaryRegistration h s \<Longrightarrow> chain_ok w (db s3) \<and> pending_next w s3"
    and "registrationChain w n s = (Inr rows, s4) \<Longrightarrow> linked w None 0 rows"
proof -
  show "createPrimaryRegistration w n endpoints s = (res, s1) \<Longrightarrow> chain_ok w (db s1) \<and> pending_next w s1"
    using assms by (rule create_keeps_chain)
  show "chain_ok w (db s2) \<and> pending_next w s2" if "commitPrimaryRegistration w hash s = (res', s2)"
    "\<forall>p \<in> set_option (pendingRegistration s). \<not> pr_committed p \<longrightarrow> \<not> has_row cr_hash (pr_hash p) (host_record_chains (db s))"
    using assms that(2,1) by (rule commit_keeps_chain)
  show "chain_ok w (db s3) \<and> pending_next w s3" if "s3 = abandonPrimaryRegistration h s"
    using assms by (cases "pendingRegistration s") (simp_all add: that abandonPrimaryRegistration_def pending_next_def)
  assume run: "registrationChain w n s = (Inr rows, s4)"
  then have "host_record_chains (db s4) = host_record_chains (db s)"
    using only_gr_simps [OF registrationChain_only] by metis
  moreover have "linked w None 0 (host_rows (db s) h)" for h using assms(1) by (simp add: chain_ok_def)
  moreover from this have "sort_key cr_seq (host_rows (db s) h) = host_rows (db s) h" for h
    using linked_seq by (intro sort_key_id_if_sorted) blast
  ultimately show "linked w None 0 rows"
    using run by (auto simp: registrationChain_def host_rows_def split: prod.splits sum.splits hfail.splits)
qed

text \<open>
  C26. The registrations a host commits form one hash chain per host. Creating, committing and abandoning a
  registration keep it: every row's number is one more than the last, its record names the hash of the row
  before, its own hash is the one of its signed record, and the stored number and hash are those of the last
  row. The chain the host presents to a bridge is linked in this way from the first row on. Committing asks
  for a hash that is not in the table yet, as \<open>INSERT OR IGNORE\<close> would drop the row otherwise.
\<close>

theorem registration_chain_linked:
  assumes "chain_ok w (db s)" and "pending_next w s"
  shows "(\<forall>n endpoints res s1. createPrimaryRegistration w n endpoints s = (res, s1) \<longrightarrow> chain_ok w (db s1) \<and> pending_next w s1)
    \<and> (\<forall>hash res s2. commitPrimaryRegistration w hash s = (res, s2) \<longrightarrow>
         (\<forall>p \<in> set_option (pendingRegistration s). \<not> pr_committed p \<longrightarrow> \<not> has_row cr_hash (pr_hash p) (host_record_chains (db s))) \<longrightarrow>
         chain_ok w (db s2) \<and> pending_next w s2)
    \<and> (\<forall>h. chain_ok w (db (abandonPrimaryRegistration h s)) \<and> pending_next w (abandonPrimaryRegistration h s))
    \<and> (\<forall>n rows s4. registrationChain w n s = (Inr rows, s4) \<longrightarrow> linked w None 0 rows)"
  using registration_chain_linked_parts [OF assms] by (intro conjI allI impI) auto


text \<open>A fresh host has an empty chain, and its first registration starts one.\<close>

lemma empty_chain: "host_record_chains d = [] \<Longrightarrow> \<forall>h. meta d (hostRecordSeqKey h) = None \<and> meta d (hostRecordHashKey h) = None \<Longrightarrow> chain_ok w d"
  by (simp add: chain_ok_def host_rows_def meta_number_def previous_hash_def last_hash_def)

lemma grants_host_chain: "chain_ok w (db grants_host)" "pendingRegistration grants_host = None"
proof -
  show "chain_ok w (db grants_host)"
    by (rule empty_chain)
       (simp_all add: grants_host_def grants_db_def sample_db_def empty_db_def hostRecordSeqKey_def hostRecordHashKey_def)
  show "pendingRegistration grants_host = None" by (simp add: grants_host_def sample_host_def)
qed

definition first_record :: "host_record signed" where
  "first_record = sample_signed \<lparr>hr_server = ''srv'', hr_grant = ''g1'', hr_host = ''h1'', hr_role = Primary,
     hr_epoch = 0, hr_seq = 1, hr_previous = None, hr_endpoints = [''wss://a''], hr_candidates = [], hr_issued = 1000,
     hr_ttl = 300000, hr_expires = 301000\<rparr> ''hs''"

definition first_pending :: pending_registration where
  "first_pending = \<lparr>pr_endpoints = [''wss://a''],
     pr_registration = \<lparr>rg_authority = sample_key ''as'', rg_grant = sample_signed sample_grant ''as'', rg_record = first_record\<rparr>,
     pr_hash = canonicalJson (signed_json host_record_json first_record), pr_committed = False\<rparr>"

lemma first_registration:
  "createPrimaryRegistration sample_world ''n'' [''wss://a''] grants_host
     = (Inr first_pending, grants_host\<lparr>pendingRegistration := Some first_pending\<rparr>)"
proof -
  have db: "db grants_host = grants_db" "writer grants_host" by (simp_all add: grants_host_def sample_host_def)
  have c: "currentHostGrant sample_world ''n'' grants_host = (Inr (''hs'', sample_signed sample_grant ''as''), grants_host)"
    by (rule sample_current_grant) (simp_all add: db grants_db_simps)
  have m: "meta_number grants_db (hostRecordSeqKey ''h1'') = Some 0" "previous_hash grants_db ''h1'' = None" "getEpoch grants_db = 0"
    by (simp_all add: meta_number_def previous_hash_def getEpoch_def grants_db_def sample_db_def empty_db_def
        hostRecordSeqKey_def hostRecordHashKey_def)
  have g: "gp_host sample_grant = ''h1''" "gp_grant sample_grant = ''g1''" by (simp_all add: sample_grant_def)
  have rec_is: "next_record sample_world sample_grant 0 [''wss://a''] grants_host = s_payload first_record"
    by (simp add: next_record_def first_record_def db m g)
  have schema: "HostRecordPayloadSchema sample_world (s_payload first_record)"
    by (simp add: HostRecordPayloadSchema_def first_record_def hostIdSchema_def
        text_between_def endpointSchema_def positiveSchema_def timestampSchema_def is_safe_integer_def)
       (simp add: sample_world_def sample_crypto_def)
  have dom: "DOM_hostRecord \<in> set SIGNATURE_DOMAINS" by (simp add: SIGNATURE_DOMAINS_def)
  have r: "createSignedHostRecord sample_world (s_payload first_record) ''hs'' = Inr first_record"
    using schema domains_ok [OF dom]
    by (simp add: createSignedHostRecord_def create_signed_def signPayload_def signCanonicalPayload_def signatureMessage_def
        SignedHostRecordSchema_def signed_schema_def first_record_def sample_signed_def)
  have h: "hostRegistrationRecordHash sample_world first_record = Inr (canonicalJson (signed_json host_record_json first_record))"
    using schema by (simp add: hostRegistrationRecordHash_def SignedHostRecordSchema_def signed_schema_def first_record_def)
       (simp add: sample_world_def)
  show ?thesis
    by (simp add: createPrimaryRegistration_def sorted_set_def Let_def grants_host_chain(2) c db m g rec_is r h
        grants_db_simps(3) first_pending_def)
qed

theorem registration_chain_linked_witness:
  "\<exists>s2. commitPrimaryRegistration sample_world (pr_hash first_pending) (grants_host\<lparr>pendingRegistration := Some first_pending\<rparr>)
      = (Inr (), s2) \<and> chain_ok sample_world (db s2) \<and> host_rows (db s2) ''h1'' \<noteq> []"
proof -
  let ?s1 = "grants_host\<lparr>pendingRegistration := Some first_pending\<rparr>"
  have p: "pending_next sample_world grants_host" by (simp add: pending_next_def grants_host_chain(2))
  have s1: "chain_ok sample_world (db ?s1) \<and> pending_next sample_world ?s1"
    using registration_chain_linked [OF grants_host_chain(1) p] first_registration by blast
  have rows: "host_record_chains (db grants_host) = []"
    by (simp add: grants_host_def grants_db_def sample_db_def empty_db_def)
  have hash: "hostRegistrationRecordHash sample_world (rg_record (pr_registration first_pending)) = Inr (pr_hash first_pending)"
    "hr_host (s_payload (rg_record (pr_registration first_pending))) = ''h1''" "\<not> pr_committed first_pending"
    using s1 by (simp_all add: pending_next_def Let_def first_pending_def first_record_def)
  obtain s2 where s2: "commitPrimaryRegistration sample_world (pr_hash first_pending) ?s1 = (Inr (), s2)"
    "host_rows (db s2) ''h1'' \<noteq> []"
    by (simp add: commitPrimaryRegistration_def hash Let_def insert_chain_row_def host_rows_def set_meta_def rows has_row_def)
  have "chain_ok sample_world (db s2)"
    using registration_chain_linked [OF conjunct1 [OF s1] conjunct2 [OF s1]] s2(1) by (auto simp: rows has_row_def)
  with s2 show ?thesis by blast
qed

end
