(* ===== verification/Replication.thy ===== *)
theory Replication
  imports Authority AttachmentCodec
begin

text \<open>
  Replication (\<open>apps/janjanode/src/server.service.ts\<close>): enrolling a replica with a sealed copy of the database,
  the snapshots a replica fetches and installs, and its health check. The database file as SQLCipher writes it,
  the AES-GCM box and the collation of \<open>localeCompare\<close> are parameters (\<open>replica_env\<close>).
\<close>

record sealed_box =
  bx_ephemeral :: string
  bx_nonce :: string
  bx_ciphertext :: string
  bx_tag :: string

text \<open>
  \<open>db_file\<close>: the encrypted file of a database, \<open>None\<close> when it cannot be read; \<open>open_db\<close> and \<open>derive\<close> as in the
  store; \<open>seal_box\<close>: recipient, additional data and plaintext to a box; \<open>collation_key\<close>: the sort key of a text.
\<close>

record replica_env =
  db_file :: "db \<Rightarrow> byte list option"
  open_db :: "byte list \<Rightarrow> db option"
  derive_key :: "string \<Rightarrow> string"
  fresh_key :: string
  db_key :: string
  seal_box :: "string \<Rightarrow> string \<Rightarrow> string \<Rightarrow> sealed_box"
  collation_key :: "string \<Rightarrow> string"

record store_snapshot =
  ss_metadata :: snapshot_metadata
  ss_file :: "byte list"

definition consistentSnapshot :: "replica_env \<Rightarrow> db \<Rightarrow> exn + store_snapshot" where
  "consistentSnapshot env d =
     (case readMetadata d of
        Inl e \<Rightarrow> Inl e
      | Inr m \<Rightarrow>
          (case db_file env d of
             None \<Rightarrow> Inl (AppError ''could not complete SQLite checkpoint for replica snapshot'')
           | Some file \<Rightarrow>
               (case assertEncrypted file of
                  Inl e \<Rightarrow> Inl e
                | Inr _ \<Rightarrow> Inr \<lparr>ss_metadata = m, ss_file = file\<rparr>)))"

section \<open>Enrollment\<close>

definition ENROLLMENT_TRANSCRIPT_DOMAIN :: string where
  "ENROLLMENT_TRANSCRIPT_DOMAIN = ''janjacord.replica-enrollment-transcript.v1''"

record enrollment_transcript =
  et_enrollment :: string
  et_recipient :: string
  et_server :: string
  et_authority :: string
  et_grant :: string
  et_generation :: int
  et_subject_key :: string
  et_replica_host :: string
  et_replica_key :: string
  et_primary_host :: string
  et_primary_grant :: string
  et_primary_key :: string
  et_snapshot :: string
  et_epoch :: int
  et_seq :: int
  et_issued :: int
  et_expires :: int
  et_bridges :: string

definition transcript_json :: "enrollment_transcript \<Rightarrow> json" where
  "transcript_json t = JObj
     [(''version'', JNum 1), (''enrollmentId'', JStr (et_enrollment t)), (''recipientPublicKey'', JStr (et_recipient t)),
      (''serverId'', JStr (et_server t)), (''authorityFingerprint'', JStr (et_authority t)), (''grantId'', JStr (et_grant t)),
      (''generation'', JNum (et_generation t)), (''subjectAuthPublicKey'', JStr (et_subject_key t)),
      (''replicaHost'', JObj [(''hostId'', JStr (et_replica_host t)), (''publicKey'', JStr (et_replica_key t))]),
      (''primaryHost'', JObj [(''hostId'', JStr (et_primary_host t)), (''grantId'', JStr (et_primary_grant t)),
                              (''publicKey'', JStr (et_primary_key t))]),
      (''snapshotHash'', JStr (et_snapshot t)), (''epoch'', JNum (et_epoch t)), (''seq'', JNum (et_seq t)),
      (''issuedAt'', JNum (et_issued t)), (''expiresAt'', JNum (et_expires t)), (''bridgeSetHash'', JStr (et_bridges t))]"

record enrollment_material =
  em_transcript :: enrollment_transcript
  em_authority_key :: string
  em_subject :: string
  em_grant :: "grant_payload signed"
  em_bridges :: "bridge_descriptor signed list"
  em_db :: string
  em_db_key :: string

text \<open>The fields the material shares with the transcript are written from it.\<close>

definition material_json :: "enrollment_material \<Rightarrow> json" where
  "material_json m =
     (let t = em_transcript m in JObj
     [(''version'', JNum 2), (''enrollmentId'', JStr (et_enrollment t)), (''issuedAt'', JNum (et_issued t)),
      (''expiresAt'', JNum (et_expires t)), (''serverId'', JStr (et_server t)),
      (''authorityPublicKey'', JStr (em_authority_key m)), (''authorityFingerprint'', JStr (et_authority t)),
      (''epoch'', JNum (et_epoch t)), (''seq'', JNum (et_seq t)), (''grantId'', JStr (et_grant t)),
      (''subjectIdentityId'', JStr (em_subject m)), (''subjectAuthPublicKey'', JStr (et_subject_key t)),
      (''replicaHost'', JObj [(''hostId'', JStr (et_replica_host t)), (''publicKey'', JStr (et_replica_key t))]),
      (''replicaGrant'', signed_json grant_json (em_grant m)),
      (''primaryHost'', JObj [(''hostId'', JStr (et_primary_host t)), (''grantId'', JStr (et_primary_grant t)),
                              (''publicKey'', JStr (et_primary_key t))]),
      (''bridgeAccess'', JArr (map (\<lambda>b. JObj [(''descriptor'', signed_json bridge_descriptor_json b)]) (em_bridges m))),
      (''dbB64'', JStr (em_db m)), (''dbKeyB64'', JStr (em_db_key m))])"

record sealed_enrollment =
  se_version :: int
  se_algorithm :: string
  se_transcript :: "enrollment_transcript signed option"
  se_box :: sealed_box

definition ENROLLMENT_ALGORITHM :: string where "ENROLLMENT_ALGORITHM = ''X25519-HKDF-SHA256-AES-256-GCM''"

definition sealReplicaEnrollment ::
    "replica_env \<Rightarrow> enrollment_material \<Rightarrow> enrollment_transcript signed \<Rightarrow> exn + sealed_enrollment" where
  "sealReplicaEnrollment env material transcript =
     (let recipient = et_recipient (s_payload transcript) in
      if base64url_bytes recipient \<noteq> 32 \<or> \<not> canonical_base64url recipient
      then Inl (AppError ''invalid replica enrollment public key'')
      else Inr \<lparr>se_version = 2, se_algorithm = ENROLLMENT_ALGORITHM, se_transcript = Some transcript,
                se_box = seal_box env recipient (canonicalJson (signed_json transcript_json transcript))
                           (canonicalJson (material_json material))\<rparr>)"

text \<open>An expected recipient that is absent or empty is not compared.\<close>

definition verifyReplicaEnrollmentTranscript ::
    "world \<Rightarrow> sealed_enrollment \<Rightarrow> string option \<Rightarrow> enrollment_transcript option" where
  "verifyReplicaEnrollmentTranscript w e expectedRecipient =
     (if se_version e \<noteq> 2 \<or> se_algorithm e \<noteq> ENROLLMENT_ALGORITHM then None
      else case se_transcript e of
          None \<Rightarrow> None
        | Some v \<Rightarrow>
            if truthy_str expectedRecipient \<and> expectedRecipient \<noteq> Some (et_recipient (s_payload v)) then None
            else if base64url_bytes (s_key v) \<noteq> 32 \<or> base64url_bytes (s_signature v) \<noteq> 64
              \<or> fingerprint w (s_key v) \<noteq> et_authority (s_payload v)
              \<or> \<not> verifyCanonicalPayload w (s_key v) ENROLLMENT_TRANSCRIPT_DOMAIN (transcript_json (s_payload v)) (s_signature v)
            then None
            else Some (s_payload v))"

definition configuredBridgeAccess :: "world \<Rightarrow> bridge_descriptor signed list" where
  "configuredBridgeAccess w = configuredBridgeHints w"

text \<open>\<open>localeCompare\<close> on the bridge ids orders the descriptors before they are hashed.\<close>

definition bridge_set_hash :: "world \<Rightarrow> replica_env \<Rightarrow> bridge_descriptor signed list \<Rightarrow> string" where
  "bridge_set_hash w env bridges =
     sha256Hex w (canonicalJson (JArr (map (signed_json bridge_descriptor_json)
       (sort_key (\<lambda>b. collation_key env (bd_bridge (s_payload b))) bridges))))"

definition enrollment_transcript_of ::
    "world \<Rightarrow> replica_env \<Rightarrow> string \<Rightarrow> string \<Rightarrow> string \<Rightarrow> string \<Rightarrow> string \<Rightarrow> grant_payload \<Rightarrow> grant_payload \<Rightarrow> string
     \<Rightarrow> store_snapshot \<Rightarrow> enrollment_transcript" where
  "enrollment_transcript_of w env newId recipient authority grantId subjectKey g primary hostSeed snap =
     \<lparr>et_enrollment = newId, et_recipient = recipient, et_server = sm_server (ss_metadata snap),
      et_authority = authority, et_grant = grantId, et_generation = gp_generation g, et_subject_key = subjectKey,
      et_replica_host = gp_host g, et_replica_key = gp_device_key g,
      et_primary_host = gp_host primary, et_primary_grant = gp_grant primary, et_primary_key = public_key w hostSeed,
      et_snapshot = chunk_sha256 w (ss_file snap), et_epoch = sm_epoch (ss_metadata snap),
      et_seq = sm_seq (ss_metadata snap), et_issued = now w, et_expires = now w + 10 * 60000,
      et_bridges = bridge_set_hash w env (configuredBridgeAccess w)\<rparr>"

definition create_transcript ::
    "world \<Rightarrow> string \<Rightarrow> string \<Rightarrow> enrollment_transcript \<Rightarrow> exn + enrollment_transcript signed" where
  "create_transcript w authorityKey authoritySeed t =
     (case signCanonicalPayload w authoritySeed ENROLLMENT_TRANSCRIPT_DOMAIN (transcript_json t) of
        Inl e \<Rightarrow> Inl e
      | Inr sig \<Rightarrow> Inr \<lparr>s_payload = t, s_key = authorityKey, s_signature = sig\<rparr>)"

text \<open>The transaction: the proof is used up, the enrollment recorded, and the writer state written.\<close>

definition record_enrollment ::
    "world \<Rightarrow> string \<Rightarrow> enrollment_transcript \<Rightarrow> grant_payload \<Rightarrow> grant_payload \<Rightarrow> db \<Rightarrow> db option" where
  "record_enrollment w proofId t g primary d =
     (case consumeSecurityProof w proofId ''replica-enroll'' d of
        None \<Rightarrow> None
      | Some d1 \<Rightarrow>
          (case ins_row en_id \<lparr>en_id = et_enrollment t, en_grant = et_grant t, en_generation = et_generation t,
                 en_snapshot = et_snapshot t, en_epoch = et_epoch t, en_seq = et_seq t, en_issued = et_issued t,
                 en_expires = et_expires t, en_consumed = Some (et_issued t)\<rparr> (replica_enrollments d1) of
             None \<Rightarrow> None
           | Some rows \<Rightarrow>
               Some (persistWriterState w ''writer'' primary (et_epoch t)
                 (if Promote \<in> set (gp_caps g) \<and> configuredBridgeAccess w \<noteq> []
                  then [map (\<lambda>b. bd_bridge (s_payload b)) (configuredBridgeAccess w)] else [])
                 (d1\<lparr>replica_enrollments := rows\<rparr>))))"

text \<open>The envelope is built and the transaction run; any exception in either is a conflict.\<close>

definition finish_enrollment ::
    "world \<Rightarrow> replica_env \<Rightarrow> string \<Rightarrow> possession_proof \<Rightarrow> enrollment_transcript signed \<Rightarrow> string \<Rightarrow> grant_payload signed
     \<Rightarrow> grant_payload \<Rightarrow> byte list \<Rightarrow> host \<Rightarrow> sealed_enrollment result \<times> host" where
  "finish_enrollment w env actorId proof transcript authorityKey v primary file s =
     (case sealReplicaEnrollment env
        \<lparr>em_transcript = s_payload transcript, em_authority_key = authorityKey, em_subject = actorId, em_grant = v,
         em_bridges = configuredBridgeAccess w, em_db = b64_encode file, em_db_key = db_key env\<rparr> transcript of
        Inl e \<Rightarrow> (Inl (Fail Conflict), s)
      | Inr sealed \<Rightarrow>
          (case record_enrollment w (po_id proof) (s_payload transcript) (s_payload v) primary (db s) of
             None \<Rightarrow> (Inl (Fail Conflict), s)
           | Some d \<Rightarrow> (Inr sealed, s\<lparr>db := d\<rparr>)))"

definition enrollReplica ::
    "world \<Rightarrow> replica_env \<Rightarrow> string \<Rightarrow> string \<Rightarrow> string \<Rightarrow> string \<Rightarrow> string \<Rightarrow> possession_proof \<Rightarrow> host
     \<Rightarrow> sealed_enrollment result \<times> host" where
  "enrollReplica w env newGrantId newId actorId subjectKey grantId hostProof s =
     (if \<not> writer s then (Inl (Fail Conflict), s)
      else case activeHostGrant w actorId subjectKey grantId Replicate (db s) of
          Inl e \<Rightarrow> (Inl e, s)
        | Inr v \<Rightarrow>
            (case get_row hg_id grantId (host_grants (db s)) of
               None \<Rightarrow> (Inl (Fail Unauthorized), s)
             | Some row \<Rightarrow>
                 if \<not> verifyHostPossession w ''enroll'' v (hg_enroll_key row) hostProof
                 then (Inl (Fail Unauthorized), s)
                 else case read_seed (authority_seed w) of
                     Inl e \<Rightarrow> (Inl (Throws e), s)
                   | Inr None \<Rightarrow> (Inl (Fail Forbidden), s)
                   | Inr (Some authoritySeed) \<Rightarrow>
                       if list_ex (\<lambda>r. en_grant r = grantId \<and> en_generation r = gp_generation (s_payload v))
                            (replica_enrollments (db s)) then (Inl (Fail Conflict), s)
                       else (case currentHostGrant w newGrantId s of
                           (Inl e, s1) \<Rightarrow> (Inl e, s1)
                         | (Inr (hostSeed, primary), s1) \<Rightarrow>
                             (case consistentSnapshot env (db s1) of
                                Inl e \<Rightarrow> (Inl (Throws e), s1)
                              | Inr snap \<Rightarrow>
                                  (case authorityFingerprint w (db s1) of
                                     Inl e \<Rightarrow> (Inl (Throws e), s1)
                                   | Inr fp \<Rightarrow>
                                       (case authorityPublicKey (db s1) of
                                          Inl e \<Rightarrow> (Inl (Throws e), s1)
                                        | Inr k \<Rightarrow>
                                            (case create_transcript w k authoritySeed
                                               (enrollment_transcript_of w env newId (hg_enroll_key row) fp grantId subjectKey
                                                  (s_payload v) (s_payload primary) hostSeed snap) of
                                               Inl e \<Rightarrow> (Inl (Throws e), s1)
                                             | Inr t \<Rightarrow>
                                                 finish_enrollment w env actorId hostProof t
                                                   (sm_authority (ss_metadata snap)) v (s_payload primary) (ss_file snap)
                                                   s1)))))))"

section \<open>Snapshots\<close>

record snapshot_reply =
  sr_db :: string
  sr_server :: string
  sr_authority :: string
  sr_epoch :: int
  sr_seq :: int

definition getSnapshot ::
    "world \<Rightarrow> replica_env \<Rightarrow> string \<Rightarrow> string \<Rightarrow> string \<Rightarrow> string \<Rightarrow> db \<Rightarrow> snapshot_reply result" where
  "getSnapshot w env actorId subjectKey grantId expectedServerId d =
     (case activeHostGrant w actorId subjectKey grantId Replicate d of
        Inl e \<Rightarrow> Inl e
      | Inr v \<Rightarrow>
          if expectedServerId \<noteq> server_id w then Inl (Fail Conflict)
          else case consistentSnapshot env d of
              Inl e \<Rightarrow> Inl (Throws e)
            | Inr snap \<Rightarrow>
                Inr \<lparr>sr_db = b64_encode (ss_file snap), sr_server = sm_server (ss_metadata snap),
                     sr_authority = sm_authority (ss_metadata snap), sr_epoch = sm_epoch (ss_metadata snap),
                     sr_seq = sm_seq (ss_metadata snap)\<rparr>)"

definition replica_meta_keys :: "string list" where
  "replica_meta_keys =
     [''replica_enrollment_id'', ''replica_primary_host_id'', ''replica_witness_bridge_ids'', ''replica_fenced_grant_id'']"

definition meta_rows :: "string list \<Rightarrow> db \<Rightarrow> (string \<times> meta_value) list" where
  "meta_rows ks d = List.map_filter (\<lambda>k. map_option (\<lambda>v. (k, v)) (meta d k)) ks"

definition preserved_meta :: "string option \<Rightarrow> db \<Rightarrow> (string \<times> meta_value) list" where
  "preserved_meta hostId d = meta_rows (replica_meta_keys @
     (case hostId of None \<Rightarrow> [] | Some h \<Rightarrow> [hostRecordSeqKey h, hostRecordHashKey h])) d"

definition preserved_rows :: "string option \<Rightarrow> db \<Rightarrow> chain_row list" where
  "preserved_rows hostId d = (case hostId of None \<Rightarrow> [] | Some h \<Rightarrow> sort_key cr_seq (host_rows d h))"

text \<open>Every exception in the body is reported as a conflict; a grant issued before it stays.\<close>

definition applyReplicaSnapshot ::
    "world \<Rightarrow> replica_env \<Rightarrow> string \<Rightarrow> snapshot_reply \<Rightarrow> host \<Rightarrow> (int \<times> int) result \<times> host" where
  "applyReplicaSnapshot w env newId reply s =
     (if writer s then (Inl (Fail Conflict), s)
      else let file = b64_decode (sr_db reply) in
        if b64_encode file \<noteq> sr_db reply then (Inl (Fail Conflict), s)
        else if sr_server reply \<noteq> server_id w then (Inl (Fail Conflict), s)
        else case authorityPublicKey (db s) of
            Inl e \<Rightarrow> (Inl (Fail Conflict), s)
          | Inr k \<Rightarrow>
              if sr_authority reply \<noteq> k then (Inl (Fail Conflict), s)
              else (let localSeq = max_seq (db s) in
                case currentHostGrant w newId s of
                  (Inl (Throws e), s1) \<Rightarrow> (Inl (Fail Conflict), s1)
                | (res, s1) \<Rightarrow>
                    (let hostId = (case res of Inr (_, v) \<Rightarrow> Some (gp_host (s_payload v)) | Inl _ \<Rightarrow> None);
                         ex = \<lparr>ex_server = server_id w, ex_authority = k, ex_min_epoch = Some (getEpoch (db s1)),
                               ex_min_seq = Some localSeq, ex_exact_epoch = Some (sr_epoch reply),
                               ex_exact_seq = Some (sr_seq reply)\<rparr>
                     in case replaceEncryptedSnapshot (derive_key env) (fresh_key env) (open_db env) file ex
                               (preserved_meta hostId (db s1)) (preserved_rows hostId (db s1)) (db s1) of
                          (Inl e, d') \<Rightarrow> (Inl (Fail Conflict), s1\<lparr>db := d'\<rparr>)
                        | (Inr m, d') \<Rightarrow>
                            (Inr (sm_epoch m, sm_seq m), s1\<lparr>db := d', sequences := (\<lambda>_. None), calls := []\<rparr>))))"

definition replicaPing :: "world \<Rightarrow> string \<Rightarrow> string \<Rightarrow> string \<Rightarrow> string \<Rightarrow> int \<Rightarrow> db \<Rightarrow> int result" where
  "replicaPing w actorId subjectKey grantId expectedServerId expectedEpoch d =
     (case activeHostGrant w actorId subjectKey grantId Replicate d of
        Inl e \<Rightarrow> Inl e
      | Inr v \<Rightarrow>
          if expectedServerId \<noteq> server_id w \<or> expectedEpoch \<noteq> getEpoch d then Inl (Fail Conflict)
          else Inr (getEpoch d))"

section \<open>A replica takes over the community\<close>

text \<open>The tables a replacement does not touch.\<close>

definition same_content :: "db \<Rightarrow> db \<Rightarrow> bool" where
  "same_content d d' \<longleftrightarrow>
     d' = d\<lparr>meta := meta d', host_record_chains := host_record_chains d', spool_usage := spool_usage d'\<rparr>"

lemma same_content_refl [simp]: "same_content d d" by (simp add: same_content_def)

lemma same_content_trans: "same_content a b \<Longrightarrow> same_content b c \<Longrightarrow> same_content a c"
  unfolding same_content_def by (cases a, cases b, cases c) simp

lemma preserve_meta_content: "same_content d (preserve_meta es d)"
proof (induction es d rule: preserve_meta.induct)
  case (2 k v es d)
  have "same_content d (set_meta k v d)" by (simp add: same_content_def set_meta_def)
  with 2 show ?case by (auto intro: same_content_trans)
qed simp

lemma preserve_registrations_content: "preserve_registrations rs d = Inr d' \<Longrightarrow> same_content d d'"
proof (induction rs d rule: preserve_registrations.induct)
  case (2 r rs d)
  have "same_content d (host_record_chains_update (\<lambda>t. t @ [r]) d)" by (simp add: same_content_def)
  with 2 show ?case by (auto split: option.splits if_splits intro: same_content_trans)
qed simp

lemma openAndMigrate_content: "same_content d (openAndMigrate derive fresh d)"
proof -
  have r: "same_content a (rebuild_usage a)" for a by (simp add: same_content_def rebuild_usage_def Let_def)
  have "same_content a (set_meta k v a)" "same_content a (meta_update f a)" for a k v f
    by (simp_all add: same_content_def set_meta_def)
  then have m: "same_content b a \<Longrightarrow> same_content b (set_meta k v a)" "same_content b a \<Longrightarrow> same_content b (meta_update f a)"
    for a b k v f using same_content_trans by blast+
  show ?thesis
    unfolding openAndMigrate_def migrateAuthorityMetadata_def Let_def by (auto intro!: r m split: option.split)
qed

lemma replacement_installs:
  assumes "replaceEncryptedSnapshot derive fresh open0 data ex ms rs d = (Inr m, d')"
  obtains d0 staged where "open0 data = Some d0" and "preserve_registrations rs (preserve_meta ms d0) = Inr staged"
    and "d' = openAndMigrate derive fresh staged" and "readMetadata d' = Inr m" and "validateMetadata m ex = Inr m"
proof -
  obtain staged where st: "stageAndValidate open0 data ex ms rs = Inr staged"
    using assms by (cases "stageAndValidate open0 data ex ms rs") (simp_all add: replaceEncryptedSnapshot_def)
  obtain m0 where m0: "readMetadata (openAndMigrate derive fresh staged) = Inr m0"
    using assms st by (cases "readMetadata (openAndMigrate derive fresh staged)") (simp_all add: replaceEncryptedSnapshot_def Let_def)
  have d': "validateMetadata m0 ex = Inr m \<and> d' = openAndMigrate derive fresh staged"
    using assms by (cases "validateMetadata m0 ex") (simp_all add: replaceEncryptedSnapshot_def Let_def st m0)
  with validateMetadata_Inr [of m0 ex m] have "m = m0" by simp
  obtain d0 where d0: "validateEncryptedFile open0 data ex = Inr d0"
    using st by (auto simp: stageAndValidate_def split: sum.splits)
  have "open0 data = Some d0" using d0 by (auto simp: validateEncryptedFile_def split: option.splits sum.splits)
  moreover have "preserve_registrations rs (preserve_meta ms d0) = Inr staged"
  proof (cases "ms = [] \<and> rs = []")
    case True
    then show ?thesis using st d0 by (auto simp: stageAndValidate_def split: sum.splits)
  next
    case False
    then show ?thesis using st d0 by (auto simp: stageAndValidate_def split: sum.splits if_splits)
  qed
  ultimately show thesis using that d' m0 \<open>m = m0\<close> by blast
qed

lemma snapshot_sent:
  assumes "getSnapshot w env a key g srv d = Inr reply"
  obtains bytes where "db_file env d = Some bytes" and "sr_db reply = b64_encode bytes"
    and "sr_seq reply = max_seq d" and "meta_number d ''epoch'' = Some (sr_epoch reply)"
  using assms
  by (auto simp: getSnapshot_def consistentSnapshot_def readMetadata_def Let_def split: sum.splits option.splits if_splits)

lemma snapshot_applied:
  assumes "applyReplicaSnapshot w env n reply s = (Inr (e, q), s')"
  obtains k s1 hostId m d' where "authorityPublicKey (db s) = Inr k" and "only_grants s s1" and "\<not> writer s"
    and "replaceEncryptedSnapshot (derive_key env) (fresh_key env) (open_db env) (b64_decode (sr_db reply))
          \<lparr>ex_server = server_id w, ex_authority = k, ex_min_epoch = Some (getEpoch (db s)),
            ex_min_seq = Some (max_seq (db s)), ex_exact_epoch = Some (sr_epoch reply), ex_exact_seq = Some (sr_seq reply)\<rparr>
          (preserved_meta hostId (db s1)) (preserved_rows hostId (db s1)) (db s1) = (Inr m, d')"
    and "e = sm_epoch m" and "q = sm_seq m" and "s' = s1\<lparr>db := d', sequences := (\<lambda>_. None), calls := []\<rparr>"
proof -
  obtain k where k: "authorityPublicKey (db s) = Inr k" and w: "\<not> writer s"
    using assms by (auto simp: applyReplicaSnapshot_def Let_def split: if_splits sum.splits)
  obtain res s1 where c: "currentHostGrant w n s = (res, s1)" by force
  note only = currentHostGrant_only [OF c]
  then have ep: "getEpoch (db s1) = getEpoch (db s)" by (simp add: getEpoch_def only_gr_simps)
  define hostId where "hostId = (case res of Inr (_, v) \<Rightarrow> Some (gp_host (s_payload v)) | Inl _ \<Rightarrow> None)"
  let ?r = "replaceEncryptedSnapshot (derive_key env) (fresh_key env) (open_db env) (b64_decode (sr_db reply))
          \<lparr>ex_server = server_id w, ex_authority = k, ex_min_epoch = Some (getEpoch (db s)),
            ex_min_seq = Some (max_seq (db s)), ex_exact_epoch = Some (sr_epoch reply), ex_exact_seq = Some (sr_seq reply)\<rparr>
          (preserved_meta hostId (db s1)) (preserved_rows hostId (db s1)) (db s1)"
  have run: "(case ?r of (Inl e, d') \<Rightarrow> (Inl (Fail Conflict), s1\<lparr>db := d'\<rparr>)
      | (Inr m, d') \<Rightarrow> (Inr (sm_epoch m, sm_seq m), s1\<lparr>db := d', sequences := (\<lambda>_. None), calls := []\<rparr>)) = (Inr (e, q), s')"
    using assms w k c by (auto simp: applyReplicaSnapshot_def Let_def ep hostId_def split: if_splits sum.splits hfail.splits)
  obtain m d' where r: "?r = (Inr m, d')"
    using run by (cases ?r; cases "fst ?r") auto
  show thesis by (rule that [OF k only w r]) (use run r in auto)
qed

lemma same_content_log: "same_content d d' \<Longrightarrow> op_log d' = op_log d \<and> max_seq d' = max_seq d"
  unfolding same_content_def max_seq_def by (metis db.select_convs db.surjective db.update_convs)

lemma same_content_members: "same_content d d' \<Longrightarrow> members d' = members d"
  unfolding same_content_def by (metis db.select_convs db.surjective db.update_convs)

lemma meta_rows_keys: "map fst (meta_rows ks d) = filter (\<lambda>k. meta d k \<noteq> None) ks"
  by (induction ks) (auto simp: meta_rows_def map_filter_simps split: option.split)

lemma meta_rows_value: "k \<in> set ks \<Longrightarrow> meta d k = Some v \<Longrightarrow> (k, v) \<in> set (meta_rows ks d)"
  by (induction ks) (auto simp: meta_rows_def map_filter_simps split: option.splits)

lemma preserved_keys_distinct: "distinct (map fst (preserved_meta hostId d))"
  by (cases hostId) (simp_all add: preserved_meta_def meta_rows_keys replica_meta_keys_def hostRecordSeqKey_def hostRecordHashKey_def)

lemma readMetadata_Inr: "readMetadata d = Inr m \<Longrightarrow> getEpoch d = sm_epoch m \<and> sm_seq m = max_seq d"
  by (auto simp: readMetadata_def Let_def meta_number_def getEpoch_def split: option.splits meta_value.splits if_splits)

lemma replica_takes_over_state_parts:
  assumes "getSnapshot w env actor key grant srv d = Inr reply"
    and "applyReplicaSnapshot w' env' n reply s = (Inr (e, q), s')"
    and "\<And>bytes. db_file env d = Some bytes \<Longrightarrow> open_db env' bytes = Some d"
  shows "db s' = d\<lparr>meta := meta (db s'), host_record_chains := host_record_chains (db s'),
                  spool_usage := spool_usage (db s')\<rparr>"
    and "getEpoch (db s') = e \<and> getEpoch d = e \<and> getEpoch (db s) \<le> e"
    and "max_seq (db s') = q \<and> max_seq d = q \<and> max_seq (db s) \<le> q"
    and "\<forall>k \<in> set replica_meta_keys. \<forall>v. meta (db s) k = Some v \<longrightarrow> meta (db s') k = Some v"
    and "\<not> writer s' \<and> sequences s' = (\<lambda>_. None) \<and> calls s' = []"
proof -
  obtain bytes where sent: "db_file env d = Some bytes" "sr_db reply = b64_encode bytes" "sr_seq reply = max_seq d"
    "meta_number d ''epoch'' = Some (sr_epoch reply)" by (rule snapshot_sent [OF assms(1)])
  obtain k s1 hostId m d' where ap: "authorityPublicKey (db s) = Inr k" "only_grants s s1" "\<not> writer s"
    "replaceEncryptedSnapshot (derive_key env') (fresh_key env') (open_db env') (b64_decode (sr_db reply))
          \<lparr>ex_server = server_id w', ex_authority = k, ex_min_epoch = Some (getEpoch (db s)),
            ex_min_seq = Some (max_seq (db s)), ex_exact_epoch = Some (sr_epoch reply), ex_exact_seq = Some (sr_seq reply)\<rparr>
          (preserved_meta hostId (db s1)) (preserved_rows hostId (db s1)) (db s1) = (Inr m, d')"
    "e = sm_epoch m" "q = sm_seq m" "s' = s1\<lparr>db := d', sequences := (\<lambda>_. None), calls := []\<rparr>"
    by (rule snapshot_applied [OF assms(2)])
  obtain d0 staged where inst: "open_db env' (b64_decode (sr_db reply)) = Some d0"
    "preserve_registrations (preserved_rows hostId (db s1)) (preserve_meta (preserved_meta hostId (db s1)) d0) = Inr staged"
    "d' = openAndMigrate (derive_key env') (fresh_key env') staged" "readMetadata d' = Inr m"
    and valid: "validateMetadata m \<lparr>ex_server = server_id w', ex_authority = k, ex_min_epoch = Some (getEpoch (db s)),
            ex_min_seq = Some (max_seq (db s)), ex_exact_epoch = Some (sr_epoch reply), ex_exact_seq = Some (sr_seq reply)\<rparr> = Inr m"
    by (rule replacement_installs [OF ap(4)])
  have "d0 = d" using inst(1) sent assms(3) [OF sent(1)] by (simp add: b64_decode_encode)
  moreover have "same_content d0 d'" unfolding inst(3)
    by (rule same_content_trans [OF same_content_trans [OF preserve_meta_content preserve_registrations_content [OF inst(2)]]
          openAndMigrate_content])
  ultimately have content: "same_content d d'" by simp
  then show "db s' = d\<lparr>meta := meta (db s'), host_record_chains := host_record_chains (db s'),
                  spool_usage := spool_usage (db s')\<rparr>" by (simp add: ap(7) same_content_def)
  note v = validateMetadata_Inr [OF valid]
  have "getEpoch d = sr_epoch reply"
    using sent(4) by (auto simp: meta_number_def getEpoch_def split: option.splits meta_value.splits)
  then show "getEpoch (db s') = e \<and> getEpoch d = e \<and> getEpoch (db s) \<le> e"
    using v readMetadata_Inr [OF inst(4)] by (simp add: ap(5,7))
  show "max_seq (db s') = q \<and> max_seq d = q \<and> max_seq (db s) \<le> q"
    using v readMetadata_Inr [OF inst(4)] sent(3) by (simp add: ap(6,7))
  show "\<not> writer s' \<and> sequences s' = (\<lambda>_. None) \<and> calls s' = []"
    using ap(3) by (simp add: ap(7) only_gr_simps [OF ap(2)])
  show "\<forall>k \<in> set replica_meta_keys. \<forall>v. meta (db s) k = Some v \<longrightarrow> meta (db s') k = Some v"
  proof (intro ballI allI impI)
    fix k v assume k: "k \<in> set replica_meta_keys" and "meta (db s) k = Some v"
    then have "meta (db s1) k = Some v" by (simp add: only_gr_simps [OF ap(2)])
    then have "(k, v) \<in> set (preserved_meta hostId (db s1))" using k by (simp add: preserved_meta_def meta_rows_value)
    then have "meta staged k = Some v"
      using preserve_registrations_frame [OF inst(2)] preserved_keys_distinct [of hostId "db s1"]
      by (simp add: meta_preserve_meta)
    moreover have "k \<noteq> ''server_key''" using k by (auto simp: replica_meta_keys_def)
    ultimately show "meta (db s') k = Some v" by (simp add: ap(7) inst(3) openAndMigrate_meta_keeps)
  qed
qed

text \<open>
  C27. A replica that installs a snapshot holds the primary's community: every table except the settings, the
  registration chain and the rebuilt usage counters is the primary's, epoch and operation sequence are the
  primary's and never behind the replica's own, the settings that make it a replica survive, its session state
  is cleared and it still does not write. SQLCipher is assumed to open the file it wrote as the same database.
\<close>

theorem replica_takes_over_state:
  assumes "getSnapshot w env actor key grant srv d = Inr reply"
    and "applyReplicaSnapshot w' env' n reply s = (Inr (e, q), s')"
    and "\<And>bytes. db_file env d = Some bytes \<Longrightarrow> open_db env' bytes = Some d"
  shows "db s' = d\<lparr>meta := meta (db s'), host_record_chains := host_record_chains (db s'),
                  spool_usage := spool_usage (db s')\<rparr>
    \<and> getEpoch (db s') = e \<and> getEpoch d = e \<and> getEpoch (db s) \<le> e
    \<and> max_seq (db s') = q \<and> max_seq d = q \<and> max_seq (db s) \<le> q
    \<and> (\<forall>k \<in> set replica_meta_keys. \<forall>v. meta (db s) k = Some v \<longrightarrow> meta (db s') k = Some v)
    \<and> \<not> writer s' \<and> sequences s' = (\<lambda>_. None) \<and> calls s' = []"
  using replica_takes_over_state_parts [OF assms] by (intro conjI) auto


lemma activeHostGrant_frame:
  "members d' = members d \<Longrightarrow> devices d' = devices d \<Longrightarrow> host_grants d' = host_grants d \<Longrightarrow>
   authorityPublicKey d' = authorityPublicKey d \<Longrightarrow> activeHostGrant w a k g cap d' = activeHostGrant w a k g cap d"
proof -
  assume h: "members d' = members d" "devices d' = devices d" "host_grants d' = host_grants d"
    "authorityPublicKey d' = authorityPublicKey d"
  then have "currentHostGeneration d' = currentHostGeneration d" "isMember d' = isMember d"
    "isAuthorizedDevice d' = isAuthorizedDevice d"
    by (simp_all add: fun_eq_iff currentHostGeneration_def isMember_def get_member_def isAuthorizedDevice_def)
  with h show "activeHostGrant w a k g cap d' = activeHostGrant w a k g cap d" by (simp only: activeHostGrant_def)
qed

lemma activeHostGrant_cap:
  "activeHostGrant w a k g cap d = Inr v \<Longrightarrow> cap' \<in> set (gp_caps (s_payload v)) \<Longrightarrow> activeHostGrant w a k g cap' d = Inr v"
  by (auto simp: activeHostGrant_def Let_def split: option.splits sum.splits if_splits)

definition primary_db :: db where "primary_db = set_meta ''server_id'' (MText ''srv'') grants_db"

definition sample_env :: replica_env where
  "sample_env = \<lparr>db_file = (\<lambda>d. if d = primary_db then Some (replicate 512 1) else None),
     open_db = (\<lambda>bs. if bs = replicate 512 1 then Some primary_db else None), derive_key = (\<lambda>k. k), fresh_key = ''00'',
     db_key = ''key'', seal_box = (\<lambda>r a p. \<lparr>bx_ephemeral = r, bx_nonce = [], bx_ciphertext = p, bx_tag = a\<rparr>),
     collation_key = (\<lambda>k. k)\<rparr>"

lemma primary_db_simps:
  "members primary_db = members grants_db" "devices primary_db = devices grants_db" "host_grants primary_db = host_grants grants_db"
  "authorityPublicKey primary_db = Inr (sample_key ''as'')" "op_log primary_db = []"
  "readMetadata primary_db = Inr \<lparr>sm_server = ''srv'', sm_authority = sample_key ''as'', sm_epoch = 0, sm_seq = 0\<rparr>"
  "assertEncrypted (replicate 512 1) = Inr ()"
proof -
  show "members primary_db = members grants_db" "devices primary_db = devices grants_db"
    "host_grants primary_db = host_grants grants_db" by (simp_all add: primary_db_def set_meta_def)
  show "authorityPublicKey primary_db = Inr (sample_key ''as'')"
    using grants_db_simps(3) by (simp add: primary_db_def set_meta_def authorityPublicKey_def)
  show log: "op_log primary_db = []" by (simp add: primary_db_def set_meta_def grants_db_def sample_db_def empty_db_def)
  have meta: "meta primary_db ''epoch'' = None" "meta primary_db ''server_id'' = Some (MText ''srv'')"
    "meta primary_db ''authority_public_key'' = Some (MText (sample_key ''as''))"
    by (simp_all add: primary_db_def set_meta_def grants_db_def sample_db_def)
  have "sample_key ''as'' \<noteq> []" by (simp add: sample_key_def)
  then show "readMetadata primary_db = Inr \<lparr>sm_server = ''srv'', sm_authority = sample_key ''as'', sm_epoch = 0, sm_seq = 0\<rparr>"
    using log by (simp add: readMetadata_def meta_number_def meta_text_def max_seq_def Let_def is_safe_integer_def meta)
  have "take 16 (replicate 512 1) \<noteq> sqlite_magic"
    by (auto simp: sqlite_magic_def dest: arg_cong [of _ _ hd])
  then show "assertEncrypted (replicate 512 1) = Inr ()" by (simp add: assertEncrypted_def)
qed

definition sample_reply :: snapshot_reply where
  "sample_reply = \<lparr>sr_db = b64_encode (replicate 512 1), sr_server = ''srv'', sr_authority = sample_key ''as'', sr_epoch = 0, sr_seq = 0\<rparr>"

lemma sample_snapshot_sent: "getSnapshot sample_world sample_env ''ann'' (sample_key ''ka'') ''g1'' ''srv'' primary_db = Inr sample_reply"
proof -
  have "activeHostGrant sample_world ''ann'' (sample_key ''ka'') ''g1'' Promote primary_db = Inr (sample_signed sample_grant ''as'')"
    using activeHostGrant_frame [of primary_db grants_db] sample_active by (simp add: primary_db_simps grants_db_simps(3))
  moreover have "Replicate \<in> set (gp_caps sample_grant)" by (simp add: sample_grant_def)
  moreover have "db_file sample_env primary_db = Some (replicate 512 1)" by (simp add: sample_env_def)
  ultimately show ?thesis
    using activeHostGrant_cap [of sample_world "''ann''" "sample_key ''ka''" "''g1''" Promote primary_db _ Replicate]
    by (simp add: getSnapshot_def consistentSnapshot_def primary_db_simps sample_reply_def)
qed

lemma readMetadata_cong:
  "meta d' ''server_id'' = meta d ''server_id'' \<Longrightarrow> meta d' ''authority_public_key'' = meta d ''authority_public_key'' \<Longrightarrow>
   meta d' ''epoch'' = meta d ''epoch'' \<Longrightarrow> max_seq d' = max_seq d \<Longrightarrow> readMetadata d' = readMetadata d"
  by (simp only: readMetadata_def meta_text_def meta_number_def)

lemma sample_installed: "fst (applyReplicaSnapshot sample_world sample_env ''n'' sample_reply replica_host) = Inr (0, 0)"
proof -
  have tables: "host_grants (db replica_host) = host_grants grants_db" "authorityPublicKey (db replica_host) = Inr (sample_key ''as'')"
    "op_log (db replica_host) = []" "host_record_chains (db replica_host) = []" "getEpoch (db replica_host) = 0"
    "\<not> writer replica_host"
    using grants_db_simps(3)
    by (simp_all add: replica_host_def set_meta_def authorityPublicKey_def)
      (simp_all add: grants_db_def sample_db_def empty_db_def getEpoch_def)
  have c: "currentHostGrant sample_world ''n'' replica_host = (Inr (''hs'', sample_signed sample_grant ''as''), replica_host)"
    by (rule sample_current_grant) (simp_all add: tables)
  let ?ex = "\<lparr>ex_server = ''srv'', ex_authority = sample_key ''as'', ex_min_epoch = Some 0,
            ex_min_seq = Some 0, ex_exact_epoch = Some 0, ex_exact_seq = Some 0\<rparr>"
  let ?ms = "preserved_meta (Some ''h1'') (db replica_host)"
  have keys: "map fst ?ms = filter (\<lambda>k. meta (db replica_host) k \<noteq> None)
      (replica_meta_keys @ [hostRecordSeqKey ''h1'', hostRecordHashKey ''h1''])"
    by (simp add: preserved_meta_def meta_rows_keys)
  have other: "map_of ?ms k = None" if "k \<in> {''server_id'', ''authority_public_key'', ''epoch'', ''server_key'', ''invite_hash_key''}" for k
    using that by (auto simp: map_of_eq_None_iff keys set_map [symmetric] replica_meta_keys_def hostRecordSeqKey_def
        hostRecordHashKey_def simp del: set_map)
  let ?d = "preserve_meta ?ms primary_db"
  have m: "meta ?d k = meta primary_db k" if "k \<in> {''server_id'', ''authority_public_key'', ''epoch'', ''server_key'', ''invite_hash_key''}" for k
    using other [OF that] preserved_keys_distinct by (simp add: meta_preserve_meta)
  have seq: "max_seq ?d = max_seq primary_db"
    using same_content_log [OF preserve_meta_content] by blast
  have rd: "readMetadata ?d = readMetadata primary_db" by (rule readMetadata_cong) (simp_all only: m seq insert_iff simp_thms)
  have auth: "meta ?d ''authority_public_key'' = Some (MText (sample_key ''as''))"
    by (subst m) (simp_all add: primary_db_def set_meta_def grants_db_def)
  let ?o = "openAndMigrate (\<lambda>k. k) ''00'' ?d"
  have "max_seq ?o = max_seq ?d" using same_content_log [OF openAndMigrate_content] by blast
  then have ro: "readMetadata ?o = readMetadata primary_db"
    unfolding rd [symmetric] by (intro readMetadata_cong) (simp_all add: meta_openAndMigrate auth)
  have "meta (db replica_host) ''replica_primary_host_id'' = Some (MText ''h0'')"
    by (simp add: replica_host_def set_meta_def)
  then have "(''replica_primary_host_id'', MText ''h0'') \<in> set ?ms"
    by (simp add: preserved_meta_def meta_rows_value replica_meta_keys_def)
  then have "?ms \<noteq> []" by auto
  moreover have "validateMetadata \<lparr>sm_server = ''srv'', sm_authority = sample_key ''as'', sm_epoch = 0, sm_seq = 0\<rparr> ?ex
      = Inr \<lparr>sm_server = ''srv'', sm_authority = sample_key ''as'', sm_epoch = 0, sm_seq = 0\<rparr>"
    by (simp add: validateMetadata_def differs_def)
  ultimately have "fst (replaceEncryptedSnapshot (\<lambda>k. k) ''00'' (open_db sample_env) (replicate 512 1) ?ex ?ms [] (db replica_host))
      = Inr \<lparr>sm_server = ''srv'', sm_authority = sample_key ''as'', sm_epoch = 0, sm_seq = 0\<rparr>"
    by (simp add: replaceEncryptedSnapshot_def stageAndValidate_def primary_db_simps validateEncryptedFile_def
        sample_env_def rd ro Let_def)
  moreover have "max_seq (db replica_host) = 0" by (simp add: max_seq_def tables)
  moreover have "gp_host sample_grant = ''h1''" by (simp add: sample_grant_def)
  ultimately show ?thesis
    by (cases "replaceEncryptedSnapshot (\<lambda>k. k) ''00'' (open_db sample_env) (replicate 512 1) ?ex ?ms [] (db replica_host)")
      (simp add: applyReplicaSnapshot_def sample_reply_def b64_decode_encode tables c Let_def preserved_rows_def host_rows_def
        sample_env_def)
qed

theorem replica_takes_over_state_witness:
  "members (db (snd (applyReplicaSnapshot sample_world sample_env ''n'' sample_reply replica_host))) = members grants_db"
proof -
  have run: "applyReplicaSnapshot sample_world sample_env ''n'' sample_reply replica_host
      = (Inr (0, 0), snd (applyReplicaSnapshot sample_world sample_env ''n'' sample_reply replica_host))"
    using sample_installed by (simp add: prod_eq_iff)
  have "open_db sample_env bytes = Some primary_db" if "db_file sample_env primary_db = Some bytes" for bytes
    using that by (auto simp: sample_env_def)
  from same_content_members [unfolded same_content_def, OF conjunct1 [OF replica_takes_over_state [OF sample_snapshot_sent run this]]]
  show ?thesis by (simp only: primary_db_simps)
qed

section \<open>One enrollment per grant generation\<close>

lemma finished_enrollment:
  assumes "finish_enrollment w env a proof t k v primary bytes s = (Inr sealed, s')"
  shows "se_transcript sealed = Some t \<and> se_version sealed = 2 \<and> se_algorithm sealed = ENROLLMENT_ALGORITHM
      \<and> base64url_bytes (et_recipient (s_payload t)) = 32 \<and> canonical_base64url (et_recipient (s_payload t))
      \<and> (\<exists>m. em_transcript m = s_payload t \<and> em_db m = b64_encode bytes \<and> em_db_key m = db_key env
             \<and> se_box sealed = seal_box env (et_recipient (s_payload t)) (canonicalJson (signed_json transcript_json t))
                                 (canonicalJson (material_json m)))
      \<and> \<not> has_row pf_id (po_id proof) (security_proofs (db s)) \<and> has_row pf_id (po_id proof) (security_proofs (db s'))
      \<and> (\<exists>r. replica_enrollments (db s') = replica_enrollments (db s) @ [r]
             \<and> en_grant r = et_grant (s_payload t) \<and> en_generation r = et_generation (s_payload t))"
proof -
  obtain d where d: "record_enrollment w (po_id proof) (s_payload t) (s_payload v) primary (db s) = Some d" "s' = s\<lparr>db := d\<rparr>"
    using assms by (auto simp: finish_enrollment_def split: sum.splits option.splits)
  obtain d1 where d1: "consumeSecurityProof w (po_id proof) ''replica-enroll'' (db s) = Some d1"
    using d(1) by (auto simp: record_enrollment_def split: option.splits)
  then have pf: "\<not> has_row pf_id (po_id proof) (security_proofs (db s))" "has_row pf_id (po_id proof) (security_proofs d1)"
    "replica_enrollments d1 = replica_enrollments (db s)"
    by (auto simp: consumeSecurityProof_def ins_row_def has_row_def split: if_splits)
  have "security_proofs d = security_proofs d1 \<and> (\<exists>r. replica_enrollments d = replica_enrollments d1 @ [r]
      \<and> en_grant r = et_grant (s_payload t) \<and> en_generation r = et_generation (s_payload t))"
    using d(1) d1 by (auto simp: record_enrollment_def ins_row_def persistWriterState_def set_meta_def split: option.splits if_splits)
  moreover have "se_transcript sealed = Some t \<and> se_version sealed = 2 \<and> se_algorithm sealed = ENROLLMENT_ALGORITHM
      \<and> base64url_bytes (et_recipient (s_payload t)) = 32 \<and> canonical_base64url (et_recipient (s_payload t))"
    using assms by (auto simp: finish_enrollment_def sealReplicaEnrollment_def Let_def split: if_splits option.splits)
  moreover have "\<exists>m. em_transcript m = s_payload t \<and> em_db m = b64_encode bytes \<and> em_db_key m = db_key env
             \<and> se_box sealed = seal_box env (et_recipient (s_payload t)) (canonicalJson (signed_json transcript_json t))
                                 (canonicalJson (material_json m))"
    using assms
    by (intro exI [of _ "\<lparr>em_transcript = s_payload t, em_authority_key = k, em_subject = a, em_grant = v,
         em_bridges = configuredBridgeAccess w, em_db = b64_encode bytes, em_db_key = db_key env\<rparr>"])
      (auto simp: finish_enrollment_def sealReplicaEnrollment_def Let_def split: if_splits option.splits)
  ultimately show ?thesis using pf by (simp add: d(2))
qed

lemma enrolled:
  assumes "enrollReplica w env n newId a key grantId proof s = (Inr sealed, s')"
  obtains v row seed s1 hostSeed and primary :: "grant_payload signed" and snap fp k t where
    "activeHostGrant w a key grantId Replicate (db s) = Inr v" and "get_row hg_id grantId (host_grants (db s)) = Some row"
    and "read_seed (authority_seed w) = Inr (Some seed)" and "only_grants s s1"
    and "\<forall>r \<in> set (replica_enrollments (db s)). en_grant r = grantId \<longrightarrow> en_generation r \<noteq> gp_generation (s_payload v)"
    and "consistentSnapshot env (db s1) = Inr snap"
    and "authorityFingerprint w (db s1) = Inr fp" and "authorityPublicKey (db s1) = Inr k"
    and "create_transcript w k seed (enrollment_transcript_of w env newId (hg_enroll_key row) fp grantId key
           (s_payload v) (s_payload primary) hostSeed snap) = Inr t"
    and "finish_enrollment w env a proof t (sm_authority (ss_metadata snap)) v (s_payload primary) (ss_file snap) s1
        = (Inr sealed, s')"
proof -
  obtain v where v: "writer s" "activeHostGrant w a key grantId Replicate (db s) = Inr v"
    using assms by (auto simp: enrollReplica_def split: if_splits sum.splits)
  obtain row where row: "get_row hg_id grantId (host_grants (db s)) = Some row"
    "verifyHostPossession w ''enroll'' v (hg_enroll_key row) proof"
    using assms v by (auto simp: enrollReplica_def split: if_splits option.splits)
  obtain seed where seed: "read_seed (authority_seed w) = Inr (Some seed)"
    using assms v row by (auto simp: enrollReplica_def split: sum.splits option.splits)
  let ?dup = "list_ex (\<lambda>r. en_grant r = grantId \<and> en_generation r = gp_generation (s_payload v)) (replica_enrollments (db s))"
  have dup: "\<not> ?dup" using assms v row seed by (auto simp: enrollReplica_def)
  obtain res s1 where c: "currentHostGrant w n s = (res, s1)" by force
  note only = currentHostGrant_only [OF c]
  note run = assms [unfolded enrollReplica_def v(2) row(1) seed c if_not_P [OF dup] sum.case option.case prod.case]
  obtain hostSeed primary where res: "res = Inr (hostSeed, primary)"
    using run v(1) row(2) by (cases res) auto
  obtain snap where snap: "consistentSnapshot env (db s1) = Inr snap"
    using run v(1) row(2) by (cases "consistentSnapshot env (db s1)") (simp_all add: res)
  obtain fp where fp: "authorityFingerprint w (db s1) = Inr fp"
    using run v(1) row(2) by (cases "authorityFingerprint w (db s1)") (simp_all add: res snap)
  obtain k where k: "authorityPublicKey (db s1) = Inr k"
    using run v(1) row(2) by (cases "authorityPublicKey (db s1)") (simp_all add: res snap fp)
  let ?t = "create_transcript w k seed (enrollment_transcript_of w env newId (hg_enroll_key row) fp grantId key
           (s_payload v) (s_payload primary) hostSeed snap)"
  obtain t where t: "?t = Inr t"
    using run v(1) row(2) by (cases ?t) (simp_all add: res snap fp k)
  have fin: "finish_enrollment w env a proof t (sm_authority (ss_metadata snap)) v (s_payload primary) (ss_file snap) s1
        = (Inr sealed, s')"
    using run v(1) row(2) by (simp add: res snap fp k t)
  have "\<forall>r \<in> set (replica_enrollments (db s)). en_grant r = grantId \<longrightarrow> en_generation r \<noteq> gp_generation (s_payload v)"
    using dup by (auto simp: list_ex_iff)
  from that [OF v(2) row(1) seed only this snap fp k t fin] show thesis .
qed

lemma transcript_of:
  assumes "create_transcript w k seed t = Inr v"
  shows "s_payload v = t \<and> s_key v = k
      \<and> signCanonicalPayload w seed ENROLLMENT_TRANSCRIPT_DOMAIN (transcript_json t) = Inr (s_signature v)"
  using assms by (auto simp: create_transcript_def split: sum.splits)

lemma active_generation:
  "activeHostGrant w a key g cap d = Inr v \<Longrightarrow> gp_generation (s_payload v) = currentHostGeneration d (gp_host (s_payload v))"
  by (auto simp: activeHostGrant_def Let_def split: option.splits sum.splits if_splits)

lemma active_payload:
  "activeHostGrant w a key g cap d = Inr v \<Longrightarrow> get_row hg_id g (host_grants d) = Some row \<Longrightarrow> s_payload v = hg_payload row"
  by (auto simp: activeHostGrant_def Let_def row_grant_def verifySignedHostGrant_def
      split: option.splits sum.splits if_splits)

lemma enrollment_once_per_generation_parts:
  assumes "enrollReplica w env n newId a key grantId proof s = (Inr sealed, s')"
    and "set (replica_enrollments (db s')) \<subseteq> set (replica_enrollments (db s2))"
    and "map_option hg_payload (get_row hg_id grantId (host_grants (db s2)))
       = map_option hg_payload (get_row hg_id grantId (host_grants (db s)))"
  shows "fst (enrollReplica w2 env2 n2 newId2 a2 key2 grantId proof2 s2) \<noteq> Inr sealed2"
    and "\<not> has_row pf_id (po_id proof) (security_proofs (db s)) \<and> has_row pf_id (po_id proof) (security_proofs (db s'))"
    and "\<exists>t row s1 file m. get_row hg_id grantId (host_grants (db s)) = Some row
       \<and> base64url_bytes (hg_enroll_key row) = 32 \<and> canonical_base64url (hg_enroll_key row)
       \<and> se_transcript sealed = Some t \<and> et_recipient (s_payload t) = hg_enroll_key row
       \<and> et_generation (s_payload t) = currentHostGeneration (db s) (et_replica_host (s_payload t))
       \<and> only_grants s s1 \<and> db_file env (db s1) = Some file \<and> et_snapshot (s_payload t) = chunk_sha256 w file
       \<and> em_transcript m = s_payload t \<and> em_db m = b64_encode file \<and> em_db_key m = db_key env
       \<and> se_box sealed = seal_box env (hg_enroll_key row) (canonicalJson (signed_json transcript_json t)) (canonicalJson (material_json m))"
proof -
  obtain v row and seed s1 hs and pr :: "grant_payload signed" and snap fp k t where e:
    "activeHostGrant w a key grantId Replicate (db s) = Inr v" "get_row hg_id grantId (host_grants (db s)) = Some row"
    "only_grants s s1"
    "create_transcript w k seed (enrollment_transcript_of w env newId (hg_enroll_key row) fp grantId key
           (s_payload v) (s_payload pr) hs snap) = Inr t"
    "finish_enrollment w env a proof t (sm_authority (ss_metadata snap)) v (s_payload pr) (ss_file snap) s1 = (Inr sealed, s')"
    "consistentSnapshot env (db s1) = Inr snap"
    by (rule enrolled [OF assms(1)])
  note f = finished_enrollment [OF e(5)] and t = transcript_of [OF e(4)]
  have fields: "et_grant (s_payload t) = grantId" "et_generation (s_payload t) = gp_generation (s_payload v)"
    "et_replica_host (s_payload t) = gp_host (s_payload v)" "et_recipient (s_payload t) = hg_enroll_key row"
    using t by (simp_all add: enrollment_transcript_of_def)
  obtain r where r: "r \<in> set (replica_enrollments (db s2))" "en_grant r = grantId" "en_generation r = gp_generation (s_payload v)"
    using f fields assms(2) by auto
  show "fst (enrollReplica w2 env2 n2 newId2 a2 key2 grantId proof2 s2) \<noteq> Inr sealed2"
  proof
    assume "fst (enrollReplica w2 env2 n2 newId2 a2 key2 grantId proof2 s2) = Inr sealed2"
    then have "enrollReplica w2 env2 n2 newId2 a2 key2 grantId proof2 s2
        = (Inr sealed2, snd (enrollReplica w2 env2 n2 newId2 a2 key2 grantId proof2 s2))" by (simp add: prod_eq_iff)
    then obtain v2 row2 where e2: "activeHostGrant w2 a2 key2 grantId Replicate (db s2) = Inr v2"
      "get_row hg_id grantId (host_grants (db s2)) = Some row2"
      "\<forall>r \<in> set (replica_enrollments (db s2)). en_grant r = grantId \<longrightarrow> en_generation r \<noteq> gp_generation (s_payload v2)"
      by (rule enrolled)
    have "s_payload v2 = s_payload v"
      using active_payload [OF e(1,2)] active_payload [OF e2(1,2)] assms(3) e(2) e2(2) by simp
    with e2(3) r show False by auto
  qed
  show "\<not> has_row pf_id (po_id proof) (security_proofs (db s)) \<and> has_row pf_id (po_id proof) (security_proofs (db s'))"
    using f by (simp add: only_gr_simps [OF e(3)])
  show "\<exists>t row s1 file m. get_row hg_id grantId (host_grants (db s)) = Some row
       \<and> base64url_bytes (hg_enroll_key row) = 32 \<and> canonical_base64url (hg_enroll_key row)
       \<and> se_transcript sealed = Some t \<and> et_recipient (s_payload t) = hg_enroll_key row
       \<and> et_generation (s_payload t) = currentHostGeneration (db s) (et_replica_host (s_payload t))
       \<and> only_grants s s1 \<and> db_file env (db s1) = Some file \<and> et_snapshot (s_payload t) = chunk_sha256 w file
       \<and> em_transcript m = s_payload t \<and> em_db m = b64_encode file \<and> em_db_key m = db_key env
       \<and> se_box sealed = seal_box env (hg_enroll_key row) (canonicalJson (signed_json transcript_json t)) (canonicalJson (material_json m))"
  proof -
    have df: "db_file env (db s1) = Some (ss_file snap)" using e(6) by (auto simp: consistentSnapshot_def split: sum.splits option.splits)
    have "et_snapshot (s_payload t) = chunk_sha256 w (ss_file snap)" using t by (simp add: enrollment_transcript_of_def)
    then show ?thesis
      using f fields e(2,3) active_generation [OF e(1)] df
      by (intro exI [of _ t] exI [of _ row] exI [of _ s1] exI [of _ "ss_file snap"]) auto
  qed
qed

text \<open>
  C28. A grant is enrolled once: after an enrollment succeeded, no other for the same grant does, whatever the
  caller, the time and the proof of possession, as long as the database keeps the enrollments and the signed
  payload of the grant. A success uses up its proof of possession, names the grant's current generation, and
  seals for the canonical 32 byte key the replica registered with its grant: the box holds the file of the host's
  database, with its key, and the signed transcript it is bound to names the recipient and the hash of that file.
\<close>

theorem enrollment_once_per_generation:
  assumes "enrollReplica w env n newId a key grantId proof s = (Inr sealed, s')"
    and "set (replica_enrollments (db s')) \<subseteq> set (replica_enrollments (db s2))"
    and "map_option hg_payload (get_row hg_id grantId (host_grants (db s2)))
       = map_option hg_payload (get_row hg_id grantId (host_grants (db s)))"
  shows "fst (enrollReplica w2 env2 n2 newId2 a2 key2 grantId proof2 s2) \<noteq> Inr sealed2
    \<and> \<not> has_row pf_id (po_id proof) (security_proofs (db s)) \<and> has_row pf_id (po_id proof) (security_proofs (db s'))
    \<and> (\<exists>t row s1 file m. get_row hg_id grantId (host_grants (db s)) = Some row
       \<and> base64url_bytes (hg_enroll_key row) = 32 \<and> canonical_base64url (hg_enroll_key row)
       \<and> se_transcript sealed = Some t \<and> et_recipient (s_payload t) = hg_enroll_key row
       \<and> et_generation (s_payload t) = currentHostGeneration (db s) (et_replica_host (s_payload t))
       \<and> only_grants s s1 \<and> db_file env (db s1) = Some file \<and> et_snapshot (s_payload t) = chunk_sha256 w file
       \<and> em_transcript m = s_payload t \<and> em_db m = b64_encode file \<and> em_db_key m = db_key env
       \<and> se_box sealed = seal_box env (hg_enroll_key row) (canonicalJson (signed_json transcript_json t)) (canonicalJson (material_json m)))"
  by (intro conjI enrollment_once_per_generation_parts [OF assms] conjunct1 [OF enrollment_once_per_generation_parts(2) [OF assms]]
      conjunct2 [OF enrollment_once_per_generation_parts(2) [OF assms]])


definition primary_host :: host where "primary_host = grants_host\<lparr>db := primary_db\<rparr>"

definition sample_proof :: possession_proof where
  "sample_proof = \<lparr>po_id = ''p1'', po_issued = 1000, po_signature = sample_signature\<rparr>"

lemma sample_domain_ok:
  "signature_domain_ok d \<Longrightarrow> PublicKeySchema k \<Longrightarrow> verifyCanonicalPayload sample_world k d v sample_signature"
  by (simp add: verifyCanonicalPayload_def signatureMessage_def schema_bytes)

lemma replica_domains: "signature_domain_ok HOST_POSSESSION_DOMAIN" "signature_domain_ok ENROLLMENT_TRANSCRIPT_DOMAIN"
  by (simp_all add: HOST_POSSESSION_DOMAIN_def ENROLLMENT_TRANSCRIPT_DOMAIN_def signature_domain_ok_def less_eq_char_def)

lemma sample_enrolls:
  "\<exists>sealed s'. enrollReplica sample_world sample_env ''n'' ''e1'' ''ann'' (sample_key ''ka'') ''g1'' sample_proof primary_host
     = (Inr sealed, s') \<and> host_grants (db s') = host_grants (db primary_host)"
proof -
  let ?row = "grant_row (sample_signed sample_grant ''as'') (sample_key ''ek'') 10 (Some 20)"
  let ?v = "sample_signed sample_grant ''as''"
  have db: "db primary_host = primary_db" "writer primary_host"
    by (simp_all add: primary_host_def grants_host_def sample_host_def)
  have "activeHostGrant sample_world ''ann'' (sample_key ''ka'') ''g1'' Promote primary_db = Inr ?v"
    using activeHostGrant_frame [of primary_db grants_db] sample_active by (simp add: primary_db_simps grants_db_simps(3))
  moreover have "Replicate \<in> set (gp_caps sample_grant)" by (simp add: sample_grant_def)
  ultimately have act: "activeHostGrant sample_world ''ann'' (sample_key ''ka'') ''g1'' Replicate primary_db = Inr ?v"
    using activeHostGrant_cap [of sample_world "''ann''" "sample_key ''ka''" "''g1''" Promote primary_db _ Replicate] by simp
  have row: "get_row hg_id ''g1'' (host_grants primary_db) = Some ?row"
    by (simp add: primary_db_simps grants_db_simps get_row_def grant_row_def Let_def) (simp add: sample_grant_def)
  have poss: "verifyHostPossession sample_world ''enroll'' ?v k sample_proof" for k
    using sample_domain_ok [OF replica_domains(1)] sample_signature_ok schema_bytes(2)
    by (simp add: verifyHostPossession_def proof_signed_def sample_proof_def is_safe_integer_def) (simp add: sample_grant_def)
  have seed: "read_seed (authority_seed sample_world) = Inr (Some ''as'')" by (simp add: sample_world_def read_seed_def)
  have empty: "replica_enrollments primary_db = []" "security_proofs primary_db = []"
    by (simp_all add: primary_db_def set_meta_def grants_db_def sample_db_def empty_db_def)
  have c: "currentHostGrant sample_world ''n'' primary_host = (Inr (''hs'', ?v), primary_host)"
    by (rule sample_current_grant) (simp_all add: db primary_db_simps)
  have snap: "consistentSnapshot sample_env primary_db = Inr \<lparr>ss_metadata =
      \<lparr>sm_server = ''srv'', sm_authority = sample_key ''as'', sm_epoch = 0, sm_seq = 0\<rparr>, ss_file = replicate 512 1\<rparr>"
    by (simp add: consistentSnapshot_def primary_db_simps) (simp add: sample_env_def primary_db_simps)
  have fp: "authorityFingerprint sample_world primary_db = Inr (fingerprint sample_world (sample_key ''as''))"
    by (simp add: authorityFingerprint_def primary_db_simps ed25519Fingerprint_def)
  have tr: "create_transcript sample_world (sample_key ''as'') ''as'' t
      = Inr \<lparr>s_payload = t, s_key = sample_key ''as'', s_signature = sample_signature\<rparr>" for t
    by (simp add: create_transcript_def signCanonicalPayload_def signatureMessage_def replica_domains)
  let ?t = "enrollment_transcript_of sample_world sample_env ''e1'' (hg_enroll_key ?row) (fingerprint sample_world (sample_key ''as''))
     ''g1'' (sample_key ''ka'') sample_grant sample_grant ''hs'' \<lparr>ss_metadata =
      \<lparr>sm_server = ''srv'', sm_authority = sample_key ''as'', sm_epoch = 0, sm_seq = 0\<rparr>, ss_file = replicate 512 1\<rparr>"
  have run: "enrollReplica sample_world sample_env ''n'' ''e1'' ''ann'' (sample_key ''ka'') ''g1'' sample_proof primary_host
     = finish_enrollment sample_world sample_env ''ann'' sample_proof
         \<lparr>s_payload = ?t, s_key = sample_key ''as'', s_signature = sample_signature\<rparr> (sample_key ''as'') ?v sample_grant
         (replicate 512 1) primary_host"
    by (simp add: enrollReplica_def db act row poss seed empty c snap fp tr primary_db_simps(4))
  have rec_ok: "et_recipient ?t = sample_key ''ek''" by (simp add: enrollment_transcript_of_def grant_row_def Let_def)
  have "\<exists>d. record_enrollment sample_world ''p1'' ?t sample_grant sample_grant primary_db = Some d \<and> host_grants d = host_grants primary_db"
    by (simp add: record_enrollment_def consumeSecurityProof_def ins_row_def empty has_row_def persistWriterState_def set_meta_def)
  moreover have "po_id sample_proof = ''p1''" by (simp add: sample_proof_def)
  ultimately show ?thesis
    unfolding run by (auto simp: finish_enrollment_def sealReplicaEnrollment_def rec_ok db Let_def)
qed

theorem enrollment_once_per_generation_witness:
  "\<exists>s'. \<forall>w2 env2 n2 newId2 a2 key2 proof2 sealed2.
     fst (enrollReplica w2 env2 n2 newId2 a2 key2 ''g1'' proof2 s') \<noteq> Inr sealed2"
proof -
  obtain sealed s' where e: "enrollReplica sample_world sample_env ''n'' ''e1'' ''ann'' (sample_key ''ka'') ''g1'' sample_proof
      primary_host = (Inr sealed, s')" "host_grants (db s') = host_grants (db primary_host)"
    using sample_enrolls by blast
  have "fst (enrollReplica w2 env2 n2 newId2 a2 key2 ''g1'' proof2 s') \<noteq> Inr sealed2"
    for w2 env2 n2 newId2 a2 key2 proof2 sealed2
    by (rule conjunct1 [OF enrollment_once_per_generation [OF e(1)]]) (simp_all add: e(2))
  then show ?thesis by blast
qed

end
