(* ===== verification/IceConfig.thy ===== *)
theory IceConfig
  imports Membership
begin

text \<open>
  ICE servers handed to call participants (\<open>packages/networking/src/index.ts\<close>: the temporary TURN
  credentials a bridge issues and the configurations built from them; \<open>connectivityIceConfig\<close> and
  the table \<open>bridgeIceConfigs\<close> of \<open>apps/janjanode/src/server.service.ts\<close>). The regular expressions
  are recognisers over the characters of the text; JSON that comes from outside is a value of type
  \<open>json\<close>.
\<close>

section \<open>STUN and TURN addresses\<close>

definition strip_prefix :: "string \<Rightarrow> string \<Rightarrow> string option" where
  "strip_prefix p s = (if take (length p) s = p then Some (drop (length p) s) else None)"

definition digit_char :: "char \<Rightarrow> bool" where
  "digit_char c \<longleftrightarrow> c \<in> set ''0123456789''"

definition ip_literal_char :: "char \<Rightarrow> bool" where
  "ip_literal_char c \<longleftrightarrow> c \<in> set ''0123456789abcdefABCDEF:.''"

definition host_name_char :: "char \<Rightarrow> bool" where
  "host_name_char c \<longleftrightarrow> c \<in> set ''ABCDEFGHIJKLMNOPQRSTUVWXYZabcdefghijklmnopqrstuvwxyz0123456789.-''"

text \<open>The host group: an address in brackets, or a name. No name character can begin what follows.\<close>

definition match_host :: "string \<Rightarrow> (string \<times> string) option" where
  "match_host s =
     (case strip_prefix ''['' s of
        Some r \<Rightarrow>
          (let a = takeWhile ip_literal_char r in
           case strip_prefix '']'' (dropWhile ip_literal_char r) of
             Some rest \<Rightarrow> if a = [] then None else Some (''['' @ a @ '']'', rest)
           | None \<Rightarrow> None)
      | None \<Rightarrow>
          (let n = takeWhile host_name_char s in
           if n = [] then None else Some (n, dropWhile host_name_char s)))"

text \<open>The optional port: one to five digits after a colon.\<close>

definition match_port :: "string \<Rightarrow> (string option \<times> string) option" where
  "match_port s =
     (case strip_prefix '':'' s of
        None \<Rightarrow> Some (None, s)
      | Some r \<Rightarrow>
          (let n = takeWhile digit_char r in
           if n = [] \<or> length n > 5 then None else Some (Some n, dropWhile digit_char r)))"

definition match_transport :: "string \<Rightarrow> string option option" where
  "match_transport s =
     (if s = [] then Some None
      else if s = ''?transport=udp'' then Some (Some ''udp'')
      else if s = ''?transport=tcp'' then Some (Some ''tcp'')
      else None)"

definition optional_slashes :: "string \<Rightarrow> string" where
  "optional_slashes s = (case strip_prefix ''//'' s of Some r \<Rightarrow> r | None \<Rightarrow> s)"

record turn_match =
  tm_scheme :: string
  tm_host :: string
  tm_port :: "string option"
  tm_transport :: "string option"

definition match_scheme :: "string \<Rightarrow> string \<Rightarrow> (string \<times> string) option" where
  "match_scheme base s =
     (case strip_prefix (base @ '':'') s of
        Some r \<Rightarrow> Some (base, r)
      | None \<Rightarrow> map_option (\<lambda>r. (base @ ''s'', r)) (strip_prefix (base @ ''s:'') s))"

definition TURN_URL :: "string \<Rightarrow> turn_match option" where
  "TURN_URL url =
     (case match_scheme ''turn'' url of
        None \<Rightarrow> None
      | Some (scheme, r) \<Rightarrow>
          (case match_host (optional_slashes r) of
             None \<Rightarrow> None
           | Some (h, r1) \<Rightarrow>
               (case match_port r1 of
                  None \<Rightarrow> None
                | Some (p, r2) \<Rightarrow>
                    (case match_transport r2 of
                       None \<Rightarrow> None
                     | Some t \<Rightarrow> Some \<lparr>tm_scheme = scheme, tm_host = h, tm_port = p, tm_transport = t\<rparr>))))"

definition STUN_URL :: "string \<Rightarrow> bool" where
  "STUN_URL url =
     (case match_scheme ''stun'' url of
        None \<Rightarrow> False
      | Some (_, r) \<Rightarrow>
          (case match_host (optional_slashes r) of
             None \<Rightarrow> False
           | Some (_, r1) \<Rightarrow> (case match_port r1 of None \<Rightarrow> False | Some (_, r2) \<Rightarrow> r2 = [])))"

section \<open>Temporary TURN credentials\<close>

record turn_credentials =
  tc_urls :: "string list"
  tc_username :: string
  tc_credential :: string
  tc_expires :: int

text \<open>The text of a JSON string between one and \<open>n\<close> characters.\<close>

definition bounded_text :: "nat \<Rightarrow> json option \<Rightarrow> string option" where
  "bounded_text n v = (case v of Some (JStr s) \<Rightarrow> if s = [] \<or> length s > n then None else Some s | _ \<Rightarrow> None)"

definition ice_url :: "json \<Rightarrow> string option" where
  "ice_url v = (case v of JStr s \<Rightarrow> if TURN_URL s = None \<and> \<not> STUN_URL s then None else Some s | _ \<Rightarrow> None)"

fun all_some :: "'a option list \<Rightarrow> 'a list option" where
  "all_some [] = Some []"
| "all_some (x # xs) = (case (x, all_some xs) of (Some y, Some ys) \<Rightarrow> Some (y # ys) | _ \<Rightarrow> None)"

definition parseTemporaryTurnCredentials :: "json \<Rightarrow> int \<Rightarrow> turn_credentials option" where
  "parseTemporaryTurnCredentials v t =
     (case v of
        JObj o1 \<Rightarrow>
          (case (obj_get ''urls'' o1, bounded_text 512 (obj_get ''username'' o1),
                 bounded_text 512 (obj_get ''credential'' o1), obj_get ''expiresAt'' o1) of
             (Some (JArr urls), Some user, Some cred, Some (JNum e)) \<Rightarrow>
               if urls = [] \<or> length urls > 8 \<or> obj_get ''credentialType'' o1 \<noteq> Some (JStr ''password'')
                  \<or> \<not> is_safe_integer e \<or> e \<le> t + 1000 then None
               else map_option (\<lambda>us. \<lparr>tc_urls = us, tc_username = user, tc_credential = cred, tc_expires = e\<rparr>)
                      (all_some (map ice_url urls))
           | _ \<Rightarrow> None)
      | _ \<Rightarrow> None)"

text \<open>The record as the value it is when it is validated again.\<close>

definition turn_json :: "turn_credentials \<Rightarrow> json" where
  "turn_json c = JObj
     [(''urls'', JArr (map JStr (tc_urls c))), (''username'', JStr (tc_username c)),
      (''credential'', JStr (tc_credential c)), (''credentialType'', JStr ''password''),
      (''expiresAt'', JNum (tc_expires c))]"

definition optional_turn :: "turn_credentials option \<Rightarrow> json" where
  "optional_turn c = (case c of None \<Rightarrow> JNull | Some x \<Rightarrow> turn_json x)"

section \<open>Server lists\<close>

datatype relay_type = TurnUdp | TurnTcp | TurnTls

record turn_server =
  ts_hostname :: string
  ts_port :: int
  ts_username :: string
  ts_password :: string
  ts_relay :: relay_type

text \<open>\<open>replace(/^\[|\]$/g, "")\<close>\<close>

definition drop_brackets :: "string \<Rightarrow> string" where
  "drop_brackets h =
     (let h1 = (case strip_prefix ''['' h of Some r \<Rightarrow> r | None \<Rightarrow> h)
      in if h1 \<noteq> [] \<and> last h1 = CHR '']'' then butlast h1 else h1)"

definition turn_server_of :: "turn_credentials \<Rightarrow> turn_match \<Rightarrow> turn_server option" where
  "turn_server_of c m =
     (let port = (case tm_port m of Some p \<Rightarrow> int (read_digits p)
                  | None \<Rightarrow> if tm_scheme m = ''turns'' then 5349 else 3478)
      in if port < 1 \<or> port > 65535 then None
         else Some \<lparr>ts_hostname = drop_brackets (tm_host m), ts_port = port, ts_username = tc_username c,
                    ts_password = tc_credential c,
                    ts_relay = (if tm_scheme m = ''turns'' then TurnTls
                                else if tm_transport m = Some ''tcp'' then TurnTcp else TurnUdp)\<rparr>)"

text \<open>The loop over the addresses: one that cannot be used empties the whole list.\<close>

fun turn_servers :: "turn_credentials \<Rightarrow> string list \<Rightarrow> turn_server list option" where
  "turn_servers c [] = Some []"
| "turn_servers c (u # us) =
     (if STUN_URL u then turn_servers c us
      else case TURN_URL u of
          None \<Rightarrow> None
        | Some m \<Rightarrow>
            (case (turn_server_of c m, turn_servers c us) of
               (Some x, Some xs) \<Rightarrow> Some (x # xs)
             | _ \<Rightarrow> None))"

definition temporaryTurnIceServers :: "json \<Rightarrow> int \<Rightarrow> turn_server list" where
  "temporaryTurnIceServers v t =
     (case parseTemporaryTurnCredentials v t of
        None \<Rightarrow> []
      | Some c \<Rightarrow> (case turn_servers c (tc_urls c) of None \<Rightarrow> [] | Some xs \<Rightarrow> xs))"

datatype base_server = BaseUrl string | BaseHost string int

text \<open>The characters \<open>\s\<close> matches among the first 256.\<close>

definition white_char :: "char \<Rightarrow> bool" where
  "white_char c \<longleftrightarrow> (of_char c :: nat) \<in> {9, 10, 11, 12, 13, 32, 160}"

text \<open>ASCII case folding: \<open>toLowerCase\<close> on the letters that matter.\<close>

definition lower_char :: "char \<Rightarrow> char" where
  "lower_char c = (if 65 \<le> (of_char c :: nat) \<and> (of_char c :: nat) \<le> 90 then char_of ((of_char c :: nat) + 32) else c)"

text \<open>\<open>/^stuns?:[^\s]+$/i\<close>\<close>

definition base_stun_text :: "string \<Rightarrow> bool" where
  "base_stun_text s \<longleftrightarrow>
     (map lower_char (take 5 s) = ''stun:'' \<and> length s > 5 \<and> list_all (\<lambda>c. \<not> white_char c) (drop 5 s))
     \<or> (map lower_char (take 6 s) = ''stuns:'' \<and> length s > 6 \<and> list_all (\<lambda>c. \<not> white_char c) (drop 6 s))"

definition json_truthy :: "json option \<Rightarrow> bool" where
  "json_truthy v =
     (case v of None \<Rightarrow> False | Some JNull \<Rightarrow> False | Some (JBool b) \<Rightarrow> b | Some (JNum n) \<Rightarrow> n \<noteq> 0
      | Some (JStr s) \<Rightarrow> s \<noteq> [] | Some (JArr _) \<Rightarrow> True | Some (JObj _) \<Rightarrow> True)"

definition base_server_of :: "json \<Rightarrow> base_server option" where
  "base_server_of v =
     (case v of
        JStr s \<Rightarrow> if base_stun_text s then Some (BaseUrl s) else None
      | JObj o1 \<Rightarrow>
          (case (obj_get ''hostname'' o1, obj_get ''port'' o1) of
             (Some (JStr h), Some (JNum p)) \<Rightarrow>
               if p < 1 \<or> p > 65535 \<or> json_truthy (obj_get ''relayType'' o1) \<or> json_truthy (obj_get ''username'' o1)
                  \<or> json_truthy (obj_get ''password'' o1) then None
               else Some (BaseHost h p)
           | _ \<Rightarrow> None)
      | _ \<Rightarrow> None)"

definition baseIceServers :: "json list \<Rightarrow> exn + base_server list" where
  "baseIceServers vs =
     (case all_some (map base_server_of vs) of
        None \<Rightarrow> Inl (AppError ''base ICE servers'')
      | Some bs \<Rightarrow> Inr bs)"

datatype network_privacy = Direct | RelayOnly

datatype ice_server = IceBase base_server | IceStun string | IceTurn turn_server

definition iceServerConfiguration ::
    "json list \<Rightarrow> json \<Rightarrow> network_privacy \<Rightarrow> int \<Rightarrow> exn + (ice_server list \<times> bool)" where
  "iceServerConfiguration base credentials policy t =
     (let temporary = temporaryTurnIceServers credentials t;
          issuedStun = (case parseTemporaryTurnCredentials credentials t of
                          None \<Rightarrow> [] | Some c \<Rightarrow> filter STUN_URL (tc_urls c)) in
      if policy = RelayOnly then
        (if temporary = [] then Inl (AppError ''relay-only'') else Inr (map IceTurn temporary, True))
      else
        (case baseIceServers base of
           Inl e \<Rightarrow> Inl e
         | Inr bs \<Rightarrow> Inr (map IceBase bs @ map IceStun issuedStun @ map IceTurn temporary, False)))"

text \<open>
  What a browser gets: an address without credentials, or the TURN addresses with theirs; whether
  the transport policy is \<open>relay\<close>; when the credentials expire.
\<close>

datatype rtc_server = RtcStun string | RtcTurn "string list" string string

record rtc_configuration =
  rtc_servers :: "rtc_server list"
  rtc_relay :: bool
  rtc_expires :: "int option"

fun browser_base :: "base_server \<Rightarrow> rtc_server" where
  "browser_base (BaseUrl u) = RtcStun u"
| "browser_base (BaseHost h p) =
     RtcStun (''stun:'' @ (if CHR '':'' \<in> set h then ''['' @ h @ '']'' else h) @ '':'' @ show_int p)"

definition browserRtcIceConfiguration ::
    "json list \<Rightarrow> json \<Rightarrow> network_privacy \<Rightarrow> int \<Rightarrow> exn + rtc_configuration" where
  "browserRtcIceConfiguration base credentials policy t =
     (let parsed = parseTemporaryTurnCredentials credentials t;
          turnUrls = (case parsed of None \<Rightarrow> [] | Some c \<Rightarrow> filter (\<lambda>u. TURN_URL u \<noteq> None) (tc_urls c));
          issuedStun = (case parsed of None \<Rightarrow> [] | Some c \<Rightarrow> map RtcStun (filter STUN_URL (tc_urls c)));
          turn = (case parsed of
                    None \<Rightarrow> []
                  | Some c \<Rightarrow> if turnUrls = [] then [] else [RtcTurn turnUrls (tc_username c) (tc_credential c)]) in
      if policy = RelayOnly \<and> turnUrls = [] then Inl (AppError ''relay-only'')
      else case (if policy = RelayOnly then Inr [] else baseIceServers base) of
          Inl e \<Rightarrow> Inl e
        | Inr bs \<Rightarrow>
            Inr \<lparr>rtc_servers = map browser_base bs @ (if policy = RelayOnly then [] else issuedStun) @ turn,
                 rtc_relay = (policy = RelayOnly), rtc_expires = map_option tc_expires parsed\<rparr>)"

section \<open>The host's answer\<close>

text \<open>\<open>JC_ICE_SERVERS\<close>: \<open>None\<close> when its text is no JSON. A list with a server that is not plain STUN counts as empty.\<close>

definition configuredBaseStunServers :: "json option \<Rightarrow> int \<Rightarrow> json list" where
  "configuredBaseStunServers v t =
     (case v of
        Some (JArr vs) \<Rightarrow> if is_ok (browserRtcIceConfiguration vs JNull Direct t) then vs else []
      | _ \<Rightarrow> [])"

type_synonym ice_table = "(string \<times> turn_credentials) list"

definition upsertBridgeIceConfig :: "string \<Rightarrow> json \<Rightarrow> int \<Rightarrow> ice_table \<Rightarrow> bool \<times> ice_table" where
  "upsertBridgeIceConfig source v t m =
     (case parseTemporaryTurnCredentials v t of
        None \<Rightarrow> (False, m)
      | Some c \<Rightarrow> (True, map_set source c m))"

definition removeBridgeIceConfig :: "string \<Rightarrow> ice_table \<Rightarrow> ice_table" where
  "removeBridgeIceConfig source m = filter (\<lambda>(k, _). k \<noteq> source) m"

definition connectivityIceConfig ::
    "world \<Rightarrow> json option \<Rightarrow> string \<Rightarrow> db \<Rightarrow> ice_table \<Rightarrow> rtc_configuration result \<times> ice_table" where
  "connectivityIceConfig w iceServers actorId d m =
     (if get_member d actorId = None then (Inl (Fail Forbidden), m)
      else
        let policy = (if obj_get ''networkPrivacy'' (getConfig d) = Some (JStr ''relay'') then RelayOnly else Direct);
            m1 = filter (\<lambda>(_, c). \<not> tc_expires c \<le> now w) m;
            configs = sort_key (\<lambda>c. - tc_expires c) (map snd m1);
            best = (case configs of [] \<Rightarrow> None | c # _ \<Rightarrow> Some c) in
        if configs = [] \<and> policy = RelayOnly then (Inl (Fail Host_offline), m1)
        else case browserRtcIceConfiguration (configuredBaseStunServers iceServers (now w)) (optional_turn best) policy (now w) of
            Inl _ \<Rightarrow> (Inl (Fail Host_offline), m1)
          | Inr c \<Rightarrow> (Inr c, m1))"

section \<open>Lemmas\<close>

lemma all_some_Some: "all_some xs = Some ys \<longleftrightarrow> xs = map Some ys"
proof (induction xs arbitrary: ys)
  case (Cons x xs)
  show ?case
  proof (cases "all_some xs")
    case None
    then have "xs \<noteq> map Some zs" for zs using Cons.IH [of zs] by simp
    then show ?thesis using None by (cases ys) (auto split: option.split)
  next
    case (Some zs)
    then show ?thesis using Cons.IH [of zs] by (cases ys; cases x) auto
  qed
qed auto

lemma all_some_map: "all_some (map f xs) = Some ys \<longleftrightarrow> map f xs = map Some ys"
  by (rule all_some_Some)

lemma ice_url_Some: "ice_url v = Some s \<longleftrightarrow> v = JStr s \<and> (TURN_URL s \<noteq> None \<or> STUN_URL s)"
  by (cases v) (auto simp: ice_url_def)

lemma ice_urls_given: "map ice_url vs = map Some us \<Longrightarrow> vs = map JStr us"
proof (induction vs arbitrary: us)
  case (Cons v vs)
  then show ?case by (cases us) (auto simp: ice_url_Some)
qed simp

text \<open>What validation guarantees of credentials, and what it depends on.\<close>

definition turn_ok :: "int \<Rightarrow> turn_credentials \<Rightarrow> bool" where
  "turn_ok t c \<longleftrightarrow>
     tc_urls c \<noteq> [] \<and> length (tc_urls c) \<le> 8 \<and> (\<forall>u \<in> set (tc_urls c). TURN_URL u \<noteq> None \<or> STUN_URL u)
     \<and> tc_username c \<noteq> [] \<and> length (tc_username c) \<le> 512 \<and> tc_credential c \<noteq> [] \<and> length (tc_credential c) \<le> 512
     \<and> is_safe_integer (tc_expires c) \<and> t + 1000 < tc_expires c"

lemma bounded_text_Some: "bounded_text n v = Some s \<longleftrightarrow> v = Some (JStr s) \<and> s \<noteq> [] \<and> length s \<le> n"
  by (auto simp: bounded_text_def split: option.split json.split)

lemma parse_turn_ok: "parseTemporaryTurnCredentials v t = Some c \<Longrightarrow> turn_ok t c"
proof -
  assume p: "parseTemporaryTurnCredentials v t = Some c"
  then obtain o1 urls user cred e us where
      *: "bounded_text 512 (obj_get ''username'' o1) = Some user" "bounded_text 512 (obj_get ''credential'' o1) = Some cred"
         "urls \<noteq> []" "length urls \<le> 8" "is_safe_integer e" "\<not> e \<le> t + 1000" "all_some (map ice_url urls) = Some us"
         "c = \<lparr>tc_urls = us, tc_username = user, tc_credential = cred, tc_expires = e\<rparr>"
    by (auto simp: parseTemporaryTurnCredentials_def split: json.splits option.splits if_splits)
  from *(7) have u: "map ice_url urls = map Some us" by (simp add: all_some_Some)
  then have "length us = length urls" by (metis length_map)
  moreover have "TURN_URL x \<noteq> None \<or> STUN_URL x" if "x \<in> set us" for x
  proof -
    have "Some x \<in> ice_url ` set urls" using that u by (metis imageI set_map)
    then show ?thesis by (metis ice_url_Some imageE)
  qed
  ultimately show ?thesis using * by (auto simp: turn_ok_def bounded_text_Some)
qed

lemma parse_turn_json: "parseTemporaryTurnCredentials (turn_json c) t = (if turn_ok t c then Some c else None)"
proof -
  have "all_some (map ice_url (map JStr us)) = (if \<forall>u \<in> set us. TURN_URL u \<noteq> None \<or> STUN_URL u then Some us else None)" for us
    by (induction us) (auto simp: ice_url_def)
  then show ?thesis
    by (cases c) (auto simp: parseTemporaryTurnCredentials_def turn_json_def turn_ok_def obj_get_def bounded_text_def)
qed

lemma parse_optional: "parseTemporaryTurnCredentials (optional_turn c) t = (case c of None \<Rightarrow> None | Some x \<Rightarrow> if turn_ok t x then Some x else None)"
proof (cases c)
  case None
  then show ?thesis by (simp add: optional_turn_def parseTemporaryTurnCredentials_def)
next
  case (Some x)
  then show ?thesis by (simp add: optional_turn_def parse_turn_json)
qed

definition turn_urls :: "turn_credentials \<Rightarrow> string list" where
  "turn_urls c = filter (\<lambda>u. TURN_URL u \<noteq> None) (tc_urls c)"

lemma browser_relay:
  "browserRtcIceConfiguration base (optional_turn c) RelayOnly t =
     (case c of
        None \<Rightarrow> Inl (AppError ''relay-only'')
      | Some x \<Rightarrow>
          if turn_ok t x \<and> turn_urls x \<noteq> []
          then Inr \<lparr>rtc_servers = [RtcTurn (turn_urls x) (tc_username x) (tc_credential x)], rtc_relay = True,
                    rtc_expires = Some (tc_expires x)\<rparr>
          else Inl (AppError ''relay-only''))"
  by (auto simp: browserRtcIceConfiguration_def parse_optional turn_urls_def split: option.split)

text \<open>The configuration handed out never mixes: one list for relaying, one for direct connections.\<close>

definition relay_policy :: "db \<Rightarrow> bool" where
  "relay_policy d \<longleftrightarrow> obj_get ''networkPrivacy'' (getConfig d) = Some (JStr ''relay'')"

lemma hd_sort_best:
  assumes "sort_key (\<lambda>c. - tc_expires c) cs = c # rest" shows "c \<in> set cs \<and> (\<forall>x \<in> set cs. tc_expires x \<le> tc_expires c)"
proof -
  have s: "set (c # rest) = set cs" using assms by (metis set_sort)
  have "sorted (map (\<lambda>c. - tc_expires c) (c # rest))" using assms by (metis sorted_sort_key)
  then have "\<forall>x \<in> set rest. tc_expires x \<le> tc_expires c" by auto
  with s show ?thesis by auto
qed

lemma connectivityIceConfig_relay:
  assumes "relay_policy d" and run: "connectivityIceConfig w env x d m = (Inr cfg, m')"
  obtains c where "c \<in> snd ` set m" "turn_ok (now w) c" "turn_urls c \<noteq> []"
      "rtc_servers cfg = [RtcTurn (turn_urls c) (tc_username c) (tc_credential c)]" "rtc_relay cfg"
      "rtc_expires cfg = Some (tc_expires c)" "\<And>y. y \<in> snd ` set m \<Longrightarrow> tc_expires y \<le> tc_expires c"
proof -
  define live where "live = map snd (filter (\<lambda>(_, c). \<not> tc_expires c \<le> now w) m)"
  define configs where "configs = sort_key (\<lambda>c. - tc_expires c) live"
  have "configs \<noteq> []"
    using assms by (auto simp: connectivityIceConfig_def relay_policy_def Let_def configs_def live_def split: if_splits)
  then obtain c rest where cs: "configs = c # rest" by (cases configs) auto
  from run have b: "browserRtcIceConfiguration (configuredBaseStunServers env (now w)) (optional_turn (Some c)) RelayOnly (now w) = Inr cfg"
    using assms(1) cs
    by (auto simp: connectivityIceConfig_def relay_policy_def Let_def configs_def live_def split: if_splits sum.splits)
  have best: "c \<in> set live" "\<And>y. y \<in> set live \<Longrightarrow> tc_expires y \<le> tc_expires c"
    using hd_sort_best [OF cs [unfolded configs_def]] by auto
  have c_live: "now w < tc_expires c" using best(1) by (auto simp: live_def)
  show ?thesis
  proof (rule that)
    show "c \<in> snd ` set m" using best(1) by (force simp: live_def)
    fix y assume y: "y \<in> snd ` set m"
    show "tc_expires y \<le> tc_expires c"
    proof (cases "tc_expires y \<le> now w")
      case True then show ?thesis using c_live by linarith
    next
      case False
      then have "y \<in> set live" using y by (force simp: live_def)
      then show ?thesis by (rule best(2))
    qed
  qed (use b in \<open>auto simp: browser_relay split: if_splits\<close>)
qed

section \<open>Properties\<close>

lemma relay_community_parts:
  assumes "relay_policy d" and "connectivityIceConfig w env x d m = (Inr cfg, m')"
  shows "\<exists>c. c \<in> snd ` set m \<and> rtc_servers cfg = [RtcTurn (turn_urls c) (tc_username c) (tc_credential c)]
             \<and> turn_urls c \<noteq> [] \<and> now w + 1000 < tc_expires c \<and> rtc_expires cfg = Some (tc_expires c)"
    and "rtc_relay cfg"
  using connectivityIceConfig_relay [OF assms] unfolding turn_ok_def by (metis (no_types))+

text \<open>
  In a community whose configuration says \<open>relay\<close>, the ICE configuration a member receives is relay-only
  and contains nothing but the TURN addresses of one of the bridges' credentials that is still valid for more than a
  second: no STUN server and no configured base server leaks into it, whatever the environment variable says.
\<close>

theorem relay_community_only_turn:
  assumes "obj_get ''networkPrivacy'' (getConfig d) = Some (JStr ''relay'')"
    and "connectivityIceConfig w env x d m = (Inr cfg, m')"
  shows "rtc_relay cfg
    \<and> (\<exists>c. c \<in> snd ` set m \<and> rtc_servers cfg = [RtcTurn (turn_urls c) (tc_username c) (tc_credential c)]
          \<and> turn_urls c \<noteq> [] \<and> now w + 1000 < tc_expires c \<and> rtc_expires cfg = Some (tc_expires c))"
  using relay_community_parts [OF assms(1) [folded relay_policy_def] assms(2)] by simp

definition sample_turn :: turn_credentials where
  "sample_turn = \<lparr>tc_urls = [''stun:s.example:3478'', ''turn:t.example:3478?transport=udp''], tc_username = ''u'',
                  tc_credential = ''p'', tc_expires = 9000\<rparr>"

lemma sample_turn_urls: "turn_urls sample_turn = [''turn:t.example:3478?transport=udp'']"
  by code_simp

lemma sample_turn_ok: "turn_ok t sample_turn \<longleftrightarrow> t < 8000"
proof -
  have "STUN_URL ''stun:s.example:3478''" "TURN_URL ''turn:t.example:3478?transport=udp'' \<noteq> None" by code_simp+
  then show ?thesis by (auto simp: turn_ok_def sample_turn_def is_safe_integer_def)
qed

definition relay_db :: db where
  "relay_db = sample_db\<lparr>meta := (meta sample_db)(''config'' \<mapsto> MJson (JObj [(''networkPrivacy'', JStr ''relay'')]))\<rparr>"

definition relay_answer :: rtc_configuration where
  "relay_answer = \<lparr>rtc_servers = [RtcTurn (turn_urls sample_turn) ''u'' ''p''], rtc_relay = True, rtc_expires = Some 9000\<rparr>"

lemma relay_db_answer:
  "connectivityIceConfig sample_world None ''bob'' relay_db [(''wss://b'', sample_turn)] = (Inr relay_answer, [(''wss://b'', sample_turn)])"
proof -
  have m: "get_member relay_db ''bob'' = Some (sample_member ''bob'' ''role-admin'')"
    using sample_lookups(2) by (simp add: relay_db_def get_member_def)
  have p: "obj_get ''networkPrivacy'' (getConfig relay_db) = Some (JStr ''relay'')"
    by (simp add: relay_db_def getConfig_def obj_get_def)
  have n: "now sample_world = 1000" by (simp add: sample_world_def)
  show ?thesis
    by (simp add: connectivityIceConfig_def m p n browser_relay sample_turn_ok sample_turn_urls)
      (simp add: relay_answer_def sample_turn_def sample_turn_urls [unfolded sample_turn_def])
qed

theorem relay_community_only_turn_witness:
  "rtc_relay relay_answer \<and> rtc_servers relay_answer = [RtcTurn [''turn:t.example:3478?transport=udp''] ''u'' ''p'']
   \<and> (\<exists>c. c \<in> snd ` set [(''wss://b'', sample_turn)] \<and> rtc_expires relay_answer = Some (tc_expires c))"
proof -
  have "obj_get ''networkPrivacy'' (getConfig relay_db) = Some (JStr ''relay'')"
    by (simp add: relay_db_def getConfig_def obj_get_def)
  from relay_community_only_turn [OF this relay_db_answer] show ?thesis
    by (auto simp: relay_answer_def sample_turn_urls)
qed

end
