(* ===== verification/Commands.thy ===== *)
theory Commands
  imports IceConfig Transfers Replication
begin

text \<open>
  The commands a client may send (\<open>packages/schemas/src/commands.ts\<close>) and the message envelope
  (\<open>packages/schemas/src/envelope.ts\<close>). A value that has not the shape of a command (no such type, a
  field of another type) is no \<open>host_command\<close>; what the schema checks beyond the shape is a predicate, and
  \<open>HostCommandSchema\<close> returns the command with its defaults and transformations applied. Fields of the
  envelope nothing in the host depends on are not in the record.
\<close>

section \<open>Texts\<close>

text \<open>\<open>new TextEncoder().encode(value).byteLength\<close> on the first 256 code points.\<close>

definition utf8ByteLength :: "string \<Rightarrow> nat" where
  "utf8ByteLength s = sum_list (map (\<lambda>c. if (of_char c :: nat) < 128 then 1 else 2) s)"

text \<open>\<open>trim()\<close>\<close>

definition trim :: "string \<Rightarrow> string" where
  "trim s = rev (dropWhile white_char (rev (dropWhile white_char s)))"

definition opt_ok :: "('a \<Rightarrow> bool) \<Rightarrow> 'a option \<Rightarrow> bool" where
  "opt_ok P v = (case v of None \<Rightarrow> True | Some x \<Rightarrow> P x)"

definition int_between :: "int \<Rightarrow> int \<Rightarrow> int \<Rightarrow> bool" where
  "int_between lo hi n \<longleftrightarrow> is_safe_integer n \<and> lo \<le> n \<and> n \<le> hi"

definition HostPossessionProofSchema :: "'z crypto_scheme \<Rightarrow> possession_proof \<Rightarrow> bool" where
  "HostPossessionProofSchema c p \<longleftrightarrow>
     is_uuid c (po_id p) \<and> timestampSchema (po_issued p) \<and> SignatureSchema (po_signature p)"

section \<open>Attachments\<close>

definition AttachmentHashSchema :: "string \<Rightarrow> bool" where
  "AttachmentHashSchema s = Hex64Schema s"

definition AttachmentChunkDataSchema :: "string \<Rightarrow> bool" where
  "AttachmentChunkDataSchema s \<longleftrightarrow>
     4 \<le> length s \<and> int (length s) \<le> MAX_ATTACHMENT_CHUNK_BASE64_CHARS
     \<and> (case canonicalBase64DecodedLength s of
           None \<Rightarrow> False
         | Some n \<Rightarrow> 1 \<le> n \<and> int n \<le> ATTACHMENT_CHUNK_BYTES)"

section \<open>Envelopes\<close>

definition PROTOCOL_VERSION :: int where "PROTOCOL_VERSION = 1"

definition base64Schema :: "string \<Rightarrow> bool" where
  "base64Schema s \<longleftrightarrow> canonicalBase64DecodedLength s \<noteq> None"

definition AttachmentRefSchema :: "'z crypto_scheme \<Rightarrow> attachment_ref \<Rightarrow> bool" where
  "AttachmentRefSchema c a \<longleftrightarrow>
     is_uuid c (ar_asset a) \<and> length (ar_name a) \<le> 255 \<and> length (ar_mime a) \<le> 128
     \<and> int_between 1 MAX_ATTACHMENT_PLAINTEXT_BYTES (ar_size a) \<and> int_between 1 MAX_ATTACHMENT_CHUNKS (ar_chunks a)
     \<and> Hex64Schema (ar_hash a)"

definition audience_members_ok :: "string list \<Rightarrow> bool" where
  "audience_members_ok ms \<longleftrightarrow>
     list_all (text_between 1 128) ms \<and> 1 \<le> length ms \<and> length ms \<le> 1024 \<and> length (remdups ms) = length ms"

definition AUDIENCE_COMMITMENT_ALGO :: string where "AUDIENCE_COMMITMENT_ALGO = ''sha256''"

definition AudienceSnapshotSchema :: "string \<Rightarrow> string \<Rightarrow> string list \<Rightarrow> bool" where
  "AudienceSnapshotSchema algo commitment ms \<longleftrightarrow>
     algo = AUDIENCE_COMMITMENT_ALGO \<and> Hex64Schema commitment \<and> audience_members_ok ms"

definition OrderingSchema :: "'z crypto_scheme \<Rightarrow> int \<Rightarrow> string option \<Rightarrow> bool" where
  "OrderingSchema c n prev \<longleftrightarrow> timestampSchema n \<and> opt_ok (is_uuid c) prev"

definition MessageEnvelopeSchema :: "'z crypto_scheme \<Rightarrow> envelope \<Rightarrow> bool" where
  "MessageEnvelopeSchema c e \<longleftrightarrow>
     e_version e = PROTOCOL_VERSION \<and> is_uuid c (e_message e) \<and> is_uuid c (e_server e) \<and> is_uuid c (e_channel e)
     \<and> text_between 1 128 (e_sender e)
     \<and> timestampSchema (e_epoch e) \<and> AudienceSnapshotSchema (e_algo e) (e_commitment e) (e_members e)
     \<and> base64Schema (e_ciphertext e) \<and> list_all (AttachmentRefSchema c) (e_attachments e)
     \<and> OrderingSchema c (e_seq e) (e_prev e) \<and> timestampSchema (e_created e) \<and> opt_ok timestampSchema (e_expires e)"

section \<open>Call signals\<close>

definition MAX_CALL_SDP_BYTES :: nat where "MAX_CALL_SDP_BYTES = 48 * 1024"
definition MAX_CALL_ICE_CANDIDATE_BYTES :: nat where "MAX_CALL_ICE_CANDIDATE_BYTES = 4 * 1024"
definition MAX_CALL_ICE_CANDIDATE_JSON_BYTES :: nat where "MAX_CALL_ICE_CANDIDATE_JSON_BYTES = 8 * 1024"
definition MAX_CALL_SDP_MID_LENGTH :: nat where "MAX_CALL_SDP_MID_LENGTH = 64"
definition MAX_CALL_SDP_MLINE_INDEX :: int where "MAX_CALL_SDP_MLINE_INDEX = 65535"

definition CallSdpSchema :: "string \<Rightarrow> bool" where
  "CallSdpSchema s \<longleftrightarrow>
     3 \<le> length s \<and> length s \<le> MAX_CALL_SDP_BYTES \<and> utf8ByteLength s \<le> MAX_CALL_SDP_BYTES
     \<and> take 3 s = ''v=0'' \<and> CHR 0x00 \<notin> set s"

text \<open>\<open>/^(?:a=)?candidate:[\x20-\x7e]+$/i\<close>\<close>

definition printable_char :: "char \<Rightarrow> bool" where
  "printable_char c \<longleftrightarrow> 32 \<le> (of_char c :: nat) \<and> (of_char c :: nat) \<le> 126"

definition candidate_text :: "string \<Rightarrow> bool" where
  "candidate_text s \<longleftrightarrow>
     map lower_char (take 10 s) = ''candidate:'' \<and> length s > 10 \<and> list_all printable_char (drop 10 s)"

definition CallIceCandidateValueSchema :: "string \<Rightarrow> bool" where
  "CallIceCandidateValueSchema s \<longleftrightarrow>
     1 \<le> length s \<and> length s \<le> MAX_CALL_ICE_CANDIDATE_BYTES \<and> utf8ByteLength s \<le> MAX_CALL_ICE_CANDIDATE_BYTES
     \<and> (candidate_text s \<or> (map lower_char (take 2 s) = ''a='' \<and> candidate_text (drop 2 s)))"

definition sdp_mid_char :: "char \<Rightarrow> bool" where
  "sdp_mid_char c \<longleftrightarrow> c \<in> set ''ABCDEFGHIJKLMNOPQRSTUVWXYZabcdefghijklmnopqrstuvwxyz0123456789._~-''"

definition CallSdpMidSchema :: "string \<Rightarrow> bool" where
  "CallSdpMidSchema s \<longleftrightarrow> text_between 1 MAX_CALL_SDP_MID_LENGTH s \<and> list_all sdp_mid_char s"

definition ice_ufrag_ok :: "string \<Rightarrow> bool" where
  "ice_ufrag_ok s \<longleftrightarrow> text_between 1 256 s \<and> list_all (\<lambda>c. c \<in> set BASE64_ALPHABET) s"

text \<open>An absent or \<open>null\<close> field, or a value of the given kind.\<close>

definition nullish_text :: "(string \<Rightarrow> bool) \<Rightarrow> json option \<Rightarrow> bool" where
  "nullish_text P v = (case v of None \<Rightarrow> True | Some JNull \<Rightarrow> True | Some (JStr s) \<Rightarrow> P s | Some _ \<Rightarrow> False)"

definition nullish_int :: "(int \<Rightarrow> bool) \<Rightarrow> json option \<Rightarrow> bool" where
  "nullish_int P v = (case v of None \<Rightarrow> True | Some JNull \<Rightarrow> True | Some (JNum n) \<Rightarrow> P n | Some _ \<Rightarrow> False)"

definition CallIceCandidateSchema :: "json \<Rightarrow> bool" where
  "CallIceCandidateSchema v =
     (case v of
        JObj o1 \<Rightarrow>
          fst ` set o1 \<subseteq> {''candidate'', ''sdpMid'', ''sdpMLineIndex'', ''usernameFragment''}
          \<and> (case obj_get ''candidate'' o1 of Some (JStr s) \<Rightarrow> CallIceCandidateValueSchema s | _ \<Rightarrow> False)
          \<and> nullish_text CallSdpMidSchema (obj_get ''sdpMid'' o1)
          \<and> nullish_int (int_between 0 MAX_CALL_SDP_MLINE_INDEX) (obj_get ''sdpMLineIndex'' o1)
          \<and> nullish_text ice_ufrag_ok (obj_get ''usernameFragment'' o1)
          \<and> \<not> (obj_get ''sdpMid'' o1 \<in> {None, Some JNull} \<and> obj_get ''sdpMLineIndex'' o1 \<in> {None, Some JNull})
      | _ \<Rightarrow> False)"

text \<open>\<open>parse\<close> is \<open>JSON.parse\<close>, \<open>None\<close> where it throws.\<close>

definition CallIceCandidateJsonSchema :: "(string \<Rightarrow> json option) \<Rightarrow> string \<Rightarrow> bool" where
  "CallIceCandidateJsonSchema parse s \<longleftrightarrow>
     1 \<le> length s \<and> length s \<le> MAX_CALL_ICE_CANDIDATE_JSON_BYTES
     \<and> utf8ByteLength s \<le> MAX_CALL_ICE_CANDIDATE_JSON_BYTES
     \<and> (case parse s of None \<Rightarrow> False | Some v \<Rightarrow> CallIceCandidateSchema v)"

fun CallSignalPayloadSchema :: "(string \<Rightarrow> json option) \<Rightarrow> call_signal \<Rightarrow> bool" where
  "CallSignalPayloadSchema parse (CallOffer sdp) = CallSdpSchema sdp"
| "CallSignalPayloadSchema parse (CallAnswer sdp) = CallSdpSchema sdp"
| "CallSignalPayloadSchema parse (CallCandidate s) = CallIceCandidateJsonSchema parse s"

section \<open>Commands\<close>

record config_patch =
  pt_retention :: int
  pt_privacy :: network_privacy
  pt_voice :: "int option"
  pt_video :: "int option"

datatype (plugins only: code) host_command =
    ServerCreate string
  | ServerJoin string "string option"
  | ServerLeave
  | ServerState
  | ConnectivityIceConfig
  | ServerTransferOwnership string
  | ServerUpdateConfig config_patch
  | InviteCreate string "int option" "int option"
  | InviteRevoke string
  | InviteList
  | ChannelCreate channel_type string
  | ChannelUpdateOverrides string "perm_override list"
  | RoleCreate string int "permission list"
  | RoleAssign string string
  | HostCandidateRegister string string string possession_proof possession_proof
  | HostGrantCreate string string "host_capability list" "int option"
  | HostGrantRevoke string "string option"
  | HostGrantAccept string possession_proof
  | HostGrantList
  | DeviceLinkAuthorize string "int option"
  | DeviceEnroll string
  | MemberKick string
  | MemberBan string
  | MessageSend envelope
  | MessageAckConsumed string
  | MessageGetPending
  | PresenceSet string
  | ReplicaEnroll string possession_proof
  | ReplicaSnapshot string string
  | ReplicaPing string string int
  | AttachmentUploadBegin string string "string list" int int string "int option"
  | AttachmentUploadChunk string int string int string
  | AttachmentUploadComplete string
  | AttachmentUploadAbort string
  | AttachmentDownload string
  | AttachmentDownloadChunk string int
  | CallJoin string
  | CallLeave string
  | CallSignalSend string string call_signal
  | KeypackageUpload string
  | KeypackageGet string
  | WelcomePush string string
  | WelcomePending
  | WelcomeAckConsumed string

text \<open>Defaults and transformations: the trimmed nickname, one use for an invite.\<close>

definition command_defaults :: "host_command \<Rightarrow> host_command" where
  "command_defaults cmd =
     (case cmd of
        ServerJoin key nickname \<Rightarrow> ServerJoin key (map_option trim nickname)
      | InviteCreate r maxUses e \<Rightarrow> InviteCreate r (Some (case maxUses of None \<Rightarrow> 1 | Some n \<Rightarrow> n)) e
      | _ \<Rightarrow> cmd)"

definition channel_permissions :: "permission list" where
  "channel_permissions = [View_channel, Send_messages, Send_files, Join_call, Speak, Enable_camera]"

definition override_schema :: "perm_override \<Rightarrow> bool" where
  "override_schema ov \<longleftrightarrow>
     ov_role ov \<noteq> [] \<and> list_all (\<lambda>p. p \<in> set channel_permissions) (ov_allow ov)
     \<and> list_all (\<lambda>p. p \<in> set channel_permissions) (ov_deny ov)"

definition begin_schema :: "'z crypto_scheme \<Rightarrow> string \<Rightarrow> string \<Rightarrow> string list \<Rightarrow> int \<Rightarrow> int \<Rightarrow> string \<Rightarrow> int option \<Rightarrow> bool" where
  "begin_schema c asset channel audience sizeBytes totalChunks hash ttl \<longleftrightarrow>
     is_uuid c asset \<and> is_uuid c channel \<and> audience_members_ok audience
     \<and> int_between (ATTACHMENT_ENCRYPTION_OVERHEAD_BYTES + 1) MAX_ATTACHMENT_BYTES sizeBytes
     \<and> int_between 1 MAX_ATTACHMENT_CHUNKS totalChunks \<and> AttachmentHashSchema hash
     \<and> opt_ok (int_between 1 24) ttl
     \<and> totalChunks = int_ceil_div sizeBytes ATTACHMENT_CHUNK_BYTES"

primrec command_ok :: "'z crypto_scheme \<Rightarrow> (string \<Rightarrow> json option) \<Rightarrow> host_command \<Rightarrow> bool" where
  "command_ok c parse (ServerCreate name) \<longleftrightarrow> text_between 1 64 name"
| "command_ok c parse (ServerJoin key nickname) \<longleftrightarrow> text_between 1 2048 key \<and> opt_ok (text_between 1 64) nickname"
| "command_ok c parse (ServerTransferOwnership new) \<longleftrightarrow> new \<noteq> []"
| "command_ok c parse (ServerUpdateConfig p) \<longleftrightarrow>
     pt_retention p \<in> {1, 24, 168, 720} \<and> opt_ok positiveSchema (pt_voice p) \<and> opt_ok positiveSchema (pt_video p)"
| "command_ok c parse (InviteCreate r maxUses e) \<longleftrightarrow>
     r \<noteq> [] \<and> opt_ok positiveSchema maxUses \<and> opt_ok positiveSchema e"
| "command_ok c parse (InviteRevoke i) \<longleftrightarrow> i \<noteq> []"
| "command_ok c parse (ChannelCreate ty name) \<longleftrightarrow> text_between 1 64 name"
| "command_ok c parse (ChannelUpdateOverrides ch ovs) \<longleftrightarrow> is_uuid c ch \<and> list_all override_schema ovs"
| "command_ok c parse (RoleCreate name level ps) \<longleftrightarrow> text_between 1 64 name \<and> int_between 0 99 level"
| "command_ok c parse (RoleAssign m r) \<longleftrightarrow> m \<noteq> [] \<and> r \<noteq> []"
| "command_ok c parse (HostCandidateRegister hostKey enrollKey hostId deviceProof hostProof) \<longleftrightarrow>
     PublicKeySchema hostKey \<and> PublicKeySchema enrollKey \<and> text_between 1 128 hostId
     \<and> HostPossessionProofSchema c deviceProof \<and> HostPossessionProofSchema c hostProof"
| "command_ok c parse (HostGrantCreate subject candidate caps e) \<longleftrightarrow>
     text_between 1 128 subject \<and> is_uuid c candidate \<and> hostCapabilitiesSchema caps \<and> opt_ok positiveSchema e"
| "command_ok c parse (HostGrantRevoke g reason) \<longleftrightarrow> is_uuid c g \<and> opt_ok (text_between 1 512) reason"
| "command_ok c parse (HostGrantAccept g proof) \<longleftrightarrow> is_uuid c g \<and> HostPossessionProofSchema c proof"
| "command_ok c parse (DeviceLinkAuthorize key e) \<longleftrightarrow>
     PublicKeySchema key \<and> opt_ok (int_between 1 (10 * 60000)) e"
| "command_ok c parse (DeviceEnroll cap) \<longleftrightarrow> link_capability_text cap"
| "command_ok c parse (MemberKick m) \<longleftrightarrow> m \<noteq> []"
| "command_ok c parse (MemberBan m) \<longleftrightarrow> m \<noteq> []"
| "command_ok c parse (MessageSend e) \<longleftrightarrow> MessageEnvelopeSchema c e"
| "command_ok c parse (MessageAckConsumed m) \<longleftrightarrow> is_uuid c m"
| "command_ok c parse (PresenceSet st) \<longleftrightarrow> st \<in> {''online'', ''offline'', ''in_call''}"
| "command_ok c parse (ReplicaEnroll g proof) \<longleftrightarrow> is_uuid c g \<and> HostPossessionProofSchema c proof"
| "command_ok c parse (ReplicaSnapshot g sv) \<longleftrightarrow> is_uuid c g \<and> is_uuid c sv"
| "command_ok c parse (ReplicaPing g sv e) \<longleftrightarrow> is_uuid c g \<and> is_uuid c sv \<and> timestampSchema e"
| "command_ok c parse (AttachmentUploadBegin a ch ms n k h t) \<longleftrightarrow> begin_schema c a ch ms n k h t"
| "command_ok c parse (AttachmentUploadChunk a i data n h) \<longleftrightarrow>
     is_uuid c a \<and> int_between 0 (MAX_ATTACHMENT_CHUNKS - 1) i \<and> AttachmentChunkDataSchema data
     \<and> int_between 1 ATTACHMENT_CHUNK_BYTES n \<and> AttachmentHashSchema h"
| "command_ok c parse (AttachmentUploadComplete a) \<longleftrightarrow> is_uuid c a"
| "command_ok c parse (AttachmentUploadAbort a) \<longleftrightarrow> is_uuid c a"
| "command_ok c parse (AttachmentDownload a) \<longleftrightarrow> is_uuid c a"
| "command_ok c parse (AttachmentDownloadChunk a i) \<longleftrightarrow> is_uuid c a \<and> int_between 0 (MAX_ATTACHMENT_CHUNKS - 1) i"
| "command_ok c parse (CallJoin ch) \<longleftrightarrow> is_uuid c ch"
| "command_ok c parse (CallLeave ch) \<longleftrightarrow> is_uuid c ch"
| "command_ok c parse (CallSignalSend ch to payload) \<longleftrightarrow> is_uuid c ch \<and> to \<noteq> [] \<and> CallSignalPayloadSchema parse payload"
| "command_ok c parse (KeypackageUpload k) \<longleftrightarrow> k \<noteq> []"
| "command_ok c parse (KeypackageGet m) \<longleftrightarrow> m \<noteq> []"
| "command_ok c parse (WelcomePush m wl) \<longleftrightarrow> m \<noteq> [] \<and> wl \<noteq> []"
| "command_ok c parse (WelcomeAckConsumed i) \<longleftrightarrow> Hex64Schema i"
| "command_ok c parse ServerLeave \<longleftrightarrow> True"
| "command_ok c parse ServerState \<longleftrightarrow> True"
| "command_ok c parse ConnectivityIceConfig \<longleftrightarrow> True"
| "command_ok c parse InviteList \<longleftrightarrow> True"
| "command_ok c parse HostGrantList \<longleftrightarrow> True"
| "command_ok c parse MessageGetPending \<longleftrightarrow> True"
| "command_ok c parse WelcomePending \<longleftrightarrow> True"

definition HostCommandSchema :: "'z crypto_scheme \<Rightarrow> (string \<Rightarrow> json option) \<Rightarrow> host_command \<Rightarrow> host_command option" where
  "HostCommandSchema c parse cmd =
     (let cmd' = command_defaults cmd in if command_ok c parse cmd' then Some cmd' else None)"

text \<open>The configuration a validated patch spreads over the stored one.\<close>

definition privacy_name :: "network_privacy \<Rightarrow> string" where
  "privacy_name p = (case p of Direct \<Rightarrow> ''direct'' | RelayOnly \<Rightarrow> ''relay'')"

definition patch_object :: "config_patch \<Rightarrow> (string \<times> json) list" where
  "patch_object p =
     [(''maxRetentionHours'', JNum (pt_retention p)), (''networkPrivacy'', JStr (privacy_name (pt_privacy p)))]
     @ opt_field ''maxVoiceParticipants'' JNum (pt_voice p) @ opt_field ''maxVideoParticipants'' JNum (pt_video p)"

end
