(* ===== verification/Sessions.thy ===== *)
theory Sessions
  imports Commands
begin

text \<open>
  The sockets of the signaling gateway (\<open>apps/janjanode/src/gateway.ts\<close>): what is kept for each
  WebSocket, the limits on connections, malformed frames, authentication attempts and upload starts, and
  the operations \<open>acceptConnection\<close> and \<open>releaseConnection\<close>. A socket is a number. \<open>Map\<close>s whose order
  nothing depends on are partial functions; \<open>identities\<close>, over which the gateway iterates, keeps its order.
\<close>

section \<open>Attachment starts\<close>

text \<open>
  Tokens are counted in five-hundredths, so that one millisecond refills one unit: capacity 8 tokens, two
  tokens a second. The code's floating point may round what is exact here.
\<close>

record bucket =
  bk_tokens :: int
  bk_updated :: int

definition TOKEN :: int where "TOKEN = 500"
definition ATTACHMENT_BEGIN_BUCKET_CAPACITY :: int where "ATTACHMENT_BEGIN_BUCKET_CAPACITY = 8 * TOKEN"

definition bucket_consume :: "bucket option \<Rightarrow> int \<Rightarrow> bool \<times> bucket" where
  "bucket_consume current t =
     (let cur = (case current of None \<Rightarrow> \<lparr>bk_tokens = ATTACHMENT_BEGIN_BUCKET_CAPACITY, bk_updated = t\<rparr> | Some b \<Rightarrow> b);
          elapsed = max 0 (t - bk_updated cur);
          tokens = min ATTACHMENT_BEGIN_BUCKET_CAPACITY (bk_tokens cur + elapsed) in
      if tokens < TOKEN then (False, \<lparr>bk_tokens = tokens, bk_updated = t\<rparr>)
      else (True, \<lparr>bk_tokens = tokens - TOKEN, bk_updated = t\<rparr>))"

section \<open>Origins\<close>

definition session_char :: "char \<Rightarrow> bool" where
  "session_char c \<longleftrightarrow> c \<in> set ''ABCDEFGHIJKLMNOPQRSTUVWXYZabcdefghijklmnopqrstuvwxyz0123456789_-''"

definition loopback_ip :: "string \<Rightarrow> bool" where
  "loopback_ip ip \<longleftrightarrow> ip = ''127.0.0.1'' \<or> ip = ''::1''"

text \<open>A header given several times is no text and counts as empty: \<open>None\<close>.\<close>

definition authenticatedOriginKey :: "string option \<Rightarrow> string option \<Rightarrow> string \<times> string option" where
  "authenticatedOriginKey remote header =
     (let addr = (case remote of None \<Rightarrow> ''unknown'' | Some a \<Rightarrow> a);
          ip = (case strip_prefix ''::ffff:'' addr of Some r \<Rightarrow> r | None \<Rightarrow> addr);
          candidate = (case header of None \<Rightarrow> '''' | Some h \<Rightarrow> h)
      in (ip, if loopback_ip ip \<and> 32 \<le> length candidate \<and> length candidate \<le> 128 \<and> list_all session_char candidate
              then Some candidate else None))"

section \<open>State\<close>

type_synonym socket = nat

record auth_challenge =
  ch_challenge :: string
  ch_nonce :: string
  ch_identity :: string
  ch_key :: string
  ch_expires :: int

record window_count =
  wc_count :: int
  wc_start :: int

text \<open>Frames the gateway sends.\<close>

datatype server_event =
    EnvelopeDeliver envelope
  | MemberPresence string string
  | MemberRemovedEvent string string
  | InviteUsedEvent string
  | ServerStateChanged
  | WelcomeDeliver string string
  | CallMembers string "string list"
  | CallSignalEvent string string call_signal

datatype (plugins only: code) answer =
    Failed error_code
  | Done
  | AState server_view
  | AIce rtc_configuration
  | AConfig "(string \<times> json) list"
  | AInvite string string
  | AInvites "(invite \<times> invite_status) list"
  | AChannel channel
  | ARole role
  | AGrant "grant_payload signed" string
  | ACandidate "candidate_view option"
  | ARevocation "revocation signed"
  | AGrants grant_listing
  | ALink string int
  | AEnvelopes "envelope list"
  | AParticipants "string list"
  | AText string
  | AWelcome "(string \<times> string) option"
  | AReceived "int list"
  | AManifest int int string
  | AChunk attachment_chunk
  | ASnapshot snapshot_reply
  | AEnrollment sealed_enrollment
  | AEpoch int

datatype frame_out =
    OutAuthError error_code
  | OutChallenge "error_code + host_challenge signed"
  | OutReady string bool
  | OutResult answer
  | OutEvent server_event

record gateway =
  identities :: "(socket \<times> string) list"
  devicePublicKeys :: "socket \<Rightarrow> string option"
  pendingDeviceEnrollment :: "socket list"
  challenges :: "socket \<Rightarrow> auth_challenge option"
  malformedCount :: "socket \<Rightarrow> window_count option"
  connectionIps :: "(socket \<times> string) list"
  ipConnections :: "string \<Rightarrow> int option"
  iceSessionConnections :: "string \<Rightarrow> int option"
  connectionIceSessions :: "(socket \<times> string) list"
  authDeadlines :: "socket list"
  authAttempts :: "string \<Rightarrow> window_count option"
  attachmentBeginBucket :: "socket \<Rightarrow> bucket option"
  sent :: "(socket \<times> frame_out) list"
  closing :: "(socket \<times> nat) list"
  crashed :: "exn option"
  svc :: host
  bridgeIceConfigs :: ice_table

definition map_delete :: "'k \<Rightarrow> ('k \<times> 'v) list \<Rightarrow> ('k \<times> 'v) list" where
  "map_delete k m = filter (\<lambda>(x, _). x \<noteq> k) m"

definition identityOf :: "socket \<Rightarrow> gateway \<Rightarrow> string" where
  "identityOf c g = (case map_of (identities g) c of None \<Rightarrow> '''' | Some x \<Rightarrow> x)"

definition close_socket :: "socket \<Rightarrow> nat \<Rightarrow> gateway \<Rightarrow> gateway" where
  "close_socket c code g = closing_update (\<lambda>l. l @ [(c, code)]) g"

text \<open>Nothing is sent on a socket that is no longer open.\<close>

definition send_frame :: "socket \<Rightarrow> frame_out \<Rightarrow> gateway \<Rightarrow> gateway" where
  "send_frame c f g = (if c \<in> fst ` set (closing g) then g else sent_update (\<lambda>l. l @ [(c, f)]) g)"

definition push :: "string \<Rightarrow> server_event \<Rightarrow> gateway \<Rightarrow> gateway" where
  "push identityId e g = fold (\<lambda>(c, x). if x = identityId then send_frame c (OutEvent e) else id) (identities g) g"

definition broadcast :: "server_event \<Rightarrow> gateway \<Rightarrow> gateway" where
  "broadcast e g = fold (\<lambda>(c, _). send_frame c (OutEvent e)) (identities g) g"

text \<open>The listeners of \<open>afterInit\<close>; they run while the operation that emits is still running.\<close>

fun dispatch :: "presence_event \<Rightarrow> gateway \<Rightarrow> gateway" where
  "dispatch (Deliver x e) g = push x (EnvelopeDeliver e) g"
| "dispatch (Presence x st) g = broadcast (MemberPresence x st) g"
| "dispatch (MemberRemoved x reason) g = broadcast (MemberRemovedEvent x reason) (push x (MemberRemovedEvent x reason) g)"
| "dispatch (InviteUsed i) g = broadcast (InviteUsedEvent i) g"
| "dispatch StateChanged g = broadcast ServerStateChanged g"
| "dispatch (WelcomeFor x i data) g = push x (WelcomeDeliver i data) g"
| "dispatch (CallMembership ch ps) g = fold (\<lambda>p. push p (CallMembers ch ps)) ps g"
| "dispatch (CallSignal to ch from payload) g = push to (CallSignalEvent ch from payload) g"
| "dispatch _ g = g"

text \<open>Runs an operation of the service and delivers what it emitted.\<close>

definition with_svc :: "host \<Rightarrow> gateway \<Rightarrow> gateway" where
  "with_svc s g = fold dispatch (drop (length (events (svc g))) (events s)) (g\<lparr>svc := s\<rparr>)"

section \<open>Limits\<close>

definition MAX_AUTH_ATTEMPTS_PER_ORIGIN_MINUTE :: int where "MAX_AUTH_ATTEMPTS_PER_ORIGIN_MINUTE = 20"
definition MAX_ICE_CONNECTIONS_PER_SESSION :: int where "MAX_ICE_CONNECTIONS_PER_SESSION = 4"
definition MAX_MALFORMED_PER_MIN :: int where "MAX_MALFORMED_PER_MIN = 20"
definition MAX_CONNECTIONS_PER_IP :: int where "MAX_CONNECTIONS_PER_IP = 8"
definition AUTH_DEADLINE_MS :: int where "AUTH_DEADLINE_MS = 8000"

definition trackMalformed :: "int \<Rightarrow> socket \<Rightarrow> gateway \<Rightarrow> gateway" where
  "trackMalformed t c g =
     (let next = (case malformedCount g c of
                    None \<Rightarrow> \<lparr>wc_count = 1, wc_start = t\<rparr>
                  | Some b \<Rightarrow> if t - wc_start b > 60000 then \<lparr>wc_count = 1, wc_start = t\<rparr>
                              else \<lparr>wc_count = wc_count b + 1, wc_start = wc_start b\<rparr>)
      in if wc_count next > MAX_MALFORMED_PER_MIN
         then close_socket c 1008 (g\<lparr>malformedCount := (malformedCount g)(c := None)\<rparr>)
         else g\<lparr>malformedCount := (malformedCount g)(c \<mapsto> next)\<rparr>)"

definition auth_key :: "socket \<Rightarrow> gateway \<Rightarrow> string" where
  "auth_key c g =
     (case map_of (connectionIps g) c of None \<Rightarrow> ''unknown'' | Some ip \<Rightarrow> ip) @ '':'' @
     (case map_of (connectionIceSessions g) c of None \<Rightarrow> ''direct'' | Some x \<Rightarrow> x)"

definition next_attempt :: "int \<Rightarrow> window_count option \<Rightarrow> window_count" where
  "next_attempt t current =
     (case current of
        None \<Rightarrow> \<lparr>wc_count = 1, wc_start = t\<rparr>
      | Some b \<Rightarrow> if t - wc_start b \<ge> 60000 then \<lparr>wc_count = 1, wc_start = t\<rparr>
                  else \<lparr>wc_count = wc_count b + 1, wc_start = wc_start b\<rparr>)"

definition consumeAuthAttempt :: "int \<Rightarrow> socket \<Rightarrow> gateway \<Rightarrow> bool \<times> gateway" where
  "consumeAuthAttempt t c g =
     (let next = next_attempt t (authAttempts g (auth_key c g))
      in (wc_count next \<le> MAX_AUTH_ATTEMPTS_PER_ORIGIN_MINUTE,
          g\<lparr>authAttempts := (authAttempts g)(auth_key c g \<mapsto> next)\<rparr>))"

section \<open>Connections\<close>

definition count_of :: "('k \<Rightarrow> int option) \<Rightarrow> 'k \<Rightarrow> int \<Rightarrow> int" where
  "count_of m k def = (case m k of None \<Rightarrow> def | Some n \<Rightarrow> n)"

definition acceptConnection :: "socket \<Rightarrow> string option \<Rightarrow> string option \<Rightarrow> gateway \<Rightarrow> bool \<times> gateway" where
  "acceptConnection c remote header g =
     (let (ip, ice) = authenticatedOriginKey remote header;
          cur = count_of (ipConnections g) ip 0;
          maxForOrigin = (if ice = None then MAX_CONNECTIONS_PER_IP else 32) in
      if cur \<ge> maxForOrigin then (False, close_socket c 1013 g)
      else
        let g1 = g\<lparr>ipConnections := (ipConnections g)(ip \<mapsto> cur + 1), connectionIps := map_set c ip (connectionIps g)\<rparr> in
        case ice of
          None \<Rightarrow> (True, g1\<lparr>authDeadlines := js_add c (authDeadlines g1)\<rparr>)
        | Some session \<Rightarrow>
            (let n = count_of (iceSessionConnections g1) session 0 in
             if n \<ge> MAX_ICE_CONNECTIONS_PER_SESSION
             then (False, (close_socket c 1013 g1)\<lparr>ipConnections := (ipConnections g1)(ip \<mapsto> cur),
                     connectionIps := map_delete c (connectionIps g1)\<rparr>)
             else (True, g1\<lparr>iceSessionConnections := (iceSessionConnections g1)(session \<mapsto> n + 1),
                     connectionIceSessions := map_set c session (connectionIceSessions g1),
                     authDeadlines := js_add c (authDeadlines g1)\<rparr>)))"

definition release_ip :: "socket \<Rightarrow> gateway \<Rightarrow> gateway" where
  "release_ip c g =
     (case map_of (connectionIps g) c of
        None \<Rightarrow> g
      | Some ip \<Rightarrow>
          if ip = [] then g
          else g\<lparr>ipConnections := (ipConnections g)(ip \<mapsto> max 0 (count_of (ipConnections g) ip 1 - 1)),
                 connectionIps := map_delete c (connectionIps g)\<rparr>)"

definition release_ice :: "socket \<Rightarrow> gateway \<Rightarrow> gateway" where
  "release_ice c g =
     (case map_of (connectionIceSessions g) c of
        None \<Rightarrow> g
      | Some session \<Rightarrow>
          if session = [] then g
          else let next = max 0 (count_of (iceSessionConnections g) session 1 - 1)
            in g\<lparr>iceSessionConnections := (iceSessionConnections g)(session := if next = 0 then None else Some next),
                 connectionIceSessions := map_delete c (connectionIceSessions g)\<rparr>)"

definition releaseConnection :: "socket \<Rightarrow> gateway \<Rightarrow> gateway" where
  "releaseConnection c g =
     (let g1 = release_ip c g;
          g2 = g1\<lparr>malformedCount := (malformedCount g1)(c := None)\<rparr>;
          g3 = release_ice c g2
      in g3\<lparr>authDeadlines := js_delete c (authDeadlines g3)\<rparr>)"

end
