(* ===== verification/Invariants.thy ===== *)
theory Invariants
  imports Transfers Replication
begin

text \<open>
  The invariant of the whole host database, and that every operation of the service keeps it
  (\<open>apps/janjanode/src/server.service.ts\<close>). An operation touches the tables of one component and leaves
  those of the others as they are: \<open>same_messages\<close> and \<open>same_grants\<close> state the frame, as \<open>same_community\<close>
  does for the membership tables.
\<close>

section \<open>Frames\<close>

definition same_messages :: "db \<Rightarrow> db \<Rightarrow> bool" where
  "same_messages d d' \<longleftrightarrow>
     spool d' = spool d \<and> spool_usage d' = spool_usage d \<and> attachments d' = attachments d \<and> chunks d' = chunks d"

definition same_grants :: "db \<Rightarrow> db \<Rightarrow> bool" where
  "same_grants d d' \<longleftrightarrow>
     host_grants d' = host_grants d \<and> security_proofs d' = security_proofs d \<and> host_candidates d' = host_candidates d"

lemma same_messages_refl [simp]: "same_messages d d"
  by (simp add: same_messages_def)

lemma same_grants_refl [simp]: "same_grants d d"
  by (simp add: same_grants_def)

definition messages_ok :: "world \<Rightarrow> db \<Rightarrow> bool" where
  "messages_ok w d \<longleftrightarrow> usage_ok d \<and> spool_ok d \<and> transfers_ok w d \<and> pending_ok d"

lemma messages_ok_same: "same_messages d d' \<Longrightarrow> messages_ok w d' = messages_ok w d"
  by (simp add: messages_ok_def same_messages_def usage_ok_def ledger_def spool_ok_def transfers_ok_def
      pending_ok_def pending_of_def pending_all_def)

lemma grants_ok_same: "same_grants d d' \<Longrightarrow> grants_ok d' = grants_ok d"
  by (simp add: same_grants_def grants_ok_def)

definition has_default_role :: "db \<Rightarrow> bool" where
  "has_default_role d \<longleftrightarrow> has_row role_id ''role-member'' (roles d)"

text \<open>The invariant of the database.\<close>

definition host_ok :: "world \<Rightarrow> db \<Rightarrow> bool" where
  "host_ok w d \<longleftrightarrow> community_ok d \<and> has_default_role d \<and> messages_ok w d \<and> grants_ok d"

lemma has_default_role_same: "same_community d d' \<Longrightarrow> has_default_role d' = has_default_role d"
  by (simp add: same_community_def has_default_role_def)

text \<open>What is required of the outside: sizes are no negative numbers and hashing agrees with the codec.\<close>

definition world_ok :: "world \<Rightarrow> bool" where
  "world_ok w \<longleftrightarrow> (\<forall>e. 0 \<le> envelope_bytes w e) \<and> sha_ok w"

section \<open>Membership and administration\<close>

named_theorems frames "the tables an operation leaves as they are"

lemma frame_appendOp [simp]:
  "same_messages d (appendOp e d') = same_messages d d'" "same_grants d (appendOp e d') = same_grants d d'"
  "same_messages d (set_meta k v d') = same_messages d d'" "same_grants d (set_meta k v d') = same_grants d d'"
  by (simp_all add: same_messages_def same_grants_def appendOp_def set_meta_def)

lemma frame_tables [simp]:
  "same_messages d (members_update f d)" "same_grants d (members_update f d)"
  "same_messages d (roles_update f1 d)" "same_grants d (roles_update f1 d)"
  "same_messages d (devices_update f2 d)" "same_grants d (devices_update f2 d)"
  "same_messages d (capabilities_update f3 d)" "same_grants d (capabilities_update f3 d)"
  "same_messages d (invites_update f4 d)" "same_grants d (invites_update f4 d)"
  "same_messages d (channels_update f5 d)" "same_grants d (channels_update f5 d)"
  "same_messages d (bans_update f6 d)" "same_grants d (bans_update f6 d)"
  by (simp_all add: same_messages_def same_grants_def)

definition frame_mg :: "host \<Rightarrow> host \<Rightarrow> bool" where
  "frame_mg s s' \<longleftrightarrow> same_messages (db s) (db s') \<and> same_grants (db s) (db s')"

lemma frame_mg_refl [simp]: "frame_mg s s"
  by (simp add: frame_mg_def)

lemma frame_mg_emit [simp]: "frame_mg s (emit e s') = frame_mg s s'"
  by (simp add: frame_mg_def emit_def)

lemma redeem_frame: "redeem_invite w x n iv k d = Some d' \<Longrightarrow> same_messages d d' \<and> same_grants d d' \<and> roles d' = roles d"
  by (auto simp: redeem_invite_def same_messages_def same_grants_def appendOp_def split: if_splits)

lemma join_frame:
  assumes "joinByInvite w x nick secret key s = (res, s')"
  shows "frame_mg s s' \<and> roles (db s') = roles (db s)"
  using assms
  by (auto simp: joinByInvite_def Let_def frame_mg_def emit_def dest!: redeem_frame
      split: if_splits option.splits sum.splits)

lemma leave_frame: "leave x s = (res, s') \<Longrightarrow> frame_mg s s' \<and> roles (db s') = roles (db s)"
  by (auto simp: leave_def frame_mg_def emit_def appendOp_def same_messages_def same_grants_def
      split: option.splits if_splits)

lemma transfer_frame: "transferOwnership x y s = (res, s') \<Longrightarrow> frame_mg s s' \<and> roles (db s') = roles (db s)"
  by (auto simp: transferOwnership_def set_role_def frame_mg_def emit_def appendOp_def same_messages_def same_grants_def
      split: option.splits if_splits)

lemma roleCreate_frame:
  assumes "roleCreate w i x name level ps s = (res, s')"
  shows "frame_mg s s' \<and> set (roles (db s)) \<subseteq> set (roles (db s'))"
proof (cases "db s' = db s")
  case False
  from roleCreate_step [OF assms False] obtain actor r
    where d: "db s' = appendOp (OpRoleCreate i) (db s\<lparr>roles := roles (db s) @ [r]\<rparr>)" by blast
  show ?thesis unfolding d frame_mg_def by (auto simp: appendOp_def same_messages_def same_grants_def)
qed (simp add: frame_mg_def same_messages_def same_grants_def)

lemma roleAssign_frame: "roleAssign x y r s = (res, s') \<Longrightarrow> frame_mg s s' \<and> roles (db s') = roles (db s)"
  by (auto simp: roleAssign_def Let_def set_role_def frame_mg_def emit_def appendOp_def same_messages_def same_grants_def
      split: option.splits if_splits sum.splits bool.splits)

lemma kick_frame: "kick x y s = (res, s') \<Longrightarrow> frame_mg s s' \<and> roles (db s') = roles (db s)"
  by (auto simp: kick_def Let_def frame_mg_def emit_def appendOp_def same_messages_def same_grants_def
      split: option.splits if_splits sum.splits bool.splits)

lemma ban_frame: "ban w x y s = (res, s') \<Longrightarrow> frame_mg s s' \<and> roles (db s') = roles (db s)"
  by (auto simp: ban_def Let_def frame_mg_def emit_def appendOp_def same_messages_def same_grants_def
      split: option.splits if_splits sum.splits bool.splits)

lemma link_frames: "authorizeDeviceLink w c x k k' e s = (res, s') \<Longrightarrow> frame_mg s s' \<and> roles (db s') = roles (db s)"
  by (auto simp: authorizeDeviceLink_def Let_def frame_mg_def emit_def appendOp_def same_messages_def same_grants_def
      split: option.splits if_splits sum.splits bool.splits)

lemma enrollDevice_frame: "enrollDevice w x k c s = (res, s') \<Longrightarrow> frame_mg s s' \<and> roles (db s') = roles (db s)"
  by (auto simp: enrollDevice_def Let_def frame_mg_def emit_def appendOp_def same_messages_def same_grants_def
      split: option.splits if_splits sum.splits bool.splits)

lemma inviteRevoke_frame: "inviteRevoke x i s = (res, s') \<Longrightarrow> frame_mg s s' \<and> roles (db s') = roles (db s)"
  by (auto simp: inviteRevoke_def Let_def frame_mg_def emit_def appendOp_def same_messages_def same_grants_def
      split: option.splits if_splits sum.splits bool.splits)

lemma channelCreate_frame: "channelCreate w c x ty n s = (res, s') \<Longrightarrow> frame_mg s s' \<and> roles (db s') = roles (db s)"
  by (auto simp: channelCreate_def Let_def frame_mg_def emit_def appendOp_def same_messages_def same_grants_def
      split: option.splits if_splits sum.splits bool.splits)

lemma overrides_frame: "channelUpdateOverrides x c os s = (res, s') \<Longrightarrow> frame_mg s s' \<and> roles (db s') = roles (db s)"
  by (auto simp: channelUpdateOverrides_def Let_def frame_mg_def emit_def appendOp_def same_messages_def same_grants_def
      split: option.splits if_splits sum.splits bool.splits)

lemma updateConfig_frame: "updateConfig x p s = (res, s') \<Longrightarrow> frame_mg s s' \<and> roles (db s') = roles (db s)"
  by (auto simp: updateConfig_def Let_def frame_mg_def emit_def appendOp_def set_meta_def same_messages_def same_grants_def
      split: option.splits if_splits sum.splits bool.splits)

lemma setPresence_frame: "setPresence x st s = (res, s') \<Longrightarrow> frame_mg s s' \<and> roles (db s') = roles (db s)"
  by (auto simp: setPresence_def frame_mg_def emit_def same_messages_def same_grants_def split: if_splits)

lemma only_grants_messages: "only_grants s s' \<Longrightarrow> same_messages (db s) (db s')"
  by (simp add: same_messages_def only_gr_simps)

section \<open>Grants and enrollment\<close>

definition frame_cm :: "host \<Rightarrow> host \<Rightarrow> bool" where
  "frame_cm s s' \<longleftrightarrow> same_community (db s) (db s') \<and> same_messages (db s) (db s')"

lemma frame_cm_refl [simp]: "frame_cm s s"
  by (simp add: frame_cm_def)

lemma frame_cm_only: "only_grants s s' \<Longrightarrow> frame_cm s s'"
  by (simp add: frame_cm_def only_grants_community only_grants_messages)

lemma consume_frame:
  "consumeSecurityProof w i p d = Some d' \<Longrightarrow> same_community d d' \<and> same_messages d d'"
  by (auto simp: consumeSecurityProof_def same_community_def same_messages_def)

lemma register_frame:
  assumes "hostCandidateRegister w n a k hk ek h dp hp s = (res, s')" shows "frame_cm s s'"
proof -
  have "insert_candidate w c dp hp d = Some d' \<Longrightarrow> same_community d d' \<and> same_messages d d'" for c d d'
    by (auto simp: insert_candidate_def same_community_def same_messages_def appendOp_def dest!: consume_frame
        split: option.splits)
  then show ?thesis using assms
    by (auto simp: hostCandidateRegister_def Let_def frame_cm_def emit_def split: if_splits option.splits)
qed

lemma grantCreate_frame:
  assumes "hostGrantCreate w n a x c caps e s = (res, s')" shows "frame_cm s s'"
  using hostGrantCreate_step [OF assms]
  by (auto simp: frame_cm_def emit_def same_community_def same_messages_def appendOp_def)

lemma grantRevoke_frame:
  assumes "hostGrantRevoke w a g r s = (res, s')" shows "frame_cm s s'"
  using assms
  by (auto simp: hostGrantRevoke_def frame_cm_def emit_def same_community_def same_messages_def appendOp_def
      split: sum.splits option.splits if_splits)

lemma grantAccept_frame:
  assumes "hostGrantAccept w a k g p s = (res, s')" shows "frame_cm s s'"
proof -
  have "accept_grant w i g a d = Some d' \<Longrightarrow> same_community d d' \<and> same_messages d d'" for i g d d'
    by (auto simp: accept_grant_def same_community_def same_messages_def appendOp_def dest!: consume_frame)
  then show ?thesis using assms
    by (auto simp: hostGrantAccept_def frame_cm_def emit_def split: if_splits option.splits sum.splits)
qed

lemma persist_frame:
  "same_community d (persistWriterState w st p e ws d') = same_community d d'"
  "same_messages d (persistWriterState w st p e ws d') = same_messages d d'"
  "grants_ok (persistWriterState w st p e ws d') = grants_ok d'"
  by (simp_all add: persistWriterState_def set_meta_def same_community_def same_messages_def grants_ok_def)

lemma record_enrollment_frame:
  assumes "record_enrollment w i t g p d = Some d'"
  shows "same_community d d' \<and> same_messages d d' \<and> (grants_ok d \<longrightarrow> grants_ok d')"
proof -
  obtain d1 rows st e ws where d1: "consumeSecurityProof w i ''replica-enroll'' d = Some d1"
    and p: "d' = persistWriterState w st p e ws (d1\<lparr>replica_enrollments := rows\<rparr>)"
    using assms by (auto simp: record_enrollment_def split: option.splits)
  have d': "same_community d1 d'" "same_messages d1 d'" "grants_ok d' = grants_ok (d1\<lparr>replica_enrollments := rows\<rparr>)"
    unfolding p persist_frame by (simp_all add: same_community_def same_messages_def)
  have "same_community d d'" "same_messages d d'"
    using consume_frame [OF d1] d' by (simp_all add: same_community_def same_messages_def)
  moreover have "grants_ok d \<Longrightarrow> grants_ok (d1\<lparr>replica_enrollments := rows\<rparr>)"
    using consume_ok [OF _ d1] by (simp add: grants_ok_def)
  ultimately show ?thesis using d' by simp
qed

lemma finish_frame:
  assumes "finish_enrollment w env a proof t k v primary file s = (res, s')"
  shows "frame_cm s s' \<and> (grants_ok (db s) \<longrightarrow> grants_ok (db s'))"
  using assms record_enrollment_frame
  by (auto simp: finish_enrollment_def frame_cm_def split: sum.splits option.splits)

lemma frame_cm_trans: "frame_cm s s1 \<Longrightarrow> frame_cm s1 s' \<Longrightarrow> frame_cm s s'"
  by (simp add: frame_cm_def same_community_def same_messages_def)

lemma enroll_frame:
  assumes "enrollReplica w env n newId a key grantId proof s = (res, s')"
  shows "frame_cm s s' \<and> (grants_ok (db s) \<longrightarrow> grants_ok (db s'))"
proof (cases "\<exists>v row seed. activeHostGrant w a key grantId Replicate (db s) = Inr v
    \<and> get_row hg_id grantId (host_grants (db s)) = Some row \<and> read_seed (authority_seed w) = Inr (Some seed)
    \<and> writer s \<and> verifyHostPossession w ''enroll'' v (hg_enroll_key row) proof
    \<and> \<not> list_ex (\<lambda>r. en_grant r = grantId \<and> en_generation r = gp_generation (s_payload v)) (replica_enrollments (db s))")
  case False
  then have "s' = s" using assms
    by (auto simp: enrollReplica_def simp del: list_ex_iff split: if_splits sum.splits option.splits prod.splits)
  then show ?thesis by simp
next
  case True
  then obtain v row seed where v: "activeHostGrant w a key grantId Replicate (db s) = Inr v"
      "get_row hg_id grantId (host_grants (db s)) = Some row" "read_seed (authority_seed w) = Inr (Some seed)" "writer s"
      "verifyHostPossession w ''enroll'' v (hg_enroll_key row) proof"
    and dup: "\<not> list_ex (\<lambda>r. en_grant r = grantId \<and> en_generation r = gp_generation (s_payload v)) (replica_enrollments (db s))"
    by blast
  obtain r1 s1 where c: "currentHostGrant w n s = (r1, s1)" by force
  have s1: "frame_cm s s1" "grants_ok (db s) \<Longrightarrow> grants_ok (db s1)"
    using currentHostGrant_only [OF c] currentHostGrant_ok [OF _ c] by (simp_all add: frame_cm_only)
  have "s' = s1 \<or> (\<exists>t k primary file. finish_enrollment w env a proof t k v primary file s1 = (res, s'))"
    using assms
    by (auto simp: enrollReplica_def v c if_not_P [OF dup] split: sum.splits option.splits)
  then show ?thesis
  proof (elim disjE exE)
    assume "s' = s1" then show ?thesis using s1 by simp
  next
    fix t k primary bytes
    assume "finish_enrollment w env a proof t k v primary bytes s1 = (res, s')"
    then show ?thesis using finish_frame s1 frame_cm_trans by blast
  qed
qed

lemma route_hints_frame: "configuredDirectRouteHints w n k s = (res, s') \<Longrightarrow> frame_cm s s'"
  using configuredDirectRouteHints_only frame_cm_only by blast

lemma inviteCreate_frame:
  assumes "inviteCreate w g newId secret x r maxUses e s = (res, s')"
  shows "same_messages (db s) (db s') \<and> (grants_ok (db s) \<longrightarrow> grants_ok (db s')) \<and> roles (db s') = roles (db s)"
proof -
  from inviteCreate_step [OF assms] obtain s1 where s1: "only_grants s s1" "grants_ok (db s) \<longrightarrow> grants_ok (db s1)"
    and c: "s' = s1 \<or> (\<exists>row. s' = emit StateChanged (db_update (\<lambda>d. appendOp (OpInviteCreate newId)
             (d\<lparr>invites := invites (db s) @ [row]\<rparr>)) s1))"
    by metis
  have "grants_ok (d\<lparr>invites := t\<rparr>) = grants_ok d" for d t by (simp add: grants_ok_def)
  then show ?thesis using c s1 only_gr_simps [OF s1(1)]
    by (auto simp: same_messages_def emit_def appendOp_def grants_ok_def)
qed

section \<open>Messages and attachments\<close>

definition frame_cg :: "host \<Rightarrow> host \<Rightarrow> bool" where
  "frame_cg s s' \<longleftrightarrow> same_community (db s) (db s') \<and> same_grants (db s) (db s')"

lemma frame_cg_refl [simp]: "frame_cg s s"
  by (simp add: frame_cg_def)

lemma frame_cg_db: "db s' = db s \<Longrightarrow> frame_cg s s'"
  by (simp add: frame_cg_def)

lemma grants_links: "same_grants d (fold (link_attachment m) as d') = same_grants d d'"
  by (induction "as" arbitrary: d') (simp_all add: link_attachment_def same_grants_def)

lemma store_envelope_grants: "store_envelope w x e aud n d = Some d' \<Longrightarrow> same_grants d d'"
  by (auto simp: store_envelope_def ins_spool_def grants_links Let_def split: option.splits)
    (auto simp: same_grants_def)

lemma send_frame_cg: "sendEnvelope w x e s = (res, s') \<Longrightarrow> frame_cg s s'"
  using sendEnvelope_step [of w x e s res s'] same_community_send store_envelope_grants
  by (auto simp: frame_cg_def)

lemma purge_grants: "same_grants d (purge_db m d)" "same_grants d (set_consumed m c d)"
  by (simp_all add: purge_db_def set_consumed_def del_spool_def del_attachments_def Let_def same_grants_def appendOp_def)

lemma ack_frame: "ackConsumed x m s = (res, s') \<Longrightarrow> frame_cg s s'"
  using ack_step [of x m s res s'] purge_grants by (auto simp: frame_cg_def split: if_splits)

lemma ins_attachment_grants: "ins_attachment r d = Some d' \<Longrightarrow> same_grants d d'"
  by (auto simp: ins_attachment_def ins_row_def same_grants_def split: if_splits)

lemma begin_frame: "attachmentUploadBegin w x a c ms n k h ttl s = (res, s') \<Longrightarrow> frame_cg s s'"
  using begin_step [of w x a c ms n k h ttl s res s']
  by (auto simp: frame_cg_def dest: ins_attachment_tables ins_attachment_grants)

lemma abort_grants: "attachmentUploadAbort x a s = (res, s') \<Longrightarrow> same_grants (db s) (db s')"
  by (auto simp: attachmentUploadAbort_def del_attachments_def Let_def same_grants_def split: option.splits if_splits)

lemma chunk_frame:
  assumes "attachmentUploadChunk w x a i data n h s = (res, s')"
  shows "frame_cg s s' \<and> attachments (db s') = attachments (db s) \<and> spool (db s') = spool (db s)
    \<and> spool_usage (db s') = spool_usage (db s)"
  using chunk_step [OF assms] by (auto simp: frame_cg_def same_community_def same_grants_def)

text \<open>Some rows change without changing identity, link, owner or size.\<close>

definition upd_keeps :: "attachment list \<Rightarrow> attachment list \<Rightarrow> bool" where
  "upd_keeps t t' \<longleftrightarrow> (\<exists>P f. t' = upd_rows P f t
      \<and> (\<forall>r. at_asset (f r) = at_asset r \<and> at_linked (f r) = at_linked r \<and> at_owner (f r) = at_owner r \<and> at_bytes (f r) = at_bytes r))"

lemma upd_keepsI [intro]:
  "\<forall>r. at_asset (f r) = at_asset r \<and> at_linked (f r) = at_linked r \<and> at_owner (f r) = at_owner r \<and> at_bytes (f r) = at_bytes r
   \<Longrightarrow> upd_keeps t (upd_rows P f t)"
  unfolding upd_keeps_def by blast

lemma upd_keeps_refl [simp]: "upd_keeps t t"
  using upd_keepsI [of "\<lambda>r. r" t "\<lambda>_. False"] by (simp add: upd_rows_def)

lemma complete_frame:
  assumes "attachmentUploadComplete w x a s = (res, s')"
  shows "frame_cg s s' \<and> upd_keeps (attachments (db s)) (attachments (db s'))
    \<and> spool (db s') = spool (db s) \<and> spool_usage (db s') = spool_usage (db s)"
  using complete_step [OF assms]
  by (elim disjE exE conjE) (auto simp: frame_cg_def same_community_def same_grants_def)

lemma migrate_frame:
  assumes "migrateLegacyAttachment w a d = Inr d'"
  shows "same_community d d' \<and> same_grants d d' \<and> upd_keeps (attachments d) (attachments d')
    \<and> spool d' = spool d \<and> spool_usage d' = spool_usage d"
  using migrate_step [OF assms]
  by (elim disjE exE conjE) (auto simp: same_community_def same_grants_def)

text \<open>Rows of attachments that keep identity, link, owner and size keep the three invariants about them.\<close>

lemma upd_attachments_ok:
  assumes upd: "upd_keeps (attachments d) (attachments d')"
    and sp: "spool d' = spool d" "spool_usage d' = spool_usage d"
  shows "usage_ok d' = usage_ok d" and "spool_ok d \<Longrightarrow> spool_ok d'" and "pending_ok d \<Longrightarrow> pending_ok d'"
proof -
  from upd obtain P f where at: "attachments d' = upd_rows P f (attachments d)"
    and f: "\<forall>r. at_asset (f r) = at_asset r \<and> at_linked (f r) = at_linked r \<and> at_owner (f r) = at_owner r \<and> at_bytes (f r) = at_bytes r"
    unfolding upd_keeps_def by blast
  have "map (\<lambda>r. (at_owner r, at_bytes r)) (upd_rows P f t) = map (\<lambda>r. (at_owner r, at_bytes r)) t" for t
    using f by (induction t) (auto simp: upd_rows_def)
  then have "ledger d' = ledger d" by (simp only: ledger_def at sp)
  then show "usage_ok d' = usage_ok d" by (simp add: usage_ok_def sp)
  show "spool_ok d'" if "spool_ok d"
    using that f by (auto simp: spool_ok_def at sp pk_upd set_upd)
  have "filter (\<lambda>a. at_linked a = None \<and> Q (at_owner a)) (upd_rows P f t) = map (\<lambda>r. if P r then f r else r) (filter (\<lambda>a. at_linked a = None \<and> Q (at_owner a)) t)" for Q t
    using f by (induction t) (auto simp: upd_rows_def)
  then have l: "length (filter (\<lambda>a. at_linked a = None \<and> Q (at_owner a)) (attachments d')) = length (filter (\<lambda>a. at_linked a = None \<and> Q (at_owner a)) (attachments d))" for Q
    by (simp add: at)
  have "pending_all d' = pending_all d" using l [of "\<lambda>_. True"] by (simp add: pending_all_def)
  moreover have "pending_of x d' = pending_of x d" for x using l [of "\<lambda>y. y = x"] by (simp add: pending_of_def)
  ultimately show "pending_ok d'" if "pending_ok d" using that by (simp add: pending_ok_def)
qed

lemma readable_frames:
  "readableAttachment w x a s = (res, s') \<Longrightarrow> s' = s \<or> (\<exists>d. migrateLegacyAttachment w a (db s) = Inr d \<and> s' = s\<lparr>db := d\<rparr>)"
  by (auto simp: readableAttachment_def Let_def split: if_splits sum.splits option.splits)

lemma readable_ok:
  assumes "readableAttachment w x a s = (res, s')" and "messages_ok w (db s)" and "sha_ok w"
  shows "frame_cg s s' \<and> messages_ok w (db s')"
  using readable_frames [OF assms(1)]
proof (elim disjE exE conjE)
  fix d assume m: "migrateLegacyAttachment w a (db s) = Inr d" and s': "s' = s\<lparr>db := d\<rparr>"
  from migrate_frame [OF m] have u: "upd_keeps (attachments (db s)) (attachments d)"
      "spool d = spool (db s)" "spool_usage d = spool_usage (db s)"
    and fr: "same_community (db s) d" "same_grants (db s) d" by auto
  show ?thesis
    using upd_attachments_ok [OF u] migrate_ok [OF m _ assms(3)] assms(2) fr
    by (simp add: s' frame_cg_def messages_ok_def)
qed (use assms in simp)

section \<open>Every operation keeps the invariant\<close>

lemma host_ok_mg:
  assumes "host_ok w (db s)" and "community_ok (db s')" and "frame_mg s s'" and "set (roles (db s)) \<subseteq> set (roles (db s'))"
  shows "host_ok w (db s')"
  using assms by (auto simp: host_ok_def frame_mg_def messages_ok_same grants_ok_same has_default_role_def has_row_def)

lemma host_ok_cm:
  assumes "host_ok w (db s)" and "frame_cm s s'" and "grants_ok (db s')" shows "host_ok w (db s')"
  using assms messages_ok_same [of "db s" "db s'"] community_ok_same [of "db s" "db s'"] has_default_role_same [of "db s" "db s'"]
  by (simp add: host_ok_def frame_cm_def)

lemma host_ok_cg:
  assumes "host_ok w (db s)" and "frame_cg s s'" and "messages_ok w (db s')" shows "host_ok w (db s')"
  using assms grants_ok_same [of "db s" "db s'"] community_ok_same [of "db s" "db s'"] has_default_role_same [of "db s" "db s'"]
  by (simp add: host_ok_def frame_cg_def)

lemma host_okD:
  assumes "host_ok w d"
  shows "community_ok d" "has_default_role d" "messages_ok w d" "grants_ok d" "usage_ok d" "spool_ok d" "transfers_ok w d" "pending_ok d"
  using assms by (simp_all add: host_ok_def messages_ok_def)

lemma community_ops_ok:
  assumes ok: "host_ok w (db s)"
  shows "joinByInvite v x nick key k s = (r1, s') \<Longrightarrow> host_ok w (db s')"
    and "leave x s = (r2, s') \<Longrightarrow> host_ok w (db s')"
    and "transferOwnership x y s = (r2, s') \<Longrightarrow> host_ok w (db s')"
    and "roleCreate v i x name level ps s = (r3, s') \<Longrightarrow> level < 100 \<Longrightarrow> host_ok w (db s')"
    and "roleAssign x y i s = (r2, s') \<Longrightarrow> host_ok w (db s')"
    and "kick x y s = (r2, s') \<Longrightarrow> host_ok w (db s')"
    and "ban v x y s = (r2, s') \<Longrightarrow> host_ok w (db s')"
    and "authorizeDeviceLink v c x k k' e s = (r4, s') \<Longrightarrow> host_ok w (db s')"
    and "enrollDevice v x k c s = (r2, s') \<Longrightarrow> host_ok w (db s')"
    and "inviteRevoke x i s = (r2, s') \<Longrightarrow> host_ok w (db s')"
    and "channelCreate v c x ty n s = (r5, s') \<Longrightarrow> host_ok w (db s')"
    and "channelUpdateOverrides x c os s = (r5, s') \<Longrightarrow> host_ok w (db s')"
    and "updateConfig x p s = (r6, s') \<Longrightarrow> host_ok w (db s')"
    and "setPresence x st s = (r2, s') \<Longrightarrow> host_ok w (db s')"
  using host_okD(1) [OF ok] host_okD(2) [OF ok, unfolded has_default_role_def] host_ok_mg [OF ok]
    joinByInvite_ok [of s v x nick key k r1 s'] leave_ok [of s x r2 s'] transferOwnership_ok [of s x y r2 s']
    roleCreate_ok [of s v i x name level ps r3 s'] roleAssign_ok [of s x y i r2 s'] kick_ok [of s x y r2 s']
    ban_ok [of s v x y r2 s'] authorizeDeviceLink_ok [of s v c x k k' e r4 s'] enrollDevice_ok [of s v x k c r2 s']
    inviteRevoke_ok [of s x i r2 s'] channelCreate_ok [of s v c x ty n r5 s'] channelUpdateOverrides_ok [of s x c os r5 s']
    updateConfig_ok [of s x p r6 s'] setPresence_ok [of s x st r2 s']
    join_frame [of v x nick key k s r1 s'] leave_frame [of x s r2 s'] transfer_frame [of x y s r2 s']
    roleCreate_frame [of v i x name level ps s r3 s'] roleAssign_frame [of x y i s r2 s'] kick_frame [of x y s r2 s']
    ban_frame [of v x y s r2 s'] link_frames [of v c x k k' e s r4 s'] enrollDevice_frame [of v x k c s r2 s']
    inviteRevoke_frame [of x i s r2 s'] channelCreate_frame [of v c x ty n s r5 s'] overrides_frame [of x c os s r5 s']
    updateConfig_frame [of x p s r6 s'] setPresence_frame [of x st s r2 s']
  by simp_all

lemma inviteCreate_host_ok:
  assumes "host_ok w (db s)" and "inviteCreate v g i secret x r n e s = (res, s')" and "0 \<le> n"
  shows "host_ok w (db s')"
  using inviteCreate_frame [OF assms(2)] inviteCreate_ok [OF _ assms(2,3)] assms(1)
  by (auto simp: host_ok_def messages_ok_same has_default_role_def)

lemma grant_ops_ok:
  assumes ok: "host_ok w (db s)"
  shows "hostCandidateRegister v n a k hk ek h dp hp s = (r1, s') \<Longrightarrow> host_ok w (db s')"
    and "hostGrantCreate v n a x c caps e s = (r2, s') \<Longrightarrow> host_ok w (db s')"
    and "hostGrantRevoke v a g r s = (r3, s') \<Longrightarrow> host_ok w (db s')"
    and "hostGrantAccept v a k g p s = (r4, s') \<Longrightarrow> host_ok w (db s')"
    and "enrollReplica v env n i a k g p s = (r5, s') \<Longrightarrow> host_ok w (db s')"
    and "currentHostGrant v n s = (r6, s') \<Longrightarrow> host_ok w (db s')"
  using host_ok_cm [OF ok] host_okD(4) [OF ok]
    register_frame [of v n a k hk ek h dp hp s r1 s'] hostCandidateRegister_ok [of s v n a k hk ek h dp hp r1 s']
    grantCreate_frame [of v n a x c caps e s r2 s'] hostGrantCreate_ok [of s v n a x c caps e r2 s']
    grantRevoke_frame [of v a g r s r3 s'] hostGrantRevoke_ok [of s v a g r r3 s']
    grantAccept_frame [of v a k g p s r4 s'] hostGrantAccept_ok [of s v a k g p r4 s']
    enroll_frame [of v env n i a k g p s r5 s']
    frame_cm_only [OF currentHostGrant_only, of v n s r6 s'] currentHostGrant_ok [of s v n r6 s']
  by simp_all

lemma message_ops_ok:
  assumes ok: "host_ok w (db s)"
  shows "sendEnvelope w x e s = (r1, s') \<Longrightarrow> (\<And>e. 0 \<le> envelope_bytes w e) \<Longrightarrow> host_ok w (db s')"
    and "ackConsumed x m s = (r1, s') \<Longrightarrow> host_ok w (db s')"
    and "attachmentUploadBegin w x a c ms n k h ttl s = (r2, s') \<Longrightarrow> host_ok w (db s')"
    and "attachmentUploadAbort x a s = (r1, s') \<Longrightarrow> host_ok w (db s')"
  using host_ok_cg [OF ok] host_okD [OF ok]
    send_ok [of w x e s r1 s'] send_transfers [of w x e s r1 s'] send_frame_cg [of w x e s r1 s']
    ack_ok [of x m s r1 s'] ack_transfers [of x m s r1 s' w] ack_frame [of x m s r1 s']
    begin_ok [of w x a c ms n k h ttl s r2 s'] begin_frame [of w x a c ms n k h ttl s r2 s']
    abort_ok [of x a s r1 s' w] abort_grants [of x a s r1 s']
  by (simp_all add: messages_ok_def frame_cg_def)

lemma chunk_host_ok:
  assumes ok: "host_ok w (db s)" and run: "attachmentUploadChunk w x a i data n h s = (res, s')"
  shows "host_ok w (db s')"
proof (rule host_ok_cg [OF ok])
  note f = chunk_frame [OF run]
  have "ledger (db s') = ledger (db s)" using f by (simp add: ledger_def)
  then have "usage_ok (db s')" "spool_ok (db s')" "pending_ok (db s')"
    using host_okD [OF ok] f by (simp_all add: usage_ok_def spool_ok_def pending_ok_def pending_of_def pending_all_def)
  with chunk_ok [OF run] host_okD [OF ok] show "messages_ok w (db s')" by (simp add: messages_ok_def)
  show "frame_cg s s'" using f by simp
qed

lemma complete_host_ok:
  assumes ok: "host_ok w (db s)" and run: "attachmentUploadComplete w x a s = (res, s')"
  shows "host_ok w (db s')"
proof (rule host_ok_cg [OF ok])
  from complete_frame [OF run] have u: "upd_keeps (attachments (db s)) (attachments (db s'))"
      "spool (db s') = spool (db s)" "spool_usage (db s') = spool_usage (db s)"
    and fr: "frame_cg s s'" by auto
  from upd_attachments_ok [OF u] complete_ok [OF run] host_okD [OF ok] show "messages_ok w (db s')"
    by (simp add: messages_ok_def)
  show "frame_cg s s'" by (rule fr)
qed

lemma download_host_ok:
  assumes ok: "host_ok w (db s)" and "sha_ok w"
  shows "attachmentDownload w x a s = (r1, s') \<Longrightarrow> host_ok w (db s')"
    and "attachmentDownloadChunk w x a i s = (r2, s') \<Longrightarrow> host_ok w (db s')"
proof -
  obtain q s1 where q: "readableAttachment w x a s = (q, s1)" by force
  have "host_ok w (db s1)"
    using readable_ok [OF q _ assms(2)] host_okD(3) [OF ok] host_ok_cg [OF ok] by blast
  then show "attachmentDownload w x a s = (r1, s') \<Longrightarrow> host_ok w (db s')"
    "attachmentDownloadChunk w x a i s = (r2, s') \<Longrightarrow> host_ok w (db s')"
    by (auto simp: attachmentDownload_def attachmentDownloadChunk_def q split: sum.splits if_splits option.splits)
qed

end
