(* ===== verification/Gateway.thy ===== *)
theory Gateway
  imports Sessions Invariants
begin

text \<open>
  The signaling gateway (\<open>apps/janjanode/src/gateway.ts\<close>): frames, the authentication of a device, the
  routing of commands to the service, and the events a socket can undergo as a step relation.

  An exception the service lets escape leaves the message handler and ends the process, as the program
  installs no handler of its own: \<open>crashed\<close> records it, and a crashed gateway takes no step.
\<close>

section \<open>What a frame handler reads from outside\<close>

text \<open>
  \<open>allow_legacy\<close> is \<open>JC_ALLOW_LEGACY_AUTH\<close>; \<open>ice_servers\<close> the parsed \<open>JC_ICE_SERVERS\<close>; \<open>parse_json\<close> is
  \<open>JSON.parse\<close>. Fresh random values are drawn anew for every frame.
\<close>

record gateway_env =
  allow_legacy :: bool
  ice_servers :: "json option"
  parse_json :: "string \<Rightarrow> json option"
  replica :: replica_env

record fresh =
  f_grant :: string
  f_id :: string
  f_secret :: string
  f_capability :: string
  f_challenge :: string
  f_nonce :: string

section \<open>Routing\<close>

definition canAcceptCommand :: "host_command \<Rightarrow> host \<Rightarrow> bool" where
  "canAcceptCommand cmd s \<longleftrightarrow> writer s \<or>
     (case cmd of
        ServerState \<Rightarrow> True | ConnectivityIceConfig \<Rightarrow> True | HostGrantList \<Rightarrow> True | MessageGetPending \<Rightarrow> True
      | AttachmentDownload a \<Rightarrow> True | AttachmentDownloadChunk a i \<Rightarrow> True | KeypackageGet m \<Rightarrow> True
      | WelcomePending \<Rightarrow> True | ReplicaPing g sv e \<Rightarrow> True
      | _ \<Rightarrow> False)"

type_synonym routed = "(exn + answer) \<times> host \<times> ice_table"

definition reply :: "('a \<Rightarrow> answer) \<Rightarrow> ice_table \<Rightarrow> 'a result \<times> host \<Rightarrow> routed" where
  "reply f m r =
     ((case fst r of Inl (Fail code) \<Rightarrow> Inr (Failed code) | Inl (Throws e) \<Rightarrow> Inl e | Inr x \<Rightarrow> Inr (f x)), snd r, m)"

primrec route :: "world \<Rightarrow> gateway_env \<Rightarrow> fresh \<Rightarrow> string \<Rightarrow> string \<Rightarrow> host_command \<Rightarrow> host \<Rightarrow> ice_table \<Rightarrow> routed" where
  "route w env n x key (ServerCreate name) s m = (Inr (Failed Conflict), s, m)"
| "route w env n x key (ServerJoin inviteKey nickname) s m =
     reply AState m (joinByInvite w x (case nickname of None \<Rightarrow> x | Some nm \<Rightarrow> nm) inviteKey key s)"
| "route w env n x key ServerLeave s m = reply (\<lambda>_. Done) m (leave x s)"
| "route w env n x key ServerState s m = reply AState m (getState w x s, s)"
| "route w env n x key ConnectivityIceConfig s m =
     (let r = connectivityIceConfig w (ice_servers env) x (db s) m in reply AIce (snd r) (fst r, s))"
| "route w env n x key (ServerTransferOwnership new) s m = reply (\<lambda>_. Done) m (transferOwnership x new s)"
| "route w env n x key (ServerUpdateConfig p) s m = reply AConfig m (updateConfig x (patch_object p) s)"
| "route w env n x key (InviteCreate r maxUses e) s m =
     reply (\<lambda>(i, k). AInvite i k) m
       (inviteCreate w (f_grant n) (f_id n) (f_secret n) x r (case maxUses of None \<Rightarrow> 1 | Some u \<Rightarrow> u) e s)"
| "route w env n x key (InviteRevoke i) s m = reply (\<lambda>_. Done) m (inviteRevoke x i s)"
| "route w env n x key InviteList s m = reply AInvites m (inviteList w x s, s)"
| "route w env n x key (ChannelCreate ty name) s m = reply AChannel m (channelCreate w (f_id n) x ty name s)"
| "route w env n x key (ChannelUpdateOverrides ch ovs) s m = reply AChannel m (channelUpdateOverrides x ch ovs s)"
| "route w env n x key (RoleCreate name level ps) s m = reply ARole m (roleCreate w (f_id n) x name level ps s)"
| "route w env n x key (RoleAssign y r) s m = reply (\<lambda>_. Done) m (roleAssign x y r s)"
| "route w env n x key (HostCandidateRegister hostKey enrollKey hostId deviceProof hostProof) s m =
     reply ACandidate m (hostCandidateRegister w (f_id n) x key hostKey enrollKey hostId deviceProof hostProof s)"
| "route w env n x key (HostGrantCreate subject candidate caps e) s m =
     reply (\<lambda>(g, st). AGrant g st) m (hostGrantCreate w (f_grant n) x subject candidate caps e s)"
| "route w env n x key (HostGrantRevoke g reason) s m = reply ARevocation m (hostGrantRevoke w x g reason s)"
| "route w env n x key (HostGrantAccept g proof) s m = reply (\<lambda>_. Done) m (hostGrantAccept w x key g proof s)"
| "route w env n x key HostGrantList s m = reply AGrants m (hostGrantList w x (db s), s)"
| "route w env n x key (DeviceLinkAuthorize new e) s m =
     reply (\<lambda>(c, t). ALink c t) m (authorizeDeviceLink w (f_capability n) x key new e s)"
| "route w env n x key (DeviceEnroll cap) s m = reply (\<lambda>_. Done) m (enrollDevice w x key cap s)"
| "route w env n x key (MemberKick y) s m = reply (\<lambda>_. Done) m (kick x y s)"
| "route w env n x key (MemberBan y) s m = reply (\<lambda>_. Done) m (ban w x y s)"
| "route w env n x key (MessageSend e) s m = reply (\<lambda>_. Done) m (sendEnvelope w x e s)"
| "route w env n x key (MessageAckConsumed i) s m = reply (\<lambda>_. Done) m (ackConsumed x i s)"
| "route w env n x key MessageGetPending s m = reply AEnvelopes m (getPending w x s, s)"
| "route w env n x key (PresenceSet st) s m = reply (\<lambda>_. Done) m (setPresence x st s)"
| "route w env n x key (ReplicaEnroll g proof) s m =
     reply AEnrollment m (enrollReplica w (replica env) (f_grant n) (f_id n) x key g proof s)"
| "route w env n x key (ReplicaSnapshot g sv) s m = reply ASnapshot m (getSnapshot w (replica env) x key g sv (db s), s)"
| "route w env n x key (ReplicaPing g sv e) s m = reply AEpoch m (replicaPing w x key g sv e (db s), s)"
| "route w env n x key (AttachmentUploadBegin a ch ms sz k h ttl) s m =
     reply AReceived m (attachmentUploadBegin w x a ch ms sz k h ttl s)"
| "route w env n x key (AttachmentUploadChunk a i data sz h) s m =
     reply (\<lambda>_. Done) m (attachmentUploadChunk w x a i data sz h s)"
| "route w env n x key (AttachmentUploadComplete a) s m = reply (\<lambda>_. Done) m (attachmentUploadComplete w x a s)"
| "route w env n x key (AttachmentUploadAbort a) s m = reply (\<lambda>_. Done) m (attachmentUploadAbort x a s)"
| "route w env n x key (AttachmentDownload a) s m = reply (\<lambda>(sz, k, h). AManifest sz k h) m (attachmentDownload w x a s)"
| "route w env n x key (AttachmentDownloadChunk a i) s m = reply AChunk m (attachmentDownloadChunk w x a i s)"
| "route w env n x key (CallJoin ch) s m = reply AParticipants m (callJoin x ch s)"
| "route w env n x key (CallLeave ch) s m = reply (\<lambda>_. Done) m (callLeave x ch s)"
| "route w env n x key (CallSignalSend ch to payload) s m = reply (\<lambda>_. Done) m (callSignal x ch to payload s)"
| "route w env n x key (KeypackageUpload k) s m = reply (\<lambda>_. Done) m (keyPackageUpload w x k s)"
| "route w env n x key (KeypackageGet y) s m = reply AText m (keyPackageGet w x y s, s)"
| "route w env n x key (WelcomePush y wl) s m = reply (\<lambda>_. Done) m (welcomePush w x y wl s)"
| "route w env n x key WelcomePending s m = reply AWelcome m (welcomePending w x s, s)"
| "route w env n x key (WelcomeAckConsumed i) s m = reply (\<lambda>_. Done) m (welcomeAckConsumed w x i s)"

section \<open>Frames\<close>

text \<open>
  A text frame after \<open>JSON.parse\<close>: the fields the handler of its event reads, \<open>None\<close> for a field that is
  absent (or, for a proof, a command or an envelope, that has not the shape of one). A binary frame, one over
  64 KiB and one that is no JSON object are told apart before.
\<close>

datatype frame_in =
    BinaryFrame
  | OversizedFrame
  | NotJson
  | AuthBegin "string option" "string option"
  | AuthProve "(session_auth \<times> string) option"
  | Hello "string option"
  | Command "host_command option"
  | EnvelopeSend "envelope option"
  | OtherEvent

definition send_result :: "socket \<Rightarrow> answer \<Rightarrow> gateway \<Rightarrow> gateway" where
  "send_result c a g = send_frame c (OutResult a) g"

definition authBegin :: "world \<Rightarrow> fresh \<Rightarrow> socket \<Rightarrow> string option \<Rightarrow> string option \<Rightarrow> gateway \<Rightarrow> gateway" where
  "authBegin w n c identityId publicKey g =
     (if identityOf c g \<noteq> [] \<or> challenges g c \<noteq> None then close_socket c 1008 g
      else case consumeAuthAttempt (now w) c g of
          (False, g1) \<Rightarrow> close_socket c 1008 g1
        | (True, g1) \<Rightarrow>
            (case (identityId, publicKey) of
               (Some x, Some k) \<Rightarrow>
                 if x = [] \<or> \<not> PublicKeySchema k
                 then close_socket c 1008 (send_frame c (OutAuthError Invalid_input) g1)
                 else
                   let ch = \<lparr>ch_challenge = f_challenge n, ch_nonce = f_nonce n, ch_identity = x, ch_key = k,
                             ch_expires = now w + AUTH_DEADLINE_MS\<rparr>;
                       g2 = g1\<lparr>challenges := (challenges g1)(c \<mapsto> ch)\<rparr> in
                   (case signedAuthChallenge w (f_grant n) (ch_challenge ch) (ch_nonce ch) (ch_expires ch) (svc g2) of
                      (Inl e, s) \<Rightarrow> (with_svc s g2)\<lparr>crashed := Some e\<rparr>
                    | (Inr r, s) \<Rightarrow> send_frame c (OutChallenge r) (with_svc s g2))
             | _ \<Rightarrow> close_socket c 1008 (send_frame c (OutAuthError Invalid_input) g1)))"

definition needs_enrollment :: "db \<Rightarrow> string \<Rightarrow> string \<Rightarrow> bool" where
  "needs_enrollment d x k \<longleftrightarrow> isMember d x \<and> \<not> isAuthorizedDevice d x k"

definition authProve :: "world \<Rightarrow> socket \<Rightarrow> (session_auth \<times> string) option \<Rightarrow> gateway \<Rightarrow> gateway" where
  "authProve w c data g =
     (case consumeAuthAttempt (now w) c g of
        (False, g1) \<Rightarrow> close_socket c 1008 g1
      | (True, g1) \<Rightarrow>
          (case challenges g1 c of
             None \<Rightarrow> close_socket c 1008 (send_frame c (OutAuthError Unauthorized) g1)
           | Some ch \<Rightarrow>
               if ch_expires ch \<le> now w then close_socket c 1008 (send_frame c (OutAuthError Unauthorized) g1)
               else
                 let proof = (case data of None \<Rightarrow> None
                              | Some v \<Rightarrow> verifySignedSessionAuth w v (server_id w) (ch_challenge ch) (ch_nonce ch) (now w));
                     g2 = g1\<lparr>challenges := (challenges g1)(c := None)\<rparr> in
                 (case proof of
                    None \<Rightarrow> close_socket c 1008 (send_frame c (OutAuthError Unauthorized) g2)
                  | Some v \<Rightarrow>
                      let p = fst v in
                      if sa_identity p \<noteq> ch_identity ch \<or> sa_key p \<noteq> ch_key ch
                      then close_socket c 1008 (send_frame c (OutAuthError Unauthorized) g2)
                      else
                        let need = needs_enrollment (db (svc g2)) (sa_identity p) (sa_key p) in
                        send_frame c (OutReady (sa_identity p) need)
                          (g2\<lparr>identities := map_set c (sa_identity p) (identities g2),
                              devicePublicKeys := (devicePublicKeys g2)(c \<mapsto> sa_key p),
                              pendingDeviceEnrollment :=
                                (if need then js_add c (pendingDeviceEnrollment g2) else pendingDeviceEnrollment g2),
                              authDeadlines := js_delete c (authDeadlines g2)\<rparr>))))"

definition hello :: "world \<Rightarrow> gateway_env \<Rightarrow> socket \<Rightarrow> string option \<Rightarrow> gateway \<Rightarrow> gateway" where
  "hello w env c claimed g =
     (let claim = (case claimed of None \<Rightarrow> '''' | Some x \<Rightarrow> x);
          legacy = identityOf c g = [] \<and> allow_legacy env;
          x = (if legacy then claim else identityOf c g);
          g1 = (if legacy then g\<lparr>identities := map_set c x (identities g)\<rparr> else g) in
      if x = [] then send_result c (Failed Unauthorized) g1
      else if claim \<noteq> [] \<and> claim \<noteq> x then send_result c (Failed Unauthorized) g1
      else if c \<in> set (pendingDeviceEnrollment g1) then send_result c (Failed Unauthorized) g1
      else
        let g2 = (if writer (svc g1) then with_svc (snd (setPresence x ''online'' (svc g1))) g1 else g1) in
        (case reply AState [] (getState w x (svc g2), svc g2) of
           (Inl e, _) \<Rightarrow> g2\<lparr>crashed := Some e\<rparr>
         | (Inr a, _) \<Rightarrow> send_result c a g2))"

definition is_enroll :: "host_command \<Rightarrow> bool" where
  "is_enroll cmd = (case cmd of DeviceEnroll cap \<Rightarrow> True | _ \<Rightarrow> False)"

definition is_upload_begin :: "host_command \<Rightarrow> bool" where
  "is_upload_begin cmd = (case cmd of AttachmentUploadBegin a ch ms sz k h ttl \<Rightarrow> True | _ \<Rightarrow> False)"

definition answered_ok :: "answer \<Rightarrow> bool" where
  "answered_ok a = (case a of Failed code \<Rightarrow> False | _ \<Rightarrow> True)"

definition device_key :: "socket \<Rightarrow> gateway \<Rightarrow> string" where
  "device_key c g = (case devicePublicKeys g c of None \<Rightarrow> '''' | Some k \<Rightarrow> k)"

definition command_frame ::
    "world \<Rightarrow> gateway_env \<Rightarrow> fresh \<Rightarrow> socket \<Rightarrow> host_command option \<Rightarrow> gateway \<Rightarrow> gateway" where
  "command_frame w env n c data g =
     (let x = identityOf c g in
      if x = [] then send_result c (Failed Unauthorized) g
      else case (case data of None \<Rightarrow> None | Some cmd0 \<Rightarrow> HostCommandSchema w (parse_json env) cmd0) of
          None \<Rightarrow> send_result c (Failed Invalid_input) g
        | Some cmd \<Rightarrow>
            if c \<in> set (pendingDeviceEnrollment g) \<and> \<not> is_enroll cmd then send_result c (Failed Unauthorized) g
            else if \<not> canAcceptCommand cmd (svc g) then send_result c (Failed Conflict) g
            else
              let bk = bucket_consume (attachmentBeginBucket g c) (now w);
                  g1 = (if is_upload_begin cmd
                        then g\<lparr>attachmentBeginBucket := (attachmentBeginBucket g)(c \<mapsto> snd bk)\<rparr> else g) in
              if is_upload_begin cmd \<and> \<not> fst bk then send_result c (Failed Rate_limited) g1
              else
                (case route w env n x (device_key c g1) cmd (svc g1) (bridgeIceConfigs g1) of
                   (r, s, m) \<Rightarrow>
                     let g2 = with_svc s (g1\<lparr>bridgeIceConfigs := m\<rparr>) in
                     (case r of
                        Inl e \<Rightarrow> g2\<lparr>crashed := Some e\<rparr>
                      | Inr a \<Rightarrow>
                          let g3 = (if is_enroll cmd \<and> answered_ok a
                                    then g2\<lparr>pendingDeviceEnrollment := js_delete c (pendingDeviceEnrollment g2)\<rparr> else g2)
                          in send_result c a g3)))"

text \<open>
  \<open>envelope.send\<close>: any exception, of the schema or of the service, becomes \<open>invalid_input\<close>; what the
  service changed before it threw stays.
\<close>

definition envelope_frame :: "world \<Rightarrow> socket \<Rightarrow> envelope option \<Rightarrow> gateway \<Rightarrow> gateway" where
  "envelope_frame w c data g =
     (let x = identityOf c g in
      if x = [] then send_result c (Failed Unauthorized) g
      else if \<not> writer (svc g) then send_result c (Failed Conflict) g
      else case data of
          None \<Rightarrow> send_result c (Failed Invalid_input) g
        | Some e \<Rightarrow>
            if \<not> MessageEnvelopeSchema w e then send_result c (Failed Invalid_input) g
            else
              (case reply (\<lambda>_. Done) [] (sendEnvelope w x e (svc g)) of
                 (r, s, _) \<Rightarrow>
                   let g1 = with_svc s g in
                   (case r of
                      Inl ex \<Rightarrow> send_result c (Failed Invalid_input) g1
                    | Inr a \<Rightarrow> send_result c a g1)))"

fun handleFrame :: "world \<Rightarrow> gateway_env \<Rightarrow> fresh \<Rightarrow> socket \<Rightarrow> frame_in \<Rightarrow> gateway \<Rightarrow> gateway" where
  "handleFrame w env n c BinaryFrame g = close_socket c 1003 g"
| "handleFrame w env n c OversizedFrame g = close_socket c 1009 g"
| "handleFrame w env n c NotJson g = trackMalformed (now w) c g"
| "handleFrame w env n c (AuthBegin x k) g = authBegin w n c x k g"
| "handleFrame w env n c (AuthProve v) g = authProve w c v g"
| "handleFrame w env n c (Hello x) g = hello w env c x g"
| "handleFrame w env n c (Command cmd) g = command_frame w env n c cmd g"
| "handleFrame w env n c (EnvelopeSend e) g = envelope_frame w c e g"
| "handleFrame w env n c OtherEvent g =
     (let g1 = send_result c (Failed Invalid_input) g
      in if identityOf c g1 = [] then close_socket c 1008 g1 else g1)"

section \<open>Connections\<close>

definition handleConnection :: "socket \<Rightarrow> string option \<Rightarrow> string option \<Rightarrow> gateway \<Rightarrow> gateway" where
  "handleConnection c remote header g =
     (case acceptConnection c remote header g of
        (False, g1) \<Rightarrow> g1
      | (True, g1) \<Rightarrow> g1\<lparr>identities := map_set c '''' (identities g1)\<rparr>)"

text \<open>The socket is no longer open when its end is handled; 1005 is the code of a close without one.\<close>

definition handleDisconnect :: "socket \<Rightarrow> gateway \<Rightarrow> gateway" where
  "handleDisconnect c g0 =
     (let g = close_socket c 1005 g0;
          x = identityOf c g;
          g1 = (if x \<noteq> [] \<and> writer (svc g) then with_svc (snd (setPresence x ''offline'' (svc g))) g else g)
      in releaseConnection c
           (g1\<lparr>identities := map_delete c (identities g1), devicePublicKeys := (devicePublicKeys g1)(c := None),
               pendingDeviceEnrollment := js_delete c (pendingDeviceEnrollment g1),
               challenges := (challenges g1)(c := None)\<rparr>))"

text \<open>The timer of \<open>acceptConnection\<close>.\<close>

definition authDeadline :: "socket \<Rightarrow> gateway \<Rightarrow> gateway" where
  "authDeadline c g = (if identityOf c g = [] then close_socket c 1008 g else g)"

section \<open>The gateway as a state machine\<close>

definition initial_gateway :: "host \<Rightarrow> gateway" where
  "initial_gateway s =
     \<lparr>identities = [], devicePublicKeys = Map.empty, pendingDeviceEnrollment = [], challenges = Map.empty,
      malformedCount = Map.empty, connectionIps = [], ipConnections = Map.empty, iceSessionConnections = Map.empty,
      connectionIceSessions = [], authDeadlines = [], authAttempts = Map.empty, attachmentBeginBucket = Map.empty,
      sent = [], closing = [], crashed = None, svc = s, bridgeIceConfigs = []\<rparr>"

definition unused :: "socket \<Rightarrow> gateway \<Rightarrow> bool" where
  "unused c g \<longleftrightarrow>
     c \<notin> fst ` set (identities g) \<and> c \<notin> fst ` set (connectionIps g) \<and> c \<notin> fst ` set (connectionIceSessions g)
     \<and> c \<notin> fst ` set (closing g) \<and> c \<notin> fst ` set (sent g) \<and> challenges g c = None \<and> devicePublicKeys g c = None
     \<and> c \<notin> set (pendingDeviceEnrollment g) \<and> c \<notin> set (authDeadlines g) \<and> attachmentBeginBucket g c = None"

text \<open>
  One event: a new socket, a frame on a socket whose handler is installed, the end of a socket, the
  authentication timer, what the bridges report of TURN credentials, and the two periodic loops of the service.
  Each happens at its own time.
\<close>

inductive gateway_step :: "world \<Rightarrow> gateway_env \<Rightarrow> gateway \<Rightarrow> gateway \<Rightarrow> bool" for w env where
  connect: "crashed g = None \<Longrightarrow> unused c g \<Longrightarrow> gateway_step w env g (handleConnection c remote header g)"
| message: "crashed g = None \<Longrightarrow> c \<in> fst ` set (identities g)
    \<Longrightarrow> gateway_step w env g (handleFrame (w\<lparr>now := t\<rparr>) env n c f g)"
| disconnect: "crashed g = None \<Longrightarrow> gateway_step w env g (handleDisconnect c g)"
| deadline: "crashed g = None \<Longrightarrow> c \<in> set (authDeadlines g) \<Longrightarrow> gateway_step w env g (authDeadline c g)"
| ice_upsert: "crashed g = None
    \<Longrightarrow> gateway_step w env g (g\<lparr>bridgeIceConfigs := snd (upsertBridgeIceConfig source v t (bridgeIceConfigs g))\<rparr>)"
| ice_remove: "crashed g = None
    \<Longrightarrow> gateway_step w env g (g\<lparr>bridgeIceConfigs := removeBridgeIceConfig source (bridgeIceConfigs g)\<rparr>)"
| retention: "crashed g = None \<Longrightarrow> gateway_step w env g (with_svc (retention_tick (w\<lparr>now := t\<rparr>) (svc g)) g)"
| cleanup: "crashed g = None \<Longrightarrow> gateway_step w env g (with_svc (cleanup_tick (w\<lparr>now := t\<rparr>) (svc g)) g)"

inductive_cases gateway_stepE: "gateway_step w env g g'"

end
