(* ===== verification/Transitions.thy ===== *)
theory Transitions
  imports Prelude
begin

text \<open>
  Runs of a step relation. \<open>step_invariant\<close> is the contract between a state machine and a predicate its
  steps keep; \<open>step_progress\<close> between a state machine and a preorder its steps follow.
\<close>

locale step_invariant =
  fixes step :: "'s \<Rightarrow> 's \<Rightarrow> bool" and inv :: "'s \<Rightarrow> bool"
  assumes step_keeps: "inv s \<Longrightarrow> step s s' \<Longrightarrow> inv s'"
begin

lemma run_keeps: "rtranclp step s s' \<Longrightarrow> inv s \<Longrightarrow> inv s'"
  by (induction rule: rtranclp_induct) (auto intro: step_keeps)

lemma run_and_step: "rtranclp step s s' \<Longrightarrow> inv s \<Longrightarrow> step s' s'' \<Longrightarrow> inv s''"
  by (blast intro: step_keeps run_keeps)

end

locale step_progress =
  fixes step :: "'s \<Rightarrow> 's \<Rightarrow> bool" and below :: "'s \<Rightarrow> 's \<Rightarrow> bool"
  assumes below_refl: "below s s"
    and below_trans: "below s s' \<Longrightarrow> below s' s'' \<Longrightarrow> below s s''"
    and step_below: "step s s' \<Longrightarrow> below s s'"
begin

lemma run_below: "rtranclp step s s' \<Longrightarrow> below s s'"
  by (induction rule: rtranclp_induct) (auto intro: below_refl below_trans step_below)

end

end
