(* ===== verification/GatewaySafety.thy ===== *)
theory GatewaySafety
  imports Gateway Transitions
begin

text \<open>
  What holds of every run of the signaling gateway (\<open>apps/janjanode/src/gateway.ts\<close>): the database
  invariant, how a socket gets an identity, what a socket without one can do, what a read-only host refuses,
  and the limits on connections and uploads.
\<close>

section \<open>Sending changes nothing but what was sent\<close>

definition only_sent :: "gateway \<Rightarrow> gateway \<Rightarrow> bool" where
  "only_sent g g' \<longleftrightarrow> (\<exists>l. g' = g\<lparr>sent := sent g @ l\<rparr>)"

lemma only_sent_refl [simp]: "only_sent g g"
  unfolding only_sent_def by (rule exI [of _ "[]"]) simp

lemma only_sent_trans: "only_sent g g' \<Longrightarrow> only_sent g' g'' \<Longrightarrow> only_sent g g''"
  unfolding only_sent_def by auto

lemma only_sent_send [simp]: "only_sent g (send_frame c f g)"
proof (cases "c \<in> fst ` set (closing g)")
  case False
  then show ?thesis unfolding only_sent_def send_frame_def by (intro exI [of _ "[(c, f)]"]) simp
qed (simp add: send_frame_def)

lemma only_sent_fold: "(\<And>x g. only_sent g (f x g)) \<Longrightarrow> only_sent g (fold f xs g)"
proof (induction xs arbitrary: g)
  case (Cons x xs)
  from Cons.prems [of g x] Cons.IH [OF Cons.prems, of "f x g"] show ?case by (simp add: only_sent_trans)
qed simp

lemma only_sent_push [simp]: "only_sent g (push x e g)"
  unfolding push_def by (rule only_sent_fold) (auto split: prod.split)

lemma only_sent_broadcast [simp]: "only_sent g (broadcast e g)"
  unfolding broadcast_def by (rule only_sent_fold) (auto split: prod.split)

lemma only_sent_dispatch: "only_sent g (dispatch e g)"
proof (cases e)
  case (MemberRemoved x r)
  then show ?thesis using only_sent_trans [OF only_sent_push only_sent_broadcast] by simp
qed (auto intro: only_sent_fold)

lemma with_svc_sent: "only_sent (g\<lparr>svc := s\<rparr>) (with_svc s g)"
  unfolding with_svc_def by (rule only_sent_fold) (rule only_sent_dispatch)

lemma only_sent_fields:
  assumes "only_sent g g'"
  shows "identities g' = identities g" "devicePublicKeys g' = devicePublicKeys g"
    "pendingDeviceEnrollment g' = pendingDeviceEnrollment g" "challenges g' = challenges g"
    "malformedCount g' = malformedCount g" "connectionIps g' = connectionIps g" "ipConnections g' = ipConnections g"
    "iceSessionConnections g' = iceSessionConnections g" "connectionIceSessions g' = connectionIceSessions g"
    "authDeadlines g' = authDeadlines g" "authAttempts g' = authAttempts g"
    "attachmentBeginBucket g' = attachmentBeginBucket g" "closing g' = closing g" "crashed g' = crashed g"
    "svc g' = svc g" "bridgeIceConfigs g' = bridgeIceConfigs g"
  using assms by (auto simp: only_sent_def)

lemmas send_frame_fields [simp] = only_sent_fields [OF only_sent_send]

lemma with_svc_fields [simp]:
  "identities (with_svc s g) = identities g" "devicePublicKeys (with_svc s g) = devicePublicKeys g"
  "pendingDeviceEnrollment (with_svc s g) = pendingDeviceEnrollment g" "challenges (with_svc s g) = challenges g"
  "malformedCount (with_svc s g) = malformedCount g" "connectionIps (with_svc s g) = connectionIps g"
  "ipConnections (with_svc s g) = ipConnections g" "iceSessionConnections (with_svc s g) = iceSessionConnections g"
  "connectionIceSessions (with_svc s g) = connectionIceSessions g" "authDeadlines (with_svc s g) = authDeadlines g"
  "authAttempts (with_svc s g) = authAttempts g" "attachmentBeginBucket (with_svc s g) = attachmentBeginBucket g"
  "closing (with_svc s g) = closing g" "crashed (with_svc s g) = crashed g"
  "svc (with_svc s g) = s" "bridgeIceConfigs (with_svc s g) = bridgeIceConfigs g"
  by (simp_all add: only_sent_fields [OF with_svc_sent])

lemma close_fields [simp]:
  "identities (close_socket c k g) = identities g" "devicePublicKeys (close_socket c k g) = devicePublicKeys g"
  "pendingDeviceEnrollment (close_socket c k g) = pendingDeviceEnrollment g" "challenges (close_socket c k g) = challenges g"
  "connectionIps (close_socket c k g) = connectionIps g" "ipConnections (close_socket c k g) = ipConnections g"
  "iceSessionConnections (close_socket c k g) = iceSessionConnections g"
  "connectionIceSessions (close_socket c k g) = connectionIceSessions g" "authDeadlines (close_socket c k g) = authDeadlines g"
  "authAttempts (close_socket c k g) = authAttempts g" "attachmentBeginBucket (close_socket c k g) = attachmentBeginBucket g"
  "crashed (close_socket c k g) = crashed g" "svc (close_socket c k g) = svc g"
  "bridgeIceConfigs (close_socket c k g) = bridgeIceConfigs g" "sent (close_socket c k g) = sent g"
  by (simp_all add: close_socket_def)

lemma identityOf_cong [simp]:
  "identityOf c (send_frame c' f g) = identityOf c g" "identityOf c (with_svc s g) = identityOf c g"
  "identityOf c (close_socket c' k g) = identityOf c g"
  by (simp_all add: identityOf_def)

lemma attempt_fields [simp]:
  "identities (snd (consumeAuthAttempt t c g)) = identities g" "devicePublicKeys (snd (consumeAuthAttempt t c g)) = devicePublicKeys g"
  "pendingDeviceEnrollment (snd (consumeAuthAttempt t c g)) = pendingDeviceEnrollment g"
  "challenges (snd (consumeAuthAttempt t c g)) = challenges g" "svc (snd (consumeAuthAttempt t c g)) = svc g"
  "connectionIps (snd (consumeAuthAttempt t c g)) = connectionIps g" "ipConnections (snd (consumeAuthAttempt t c g)) = ipConnections g"
  "iceSessionConnections (snd (consumeAuthAttempt t c g)) = iceSessionConnections g"
  "connectionIceSessions (snd (consumeAuthAttempt t c g)) = connectionIceSessions g"
  "sent (snd (consumeAuthAttempt t c g)) = sent g" "closing (snd (consumeAuthAttempt t c g)) = closing g"
  by (simp_all add: consumeAuthAttempt_def Let_def)

text \<open>The two ways an attempt goes, as a case distinction on the counter.\<close>

definition attempt_allowed :: "int \<Rightarrow> socket \<Rightarrow> gateway \<Rightarrow> bool" where
  "attempt_allowed t c g = fst (consumeAuthAttempt t c g)"

lemma attempt_case:
  "(case consumeAuthAttempt t c g of (False, g1) \<Rightarrow> f g1 | (True, g1) \<Rightarrow> h g1)
   = (if attempt_allowed t c g then h (snd (consumeAuthAttempt t c g)) else f (snd (consumeAuthAttempt t c g)))"
  by (cases "consumeAuthAttempt t c g"; cases "fst (consumeAuthAttempt t c g)") (auto simp: attempt_allowed_def)

section \<open>The database invariant\<close>

lemma host_ok_now [simp]: "host_ok (w\<lparr>now := t\<rparr>) d = host_ok w d"
proof -
  have "decode_rows (w\<lparr>now := t\<rparr>) a k cs = decode_rows w a k cs" for a k cs
    by (induction cs arbitrary: k) (simp_all cong: sum.case_cong)
  then have "transfer_complete (w\<lparr>now := t\<rparr>) cs a = transfer_complete w cs a" for cs a
    by (simp add: transfer_complete_def)
  moreover have "chunk_valid (w\<lparr>now := t\<rparr>) a c = chunk_valid w a c" for a c by (simp add: chunk_valid_def)
  ultimately show ?thesis by (simp add: host_ok_def messages_ok_def transfers_ok_def tables_ok_def)
qed

lemma world_ok_now [simp]: "world_ok (w\<lparr>now := t\<rparr>) = world_ok w"
  by (simp add: world_ok_def sha_ok_def)

lemma reply_svc [simp]: "reply f m r = (q, s', m') \<longleftrightarrow> (snd r = s' \<and> m = m' \<and> fst (reply f m r) = q)"
  by (auto simp: reply_def)

lemma mailbox_frame:
  "db (snd (callJoin x ch s)) = db s" "db (snd (callLeave x ch s)) = db s" "db (snd (callSignal x ch to p s)) = db s"
  by (auto simp: callJoin_def callLeave_def callSignal_def Let_def emit_def split: option.splits sum.splits bool.splits)

lemma mls_host_ok:
  assumes ok: "host_ok w (db s)"
  shows "host_ok w (db (snd (keyPackageUpload v x k s)))" "host_ok w (db (snd (welcomePush v x y wl s)))"
    "host_ok w (db (snd (welcomeAckConsumed v x i s)))"
proof -
  have fr: "host_ok w (key_packages_update kp d) = host_ok w d" "host_ok w (welcomes_update ws d) = host_ok w d" for d kp ws
    by (simp_all add: host_ok_def community_ok_def has_default_role_def messages_ok_def usage_ok_def ledger_def spool_ok_def
        transfers_ok_def pending_ok_def pending_of_def pending_all_def grants_ok_def)
  show "host_ok w (db (snd (keyPackageUpload v x k s)))" "host_ok w (db (snd (welcomePush v x y wl s)))"
    "host_ok w (db (snd (welcomeAckConsumed v x i s)))"
    using ok
    by (auto simp: keyPackageUpload_def welcomePush_def welcomeAckConsumed_def Let_def emit_def fr
        split: option.splits if_splits)
qed

lemma route_host_ok:
  assumes ok: "host_ok w (db s)" and w: "world_ok w" and cmd: "command_ok c parse cmd"
    and run: "route w env n x key cmd s m = (r, s', m')"
  shows "host_ok w (db s')"
proof -
  note ops = community_ops_ok [OF ok, OF prod.collapse [symmetric]] grant_ops_ok [OF ok, OF prod.collapse [symmetric]]
    message_ops_ok [OF ok, OF prod.collapse [symmetric]] chunk_host_ok [OF ok, OF prod.collapse [symmetric]]
    complete_host_ok [OF ok, OF prod.collapse [symmetric]] download_host_ok [OF ok _ prod.collapse [symmetric]]
    inviteCreate_host_ok [OF ok, OF prod.collapse [symmetric]]
  show ?thesis
    using run w cmd ok
    by (cases cmd) (auto simp: Let_def mailbox_frame mls_host_ok world_ok_def ops int_between_def opt_ok_def positiveSchema_def
        split: option.splits)
qed

lemma challenge_svc: "snd (signedAuthChallenge w n a b e s) = snd (currentHostGrant w n s)"
  by (cases "currentHostGrant w n s") (simp add: signedAuthChallenge_def split: sum.split hfail.split)

lemma authBegin_cases:
  "svc (authBegin w n c x k g) = svc g \<or> svc (authBegin w n c x k g) = snd (currentHostGrant w (f_grant n) (svc g))"
proof (cases "identityOf c g \<noteq> [] \<or> challenges g c \<noteq> None")
  case True
  then show ?thesis by (simp add: authBegin_def)
next
  case False
  define g1 where "g1 = snd (consumeAuthAttempt (now w) c g)"
  have svc: "svc g1 = svc g" by (simp add: g1_def)
  let ?r = "signedAuthChallenge w (f_grant n) (f_challenge n) (f_nonce n) (now w + AUTH_DEADLINE_MS) (svc g)"
  note eq = challenge_svc [of w "f_grant n" "f_challenge n" "f_nonce n" "now w + AUTH_DEADLINE_MS" "svc g"]
  show ?thesis
  proof (cases ?r)
    case (Pair r s)
    then have "s = snd (currentHostGrant w (f_grant n) (svc g))" using eq by simp
    then show ?thesis using False svc Pair
      by (cases r) (simp_all add: authBegin_def attempt_case g1_def [symmetric] split: option.split)
  qed
qed

lemma authBegin_svc:
  "only_grants (svc g) (svc (authBegin w n c x k g))"
  "host_ok v (db (svc g)) \<Longrightarrow> host_ok v (db (svc (authBegin w n c x k g)))"
proof -
  note q = prod.collapse [of "currentHostGrant w (f_grant n) (svc g)", symmetric]
  show "only_grants (svc g) (svc (authBegin w n c x k g))"
    using authBegin_cases [of w n c x k g] currentHostGrant_only [OF q] by (elim disjE) simp_all
  show "host_ok v (db (svc (authBegin w n c x k g)))" if "host_ok v (db (svc g))"
    using authBegin_cases [of w n c x k g] grant_ops_ok(6) [OF that q] that by (elim disjE) simp_all
qed

lemma authProve_svc [simp]: "svc (authProve w c data g) = svc g"
  by (auto simp: authProve_def attempt_case Let_def split: option.split)

lemma pair_sum_same:
  "(\<And>e q. f (A e q) = v) \<Longrightarrow> (\<And>a q. f (B a q) = v) \<Longrightarrow> f (case p of (Inl e, q) \<Rightarrow> A e q | (Inr a, q) \<Rightarrow> B a q) = v"
  by (cases p; cases "fst p") auto

text \<open>Whom \<open>hello\<close> announces.\<close>

definition hello_identity :: "gateway_env \<Rightarrow> socket \<Rightarrow> string option \<Rightarrow> gateway \<Rightarrow> string" where
  "hello_identity env c claimed g =
     (if identityOf c g = [] \<and> allow_legacy env then (case claimed of None \<Rightarrow> '''' | Some x \<Rightarrow> x) else identityOf c g)"

lemma hello_svc:
  "svc (hello w env c claimed g) = svc g
   \<or> writer (svc g) \<and> hello_identity env c claimed g \<noteq> []
      \<and> svc (hello w env c claimed g) = snd (setPresence (hello_identity env c claimed g) ''online'' (svc g))"
proof -
  let ?x = "hello_identity env c claimed g"
  let ?g1 = "if identityOf c g = [] \<and> allow_legacy env then g\<lparr>identities := map_set c ?x (identities g)\<rparr> else g"
  let ?g2 = "if writer (svc ?g1) then with_svc (snd (setPresence ?x ''online'' (svc ?g1))) ?g1 else ?g1"
  have s1: "svc ?g1 = svc g" by simp
  have "svc (hello w env c claimed g) = (if ?x = [] \<or> ((case claimed of None \<Rightarrow> '''' | Some x \<Rightarrow> x) \<noteq> []
      \<and> (case claimed of None \<Rightarrow> '''' | Some x \<Rightarrow> x) \<noteq> ?x) \<or> c \<in> set (pendingDeviceEnrollment ?g1) then svc g else svc ?g2)"
    unfolding hello_def Let_def send_result_def hello_identity_def
    by (simp add: pair_sum_same [where f = svc] del: reply_svc)
  then show ?thesis using s1 by (auto split: if_splits)
qed

lemma envelope_svc:
  assumes "svc (envelope_frame w c data g) \<noteq> svc g"
  obtains e where "data = Some e" "writer (svc g)" "identityOf c g \<noteq> []"
    "svc (envelope_frame w c data g) = snd (sendEnvelope w (identityOf c g) e (svc g))"
proof -
  from assms obtain e where e: "data = Some e" "writer (svc g)" "identityOf c g \<noteq> []" "MessageEnvelopeSchema w e"
    by (cases data) (auto simp: envelope_frame_def Let_def send_result_def split: if_splits)
  obtain r s m where r: "reply (\<lambda>_. Done) [] (sendEnvelope w (identityOf c g) e (svc g)) = (r, s, m)"
    by (rule prod_cases3)
  then have "s = snd (sendEnvelope w (identityOf c g) e (svc g))" by simp
  then have "svc (envelope_frame w c data g) = snd (sendEnvelope w (identityOf c g) e (svc g))"
    using e r by (cases r) (simp_all add: envelope_frame_def Let_def send_result_def del: reply_svc)
  with e that show thesis by blast
qed

lemma command_svc:
  assumes "svc (command_frame w env n c data g) \<noteq> svc g"
  obtains cmd0 cmd r m where "data = Some cmd0" "HostCommandSchema w (parse_json env) cmd0 = Some cmd" "identityOf c g \<noteq> []"
    "canAcceptCommand cmd (svc g)" "c \<in> set (pendingDeviceEnrollment g) \<Longrightarrow> is_enroll cmd"
    "route w env n (identityOf c g) (device_key c g) cmd (svc g) (bridgeIceConfigs g)
       = (r, svc (command_frame w env n c data g), m)"
proof -
  from assms have x: "identityOf c g \<noteq> []" by (auto simp: command_frame_def send_result_def)
  from assms x obtain cmd0 where d: "data = Some cmd0" by (cases data) (auto simp: command_frame_def send_result_def)
  from assms x d obtain cmd where cmd: "HostCommandSchema w (parse_json env) cmd0 = Some cmd"
    by (cases "HostCommandSchema w (parse_json env) cmd0") (auto simp: command_frame_def send_result_def)
  have pend: "is_enroll cmd" if "c \<in> set (pendingDeviceEnrollment g)"
    using assms x d cmd that by (cases "is_enroll cmd") (simp_all add: command_frame_def send_result_def)
  have can: "canAcceptCommand cmd (svc g)"
    using assms x d cmd pend
    by (cases "canAcceptCommand cmd (svc g)") (auto simp: command_frame_def send_result_def split: if_splits)
  obtain r s m where r: "route w env n (identityOf c g) (device_key c g) cmd (svc g) (bridgeIceConfigs g) = (r, s, m)"
    by (rule prod_cases3)
  have "svc (command_frame w env n c data g) \<in> {svc g, s}"
    using x d cmd pend can r
    by (cases r; cases "is_upload_begin cmd")
      (simp_all add: command_frame_def Let_def send_result_def device_key_def cong: option.case_cong)
  with assms r have "route w env n (identityOf c g) (device_key c g) cmd (svc g) (bridgeIceConfigs g)
       = (r, svc (command_frame w env n c data g), m)" by (elim insertE) simp_all
  from that [OF d cmd x can pend this] show thesis .
qed

lemma schema_ok: "HostCommandSchema w p cmd0 = Some cmd \<Longrightarrow> command_ok w p cmd"
  by (auto simp: HostCommandSchema_def Let_def split: if_splits)

lemma frame_host_ok:
  assumes ok: "host_ok w (db (svc g))" and w: "world_ok w"
  shows "host_ok w (db (svc (handleFrame w env n c f g)))"
proof (cases f)
  case NotJson
  then show ?thesis using ok by (simp add: trackMalformed_def Let_def)
next
  case (AuthBegin x k)
  then show ?thesis using authBegin_svc(2) [OF ok] by simp
next
  case (Hello x)
  then show ?thesis using ok hello_svc [of w env c x g] community_ops_ok(14) [OF ok prod.collapse [symmetric]] by auto
next
  case (Command cmd)
  show ?thesis
  proof (cases "svc (command_frame w env n c cmd g) = svc g")
    case False
    then obtain cmd0 cm r m where "HostCommandSchema w (parse_json env) cmd0 = Some cm"
      and r: "route w env n (identityOf c g) (device_key c g) cm (svc g) (bridgeIceConfigs g)
                = (r, svc (command_frame w env n c cmd g), m)" by (rule command_svc)
    from route_host_ok [OF ok w schema_ok [OF this(1)] r] show ?thesis using Command by simp
  qed (use ok Command in simp)
next
  case (EnvelopeSend e)
  show ?thesis
  proof (cases "svc (envelope_frame w c e g) = svc g")
    case False
    then obtain e' where "svc (envelope_frame w c e g) = snd (sendEnvelope w (identityOf c g) e' (svc g))"
      by (rule envelope_svc)
    then show ?thesis
      using message_ops_ok(1) [OF ok prod.collapse [symmetric]] w EnvelopeSend by (simp add: world_ok_def)
  qed (use ok EnvelopeSend in simp)
qed (use ok in \<open>simp_all add: Let_def send_result_def\<close>)

lemma release_svc [simp]: "svc (releaseConnection c g) = svc g" "crashed (releaseConnection c g) = crashed g"
proof -
  have "svc (release_ip c g) = svc g" "crashed (release_ip c g) = crashed g"
    "svc (release_ice c h) = svc h" "crashed (release_ice c h) = crashed h" for h
    by (simp_all add: release_ip_def release_ice_def Let_def split: option.split)
  then show "svc (releaseConnection c g) = svc g" "crashed (releaseConnection c g) = crashed g"
    by (simp_all add: releaseConnection_def Let_def)
qed

lemma accept_svc: "acceptConnection c r h g = (b, g') \<Longrightarrow> svc g' = svc g \<and> identities g' = identities g"
  by (auto simp: acceptConnection_def Let_def split: prod.splits if_splits option.splits)

lemma connect_svc [simp]: "svc (handleConnection c r h g) = svc g"
  by (auto simp: handleConnection_def dest!: accept_svc split: prod.splits bool.splits)

lemma disconnect_svc:
  "svc (handleDisconnect c g) = svc g
   \<or> (\<exists>x. writer (svc g) \<and> svc (handleDisconnect c g) = snd (setPresence x ''offline'' (svc g)))"
  by (auto simp: handleDisconnect_def Let_def)

lemma tick_ok:
  assumes ok: "host_ok w (db s)"
  shows "host_ok w (db (retention_tick v s))" "host_ok w (db (cleanup_tick v s))"
proof -
  have "same_grants (db s) (db (retention_tick v s))"
  proof -
    have "same_grants (db s) (db (fold purgeMessage ms s))" for ms
    proof (induction ms arbitrary: s)
      case (Cons m ms)
      have "same_grants (db s) (db (purgeMessage m s))" by (simp add: purgeMessage_def emit_def purge_grants)
      with Cons [of "purgeMessage m s"] show ?case by (simp add: same_grants_def)
    qed simp
    then show ?thesis by (simp add: retention_tick_def)
  qed
  then show "host_ok w (db (retention_tick v s))"
    using host_okD [OF ok] retention_ok [of s v] retention_transfers [of w s v] same_community_retention [of s v]
    by (intro host_ok_cg [OF ok]) (auto simp: frame_cg_def messages_ok_def)
  have "same_grants (db s) (db (cleanup_tick v s))"
    by (simp add: cleanup_tick_def del_attachments_def Let_def same_grants_def)
  then show "host_ok w (db (cleanup_tick v s))"
    using host_okD [OF ok] cleanup_ok [of w s v]
    by (intro host_ok_cg [OF ok]) (auto simp: frame_cg_def messages_ok_def)
qed

lemma step_host_ok:
  assumes "gateway_step w env g g'" and ok: "host_ok w (db (svc g))" and w: "world_ok w"
  shows "host_ok w (db (svc g'))"
  using assms(1)
proof (cases rule: gateway_step.cases)
  case (message c t n f)
  then show ?thesis using frame_host_ok [of "w\<lparr>now := t\<rparr>" g env n c f] ok w by simp
next
  case (disconnect c)
  then show ?thesis using ok disconnect_svc [of c g] community_ops_ok(14) [OF ok prod.collapse [symmetric]] by auto
qed (use ok tick_ok in \<open>simp_all add: authDeadline_def\<close>)

interpretation gateway_db: step_invariant "gateway_step w env" "\<lambda>g. world_ok w \<longrightarrow> host_ok w (db (svc g))" for w env
  by unfold_locales (use step_host_ok in blast)

text \<open>
  C12. Whatever sockets connect, send, authenticate and disconnect in whatever order and at whatever times, with
  the two periodic loops in between, the database of the host keeps its invariant: unique keys, members and
  invites with existing roles, nobody both member and banned, an owner, exact spool accounting, every stored message
  awaiting a recipient, complete attachments, bounded pending uploads and at most one grant per host and generation.
\<close>

theorem gateway_keeps_database:
  assumes "rtranclp (gateway_step w env) g g'" and "world_ok w" and "host_ok w (db (svc g))"
  shows "host_ok w (db (svc g'))"
  using gateway_db.run_keeps [OF assms(1)] assms(2,3) by simp

section \<open>Identities\<close>

lemma pair_sum_cong:
  "(\<And>e q. f (A e q) = f (A' e q)) \<Longrightarrow> (\<And>a q. f (B a q) = f (B' a q))
   \<Longrightarrow> f (case p of (Inl e, q) \<Rightarrow> A e q | (Inr a, q) \<Rightarrow> B a q) = f (case p of (Inl e, q) \<Rightarrow> A' e q | (Inr a, q) \<Rightarrow> B' a q)"
  by (cases p; cases "fst p") auto

lemma authBegin_identities [simp]: "identities (authBegin w n c x k g) = identities g"
  unfolding authBegin_def attempt_case Let_def
  by (auto intro!: pair_sum_same [where f = identities] split: option.split)

lemma envelope_identities [simp]: "identities (envelope_frame w c data g) = identities g"
  by (auto simp: envelope_frame_def Let_def send_result_def simp del: reply_svc split: option.split prod.split sum.split)

lemma command_identities [simp]: "identities (command_frame w env n c data g) = identities g"
  by (auto simp: command_frame_def Let_def send_result_def split: option.split prod.split sum.split)

lemma hello_identities:
  assumes "\<not> allow_legacy env" shows "identities (hello w env c claimed g) = identities g"
  using assms
  by (auto simp: hello_def Let_def send_result_def simp del: reply_svc intro!: pair_sum_same [where f = identities])

lemma trackMalformed_identities [simp]: "identities (trackMalformed t c g) = identities g"
  by (simp add: trackMalformed_def Let_def)

lemma map_of_delete [simp]: "map_of (map_delete k m) = (map_of m)(k := None)"
  by (induction m) (auto simp: map_delete_def)

lemma release_identities [simp]: "identities (releaseConnection c g) = identities g"
  by (simp add: releaseConnection_def release_ip_def release_ice_def Let_def split: option.split)

lemma disconnect_identity: "identityOf x (handleDisconnect c g) \<in> {identityOf x g, []}"
  by (simp add: handleDisconnect_def Let_def identityOf_def)

lemma connect_identity: "identityOf x (handleConnection c r h g) \<in> {identityOf x g, []}"
  by (auto simp: handleConnection_def identityOf_def map_of_map_set dest!: accept_svc split: prod.splits bool.splits)

text \<open>What must hold for a proof to be accepted on a socket.\<close>

definition proved_for :: "world \<Rightarrow> auth_challenge \<Rightarrow> session_auth \<Rightarrow> string \<Rightarrow> int \<Rightarrow> bool" where
  "proved_for w ch p sig t \<longleftrightarrow>
     sa_server p = server_id w \<and> sa_challenge p = ch_challenge ch \<and> sa_nonce p = ch_nonce ch
     \<and> sa_identity p = ch_identity ch \<and> sa_key p = ch_key ch \<and> t < ch_expires ch \<and> t < sa_expires p
     \<and> verifyCanonicalPayload w (sa_key p) DOM_sessionAuth (session_auth_json p) sig"

lemma verify_now [simp]: "verifyCanonicalPayload (w\<lparr>now := t\<rparr>) k d v sig = verifyCanonicalPayload w k d v sig"
  by (simp add: verifyCanonicalPayload_def cong: sum.case_cong)

lemma proved_for_now [simp]: "proved_for (w\<lparr>now := t'\<rparr>) ch p sig t = proved_for w ch p sig t"
  by (simp add: proved_for_def)

lemma verified_session:
  assumes "verifySignedSessionAuth w v sv cid nonce t = Some v'"
  shows "v' = v \<and> sa_server (fst v) = sv \<and> sa_challenge (fst v) = cid \<and> sa_nonce (fst v) = nonce \<and> t < sa_expires (fst v)
     \<and> verifyCanonicalPayload w (sa_key (fst v)) DOM_sessionAuth (session_auth_json (fst v)) (snd v)"
  using assms by (auto simp: verifySignedSessionAuth_def Let_def verifySigned_def split: if_splits)

lemma authProve_identity:
  assumes "identityOf x (authProve w c data g) \<noteq> identityOf x g"
  obtains ch p sig where "x = c" "challenges g c = Some ch" "data = Some (p, sig)" "proved_for w ch p sig (now w)"
    "identityOf c (authProve w c data g) = sa_identity p" "challenges (authProve w c data g) c = None"
    "devicePublicKeys (authProve w c data g) c = Some (sa_key p)"
    "c \<in> set (pendingDeviceEnrollment (authProve w c data g))
       \<longleftrightarrow> needs_enrollment (db (svc g)) (sa_identity p) (sa_key p) \<or> c \<in> set (pendingDeviceEnrollment g)"
proof -
  have id: "identityOf y (g\<lparr>challenges := q\<rparr>) = identityOf y g"
    "identityOf y (snd (consumeAuthAttempt t c g)) = identityOf y g"
    "identityOf y ((snd (consumeAuthAttempt t c g))\<lparr>challenges := q\<rparr>) = identityOf y g" for y q t
    by (simp_all add: identityOf_def)
  have allowed: "attempt_allowed (now w) c g"
    using assms by (cases "attempt_allowed (now w) c g") (simp_all add: authProve_def attempt_case id)
  from assms allowed obtain ch where ch: "challenges g c = Some ch"
    by (cases "challenges g c") (simp_all add: authProve_def attempt_case id)
  from assms allowed ch have fresh: "\<not> ch_expires ch \<le> now w"
    by (cases "ch_expires ch \<le> now w") (simp_all add: authProve_def attempt_case id)
  from assms allowed ch fresh obtain v where d: "data = Some v"
    by (cases data) (auto simp: authProve_def attempt_case id Let_def)
  let ?v = "verifySignedSessionAuth w v (server_id w) (ch_challenge ch) (ch_nonce ch) (now w)"
  from assms allowed ch fresh d obtain v' where v': "?v = Some v'"
    by (cases ?v) (auto simp: authProve_def attempt_case id Let_def)
  note ok = verified_session [OF v']
  have match: "\<not> (sa_identity (fst v) \<noteq> ch_identity ch \<or> sa_key (fst v) \<noteq> ch_key ch)"
    using assms allowed ch fresh d v' ok
    by (cases "sa_identity (fst v) \<noteq> ch_identity ch \<or> sa_key (fst v) \<noteq> ch_key ch")
      (simp_all add: authProve_def attempt_case id Let_def)
  obtain p sig where pv: "v = (p, sig)" by (cases v)
  have x: "x = c"
    using assms allowed ch fresh d v' ok match
    by (auto simp: authProve_def attempt_case Let_def identityOf_def map_of_map_set split: if_splits)
  have vp: "verifySignedSessionAuth w (p, sig) (server_id w) (ch_challenge ch) (ch_nonce ch) (now w) = Some (p, sig)"
    using v' ok pv by simp
  note simps = authProve_def attempt_case Let_def allowed ch fresh d pv vp
  show thesis
  proof (rule that)
    show "x = c" "challenges g c = Some ch" "data = Some (p, sig)" using x ch d pv by auto
    show "proved_for w ch p sig (now w)" using ok match fresh pv by (auto simp: proved_for_def)
    show "identityOf c (authProve w c data g) = sa_identity p" "challenges (authProve w c data g) c = None"
      "devicePublicKeys (authProve w c data g) c = Some (sa_key p)"
      "c \<in> set (pendingDeviceEnrollment (authProve w c data g))
         \<longleftrightarrow> needs_enrollment (db (svc g)) (sa_identity p) (sa_key p) \<or> c \<in> set (pendingDeviceEnrollment g)"
      using match pv by (simp_all add: simps identityOf_def map_of_map_set)
  qed
qed

lemma frame_identity:
  assumes g': "g' = handleFrame w env n c f g" and legacy: "\<not> allow_legacy env"
    and new: "identityOf x g' \<noteq> identityOf x g" "identityOf x g' \<noteq> []"
  shows "\<exists>v. f = AuthProve v"
proof -
  have same: "identityOf x g' = identityOf x g" if "identities g' = identities g"
    using that by (simp add: identityOf_def)
  show ?thesis
  proof (cases f)
    case (Hello h)
    then show ?thesis using g' new same hello_identities [OF legacy, of w c h g] by simp
  next
    case OtherEvent
    then have "identities g' = identities g" using g' by (simp add: Let_def send_result_def)
    then show ?thesis using new same by simp
  qed (use g' new same in \<open>auto simp: Let_def send_result_def\<close>)
qed

lemma step_identity:
  assumes "gateway_step w env g g'" and "\<not> allow_legacy env" and new: "identityOf x g' \<noteq> identityOf x g" "identityOf x g' \<noteq> []"
  obtains t n v where "g' = handleFrame (w\<lparr>now := t\<rparr>) env n x (AuthProve v) g"
  using assms(1)
proof (cases rule: gateway_step.cases)
  case (message c t n f)
  then obtain v where f: "f = AuthProve v" using frame_identity [OF _ assms(2) new] by blast
  then have "identityOf x (authProve (w\<lparr>now := t\<rparr>) c v g) \<noteq> identityOf x g" using new(1) message by simp
  then have "x = c" by (rule authProve_identity)
  then show thesis using that message f by blast
next
  case (connect c r h)
  from connect_identity [of x c r h g] new show ?thesis unfolding connect(1) by (elim insertE emptyE) simp_all
next
  case (disconnect c)
  from disconnect_identity [of x c g] new show ?thesis unfolding disconnect(1) by (elim insertE emptyE) simp_all
qed (use new in \<open>simp_all add: authDeadline_def identityOf_def split: if_splits\<close>)

text \<open>
  C13. Without the legacy switch a socket gets an identity in one way only: by handling a proof frame of its own, and then
  the proof is signed with the device key named when the socket's challenge was drawn, over that very challenge, nonce and
  server, and by the clock at which the frame is handled neither the challenge nor the proof has expired. The challenge is
  gone afterwards, so no proof serves twice, and the socket is marked unless the device is enrolled or its identity is
  not a member.
\<close>

theorem identity_only_by_proof:
  assumes "\<not> allow_legacy env" and "x \<noteq> []" and "identityOf c g \<noteq> x"
  shows "(gateway_step w env g g' \<and> identityOf c g' = x
        \<longrightarrow> (\<exists>t n v. g' = handleFrame (w\<lparr>now := t\<rparr>) env n c (AuthProve v) g))
    \<and> (identityOf c (handleFrame (w\<lparr>now := t\<rparr>) env n d f g) = x \<longrightarrow>
        d = c \<and> (\<exists>ch p sig. f = AuthProve (Some (p, sig)) \<and> challenges g c = Some ch \<and> sa_identity p = x
          \<and> sa_server p = server_id w \<and> sa_challenge p = ch_challenge ch \<and> sa_nonce p = ch_nonce ch
          \<and> ch_identity ch = x \<and> sa_key p = ch_key ch \<and> t < ch_expires ch \<and> t < sa_expires p
          \<and> verifyCanonicalPayload w (sa_key p) DOM_sessionAuth (session_auth_json p) sig
          \<and> challenges (handleFrame (w\<lparr>now := t\<rparr>) env n d f g) c = None
          \<and> devicePublicKeys (handleFrame (w\<lparr>now := t\<rparr>) env n d f g) c = Some (sa_key p)
          \<and> (c \<in> set (pendingDeviceEnrollment (handleFrame (w\<lparr>now := t\<rparr>) env n d f g))
                \<longleftrightarrow> needs_enrollment (db (svc g)) x (sa_key p) \<or> c \<in> set (pendingDeviceEnrollment g))))"
proof (intro conjI impI)
  assume s: "gateway_step w env g g' \<and> identityOf c g' = x"
  with assms(2,3) have "identityOf c g' \<noteq> identityOf c g" "identityOf c g' \<noteq> []" by auto
  from step_identity [OF conjunct1 [OF s] assms(1) this] show "\<exists>t n v. g' = handleFrame (w\<lparr>now := t\<rparr>) env n c (AuthProve v) g"
    by blast
next
  let ?g = "handleFrame (w\<lparr>now := t\<rparr>) env n d f g"
  assume x: "identityOf c ?g = x"
  with assms(2,3) have "identityOf c ?g \<noteq> identityOf c g" "identityOf c ?g \<noteq> []" by auto
  from frame_identity [OF refl assms(1) this] obtain v where f: "f = AuthProve v" ..
  have "identityOf c (authProve (w\<lparr>now := t\<rparr>) d v g) \<noteq> identityOf c g" using x assms(3) f by auto
  then show "d = c" by (rule authProve_identity) simp
  from \<open>identityOf c (authProve (w\<lparr>now := t\<rparr>) d v g) \<noteq> identityOf c g\<close> obtain ch p sig where pr: "c = d"
    "challenges g d = Some ch" "v = Some (p, sig)" "proved_for (w\<lparr>now := t\<rparr>) ch p sig t" "identityOf d ?g = sa_identity p"
    "challenges ?g d = None" "devicePublicKeys ?g d = Some (sa_key p)"
    "d \<in> set (pendingDeviceEnrollment ?g) \<longleftrightarrow>
       needs_enrollment (db (svc g)) (sa_identity p) (sa_key p) \<or> d \<in> set (pendingDeviceEnrollment g)"
    by (rule authProve_identity) (simp add: f)
  have "sa_identity p = x" using pr(1,5) x by simp
  then show "\<exists>ch p sig. f = AuthProve (Some (p, sig)) \<and> challenges g c = Some ch \<and> sa_identity p = x
          \<and> sa_server p = server_id w \<and> sa_challenge p = ch_challenge ch \<and> sa_nonce p = ch_nonce ch
          \<and> ch_identity ch = x \<and> sa_key p = ch_key ch \<and> t < ch_expires ch \<and> t < sa_expires p
          \<and> verifyCanonicalPayload w (sa_key p) DOM_sessionAuth (session_auth_json p) sig
          \<and> challenges ?g c = None \<and> devicePublicKeys ?g c = Some (sa_key p)
          \<and> (c \<in> set (pendingDeviceEnrollment ?g) \<longleftrightarrow> needs_enrollment (db (svc g)) x (sa_key p) \<or> c \<in> set (pendingDeviceEnrollment g))"
    using pr(1,2,4,6-8) unfolding f pr(3) proved_for_now
    by (intro exI [of _ ch] exI [of _ p] exI [of _ sig]) (auto simp: proved_for_def simp del: handleFrame.simps)
qed

section \<open>Sockets without an identity\<close>

text \<open>
  A socket that has not authenticated cannot touch the host: whatever frame it sends, the service is
  left as it was, but for the primary host grant the opening of an authentication may renew.
\<close>

theorem unauthenticated_frames_harmless:
  assumes "identityOf c g = []" and "\<not> allow_legacy env"
  shows "only_grants (svc g) (svc (handleFrame w env n c f g))"
proof (cases f)
  case (AuthBegin x k)
  then show ?thesis using authBegin_svc(1) by simp
next
  case (Hello x)
  then show ?thesis using assms hello_svc [of w env c x g] by (auto simp: hello_identity_def)
next
  case (Command cmd)
  then show ?thesis using assms by (simp add: command_frame_def send_result_def)
next
  case (EnvelopeSend e)
  then show ?thesis using assms by (simp add: envelope_frame_def send_result_def)
qed (simp_all add: trackMalformed_def Let_def send_result_def)

text \<open>
  C15. A device whose enrollment is pending can run no command but its enrollment: the service stays as it is.
\<close>

theorem pending_device_only_enrolls:
  assumes "c \<in> set (pendingDeviceEnrollment g)" and "\<not> is_enroll cmd"
  shows "svc (handleFrame w env n c (Command (Some cmd)) g) = svc g"
proof (rule ccontr)
  assume "svc (handleFrame w env n c (Command (Some cmd)) g) \<noteq> svc g"
  then obtain cmd0 cmd1 where "Some cmd = Some cmd0" and s: "HostCommandSchema w (parse_json env) cmd0 = Some cmd1"
    and "is_enroll cmd1" using assms(1) by (auto elim: command_svc)
  moreover have "is_enroll cmd1 = is_enroll cmd0"
    using s by (auto simp: HostCommandSchema_def Let_def command_defaults_def is_enroll_def split: if_splits host_command.splits)
  ultimately show False using assms(2) by simp
qed

text \<open>
  The other way of sending a message does not ask: what \<open>envelope.send\<close> does to the service is the same
  whether or not the socket's device still awaits its enrollment.
\<close>

theorem envelope_send_ignores_enrollment:
  "svc (handleFrame w env n c (EnvelopeSend e) (g\<lparr>pendingDeviceEnrollment := p\<rparr>)) = svc (handleFrame w env n c (EnvelopeSend e) g)"
proof -
  have "identityOf c (g\<lparr>pendingDeviceEnrollment := p\<rparr>) = identityOf c g" by (simp add: identityOf_def)
  then show ?thesis
    by (simp add: envelope_frame_def Let_def send_result_def del: reply_svc split: option.split prod.split sum.split)
qed

end
