(* ===== verification/GatewayLimits.thy ===== *)
theory GatewayLimits
  imports GatewaySafety
begin

text \<open>
  What a host that is not the writer serves, and the numbers the gateway bounds
  (\<open>apps/janjanode/src/gateway.ts\<close>): connections of an origin and of an ICE session, starts of uploads.
\<close>

section \<open>A host that is not the writer\<close>

text \<open>Everything but the migration of a legacy attachment and the renewal of the host's own grant.\<close>

definition reads_only :: "host \<Rightarrow> host \<Rightarrow> bool" where
  "reads_only s s' \<longleftrightarrow>
     same_community (db s) (db s') \<and> meta (db s') = meta (db s) \<and> spool (db s') = spool (db s)
     \<and> spool_usage (db s') = spool_usage (db s) \<and> key_packages (db s') = key_packages (db s)
     \<and> welcomes (db s') = welcomes (db s) \<and> capabilities (db s') = capabilities (db s)
     \<and> security_proofs (db s') = security_proofs (db s) \<and> host_candidates (db s') = host_candidates (db s)
     \<and> replica_enrollments (db s') = replica_enrollments (db s) \<and> host_record_chains (db s') = host_record_chains (db s)
     \<and> events s' = events s \<and> calls s' = calls s \<and> replay s' = replay s \<and> sequences s' = sequences s
     \<and> writer s' = writer s"

lemma reads_only_refl [simp]: "reads_only s s"
  by (simp add: reads_only_def)

lemma reads_only_grants: "only_grants s s' \<Longrightarrow> reads_only s s'"
  by (simp add: reads_only_def only_grants_community only_gr_simps)

lemma readable_reads_only: "readableAttachment w x a s = (res, s') \<Longrightarrow> reads_only s s'"
proof (drule readable_frames, elim disjE exE conjE)
  fix d assume m: "migrateLegacyAttachment w a (db s) = Inr d" and s': "s' = s\<lparr>db := d\<rparr>"
  from migrate_step [OF m] show ?thesis
    by (elim disjE exE conjE) (simp_all add: s' reads_only_def same_community_def)
qed simp

lemma download_reads_only:
  "reads_only s (snd (attachmentDownload w x a s))" "reads_only s (snd (attachmentDownloadChunk w x a i s))"
proof -
  obtain q s1 where q: "readableAttachment w x a s = (q, s1)" by (rule prod.exhaust)
  note r = readable_reads_only [OF q]
  show "reads_only s (snd (attachmentDownload w x a s))" "reads_only s (snd (attachmentDownloadChunk w x a i s))"
    using r by (cases q; simp add: attachmentDownload_def attachmentDownloadChunk_def q split: option.split sum.split)+
qed

lemma route_reads_only:
  assumes "canAcceptCommand cmd s" and "\<not> writer s" and "route w env n x key cmd s m = (r, s', m')"
  shows "reads_only s s'"
  using assms download_reads_only
  by (cases cmd) (auto simp: canAcceptCommand_def Let_def)

lemma frame_reads_only:
  assumes "\<not> writer (svc g)"
  shows "reads_only (svc g) (svc (handleFrame w env n c f g))"
proof (cases f)
  case (AuthBegin x k)
  then show ?thesis using authBegin_svc(1) reads_only_grants by simp
next
  case (Hello x)
  then show ?thesis using assms hello_svc [of w env c x g] by auto
next
  case (Command cmd)
  show ?thesis
  proof (cases "svc (command_frame w env n c cmd g) = svc g")
    case False
    then obtain cm r m where "canAcceptCommand cm (svc g)"
      "route w env n (identityOf c g) (device_key c g) cm (svc g) (bridgeIceConfigs g)
         = (r, svc (command_frame w env n c cmd g), m)" by (rule command_svc)
    then show ?thesis using route_reads_only assms Command by simp
  qed (simp add: Command)
next
  case (EnvelopeSend e)
  then show ?thesis using assms by (auto simp: envelope_frame_def Let_def send_result_def)
qed (simp_all add: trackMalformed_def Let_def send_result_def)

lemma step_reads_only:
  assumes "gateway_step w env g g'" and "\<not> writer (svc g)"
  shows "reads_only (svc g) (svc g')"
  using assms(1)
proof (cases rule: gateway_step.cases)
  case (message c t n f)
  show ?thesis unfolding message(1) by (rule frame_reads_only [OF assms(2)])
next
  case (disconnect c)
  then show ?thesis using assms(2) disconnect_svc [of c g] by auto
qed (use assms(2) in \<open>simp_all add: authDeadline_def retention_tick_def cleanup_tick_def\<close>)

text \<open>A host without the write authority goes along with the events of its gateway.\<close>

definition serves_only :: "gateway \<Rightarrow> gateway \<Rightarrow> bool" where
  "serves_only g g' \<longleftrightarrow> writer (svc g) \<or> reads_only (svc g) (svc g')"

lemma reads_only_trans: "reads_only s s' \<Longrightarrow> reads_only s' s'' \<Longrightarrow> reads_only s s''"
  by (simp add: reads_only_def same_community_def)

lemma reads_only_writer: "reads_only s s' \<Longrightarrow> writer s' = writer s"
  by (simp add: reads_only_def)

interpretation gateway_reads: step_progress "gateway_step w env" serves_only for w env
proof
  show "serves_only g g" for g by (simp add: serves_only_def)
  show "serves_only g g''" if "serves_only g g'" "serves_only g' g''" for g g' g''
    using that reads_only_trans [of "svc g" "svc g'" "svc g''"] reads_only_writer [of "svc g" "svc g'"]
    unfolding serves_only_def by blast
  show "serves_only g g'" if "gateway_step w env g g'" for g g'
    using step_reads_only [OF that] unfolding serves_only_def by blast
qed

text \<open>
  C14. A host that does not hold the write authority serves reads only: however long its gateway runs, nothing
  changes its membership, invites, channels, configuration, messages, mailbox, calls or host proofs, no event is
  emitted, and the host never becomes a writer.
\<close>

theorem replica_serves_reads_only:
  assumes "rtranclp (gateway_step w env) g g'" and "\<not> writer (svc g)"
  shows "reads_only (svc g) (svc g')"
  using gateway_reads.run_below [OF assms(1)] assms(2) by (simp add: serves_only_def)

section \<open>Connections\<close>

definition connected_from :: "string \<Rightarrow> gateway \<Rightarrow> nat" where
  "connected_from ip g = length (filter (\<lambda>(c, i). i = ip) (connectionIps g))"

definition in_ice_session :: "string \<Rightarrow> gateway \<Rightarrow> nat" where
  "in_ice_session x g = length (filter (\<lambda>(c, i). i = x) (connectionIceSessions g))"

definition origin_limit :: "string \<Rightarrow> int" where
  "origin_limit ip = (if loopback_ip ip then 32 else MAX_CONNECTIONS_PER_IP)"

text \<open>The counters count what is connected, and stay within the limits.\<close>

definition counts_ok :: "gateway \<Rightarrow> bool" where
  "counts_ok g \<longleftrightarrow>
     distinct (map fst (connectionIps g)) \<and> distinct (map fst (connectionIceSessions g))
     \<and> (\<forall>ip. count_of (ipConnections g) ip 0 = int (connected_from ip g))
     \<and> (\<forall>x. count_of (iceSessionConnections g) x 0 = int (in_ice_session x g))
     \<and> (\<forall>ip. int (connected_from ip g) \<le> origin_limit ip)
     \<and> (\<forall>x. int (in_ice_session x g) \<le> MAX_ICE_CONNECTIONS_PER_SESSION)"

lemma map_set_new: "c \<notin> fst ` set m \<Longrightarrow> map_set c v m = m @ [(c, v)]"
  by (induction c v m rule: map_set.induct) auto

lemma delete_absent: "c \<notin> fst ` set m \<Longrightarrow> map_delete c m = m"
  by (force simp: map_delete_def filter_id_conv)

lemma filter_delete:
  assumes "distinct (map fst m)" and "map_of m c = Some v"
  shows "int (length (filter (\<lambda>(_, i). i = x) (map_delete c m)))
       = int (length (filter (\<lambda>(_, i). i = x) m)) - (if x = v then 1 else 0)"
  using assms
proof (induction m)
  case (Cons p m)
  obtain k u where p: "p = (k, u)" by (cases p)
  show ?case
  proof (cases "k = c")
    case True
    have "map_delete c m = m" using Cons.prems(1) p True by (intro delete_absent) simp
    then show ?thesis using Cons.prems p True by (simp add: map_delete_def)
  next
    case False
    then have "map_delete c (p # m) = p # map_delete c m" by (simp add: map_delete_def p)
    then show ?thesis using Cons p False by (auto split: if_splits)
  qed
qed simp

lemma filter_positive:
  assumes "map_of m c = Some v" shows "0 < length (filter (\<lambda>(_, i). i = v) m)"
proof -
  from map_of_SomeD [OF assms] have "filter (\<lambda>(_, i). i = v) m \<noteq> []" by (auto simp: filter_empty_conv)
  then show ?thesis by simp
qed

lemma distinct_delete: "distinct (map fst m) \<Longrightarrow> distinct (map fst (map_delete c m))"
  by (simp add: map_delete_def distinct_map_filter)

lemma delete_new: "c \<notin> fst ` set m \<Longrightarrow> map_delete c (m @ [(c, v)]) = m"
  using delete_absent [of c m] by (simp add: map_delete_def)

lemma accept_counts:
  assumes ok: "counts_ok g" and new: "c \<notin> fst ` set (connectionIps g)" "c \<notin> fst ` set (connectionIceSessions g)"
    and run: "acceptConnection c r h g = (b, g')"
  shows "counts_ok g'"
proof -
  obtain ip ice where o: "authenticatedOriginKey r h = (ip, ice)" by (rule prod.exhaust)
  have loop: "ice \<noteq> None \<Longrightarrow> loopback_ip ip" using o by (auto simp: authenticatedOriginKey_def Let_def split: if_splits)
  have limit: "cur < (if ice = None then MAX_CONNECTIONS_PER_IP else 32) \<Longrightarrow> cur + 1 \<le> origin_limit ip" for cur
    using loop by (auto simp: origin_limit_def MAX_CONNECTIONS_PER_IP_def split: if_splits)
  note d = counts_ok_def connected_from_def in_ice_session_def count_of_def
  show ?thesis
  proof (cases "count_of (ipConnections g) ip 0 \<ge> (if ice = None then MAX_CONNECTIONS_PER_IP else 32)")
    case True
    then have "g' = close_socket c 1013 g" using run o by (auto simp: acceptConnection_def Let_def)
    then show ?thesis using ok by (simp add: counts_ok_def connected_from_def in_ice_session_def)
  next
    case False
    then have lim: "int (connected_from ip g) + 1 \<le> origin_limit ip"
      using limit [of "count_of (ipConnections g) ip 0"] ok by (simp add: counts_ok_def)
    show ?thesis
    proof (cases ice)
      case None
      then have g': "g' = g\<lparr>ipConnections := (ipConnections g)(ip \<mapsto> count_of (ipConnections g) ip 0 + 1),
          connectionIps := connectionIps g @ [(c, ip)], authDeadlines := js_add c (authDeadlines g)\<rparr>"
        using run o False by (simp add: acceptConnection_def Let_def map_set_new new(1))
      show ?thesis using ok lim new unfolding g'
        by (auto simp: counts_ok_def connected_from_def in_ice_session_def count_of_def)
    next
      case (Some x)
      show ?thesis
      proof (cases "count_of (iceSessionConnections g) x 0 \<ge> MAX_ICE_CONNECTIONS_PER_SESSION")
        case True
        then have g': "connectionIps g' = connectionIps g" "connectionIceSessions g' = connectionIceSessions g"
          "iceSessionConnections g' = iceSessionConnections g"
          "ipConnections g' = (ipConnections g)(ip \<mapsto> count_of (ipConnections g) ip 0)"
          using run o False Some
          by (auto simp: acceptConnection_def Let_def map_set_new new(1) delete_new)
        show ?thesis using ok by (auto simp: g' counts_ok_def connected_from_def in_ice_session_def count_of_def)
      next
        case nfull: False
        then have g': "connectionIps g' = connectionIps g @ [(c, ip)]"
          "connectionIceSessions g' = connectionIceSessions g @ [(c, x)]"
          "iceSessionConnections g' = (iceSessionConnections g)(x \<mapsto> count_of (iceSessionConnections g) x 0 + 1)"
          "ipConnections g' = (ipConnections g)(ip \<mapsto> count_of (ipConnections g) ip 0 + 1)"
          using run o False Some by (auto simp: acceptConnection_def Let_def map_set_new new)
        show ?thesis using ok lim new nfull
          by (auto simp: g' counts_ok_def connected_from_def in_ice_session_def count_of_def)
      qed
    qed
  qed
qed

lemma release_ip_counts:
  assumes "counts_ok g" shows "counts_ok (release_ip c g)"
proof (cases "\<exists>ip. map_of (connectionIps g) c = Some ip \<and> ip \<noteq> []")
  case False
  then have "release_ip c g = g" by (auto simp: release_ip_def split: option.split)
  then show ?thesis using assms by simp
next
  case True
  then obtain ip where ip: "map_of (connectionIps g) c = Some ip" "ip \<noteq> []" by blast
  let ?n = "count_of (ipConnections g) ip 0"
  have pos: "0 < ?n" using assms filter_positive [OF ip(1)] by (simp add: counts_ok_def connected_from_def)
  then have one: "count_of (ipConnections g) ip 1 = ?n" by (simp add: count_of_def split: option.splits)
  have g': "release_ip c g = g\<lparr>ipConnections := (ipConnections g)(ip \<mapsto> ?n - 1), connectionIps := map_delete c (connectionIps g)\<rparr>"
    using ip pos by (simp add: release_ip_def one)
  have len: "int (connected_from x (release_ip c g)) = int (connected_from x g) - (if x = ip then 1 else 0)" for x
    using filter_delete [OF _ ip(1), of x] assms by (simp add: g' connected_from_def counts_ok_def)
  have "origin_limit x \<ge> int (connected_from x (release_ip c g))" for x
    using len [of x] assms by (simp add: counts_ok_def) (smt (verit))
  moreover have "count_of (ipConnections (release_ip c g)) x 0 = int (connected_from x (release_ip c g))" for x
    using len [of x] assms by (auto simp: g' counts_ok_def count_of_def)
  moreover have "in_ice_session x (release_ip c g) = in_ice_session x g" for x by (simp add: g' in_ice_session_def)
  ultimately show ?thesis
    using assms by (simp add: counts_ok_def) (simp add: g' distinct_delete)
qed

lemma release_ice_counts:
  assumes "counts_ok g" shows "counts_ok (release_ice c g)"
proof (cases "\<exists>x. map_of (connectionIceSessions g) c = Some x \<and> x \<noteq> []")
  case False
  then have "release_ice c g = g" by (auto simp: release_ice_def split: option.split)
  then show ?thesis using assms by simp
next
  case True
  then obtain x where x: "map_of (connectionIceSessions g) c = Some x" "x \<noteq> []" by blast
  let ?n = "count_of (iceSessionConnections g) x 0"
  have pos: "0 < ?n" using assms filter_positive [OF x(1)] by (simp add: counts_ok_def in_ice_session_def)
  then have one: "count_of (iceSessionConnections g) x 1 = ?n" by (simp add: count_of_def split: option.splits)
  have g': "release_ice c g = g\<lparr>iceSessionConnections := (iceSessionConnections g)(x := if ?n - 1 = 0 then None else Some (?n - 1)),
      connectionIceSessions := map_delete c (connectionIceSessions g)\<rparr>"
    using x pos by (simp add: release_ice_def one Let_def)
  have len: "int (in_ice_session y (release_ice c g)) = int (in_ice_session y g) - (if y = x then 1 else 0)" for y
    using filter_delete [OF _ x(1), of y] assms by (simp add: g' in_ice_session_def counts_ok_def)
  have "int (in_ice_session y (release_ice c g)) \<le> MAX_ICE_CONNECTIONS_PER_SESSION" for y
    using len [of y] assms by (simp add: counts_ok_def) (smt (verit))
  moreover have "count_of (iceSessionConnections (release_ice c g)) y 0 = int (in_ice_session y (release_ice c g))" for y
    using len [of y] assms pos by (auto simp: g' counts_ok_def count_of_def)
  moreover have "connected_from y (release_ice c g) = connected_from y g" for y by (simp add: g' connected_from_def)
  ultimately show ?thesis
    using assms by (simp add: counts_ok_def) (simp add: g' distinct_delete)
qed

text \<open>What the counters depend on.\<close>

lemma counts_cong:
  assumes "connectionIps g' = connectionIps g" "connectionIceSessions g' = connectionIceSessions g"
    "ipConnections g' = ipConnections g" "iceSessionConnections g' = iceSessionConnections g"
  shows "counts_ok g' = counts_ok g"
  using assms by (simp add: counts_ok_def connected_from_def in_ice_session_def)

definition same_connections :: "gateway \<Rightarrow> gateway \<Rightarrow> bool" where
  "same_connections g g' \<longleftrightarrow>
     connectionIps g' = connectionIps g \<and> connectionIceSessions g' = connectionIceSessions g
     \<and> ipConnections g' = ipConnections g \<and> iceSessionConnections g' = iceSessionConnections g"

lemma frame_connections: "same_connections g (handleFrame w env n c f g)"
proof (cases f)
  case (AuthBegin x k)
  have "connectionIps (authBegin w n c x k g) = connectionIps g" "connectionIceSessions (authBegin w n c x k g) = connectionIceSessions g"
    "ipConnections (authBegin w n c x k g) = ipConnections g" "iceSessionConnections (authBegin w n c x k g) = iceSessionConnections g"
    unfolding authBegin_def attempt_case Let_def
    by (auto intro!: pair_sum_same [where f = connectionIps] pair_sum_same [where f = connectionIceSessions]
        pair_sum_same [where f = ipConnections] pair_sum_same [where f = iceSessionConnections] split: option.split)
  then show ?thesis using AuthBegin by (simp add: same_connections_def)
next
  case (AuthProve v)
  then show ?thesis by (simp add: same_connections_def authProve_def attempt_case Let_def split: option.split)
next
  case (Hello x)
  then show ?thesis
    by (simp add: same_connections_def hello_def Let_def send_result_def pair_sum_same [where f = connectionIps]
        pair_sum_same [where f = connectionIceSessions] pair_sum_same [where f = ipConnections]
        pair_sum_same [where f = iceSessionConnections] del: reply_svc)
next
  case (Command cmd)
  then show ?thesis
    by (simp add: same_connections_def command_frame_def Let_def send_result_def split: option.split prod.split sum.split)
next
  case (EnvelopeSend e)
  then show ?thesis
    by (simp add: same_connections_def envelope_frame_def Let_def send_result_def del: reply_svc
        split: option.split prod.split sum.split)
qed (simp_all add: same_connections_def trackMalformed_def Let_def send_result_def)

lemma release_counts: "counts_ok g \<Longrightarrow> counts_ok (releaseConnection c g)"
proof -
  assume "counts_ok g"
  then have a: "counts_ok (release_ip c g)" by (rule release_ip_counts)
  let ?g2 = "(release_ip c g)\<lparr>malformedCount := (malformedCount (release_ip c g))(c := None)\<rparr>"
  have "counts_ok ?g2" by (subst counts_cong [where g = "release_ip c g"]) (simp_all add: a)
  then have b: "counts_ok (release_ice c ?g2)" by (rule release_ice_counts)
  show ?thesis unfolding releaseConnection_def Let_def
    by (subst counts_cong [where g = "release_ice c ?g2"]) (simp_all add: b)
qed

lemma step_counts:
  assumes "counts_ok g" and "gateway_step w env g g'" shows "counts_ok g'"
  using assms(2)
proof (cases rule: gateway_step.cases)
  case (connect c r h)
  obtain b g1 where a: "acceptConnection c r h g = (b, g1)" by (rule prod.exhaust)
  have "counts_ok g1" using connect accept_counts [OF assms(1) _ _ a] by (simp add: unused_def)
  then have "counts_ok (g1\<lparr>identities := i\<rparr>)" for i using counts_cong [of "g1\<lparr>identities := i\<rparr>" g1] by simp
  with \<open>counts_ok g1\<close> show ?thesis unfolding connect(1) handleConnection_def a by (simp split: bool.split)
next
  case (message c t n f)
  note same = frame_connections [of g "w\<lparr>now := t\<rparr>" env n c f, unfolded same_connections_def]
  from assms(1) show ?thesis unfolding message(1) by (subst counts_cong [where g = g]) (use same in blast)+
next
  case (disconnect c)
  show ?thesis unfolding disconnect(1) handleDisconnect_def Let_def
    by (rule release_counts, subst counts_cong [where g = g]) (simp_all add: assms(1))
qed (use assms(1) in \<open>simp_all add: authDeadline_def counts_ok_def connected_from_def in_ice_session_def\<close>)

interpretation gateway_counts: step_invariant "gateway_step w env" counts_ok for w env
  by unfold_locales (rule step_counts)

lemma initial_counts: "counts_ok (initial_gateway s)"
  by (simp add: counts_ok_def initial_gateway_def connected_from_def in_ice_session_def count_of_def origin_limit_def
      MAX_CONNECTIONS_PER_IP_def MAX_ICE_CONNECTIONS_PER_SESSION_def)

text \<open>
  C38. From its start on, and whatever sockets come and go, the gateway never has more than eight connections
  of one address open (thirty-two of the loopback address, through which ICE sessions arrive) and never more than four of
  one ICE session.
\<close>

theorem connection_limits:
  assumes "rtranclp (gateway_step w env) (initial_gateway s) g"
  shows "int (connected_from ip g) \<le> (if loopback_ip ip then 32 else 8) \<and> in_ice_session x g \<le> 4"
proof -
  have "counts_ok g" by (rule gateway_counts.run_keeps [OF assms initial_counts])
  then have "int (connected_from ip g) \<le> origin_limit ip" "int (in_ice_session x g) \<le> 4"
    by (simp_all add: counts_ok_def MAX_ICE_CONNECTIONS_PER_SESSION_def)
  then show ?thesis by (auto simp: origin_limit_def MAX_CONNECTIONS_PER_IP_def)
qed

section \<open>Starts of uploads\<close>

text \<open>How many of the starts at the given times the bucket of one socket lets through.\<close>

fun uploads_started :: "bucket option \<Rightarrow> int list \<Rightarrow> nat" where
  "uploads_started b [] = 0"
| "uploads_started b (t # ts) =
     (let r = bucket_consume b t in (if fst r then 1 else 0) + uploads_started (Some (snd r)) ts)"

lemma uploads_bound:
  assumes "sorted (bk_updated b # ts)" and "bk_tokens b \<le> ATTACHMENT_BEGIN_BUCKET_CAPACITY"
  shows "TOKEN * int (uploads_started (Some b) ts) \<le> bk_tokens b + (last (bk_updated b # ts) - bk_updated b) \<or> bk_tokens b < 0"
  using assms
proof (induction ts arbitrary: b)
  case (Cons t ts)
  define r where "r = bucket_consume (Some b) t"
  have up: "bk_updated (snd r) = t" by (simp add: r_def bucket_consume_def Let_def)
  have tok: "bk_tokens (snd r) = min ATTACHMENT_BEGIN_BUCKET_CAPACITY (bk_tokens b + (t - bk_updated b)) - (if fst r then TOKEN else 0)"
    using Cons.prems(1) by (auto simp: r_def bucket_consume_def Let_def)
  have "sorted (bk_updated (snd r) # ts)" using Cons.prems(1) up by simp
  moreover have "bk_tokens (snd r) \<le> ATTACHMENT_BEGIN_BUCKET_CAPACITY"
    using tok min.cobounded1 [of ATTACHMENT_BEGIN_BUCKET_CAPACITY "bk_tokens b + (t - bk_updated b)"]
    by (auto simp: TOKEN_def split: if_splits)
  ultimately have ih: "TOKEN * int (uploads_started (Some (snd r)) ts) \<le> bk_tokens (snd r) + (last (t # ts) - t) \<or> bk_tokens (snd r) < 0"
    using Cons.IH [of "snd r"] up by simp
  have nn: "bk_tokens (snd r) < 0 \<Longrightarrow> bk_tokens b < 0"
    using Cons.prems(1) by (auto simp: r_def bucket_consume_def Let_def TOKEN_def ATTACHMENT_BEGIN_BUCKET_CAPACITY_def split: if_splits)
  have "uploads_started (Some b) (t # ts) = (if fst r then 1 else 0) + uploads_started (Some (snd r)) ts"
    by (simp add: r_def Let_def)
  then have "TOKEN * int (uploads_started (Some b) (t # ts)) = (if fst r then TOKEN else 0) + TOKEN * int (uploads_started (Some (snd r)) ts)"
    by (simp add: distrib_left)
  with ih nn tok show ?case by (auto simp: min_def split: if_splits)
qed auto

text \<open>
  One socket starts at most eight uploads at once and two more for every second that passes: of
  starts at increasing times, the bucket lets through no more than eight plus twice the seconds between the first
  and the last.
\<close>

theorem upload_start_rate:
  assumes "sorted (t # ts)"
  shows "500 * int (uploads_started None (t # ts)) \<le> 4000 + (last (t # ts) - t)"
proof -
  let ?b = "\<lparr>bk_tokens = ATTACHMENT_BEGIN_BUCKET_CAPACITY, bk_updated = t\<rparr>"
  have "uploads_started None (t # ts) = uploads_started (Some ?b) (t # ts)" by (simp add: bucket_consume_def)
  moreover have "sorted (bk_updated ?b # t # ts)" using assms by simp
  ultimately show ?thesis
    using uploads_bound [of ?b "t # ts"] by (simp add: TOKEN_def ATTACHMENT_BEGIN_BUCKET_CAPACITY_def del: uploads_started.simps)
qed

theorem upload_start_rate_witness:
  "uploads_started None [0, 0, 0, 0, 0, 0, 0, 0, 0, 500] = 9
   \<and> 500 * int (uploads_started None [0, 0, 0, 0, 0, 0, 0, 0, 0, 500]) \<le> 4000 + 500"
proof -
  have "uploads_started None [0, 0, 0, 0, 0, 0, 0, 0, 0, 500] = 9" by code_simp
  then show ?thesis using upload_start_rate [of 0 "[0, 0, 0, 0, 0, 0, 0, 0, 500]"] by simp
qed

end
