(* ===== verification/GatewayRuns.thy ===== *)
theory GatewayRuns
  imports GatewayLimits
begin

text \<open>
  Concrete runs of the signaling gateway: the instances of the properties of \<open>GatewaySafety\<close> and
  \<open>GatewayLimits\<close>, and runs that show what the code lets happen.
\<close>

section \<open>A gateway and its first socket\<close>

definition zed :: string where "zed = replicate 64 CHR ''0''"

text \<open>The sample world with digests and fingerprints of the right shape.\<close>

definition gate_world :: world where
  "gate_world = sample_world\<lparr>fingerprint := (\<lambda>_. zed), sha256Hex := (\<lambda>_. zed)\<rparr>"

definition gate_env :: gateway_env where
  "gate_env = \<lparr>allow_legacy = False, ice_servers = None, parse_json = (\<lambda>_. None), replica = sample_env\<rparr>"

definition gate_fresh :: fresh where
  "gate_fresh = \<lparr>f_grant = ''n'', f_id = ''n'', f_secret = ''s'', f_capability = ''c'', f_challenge = ''ch'', f_nonce = ''AA''\<rparr>"

definition gate_challenge :: "string \<Rightarrow> string \<Rightarrow> auth_challenge" where
  "gate_challenge x k = \<lparr>ch_challenge = ''ch'', ch_nonce = ''AA'', ch_identity = x, ch_key = sample_key k, ch_expires = 9000\<rparr>"

definition gate_proof :: "string \<Rightarrow> string \<Rightarrow> session_auth" where
  "gate_proof x k = \<lparr>sa_server = ''srv'', sa_identity = x, sa_key = sample_key k, sa_challenge = ''ch'', sa_nonce = ''AA'',
     sa_issued = 1000, sa_expires = 2000\<rparr>"

abbreviation gate_step :: "gateway \<Rightarrow> gateway \<Rightarrow> bool" where
  "gate_step \<equiv> gateway_step gate_world gate_env"

definition gate0 :: gateway where "gate0 = initial_gateway grants_host"
definition gate1 :: gateway where "gate1 = handleConnection 0 (Some ''10.0.0.1'') None gate0"
definition gate2 :: "string \<Rightarrow> string \<Rightarrow> gateway" where
  "gate2 x k = handleFrame gate_world gate_env gate_fresh 0 (AuthBegin (Some x) (Some (sample_key k))) gate1"
definition gate3 :: "string \<Rightarrow> string \<Rightarrow> gateway" where
  "gate3 x k = handleFrame gate_world gate_env gate_fresh 0 (AuthProve (Some (gate_proof x k, sample_signature))) (gate2 x k)"

lemma gate_world_fields [simp]:
  "now gate_world = 1000" "server_id gate_world = ''srv''" "is_uuid gate_world x \<longleftrightarrow> x \<noteq> []" "fingerprint gate_world x = zed"
  "sha256Hex gate_world x = zed" "public_key gate_world = sample_key" "sign_message gate_world k m = sample_signature"
  "verify_message gate_world k m x \<longleftrightarrow> x = sample_signature" "host_seed gate_world = host_seed sample_world"
  "envelope_bytes gate_world e = 100"
  by (simp_all add: gate_world_def sample_world_def)

lemma zed_hex: "Hex64Schema zed" "AuthorityFingerprintSchema zed"
  by (simp_all add: zed_def Hex64Schema_def AuthorityFingerprintSchema_def hex_lower_char_def hex_any_char_def list_all_iff)

lemma gate_now: "gate_world\<lparr>now := 1000\<rparr> = gate_world"
  by (simp add: gate_world_def sample_world_def)

lemma gate_message:
  assumes "crashed g = None" and "c \<in> fst ` set (identities g)"
  shows "gate_step g (handleFrame gate_world gate_env n c f g)"
  using gateway_step.message [OF assms, of gate_world gate_env 1000 n f] by (simp only: gate_now)

lemma gate1_fields [simp]:
  "identities gate1 = [(0, '''')]" "challenges gate1 = Map.empty" "crashed gate1 = None" "svc gate1 = grants_host"
  "connectionIps gate1 = [(0, ''10.0.0.1'')]" "connectionIceSessions gate1 = []" "authAttempts gate1 = Map.empty"
  "pendingDeviceEnrollment gate1 = []" "devicePublicKeys gate1 = Map.empty" "closing gate1 = []"
  by (simp_all add: gate1_def gate0_def initial_gateway_def handleConnection_def acceptConnection_def authenticatedOriginKey_def
      strip_prefix_def loopback_ip_def count_of_def MAX_CONNECTIONS_PER_IP_def Let_def)

lemma gate1_step: "gate_step gate0 gate1"
  unfolding gate1_def by (rule gateway_step.connect) (simp_all add: gate0_def initial_gateway_def unused_def)

lemma gate_grant: "currentHostGrant gate_world n grants_host = (Inr (''hs'', sample_signed sample_grant ''as''), grants_host)"
proof -
  have "HostGrantPayloadSchema gate_world p = HostGrantPayloadSchema sample_world p" for p
    by (simp add: HostGrantPayloadSchema_def sample_world_def)
  then have sch: "HostGrantPayloadSchema gate_world = HostGrantPayloadSchema sample_world" by blast
  have fs: "now gate_world = now sample_world" "server_id gate_world = server_id sample_world"
    unfolding gate_world_def by simp_all
  have vm: "verify_message gate_world = verify_message sample_world" unfolding gate_world_def by simp
  have v: "verifySignedHostGrant gate_world v k t = verifySignedHostGrant sample_world v k t" for v k t
    unfolding verifySignedHostGrant_def sch verifySigned_def verifyCanonicalPayload_def vm by (rule refl)
  have "stored_host_grant gate_world d k = stored_host_grant sample_world d k" for d k
    unfolding stored_host_grant_def v fs by (rule refl)
  moreover have "stored_host_grant sample_world grants_db (sample_key ''hs'') = Inr (Some (sample_signed sample_grant ''as''))"
    by (rule sample_stored_grant) (simp_all add: grants_db_simps)
  moreover have "read_seed (host_seed gate_world) = Inr (Some ''hs'')" by (simp add: sample_world_def read_seed_def)
  ultimately show ?thesis by (simp add: currentHostGrant_def grants_host_def)
qed

lemma gate_challenged:
  "\<exists>v. signedAuthChallenge gate_world ''n'' ''ch'' ''AA'' 9000 grants_host = (Inr (Inr v), grants_host)"
proof -
  have fp: "authorityFingerprint gate_world (db grants_host) = Inr zed"
    by (simp add: authorityFingerprint_def grants_host_def grants_db_simps ed25519Fingerprint_def schema_bytes)
  let ?p = "\<lparr>ha_server = ''srv'', ha_authority = zed, ha_host = ''h1'', ha_grant = ''g1'', ha_challenge = ''ch'', ha_nonce = ''AA'',
             ha_issued = 1000, ha_expires = 9000\<rparr>"
  have "HostAuthChallengePayloadSchema gate_world ?p"
    by (simp add: HostAuthChallengePayloadSchema_def zed_hex hostIdSchema_def text_between_def Base64UrlSchema_def timestampSchema_def
        is_safe_integer_def)
  then have "createSignedHostAuthChallenge gate_world ?p ''hs'' = Inr (sample_signed ?p ''hs'')"
    using domains_ok [of DOM_hostAuthChallenge]
    by (simp add: createSignedHostAuthChallenge_def create_signed_def signPayload_def signCanonicalPayload_def
        signatureMessage_def signed_schema_def SIGNATURE_DOMAINS_def sample_signed_def SignedHostAuthChallengeSchema_def)
  moreover have "gp_host sample_grant = ''h1''" "gp_grant sample_grant = ''g1''" by (simp_all add: sample_grant_def)
  ultimately show ?thesis by (simp add: signedAuthChallenge_def gate_grant fp)
qed

lemma gate2_fields:
  assumes "x \<noteq> []"
  shows "identities (gate2 x k) = [(0, '''')]" "challenges (gate2 x k) = [0 \<mapsto> gate_challenge x k]" "crashed (gate2 x k) = None"
    "svc (gate2 x k) = grants_host" "pendingDeviceEnrollment (gate2 x k) = []" "attempt_allowed 1000 0 (gate2 x k)"
proof -
  obtain v where v: "signedAuthChallenge gate_world ''n'' ''ch'' ''AA'' 9000 grants_host = (Inr (Inr v), grants_host)"
    using gate_challenged by blast
  have a: "attempt_allowed 1000 0 gate1"
    by (simp add: attempt_allowed_def consumeAuthAttempt_def next_attempt_def MAX_AUTH_ATTEMPTS_PER_ORIGIN_MINUTE_def)
  have i: "identityOf 0 gate1 = []" by (simp add: identityOf_def)
  have eq: "gate2 x k = send_frame 0 (OutChallenge (Inr v))
      (with_svc grants_host ((snd (consumeAuthAttempt 1000 0 gate1))\<lparr>challenges := [0 \<mapsto> gate_challenge x k]\<rparr>))"
    using assms by (simp add: gate2_def authBegin_def attempt_case a i gate_fresh_def AUTH_DEADLINE_MS_def v gate_challenge_def)
  show "identities (gate2 x k) = [(0, '''')]" "challenges (gate2 x k) = [0 \<mapsto> gate_challenge x k]"
    "svc (gate2 x k) = grants_host" "pendingDeviceEnrollment (gate2 x k) = []"
    by (simp_all add: eq)
  show "crashed (gate2 x k) = None" by (simp add: eq consumeAuthAttempt_def Let_def)
  have "authAttempts (gate2 x k) = [''10.0.0.1:direct'' \<mapsto> \<lparr>wc_count = 1, wc_start = 1000\<rparr>]"
    by (simp add: eq consumeAuthAttempt_def next_attempt_def auth_key_def Let_def)
  moreover have "connectionIps (gate2 x k) = [(0, ''10.0.0.1'')]" "connectionIceSessions (gate2 x k) = []" by (simp_all add: eq)
  ultimately show "attempt_allowed 1000 0 (gate2 x k)"
    by (simp add: attempt_allowed_def consumeAuthAttempt_def next_attempt_def auth_key_def MAX_AUTH_ATTEMPTS_PER_ORIGIN_MINUTE_def)
qed

lemma gate_verified: "x \<noteq> [] \<Longrightarrow> length x \<le> 128 \<Longrightarrow>
  verifySignedSessionAuth gate_world (gate_proof x k, sample_signature) ''srv'' ''ch'' ''AA'' 1000 = Some (gate_proof x k, sample_signature)"
  using domains_ok [of DOM_sessionAuth] sample_key_ok
  by (simp add: verifySignedSessionAuth_def gate_proof_def SessionAuthPayloadSchema_def identityIdSchema_def text_between_def
      Base64UrlSchema_def timestampSchema_def is_safe_integer_def verifySigned_def verifyCanonicalPayload_def signatureMessage_def
      SIGNATURE_DOMAINS_def schema_bytes Let_def Suc_le_eq)

lemma gate3_fields:
  assumes "x \<noteq> []" and "length x \<le> 128"
  shows "identities (gate3 x k) = [(0, x)]" "devicePublicKeys (gate3 x k) 0 = Some (sample_key k)" "crashed (gate3 x k) = None"
    "svc (gate3 x k) = grants_host"
    "0 \<in> set (pendingDeviceEnrollment (gate3 x k)) \<longleftrightarrow> needs_enrollment grants_db x (sample_key k)"
    "identityOf 0 (gate3 x k) = x"
proof -
  note f = gate2_fields [OF assms(1)]
  have p: "sa_identity (gate_proof x k) = x" "sa_key (gate_proof x k) = sample_key k" by (simp_all add: gate_proof_def)
  have c: "ch_expires (gate_challenge x k) = 9000" "ch_challenge (gate_challenge x k) = ''ch''" "ch_nonce (gate_challenge x k) = ''AA''"
    "ch_identity (gate_challenge x k) = x" "ch_key (gate_challenge x k) = sample_key k" by (simp_all add: gate_challenge_def)
  let ?need = "needs_enrollment grants_db x (sample_key k)"
  let ?g2 = "(snd (consumeAuthAttempt 1000 0 (gate2 x k)))\<lparr>challenges := (\<lambda>a. if a = 0 then None else (challenges (gate2 x k)) a)\<rparr>"
  have h: "db grants_host = grants_db" by (simp add: grants_host_def)
  note eq = gate3_def authProve_def attempt_case f c Let_def gate_verified [OF assms] p h
  show "identities (gate3 x k) = [(0, x)]" "devicePublicKeys (gate3 x k) 0 = Some (sample_key k)"
    "svc (gate3 x k) = grants_host"
    "0 \<in> set (pendingDeviceEnrollment (gate3 x k)) \<longleftrightarrow> needs_enrollment grants_db x (sample_key k)"
    by (simp_all add: eq)
  then show "identityOf 0 (gate3 x k) = x" by (simp add: identityOf_def)
  have "crashed (snd (consumeAuthAttempt 1000 0 (gate2 x k))) = None" using f by (simp add: consumeAuthAttempt_def Let_def)
  then show "crashed (gate3 x k) = None" by (simp add: eq)
qed

lemma gate3_run: "x \<noteq> [] \<Longrightarrow> rtranclp gate_step gate0 (gate2 x k) \<and> gate_step (gate2 x k) (gate3 x k)"
proof -
  assume x: "x \<noteq> []"
  have 2: "gate_step gate1 (gate2 x k)" unfolding gate2_def by (rule gate_message) simp_all
  have "gate_step (gate2 x k) (gate3 x k)"
    unfolding gate3_def by (rule gate_message) (simp_all add: gate2_fields [OF x])
  moreover have "rtranclp gate_step gate0 (gate2 x k)"
    using gate1_step 2 by (meson converse_rtranclp_into_rtranclp r_into_rtranclp)
  ultimately show ?thesis by simp
qed

lemma gate3_reached: "x \<noteq> [] \<Longrightarrow> rtranclp gate_step gate0 (gate3 x k)"
  using gate3_run [of x k] by (blast intro: rtranclp.rtrancl_into_rtrancl)

section \<open>Instances\<close>

lemma gate_db_ok: "world_ok gate_world" "host_ok gate_world grants_db"
proof -
  have "sha_ok gate_world" using sample_sha(1) by (simp add: gate_world_def sha_ok_def)
  then show "world_ok gate_world" by (simp add: world_ok_def)
  have "community_ok grants_db" using sample_community_ok by (simp add: community_ok_def grants_db_def)
  moreover have "has_default_role grants_db" by (simp add: has_default_role_def grants_db_def)
  moreover have "messages_ok gate_world grants_db"
    by (simp add: messages_ok_def usage_ok_def ledger_def ledger_total_def ledger_owner_def usage_read_def spool_ok_def
        transfers_ok_def tables_ok_def pending_ok_def pending_all_def pending_of_def grants_db_def sample_db_def empty_db_def)
  ultimately show "host_ok gate_world grants_db" using grants_db_ok by (simp add: host_ok_def)
qed

theorem gateway_keeps_database_witness:
  "rtranclp gate_step gate0 (gate3 ''ann'' ''kx'') \<and> host_ok gate_world (db (svc (gate3 ''ann'' ''kx'')))"
proof -
  have r: "rtranclp gate_step gate0 (gate3 ''ann'' ''kx'')" by (rule gate3_reached) simp
  moreover have "host_ok gate_world (db (svc gate0))"
    using gate_db_ok(2) by (simp add: gate0_def initial_gateway_def grants_host_def)
  ultimately show ?thesis using gateway_keeps_database [OF r gate_db_ok(1)] by blast
qed

theorem identity_only_by_proof_witness:
  "challenges (gate3 ''ann'' ''kx'') 0 = None \<and> devicePublicKeys (gate3 ''ann'' ''kx'') 0 = Some (sample_key ''kx'')"
proof -
  have i: "identityOf 0 (gate2 ''ann'' ''kx'') \<noteq> ''ann''" using gate2_fields(1) [of "''ann''" "''kx''"] by (simp add: identityOf_def)
  have j: "identityOf 0 (gate3 ''ann'' ''kx'') = ''ann''" by (rule gate3_fields) simp_all
  have l: "\<not> allow_legacy gate_env" by (simp add: gate_env_def)
  have w: "gate_world\<lparr>now := 1000\<rparr> = gate_world" by (simp add: gate_world_def sample_world_def)
  let ?f = "AuthProve (Some (gate_proof ''ann'' ''kx'', sample_signature))"
  have "\<exists>ch p sig. ?f = AuthProve (Some (p, sig)) \<and> challenges (gate3 ''ann'' ''kx'') 0 = None
      \<and> devicePublicKeys (gate3 ''ann'' ''kx'') 0 = Some (sa_key p)"
    using conjunct2 [OF identity_only_by_proof [OF l _ i, where w = gate_world and n = gate_fresh and t = 1000 and d = 0 and f = ?f]] j
    unfolding gate3_def [symmetric] w by blast
  then show ?thesis by (simp add: gate_proof_def)
qed

theorem unauthenticated_frames_harmless_witness:
  "identityOf 0 gate1 = [] \<and> only_grants (svc gate1) (svc (handleFrame gate_world gate_env gate_fresh 0 (EnvelopeSend None) gate1))"
proof -
  have i: "identityOf 0 gate1 = []" by (simp add: identityOf_def)
  have "\<not> allow_legacy gate_env" by (simp add: gate_env_def)
  from unauthenticated_frames_harmless [OF i this] i show ?thesis by blast
qed

lemma gate_unenrolled: "\<not> isAuthorizedDevice grants_db ''ann'' (sample_key ''kx'')"
proof -
  have "sample_key ''ka'' \<noteq> sample_key ''kx''" by code_simp
  then show ?thesis by (simp add: isAuthorizedDevice_def grants_db_def sample_device_def)
qed

lemma gate3_pending: "0 \<in> set (pendingDeviceEnrollment (gate3 ''ann'' ''kx''))"
proof -
  have "needs_enrollment grants_db ''ann'' (sample_key ''kx'')"
    using grants_db_member gate_unenrolled by (simp add: needs_enrollment_def)
  then show ?thesis by (simp add: gate3_fields)
qed

theorem pending_device_only_enrolls_witness:
  "svc (handleFrame gate_world gate_env gate_fresh 0 (Command (Some ServerLeave)) (gate3 ''ann'' ''kx'')) = grants_host"
proof -
  have "\<not> is_enroll ServerLeave" by (simp add: is_enroll_def)
  from pending_device_only_enrolls [OF gate3_pending this] show ?thesis by (simp add: gate3_fields)
qed

theorem replica_serves_reads_only_witness:
  "\<not> writer (replica_host) \<and> reads_only replica_host
     (svc (handleConnection 0 (Some ''10.0.0.1'') None (initial_gateway replica_host)))"
proof -
  have w: "\<not> writer (svc (initial_gateway replica_host))" by (simp add: initial_gateway_def replica_host_def)
  have "rtranclp gate_step (initial_gateway replica_host) (handleConnection 0 (Some ''10.0.0.1'') None (initial_gateway replica_host))"
    by (rule r_into_rtranclp, rule gateway_step.connect) (simp_all add: initial_gateway_def unused_def)
  from replica_serves_reads_only [OF this w] w show ?thesis by (simp add: initial_gateway_def)
qed

theorem connection_limits_witness:
  "connected_from ''10.0.0.1'' gate1 = 1 \<and> int (connected_from ''10.0.0.1'' gate1) \<le> 8"
proof -
  have "rtranclp gate_step (initial_gateway grants_host) gate1"
    using gate1_step unfolding gate0_def by (rule r_into_rtranclp)
  from connection_limits [OF this, of "''10.0.0.1''" "[]"] show ?thesis
    by (simp add: connected_from_def loopback_ip_def)
qed

section \<open>A device that never enrolled sends messages\<close>

definition gate_envelope :: envelope where "gate_envelope = sample_envelope\<lparr>e_commitment := zed\<rparr>"

lemma gate_lookups:
  "get_member grants_db = get_member sample_db" "get_role grants_db = get_role sample_db" "get_channel grants_db = get_channel sample_db"
  "config_number grants_db = config_number sample_db"
  by (simp_all add: fun_eq_iff get_member_def get_role_def get_channel_def grants_db_def config_number_def getConfig_def)

lemma gate_permits:
  "member_permits grants_db = member_permits sample_db" "authorizedAudience grants_db = authorizedAudience sample_db"
proof -
  have may: "member_may grants_db = member_may sample_db" 
    unfolding fun_eq_iff member_may_def member_permits_def gate_lookups by simp
  show "member_permits grants_db = member_permits sample_db" unfolding fun_eq_iff member_permits_def gate_lookups by simp
  show "authorizedAudience grants_db = authorizedAudience sample_db" unfolding fun_eq_iff authorizedAudience_def may by simp
qed

lemma gate_checked: "check_envelope gate_world grants_db ''ann'' gate_envelope = Inr [''ann'', ''bob'']"
  unfolding check_envelope_def gate_lookups gate_permits
  by (simp add: gate_envelope_def sample_envelope_def authorizedAudience_def member_may_def member_permits_def
      memberContext_def sample_member_def default_roles_def evaluatePermission_def override_for_def Let_def
      permission_in_PERMISSIONS)

lemma gate_sent:
  "fst (sendEnvelope gate_world ''ann'' gate_envelope grants_host) = Inr ()"
  "map sp_sender (spool (db (snd (sendEnvelope gate_world ''ann'' gate_envelope grants_host)))) = [''ann'']"
proof -
  have u: "quota_exceeded grants_db x 100 = False" for x
    by (simp add: quota_exceeded_def currentSpoolBytes_def currentMemberSpoolBytes_def memberSpoolQuota_def usage_read_def
        gt_num_def gate_lookups DEFAULT_SPOOL_BYTES_def DEFAULT_MEMBER_SPOOL_BYTES_def)
      (simp add: grants_db_def sample_db_def empty_db_def)
  have "replay_check REPLAY_TTL 1000 ''m1'' [] = (True, [(''m1'', 1000)])"
    by (simp add: replay_check_def replay_prune_def Let_def)
  moreover have "spool grants_db = []" "attachments grants_db = []" "spool_usage grants_db = Map.empty"
    by (simp_all add: grants_db_def sample_db_def empty_db_def)
  moreover have "e_channel gate_envelope = ''general''" "e_message gate_envelope = ''m1''" "e_attachments gate_envelope = []"
    "e_expires gate_envelope = None"
    by (simp_all add: gate_envelope_def sample_envelope_def)
  moreover have "config_number grants_db ''maxRetentionHours'' 168 = Some 168" by (simp add: gate_lookups)
  ultimately show "fst (sendEnvelope gate_world ''ann'' gate_envelope grants_host) = Inr ()"
    "map sp_sender (spool (db (snd (sendEnvelope gate_world ''ann'' gate_envelope grants_host)))) = [''ann'']"
    using u gate_checked
    by (simp_all add: sendEnvelope_def grants_host_def sample_host_def seq_next_def seq_last_def seqFor_def Let_def
        HARD_MAX_ENVELOPE_BYTES_def store_envelope_def ins_spool_def ins_row_def has_row_def op_defs deliver_all_def)
qed

text \<open>
  A run from the start in which a socket proves a key that is on no list of the member's devices, is told to enroll, and
  has its message accepted and stored in the member's name without doing so.
\<close>

lemma unenrolled_device_sends_message:
  "\<exists>g. rtranclp gate_step gate0 g \<and> 0 \<in> set (pendingDeviceEnrollment g)
     \<and> \<not> isAuthorizedDevice (db (svc g)) ''ann'' (device_key 0 g)
     \<and> map sp_sender (spool (db (svc (handleFrame gate_world gate_env gate_fresh 0 (EnvelopeSend (Some gate_envelope)) g)))) = [''ann'']"
proof (intro exI conjI)
  let ?g = "gate3 ''ann'' ''kx''"
  show "rtranclp gate_step gate0 ?g" by (rule gate3_reached) simp
  show "0 \<in> set (pendingDeviceEnrollment ?g)" by (rule gate3_pending)
  show "\<not> isAuthorizedDevice (db (svc ?g)) ''ann'' (device_key 0 ?g)"
    using gate_unenrolled by (simp add: gate3_fields device_key_def grants_host_def)
  have writer: "writer grants_host" by (simp add: grants_host_def sample_host_def)
  have four: "canonicalBase64DecodedLength ''AAAA'' \<noteq> None" by code_simp
  have "MessageEnvelopeSchema gate_world gate_envelope"
    by (simp add: MessageEnvelopeSchema_def gate_envelope_def sample_envelope_def text_between_def AudienceSnapshotSchema_def
        AUDIENCE_COMMITMENT_ALGO_def PROTOCOL_VERSION_def
        audience_members_ok_def base64Schema_def OrderingSchema_def timestampSchema_def is_safe_integer_def opt_ok_def zed_hex four)
  then show "map sp_sender (spool (db (svc (handleFrame gate_world gate_env gate_fresh 0 (EnvelopeSend (Some gate_envelope)) ?g)))) = [''ann'']"
    using gate_sent writer by (simp add: gate3_fields envelope_frame_def Let_def reply_def send_result_def)
qed

section \<open>An exception ends the process\<close>

lemma exception_ends_gateway:
  assumes "identityOf c g = x" and "x \<noteq> []" and "c \<notin> set (pendingDeviceEnrollment g)" and "canAcceptCommand cmd (svc g)"
    and "HostCommandSchema w (parse_json env) cmd0 = Some cmd" and "\<not> is_upload_begin cmd"
    and "fst (route w env n x (device_key c g) cmd (svc g) (bridgeIceConfigs g)) = Inl e"
  shows "crashed (handleFrame w env n c (Command (Some cmd0)) g) = Some e"
proof -
  obtain s m where "route w env n x (device_key c g) cmd (svc g) (bridgeIceConfigs g) = (Inl e, s, m)"
    using assms(7) by (cases "route w env n x (device_key c g) cmd (svc g) (bridgeIceConfigs g)") auto
  then show ?thesis using assms(1-6) by (simp add: command_frame_def Let_def)
qed

text \<open>An administrator who assigns a role: the exception of \<open>roleAssign\<close> is caught nowhere.\<close>

definition bob_gate :: gateway where
  "bob_gate = (initial_gateway sample_host)\<lparr>identities := [(0, ''bob'')]\<rparr>"

lemma role_assignment_ends_gateway:
  "crashed (handleFrame gate_world gate_env gate_fresh 0 (Command (Some (RoleAssign ''cat'' ''role-mod''))) bob_gate)
     = Some TypeError"
proof -
  have "fst (roleAssign ''bob'' ''cat'' ''role-mod'' sample_host) = Inl (Throws TypeError)"
    by (simp add: roleAssign_def may_modify_def canModify_def evaluatePermission_def override_for_def memberContext_def
        sample_host_def sample_member_def default_roles_def level_admin_def level_member_def level_moderator_def
        PERMISSIONS_def Let_def)
  then have r: "fst (route gate_world gate_env gate_fresh ''bob'' (device_key 0 bob_gate) (RoleAssign ''cat'' ''role-mod'')
      (svc bob_gate) (bridgeIceConfigs bob_gate)) = Inl TypeError"
    by (simp add: reply_def bob_gate_def initial_gateway_def)
  have i: "identityOf 0 bob_gate = ''bob''" by (simp add: bob_gate_def identityOf_def)
  have s: "HostCommandSchema gate_world (parse_json gate_env) (RoleAssign ''cat'' ''role-mod'') = Some (RoleAssign ''cat'' ''role-mod'')"
    by (simp add: HostCommandSchema_def command_defaults_def)
  have p: "0 \<notin> set (pendingDeviceEnrollment bob_gate)" by (simp add: bob_gate_def initial_gateway_def)
  have a: "canAcceptCommand (RoleAssign ''cat'' ''role-mod'') (svc bob_gate)"
    by (simp add: canAcceptCommand_def bob_gate_def initial_gateway_def sample_host_def)
  have u: "\<not> is_upload_begin (RoleAssign ''cat'' ''role-mod'')" by (simp add: is_upload_begin_def)
  show ?thesis by (rule exception_ends_gateway [OF i _ p a s u r]) simp
qed

end
