(* ===== verification/HostSelection.thy ===== *)
theory HostSelection
  imports IceConfig Transitions
begin

text \<open>
  How a client chooses a host (\<open>packages/networking/src/connectivity.ts\<close> and \<open>selectHostRegistrations\<close> of
  \<open>packages/networking/src/index.ts\<close>): bridges answer with signed registrations in any order; the client keeps,
  per host, the mark of the last registration it accepted, and no answer takes it behind its marks.

  A value that is no registration is \<open>None\<close>. The persisted marks are JSON values, \<open>None\<close> where \<open>JSON.parse\<close> throws.
  \<open>localeCompare\<close> is a parameter.
\<close>

section \<open>JavaScript sorting\<close>

text \<open>\<open>Array.prototype.sort\<close> is stable; the comparator's sign decides.\<close>

type_synonym 'a comparison = "'a \<Rightarrow> 'a \<Rightarrow> int"

fun js_insert :: "'a comparison \<Rightarrow> 'a \<Rightarrow> 'a list \<Rightarrow> 'a list" where
  "js_insert cmp x [] = [x]"
| "js_insert cmp x (y # ys) = (if cmp x y \<le> 0 then x # y # ys else y # js_insert cmp x ys)"

definition js_sort :: "'a comparison \<Rightarrow> 'a list \<Rightarrow> 'a list" where
  "js_sort cmp xs = foldr (js_insert cmp) xs []"

definition toLowerCase :: "string \<Rightarrow> string" where
  "toLowerCase s = map lower_char s"

section \<open>The chain of a registration\<close>

definition HostRegistrationSchema :: "'z crypto_scheme \<Rightarrow> registration \<Rightarrow> bool" where
  "HostRegistrationSchema c r \<longleftrightarrow>
     PublicKeySchema (rg_authority r) \<and> signed_schema (HostGrantPayloadSchema c) (rg_grant r)
     \<and> SignedHostRecordSchema c (rg_record r)"

record auth_context =
  ac_fingerprint :: string
  ac_authority :: string
  ac_host_key :: string
  ac_server :: string
  ac_host :: string
  ac_grant_id :: string
  ac_record :: "host_record signed"
  ac_grant :: "grant_payload signed"

text \<open>\<open>hostId\<close> is the optional expected host; an empty text does not count.\<close>

definition verifyHostAuthenticationContext ::
    "'z crypto_scheme \<Rightarrow> registration option \<Rightarrow> string \<Rightarrow> string \<Rightarrow> string option \<Rightarrow> int \<Rightarrow> auth_context option" where
  "verifyHostAuthenticationContext c v serverId authorityFp hostId t =
     (case v of
        None \<Rightarrow> None
      | Some r \<Rightarrow>
          if \<not> HostRegistrationSchema c r then None
          else case ed25519Fingerprint c (rg_authority r) of
              Inl e \<Rightarrow> None
            | Inr fp \<Rightarrow>
                if fp \<noteq> toLowerCase authorityFp then None
                else case verifyHostRegistration c (rg_record r) (rg_grant r) (rg_authority r) [] t of
                    None \<Rightarrow> None
                  | Some (record, grant) \<Rightarrow>
                      if hr_server (s_payload record) \<noteq> serverId then None
                      else if (case hostId of None \<Rightarrow> False | Some h \<Rightarrow> h \<noteq> [] \<and> hr_host (s_payload record) \<noteq> h) then None
                      else Some \<lparr>ac_fingerprint = fp, ac_authority = rg_authority r, ac_host_key = s_key record,
                                 ac_server = hr_server (s_payload record), ac_host = hr_host (s_payload record),
                                 ac_grant_id = hr_grant (s_payload record), ac_record = record, ac_grant = grant\<rparr>)"

section \<open>High-water marks\<close>

record high_water_mark =
  hw_authority :: string
  hw_server :: string
  hw_host :: string
  hw_grant :: string
  hw_generation :: int
  hw_epoch :: int
  hw_seq :: int
  hw_hash :: string

definition MAX_HIGH_WATER_MARKS :: nat where "MAX_HIGH_WATER_MARKS = 1024"

definition highWaterKey :: "high_water_mark \<Rightarrow> string" where
  "highWaterKey m = toLowerCase (hw_authority m) @ NUL @ hw_server m @ NUL @ hw_host m"

definition mark_ok :: "high_water_mark \<Rightarrow> bool" where
  "mark_ok m \<longleftrightarrow>
     Hex64Schema (toLowerCase (hw_authority m)) \<and> text_between 1 128 (hw_server m) \<and> text_between 1 128 (hw_host m)
     \<and> text_between 1 128 (hw_grant m) \<and> is_safe_integer (hw_generation m) \<and> hw_generation m > 0
     \<and> is_safe_integer (hw_epoch m) \<and> hw_epoch m \<ge> 0 \<and> is_safe_integer (hw_seq m) \<and> hw_seq m > 0
     \<and> Hex64Schema (hw_hash m)"

definition mark_fields :: "string list" where
  "mark_fields = [''authorityFingerprint'', ''epoch'', ''grantGeneration'', ''grantId'', ''hostId'', ''recordHash'',
                  ''recordSeq'', ''serverId'']"

text \<open>A JSON value that is a mark, read as one.\<close>

definition validHighWaterMark :: "json \<Rightarrow> high_water_mark option" where
  "validHighWaterMark v =
     (case v of
        JObj o1 \<Rightarrow>
          if join NUL (sort (map fst o1)) \<noteq> join NUL (sort mark_fields) then None
          else (case (obj_get ''authorityFingerprint'' o1, obj_get ''serverId'' o1, obj_get ''hostId'' o1,
                      obj_get ''grantId'' o1, obj_get ''recordHash'' o1) of
                  (Some (JStr a), Some (JStr s), Some (JStr h), Some (JStr g), Some (JStr x)) \<Rightarrow>
                    (case (obj_get ''grantGeneration'' o1, obj_get ''epoch'' o1, obj_get ''recordSeq'' o1) of
                       (Some (JNum n), Some (JNum e), Some (JNum q)) \<Rightarrow>
                         let m = \<lparr>hw_authority = a, hw_server = s, hw_host = h, hw_grant = g, hw_generation = n,
                                  hw_epoch = e, hw_seq = q, hw_hash = x\<rparr>
                         in if mark_ok m then Some m else None
                     | _ \<Rightarrow> None)
                | _ \<Rightarrow> None)
      | _ \<Rightarrow> None)"

definition mark_json :: "high_water_mark \<Rightarrow> json" where
  "mark_json m =
     JObj [(''authorityFingerprint'', JStr (hw_authority m)), (''serverId'', JStr (hw_server m)),
           (''hostId'', JStr (hw_host m)), (''grantId'', JStr (hw_grant m)),
           (''grantGeneration'', JNum (hw_generation m)), (''epoch'', JNum (hw_epoch m)),
           (''recordSeq'', JNum (hw_seq m)), (''recordHash'', JStr (hw_hash m))]"

definition lower_authority :: "high_water_mark \<Rightarrow> high_water_mark" where
  "lower_authority m = m\<lparr>hw_authority := toLowerCase (hw_authority m)\<rparr>"

definition deserializeHostRegistrationHighWater :: "json option \<Rightarrow> exn + high_water_mark list" where
  "deserializeHostRegistrationHighWater v =
     (case v of
        Some (JObj o1) \<Rightarrow>
          if join NUL (sort (map fst o1)) \<noteq> join NUL (sort [''marks'', ''version'']) \<or> obj_get ''version'' o1 \<noteq> Some (JNum 1)
          then Inl (AppError ''invalid host registration high-water state'')
          else (case obj_get ''marks'' o1 of
                  Some (JArr ms) \<Rightarrow>
                    if length ms > MAX_HIGH_WATER_MARKS
                    then Inl (AppError ''invalid host registration high-water marks'')
                    else (case all_some (map validHighWaterMark ms) of
                            None \<Rightarrow> Inl (AppError ''invalid host registration high-water marks'')
                          | Some ms0 \<Rightarrow>
                              let marks = map lower_authority ms0 in
                              if distinct (map highWaterKey marks) then Inr marks
                              else Inl (AppError ''duplicate host registration high-water mark''))
                | _ \<Rightarrow> Inl (AppError ''invalid host registration high-water state''))
      | Some _ \<Rightarrow> Inl (AppError ''invalid host registration high-water state'')
      | None \<Rightarrow> Inl (AppError ''invalid host registration high-water JSON''))"

definition high_water_json :: "high_water_mark list \<Rightarrow> json" where
  "high_water_json ms = JObj [(''version'', JNum 1), (''marks'', JArr (map mark_json ms))]"

definition by_key :: "string comparison \<Rightarrow> high_water_mark comparison" where
  "by_key localeCompare a b = localeCompare (highWaterKey a) (highWaterKey b)"

definition serializeHostRegistrationHighWater :: "string comparison \<Rightarrow> high_water_mark list \<Rightarrow> exn + json" where
  "serializeHostRegistrationHighWater localeCompare ms =
     (case deserializeHostRegistrationHighWater (Some (high_water_json ms)) of
        Inl e \<Rightarrow> Inl e
      | Inr marks \<Rightarrow> Inr (high_water_json (js_sort (by_key localeCompare) marks)))"

definition dominates :: "high_water_mark \<Rightarrow> high_water_mark \<Rightarrow> bool" where
  "dominates l r \<longleftrightarrow>
     hw_generation l \<ge> hw_generation r \<and> hw_epoch l \<ge> hw_epoch r \<and> hw_seq l \<ge> hw_seq r
     \<and> (hw_generation l > hw_generation r \<or> hw_epoch l > hw_epoch r \<or> hw_seq l > hw_seq r)"

section \<open>Selection\<close>

datatype rejection_reason = Invalid | Revoked | Downgrade | Replay | Conflicting | Ambiguous

record rejection =
  rj_index :: nat
  rj_reason :: rejection_reason
  rj_host :: "string option"
  rj_grant :: "string option"

record candidate =
  cd_context :: auth_context
  cd_registration :: registration
  cd_hash :: string
  cd_index :: nat
  cd_mark :: high_water_mark

record selection_options =
  so_server :: string
  so_authority :: string
  so_revoked :: "string list"
  so_floors :: "string \<Rightarrow> int option"
  so_now :: int

record selected =
  se_context :: auth_context
  se_registration :: registration
  se_hash :: string

record selection =
  sl_registrations :: "selected list"
  sl_high_water :: "high_water_mark list"
  sl_rejected :: "rejection list"

definition reason_name :: "rejection_reason \<Rightarrow> string" where
  "reason_name r =
     (case r of Invalid \<Rightarrow> ''invalid'' | Revoked \<Rightarrow> ''revoked'' | Downgrade \<Rightarrow> ''downgrade'' | Replay \<Rightarrow> ''replay''
      | Conflicting \<Rightarrow> ''conflict'' | Ambiguous \<Rightarrow> ''ambiguous'')"

definition reject :: "rejection_reason \<Rightarrow> candidate \<Rightarrow> rejection" where
  "reject reason cd = \<lparr>rj_index = cd_index cd, rj_reason = reason, rj_host = Some (hw_host (cd_mark cd)),
                       rj_grant = Some (hw_grant (cd_mark cd))\<rparr>"

definition mark_of :: "selection_options \<Rightarrow> auth_context \<Rightarrow> string \<Rightarrow> high_water_mark" where
  "mark_of opts ctx hash =
     \<lparr>hw_authority = toLowerCase (so_authority opts), hw_server = so_server opts,
      hw_host = hr_host (s_payload (ac_record ctx)), hw_grant = gp_grant (s_payload (ac_grant ctx)),
      hw_generation = gp_generation (s_payload (ac_grant ctx)), hw_epoch = hr_epoch (s_payload (ac_record ctx)),
      hw_seq = hr_seq (s_payload (ac_record ctx)), hw_hash = hash\<rparr>"

text \<open>What is wrong with a mark that follows \<open>previous\<close>; \<open>link\<close> is the record's \<open>previousRecordHash\<close>.\<close>

definition against_marks ::
    "int \<Rightarrow> high_water_mark option \<Rightarrow> high_water_mark \<Rightarrow> string option \<Rightarrow> rejection_reason option" where
  "against_marks globalPriorEpoch previous m link =
     (if hw_epoch m < globalPriorEpoch
         \<or> (case previous of None \<Rightarrow> False
            | Some p \<Rightarrow> hw_generation m < hw_generation p \<or> hw_epoch m < hw_epoch p \<or> hw_seq m < hw_seq p)
      then Some Downgrade
      else case previous of
          None \<Rightarrow> None
        | Some p \<Rightarrow>
            if hw_generation m = hw_generation p \<and> hw_grant m \<noteq> hw_grant p then Some Conflicting
            else if hw_seq m = hw_seq p then Some (if hw_hash m = hw_hash p then Replay else Conflicting)
            else if hw_seq m \<noteq> hw_seq p + 1 \<or> link \<noteq> Some (hw_hash p) then Some Conflicting
            else None)"

text \<open>The verdict on one answer: an exception, a rejection, or a candidate.\<close>

definition judge ::
    "'z crypto_scheme \<Rightarrow> selection_options \<Rightarrow> int \<Rightarrow> (string \<times> high_water_mark) list \<Rightarrow> nat \<Rightarrow> registration option
     \<Rightarrow> exn + (rejection + candidate)" where
  "judge c opts globalPriorEpoch priorByHost index v =
     (case (v, verifyHostAuthenticationContext c v (so_server opts) (toLowerCase (so_authority opts)) None (so_now opts)) of
        (Some r, Some ctx) \<Rightarrow>
          (let grantId = gp_grant (s_payload (ac_grant ctx));
               hostId = hr_host (s_payload (ac_record ctx));
               rej = (\<lambda>reason. Inr (Inl \<lparr>rj_index = index, rj_reason = reason, rj_host = Some hostId, rj_grant = Some grantId\<rparr>))
           in if grantId \<in> set (so_revoked opts) then rej Revoked
              else if gp_generation (s_payload (ac_grant ctx)) \<le> (case so_floors opts hostId of None \<Rightarrow> 0 | Some n \<Rightarrow> n)
              then rej Revoked
              else (case hostRegistrationRecordHash c (ac_record ctx) of
                      Inl e \<Rightarrow> Inl e
                    | Inr hash \<Rightarrow>
                        let m = mark_of opts ctx hash in
                        (case against_marks globalPriorEpoch (map_of priorByHost (highWaterKey m)) m
                                (hr_previous (s_payload (ac_record ctx))) of
                           Some reason \<Rightarrow> rej reason
                         | None \<Rightarrow> Inr (Inr \<lparr>cd_context = ctx, cd_registration = r, cd_hash = hash, cd_index = index,
                                            cd_mark = m\<rparr>))))
      | _ \<Rightarrow> Inr (Inl \<lparr>rj_index = index, rj_reason = Invalid, rj_host = None, rj_grant = None\<rparr>))"

text \<open>The rejections in order, and the candidates in a map from host to candidates.\<close>

type_synonym judged = "rejection list \<times> (string \<times> candidate list) list"

fun judge_all ::
    "'z crypto_scheme \<Rightarrow> selection_options \<Rightarrow> int \<Rightarrow> (string \<times> high_water_mark) list \<Rightarrow> nat \<Rightarrow> registration option list
     \<Rightarrow> judged \<Rightarrow> exn + judged" where
  "judge_all c opts gp prior index [] st = Inr st"
| "judge_all c opts gp prior index (v # vs) (rejected, groups) =
     (case judge c opts gp prior index v of
        Inl e \<Rightarrow> Inl e
      | Inr (Inl rj) \<Rightarrow> judge_all c opts gp prior (Suc index) vs (rejected @ [rj], groups)
      | Inr (Inr cd) \<Rightarrow>
          let hostId = hw_host (cd_mark cd);
              others = (case map_of groups hostId of None \<Rightarrow> [] | Some cds \<Rightarrow> cds)
          in judge_all c opts gp prior (Suc index) vs (rejected, map_set hostId (others @ [cd]) groups))"

definition unique_candidates :: "candidate list \<Rightarrow> candidate list" where
  "unique_candidates cds = map snd (fold (\<lambda>cd m. map_set (cd_hash cd) cd m) cds [])"

text \<open>The candidates of one host: what is rejected, and the winner if there is one.\<close>

definition select_group :: "candidate list \<Rightarrow> rejection list \<times> candidate option" where
  "select_group cds =
     (let unique = unique_candidates cds;
          replays = map (reject Replay)
            (filter (\<lambda>cd. list_ex (\<lambda>item. cd_hash item = cd_hash cd \<and> cd_index item \<noteq> cd_index cd) unique) cds);
          maximal = filter (\<lambda>cd. \<not> list_ex (\<lambda>other. dominates (cd_mark other) (cd_mark cd)) unique) unique
      in case maximal of
           [winner] \<Rightarrow>
             (replays @ map (reject Downgrade) (filter (\<lambda>cd. cd_index cd \<noteq> cd_index winner) unique), Some winner)
         | _ \<Rightarrow> (replays @ map (reject Ambiguous) unique, None))"

definition max_epoch :: "int \<Rightarrow> high_water_mark list \<Rightarrow> int" where
  "max_epoch n ms = foldr max (map hw_epoch ms) n"

definition by_epoch :: "string comparison \<Rightarrow> candidate comparison" where
  "by_epoch localeCompare a b =
     (if hw_epoch (cd_mark b) \<noteq> hw_epoch (cd_mark a) then hw_epoch (cd_mark b) - hw_epoch (cd_mark a)
      else localeCompare (hw_host (cd_mark a)) (hw_host (cd_mark b)))"

definition by_index :: "string comparison \<Rightarrow> rejection comparison" where
  "by_index localeCompare a b =
     (if rj_index a \<noteq> rj_index b then int (rj_index a) - int (rj_index b)
      else localeCompare (reason_name (rj_reason a)) (reason_name (rj_reason b)))"

definition prior_marks :: "string comparison \<Rightarrow> high_water_mark list option \<Rightarrow> exn + high_water_mark list" where
  "prior_marks localeCompare highWater =
     (case highWater of
        None \<Rightarrow> Inr []
      | Some ms \<Rightarrow>
          (case serializeHostRegistrationHighWater localeCompare ms of
             Inl e \<Rightarrow> Inl e
           | Inr v \<Rightarrow> deserializeHostRegistrationHighWater (Some v)))"

definition global_prior_epoch :: "selection_options \<Rightarrow> high_water_mark list \<Rightarrow> int" where
  "global_prior_epoch opts prior =
     max_epoch 0 (filter (\<lambda>m. hw_authority m = toLowerCase (so_authority opts) \<and> hw_server m = so_server opts) prior)"

text \<open>From the judged answers to the result.\<close>

definition conclude ::
    "string comparison \<Rightarrow> int \<Rightarrow> (string \<times> high_water_mark) list \<Rightarrow> judged \<Rightarrow> selection" where
  "conclude localeCompare globalPriorEpoch priorByHost st =
     (let results = map (select_group \<circ> snd) (snd st);
          chosen = List.map_filter snd results;
          globalEpoch = max_epoch globalPriorEpoch (map cd_mark chosen);
          epochSafe = filter (\<lambda>cd. hw_epoch (cd_mark cd) \<ge> globalEpoch) chosen;
          tooOld = filter (\<lambda>cd. \<not> hw_epoch (cd_mark cd) \<ge> globalEpoch) chosen;
          marks = fold (\<lambda>cd m. map_set (highWaterKey (cd_mark cd)) (cd_mark cd) m) epochSafe priorByHost
      in \<lparr>sl_registrations = map (\<lambda>cd. \<lparr>se_context = cd_context cd, se_registration = cd_registration cd, se_hash = cd_hash cd\<rparr>)
                               (js_sort (by_epoch localeCompare) epochSafe),
          sl_high_water = js_sort (by_key localeCompare) (map snd marks),
          sl_rejected = js_sort (by_index localeCompare)
            (fst st @ concat (map fst results) @ map (reject Downgrade) tooOld)\<rparr>)"

definition selectHostRegistrations ::
    "'z crypto_scheme \<Rightarrow> string comparison \<Rightarrow> selection_options \<Rightarrow> high_water_mark list option \<Rightarrow> registration option list
     \<Rightarrow> exn + selection" where
  "selectHostRegistrations c localeCompare opts highWater values =
     (case prior_marks localeCompare highWater of
        Inl e \<Rightarrow> Inl e
      | Inr prior \<Rightarrow>
          let priorByHost = map (\<lambda>m. (highWaterKey m, m)) prior;
              gp = global_prior_epoch opts prior
          in (case judge_all c opts gp priorByHost 0 values ([], []) of
                Inl e \<Rightarrow> Inl e
              | Inr st \<Rightarrow> Inr (conclude localeCompare gp priorByHost st)))"

end
