(* ===== verification/SelectionSafety.thy ===== *)
theory SelectionSafety
  imports HostSelection "HOL-Library.Multiset"
begin

text \<open>
  The selection of a host never goes behind the marks a client keeps, takes only registrations the authority
  signed, and accounts for every answer.
\<close>

section \<open>Sorting and maps\<close>

lemma mset_js_insert [simp]: "mset (js_insert cmp x xs) = add_mset x (mset xs)"
  by (induction cmp x xs rule: js_insert.induct) auto

lemma mset_js_sort [simp]: "mset (js_sort cmp xs) = mset xs"
  by (induction xs) (auto simp: js_sort_def)

lemma js_sort_simps [simp]: "set (js_sort cmp xs) = set xs" "length (js_sort cmp xs) = length xs"
  "distinct (map f (js_sort cmp xs)) = distinct (map f xs)"
proof -
  show "set (js_sort cmp xs) = set xs" by (metis mset_js_sort set_mset_mset)
  show "length (js_sort cmp xs) = length xs" by (metis mset_js_sort size_mset)
  have "mset (map f (js_sort cmp xs)) = mset (map f xs)" by simp
  then show "distinct (map f (js_sort cmp xs)) = distinct (map f xs)" by (metis mset_eq_imp_distinct_iff)
qed

lemma map_of_keyed: "distinct (map f ms) \<Longrightarrow> m \<in> set ms \<Longrightarrow> map_of (map (\<lambda>m. (f m, m)) ms) (f m) = Some m"
  by (simp add: map_of_eq_Some_iff comp_def)

lemma distinct_map_set: "distinct (map fst m) \<Longrightarrow> distinct (map fst (map_set k v m))"
  by (induction k v m rule: map_set.induct) (auto simp: keys_map_set [unfolded image_def, simplified] image_iff dest: values_map_set)

lemma distinct_fold_map_set: "distinct (map fst m) \<Longrightarrow> distinct (map fst (fold (\<lambda>x. map_set (f x) (g x)) xs m))"
  by (induction xs arbitrary: m) (simp_all add: distinct_map_set)

section \<open>The persisted marks\<close>

lemma toLowerCase_idem [simp]: "toLowerCase (toLowerCase s) = toLowerCase s"
proof -
  have "lower_char (lower_char c) = lower_char c" for c
    by (simp add: lower_char_def)
  then show ?thesis by (simp add: toLowerCase_def)
qed

lemma lower_authority_simps [simp]:
  "highWaterKey (lower_authority m) = highWaterKey m" "mark_ok (lower_authority m) = mark_ok m"
  "lower_authority (lower_authority m) = lower_authority m"
  by (simp_all add: highWaterKey_def lower_authority_def mark_ok_def)

lemma all_some_filter: "all_some (map (\<lambda>x. if P x then Some x else None) xs) = (if \<forall>x \<in> set xs. P x then Some xs else None)"
  by (induction xs) auto

lemma sort_perm: "mset xs = mset ys \<Longrightarrow> sort xs = sort ys"
  by (rule properties_for_sort) simp_all

lemma valid_mark_json: "validHighWaterMark (mark_json m) = (if mark_ok m then Some m else None)"
proof -
  have "sort [''authorityFingerprint'', ''serverId'', ''hostId'', ''grantId'', ''grantGeneration'', ''epoch'',
      ''recordSeq'', ''recordHash''] = sort mark_fields"
    by (rule sort_perm) (simp add: mark_fields_def)
  then show ?thesis by (cases m) (simp add: validHighWaterMark_def mark_json_def obj_get_def Let_def del: sort_key_simps)
qed

definition marks_storable :: "high_water_mark list \<Rightarrow> bool" where
  "marks_storable ms \<longleftrightarrow>
     length ms \<le> MAX_HIGH_WATER_MARKS \<and> (\<forall>m \<in> set ms. mark_ok m) \<and> distinct (map highWaterKey ms)"

lemma deserialize_json:
  "deserializeHostRegistrationHighWater (Some (high_water_json ms)) = Inr ms' \<longleftrightarrow> marks_storable ms \<and> ms' = map lower_authority ms"
proof -
  have k: "sort [''version'', ''marks''] = sort [''marks'', ''version'']"
    by (rule sort_perm) simp
  have v: "all_some (map validHighWaterMark (map mark_json ms)) = (if \<forall>m \<in> set ms. mark_ok m then Some ms else None)"
    using all_some_filter [of mark_ok ms] by (simp add: valid_mark_json comp_def)
  have d: "distinct (map highWaterKey (map lower_authority ms)) = distinct (map highWaterKey ms)" by (simp add: comp_def)
  show ?thesis
    unfolding deserializeHostRegistrationHighWater_def high_water_json_def marks_storable_def
    using k v d by (simp add: obj_get_def Let_def comp_def del: sort_key_simps map_map) auto
qed

lemma read_back:
  assumes "serializeHostRegistrationHighWater localeCompare ms = Inr v"
  shows "deserializeHostRegistrationHighWater (Some v) = Inr (js_sort (by_key localeCompare) (map lower_authority ms))"
proof -
  obtain ms' where d: "deserializeHostRegistrationHighWater (Some (high_water_json ms)) = Inr ms'"
    and v: "v = high_water_json (js_sort (by_key localeCompare) ms')"
    using assms by (auto simp: serializeHostRegistrationHighWater_def split: sum.splits)
  then have ok: "marks_storable ms" "ms' = map lower_authority ms" by (auto simp: deserialize_json)
  let ?s = "js_sort (by_key localeCompare) ms'"
  have "marks_storable ?s" using ok by (simp add: marks_storable_def comp_def)
  moreover have "map lower_authority ?s = ?s" using ok by (intro map_idI) auto
  ultimately show ?thesis unfolding v ok(2) [symmetric] by (simp add: deserialize_json)
qed

text \<open>
  What a client persists of its marks is what it reads back, with the authority fingerprints in lower case.
\<close>

theorem high_water_roundtrip:
  assumes "serializeHostRegistrationHighWater localeCompare ms = Inr v"
  shows "deserializeHostRegistrationHighWater (Some v) = Inr (js_sort (by_key localeCompare) (map lower_authority ms))"
  using assms by (rule read_back)

lemma prior_marks_spec:
  assumes "prior_marks localeCompare hw = Inr prior"
  shows "mset prior = mset (map lower_authority (case hw of None \<Rightarrow> [] | Some ms \<Rightarrow> ms)) \<and> marks_storable prior
    \<and> (\<forall>m \<in> set prior. lower_authority m = m)"
proof (cases hw)
  case None
  with assms show ?thesis by (simp add: prior_marks_def marks_storable_def)
next
  case (Some ms)
  then obtain v where s: "serializeHostRegistrationHighWater localeCompare ms = Inr v"
    and d: "deserializeHostRegistrationHighWater (Some v) = Inr prior"
    using assms by (auto simp: prior_marks_def split: sum.splits)
  then have p: "prior = js_sort (by_key localeCompare) (map lower_authority ms)"
    using read_back [OF s] by simp
  have "marks_storable ms" using s by (auto simp: serializeHostRegistrationHighWater_def deserialize_json split: sum.splits)
  then show ?thesis by (auto simp: Some p marks_storable_def comp_def)
qed

section \<open>Judging the answers\<close>

text \<open>What makes an answer a candidate.\<close>

definition accepted ::
    "'z crypto_scheme \<Rightarrow> selection_options \<Rightarrow> int \<Rightarrow> (string \<times> high_water_mark) list \<Rightarrow> candidate \<Rightarrow> bool" where
  "accepted c opts gp prior cd \<longleftrightarrow>
     verifyHostAuthenticationContext c (Some (cd_registration cd)) (so_server opts) (toLowerCase (so_authority opts)) None
       (so_now opts) = Some (cd_context cd)
     \<and> gp_grant (s_payload (ac_grant (cd_context cd))) \<notin> set (so_revoked opts)
     \<and> (\<forall>n. so_floors opts (hw_host (cd_mark cd)) = Some n \<longrightarrow> n < hw_generation (cd_mark cd))
     \<and> hostRegistrationRecordHash c (ac_record (cd_context cd)) = Inr (cd_hash cd)
     \<and> cd_mark cd = mark_of opts (cd_context cd) (cd_hash cd)
     \<and> against_marks gp (map_of prior (highWaterKey (cd_mark cd))) (cd_mark cd)
          (hr_previous (s_payload (ac_record (cd_context cd)))) = None"

lemma judge_accepts: "judge c opts gp prior i v = Inr (Inr cd) \<Longrightarrow> cd_index cd = i \<and> accepted c opts gp prior cd"
  by (auto simp: judge_def accepted_def Let_def mark_of_def split: option.splits sum.splits if_splits)

lemma judge_rejects: "judge c opts gp prior i v = Inr (Inl rj) \<Longrightarrow> rj_index rj = i"
  by (auto simp: judge_def Let_def split: option.splits sum.splits if_splits)

text \<open>A verified record has the schema its hash asks for, so no answer makes the selection throw.\<close>

lemma judge_no_throw: "judge c opts gp prior i v \<noteq> Inl e"
proof
  assume "judge c opts gp prior i v = Inl e"
  then obtain ctx where ctx: "verifyHostAuthenticationContext c v (so_server opts) (toLowerCase (so_authority opts)) None (so_now opts) = Some ctx"
    and h: "hostRegistrationRecordHash c (ac_record ctx) = Inl e"
    by (auto simp: judge_def Let_def split: option.splits sum.splits if_splits)
  from ctx have "SignedHostRecordSchema c (ac_record ctx)"
    by (auto simp: verifyHostAuthenticationContext_def verifyHostRegistration_def verifySignedHostRecord_def HostRegistrationSchema_def
        split: option.splits sum.splits if_splits prod.splits)
  with h show False by (simp add: hostRegistrationRecordHash_def)
qed

definition all_candidates :: "(string \<times> candidate list) list \<Rightarrow> candidate list" where
  "all_candidates gs = concat (map snd gs)"

lemma mset_all_candidates_set:
  "mset (all_candidates (map_set k ((case map_of gs k of None \<Rightarrow> [] | Some cds \<Rightarrow> cds) @ [cd]) gs))
     = add_mset cd (mset (all_candidates gs))"
  by (induction gs) (auto simp: all_candidates_def)

text \<open>Groups are keyed by host.\<close>

definition groups_ok :: "(string \<times> candidate list) list \<Rightarrow> bool" where
  "groups_ok gs \<longleftrightarrow> distinct (map fst gs) \<and> (\<forall>(h, cds) \<in> set gs. \<forall>cd \<in> set cds. hw_host (cd_mark cd) = h)"

lemma groups_ok_set:
  assumes "groups_ok gs"
  shows "groups_ok (map_set (hw_host (cd_mark cd)) ((case map_of gs (hw_host (cd_mark cd)) of None \<Rightarrow> [] | Some cds \<Rightarrow> cds) @ [cd]) gs)"
proof -
  have "distinct (map fst gs)" using assms by (simp add: groups_ok_def)
  then show ?thesis
    using assms
    by (auto simp: groups_ok_def distinct_map_set dest!: values_map_set map_of_SomeD split: option.splits) fastforce
qed

lemma judge_all_spec:
  assumes "judge_all c opts gp prior i vs (rs, gs) = Inr (rs', gs')"
  shows "mset (map rj_index rs') + mset (map cd_index (all_candidates gs'))
           = mset (map rj_index rs) + mset (map cd_index (all_candidates gs)) + mset [i..<i + length vs]
       \<and> (\<forall>cd \<in> set (all_candidates gs'). cd \<in> set (all_candidates gs) \<or> accepted c opts gp prior cd)
       \<and> (groups_ok gs \<longrightarrow> groups_ok gs')"
  using assms
proof (induction vs arbitrary: i rs gs)
  case (Cons v vs)
  have upt: "[i..<i + length (v # vs)] = i # [Suc i..<Suc i + length vs]" by (simp add: upt_conv_Cons del: upt_Suc)
  show ?case
  proof (cases "judge c opts gp prior i v")
    case (Inr r)
    show ?thesis
    proof (cases r)
      case (Inl rj)
      with Inr Cons.prems have "judge_all c opts gp prior (Suc i) vs (rs @ [rj], gs) = Inr (rs', gs')" by simp
      from Cons.IH [OF this] judge_rejects [of c opts gp prior i v rj] Inr Inl show ?thesis
        unfolding upt by (simp del: upt_Suc)
    next
      case inr: (Inr cd)
      let ?k = "hw_host (cd_mark cd)"
      let ?gs = "map_set ?k ((case map_of gs ?k of None \<Rightarrow> [] | Some cds \<Rightarrow> cds) @ [cd]) gs"
      from Inr inr Cons.prems have "judge_all c opts gp prior (Suc i) vs (rs, ?gs) = Inr (rs', gs')" by (simp add: Let_def)
      note ih = Cons.IH [OF this]
      have cd: "cd_index cd = i" "accepted c opts gp prior cd" using judge_accepts Inr inr by blast+
      have m: "mset (all_candidates ?gs) = add_mset cd (mset (all_candidates gs))" by (rule mset_all_candidates_set)
      then have s: "set (all_candidates ?gs) = insert cd (set (all_candidates gs))"
        by (metis set_mset_add_mset_insert set_mset_mset)
      have "mset (map cd_index (all_candidates ?gs)) = add_mset i (mset (map cd_index (all_candidates gs)))"
        using m cd(1) by simp
      then show ?thesis using ih cd(2) groups_ok_set [of gs cd] unfolding s upt by (auto simp del: upt_Suc)
    qed
  qed (use Cons.prems in simp)
qed simp

section \<open>One host's candidates\<close>

lemma fold_map_set_values:
  "(k, v) \<in> set (fold (\<lambda>x. map_set (f x) (g x)) xs m) \<Longrightarrow> (k, v) \<in> set m \<or> (\<exists>x \<in> set xs. k = f x \<and> v = g x)"
proof (induction xs arbitrary: m)
  case (Cons x xs)
  from Cons.IH [of "map_set (f x) (g x) m"] Cons.prems values_map_set [of "(k, v)" "f x" "g x" m] show ?case by auto
qed simp

lemma fold_map_set_keys:
  "fst ` set (fold (\<lambda>x. map_set (f x) (g x)) xs m) = fst ` set m \<union> f ` set xs"
  by (induction xs arbitrary: m) (auto simp: keys_map_set)

lemma fold_map_set_self:
  assumes "distinct (map f xs)" and "x \<in> set xs" and "distinct (map fst m)"
  shows "(f x, g x) \<in> set (fold (\<lambda>x. map_set (f x) (g x)) xs m)"
proof -
  let ?m = "fold (\<lambda>x. map_set (f x) (g x)) xs m"
  have "map_of ?m (f x) = Some (g x)"
    using assms(1,2)
  proof (induction xs rule: rev_induct)
    case (snoc y ys)
    then show ?case by (cases "x = y") (auto simp: map_of_map_set, metis image_eqI)
  qed simp
  then show ?thesis by (rule map_of_SomeD)
qed

lemma unique_spec:
  "set (unique_candidates cds) \<subseteq> set cds" "distinct (map cd_hash (unique_candidates cds))"
  "cd_hash ` set (unique_candidates cds) = cd_hash ` set cds"
proof -
  let ?m = "fold (\<lambda>cd. map_set (cd_hash cd) cd) cds []"
  have v: "v \<in> set cds \<and> k = cd_hash v" if "(k, v) \<in> set ?m" for k v
    using fold_map_set_values [of k v cd_hash "\<lambda>x. x" cds "[]"] that by auto
  have h: "map cd_hash (map snd ?m) = map fst ?m" using v by auto
  show "set (unique_candidates cds) \<subseteq> set cds" using v by (auto simp: unique_candidates_def)
  show "distinct (map cd_hash (unique_candidates cds))"
    unfolding unique_candidates_def h using distinct_fold_map_set [of "[]" cd_hash "\<lambda>x. x" cds] by simp
  have "set (map cd_hash (map snd ?m)) = cd_hash ` set cds"
    unfolding h using fold_map_set_keys [of cd_hash "\<lambda>x. x" cds "[]"] by simp
  then show "cd_hash ` set (unique_candidates cds) = cd_hash ` set cds" by (simp add: unique_candidates_def image_image)
qed

lemma repeated_iff:
  assumes "distinct (map cd_index cds)" and "cd \<in> set cds"
  shows "list_ex (\<lambda>item. cd_hash item = cd_hash cd \<and> cd_index item \<noteq> cd_index cd) (unique_candidates cds)
     \<longleftrightarrow> cd \<notin> set (unique_candidates cds)"
proof -
  note u = unique_spec [of cds]
  have inj: "x = y" if "x \<in> set cds" "y \<in> set cds" "cd_index x = cd_index y" for x y
    using assms(1) that by (simp add: distinct_map inj_on_def)
  have hash: "x = y" if "x \<in> set (unique_candidates cds)" "y \<in> set (unique_candidates cds)" "cd_hash x = cd_hash y" for x y
    using u(2) that by (simp add: distinct_map inj_on_def)
  obtain item where item: "item \<in> set (unique_candidates cds)" "cd_hash item = cd_hash cd"
    using u(3) assms(2) by (metis (no_types, lifting) imageE imageI)
  show ?thesis
  proof
    assume "list_ex (\<lambda>item. cd_hash item = cd_hash cd \<and> cd_index item \<noteq> cd_index cd) (unique_candidates cds)"
    then show "cd \<notin> set (unique_candidates cds)" using hash by (auto simp: list_ex_iff)
  next
    assume n: "cd \<notin> set (unique_candidates cds)"
    then have "item \<noteq> cd" using item(1) by blast
    then have "cd_index item \<noteq> cd_index cd" using inj [of item cd] item(1) u(1) assms(2) by blast
    then show "list_ex (\<lambda>item. cd_hash item = cd_hash cd \<and> cd_index item \<noteq> cd_index cd) (unique_candidates cds)"
      using item by (auto simp: list_ex_iff)
  qed
qed

lemma winner_spec:
  assumes "snd (select_group cds) = Some w"
  shows "w \<in> set cds \<and> (\<forall>u \<in> set (unique_candidates cds). \<not> dominates (cd_mark u) (cd_mark w)) \<and> w \<in> set (unique_candidates cds)"
proof -
  let ?mx = "filter (\<lambda>cd. \<not> list_ex (\<lambda>other. dominates (cd_mark other) (cd_mark cd)) (unique_candidates cds)) (unique_candidates cds)"
  have "?mx = [w]" using assms by (auto simp: select_group_def Let_def split: list.splits)
  then have "w \<in> set ?mx" by simp
  then show ?thesis using unique_spec(1) by (auto simp: list_ex_iff)
qed

lemma mset_distinct_remove: "distinct xs \<Longrightarrow> x \<in> set xs \<Longrightarrow> mset xs = add_mset x (mset (filter (\<lambda>y. y \<noteq> x) xs))"
proof (induction xs)
  case (Cons y ys)
  show ?case
  proof (cases "y = x")
    case True
    then have "filter (\<lambda>z. z \<noteq> x) ys = ys" using Cons.prems(1) by (auto simp: filter_id_conv)
    with True show ?thesis by simp
  qed (use Cons in auto)
qed simp

lemma reject_index [simp]: "map rj_index (map (reject r) cds) = map cd_index cds"
  by (simp add: reject_def)

lemma select_group_accounts:
  assumes "distinct (map cd_index cds)"
  shows "mset (map rj_index (fst (select_group cds))) + mset (map cd_index (case snd (select_group cds) of None \<Rightarrow> [] | Some w \<Rightarrow> [w]))
     = mset (map cd_index cds)"
proof -
  let ?u = "unique_candidates cds"
  let ?old = "filter (\<lambda>cd. list_ex (\<lambda>item. cd_hash item = cd_hash cd \<and> cd_index item \<noteq> cd_index cd) ?u) cds"
  have du: "distinct ?u" using unique_spec(2) [of cds] by (simp add: distinct_map)
  have dc: "distinct cds" using assms by (simp add: distinct_map)
  have old: "?old = filter (\<lambda>cd. cd \<notin> set ?u) cds" using repeated_iff [OF assms] by (intro filter_cong) auto
  have "mset (filter (\<lambda>cd. cd \<in> set ?u) cds) = mset ?u"
    using du dc unique_spec(1) [of cds] by (intro iffD1 [OF set_eq_iff_mset_eq_distinct]) auto
  then have split: "mset cds = mset ?old + mset ?u"
    unfolding old using multiset_partition [of "mset cds" "\<lambda>cd. cd \<in> set ?u"] by (simp add: add.commute)
  let ?mx = "filter (\<lambda>cd. \<not> list_ex (\<lambda>other. dominates (cd_mark other) (cd_mark cd)) ?u) ?u"
  show ?thesis
  proof (cases "\<exists>w. ?mx = [w]")
    case True
    then obtain w where w: "?mx = [w]" by blast
    then have "w \<in> set ?mx" by simp
    then have wu: "w \<in> set ?u" by simp
    let ?rest = "filter (\<lambda>cd. cd \<noteq> w) ?u"
    have "filter (\<lambda>cd. cd_index cd \<noteq> cd_index w) ?u = ?rest"
      using assms unique_spec(1) [of cds] wu by (intro filter_cong) (auto simp: distinct_map inj_on_def)
    then have g: "select_group cds = (map (reject Replay) ?old @ map (reject Downgrade) ?rest, Some w)"
      using w by (simp add: select_group_def Let_def)
    have "mset cds = mset ?old + add_mset w (mset ?rest)"
      using split mset_distinct_remove [OF du wu] by (simp only:)
    then show ?thesis unfolding g by (simp only: fst_conv snd_conv option.case map_append reject_index mset_append mset_map)
        (simp add: union_assoc del: mset_filter)
  next
    case False
    then have g: "select_group cds = (map (reject Replay) ?old @ map (reject Ambiguous) ?u, None)"
      by (auto simp: select_group_def Let_def split: list.splits)
    show ?thesis unfolding g by (simp only: fst_conv snd_conv option.case map_append reject_index mset_append mset_map split)
        (simp del: mset_filter)
  qed
qed

section \<open>The result\<close>

lemma groups_account:
  assumes "\<forall>(h, cds) \<in> set gs. distinct (map cd_index cds)"
  shows "mset (map rj_index (concat (map (\<lambda>g. fst (select_group (snd g))) gs)))
      + mset (map cd_index (List.map_filter (\<lambda>g. snd (select_group (snd g))) gs)) = mset (map cd_index (all_candidates gs))"
  using assms
proof (induction gs)
  case (Cons g gs)
  obtain h cds where g: "g = (h, cds)" by (cases g)
  have d: "distinct (map cd_index cds)" using Cons.prems g by simp
  have ih: "mset (map rj_index (concat (map (\<lambda>g. fst (select_group (snd g))) gs)))
      + mset (map cd_index (List.map_filter (\<lambda>g. snd (select_group (snd g))) gs)) = mset (map cd_index (all_candidates gs))"
    using Cons by simp
  show ?case
    using ih [symmetric] select_group_accounts [OF d, symmetric]
    by (simp add: g all_candidates_def List.map_filter_simps split: option.split)
qed (simp add: all_candidates_def List.map_filter_simps)

definition chosen_of :: "judged \<Rightarrow> candidate list" where
  "chosen_of st = List.map_filter (\<lambda>g. snd (select_group (snd g))) (snd st)"

definition safe_of :: "int \<Rightarrow> judged \<Rightarrow> candidate list" where
  "safe_of gp st = filter (\<lambda>cd. hw_epoch (cd_mark cd) \<ge> max_epoch gp (map cd_mark (chosen_of st))) (chosen_of st)"

definition selected_of :: "candidate \<Rightarrow> selected" where
  "selected_of cd = \<lparr>se_context = cd_context cd, se_registration = cd_registration cd, se_hash = cd_hash cd\<rparr>"

lemma conclude_fields:
  "sl_registrations (conclude lc gp prior st) = map selected_of (js_sort (by_epoch lc) (safe_of gp st))"
  "sl_high_water (conclude lc gp prior st) =
     js_sort (by_key lc) (map snd (fold (\<lambda>cd. map_set (highWaterKey (cd_mark cd)) (cd_mark cd)) (safe_of gp st) prior))"
  by (simp_all add: conclude_def Let_def selected_of_def safe_of_def chosen_of_def List.map_filter_def comp_def filter_map)

lemma conclude_accounts:
  assumes "\<forall>(h, cds) \<in> set (snd st). distinct (map cd_index cds)"
  shows "mset (map rj_index (sl_rejected (conclude lc gp prior st))) + mset (map cd_index (safe_of gp st))
     = mset (map rj_index (fst st)) + mset (map cd_index (all_candidates (snd st)))"
proof -
  let ?P = "\<lambda>cd. hw_epoch (cd_mark cd) \<ge> max_epoch gp (map cd_mark (chosen_of st))"
  let ?all = "fst st @ concat (map (\<lambda>g. fst (select_group (snd g))) (snd st)) @ map (reject Downgrade) (filter (\<lambda>cd. \<not> ?P cd) (chosen_of st))"
  have r: "mset (sl_rejected (conclude lc gp prior st)) = mset ?all"
    by (simp add: conclude_def Let_def chosen_of_def List.map_filter_def comp_def filter_map)
  have "mset (map cd_index (chosen_of st))
      = mset (map cd_index (filter (\<lambda>cd. \<not> ?P cd) (chosen_of st))) + mset (map cd_index (safe_of gp st))"
    unfolding safe_of_def using multiset_partition [of "mset (chosen_of st)" ?P]
    by (metis (no_types, lifting) add.commute image_mset_union mset_filter mset_map)
  moreover have "mset (map rj_index (sl_rejected (conclude lc gp prior st)))
      = mset (map rj_index (fst st)) + mset (map rj_index (concat (map (\<lambda>g. fst (select_group (snd g))) (snd st))))
        + mset (map cd_index (filter (\<lambda>cd. \<not> ?P cd) (chosen_of st)))"
  proof -
    have "mset (map rj_index (sl_rejected (conclude lc gp prior st))) = mset (map rj_index ?all)" using r by (simp only: mset_map)
    then show ?thesis by (simp only: map_append reject_index mset_append add.assoc)
  qed
  ultimately show ?thesis using groups_account [OF assms] by (simp only: chosen_of_def add.assoc)
qed

lemma max_epoch_ge: "n \<le> max_epoch n ms" "m \<in> set ms \<Longrightarrow> hw_epoch m \<le> max_epoch n ms"
  by (induction ms) (auto simp: max_epoch_def)

lemma safe_same_epoch: "cd \<in> set (safe_of gp st) \<Longrightarrow> hw_epoch (cd_mark cd) = max_epoch gp (map cd_mark (chosen_of st))"
  using max_epoch_ge(2) [of "cd_mark cd" "map cd_mark (chosen_of st)" gp] by (force simp: safe_of_def)

lemma chosen_spec:
  assumes "groups_ok (snd st)"
  shows "set (chosen_of st) \<subseteq> set (all_candidates (snd st))" "distinct (map (\<lambda>cd. hw_host (cd_mark cd)) (chosen_of st))"
proof -
  have w: "w \<in> set cds" if "snd (select_group cds) = Some w" for cds w using winner_spec [OF that] by simp
  have "set (List.map_filter (\<lambda>g. snd (select_group (snd g))) gs) \<subseteq> set (all_candidates gs)
      \<and> (groups_ok gs \<longrightarrow> distinct (map (\<lambda>cd. hw_host (cd_mark cd)) (List.map_filter (\<lambda>g. snd (select_group (snd g))) gs))
        \<and> (\<forall>cd \<in> set (List.map_filter (\<lambda>g. snd (select_group (snd g))) gs). hw_host (cd_mark cd) \<in> fst ` set gs))" for gs
  proof (induction gs)
    case (Cons g gs)
    obtain h cds where g: "g = (h, cds)" by (cases g)
    have ok: "groups_ok gs" if "groups_ok (g # gs)" using that by (simp add: groups_ok_def)
    show ?case
    proof (cases "snd (select_group cds)")
      case None
      then show ?thesis using Cons ok by (auto simp: g List.map_filter_simps all_candidates_def)
    next
      case (Some x)
      have h: "hw_host (cd_mark x) = h" "h \<notin> fst ` set gs" if "groups_ok (g # gs)"
        using that w [OF Some] by (auto simp: g groups_ok_def)
      show ?thesis using Cons ok h w [OF Some] by (auto simp: g Some List.map_filter_simps all_candidates_def)
    qed
  qed (simp add: List.map_filter_simps)
  then show "set (chosen_of st) \<subseteq> set (all_candidates (snd st))" "distinct (map (\<lambda>cd. hw_host (cd_mark cd)) (chosen_of st))"
    using assms unfolding chosen_of_def by blast+
qed

lemma judge_registration: "judge c opts gp prior i v = Inr (Inr cd) \<Longrightarrow> v = Some (cd_registration cd)"
  by (auto simp: judge_def Let_def split: option.splits sum.splits if_splits)

lemma judge_all_values:
  assumes "judge_all c opts gp prior i vs (rs, gs) = Inr (rs', gs')" and "cd \<in> set (all_candidates gs')"
  shows "cd \<in> set (all_candidates gs) \<or> (i \<le> cd_index cd \<and> cd_index cd < i + length vs
     \<and> vs ! (cd_index cd - i) = Some (cd_registration cd))"
  using assms
proof (induction vs arbitrary: i rs gs)
  case (Cons v vs)
  show ?case
  proof (cases "judge c opts gp prior i v")
    case (Inr r)
    show ?thesis
    proof (cases r)
      case (Inl rj)
      have "judge_all c opts gp prior (Suc i) vs (rs @ [rj], gs) = Inr (rs', gs')" using Cons.prems(1) Inr Inl by simp
      from Cons.IH [OF this Cons.prems(2)] show ?thesis by (auto simp: nth_Cons')
    next
      case inr: (Inr x)
      let ?k = "hw_host (cd_mark x)"
      let ?gs = "map_set ?k ((case map_of gs ?k of None \<Rightarrow> [] | Some cds \<Rightarrow> cds) @ [x]) gs"
      have "judge_all c opts gp prior (Suc i) vs (rs, ?gs) = Inr (rs', gs')" using Cons.prems(1) Inr inr by (simp add: Let_def)
      note ih = Cons.IH [OF this Cons.prems(2)]
      have x: "cd_index x = i" "v = Some (cd_registration x)" using Inr inr by (simp_all add: judge_registration judge_accepts)
      have "mset (all_candidates ?gs) = add_mset x (mset (all_candidates gs))" by (rule mset_all_candidates_set)
      then have "set (all_candidates ?gs) = insert x (set (all_candidates gs))"
        by (metis set_mset_add_mset_insert set_mset_mset)
      with ih x show ?thesis by (auto simp: nth_Cons')
    qed
  qed (use Cons.prems in simp)
qed simp

lemma indices_distinct:
  assumes "mset (map rj_index rs) + mset (map cd_index (all_candidates gs)) = mset [0..<n]"
  shows "\<forall>(h, cds) \<in> set gs. distinct (map cd_index cds)"
proof -
  have "distinct (map rj_index rs @ map cd_index (all_candidates gs))"
    using assms by (metis distinct_upt mset_append mset_eq_imp_distinct_iff)
  then have "distinct (map cd_index cds)" if "(h, cds) \<in> set gs" for h cds
    using split_list [OF that] by (auto simp: all_candidates_def)
  then show ?thesis by blast
qed

text \<open>A run of the selection, taken apart.\<close>

lemma selection_run:
  assumes "selectHostRegistrations c lc opts hw values = Inr r"
  obtains prior gp st where "prior_marks lc hw = Inr prior" and "gp = global_prior_epoch opts prior"
    and "r = conclude lc gp (map (\<lambda>m. (highWaterKey m, m)) prior) st"
    and "mset (map rj_index (fst st)) + mset (map cd_index (all_candidates (snd st))) = mset [0..<length values]"
    and "\<forall>cd \<in> set (all_candidates (snd st)). accepted c opts gp (map (\<lambda>m. (highWaterKey m, m)) prior) cd"
    and "groups_ok (snd st)"
    and "\<forall>cd \<in> set (all_candidates (snd st)). cd_index cd < length values \<and> values ! cd_index cd = Some (cd_registration cd)"
proof -
  obtain prior st where p: "prior_marks lc hw = Inr prior"
    and j: "judge_all c opts (global_prior_epoch opts prior) (map (\<lambda>m. (highWaterKey m, m)) prior) 0 values ([], []) = Inr st"
    and r: "r = conclude lc (global_prior_epoch opts prior) (map (\<lambda>m. (highWaterKey m, m)) prior) st"
    using assms by (auto simp: selectHostRegistrations_def Let_def split: sum.splits)
  obtain rs gs where st: "st = (rs, gs)" by (cases st)
  have g: "groups_ok []" "all_candidates [] = []" by (simp_all add: groups_ok_def all_candidates_def)
  show thesis
    by (rule that [OF p refl r]) (use judge_all_spec [OF j [unfolded st]] judge_all_values [OF j [unfolded st]] g in \<open>auto simp: st\<close>)
qed

lemma safe_accepted:
  assumes "\<forall>cd \<in> set (all_candidates (snd st)). accepted c opts gp prior cd" and "groups_ok (snd st)"
    and "cd \<in> set (safe_of gp st)"
  shows "accepted c opts gp prior cd"
  using assms chosen_spec(1) [OF assms(2)] by (auto simp: safe_of_def)

lemma safe_hosts: "groups_ok (snd st) \<Longrightarrow> distinct (map (\<lambda>cd. hw_host (cd_mark cd)) (safe_of gp st))"
  using chosen_spec(2) [of st] by (simp add: safe_of_def distinct_map_filter)

section \<open>What the selection promises\<close>

lemma judge_all_total: "\<exists>st'. judge_all c opts gp pr i vs st = Inr st'"
proof (induction vs arbitrary: i st)
  case (Cons v vs)
  obtain x where "judge c opts gp pr i v = Inr x"
    using judge_no_throw [of c opts gp pr i v] by (cases "judge c opts gp pr i v") auto
  with Cons show ?case by (cases st; cases x) (simp_all add: Let_def)
qed simp

text \<open>
  C32. Every answer gets one verdict. With stored marks that can be read the selection never throws, and the answers divide
  into those it selects and those it rejects: the selected registrations are answers, each at a place of its own, and
  every other answer, and no selected one, is rejected exactly once.
\<close>

theorem every_answer_judged_once:
  assumes "prior_marks lc hw = Inr prior"
  shows "\<exists>r places. selectHostRegistrations c lc opts hw values = Inr r
     \<and> length places = length (sl_registrations r)
     \<and> (\<forall>i < length places. values ! (places ! i) = Some (se_registration (sl_registrations r ! i)))
     \<and> distinct places \<and> distinct (map rj_index (sl_rejected r))
     \<and> set (map rj_index (sl_rejected r)) = {..<length values} - set places \<and> set places \<subseteq> {..<length values}"
proof -
  let ?j = "judge_all c opts (global_prior_epoch opts prior) (map (\<lambda>m. (highWaterKey m, m)) prior) 0 values ([], [])"
  obtain st' where "?j = Inr st'" using judge_all_total by blast
  then have "\<exists>r. selectHostRegistrations c lc opts hw values = Inr r"
    using assms by (simp add: selectHostRegistrations_def Let_def)
  then obtain r where r: "selectHostRegistrations c lc opts hw values = Inr r" by blast
  from r obtain gp st and pr :: "high_water_mark list" where c: "r = conclude lc gp (map (\<lambda>m. (highWaterKey m, m)) pr) st"
    and m: "mset (map rj_index (fst st)) + mset (map cd_index (all_candidates (snd st))) = mset [0..<length values]"
    and v: "\<forall>cd \<in> set (all_candidates (snd st)). cd_index cd < length values \<and> values ! cd_index cd = Some (cd_registration cd)"
    and g: "groups_ok (snd st)"
    by (rule selection_run)
  let ?safe = "js_sort (by_epoch lc) (safe_of gp st)"
  let ?places = "map cd_index ?safe"
  have safe: "set ?safe \<subseteq> set (all_candidates (snd st))" using chosen_spec(1) [OF g] by (auto simp: safe_of_def)
  have acc: "mset (map rj_index (sl_rejected r)) + mset ?places = mset [0..<length values]"
    using conclude_accounts [OF indices_distinct [OF m], where lc = lc and gp = gp and prior = "map (\<lambda>m. (highWaterKey m, m)) pr"] m
    unfolding c by (simp only: mset_map mset_js_sort)
  have "distinct (map rj_index (sl_rejected r) @ ?places)"
    using acc by (metis distinct_upt mset_append mset_eq_imp_distinct_iff)
  moreover have "set (map rj_index (sl_rejected r) @ ?places) = {0..<length values}"
    using acc by (metis mset_append set_mset_mset set_upt)
  moreover have "values ! (?places ! i) = Some (se_registration (sl_registrations r ! i))" if "i < length ?places" for i
  proof -
    have "?safe ! i \<in> set (all_candidates (snd st))" using that safe by (metis length_map nth_mem subsetD)
    then show ?thesis using v that by (simp add: c conclude_fields selected_of_def)
  qed
  ultimately show ?thesis
    using r by (intro exI [of _ r] exI [of _ ?places]) (auto simp: c conclude_fields atLeast0LessThan)
qed

text \<open>
  What makes a registration authorised, spelled out: the authority's key has the expected fingerprint, the grant is signed
  with it, the record with the key of the grant, both are unexpired and agree about the host and the expected server, and
  the grant allows the role.
\<close>

definition authority_chain :: "'z crypto_scheme \<Rightarrow> string \<Rightarrow> string \<Rightarrow> int \<Rightarrow> registration \<Rightarrow> bool" where
  "authority_chain c server fp t rg \<longleftrightarrow>
     (let g = rg_grant rg; p = s_payload g; r = s_payload (rg_record rg) in
      ed25519Fingerprint c (rg_authority rg) = Inr fp
      \<and> s_key g = rg_authority rg \<and> verifyCanonicalPayload c (s_key g) DOM_hostGrant (grant_json p) (s_signature g)
      \<and> s_key (rg_record rg) = gp_device_key p
      \<and> verifyCanonicalPayload c (s_key (rg_record rg)) DOM_hostRecord (host_record_json r) (s_signature (rg_record rg))
      \<and> t < gp_expires p \<and> t < hr_expires r \<and> hr_server r = server \<and> gp_server p = server
      \<and> hr_host r = gp_host p \<and> hr_grant r = gp_grant p \<and> Register \<in> set (gp_caps p)
      \<and> (if hr_role r = Primary then Promote else Replicate) \<in> set (gp_caps p))"

lemma verified_chain:
  assumes "verifyHostAuthenticationContext c (Some rg) server fp None t = Some ctx"
  shows "authority_chain c server (toLowerCase fp) t rg \<and> ac_grant ctx = rg_grant rg \<and> ac_record ctx = rg_record rg"
proof -
  obtain rec gr where v: "verifyHostRegistration c (rg_record rg) (rg_grant rg) (rg_authority rg) [] t = Some (rec, gr)"
    and f: "ed25519Fingerprint c (rg_authority rg) = Inr (toLowerCase fp)" "hr_server (s_payload rec) = server"
      "ac_grant ctx = gr" "ac_record ctx = rec"
    using assms by (auto simp: verifyHostAuthenticationContext_def split: if_splits sum.splits option.splits)
  have "gr = rg_grant rg" "rec = rg_record rg"
    using v by (auto simp: verifyHostRegistration_def verifySignedHostGrant_def verifySignedHostRecord_def split: option.splits if_splits)
  then show ?thesis
    using v f
    by (cases "hr_role (s_payload rec)")
      (auto simp: authority_chain_def Let_def verifyHostRegistration_def verifySignedHostGrant_def verifySignedHostRecord_def
        verifySigned_def split: option.splits if_splits)
qed

text \<open>
  C31. A client connects only where the authority sends it. A selected registration carries a grant the expected
  authority signed for the expected server, unexpired, neither revoked nor below the revocation floor of its host, and a
  record signed with the key of that grant for the same host and server, unexpired, in a role the grant allows; all
  selected registrations are of one epoch, and each host has at most one.
\<close>

theorem selected_is_authorised:
  assumes "selectHostRegistrations c lc opts hw values = Inr r" and "se \<in> set (sl_registrations r)"
  shows "authority_chain c (so_server opts) (toLowerCase (so_authority opts)) (so_now opts) (se_registration se)
    \<and> ac_grant (se_context se) = rg_grant (se_registration se) \<and> ac_record (se_context se) = rg_record (se_registration se)
    \<and> gp_grant (s_payload (rg_grant (se_registration se))) \<notin> set (so_revoked opts)
    \<and> (\<forall>n. so_floors opts (hr_host (s_payload (rg_record (se_registration se)))) = Some n
          \<longrightarrow> n < gp_generation (s_payload (rg_grant (se_registration se))))
    \<and> (\<forall>se' \<in> set (sl_registrations r). hr_epoch (s_payload (rg_record (se_registration se')))
          = hr_epoch (s_payload (rg_record (se_registration se))))
    \<and> distinct (map (\<lambda>x. hr_host (s_payload (rg_record (se_registration x)))) (sl_registrations r))"
proof -
  from assms(1) obtain prior gp st where c: "r = conclude lc gp (map (\<lambda>m. (highWaterKey m, m)) prior) st"
    and acc0: "\<forall>cd \<in> set (all_candidates (snd st)). accepted c opts gp (map (\<lambda>m. (highWaterKey m, m)) prior) cd"
    and g: "groups_ok (snd st)" by (rule selection_run)
  let ?safe = "safe_of gp st"
  note acc = safe_accepted [OF acc0 g]
  have ch: "authority_chain c (so_server opts) (toLowerCase (so_authority opts)) (so_now opts) (cd_registration cd)"
    "ac_grant (cd_context cd) = rg_grant (cd_registration cd)" "ac_record (cd_context cd) = rg_record (cd_registration cd)"
    if "cd \<in> set ?safe" for cd
    using acc [OF that] verified_chain [of c "cd_registration cd" "so_server opts" "toLowerCase (so_authority opts)"]
    by (auto simp: accepted_def)
  have f: "hw_host (cd_mark cd) = hr_host (s_payload (rg_record (cd_registration cd)))"
    "hw_epoch (cd_mark cd) = hr_epoch (s_payload (rg_record (cd_registration cd)))"
    "hw_generation (cd_mark cd) = gp_generation (s_payload (rg_grant (cd_registration cd)))" if "cd \<in> set ?safe" for cd
    using acc [OF that] ch(2,3) [OF that] by (auto simp: accepted_def mark_of_def)
  obtain cd where cd: "cd \<in> set ?safe" "se = selected_of cd" using assms(2) by (auto simp: c conclude_fields)
  have "distinct (map (\<lambda>cd. hr_host (s_payload (rg_record (cd_registration cd)))) ?safe)"
    using safe_hosts [OF g, of gp] f(1) by (simp cong: map_cong)
  then have "distinct (map (\<lambda>x. hr_host (s_payload (rg_record (se_registration x)))) (sl_registrations r))"
    by (simp add: c conclude_fields selected_of_def comp_def)
  moreover have "hr_epoch (s_payload (rg_record (se_registration se'))) = hr_epoch (s_payload (rg_record (se_registration se)))"
    if mem: "se' \<in> set (sl_registrations r)" for se'
  proof -
    obtain cd' where "cd' \<in> set ?safe" "se' = selected_of cd'" using mem by (auto simp: c conclude_fields)
    with cd safe_same_epoch [of cd gp st] safe_same_epoch [of cd' gp st] f(2) show ?thesis by (simp add: selected_of_def)
  qed
  ultimately show ?thesis
    using acc [OF cd(1)] f [OF cd(1)] ch [OF cd(1)] cd(2) by (auto simp: accepted_def selected_of_def)
qed

section \<open>No way back\<close>

text \<open>\<open>ms'\<close> has every host of \<open>ms\<close>, at least as far.\<close>

definition advances :: "high_water_mark list \<Rightarrow> high_water_mark list \<Rightarrow> bool" where
  "advances ms ms' \<longleftrightarrow>
     (\<forall>m \<in> set ms. \<exists>m' \<in> set ms'. highWaterKey m' = highWaterKey m \<and> hw_seq m \<le> hw_seq m'
        \<and> hw_generation m \<le> hw_generation m' \<and> hw_epoch m \<le> hw_epoch m')"

text \<open>One use of the selection by a client: the answers, the options and the clock are the environment's.\<close>

inductive client_step :: "'z crypto_scheme \<Rightarrow> string comparison \<Rightarrow> high_water_mark list \<Rightarrow> high_water_mark list \<Rightarrow> bool"
  for c lc where
  select: "selectHostRegistrations c lc opts (Some ms) values = Inr r \<Longrightarrow> client_step c lc ms (sl_high_water r)"

lemma accepted_after:
  assumes "accepted c opts gp (map (\<lambda>m. (highWaterKey m, m)) prior) cd" and "distinct (map highWaterKey prior)"
    and "p \<in> set prior" and "highWaterKey (cd_mark cd) = highWaterKey p"
  shows "hw_seq (cd_mark cd) = hw_seq p + 1 \<and> hw_generation p \<le> hw_generation (cd_mark cd)
    \<and> hw_epoch p \<le> hw_epoch (cd_mark cd) \<and> hr_previous (s_payload (ac_record (cd_context cd))) = Some (hw_hash p)"
proof -
  have "map_of (map (\<lambda>m. (highWaterKey m, m)) prior) (highWaterKey p) = Some p"
    by (rule map_of_keyed [OF assms(2,3)])
  then show ?thesis using assms(1,4) by (auto simp: accepted_def against_marks_def split: if_splits)
qed

lemma safe_keys:
  assumes "\<forall>cd \<in> set (all_candidates (snd st)). accepted c opts gp prior cd" and "groups_ok (snd st)"
  shows "distinct (map (\<lambda>cd. highWaterKey (cd_mark cd)) (safe_of gp st))"
proof -
  have "highWaterKey (cd_mark cd) = toLowerCase (so_authority opts) @ NUL @ so_server opts @ NUL @ hw_host (cd_mark cd)"
    if "cd \<in> set (safe_of gp st)" for cd
    using safe_accepted [OF assms that] by (auto simp: accepted_def highWaterKey_def mark_of_def)
  then show ?thesis
    using safe_hosts [OF assms(2), of gp] by (auto simp: distinct_map inj_on_def)
qed

text \<open>The new marks: those of the selected registrations, and the old ones of every other host.\<close>

lemma new_marks:
  assumes "selectHostRegistrations c lc opts hw values = Inr r"
  obtains prior gp st where "prior_marks lc hw = Inr prior" and "distinct (map highWaterKey prior)"
    and "sl_registrations r = map selected_of (js_sort (by_epoch lc) (safe_of gp st))"
    and "\<forall>cd \<in> set (safe_of gp st). accepted c opts gp (map (\<lambda>m. (highWaterKey m, m)) prior) cd \<and> cd_mark cd \<in> set (sl_high_water r)"
    and "\<forall>m \<in> set prior. m \<in> set (sl_high_water r)
           \<or> (\<exists>cd \<in> set (safe_of gp st). highWaterKey (cd_mark cd) = highWaterKey m)"
    and "distinct (map highWaterKey (sl_high_water r))"
proof -
  from assms obtain prior gp st where p: "prior_marks lc hw = Inr prior" and "gp = global_prior_epoch opts prior"
    and c: "r = conclude lc gp (map (\<lambda>m. (highWaterKey m, m)) prior) st"
    and "mset (map rj_index (fst st)) + mset (map cd_index (all_candidates (snd st))) = mset [0..<length values]"
    and acc0: "\<forall>cd \<in> set (all_candidates (snd st)). accepted c opts gp (map (\<lambda>m. (highWaterKey m, m)) prior) cd"
    and g: "groups_ok (snd st)" by (rule selection_run)
  let ?pr = "map (\<lambda>m. (highWaterKey m, m)) prior"
  let ?new = "fold (\<lambda>cd. map_set (highWaterKey (cd_mark cd)) (cd_mark cd)) (safe_of gp st) ?pr"
  have d: "distinct (map highWaterKey prior)" using prior_marks_spec [OF p] by (simp add: marks_storable_def)
  then have dp: "distinct (map fst ?pr)" by (simp add: comp_def)
  have hw: "set (sl_high_water r) = snd ` set ?new" by (simp add: c conclude_fields)
  have self: "cd_mark cd \<in> set (sl_high_water r)" if "cd \<in> set (safe_of gp st)" for cd
    using fold_map_set_self [OF safe_keys [OF acc0 g] that dp, of cd_mark] unfolding hw by force
  have keyed: "highWaterKey v = k" if "(k, v) \<in> set ?new" for k v
    using fold_map_set_values [OF that] by auto
  have "m \<in> set (sl_high_water r) \<or> (\<exists>cd \<in> set (safe_of gp st). highWaterKey (cd_mark cd) = highWaterKey m)"
    if m: "m \<in> set prior" for m
  proof -
    have "highWaterKey m \<in> fst ` set ?new" using m by (force simp: fold_map_set_keys)
    then obtain v where v: "(highWaterKey m, v) \<in> set ?new" by auto
    from fold_map_set_values [OF this] show ?thesis
    proof
      assume "(highWaterKey m, v) \<in> set ?pr"
      then have "v = m" using map_of_is_SomeI [OF dp] map_of_keyed [OF d m] by force
      with v show ?thesis unfolding hw by force
    qed metis
  qed
  then have old: "\<forall>m \<in> set prior. m \<in> set (sl_high_water r)
      \<or> (\<exists>cd \<in> set (safe_of gp st). highWaterKey (cd_mark cd) = highWaterKey m)" by blast
  have "\<forall>p \<in> set ?new. highWaterKey (snd p) = fst p" by (intro ballI keyed) (simp only: prod.collapse)
  then have "map highWaterKey (map snd ?new) = map fst ?new" unfolding map_map comp_def by (intro map_cong [OF refl]) blast
  moreover have "distinct (map fst ?new)" by (rule distinct_fold_map_set [OF dp])
  ultimately have "distinct (map highWaterKey (map snd ?new))" by (simp only:)
  then have dist: "distinct (map highWaterKey (sl_high_water r))" unfolding c conclude_fields by (simp only: js_sort_simps)
  have regs: "sl_registrations r = map selected_of (js_sort (by_epoch lc) (safe_of gp st))"
    unfolding c by (rule conclude_fields)
  have acc: "\<forall>cd \<in> set (safe_of gp st). accepted c opts gp ?pr cd \<and> cd_mark cd \<in> set (sl_high_water r)"
    using self safe_accepted [OF acc0 g] by blast
  show thesis by (rule that [OF p d regs acc old dist])
qed

lemma selection_advances:
  assumes "selectHostRegistrations c lc opts (Some ms) values = Inr r"
  shows "advances ms (sl_high_water r)"
  unfolding advances_def
proof
  fix m assume m: "m \<in> set ms"
  from assms obtain prior gp st where p: "prior_marks lc (Some ms) = Inr prior" and d: "distinct (map highWaterKey prior)"
    and "sl_registrations r = map selected_of (js_sort (by_epoch lc) (safe_of gp st))"
    and acc: "\<forall>cd \<in> set (safe_of gp st). accepted c opts gp (map (\<lambda>m. (highWaterKey m, m)) prior) cd \<and> cd_mark cd \<in> set (sl_high_water r)"
    and old: "\<forall>m \<in> set prior. m \<in> set (sl_high_water r)
           \<or> (\<exists>cd \<in> set (safe_of gp st). highWaterKey (cd_mark cd) = highWaterKey m)"
    and "distinct (map highWaterKey (sl_high_water r))" by (rule new_marks)
  let ?m = "lower_authority m"
  have pm: "?m \<in> set prior" using prior_marks_spec [OF p] m by (metis image_eqI list.set_map option.case(2) set_mset_mset)
  have f: "hw_seq ?m = hw_seq m" "hw_generation ?m = hw_generation m" "hw_epoch ?m = hw_epoch m"
    by (simp_all add: lower_authority_def)
  from old pm consider "?m \<in> set (sl_high_water r)" | cd where "cd \<in> set (safe_of gp st)" "highWaterKey (cd_mark cd) = highWaterKey ?m"
    by blast
  then show "\<exists>m' \<in> set (sl_high_water r). highWaterKey m' = highWaterKey m \<and> hw_seq m \<le> hw_seq m'
        \<and> hw_generation m \<le> hw_generation m' \<and> hw_epoch m \<le> hw_epoch m'"
  proof cases
    case 1
    then show ?thesis using f by (intro bexI [of _ ?m]) simp_all
  next
    case 2
    then have "accepted c opts gp (map (\<lambda>m. (highWaterKey m, m)) prior) cd" "cd_mark cd \<in> set (sl_high_water r)" using acc by blast+
    with accepted_after [OF this(1) d pm 2(2)] 2(2) f show ?thesis by (intro bexI [of _ "cd_mark cd"]) auto
  qed
qed

interpretation client_marks: step_progress "client_step c lc" advances for c lc
proof
  show "advances ms ms" for ms by (auto simp: advances_def)
  show "advances ms ms''" if a: "advances ms ms'" and b: "advances ms' ms''" for ms ms' ms''
    unfolding advances_def
  proof
    fix m assume "m \<in> set ms"
    with a obtain m' where m': "m' \<in> set ms'" "highWaterKey m' = highWaterKey m" "hw_seq m \<le> hw_seq m'"
      "hw_generation m \<le> hw_generation m'" "hw_epoch m \<le> hw_epoch m'" by (auto simp: advances_def)
    with b obtain m'' where "m'' \<in> set ms''" "highWaterKey m'' = highWaterKey m'" "hw_seq m' \<le> hw_seq m''"
      "hw_generation m' \<le> hw_generation m''" "hw_epoch m' \<le> hw_epoch m''" by (auto simp: advances_def)
    with m' show "\<exists>m'' \<in> set ms''. highWaterKey m'' = highWaterKey m \<and> hw_seq m \<le> hw_seq m''
        \<and> hw_generation m \<le> hw_generation m'' \<and> hw_epoch m \<le> hw_epoch m''" by (intro bexI [of _ m'']) auto
  qed
  show "advances ms ms'" if "client_step c lc ms ms'" for ms ms'
    using that by cases (simp add: selection_advances)
qed

text \<open>
  C29. A bridge cannot roll a client back. However often a client selects, with whatever answers, options and clock,
  the mark of no host it knows disappears, and none falls in record number, grant generation or epoch.
\<close>

theorem client_never_rolled_back:
  assumes "rtranclp (client_step c lc) ms ms'" and "m \<in> set ms"
  shows "\<exists>m'. m' \<in> set ms' \<and> highWaterKey m' = highWaterKey m \<and> hw_seq m \<le> hw_seq m'
    \<and> hw_generation m \<le> hw_generation m' \<and> hw_epoch m \<le> hw_epoch m'"
  using client_marks.run_below [OF assms(1)] assms(2) unfolding advances_def by blast

text \<open>The mark of a selected registration.\<close>

lemma selected_mark:
  assumes "selectHostRegistrations c lc opts hw values = Inr r" and "se \<in> set (sl_registrations r)"
  shows "mark_of opts (se_context se) (se_hash se) \<in> set (sl_high_water r)"
proof -
  from assms(1) obtain prior gp st where "prior_marks lc hw = Inr prior" and "distinct (map highWaterKey prior)"
    and regs: "sl_registrations r = map selected_of (js_sort (by_epoch lc) (safe_of gp st))"
    and acc: "\<forall>cd \<in> set (safe_of gp st). accepted c opts gp (map (\<lambda>m. (highWaterKey m, m)) prior) cd \<and> cd_mark cd \<in> set (sl_high_water r)"
    and "\<forall>m \<in> set prior. m \<in> set (sl_high_water r)
           \<or> (\<exists>cd \<in> set (safe_of gp st). highWaterKey (cd_mark cd) = highWaterKey m)"
    and "distinct (map highWaterKey (sl_high_water r))" by (rule new_marks)
  obtain cd where "cd \<in> set (safe_of gp st)" "se = selected_of cd" using assms(2) by (auto simp: regs)
  with acc show ?thesis by (auto simp: accepted_def selected_of_def)
qed

lemma selected_after:
  assumes "selectHostRegistrations c lc opts (Some ms) values = Inr r" and "se \<in> set (sl_registrations r)"
    and "m \<in> set ms" and "highWaterKey (mark_of opts (se_context se) (se_hash se)) = highWaterKey m"
  shows "hr_seq (s_payload (ac_record (se_context se))) = hw_seq m + 1
    \<and> hr_previous (s_payload (ac_record (se_context se))) = Some (hw_hash m)"
proof -
  from assms(1) obtain prior gp st where p: "prior_marks lc (Some ms) = Inr prior" and d: "distinct (map highWaterKey prior)"
    and regs: "sl_registrations r = map selected_of (js_sort (by_epoch lc) (safe_of gp st))"
    and acc: "\<forall>cd \<in> set (safe_of gp st). accepted c opts gp (map (\<lambda>m. (highWaterKey m, m)) prior) cd \<and> cd_mark cd \<in> set (sl_high_water r)"
    and "\<forall>m \<in> set prior. m \<in> set (sl_high_water r)
           \<or> (\<exists>cd \<in> set (safe_of gp st). highWaterKey (cd_mark cd) = highWaterKey m)"
    and "distinct (map highWaterKey (sl_high_water r))" by (rule new_marks)
  have pm: "lower_authority m \<in> set prior"
    using prior_marks_spec [OF p] assms(3) by (metis image_eqI list.set_map option.case(2) set_mset_mset)
  obtain cd where cd: "cd \<in> set (safe_of gp st)" "se = selected_of cd" using assms(2) by (auto simp: regs)
  then have a: "accepted c opts gp (map (\<lambda>m. (highWaterKey m, m)) prior) cd" using acc by blast
  then have mk: "cd_mark cd = mark_of opts (se_context se) (se_hash se)" using cd(2) by (simp add: accepted_def selected_of_def)
  then have "highWaterKey (cd_mark cd) = highWaterKey (lower_authority m)" using assms(4) by simp
  from accepted_after [OF a d pm this] mk cd(2) show ?thesis
    by (simp add: mark_of_def lower_authority_def selected_of_def)
qed

text \<open>
  C30. A registration is accepted once. Whatever a client selects between, every later registration it accepts of a
  host carries a higher record number than the earlier one: an old or repeated record is never accepted again.
\<close>

theorem registration_accepted_once:
  assumes "selectHostRegistrations c lc opts hw values = Inr r" and "se \<in> set (sl_registrations r)"
    and "rtranclp (client_step c lc) (sl_high_water r) ms"
    and "selectHostRegistrations c lc opts' (Some ms) values' = Inr r'" and "se' \<in> set (sl_registrations r')"
    and "so_server opts' = so_server opts" and "so_authority opts' = so_authority opts"
    and "hr_host (s_payload (ac_record (se_context se'))) = hr_host (s_payload (ac_record (se_context se)))"
  shows "hr_seq (s_payload (ac_record (se_context se))) < hr_seq (s_payload (ac_record (se_context se')))"
proof -
  let ?m = "mark_of opts (se_context se) (se_hash se)"
  have "advances (sl_high_water r) ms" by (rule client_marks.run_below [OF assms(3)])
  with selected_mark [OF assms(1,2)] obtain m' where m': "m' \<in> set ms" "highWaterKey m' = highWaterKey ?m" "hw_seq ?m \<le> hw_seq m'"
    by (auto simp: advances_def)
  have "highWaterKey (mark_of opts' (se_context se') (se_hash se')) = highWaterKey m'"
    using m'(2) assms(6-8) by (simp add: highWaterKey_def mark_of_def)
  from selected_after [OF assms(4,5) m'(1) this] m'(3) show ?thesis by (simp add: mark_of_def)
qed

section \<open>Instances\<close>

definition zeros :: string where "zeros = replicate 64 CHR ''0''"

definition sel_crypto :: crypto where "sel_crypto = sample_crypto\<lparr>fingerprint := (\<lambda>_. zeros)\<rparr>"

definition sel_record :: "int \<Rightarrow> string option \<Rightarrow> host_record" where
  "sel_record n prev = sample_record\<lparr>hr_seq := n, hr_previous := prev\<rparr>"

definition sel_registration :: "int \<Rightarrow> string option \<Rightarrow> registration" where
  "sel_registration n prev = \<lparr>rg_authority = sample_key ''as'', rg_grant = sample_signed sample_grant ''as'',
                              rg_record = sample_signed (sel_record n prev) ''hs''\<rparr>"

definition sel_options :: selection_options where
  "sel_options = \<lparr>so_server = ''srv'', so_authority = zeros, so_revoked = [], so_floors = Map.empty, so_now = 100\<rparr>"

definition sel_context :: "int \<Rightarrow> string option \<Rightarrow> auth_context" where
  "sel_context n prev = \<lparr>ac_fingerprint = zeros, ac_authority = sample_key ''as'', ac_host_key = sample_key ''hs'',
     ac_server = ''srv'', ac_host = ''h1'', ac_grant_id = ''g1'', ac_record = sample_signed (sel_record n prev) ''hs'',
     ac_grant = sample_signed sample_grant ''as''\<rparr>"

lemma zeros_hex [simp]: "Hex64Schema zeros" "toLowerCase zeros = zeros"
  by (simp_all add: zeros_def Hex64Schema_def hex_lower_char_def list_all_iff toLowerCase_def lower_char_def)

lemma sel_crypto_fields [simp]:
  "is_uuid sel_crypto s \<longleftrightarrow> s \<noteq> []" "public_key sel_crypto = sample_key" "sha256Hex sel_crypto s = zeros" "fingerprint sel_crypto s = zeros"
  "verify_message sel_crypto k m x \<longleftrightarrow> x = sample_signature" "parse_url sel_crypto = parse_url sample_crypto"
  by (simp_all add: sel_crypto_def sample_crypto_def zeros_def)

lemma sel_schemas:
  assumes "0 < n" and "n < 100" and "prev = (if n = 1 then None else Some zeros)"
  shows "HostGrantPayloadSchema sel_crypto sample_grant" "HostRecordPayloadSchema sel_crypto (sel_record n prev)"
proof -
  show "HostGrantPayloadSchema sel_crypto sample_grant"
    by (simp add: HostGrantPayloadSchema_def sample_grant_def identityIdSchema_def
        hostIdSchema_def text_between_def hostCapabilitiesSchema_def positiveSchema_def timestampSchema_def is_safe_integer_def)
  show "HostRecordPayloadSchema sel_crypto (sel_record n prev)"
    using assms
    by (auto simp: HostRecordPayloadSchema_def sel_record_def sample_record_def hostIdSchema_def
        text_between_def endpointSchema_def positiveSchema_def timestampSchema_def is_safe_integer_def sample_crypto_def)
qed

lemma sel_verified:
  assumes "0 < n" and "n < 100" and "prev = (if n = 1 then None else Some zeros)"
  shows "verifyHostAuthenticationContext sel_crypto (Some (sel_registration n prev)) ''srv'' zeros None 100 = Some (sel_context n prev)"
proof -
  note sch = sel_schemas [OF assms]
  have dom: "signatureMessage d v = Inr (d @ NUL @ canonicalJson v)" if "d \<in> set SIGNATURE_DOMAINS" for d v
    using domains_ok [OF that] by (simp add: signatureMessage_def)
  have g: "verifySignedHostGrant sel_crypto (sample_signed sample_grant ''as'') (sample_key ''as'') 100 = Some (sample_signed sample_grant ''as'')"
    using sch(1) dom by (simp add: verifySignedHostGrant_def signed_schema_def sample_signed_def verifySigned_def
        verifyCanonicalPayload_def SIGNATURE_DOMAINS_def schema_bytes) (simp add: sample_grant_def)
  have r: "verifySignedHostRecord sel_crypto (sample_signed (sel_record n prev) ''hs'') (sample_key ''hs'') 100
      = Some (sample_signed (sel_record n prev) ''hs'')"
    using sch(2) dom by (simp add: verifySignedHostRecord_def SignedHostRecordSchema_def signed_schema_def sample_signed_def
        verifySigned_def verifyCanonicalPayload_def SIGNATURE_DOMAINS_def schema_bytes) (simp add: sel_record_def sample_record_def)
  have gf: "gp_device_key sample_grant = sample_key ''hs''" "gp_caps sample_grant = [Register, Replicate, Promote]"
    "gp_server sample_grant = ''srv''" "gp_grant sample_grant = ''g1''" "gp_host sample_grant = ''h1''"
    by (simp_all add: sample_grant_def)
  have rf: "hr_server (sel_record n prev) = ''srv''" "hr_grant (sel_record n prev) = ''g1''" "hr_host (sel_record n prev) = ''h1''"
    "hr_role (sel_record n prev) = Primary"
    by (simp_all add: sel_record_def sample_record_def)
  have v: "verifyHostRegistration sel_crypto (sample_signed (sel_record n prev) ''hs'') (sample_signed sample_grant ''as'') (sample_key ''as'') [] 100
      = Some (sample_signed (sel_record n prev) ''hs'', sample_signed sample_grant ''as'')"
    using g r by (simp add: verifyHostRegistration_def gf rf sample_signed_def)
  have h: "HostRegistrationSchema sel_crypto (sel_registration n prev)"
    using sch by (simp add: HostRegistrationSchema_def sel_registration_def signed_schema_def SignedHostRecordSchema_def sample_signed_def)
  show ?thesis
    using h v by (simp add: verifyHostAuthenticationContext_def sel_registration_def ed25519Fingerprint_def schema_bytes)
      (simp add: sel_context_def sample_signed_def rf)
qed

definition sel_mark :: "int \<Rightarrow> high_water_mark" where
  "sel_mark n = \<lparr>hw_authority = zeros, hw_server = ''srv'', hw_host = ''h1'', hw_grant = ''g1'', hw_generation = 1,
                 hw_epoch = 0, hw_seq = n, hw_hash = zeros\<rparr>"

definition sel_result :: "int \<Rightarrow> string option \<Rightarrow> selection" where
  "sel_result n prev = \<lparr>sl_registrations = [\<lparr>se_context = sel_context n prev, se_registration = sel_registration n prev,
                                              se_hash = zeros\<rparr>],
                        sl_high_water = [sel_mark n], sl_rejected = []\<rparr>"

definition no_locale :: "string comparison" where "no_locale a b = 0"

lemma sel_hash:
  assumes "0 < n" and "n < 100" and "prev = (if n = 1 then None else Some zeros)"
  shows "hostRegistrationRecordHash sel_crypto (ac_record (sel_context n prev)) = Inr zeros"
  using sel_schemas(2) [OF assms]
  by (simp add: hostRegistrationRecordHash_def sel_context_def SignedHostRecordSchema_def signed_schema_def sample_signed_def schema_bytes)

lemma sel_mark_ok: "0 < n \<Longrightarrow> n < 100 \<Longrightarrow> mark_ok (sel_mark n) \<and> lower_authority (sel_mark n) = sel_mark n"
  by (simp add: mark_ok_def sel_mark_def lower_authority_def text_between_def is_safe_integer_def)

lemma sel_prior:
  assumes "0 < n" and "n < 100"
  shows "prior_marks no_locale (Some [sel_mark n]) = Inr [sel_mark n]"
    "serializeHostRegistrationHighWater no_locale [sel_mark n] = Inr (high_water_json [sel_mark n])"
proof -
  have d: "deserializeHostRegistrationHighWater (Some (high_water_json [sel_mark n])) = Inr [sel_mark n]"
    using sel_mark_ok [OF assms] by (simp add: deserialize_json marks_storable_def MAX_HIGH_WATER_MARKS_def)
  then show "serializeHostRegistrationHighWater no_locale [sel_mark n] = Inr (high_water_json [sel_mark n])"
    by (simp add: serializeHostRegistrationHighWater_def js_sort_def)
  with d show "prior_marks no_locale (Some [sel_mark n]) = Inr [sel_mark n]" by (simp add: prior_marks_def)
qed

lemma sel_judged:
  assumes "0 < n" and "n < 100" and "prev = (if n = 1 then None else Some zeros)"
    and "prior = (if n = 1 then [] else [(highWaterKey (sel_mark (n - 1)), sel_mark (n - 1))])"
  shows "judge sel_crypto sel_options 0 prior 0 (Some (sel_registration n prev)) =
     Inr (Inr \<lparr>cd_context = sel_context n prev, cd_registration = sel_registration n prev, cd_hash = zeros, cd_index = 0,
               cd_mark = sel_mark n\<rparr>)"
proof -
  have m: "mark_of sel_options (sel_context n prev) zeros = sel_mark n"
    by (simp add: mark_of_def sel_options_def sel_context_def sel_mark_def sample_signed_def sample_grant_def sel_record_def sample_record_def)
  have f: "gp_grant (s_payload (ac_grant (sel_context n prev))) = ''g1''" "gp_generation (s_payload (ac_grant (sel_context n prev))) = 1"
    "hr_previous (s_payload (ac_record (sel_context n prev))) = prev"
    by (simp_all add: sel_context_def sample_signed_def sample_grant_def sel_record_def)
  have o: "so_server sel_options = ''srv''" "toLowerCase (so_authority sel_options) = zeros" "so_now sel_options = 100"
    "so_revoked sel_options = []" "so_floors sel_options = Map.empty"
    by (simp_all add: sel_options_def)
  have "against_marks 0 (map_of prior (highWaterKey (sel_mark n))) (sel_mark n) prev = None"
    using assms(3,4) by (simp add: against_marks_def sel_mark_def highWaterKey_def)
  then show ?thesis
    using sel_verified [OF assms(1-3)] sel_hash [OF assms(1-3)] m f o by (simp add: judge_def)
qed

lemma sel_run:
  assumes "0 < n" and "n < 100" and "prev = (if n = 1 then None else Some zeros)"
    and "hw = (if n = 1 then None else Some [sel_mark (n - 1)])"
  shows "selectHostRegistrations sel_crypto no_locale sel_options hw [Some (sel_registration n prev)] = Inr (sel_result n prev)"
proof -
  have p: "prior_marks no_locale hw = Inr (if n = 1 then [] else [sel_mark (n - 1)])"
    using sel_prior(1) [of "n - 1"] assms(1,2,4) by (simp add: prior_marks_def)
  have e: "global_prior_epoch sel_options (if n = 1 then [] else [sel_mark (n - 1)]) = 0"
    by (simp add: global_prior_epoch_def max_epoch_def sel_mark_def)
  let ?pr = "if n = 1 then [] else [(highWaterKey (sel_mark (n - 1)), sel_mark (n - 1))]"
  let ?cd = "\<lparr>cd_context = sel_context n prev, cd_registration = sel_registration n prev, cd_hash = zeros, cd_index = 0,
               cd_mark = sel_mark n\<rparr>"
  have k: "highWaterKey (sel_mark (n - 1)) = highWaterKey (sel_mark n)" by (simp add: highWaterKey_def sel_mark_def)
  have pr: "map (\<lambda>m. (highWaterKey m, m)) (if n = 1 then [] else [sel_mark (n - 1)]) = ?pr" by simp
  have j: "judge_all sel_crypto sel_options 0 ?pr 0 [Some (sel_registration n prev)] ([], []) = Inr ([], [(hw_host (sel_mark n), [?cd])])"
    by (simp only: judge_all.simps sel_judged [OF assms(1-3) refl] sum.case Let_def) simp
  have s: "hw_epoch (sel_mark n) = 0" "\<not> dominates (sel_mark n) (sel_mark n)" by (simp_all add: sel_mark_def dominates_def)
  have g: "select_group [?cd] = ([], Some ?cd)"
    using s by (simp add: select_group_def unique_candidates_def)
  have "conclude no_locale 0 ?pr ([], [(hw_host (sel_mark n), [?cd])]) = sel_result n prev"
    using g s k by (simp add: conclude_def List.map_filter_def max_epoch_def js_sort_def sel_result_def)
  with j pr p e show ?thesis by (simp only: selectHostRegistrations_def sum.case Let_def)
qed

theorem high_water_roundtrip_witness:
  "deserializeHostRegistrationHighWater (Some (high_water_json [sel_mark 1]))
     = Inr (js_sort (by_key no_locale) (map lower_authority [sel_mark 1]))"
  by (rule high_water_roundtrip [OF sel_prior(2)]) simp_all

theorem every_answer_judged_once_witness:
  "\<exists>r places. selectHostRegistrations sel_crypto no_locale sel_options (Some [sel_mark 1])
         [None, Some (sel_registration 1 None), Some (sel_registration 2 (Some zeros))] = Inr r
     \<and> length places = length (sl_registrations r) \<and> set (map rj_index (sl_rejected r)) = {..<3} - set places"
proof -
  have "prior_marks no_locale (Some [sel_mark 1]) = Inr [sel_mark 1]" by (rule sel_prior) simp_all
  from every_answer_judged_once [OF this, of sel_crypto sel_options
      "[None, Some (sel_registration 1 None), Some (sel_registration 2 (Some zeros))]"]
  show ?thesis by (auto simp: numeral_3_eq_3)
qed

lemma sel_runs:
  "selectHostRegistrations sel_crypto no_locale sel_options None [Some (sel_registration 1 None)] = Inr (sel_result 1 None)"
  "selectHostRegistrations sel_crypto no_locale sel_options (Some [sel_mark 1]) [Some (sel_registration 2 (Some zeros))]
     = Inr (sel_result 2 (Some zeros))"
  by (rule sel_run, simp_all)+

lemma sel_result_fields:
  "sl_high_water (sel_result n prev) = [sel_mark n]"
  "sl_registrations (sel_result n prev) = [\<lparr>se_context = sel_context n prev, se_registration = sel_registration n prev, se_hash = zeros\<rparr>]"
  by (simp_all add: sel_result_def)

theorem selected_is_authorised_witness:
  "authority_chain sel_crypto ''srv'' (toLowerCase zeros) 100 (sel_registration 1 None)"
proof -
  have "hd (sl_registrations (sel_result 1 None)) \<in> set (sl_registrations (sel_result 1 None))" by (simp add: sel_result_fields)
  from selected_is_authorised [OF sel_runs(1) this] show ?thesis by (simp add: sel_result_fields sel_options_def)
qed

theorem client_never_rolled_back_witness:
  "\<exists>m'. m' \<in> set [sel_mark 2] \<and> highWaterKey m' = highWaterKey (sel_mark 1) \<and> hw_seq (sel_mark 1) \<le> hw_seq m'
     \<and> hw_generation (sel_mark 1) \<le> hw_generation m' \<and> hw_epoch (sel_mark 1) \<le> hw_epoch m'"
proof -
  have "client_step sel_crypto no_locale [sel_mark 1] [sel_mark 2]"
    using client_step.select [OF sel_runs(2)] by (simp only: sel_result_fields)
  then have "rtranclp (client_step sel_crypto no_locale) [sel_mark 1] [sel_mark 2]" by (rule r_into_rtranclp)
  then show ?thesis by (rule client_never_rolled_back) simp
qed

theorem registration_accepted_once_witness:
  "hr_seq (s_payload (ac_record (sel_context 1 None))) < hr_seq (s_payload (ac_record (sel_context 2 (Some zeros))))"
proof -
  let ?se = "\<lambda>n prev. \<lparr>se_context = sel_context n prev, se_registration = sel_registration n prev, se_hash = zeros\<rparr>"
  have m: "?se n prev \<in> set (sl_registrations (sel_result n prev))" for n prev by (simp add: sel_result_fields)
  have run: "rtranclp (client_step sel_crypto no_locale) (sl_high_water (sel_result 1 None)) [sel_mark 1]"
    by (simp add: sel_result_fields)
  have host: "hr_host (s_payload (ac_record (se_context (?se 2 (Some zeros))))) = hr_host (s_payload (ac_record (se_context (?se 1 None))))"
    by (simp add: sel_context_def sample_signed_def sel_record_def)
  from registration_accepted_once [OF sel_runs(1) m run sel_runs(2) m refl refl host] show ?thesis by simp
qed

end
