(* ===== verification/BridgeState.thy ===== *)
theory BridgeState
  imports HostSelection Writer Sessions
begin

text \<open>
  The state of a bridge (\<open>apps/rendezvous/src/main.ts\<close>): the module's \<open>Map\<close>s as association lists in insertion order,
  nested where the code nests them, the state file as a list of lines, and the frames sent. \<open>bridge_env\<close> holds the
  environment variables and files a bridge reads; a number variable that is no number is \<open>None\<close>.
\<close>

section \<open>Constants and environment\<close>

definition RATE_WINDOW_MS :: int where "RATE_WINDOW_MS = 60000"
definition MAX_RECORDS_PER_SERVER :: nat where "MAX_RECORDS_PER_SERVER = 16"
definition SIGNAL_SESSION_TTL_MS :: int where "SIGNAL_SESSION_TTL_MS = 600000"
definition REGISTRATION_CHALLENGE_TTL_MS :: int where "REGISTRATION_CHALLENGE_TTL_MS = 30000"
definition REGISTRATION_PROOF_CLOCK_SKEW_MS :: int where "REGISTRATION_PROOF_CLOCK_SKEW_MS = 5000"
definition REGISTRATION_PROOF_DOMAIN :: string where "REGISTRATION_PROOF_DOMAIN = ''janjacord.bridge-registration-proof.v1''"
definition REPLICA_WITNESS_DOMAIN :: string where "REPLICA_WITNESS_DOMAIN = ''janjacord.replica-witness.v1''"
definition PROMOTION_VOTE_DOMAIN :: string where "PROMOTION_VOTE_DOMAIN = ''janjacord.promotion-vote.v1''"
definition BRIDGE_ACCESS_DOMAIN :: string where "BRIDGE_ACCESS_DOMAIN = ''janjacord.bridge-access.v1''"
definition MAX_DURABLE_ENTRIES :: nat where "MAX_DURABLE_ENTRIES = 16384"

text \<open>The private key file as a JWK; \<open>None\<close> where a field is no text.\<close>

record jwk =
  jwk_d :: "string option"
  jwk_x :: "string option"

type_synonym signing_material = "bridge_descriptor signed \<times> string"

text \<open>
  \<open>be_signing\<close> is \<open>None\<close> unless both files are named; its descriptor is \<open>None\<close> where the file holds none.
  \<open>hmac_sha256\<close> and \<open>hmac_sha1_base64\<close> take key and text; \<open>json_parse\<close> is \<open>None\<close> where \<open>JSON.parse\<close> throws.
\<close>

record bridge_env = crypto +
  hmac_sha256 :: "string \<Rightarrow> string \<Rightarrow> string"
  hmac_sha1_base64 :: "string \<Rightarrow> string \<Rightarrow> string"
  json_parse :: "string \<Rightarrow> json option"
  is_ip :: "string \<Rightarrow> bool"
  be_production :: bool
  be_state_file :: bool
  be_admin_key :: "string option"
  be_hosts_per_community :: "int option"
  be_grace :: "int option"
  be_max_ttl :: int
  be_rate_limit :: int
  be_max_sessions :: nat
  be_max_per_host :: nat
  be_max_per_client :: nat
  be_turn_secret :: "string option"
  be_domain :: string
  be_turn_port :: string
  be_turn_tls_port :: string
  be_proxies :: string
  be_signing :: "(bridge_descriptor signed option \<times> jwk) option"

section \<open>Stored values\<close>

type_synonym rerror = "string \<times> string"

text \<open>A promotion certificate as received; an item that is no receipt is \<open>None\<close>.\<close>

type_synonym certificate = "promotion_vote signed option list"

record stored_record =
  sr_record :: "host_record signed"
  sr_grant :: "grant_payload signed"
  sr_key :: string
  sr_fingerprint :: string
  sr_expires :: int
  sr_certificate :: "certificate option"

record ledger_mark =
  lm_authority :: string
  lm_server :: string
  lm_host :: string
  lm_epoch :: int
  lm_seq :: int
  lm_hash :: string
  lm_grant :: string
  lm_generation :: int
  lm_role :: "host_role option"

record revocation_mark =
  rk_at :: int
  rk_generation :: int
  rk_key :: string
  rk_revocation :: "revocation signed"

record pairing_consumption =
  pc_token :: string
  pc_bridge :: string
  pc_authority :: string
  pc_server :: string
  pc_host :: string
  pc_consumed :: int
  pc_expires :: int

record vote_mark =
  vm_authority :: string
  vm_server :: string
  vm_epoch :: int
  vm_candidate :: string
  vm_primary :: string
  vm_record_hash :: string
  vm_granted :: int

record pending_registration =
  pd_request :: string
  pd_challenge :: string
  pd_nonce :: string
  pd_hash :: string
  pd_created :: int
  pd_expires :: int
  pd_claim :: string
  pd_fingerprint :: string
  pd_key :: string
  pd_record :: "host_record signed"
  pd_grant :: "grant_payload signed"
  pd_certificate :: "certificate option"

record host_access =
  ha_token :: string
  ha_grant :: string
  ha_generation :: int
  ha_expires :: int
  ha_proof :: string

record signaling_session =
  ss_host :: socket
  ss_client :: socket
  ss_expires :: int
  ss_authorized :: bool

record socket_binding =
  sb_fingerprint :: string
  sb_server :: string
  sb_host :: string
  sb_grant :: string
  sb_generation :: int
  sb_expires :: int

text \<open>A registration as it is sent to others.\<close>

record told_registration =
  tr_key :: string
  tr_grant :: "grant_payload signed"
  tr_record :: "host_record signed"
  tr_certificate :: "certificate option"

record registered =
  rd_ttl :: int
  rd_expires :: int
  rd_hash :: string
  rd_epoch :: int
  rd_role :: host_role

record turn_credentials =
  tc_username :: string
  tc_credential :: string
  tc_expires :: int
  tc_urls :: "string list"

record resolution =
  rs_records :: "(host_record signed \<times> grant_payload signed \<times> string) list"
  rs_revocations :: "(string \<times> revocation signed) list"
  rs_at :: int

text \<open>Frames a bridge sends; a text argument before the result is the \<open>requestId\<close>.\<close>

datatype (plugins only: code) bridge_frame =
    FError rerror
  | FHealth "string option"
  | FAccess string "rerror + string \<times> int"
  | FCursor string "rerror + int \<times> string option"
  | FRefused "string option" rerror "told_registration option"
  | FChallenge registration_challenge
  | FRegistered "string option" "rerror + registered"
  | FHostEpoch told_registration
  | FSignal string string json
  | FSignaled "rerror + string"
  | FTurn "string option" "rerror + turn_credentials"
  | FWitness string "rerror + bridge_witness signed"
  | FVote string "rerror + promotion_vote signed"
  | FRevoked "rerror + string \<times> int \<times> int"
  | FResolved "rerror + resolution"

section \<open>The state file\<close>

datatype ledger_event =
    EvHighWater ledger_mark
  | EvVote vote_mark
  | EvRevocation string "revocation signed"
  | EvAccess string host_access
  | EvPairing pairing_consumption

record ledger_line =
  ll_version :: int
  ll_seq :: int
  ll_previous :: "string option"
  ll_event :: ledger_event
  ll_hash :: string

section \<open>The state\<close>

record bridge =
  br_records :: "(string \<times> (string \<times> stored_record) list) list"
  br_revoked :: "(string \<times> (string \<times> revocation_mark) list) list"
  br_marks :: "(string \<times> (string \<times> ledger_mark) list) list"
  br_rate :: "(string \<times> window_count) list"
  br_host_sockets :: "(string \<times> socket) list"
  br_sessions :: "(string \<times> signaling_session) list"
  br_socket_hosts :: "(socket \<times> socket_binding) list"
  br_pending :: "(socket \<times> pending_registration) list"
  br_claims :: "(string \<times> socket) list"
  br_access :: "(string \<times> host_access) list"
  br_proofs :: "(string \<times> int) list"
  br_disconnected :: "(string \<times> int) list"
  br_nonces :: "string list"
  br_pairings :: "(string \<times> pairing_consumption) list"
  br_votes :: "(string \<times> vote_mark) list"
  br_ips :: "(socket \<times> string) list"
  br_seq :: int
  br_hash :: "string option"
  br_signing :: "signing_material option"
  br_file :: "ledger_line option list"
  br_torn :: bool
  br_open :: "socket list"
  br_sent :: "(socket \<times> bridge_frame) list"

text \<open>\<open>resetRendezvousState\<close>; the file, the open sockets and what was sent are not the module's.\<close>

definition resetRendezvousState :: "bridge \<Rightarrow> bridge" where
  "resetRendezvousState b =
     \<lparr>br_records = [], br_revoked = [], br_marks = [], br_rate = [], br_host_sockets = [], br_sessions = [],
      br_socket_hosts = [], br_pending = [], br_claims = [], br_access = [], br_proofs = [], br_disconnected = [],
      br_nonces = [], br_pairings = [], br_votes = [], br_ips = [], br_seq = 0, br_hash = None, br_signing = None,
      br_file = br_file b, br_torn = br_torn b, br_open = br_open b, br_sent = br_sent b\<rparr>"

section \<open>Keys and lookups\<close>

definition map_del :: "'k \<Rightarrow> ('k \<times> 'v) list \<Rightarrow> ('k \<times> 'v) list" where
  "map_del k m = filter (\<lambda>p. fst p \<noteq> k) m"

text \<open>A lookup in a nested map.\<close>

definition inner :: "(string \<times> (string \<times> 'v) list) list \<Rightarrow> string \<Rightarrow> (string \<times> 'v) list" where
  "inner m k = (case map_of m k of None \<Rightarrow> [] | Some n \<Rightarrow> n)"

definition starts_with :: "string \<Rightarrow> string \<Rightarrow> bool" where
  "starts_with s p \<longleftrightarrow> take (length p) s = p"

definition authorityScope :: "string \<Rightarrow> string \<Rightarrow> string" where
  "authorityScope fp serverId = toLowerCase fp @ '':'' @ serverId"

definition promotionVoteKey :: "string \<Rightarrow> string \<Rightarrow> int \<Rightarrow> string" where
  "promotionVoteKey fp serverId electionEpoch =
     authorityScope fp serverId @ '':'' @ show_int electionEpoch"

definition hostBindingKey :: "string \<Rightarrow> string \<Rightarrow> string \<Rightarrow> string" where
  "hostBindingKey fp serverId hostId = authorityScope fp serverId @ '':'' @ hostId"

definition hostAccessKey :: "string \<Rightarrow> string \<Rightarrow> string \<Rightarrow> string \<Rightarrow> string" where
  "hostAccessKey fp serverId hostId slot = hostBindingKey fp serverId hostId @ '':'' @ slot"

definition publicKeyFingerprint :: "'z crypto_scheme \<Rightarrow> string \<Rightarrow> string option" where
  "publicKeyFingerprint c publicKey =
     (if \<not> PublicKeySchema publicKey then None
      else case ed25519Fingerprint c publicKey of Inl e \<Rightarrow> None | Inr fp \<Rightarrow> Some fp)"

definition record_hash :: "'z crypto_scheme \<Rightarrow> host_record signed \<Rightarrow> string" where
  "record_hash c r = sha256Hex c (canonicalJson (signed_json host_record_json r))"

text \<open>\<open>decodeCanonicalBase64Url(value, n) !== null\<close>\<close>

definition canonical_bytes :: "string \<Rightarrow> nat \<Rightarrow> bool" where
  "canonical_bytes s n \<longleftrightarrow> list_all b64url_char s \<and> base64url_bytes s = n \<and> canonical_base64url s"

definition hex_dash :: "string \<Rightarrow> bool" where
  "hex_dash s \<longleftrightarrow> length s = 36 \<and> list_all (\<lambda>ch. hex_any_char ch \<or> ch = CHR ''-'') s"

end
