(* ===== verification/Bridge.thy ===== *)
theory Bridge
  imports BridgeState
begin

text \<open>
  What a bridge does with hosts: access tokens against one-time pairings, the registration handshake, revocation and
  resolving, and the durable state behind them (\<open>apps/rendezvous/src/main.ts\<close>).

  An operation takes the clock once. \<open>bridge_io\<close> says what the file system does in it; an exception is the \<open>Inl\<close> of
  the result. Where a handler reads a field with \<open>typeof\<close>, the frame's field is \<open>None\<close> if it has another type.
\<close>

section \<open>Sockets and sessions\<close>

definition br_reply :: "socket \<Rightarrow> bridge_frame \<Rightarrow> bridge \<Rightarrow> bridge" where
  "br_reply ws fr b = (if ws \<in> set (br_open b) then b\<lparr>br_sent := br_sent b @ [(ws, fr)]\<rparr> else b)"

definition close_payload :: "string \<Rightarrow> json" where
  "close_payload reason = JObj [(''reason'', JStr reason)]"

definition closeSignalingSession :: "string \<Rightarrow> socket option \<Rightarrow> string \<Rightarrow> bridge \<Rightarrow> bool \<times> bridge" where
  "closeSignalingSession sessionId source reason b =
     (case map_of (br_sessions b) sessionId of
        None \<Rightarrow> (False, b)
      | Some s \<Rightarrow>
          let b1 = b\<lparr>br_sessions := map_del sessionId (br_sessions b)\<rparr>;
              fr = FSignal ''signal.close'' sessionId (close_payload reason);
              b2 = (if Some (ss_host s) \<noteq> source then br_reply (ss_host s) fr b1 else b1);
              b3 = (if Some (ss_client s) \<noteq> source then br_reply (ss_client s) fr b2 else b2)
          in (True, b3))"

definition cleanupExpiredSignalingSessions :: "int \<Rightarrow> bridge \<Rightarrow> bridge" where
  "cleanupExpiredSignalingSessions t b =
     fold (\<lambda>(sid, s) b. if ss_expires s \<le> t then snd (closeSignalingSession sid None ''timeout'' b) else b) (br_sessions b) b"

definition clearPendingRegistration :: "socket \<Rightarrow> bridge \<Rightarrow> bridge" where
  "clearPendingRegistration ws b =
     (case map_of (br_pending b) ws of
        None \<Rightarrow> b
      | Some p \<Rightarrow>
          b\<lparr>br_pending := map_del ws (br_pending b),
            br_claims := (if map_of (br_claims b) (pd_claim p) = Some ws then map_del (pd_claim p) (br_claims b) else br_claims b)\<rparr>)"

definition binding_key :: "socket_binding \<Rightarrow> string" where
  "binding_key sb = hostBindingKey (sb_fingerprint sb) (sb_server sb) (sb_host sb)"

definition unbindSocket :: "int \<Rightarrow> socket \<Rightarrow> bridge \<Rightarrow> bridge" where
  "unbindSocket t ws b =
     (let b1 = (case map_of (br_socket_hosts b) ws of
                  None \<Rightarrow> b
                | Some sb \<Rightarrow>
                    let key = binding_key sb
                    in b\<lparr>br_host_sockets := (if map_of (br_host_sockets b) key = Some ws then map_del key (br_host_sockets b)
                                            else br_host_sockets b),
                         br_disconnected := map_set key t (br_disconnected b)\<rparr>);
          b2 = b1\<lparr>br_socket_hosts := map_del ws (br_socket_hosts b1)\<rparr>
      in fold (\<lambda>(sid, s) b. if ss_host s = ws \<or> ss_client s = ws then snd (closeSignalingSession sid (Some ws) ''disconnect'' b) else b)
           (br_sessions b2) b2)"

definition drop_expired_records :: "int \<Rightarrow> (string \<times> (string \<times> stored_record) list) list \<Rightarrow> (string \<times> (string \<times> stored_record) list) list" where
  "drop_expired_records t m =
     filter (\<lambda>p. snd p \<noteq> []) (map (\<lambda>(scope, hosts). (scope, filter (\<lambda>h. \<not> sr_expires (snd h) \<le> t) hosts)) m)"

definition cleanup :: "int \<Rightarrow> bridge \<Rightarrow> bridge" where
  "cleanup t b =
     (let b1 = b\<lparr>br_records := drop_expired_records t (br_records b),
                 br_rate := filter (\<lambda>r. \<not> t - wc_start (snd r) > RATE_WINDOW_MS) (br_rate b)\<rparr>;
          b2 = cleanupExpiredSignalingSessions t b1;
          b3 = fold (\<lambda>(ws, sb) b. if sb_expires sb \<le> t then unbindSocket t ws b else b) (br_socket_hosts b2) b2;
          b4 = fold (\<lambda>(ws, p) b. if pd_expires p \<le> t then clearPendingRegistration ws b else b) (br_pending b3) b3
      in b4\<lparr>br_access := filter (\<lambda>a. \<not> ha_expires (snd a) \<le> t) (br_access b4),
            br_proofs := filter (\<lambda>p. \<not> snd p \<le> t) (br_proofs b4)\<rparr>)"

section \<open>The ledger\<close>

definition opt_role :: "host_role option \<Rightarrow> (string \<times> json) list" where
  "opt_role r = opt_field ''role'' (\<lambda>x. JStr (role_name_of x)) r"

fun event_json :: "ledger_event \<Rightarrow> json" where
  "event_json (EvHighWater m) =
     JObj ([(''type'', JStr ''highWater''), (''authorityFingerprint'', JStr (lm_authority m)), (''serverId'', JStr (lm_server m)),
            (''hostId'', JStr (lm_host m)), (''epoch'', JNum (lm_epoch m)), (''recordSeq'', JNum (lm_seq m)),
            (''recordHash'', JStr (lm_hash m)), (''grantId'', JStr (lm_grant m)), (''grantGeneration'', JNum (lm_generation m))]
           @ opt_role (lm_role m))"
| "event_json (EvVote v) =
     JObj [(''type'', JStr ''promotionVote''), (''authorityFingerprint'', JStr (vm_authority v)), (''serverId'', JStr (vm_server v)),
           (''electionEpoch'', JNum (vm_epoch v)), (''candidateHostId'', JStr (vm_candidate v)),
           (''primaryHostId'', JStr (vm_primary v)), (''primaryRecordHash'', JStr (vm_record_hash v)),
           (''grantedAt'', JNum (vm_granted v))]"
| "event_json (EvRevocation key r) =
     JObj [(''type'', JStr ''revocation''), (''authorityPublicKey'', JStr key), (''revocation'', signed_json revocation_json r)]"
| "event_json (EvAccess key a) =
     JObj [(''type'', JStr ''hostAccess''), (''key'', JStr key), (''tokenHash'', JStr (ha_token a)), (''grantId'', JStr (ha_grant a)),
           (''generation'', JNum (ha_generation a)), (''expiresAt'', JNum (ha_expires a)), (''proofId'', JStr (ha_proof a))]"
| "event_json (EvPairing p) =
     JObj [(''type'', JStr ''pairingConsumed''), (''bridgeId'', JStr (pc_bridge p)),
           (''authorityFingerprint'', JStr (pc_authority p)), (''serverId'', JStr (pc_server p)), (''hostId'', JStr (pc_host p)),
           (''tokenHash'', JStr (pc_token p)), (''consumedAt'', JNum (pc_consumed p)), (''expiresAt'', JNum (pc_expires p))]"

definition line_hash :: "bridge_env \<Rightarrow> int \<Rightarrow> int \<Rightarrow> string option \<Rightarrow> ledger_event \<Rightarrow> string" where
  "line_hash e version n prev ev = sha256Hex e (canonicalJson (JObj
     [(''version'', JNum version), (''seq'', JNum n), (''previousHash'', case prev of None \<Rightarrow> JNull | Some h \<Rightarrow> JStr h),
      (''event'', event_json ev)]))"

definition ledger_line_of :: "bridge_env \<Rightarrow> int \<Rightarrow> string option \<Rightarrow> ledger_event \<Rightarrow> ledger_line" where
  "ledger_line_of e n prev ev = \<lparr>ll_version = 1, ll_seq = n, ll_previous = prev, ll_event = ev, ll_hash = line_hash e 1 n prev ev\<rparr>"

text \<open>
  What the file system does with an append: the line is there and synced; nothing is written; part of the line is there;
  the line is there but \<open>fsync\<close> fails. In the last three the call throws.
\<close>

datatype append_outcome = Synced | Unwritten | Cut | Unsynced

text \<open>And with a compaction: the file is replaced; it is not, and the call throws; it is, but the sync of its directory throws.\<close>

datatype compact_outcome = Compacted | Kept_old | Undated

record bridge_io =
  io_pairing :: append_outcome
  io_append :: append_outcome
  io_big :: bool
  io_compact :: compact_outcome

text \<open>A line written after a torn one is no line of its own.\<close>

definition write_line :: "ledger_line \<Rightarrow> bridge \<Rightarrow> bridge" where
  "write_line l b = b\<lparr>br_file := br_file b @ [if br_torn b then None else Some l], br_torn := False\<rparr>"

text \<open>\<open>False\<close>: the call threw.\<close>

definition appendStateEvent :: "bridge_env \<Rightarrow> append_outcome \<Rightarrow> ledger_event \<Rightarrow> bridge \<Rightarrow> bool \<times> bridge" where
  "appendStateEvent e outcome ev b =
     (if \<not> be_state_file e then (\<not> be_production e, b)
      else let l = ledger_line_of e (br_seq b + 1) (br_hash b) ev
           in case outcome of
                Synced \<Rightarrow> (True, (write_line l b)\<lparr>br_seq := ll_seq l, br_hash := Some (ll_hash l)\<rparr>)
              | Unwritten \<Rightarrow> (False, b)
              | Cut \<Rightarrow> (False, b\<lparr>br_torn := True\<rparr>)
              | Unsynced \<Rightarrow> (False, write_line l b))"

definition ledger_events :: "int \<Rightarrow> bridge \<Rightarrow> ledger_event list" where
  "ledger_events t b =
     map (\<lambda>v. EvRevocation (rk_key v) (rk_revocation v)) (concat (map (map snd \<circ> snd) (br_revoked b)))
     @ map (EvPairing \<circ> snd) (br_pairings b)
     @ map EvHighWater (concat (map (map snd \<circ> snd) (br_marks b)))
     @ map (EvVote \<circ> snd) (br_votes b)
     @ map (\<lambda>(key, a). EvAccess key a) (filter (\<lambda>p. ha_expires (snd p) > t) (br_access b))"

fun chain_lines :: "bridge_env \<Rightarrow> int \<Rightarrow> string option \<Rightarrow> ledger_event list \<Rightarrow> ledger_line list" where
  "chain_lines e n prev [] = []"
| "chain_lines e n prev (ev # evs) =
     (let l = ledger_line_of e (n + 1) prev ev in l # chain_lines e (n + 1) (Some (ll_hash l)) evs)"

text \<open>The sequence number and the hash are set last: where the call throws after the rename they stay behind.\<close>

definition maybeCompactState :: "bridge_env \<Rightarrow> bridge_io \<Rightarrow> int \<Rightarrow> bridge \<Rightarrow> bool \<times> bridge" where
  "maybeCompactState e io t b =
     (if \<not> be_state_file e \<or> (br_file b = [] \<and> \<not> br_torn b) then (True, b)
      else if \<not> io_big io \<and> br_seq b < 10000 then (True, b)
      else let b1 = cleanup t b;
               ls = chain_lines e 0 None (ledger_events t b1);
               b2 = b1\<lparr>br_file := map Some ls, br_torn := False\<rparr>
           in case io_compact io of
                Kept_old \<Rightarrow> (False, b1)
              | Undated \<Rightarrow> (False, b2)
              | Compacted \<Rightarrow> (True, b2\<lparr>br_seq := int (length ls),
                                          br_hash := (if ls = [] then None else Some (ll_hash (last ls)))\<rparr>))"

definition applyHighWaterMark :: "ledger_mark \<Rightarrow> bridge \<Rightarrow> bool \<times> bridge" where
  "applyHighWaterMark m b =
     (let scope = authorityScope (lm_authority m) (lm_server m);
          marks = inner (br_marks b) scope;
          set_it = (True, b\<lparr>br_marks := map_set scope (map_set (lm_host m) m marks) (br_marks b)\<rparr>)
      in case map_of marks (lm_host m) of
           None \<Rightarrow> set_it
         | Some cur \<Rightarrow>
             if lm_generation m < lm_generation cur then (False, b)
             else if lm_generation m = lm_generation cur \<and> lm_grant m \<noteq> lm_grant cur then (False, b)
             else if lm_epoch m < lm_epoch cur \<or> lm_seq m \<le> lm_seq cur then (False, b)
             else set_it)"

definition applyPromotionVote :: "vote_mark \<Rightarrow> bridge \<Rightarrow> bool \<times> bridge" where
  "applyPromotionVote v b =
     (let key = promotionVoteKey (vm_authority v) (vm_server v) (vm_epoch v)
      in case map_of (br_votes b) key of
           Some cur \<Rightarrow>
             (vm_candidate cur = vm_candidate v \<and> vm_primary cur = vm_primary v \<and> vm_record_hash cur = vm_record_hash v, b)
         | None \<Rightarrow> (True, b\<lparr>br_votes := map_set key v (br_votes b)\<rparr>))"

definition nested_size :: "(string \<times> (string \<times> 'v) list) list \<Rightarrow> nat" where
  "nested_size m = sum_list (map (length \<circ> snd) m)"

definition durableEntryCount :: "bridge \<Rightarrow> nat" where
  "durableEntryCount b =
     length (br_votes b) + length (br_pairings b) + length (br_access b) + nested_size (br_marks b) + nested_size (br_revoked b)"

end
