(* ===== verification/BridgeHosts.thy ===== *)
theory BridgeHosts
  imports Bridge
begin

text \<open>
  The frames of hosts and of the authority (\<open>apps/rendezvous/src/main.ts\<close>): \<open>access.issue\<close>, \<open>register.cursor\<close>,
  \<open>register.begin\<close>, \<open>register.prove\<close>, \<open>revoke\<close>, and \<open>resolve\<close> of clients.

  A signed value in a frame is \<open>None\<close> where it has not the fields the code asks for; random values are arguments.
\<close>

section \<open>Pairing\<close>

fun sextets_bytes :: "nat list \<Rightarrow> nat list" where
  "sextets_bytes (x # y # z # w # r) = (x * 4 + y div 16) # (y mod 16 * 16 + z div 4) # (z mod 4 * 64 + w) # sextets_bytes r"
| "sextets_bytes [x, y, z] = [x * 4 + y div 16, y mod 16 * 16 + z div 4]"
| "sextets_bytes [x, y] = [x * 4 + y div 16]"
| "sextets_bytes _ = []"

text \<open>\<open>Buffer.from(s, "base64url")\<close> of a text of the alphabet.\<close>

definition base64url_decode :: "string \<Rightarrow> string" where
  "base64url_decode s = map char_of (sextets_bytes (map b64url_value s))"

definition token_parts :: "string \<Rightarrow> (string \<times> string) option" where
  "token_parts v =
     (case strip_prefix ''JCP1.'' v of
        None \<Rightarrow> None
      | Some rest \<Rightarrow>
          let body = takeWhile (\<lambda>ch. ch \<noteq> CHR ''.'') rest; mac = drop (Suc (length body)) rest
          in if 32 \<le> length body \<and> length body \<le> 384 \<and> list_all b64url_char body \<and> length body < length rest
                \<and> length mac = 43 \<and> list_all b64url_char mac
             then Some (body, mac) else None)"

definition pairing_payload :: "json \<Rightarrow> int \<Rightarrow> (string \<times> int) option" where
  "pairing_payload v t =
     (case v of
        JObj o1 \<Rightarrow>
          if join NUL (sort (map fst o1)) \<noteq> join NUL (sort [''bridgeId'', ''expiresAt'', ''issuedAt'', ''tokenId'', ''version'']) then None
          else (case (obj_get ''version'' o1, obj_get ''bridgeId'' o1, obj_get ''tokenId'' o1, obj_get ''issuedAt'' o1, obj_get ''expiresAt'' o1) of
                  (Some (JNum n), Some (JStr bridge), Some (JStr tok), Some (JNum iss), Some (JNum ex)) \<Rightarrow>
                    if n \<noteq> 1 \<or> \<not> hex_dash tok \<or> \<not> is_safe_integer iss \<or> \<not> is_safe_integer ex
                       \<or> iss > t + 5000 \<or> ex \<le> t \<or> ex > iss + 30 * 24 * 3600000
                    then None else Some (bridge, ex)
                | _ \<Rightarrow> None)
      | _ \<Rightarrow> None)"

text \<open>\<open>tokenHash\<close>, \<open>bridgeId\<close> and \<open>expiresAt\<close>\<close>

definition pairingTokenPayload :: "bridge_env \<Rightarrow> string option \<Rightarrow> int \<Rightarrow> (string \<times> string \<times> int) option" where
  "pairingTokenPayload e v t =
     (case (be_admin_key e, v) of
        (Some adminKey, Some s) \<Rightarrow>
          if length s > 512 then None
          else (case token_parts s of
                  None \<Rightarrow> None
                | Some (body, mac) \<Rightarrow>
                    if base64url_decode mac \<noteq> hmac_sha256 e adminKey (''JCP1.'' @ body) then None
                    else (case json_parse e (base64url_decode body) of
                            None \<Rightarrow> None
                          | Some j \<Rightarrow>
                              (case pairing_payload j t of
                                 None \<Rightarrow> None
                               | Some (bridge, ex) \<Rightarrow> Some (sha256Hex e s, bridge, ex))))
      | _ \<Rightarrow> None)"

record pairing_scope =
  ps_bridge :: string
  ps_authority :: string
  ps_server :: string
  ps_host :: string

text \<open>\<open>None\<close>: the call threw.\<close>

definition consumePairingToken ::
    "bridge_env \<Rightarrow> append_outcome \<Rightarrow> string option \<Rightarrow> pairing_scope \<Rightarrow> int \<Rightarrow> bridge \<Rightarrow> bool option \<times> bridge" where
  "consumePairingToken e outcome v ps t b =
     (case pairingTokenPayload e v t of
        None \<Rightarrow> (Some False, b)
      | Some (hash, bridgeId, ex) \<Rightarrow>
          if map_of (br_pairings b) hash \<noteq> None \<or> bridgeId \<noteq> ps_bridge ps
             \<or> (case br_signing b of None \<Rightarrow> False | Some (d, seed) \<Rightarrow> bd_bridge (s_payload d) \<noteq> [] \<and> bridgeId \<noteq> bd_bridge (s_payload d))
          then (Some False, b)
          else let consumed = \<lparr>pc_token = hash, pc_bridge = ps_bridge ps, pc_authority = ps_authority ps, pc_server = ps_server ps,
                               pc_host = ps_host ps, pc_consumed = t, pc_expires = ex\<rparr>;
                   (ok, b1) = appendStateEvent e outcome (EvPairing consumed) b
               in if \<not> ok then (None, b1)
                  else (Some True, b1\<lparr>br_pairings := map_set hash consumed (br_pairings b1)\<rparr>))"

section \<open>Access\<close>

record access_proof =
  xp_bridge :: string
  xp_expires :: int
  xp_grant :: string
  xp_host :: string
  xp_issued :: int
  xp_proof :: string
  xp_server :: string
  xp_slot :: string

definition access_proof_json :: "access_proof \<Rightarrow> json" where
  "access_proof_json p = JObj
     [(''version'', JNum 1), (''bridgeId'', JStr (xp_bridge p)), (''serverId'', JStr (xp_server p)), (''hostId'', JStr (xp_host p)),
      (''grantId'', JStr (xp_grant p)), (''slot'', JStr (xp_slot p)), (''proofId'', JStr (xp_proof p)),
      (''issuedAt'', JNum (xp_issued p)), (''expiresAt'', JNum (xp_expires p))]"

record access_frame =
  af_request :: "string option"
  af_key :: "string option"
  af_grant :: "grant_payload signed option"
  af_proof :: "access_proof signed option"
  af_pairing :: "string option"

definition text_or_empty :: "string option \<Rightarrow> string" where
  "text_or_empty v = (case v of None \<Rightarrow> [] | Some s \<Rightarrow> s)"

definition grant_revoked :: "bridge \<Rightarrow> string \<Rightarrow> grant_payload \<Rightarrow> bool" where
  "grant_revoked b scope g =
     (case map_of (inner (br_revoked b) scope) (gp_grant g) of None \<Rightarrow> False | Some r \<Rightarrow> gp_generation g \<le> rk_generation r)"

definition access_proof_ok ::
    "bridge_env \<Rightarrow> bridge \<Rightarrow> string \<Rightarrow> grant_payload \<Rightarrow> access_proof signed \<Rightarrow> int \<Rightarrow> bool" where
  "access_proof_ok e b scope g pr t \<longleftrightarrow>
     (let p = s_payload pr;
          hostFloor = (case map_of (inner (br_marks b) scope) (gp_host g) of None \<Rightarrow> 0 | Some m \<Rightarrow> lm_generation m)
      in canonical_bytes (s_key pr) 32 \<and> canonical_bytes (s_signature pr) 64 \<and> s_key pr = gp_device_key g
         \<and> xp_server p = gp_server g \<and> xp_host p = gp_host g \<and> xp_grant p = gp_grant g
         \<and> xp_slot p \<in> {''registration'', ''witness''} \<and> length (xp_bridge p) \<ge> 1
         \<and> hex_dash (xp_proof p) \<and> map_of (br_proofs b) (xp_proof p) = None
         \<and> is_safe_integer (xp_issued p) \<and> is_safe_integer (xp_expires p)
         \<and> xp_issued p \<ge> t - 10000 \<and> xp_issued p \<le> t + REGISTRATION_PROOF_CLOCK_SKEW_MS
         \<and> xp_expires p > t \<and> xp_expires p \<le> xp_issued p + 30000
         \<and> \<not> grant_revoked b scope g \<and> gp_generation g \<ge> hostFloor
         \<and> verifyCanonicalPayload e (s_key pr) BRIDGE_ACCESS_DOMAIN (access_proof_json p) (s_signature pr))"

definition strip_slot :: "string \<Rightarrow> string" where
  "strip_slot k =
     (case strip_prefix (rev '':registration'') (rev k) of
        Some r \<Rightarrow> rev r
      | None \<Rightarrow> (case strip_prefix (rev '':witness'') (rev k) of Some r \<Rightarrow> rev r | None \<Rightarrow> k))"

definition tenant_quota_reached :: "bridge_env \<Rightarrow> bridge \<Rightarrow> string \<Rightarrow> string \<Rightarrow> bool" where
  "tenant_quota_reached e b tenantPrefix hostKey \<longleftrightarrow>
     \<not> list_ex (\<lambda>k. starts_with k (hostKey @ '':'')) (map fst (br_access b))
     \<and> (case be_hosts_per_community e of
          None \<Rightarrow> False
        | Some n \<Rightarrow> int (length (remdups (map strip_slot (filter (\<lambda>k. starts_with k tenantPrefix) (map fst (br_access b))))))
            \<ge> max 1 (min 256 n))"

definition access_denied :: "string \<Rightarrow> rerror" where
  "access_denied message = (''unauthorized'', message)"

text \<open>The credential itself, once the proof is accepted and the community is paired.\<close>

definition grant_access ::
    "bridge_env \<Rightarrow> bridge_io \<Rightarrow> string \<Rightarrow> int \<Rightarrow> string \<Rightarrow> grant_payload \<Rightarrow> access_proof \<Rightarrow> bridge
     \<Rightarrow> (exn + rerror + string \<times> int) \<times> bridge" where
  "grant_access e io accessToken t fp g p b =
     (let access = \<lparr>ha_token = sha256Hex e accessToken, ha_grant = gp_grant g, ha_generation = gp_generation g,
                    ha_expires = min (gp_expires g) (t + 24 * 3600000), ha_proof = xp_proof p\<rparr>;
          tenantPrefix = authorityScope fp (gp_server g) @ '':'';
          hostKey = hostBindingKey fp (gp_server g) (gp_host g);
          key = hostKey @ '':'' @ xp_slot p
      in if tenant_quota_reached e b tenantPrefix hostKey
         then (Inr (Inl (access_denied ''community host credential quota reached'')), b)
         else if map_of (br_access b) key = None \<and> length (br_access b) \<ge> MAX_DURABLE_ENTRIES
         then (Inr (Inl (access_denied ''bridge host access capacity reached'')), b)
         else let (ok, b1) = appendStateEvent e (io_append io) (EvAccess key access) b
              in if \<not> ok then (Inr (Inl (''unavailable'', ''host access state could not be persisted'')), b1)
                 else let b2 = b1\<lparr>br_proofs := map_set (xp_proof p) (xp_expires p) (br_proofs b1),
                                  br_access := map_set key access (br_access b1)\<rparr>;
                          (ok2, b3) = maybeCompactState e io t b2
                      in if ok2 then (Inr (Inr (accessToken, ha_expires access)), b3) else (Inl (AppError ''io''), b3))"

definition scope_established :: "bridge \<Rightarrow> string \<Rightarrow> bool" where
  "scope_established b scope \<longleftrightarrow>
     inner (br_marks b) scope \<noteq> [] \<or> list_ex (\<lambda>k. starts_with k (scope @ '':'')) (map fst (br_access b))"

definition issueHostAccess ::
    "bridge_env \<Rightarrow> bridge_io \<Rightarrow> string \<Rightarrow> access_frame \<Rightarrow> int \<Rightarrow> bridge \<Rightarrow> (exn + rerror + string \<times> int) \<times> bridge" where
  "issueHostAccess e io accessToken fr t b =
     (let denied = (Inr (Inl (access_denied ''valid host access proof required'')), b);
          authorityKey = text_or_empty (af_key fr)
      in case (case af_grant fr of None \<Rightarrow> None | Some g \<Rightarrow> verifySignedHostGrant e g authorityKey t,
               publicKeyFingerprint e authorityKey, af_proof fr) of
           (Some grant, Some fp, Some pr) \<Rightarrow>
             let g = s_payload grant; scope = authorityScope fp (gp_server g)
             in if text_or_empty (af_request fr) = [] \<or> Register \<notin> set (gp_caps g) then denied
                else if \<not> access_proof_ok e b scope g pr t then denied
                else if scope_established b scope then grant_access e io accessToken t fp g (s_payload pr) b
                else (case consumePairingToken e (io_pairing io) (af_pairing fr)
                        \<lparr>ps_bridge = xp_bridge (s_payload pr), ps_authority = fp, ps_server = gp_server g, ps_host = gp_host g\<rparr> t b of
                        (None, b1) \<Rightarrow> (Inr (Inl (''unavailable'', ''pairing consumption could not be persisted'')), b1)
                      | (Some False, b1) \<Rightarrow> (Inr (Inl (''pairing_required'', ''unused one-time community pairing required'')), b1)
                      | (Some True, b1) \<Rightarrow> grant_access e io accessToken t fp g (s_payload pr) b1)
         | _ \<Rightarrow> denied)"

record cursor_frame =
  cf_request :: "string option"
  cf_authority :: "string option"
  cf_server :: "string option"
  cf_host :: "string option"
  cf_token :: "string option"

definition registrationCursor :: "bridge_env \<Rightarrow> cursor_frame \<Rightarrow> int \<Rightarrow> bridge \<Rightarrow> rerror + int \<times> string option" where
  "registrationCursor e fr t b =
     (let fp = toLowerCase (text_or_empty (cf_authority fr));
          server = text_or_empty (cf_server fr); host = text_or_empty (cf_host fr);
          supplied = (case cf_token fr of None \<Rightarrow> [] | Some tok \<Rightarrow> sha256Hex e tok)
      in case map_of (br_access b) (hostAccessKey fp server host ''registration'') of
           None \<Rightarrow> Inl (''unauthorized'', ''valid host access required'')
         | Some a \<Rightarrow>
             if text_or_empty (cf_request fr) = [] \<or> \<not> AuthorityFingerprintSchema fp \<or> ha_expires a \<le> t \<or> ha_token a \<noteq> supplied
             then Inl (''unauthorized'', ''valid host access required'')
             else Inr (case map_of (inner (br_marks b) (authorityScope fp server)) host of
                         None \<Rightarrow> (1, None)
                       | Some m \<Rightarrow> (lm_seq m + 1, Some (lm_hash m))))"

end
