(* ===== verification/BridgeRegistration.thy ===== *)
theory BridgeRegistration
  imports BridgeHosts
begin

text \<open>
  Registering a host at a bridge (\<open>validateRegistration\<close>, \<open>beginRegistration\<close>, \<open>proveRegistration\<close>,
  \<open>commitRegistration\<close>), revocations and resolving (\<open>apps/rendezvous/src/main.ts\<close>).
\<close>

section \<open>Signing material\<close>

definition loadBridgeSigningMaterial :: "bridge_env \<Rightarrow> int \<Rightarrow> exn + signing_material option" where
  "loadBridgeSigningMaterial e t =
     (case be_signing e of
        None \<Rightarrow> Inr None
      | Some (d0, key) \<Rightarrow>
          (case (case d0 of None \<Rightarrow> None | Some d \<Rightarrow> verifySignedBridgeDescriptor e d t) of
             None \<Rightarrow> Inl (AppError ''invalid or expired bridge descriptor'')
           | Some d \<Rightarrow>
               (case ed25519Fingerprint e (s_key d) of
                  Inl x \<Rightarrow> Inl x
                | Inr fp \<Rightarrow>
                    if bd_bridge (s_payload d) \<noteq> ''ed25519:'' @ fp
                    then Inl (AppError ''bridge signing descriptor requires canonical ed25519 bridge id'')
                    else (case (jwk_d key, jwk_x key) of
                            (Some seed, Some x) \<Rightarrow>
                              if x \<noteq> s_key d then Inl (AppError ''bridge signing key does not match descriptor'')
                              else if base64url_bytes seed \<noteq> 32 then Inl (AppError ''invalid Ed25519 bridge signing seed'')
                              else Inr (Some (d, seed))
                          | _ \<Rightarrow> Inl (AppError ''bridge signing key does not match descriptor'')))))"

text \<open>\<open>bridgeSigningMaterial ?? loadBridgeSigningMaterial()\<close>, kept once there is any\<close>

definition signing_material :: "bridge_env \<Rightarrow> int \<Rightarrow> bridge \<Rightarrow> (exn + signing_material option) \<times> bridge" where
  "signing_material e t b =
     (case br_signing b of
        Some m \<Rightarrow> (Inr (Some m), b)
      | None \<Rightarrow>
          (case loadBridgeSigningMaterial e t of
             Inl x \<Rightarrow> (Inl x, b)
           | Inr None \<Rightarrow> (Inr None, b)
           | Inr (Some m) \<Rightarrow> (Inr (Some m), b\<lparr>br_signing := Some m\<rparr>)))"

section \<open>Validation\<close>

definition highest_epoch :: "(string \<times> ledger_mark) list \<Rightarrow> int" where
  "highest_epoch ms = foldr max (map (lm_epoch \<circ> snd) ms) 0"

definition by_seq_desc :: "ledger_mark comparison" where
  "by_seq_desc l r = lm_seq r - lm_seq l"

definition current_primary :: "(string \<times> ledger_mark) list \<Rightarrow> int \<Rightarrow> ledger_mark option" where
  "current_primary ms epoch =
     (case js_sort by_seq_desc (filter (\<lambda>m. lm_role m = Some Primary \<and> lm_epoch m = epoch) (map snd ms)) of
        [] \<Rightarrow> None | m # _ \<Rightarrow> Some m)"

text \<open>A receipt of the certificate, against the registration, the primary it replaces and the approved bridges.\<close>

definition certificate_receipt_ok ::
    "bridge_env \<Rightarrow> string list \<Rightarrow> host_record \<Rightarrow> ledger_mark \<Rightarrow> int \<Rightarrow> int \<Rightarrow> promotion_vote signed \<Rightarrow> bool" where
  "certificate_receipt_ok e approved r primary highestEpoch t v \<longleftrightarrow>
     (let p = s_payload v in
        PublicKeySchema (s_key v) \<and> pv_bridge p \<in> set approved
        \<and> (case ed25519Fingerprint e (s_key v) of Inl x \<Rightarrow> False | Inr fp \<Rightarrow> pv_bridge p = ''ed25519:'' @ fp)
        \<and> 1 \<le> length (pv_request p) \<and> length (pv_request p) \<le> 128
        \<and> pv_server p = hr_server r \<and> pv_candidate p = hr_host r
        \<and> pv_primary p = lm_host primary \<and> pv_record_hash p = lm_hash primary
        \<and> pv_primary_epoch p = highestEpoch \<and> pv_election p = hr_epoch r
        \<and> is_safe_integer (pv_granted p) \<and> is_safe_integer (pv_issued p) \<and> is_safe_integer (pv_expires p)
        \<and> pv_granted p \<le> pv_issued p \<and> pv_issued p \<le> t + 5000 \<and> pv_expires p > t
        \<and> pv_expires p \<le> pv_issued p + 24 * 3600000
        \<and> canonical_bytes (s_signature v) 64
        \<and> verifyCanonicalPayload e (s_key v) PROMOTION_VOTE_DOMAIN (promotion_vote_json p) (s_signature v))"

text \<open>The bridge's own receipt has to agree with the vote it keeps.\<close>

definition own_vote_ok ::
    "bridge \<Rightarrow> bridge_descriptor signed \<Rightarrow> host_record \<Rightarrow> ledger_mark \<Rightarrow> promotion_vote signed \<Rightarrow> bool" where
  "own_vote_ok b d r primary v \<longleftrightarrow>
     s_key v = s_key d
     \<and> (case map_of (br_votes b) (promotionVoteKey (lm_authority primary) (hr_server r) (hr_epoch r)) of
          None \<Rightarrow> False
        | Some vote \<Rightarrow>
            vm_candidate vote = hr_host r \<and> vm_primary vote = lm_host primary \<and> vm_record_hash vote = lm_hash primary
            \<and> vm_epoch vote = hr_epoch r \<and> vm_granted vote = pv_granted (s_payload v))"

fun certificate_ok ::
    "bridge_env \<Rightarrow> bridge \<Rightarrow> bridge_descriptor signed \<Rightarrow> string list \<Rightarrow> host_record \<Rightarrow> ledger_mark \<Rightarrow> int \<Rightarrow> int
     \<Rightarrow> certificate \<Rightarrow> string list \<Rightarrow> string list \<Rightarrow> bool \<Rightarrow> bool" where
  "certificate_ok e b d approved r primary highestEpoch t [] bridgeIds requestIds own \<longleftrightarrow> length bridgeIds \<ge> 2 \<and> own"
| "certificate_ok e b d approved r primary highestEpoch t (None # items) bridgeIds requestIds own \<longleftrightarrow> False"
| "certificate_ok e b d approved r primary highestEpoch t (Some v # items) bridgeIds requestIds own \<longleftrightarrow>
     (let p = s_payload v; mine = (pv_bridge p = bd_bridge (s_payload d)) in
        certificate_receipt_ok e approved r primary highestEpoch t v
        \<and> pv_bridge p \<notin> set bridgeIds \<and> pv_request p \<notin> set requestIds
        \<and> (mine \<longrightarrow> own_vote_ok b d r primary v)
        \<and> certificate_ok e b d approved r primary highestEpoch t items (pv_bridge p # bridgeIds) (pv_request p # requestIds) (own \<or> mine))"

definition validPromotionCertificate ::
    "bridge_env \<Rightarrow> certificate option \<Rightarrow> host_record \<Rightarrow> grant_payload \<Rightarrow> (string \<times> ledger_mark) list \<Rightarrow> int \<Rightarrow> int \<Rightarrow> bridge
     \<Rightarrow> (exn + bool) \<times> bridge" where
  "validPromotionCertificate e cert r g marks highestEpoch t b =
     (case cert of
        None \<Rightarrow> (Inr False, b)
      | Some items \<Rightarrow>
          if length items < 2 \<or> length items > 3 then (Inr False, b)
          else let approved = remdups (case gp_witness g of None \<Rightarrow> [] | Some ids \<Rightarrow> ids)
               in if length approved < 2 then (Inr False, b)
                  else (case current_primary marks highestEpoch of
                          None \<Rightarrow> (Inr False, b)
                        | Some primary \<Rightarrow>
                            (case signing_material e t b of
                               (Inl x, b1) \<Rightarrow> (Inl x, b1)
                             | (Inr None, b1) \<Rightarrow> (Inr False, b1)
                             | (Inr (Some (d, seed)), b1) \<Rightarrow>
                                 (Inr (certificate_ok e b1 d approved r primary highestEpoch t items [] [] False), b1))))"

record verified_registration =
  vr_fingerprint :: string
  vr_key :: string
  vr_grant :: "grant_payload signed"
  vr_record :: "host_record signed"
  vr_hash :: string
  vr_certificate :: "certificate option"

record registration_frame =
  rf_key :: string
  rf_grant :: "grant_payload signed option"
  rf_record :: "host_record signed option"
  rf_certificate :: "certificate option"

definition conflict :: "string \<Rightarrow> rerror" where "conflict message = (''conflict'', message)"

text \<open>The record's epoch against every mark of the community, its chain against the host's own mark.\<close>

definition epoch_conflict :: "(string \<times> ledger_mark) list \<Rightarrow> host_record \<Rightarrow> rerror option" where
  "epoch_conflict marks r =
     (if marks = [] \<and> (hr_epoch r > 1 \<or> hr_seq r \<noteq> 1) then Some (conflict ''host record requires an initial checkpoint'')
      else if hr_epoch r < highest_epoch marks then Some (conflict ''stale host epoch'')
      else if marks \<noteq> [] \<and> hr_epoch r > highest_epoch marks + 1
      then Some (conflict ''host epoch transition is not contiguous'')
      else None)"

definition same_registration :: "ledger_mark \<Rightarrow> host_record \<Rightarrow> string \<Rightarrow> bool" where
  "same_registration m r hash \<longleftrightarrow>
     hr_seq r = lm_seq m \<and> hr_epoch r = lm_epoch m \<and> hr_grant r = lm_grant m \<and> hash = lm_hash m"

definition chain_conflict :: "ledger_mark option \<Rightarrow> host_record \<Rightarrow> grant_payload \<Rightarrow> string \<Rightarrow> rerror option" where
  "chain_conflict previous r g hash =
     (case previous of
        None \<Rightarrow>
          if hr_seq r \<noteq> 1 \<or> hr_previous r \<noteq> None then Some (conflict ''host record requires an initial checkpoint'') else None
      | Some m \<Rightarrow>
          if gp_generation g < lm_generation m then Some (conflict ''stale host grant generation'')
          else if gp_generation g = lm_generation m \<and> gp_grant g \<noteq> lm_grant m
          then Some (conflict ''host grant generation already bound'')
          else if hr_epoch r < lm_epoch m then Some (conflict ''stale host epoch'')
          else if hr_seq r < lm_seq m \<or> (hr_seq r = lm_seq m \<and> \<not> same_registration m r hash)
          then Some (conflict ''stale host record sequence'')
          else if \<not> same_registration m r hash \<and> (hr_seq r \<noteq> lm_seq m + 1 \<or> hr_previous r \<noteq> Some (lm_hash m))
          then Some (conflict ''host record sequence must be exactly contiguous'')
          else None)"

text \<open>The certificate a higher primary epoch needs, and the quota.\<close>

definition admit_registration ::
    "bridge_env \<Rightarrow> string \<Rightarrow> string \<Rightarrow> certificate option \<Rightarrow> host_record signed \<Rightarrow> grant_payload signed \<Rightarrow> int \<Rightarrow> bridge
     \<Rightarrow> (exn + rerror + verified_registration) \<times> bridge" where
  "admit_registration e fp key cert record grant t b =
     (let r = s_payload record; scope = authorityScope fp (hr_server r); marks = inner (br_marks b) scope;
          highest = highest_epoch marks;
          (certified, b1) = (if marks \<noteq> [] \<and> hr_role r = Primary \<and> hr_epoch r > highest
                             then validPromotionCertificate e cert r (s_payload grant) marks highest t b else (Inr True, b))
      in case certified of
           Inl x \<Rightarrow> (Inl x, b1)
         | Inr ok \<Rightarrow>
             if \<not> ok
             then (Inr (Inl (''unauthorized'', ''higher primary epoch requires a strict bridge promotion certificate'')), b1)
             else if map_of (inner (br_records b1) scope) (hr_host r) = None
                     \<and> length (inner (br_records b1) scope) \<ge> MAX_RECORDS_PER_SERVER
             then (Inr (Inl (''rate_limited'', ''host record quota reached'')), b1)
             else (Inr (Inr \<lparr>vr_fingerprint = fp, vr_key = key, vr_grant = grant, vr_record = record,
                             vr_hash = record_hash e record, vr_certificate = cert\<rparr>), b1))"

definition validateRegistration ::
    "bridge_env \<Rightarrow> registration_frame \<Rightarrow> int \<Rightarrow> bridge \<Rightarrow> (exn + rerror + verified_registration) \<times> bridge" where
  "validateRegistration e fr t b =
     (case publicKeyFingerprint e (rf_key fr) of
        None \<Rightarrow> (Inr (Inl (''invalid_input'', ''invalid authority key'')), b)
      | Some fp \<Rightarrow>
          (case (rf_grant fr, rf_record fr) of
             (Some grant0, Some record0) \<Rightarrow>
               if \<not> signed_schema (HostGrantPayloadSchema e) grant0 \<or> \<not> SignedHostRecordSchema e record0
               then (Inr (Inl (''invalid_input'', ''malformed signed registration'')), b)
               else let scope = authorityScope fp (hr_server (s_payload record0));
                        revoked = (if grant_revoked b scope (s_payload grant0) then [gp_grant (s_payload grant0)] else [])
                    in (case verifyHostRegistration e record0 grant0 (rf_key fr) revoked t of
                          None \<Rightarrow> (Inr (Inl (''unauthorized'', ''invalid or revoked host registration'')), b)
                        | Some (record, grant) \<Rightarrow>
                            let marks = inner (br_marks b) scope; r = s_payload record
                            in (case epoch_conflict marks r of
                                  Some err \<Rightarrow> (Inr (Inl err), b)
                                | None \<Rightarrow>
                                    (case chain_conflict (map_of marks (hr_host r)) r (s_payload grant) (record_hash e record) of
                                       Some err \<Rightarrow> (Inr (Inl err), b)
                                     | None \<Rightarrow> admit_registration e fp (rf_key fr) (rf_certificate fr) record grant t b)))
           | _ \<Rightarrow> (Inr (Inl (''invalid_input'', ''malformed signed registration'')), b)))"

section \<open>The handshake\<close>

record begin_frame =
  bf_request :: "string option"
  bf_registration :: registration_frame
  bf_token :: "string option"

definition validHostAccessToken :: "bridge_env \<Rightarrow> bridge \<Rightarrow> string option \<Rightarrow> verified_registration \<Rightarrow> int \<Rightarrow> bool" where
  "validHostAccessToken e b v checked t \<longleftrightarrow>
     (case v of
        None \<Rightarrow> False
      | Some tok \<Rightarrow>
          32 \<le> length tok \<and> length tok \<le> 512
          \<and> (case map_of (br_access b) (hostBindingKey (vr_fingerprint checked) (hr_server (s_payload (vr_record checked)))
                     (hr_host (s_payload (vr_record checked))) @ '':registration'') of
               None \<Rightarrow> False
             | Some a \<Rightarrow>
                 \<not> ha_expires a \<le> t \<and> ha_grant a = gp_grant (s_payload (vr_grant checked))
                 \<and> ha_generation a = gp_generation (s_payload (vr_grant checked)) \<and> sha256Hex e tok = ha_token a))"

definition by_epoch_seq_desc :: "stored_record comparison" where
  "by_epoch_seq_desc l r =
     (let a = s_payload (sr_record l); z = s_payload (sr_record r)
      in if hr_epoch z \<noteq> hr_epoch a then hr_epoch z - hr_epoch a else hr_seq z - hr_seq a)"

text \<open>The primary a host with a stale epoch is told of.\<close>

definition higher_registration :: "bridge_env \<Rightarrow> registration_frame \<Rightarrow> bridge \<Rightarrow> told_registration option" where
  "higher_registration e fr b =
     (case (publicKeyFingerprint e (rf_key fr), rf_record fr) of
        (Some fp, Some record) \<Rightarrow>
          if \<not> SignedHostRecordSchema e record then None
          else (case js_sort by_epoch_seq_desc
                  (filter (\<lambda>s. hr_role (s_payload (sr_record s)) = Primary
                               \<and> hr_epoch (s_payload (sr_record s)) > hr_epoch (s_payload record))
                    (map snd (inner (br_records b) (authorityScope fp (hr_server (s_payload record)))))) of
                  [] \<Rightarrow> None
                | s # _ \<Rightarrow> Some \<lparr>tr_key = sr_key s, tr_grant = sr_grant s, tr_record = sr_record s, tr_certificate = sr_certificate s\<rparr>)
      | _ \<Rightarrow> None)"

definition beginRegistration ::
    "bridge_env \<Rightarrow> string \<times> string \<Rightarrow> socket \<Rightarrow> begin_frame \<Rightarrow> int \<Rightarrow> bridge \<Rightarrow> (exn + bridge_frame) \<times> bridge" where
  "beginRegistration e draws ws fr t b0 =
     (let b = cleanup t b0; refused = (\<lambda>err told. Inr (FRefused (bf_request fr) err told)) in
      case bf_request fr of
        None \<Rightarrow> (refused (''invalid_input'', ''invalid requestId'') None, b)
      | Some requestId \<Rightarrow>
          if length requestId < 1 \<or> length requestId > 128 then (refused (''invalid_input'', ''invalid requestId'') None, b)
          else if map_of (br_pending b) ws \<noteq> None then (refused (conflict ''registration proof already pending'') None, b)
          else (case validateRegistration e (bf_registration fr) t b of
                  (Inl x, b1) \<Rightarrow> (Inl x, b1)
                | (Inr (Inl err), b1) \<Rightarrow>
                    (refused err (if snd err = ''stale host epoch'' then higher_registration e (bf_registration fr) b1 else None), b1)
                | (Inr (Inr checked), b1) \<Rightarrow>
                    if \<not> validHostAccessToken e b1 (bf_token fr) checked t
                    then (refused (''unauthorized'', ''valid host access credential required'') None, b1)
                    else let r = s_payload (vr_record checked);
                             claimKey = hostBindingKey (vr_fingerprint checked) (hr_server r) (hr_host r)
                         in if map_of (br_claims b1) claimKey \<noteq> None
                            then (refused (conflict ''host registration already pending'') None, b1)
                            else let pending = \<lparr>pd_request = requestId, pd_challenge = fst draws, pd_nonce = snd draws,
                                       pd_hash = vr_hash checked, pd_created = t, pd_expires = t + REGISTRATION_CHALLENGE_TTL_MS,
                                       pd_claim = claimKey, pd_fingerprint = vr_fingerprint checked, pd_key = vr_key checked,
                                       pd_record = vr_record checked, pd_grant = vr_grant checked,
                                       pd_certificate = rf_certificate (bf_registration fr)\<rparr>
                                 in (Inr (FChallenge \<lparr>bc_request = requestId, bc_challenge = fst draws, bc_nonce = snd draws,
                                            bc_record_hash = vr_hash checked, bc_expires = t + REGISTRATION_CHALLENGE_TTL_MS\<rparr>),
                                     b1\<lparr>br_pending := map_set ws pending (br_pending b1),
                                        br_claims := map_set claimKey ws (br_claims b1)\<rparr>)))"

definition validRegistrationProof :: "bridge_env \<Rightarrow> pending_registration \<Rightarrow> registration_proof signed option \<Rightarrow> int \<Rightarrow> bool" where
  "validRegistrationProof e pending proof t \<longleftrightarrow>
     (case proof of
        None \<Rightarrow> False
      | Some pr \<Rightarrow>
          let p = s_payload pr in
          s_key pr = gp_device_key (s_payload (pd_grant pending))
          \<and> canonical_bytes (s_key pr) 32 \<and> canonical_bytes (s_signature pr) 64
          \<and> rp_server p = hr_server (s_payload (pd_record pending)) \<and> rp_host p = hr_host (s_payload (pd_record pending))
          \<and> rp_grant p = gp_grant (s_payload (pd_grant pending)) \<and> rp_record_hash p = pd_hash pending
          \<and> rp_challenge p = pd_challenge pending \<and> rp_nonce p = pd_nonce pending
          \<and> is_safe_integer (rp_issued p) \<and> is_safe_integer (rp_expires p)
          \<and> rp_issued p \<ge> pd_created pending - REGISTRATION_PROOF_CLOCK_SKEW_MS
          \<and> rp_issued p \<le> t + REGISTRATION_PROOF_CLOCK_SKEW_MS
          \<and> rp_expires p > rp_issued p \<and> rp_expires p \<le> pd_expires pending \<and> rp_expires p > t
          \<and> verifyCanonicalPayload e (s_key pr) REGISTRATION_PROOF_DOMAIN (registration_proof_json p) (s_signature pr))"

end
