(* ===== verification/BridgeCommit.thy ===== *)
theory BridgeCommit
  imports BridgeRegistration
begin

text \<open>
  The end of the handshake and the commands of the authority (\<open>apps/rendezvous/src/main.ts\<close>): \<open>commitRegistration\<close>,
  \<open>proveRegistration\<close>, \<open>revoke\<close>, \<open>resolve\<close>, and reading the state file at the start (\<open>loadRendezvousState\<close>).
\<close>

section \<open>Committing\<close>

definition registered_mark :: "verified_registration \<Rightarrow> ledger_mark" where
  "registered_mark v =
     (let r = s_payload (vr_record v); g = s_payload (vr_grant v)
      in \<lparr>lm_authority = vr_fingerprint v, lm_server = hr_server r, lm_host = hr_host r, lm_epoch = hr_epoch r, lm_seq = hr_seq r,
          lm_hash = vr_hash v, lm_grant = gp_grant g, lm_generation = gp_generation g, lm_role = Some (hr_role r)\<rparr>)"

text \<open>The ledger's part: nothing for a registration repeated unchanged.\<close>

definition commit_mark :: "bridge_env \<Rightarrow> bridge_io \<Rightarrow> int \<Rightarrow> ledger_mark \<Rightarrow> bridge \<Rightarrow> (exn + rerror option) \<times> bridge" where
  "commit_mark e io t m b =
     (let current = map_of (inner (br_marks b) (authorityScope (lm_authority m) (lm_server m))) (lm_host m);
          idempotent = (case current of
              None \<Rightarrow> False
            | Some cur \<Rightarrow> lm_hash cur = lm_hash m \<and> lm_seq cur = lm_seq m \<and> lm_epoch cur = lm_epoch m \<and> lm_grant cur = lm_grant m)
      in if idempotent then (Inr None, b)
         else if current = None \<and> nested_size (br_marks b) \<ge> MAX_DURABLE_ENTRIES
         then (Inr (Some (''unavailable'', ''host ledger capacity reached'')), b)
         else let (ok, b1) = appendStateEvent e (io_append io) (EvHighWater m) b
              in if \<not> ok then (Inr (Some (''unavailable'', ''registration state could not be persisted'')), b1)
                 else let (applied, b2) = applyHighWaterMark m b1
                      in if \<not> applied then (Inr (Some (conflict ''registration high-water mark changed'')), b2)
                         else let (ok2, b3) = maybeCompactState e io t b2
                              in (if ok2 then Inr None else Inl (AppError ''io''), b3))"

text \<open>Other sockets of the community hear of a primary.\<close>

definition tell_peers :: "socket \<Rightarrow> string \<Rightarrow> string \<Rightarrow> told_registration \<Rightarrow> bridge \<Rightarrow> bridge" where
  "tell_peers ws fp server told b =
     fold (\<lambda>(peer, sb) b. if peer \<noteq> ws \<and> sb_fingerprint sb = fp \<and> sb_server sb = server then br_reply peer (FHostEpoch told) b else b)
       (br_socket_hosts b) b"

definition bind_socket :: "int \<Rightarrow> socket \<Rightarrow> socket_binding \<Rightarrow> bridge \<Rightarrow> bridge" where
  "bind_socket t ws sb b =
     (let key = binding_key sb;
          b1 = unbindSocket t ws b;
          b2 = (case map_of (br_host_sockets b1) key of
                  Some old \<Rightarrow> if old \<noteq> ws then unbindSocket t old b1 else b1
                | None \<Rightarrow> b1)
      in b2\<lparr>br_socket_hosts := map_set ws sb (br_socket_hosts b2), br_host_sockets := map_set key ws (br_host_sockets b2),
            br_disconnected := map_del key (br_disconnected b2)\<rparr>)"

definition commitRegistration ::
    "bridge_env \<Rightarrow> bridge_io \<Rightarrow> int \<Rightarrow> socket \<Rightarrow> verified_registration \<Rightarrow> bridge \<Rightarrow> (exn + rerror + registered) \<times> bridge" where
  "commitRegistration e io t ws v b =
     (case commit_mark e io t (registered_mark v) b of
        (Inl x, b1) \<Rightarrow> (Inl x, b1)
      | (Inr (Some err), b1) \<Rightarrow> (Inr (Inl err), b1)
      | (Inr None, b1) \<Rightarrow>
          let r = s_payload (vr_record v); g = s_payload (vr_grant v); fp = vr_fingerprint v;
              scope = authorityScope fp (hr_server r);
              expiresAt = min (hr_expires r) (t + be_max_ttl e);
              stored = \<lparr>sr_record = vr_record v, sr_grant = vr_grant v, sr_key = vr_key v, sr_fingerprint = fp,
                        sr_expires = expiresAt, sr_certificate = vr_certificate v\<rparr>;
              b2 = b1\<lparr>br_records := map_set scope (map_set (hr_host r) stored (inner (br_records b1) scope)) (br_records b1)\<rparr>;
              sb = \<lparr>sb_fingerprint = fp, sb_server = hr_server r, sb_host = hr_host r, sb_grant = gp_grant g,
                    sb_generation = gp_generation g, sb_expires = min expiresAt (gp_expires g)\<rparr>;
              b3 = bind_socket t ws sb b2;
              told = \<lparr>tr_key = vr_key v, tr_grant = vr_grant v, tr_record = vr_record v, tr_certificate = vr_certificate v\<rparr>;
              b4 = (if hr_role r = Primary then tell_peers ws fp (hr_server r) told b3 else b3)
          in (Inr (Inr \<lparr>rd_ttl = expiresAt - t, rd_expires = expiresAt, rd_hash = vr_hash v, rd_epoch = hr_epoch r,
                        rd_role = hr_role r\<rparr>), b4))"

record prove_frame =
  pf_request :: "string option"
  pf_challenge :: "string option"
  pf_proof :: "registration_proof signed option"

definition proveRegistration ::
    "bridge_env \<Rightarrow> bridge_io \<Rightarrow> socket \<Rightarrow> prove_frame \<Rightarrow> int \<Rightarrow> bridge \<Rightarrow> (exn + rerror + registered) \<times> bridge" where
  "proveRegistration e io ws fr t b =
     (case map_of (br_pending b) ws of
        None \<Rightarrow> (Inr (Inl (''unauthorized'', ''registration challenge required'')), b)
      | Some p \<Rightarrow>
          let b1 = clearPendingRegistration ws b
          in if pf_request fr \<noteq> Some (pd_request p) \<or> pf_challenge fr \<noteq> Some (pd_challenge p)
             then (Inr (Inl (''unauthorized'', ''registration challenge mismatch'')), b1)
             else if pd_expires p \<le> t \<or> \<not> validRegistrationProof e p (pf_proof fr) t
             then (Inr (Inl (''unauthorized'', ''invalid or expired registration proof'')), b1)
             else (case validateRegistration e \<lparr>rf_key = pd_key p, rf_grant = Some (pd_grant p), rf_record = Some (pd_record p),
                                               rf_certificate = pd_certificate p\<rparr> t b1 of
                     (Inl x, b2) \<Rightarrow> (Inl x, b2)
                   | (Inr (Inl err), b2) \<Rightarrow> (Inr (Inl err), b2)
                   | (Inr (Inr checked), b2) \<Rightarrow>
                       if vr_hash checked \<noteq> pd_hash p
                       then (Inr (Inl (''unauthorized'', ''registration transcript mismatch'')), b2)
                       else commitRegistration e io t ws checked b2))"

section \<open>Revocation\<close>

definition drop_revoked_records :: "string \<Rightarrow> int \<Rightarrow> (string \<times> stored_record) list \<Rightarrow> (string \<times> stored_record) list" where
  "drop_revoked_records grantId generation hosts =
     filter (\<lambda>h. \<not> (gp_grant (s_payload (sr_grant (snd h))) = grantId
                    \<and> gp_generation (s_payload (sr_grant (snd h))) \<le> generation)) hosts"

definition raise_marks :: "string \<Rightarrow> int \<Rightarrow> (string \<times> ledger_mark) list \<Rightarrow> (string \<times> ledger_mark) list" where
  "raise_marks grantId generation ms =
     map (\<lambda>(h, m). (h, if lm_grant m = grantId \<and> lm_generation m < generation then m\<lparr>lm_generation := generation\<rparr> else m)) ms"

definition at_key :: "string \<Rightarrow> ('v \<Rightarrow> 'v) \<Rightarrow> (string \<times> 'v) list \<Rightarrow> (string \<times> 'v) list" where
  "at_key k f m = map (\<lambda>(k', v). (k', if k' = k then f v else v)) m"

definition applyRevocation :: "int \<Rightarrow> string \<Rightarrow> string \<Rightarrow> revocation signed \<Rightarrow> bridge \<Rightarrow> bridge" where
  "applyRevocation t fp key rv b =
     (let p = s_payload rv; scope = authorityScope fp (rv_server p);
          rk = \<lparr>rk_at = rv_at p, rk_generation = rv_generation p, rk_key = key, rk_revocation = rv\<rparr>;
          b1 = b\<lparr>br_revoked := map_set scope (map_set (rv_grant p) rk (inner (br_revoked b) scope)) (br_revoked b),
                 br_records := at_key scope (drop_revoked_records (rv_grant p) (rv_generation p)) (br_records b),
                 br_marks := at_key scope (raise_marks (rv_grant p) (rv_generation p)) (br_marks b)\<rparr>
      in fold (\<lambda>(ws, sb) b. if sb_fingerprint sb = fp \<and> sb_server sb = rv_server p \<and> sb_grant sb = rv_grant p
                              \<and> sb_generation sb \<le> rv_generation p then unbindSocket t ws b else b) (br_socket_hosts b1) b1)"

definition accepted_generation :: "(string \<times> ledger_mark) list \<Rightarrow> string \<Rightarrow> int" where
  "accepted_generation ms grantId = foldr max (map lm_generation (filter (\<lambda>m. lm_grant m = grantId) (map snd ms))) 0"

definition revocation_text :: "revocation signed \<Rightarrow> string" where
  "revocation_text r = canonicalJson (signed_json revocation_json r)"

definition revoke ::
    "bridge_env \<Rightarrow> bridge_io \<Rightarrow> string \<Rightarrow> revocation signed option \<Rightarrow> bool \<Rightarrow> int \<Rightarrow> bridge
     \<Rightarrow> (exn + rerror + string \<times> int \<times> int) \<times> bridge" where
  "revoke e io key rv0 persist t b =
     (case (case rv0 of None \<Rightarrow> None | Some rv \<Rightarrow> verifySignedHostGrantRevocation e rv key) of
        None \<Rightarrow> (Inr (Inl (''unauthorized'', ''invalid grant revocation'')), b)
      | Some rv \<Rightarrow>
          (case publicKeyFingerprint e key of
             None \<Rightarrow> (Inr (Inl (''invalid_input'', ''invalid authority key'')), b)
           | Some fp \<Rightarrow>
               let p = s_payload rv; scope = authorityScope fp (rv_server p);
                   previous = map_of (inner (br_revoked b) scope) (rv_grant p);
                   accepted = (Inr (Inr (rv_grant p, rv_at p, rv_generation p)) :: exn + rerror + string \<times> int \<times> int)
               in if (case previous of None \<Rightarrow> False
                      | Some k \<Rightarrow> rv_generation p = rk_generation k \<and> rv_at p = rk_at k \<and> rk_key k = key
                                  \<and> revocation_text (rk_revocation k) = revocation_text rv)
                  then (accepted, b)
                  else if (case previous of None \<Rightarrow> False
                           | Some k \<Rightarrow> rv_generation p < rk_generation k \<or> (rv_generation p = rk_generation k \<and> rv_at p \<le> rk_at k))
                  then (Inr (Inl (conflict ''stale revocation'')), b)
                  else if rv_generation p \<le> accepted_generation (inner (br_marks b) scope) (rv_grant p)
                  then (Inr (Inl (conflict ''stale revocation generation'')), b)
                  else if \<not> persist then (accepted, applyRevocation t fp key rv b)
                  else if previous = None \<and> nested_size (br_revoked b) \<ge> MAX_DURABLE_ENTRIES
                  then (Inr (Inl (''unavailable'', ''revocation ledger capacity reached'')), b)
                  else let (ok, b1) = appendStateEvent e (io_append io) (EvRevocation key rv) b
                       in if \<not> ok then (Inr (Inl (''unavailable'', ''revocation state could not be persisted'')), b1)
                          else let (ok2, b2) = maybeCompactState e io t (applyRevocation t fp key rv b1)
                               in (if ok2 then accepted else Inl (AppError ''io''), b2)))"

section \<open>Resolving\<close>

definition by_epoch_role :: "stored_record comparison" where
  "by_epoch_role l r =
     (let a = s_payload (sr_record l); z = s_payload (sr_record r); n = (\<lambda>x. if hr_role x = Primary then 0 else 1)
      in if hr_epoch z \<noteq> hr_epoch a then hr_epoch z - hr_epoch a else n a - n z)"

definition by_generation_at :: "revocation_mark comparison" where
  "by_generation_at l r =
     (if rk_generation r \<noteq> rk_generation l then rk_generation r - rk_generation l else rk_at r - rk_at l)"

definition resolve :: "string \<Rightarrow> string \<Rightarrow> int \<Rightarrow> bridge \<Rightarrow> (rerror + resolution) \<times> bridge" where
  "resolve server authority t b0 =
     (if \<not> AuthorityFingerprintSchema authority
      then (Inl (''invalid_input'', ''authorityFingerprint required''), b0)
      else let b = cleanup t b0; scope = authorityScope authority server;
               hosts = js_sort by_epoch_role (filter (\<lambda>s. sr_fingerprint s = toLowerCase authority \<and> sr_expires s > t)
                         (map snd (inner (br_records b) scope)));
               revocations = js_sort by_generation_at (map snd (inner (br_revoked b) scope))
           in if hosts = [] \<and> revocations = [] then (Inl (''not_found'', ''no valid host record''), b)
              else (Inr \<lparr>rs_records = map (\<lambda>s. (sr_record s, sr_grant s, sr_key s)) hosts,
                         rs_revocations = map (\<lambda>k. (rk_key k, rk_revocation k)) revocations, rs_at = t\<rparr>, b))"

section \<open>Reading the state file\<close>

definition persistedHighWater :: "ledger_mark \<Rightarrow> bool" where
  "persistedHighWater m \<longleftrightarrow>
     AuthorityFingerprintSchema (lm_authority m) \<and> 1 \<le> length (lm_host m) \<and> length (lm_host m) \<le> 128
     \<and> is_safe_integer (lm_epoch m) \<and> 0 \<le> lm_epoch m \<and> is_safe_integer (lm_seq m) \<and> 1 \<le> lm_seq m
     \<and> Hex64Schema (lm_hash m) \<and> is_safe_integer (lm_generation m) \<and> 1 \<le> lm_generation m"

definition persistedPromotionVote :: "vote_mark \<Rightarrow> bool" where
  "persistedPromotionVote v \<longleftrightarrow>
     AuthorityFingerprintSchema (vm_authority v) \<and> 1 \<le> length (vm_server v) \<and> length (vm_server v) \<le> 128
     \<and> is_safe_integer (vm_epoch v) \<and> 1 \<le> vm_epoch v
     \<and> 1 \<le> length (vm_candidate v) \<and> length (vm_candidate v) \<le> 128 \<and> 1 \<le> length (vm_primary v) \<and> length (vm_primary v) \<le> 128
     \<and> Hex64Schema (vm_record_hash v) \<and> is_safe_integer (vm_granted v) \<and> 1 \<le> vm_granted v"

definition stored_access_key :: "string \<Rightarrow> string" where
  "stored_access_key k = (if strip_slot k \<noteq> k then k else k @ '':registration'')"

text \<open>One event read back; \<open>None\<close> where the code throws.\<close>

fun apply_event :: "bridge_env \<Rightarrow> int \<Rightarrow> ledger_event \<Rightarrow> bridge \<Rightarrow> bridge option" where
  "apply_event e t (EvHighWater m) b =
     (if \<not> persistedHighWater m then None
      else case applyHighWaterMark m b of (ok, b1) \<Rightarrow> if ok then Some b1 else None)"
| "apply_event e t (EvVote v) b =
     (if \<not> persistedPromotionVote v then None
      else case applyPromotionVote v b of (ok, b1) \<Rightarrow> if ok then Some b1 else None)"
| "apply_event e t (EvRevocation key rv) b =
     (case revoke e \<lparr>io_pairing = Synced, io_append = Synced, io_big = False, io_compact = Compacted\<rparr> key (Some rv) False t b of
        (Inr (Inr _), b1) \<Rightarrow> Some b1
      | _ \<Rightarrow> None)"
| "apply_event e t (EvAccess key a) b =
     (if \<not> Hex64Schema (ha_token a) \<or> \<not> is_safe_integer (ha_generation a) \<or> \<not> is_safe_integer (ha_expires a) then None
      else Some (b\<lparr>br_proofs := map_set (ha_proof a) (ha_expires a) (br_proofs b),
                   br_access := map_set (stored_access_key key) a (br_access b)\<rparr>))"
| "apply_event e t (EvPairing p) b =
     (if \<not> Hex64Schema (pc_token p) \<or> \<not> AuthorityFingerprintSchema (pc_authority p) \<or> \<not> is_safe_integer (pc_consumed p)
         \<or> \<not> is_safe_integer (pc_expires p) then None
      else Some (b\<lparr>br_pairings := map_set (pc_token p) p (br_pairings b)\<rparr>))"

fun load_lines :: "bridge_env \<Rightarrow> int \<Rightarrow> ledger_line option list \<Rightarrow> bridge \<Rightarrow> bridge option" where
  "load_lines e t [] b = Some b"
| "load_lines e t (None # ls) b = None"
| "load_lines e t (Some l # ls) b =
     (if ll_version l \<noteq> 1 \<or> ll_seq l \<noteq> br_seq b + 1 \<or> ll_previous l \<noteq> br_hash b
         \<or> ll_hash l \<noteq> line_hash e (ll_version l) (ll_seq l) (ll_previous l) (ll_event l) then None
      else case apply_event e t (ll_event l) b of
             None \<Rightarrow> None
           | Some b1 \<Rightarrow> load_lines e t ls (b1\<lparr>br_seq := ll_seq l, br_hash := Some (ll_hash l)\<rparr>))"

text \<open>A torn last line is cut off.\<close>

definition loadRendezvousState :: "bridge_env \<Rightarrow> int \<Rightarrow> bridge \<Rightarrow> bridge option" where
  "loadRendezvousState e t b =
     (if \<not> be_state_file e then Some b
      else load_lines e t (br_file b) (b\<lparr>br_torn := False, br_seq := 0, br_hash := None\<rparr>))"

end
