(* ===== verification/BridgeVotes.thy ===== *)
theory BridgeVotes
  imports BridgeCommit
begin

text \<open>
  A bridge as witness of the primary's absence and as voter in an election (\<open>witnessPrimary\<close>, \<open>claimPromotionVote\<close> of
  \<open>apps/rendezvous/src/main.ts\<close>).
\<close>

definition by_epoch_seq :: "ledger_mark comparison" where
  "by_epoch_seq l r = (if lm_epoch r \<noteq> lm_epoch l then lm_epoch r - lm_epoch l else lm_seq r - lm_seq l)"

definition known_primary :: "(string \<times> ledger_mark) list \<Rightarrow> ledger_mark option" where
  "known_primary ms =
     (case js_sort by_epoch_seq (filter (\<lambda>m. lm_role m = Some Primary) (map snd ms)) of [] \<Rightarrow> None | m # _ \<Rightarrow> Some m)"

text \<open>\<open>Math.max(minimumGrace, Number(...))\<close>; not a number if the variable is none.\<close>

definition absenceGraceMs :: "bridge_env \<Rightarrow> int option" where
  "absenceGraceMs e = map_option (max (if be_production e then 20000 else 10)) (be_grace e)"

text \<open>A disconnect at time 0 does not count, and nothing is less than a value that is no number.\<close>

definition primary_present :: "bridge_env \<Rightarrow> bridge \<Rightarrow> string \<Rightarrow> int \<Rightarrow> bool" where
  "primary_present e b primaryKey t \<longleftrightarrow>
     (case map_of (br_host_sockets b) primaryKey of None \<Rightarrow> False | Some ws \<Rightarrow> ws \<in> set (br_open b))
     \<or> (case map_of (br_disconnected b) primaryKey of
          None \<Rightarrow> True
        | Some d \<Rightarrow> d = 0 \<or> (case absenceGraceMs e of None \<Rightarrow> False | Some grace \<Rightarrow> t - d < grace))"

section \<open>Witnessing\<close>

record witness_proof =
  wp_expires :: int
  wp_grant :: string
  wp_issued :: int
  wp_nonce :: string
  wp_primary :: string
  wp_replica :: string
  wp_server :: string

definition witness_proof_json :: "witness_proof \<Rightarrow> json" where
  "witness_proof_json p = JObj
     [(''version'', JNum 1), (''serverId'', JStr (wp_server p)), (''grantId'', JStr (wp_grant p)),
      (''replicaHostId'', JStr (wp_replica p)), (''primaryHostId'', JStr (wp_primary p)), (''nonce'', JStr (wp_nonce p)),
      (''issuedAt'', JNum (wp_issued p)), (''expiresAt'', JNum (wp_expires p))]"

record witness_frame =
  wf_request :: "string option"
  wf_key :: "string option"
  wf_grant :: "grant_payload signed option"
  wf_proof :: "witness_proof signed option"
  wf_token :: "string option"

definition witness_proof_ok ::
    "bridge_env \<Rightarrow> bridge \<Rightarrow> string \<Rightarrow> string option \<Rightarrow> grant_payload \<Rightarrow> witness_proof signed \<Rightarrow> int \<Rightarrow> bool" where
  "witness_proof_ok e b fp token g pr t \<longleftrightarrow>
     (let p = s_payload pr in
        canonical_bytes (s_key pr) 32 \<and> canonical_bytes (s_signature pr) 64 \<and> s_key pr = gp_device_key g
        \<and> wp_server p = gp_server g \<and> wp_grant p = gp_grant g \<and> wp_replica p = gp_host g
        \<and> wp_nonce p \<notin> set (br_nonces b)
        \<and> is_safe_integer (wp_issued p) \<and> is_safe_integer (wp_expires p)
        \<and> wp_issued p \<ge> t - 10000 \<and> wp_issued p \<le> t + REGISTRATION_PROOF_CLOCK_SKEW_MS
        \<and> wp_expires p > t \<and> wp_expires p \<le> wp_issued p + 30000
        \<and> \<not> grant_revoked b (authorityScope fp (gp_server g)) g
        \<and> (case map_of (br_access b) (hostAccessKey fp (gp_server g) (gp_host g) ''witness'') of
             None \<Rightarrow> False
           | Some a \<Rightarrow>
               ha_expires a > t \<and> ha_grant a = gp_grant g \<and> ha_generation a = gp_generation g
               \<and> ha_token a = (case token of None \<Rightarrow> [] | Some tok \<Rightarrow> sha256Hex e tok))
        \<and> verifyCanonicalPayload e (s_key pr) REPLICA_WITNESS_DOMAIN (witness_proof_json p) (s_signature pr))"

definition witnessPrimary ::
    "bridge_env \<Rightarrow> witness_frame \<Rightarrow> int \<Rightarrow> bridge \<Rightarrow> (exn + rerror + bridge_witness signed) \<times> bridge" where
  "witnessPrimary e fr t b =
     (let denied = (Inr (Inl (''unauthorized'', ''valid pairing and active promote grant proof required'')), b);
          key = text_or_empty (wf_key fr)
      in case (case wf_grant fr of None \<Rightarrow> None | Some g \<Rightarrow> verifySignedHostGrant e g key t, publicKeyFingerprint e key, wf_proof fr) of
           (Some grant, Some fp, Some pr) \<Rightarrow>
             let g = s_payload grant in
             if text_or_empty (wf_request fr) = [] \<or> Promote \<notin> set (gp_caps g)
                \<or> \<not> witness_proof_ok e b fp (wf_token fr) g pr t then denied
             else (case known_primary (inner (br_marks b) (authorityScope fp (gp_server g))) of
                     None \<Rightarrow> denied
                   | Some primary \<Rightarrow>
                       if wp_primary (s_payload pr) \<noteq> lm_host primary then denied
                       else let b1 = b\<lparr>br_nonces := js_add (wp_nonce (s_payload pr)) (br_nonces b)\<rparr>;
                                online = primary_present e b1 (hostBindingKey fp (gp_server g) (lm_host primary)) t
                            in (case signing_material e t b1 of
                                  (Inl x, b2) \<Rightarrow> (Inl x, b2)
                                | (Inr None, b2) \<Rightarrow> (Inr (Inl (''unavailable'', ''bridge witness signing is unavailable'')), b2)
                                | (Inr (Some (d, seed)), b2) \<Rightarrow>
                                    (case createSignedBridgeWitness e
                                       \<lparr>bw_bridge = bd_bridge (s_payload d), bw_request = text_or_empty (wf_request fr),
                                        bw_server = gp_server g, bw_replica = gp_host g, bw_primary = lm_host primary,
                                        bw_record_hash = lm_hash primary, bw_epoch = lm_epoch primary, bw_online = online,
                                        bw_observed = t, bw_expires = t + 5000\<rparr> seed of
                                       Inl x \<Rightarrow> (Inl x, b2)
                                     | Inr w \<Rightarrow> (Inr (Inr w), b2))))
         | _ \<Rightarrow> denied)"

section \<open>Voting\<close>

record claim_frame =
  cm_request :: "string option"
  cm_witness :: "bridge_witness signed option"
  cm_authority :: string

definition vote_for :: "string \<Rightarrow> bridge_witness \<Rightarrow> int \<Rightarrow> vote_mark" where
  "vote_for fp p t =
     \<lparr>vm_authority = fp, vm_server = bw_server p, vm_epoch = bw_epoch p + 1, vm_candidate = bw_replica p,
      vm_primary = bw_primary p, vm_record_hash = bw_record_hash p, vm_granted = t\<rparr>"

text \<open>The vote of this election: the one kept, or a new one made durable first.\<close>

definition durable_vote ::
    "bridge_env \<Rightarrow> bridge_io \<Rightarrow> int \<Rightarrow> vote_mark \<Rightarrow> vote_mark option \<Rightarrow> bridge \<Rightarrow> (exn + rerror + vote_mark) \<times> bridge" where
  "durable_vote e io t vote existing b =
     (case existing of
        Some v \<Rightarrow> (Inr (Inr v), b)
      | None \<Rightarrow>
          if durableEntryCount b \<ge> MAX_DURABLE_ENTRIES
          then (Inr (Inl (''unavailable'', ''promotion vote ledger capacity reached'')), b)
          else let (ok, b1) = appendStateEvent e (io_append io) (EvVote vote) b
               in if \<not> ok then (Inr (Inl (''unavailable'', ''promotion vote could not be persisted'')), b1)
                  else let (applied, b2) = applyPromotionVote vote b1
                       in if \<not> applied then (Inr (Inl (conflict ''promotion vote changed concurrently'')), b2)
                          else let (ok2, b3) = maybeCompactState e io t b2
                               in (if ok2 then Inr (Inr vote) else Inl (AppError ''io''), b3))"

definition vote_receipt :: "string \<Rightarrow> string \<Rightarrow> bridge_witness \<Rightarrow> int \<Rightarrow> vote_mark \<Rightarrow> promotion_vote" where
  "vote_receipt bridgeId requestId p t vote =
     \<lparr>pv_bridge = bridgeId, pv_candidate = vm_candidate vote, pv_election = vm_epoch vote, pv_expires = t + 24 * 3600000,
      pv_issued = t, pv_primary_epoch = bw_epoch p, pv_primary = vm_primary vote, pv_record_hash = vm_record_hash vote,
      pv_request = requestId, pv_server = vm_server vote, pv_granted = vm_granted vote\<rparr>"

definition claimPromotionVote ::
    "bridge_env \<Rightarrow> bridge_io \<Rightarrow> claim_frame \<Rightarrow> int \<Rightarrow> bridge \<Rightarrow> (exn + rerror + promotion_vote signed) \<times> bridge" where
  "claimPromotionVote e io fr t b0 =
     (if text_or_empty (cm_request fr) = [] then (Inr (Inl (''invalid_input'', ''requestId required'')), b0)
      else case signing_material e t b0 of
             (Inl x, b) \<Rightarrow> (Inl x, b)
           | (Inr None, b) \<Rightarrow> (Inr (Inl (''unavailable'', ''bridge promotion signing is unavailable'')), b)
           | (Inr (Some (d, seed)), b) \<Rightarrow>
               (case (case cm_witness fr of None \<Rightarrow> None | Some w \<Rightarrow> verifySignedBridgeWitness e w d t) of
                  None \<Rightarrow> (Inr (Inl (''unauthorized'', ''fresh bridge absence witness required'')), b)
                | Some w \<Rightarrow>
                    let p = s_payload w; fp = toLowerCase (cm_authority fr); scope = authorityScope fp (bw_server p);
                        existing = map_of (br_votes b) (promotionVoteKey fp (bw_server p) (bw_epoch p + 1))
                    in if bw_bridge p \<noteq> bd_bridge (s_payload d) \<or> bw_online p
                       then (Inr (Inl (''unauthorized'', ''fresh bridge absence witness required'')), b)
                       else if \<not> AuthorityFingerprintSchema fp
                       then (Inr (Inl (''invalid_input'', ''authorityFingerprint required'')), b)
                       else if (case existing of None \<Rightarrow> False
                                | Some v \<Rightarrow> vm_candidate v \<noteq> bw_replica p \<or> vm_primary v \<noteq> bw_primary p
                                           \<or> vm_record_hash v \<noteq> bw_record_hash p)
                       then (Inr (Inl (conflict ''bridge already voted for another candidate in this election epoch'')), b)
                       else if (case known_primary (inner (br_marks b) scope) of None \<Rightarrow> True
                                | Some k \<Rightarrow> lm_host k \<noteq> bw_primary p \<or> lm_hash k \<noteq> bw_record_hash p \<or> lm_epoch k \<noteq> bw_epoch p)
                       then (Inr (Inl (conflict ''primary checkpoint changed before promotion vote'')), b)
                       else if primary_present e b (hostBindingKey fp (bw_server p) (bw_primary p)) t
                       then (Inr (Inl (conflict ''primary is online or its fencing grace has not elapsed'')), b)
                       else (case durable_vote e io t (vote_for fp p t) existing b of
                               (Inl x, b1) \<Rightarrow> (Inl x, b1)
                             | (Inr (Inl err), b1) \<Rightarrow> (Inr (Inl err), b1)
                             | (Inr (Inr vote), b1) \<Rightarrow>
                                 let receipt = vote_receipt (bd_bridge (s_payload d)) (text_or_empty (cm_request fr)) p t vote
                                 in (case signCanonicalPayload e seed PROMOTION_VOTE_DOMAIN (promotion_vote_json receipt) of
                                       Inl x \<Rightarrow> (Inl x, b1)
                                     | Inr sig \<Rightarrow>
                                         (Inr (Inr \<lparr>s_payload = receipt, s_key = s_key d, s_signature = sig\<rparr>), b1)))))"

end
