(* ===== verification/Signaling.thy ===== *)
theory Signaling
  imports Bridge
begin

text \<open>
  Signaling between a client and a host over a bridge, TURN credentials, and the limits on frames
  (\<open>apps/rendezvous/src/main.ts\<close>). Payloads are JSON values; lengths are counted in the characters of their text.
\<close>

section \<open>Frames\<close>

definition MAX_SIGNAL_FRAME_BYTES :: nat where "MAX_SIGNAL_FRAME_BYTES = 56 * 1024"
definition MAX_SIGNAL_SDP_BYTES :: nat where "MAX_SIGNAL_SDP_BYTES = 48 * 1024"
definition MAX_SIGNAL_CANDIDATE_BYTES :: nat where "MAX_SIGNAL_CANDIDATE_BYTES = 4 * 1024"
definition MAX_SIGNAL_MID_BYTES :: nat where "MAX_SIGNAL_MID_BYTES = 64"
definition MAX_RENDEZVOUS_FRAME_BYTES :: nat where "MAX_RENDEZVOUS_FRAME_BYTES = 64 * 1024"
definition MAX_FRAME_DEPTH :: nat where "MAX_FRAME_DEPTH = 8"
definition MAX_FRAME_NODES :: nat where "MAX_FRAME_NODES = 512"
definition MAX_OBJECT_KEYS :: nat where "MAX_OBJECT_KEYS = 64"

text \<open>The visit counts nodes as it goes and stops at the first violation.\<close>

fun visit :: "json \<Rightarrow> nat \<Rightarrow> nat \<Rightarrow> bool \<times> nat"
  and visit_items :: "json list \<Rightarrow> nat \<Rightarrow> nat \<Rightarrow> bool \<times> nat"
  and visit_entries :: "(string \<times> json) list \<Rightarrow> nat \<Rightarrow> nat \<Rightarrow> bool \<times> nat" where
  "visit item depth nodes0 =
     (let nodes = Suc nodes0 in
      if nodes > MAX_FRAME_NODES \<or> depth > MAX_FRAME_DEPTH then (False, nodes)
      else case item of
             JNull \<Rightarrow> (True, nodes)
           | JBool _ \<Rightarrow> (True, nodes)
           | JNum _ \<Rightarrow> (True, nodes)
           | JStr s \<Rightarrow> (length s \<le> MAX_RENDEZVOUS_FRAME_BYTES, nodes)
           | JArr xs \<Rightarrow> if length xs \<le> MAX_OBJECT_KEYS then visit_items xs (Suc depth) nodes else (False, nodes)
           | JObj o1 \<Rightarrow> if length o1 \<le> MAX_OBJECT_KEYS then visit_entries o1 (Suc depth) nodes else (False, nodes))"
| "visit_items [] depth nodes = (True, nodes)"
| "visit_items (x # xs) depth nodes =
     (case visit x depth nodes of (ok, nodes') \<Rightarrow> if ok then visit_items xs depth nodes' else (False, nodes'))"
| "visit_entries [] depth nodes = (True, nodes)"
| "visit_entries ((k, x) # xs) depth nodes =
     (if length k > 128 then (False, nodes)
      else case visit x depth nodes of (ok, nodes') \<Rightarrow> if ok then visit_entries xs depth nodes' else (False, nodes'))"

definition isBoundedFrameStructure :: "json \<Rightarrow> bool" where
  "isBoundedFrameStructure v = fst (visit v 0 0)"

section \<open>Payloads\<close>

definition boundedSignalString :: "json option \<Rightarrow> nat \<Rightarrow> bool" where
  "boundedSignalString v maxBytes \<longleftrightarrow>
     (case v of Some (JStr s) \<Rightarrow> CHR 0x00 \<notin> set s \<and> length s \<le> maxBytes | _ \<Rightarrow> False)"

definition nonempty_string :: "json option \<Rightarrow> bool" where
  "nonempty_string v \<longleftrightarrow> (case v of Some (JStr s) \<Rightarrow> s \<noteq> [] | _ \<Rightarrow> False)"

definition string_starts :: "json option \<Rightarrow> string \<Rightarrow> bool" where
  "string_starts v p \<longleftrightarrow> (case v of Some (JStr s) \<Rightarrow> starts_with s p | _ \<Rightarrow> False)"

text \<open>\<open>/^(?:a=)?candidate:/i\<close>\<close>

definition candidate_line :: "json option \<Rightarrow> bool" where
  "candidate_line v \<longleftrightarrow>
     (case v of Some (JStr s) \<Rightarrow> starts_with (toLowerCase s) ''candidate:'' \<or> starts_with (toLowerCase s) ''a=candidate:'' | _ \<Rightarrow> False)"

definition mid_char :: "char \<Rightarrow> bool" where
  "mid_char ch \<longleftrightarrow> ch \<in> set ''ABCDEFGHIJKLMNOPQRSTUVWXYZabcdefghijklmnopqrstuvwxyz0123456789_.:-''"

definition mid_text :: "json option \<Rightarrow> bool" where
  "mid_text v \<longleftrightarrow> (case v of Some (JStr s) \<Rightarrow> list_all mid_char s | _ \<Rightarrow> False)"

text \<open>\<open>String(value)\<close>\<close>

fun js_String :: "json \<Rightarrow> string" where
  "js_String JNull = ''null''"
| "js_String (JBool x) = (if x then ''true'' else ''false'')"
| "js_String (JNum n) = show_int n"
| "js_String (JStr s) = s"
| "js_String (JArr xs) = join '','' (map (\<lambda>x. if x = JNull then [] else js_String x) xs)"
| "js_String (JObj o1) = ''[object Object]''"

definition payload_type :: "(string \<times> json) list \<Rightarrow> string option" where
  "payload_type o1 = (case obj_get ''type'' o1 of Some (JStr s) \<Rightarrow> Some s | _ \<Rightarrow> None)"

definition isValidSignalingPayload :: "string \<Rightarrow> json \<Rightarrow> bool" where
  "isValidSignalingPayload type v \<longleftrightarrow>
     (case v of
        JObj o1 \<Rightarrow>
          let f = (\<lambda>k. obj_get k o1); kind = payload_type o1;
              bound_host = (boundedSignalString (f ''serverId'') 128 \<and> nonempty_string (f ''serverId'')
                            \<and> boundedSignalString (f ''hostId'') 128 \<and> nonempty_string (f ''hostId''))
          in if length (json_text v) > MAX_SIGNAL_FRAME_BYTES then False
             else if kind = Some ''ice.request''
             then type = ''signal.open'' \<and> bound_host \<and> (case f ''accessProof'' of Some (JObj _) \<Rightarrow> True | _ \<Rightarrow> False)
             else if kind = Some ''offer'' \<or> kind = Some ''answer''
             then type = (if kind = Some ''offer'' then ''signal.open'' else ''signal.relay'')
                  \<and> boundedSignalString (f ''sdp'') MAX_SIGNAL_SDP_BYTES \<and> string_starts (f ''sdp'') ''v=0''
             else if kind = Some ''candidate''
             then type = ''signal.relay'' \<and> boundedSignalString (f ''candidate'') MAX_SIGNAL_CANDIDATE_BYTES
                  \<and> candidate_line (f ''candidate'')
                  \<and> (f ''mid'' = None \<or> (boundedSignalString (f ''mid'') MAX_SIGNAL_MID_BYTES \<and> mid_text (f ''mid'')))
             else if kind = Some ''ice.refresh'' then type = ''signal.relay'' \<and> bound_host
             else if kind = Some ''ice.config''
             then type = ''signal.relay'' \<and> (case f ''networkPrivacy'' of None \<Rightarrow> False | Some x \<Rightarrow> js_String x \<in> {''direct'', ''relay''})
             else if kind = Some ''ice.error''
             then type = ''signal.relay'' \<and> boundedSignalString (f ''code'') 64 \<and> nonempty_string (f ''code'')
             else False
      | _ \<Rightarrow> False)"

section \<open>Sessions\<close>

definition signalingAdmissionReason ::
    "bridge_env \<Rightarrow> signaling_session list \<Rightarrow> socket \<Rightarrow> socket \<Rightarrow> string option" where
  "signalingAdmissionReason e sessions host client =
     (if length sessions \<ge> be_max_sessions e then Some ''global_capacity''
      else if length (filter (\<lambda>s. ss_host s = host) sessions) \<ge> be_max_per_host e then Some ''host_capacity''
      else if length (filter (\<lambda>s. ss_client s = client) sessions) \<ge> be_max_per_client e then Some ''client_capacity''
      else None)"

definition isSignalingSessionContinuation :: "signaling_session \<Rightarrow> socket \<Rightarrow> socket \<Rightarrow> bool" where
  "isSignalingSessionContinuation s host client \<longleftrightarrow> ss_host s = host \<and> ss_client s = client"

record signal_frame =
  sf_type :: string
  sf_session :: string
  sf_payload :: "json option"
  sf_server :: string
  sf_authority :: string
  sf_host :: string

definition signalingPayload :: "signal_frame \<Rightarrow> (json \<times> string) option" where
  "signalingPayload fr =
     (case sf_payload fr of Some (JObj o1) \<Rightarrow> map_option (\<lambda>k. (JObj o1, k)) (payload_type o1) | _ \<Rightarrow> None)"

definition field_is :: "json \<Rightarrow> string \<Rightarrow> string \<Rightarrow> bool" where
  "field_is v k s \<longleftrightarrow> (case v of JObj o1 \<Rightarrow> obj_get k o1 = Some (JStr s) | _ \<Rightarrow> False)"

definition invalid_input :: "string \<Rightarrow> rerror" where "invalid_input message = (''invalid_input'', message)"

definition touch_session :: "string \<Rightarrow> signaling_session \<Rightarrow> bridge \<Rightarrow> bridge" where
  "touch_session sid s b = b\<lparr>br_sessions := map_set sid s (br_sessions b)\<rparr>"

definition capacity_message :: "string \<Rightarrow> string" where
  "capacity_message reason = ''signaling '' @ map (\<lambda>ch. if ch = CHR ''_'' then CHR '' '' else ch) reason @ '' reached''"

text \<open>\<open>signal.open\<close>: a client asks a host, or goes on once the host has answered.\<close>

definition open_signal :: "bridge_env \<Rightarrow> socket \<Rightarrow> signal_frame \<Rightarrow> (json \<times> string) option \<Rightarrow> int \<Rightarrow> bridge \<Rightarrow> (rerror + string) \<times> bridge" where
  "open_signal e ws fr payload t b =
     (case payload of
        None \<Rightarrow> (Inl (invalid_input ''invalid signaling open payload''), b)
      | Some (pl, kind) \<Rightarrow>
          let sid = sf_session fr; fp = toLowerCase (sf_authority fr) in
          if \<not> isValidSignalingPayload ''signal.open'' pl then (Inl (invalid_input ''invalid signaling open payload''), b)
          else if \<not> AuthorityFingerprintSchema fp then (Inl (invalid_input ''authority fingerprint required''), b)
          else case map_of (br_host_sockets b) (hostBindingKey fp (sf_server fr) (sf_host fr)) of
                 None \<Rightarrow> (Inl (''not_found'', ''host signaling socket unavailable''), b)
               | Some host \<Rightarrow>
                   if host \<notin> set (br_open b) then (Inl (''not_found'', ''host signaling socket unavailable''), b)
                   else (case map_of (br_sessions b) sid of
                           Some s \<Rightarrow>
                             if \<not> isSignalingSessionContinuation s host ws
                             then (Inl (''conflict'', ''signaling session already exists''), b)
                             else if \<not> ss_authorized s \<or> kind \<noteq> ''offer''
                             then (Inl (''unauthorized'', ''authenticated ice.request required before offer''), b)
                             else (Inr sid, br_reply host (FSignal ''signal.open'' sid pl)
                                     (touch_session sid (s\<lparr>ss_expires := t + SIGNAL_SESSION_TTL_MS\<rparr>) b))
                         | None \<Rightarrow>
                             if kind \<noteq> ''ice.request''
                             then (Inl (''unauthorized'', ''ice.request required before signaling''), b)
                             else if \<not> field_is pl ''serverId'' (sf_server fr) \<or> \<not> field_is pl ''hostId'' (sf_host fr)
                             then (Inl (invalid_input ''ice.request host binding mismatch''), b)
                             else (case signalingAdmissionReason e (map snd (br_sessions b)) host ws of
                                     Some reason \<Rightarrow> (Inl (''rate_limited'', capacity_message reason), b)
                                   | None \<Rightarrow>
                                       (Inr sid, br_reply host (FSignal ''signal.open'' sid pl)
                                          (touch_session sid \<lparr>ss_host = host, ss_client = ws, ss_expires = t + SIGNAL_SESSION_TTL_MS,
                                                             ss_authorized = False\<rparr> b)))))"

text \<open>\<open>signal.relay\<close>: between the two ends of a session, each kind of payload in its direction.\<close>

definition relay_payload :: "socket \<Rightarrow> string \<Rightarrow> signaling_session \<Rightarrow> json \<Rightarrow> string \<Rightarrow> int \<Rightarrow> bridge \<Rightarrow> (rerror + string) \<times> bridge" where
  "relay_payload ws sid s pl kind t b =
     (let fromHost = (ws = ss_host s);
          allowed = (if fromHost then kind \<in> {''ice.config'', ''ice.error'', ''answer'', ''candidate''}
                     else kind \<in> {''candidate'', ''ice.refresh''})
      in if \<not> allowed then (Inl (''unauthorized'', ''signaling direction is not allowed''), b)
         else if \<not> ss_authorized s \<and> \<not> (fromHost \<and> kind \<in> {''ice.config'', ''ice.error''})
         then (Inl (''unauthorized'', ''authenticated ice.request required before relay''), b)
         else let s1 = s\<lparr>ss_authorized := (ss_authorized s \<or> (fromHost \<and> kind = ''ice.config'')),
                         ss_expires := t + SIGNAL_SESSION_TTL_MS\<rparr>;
                  peer = (if fromHost then ss_client s else ss_host s);
                  b1 = br_reply peer (FSignal ''signal.relay'' sid pl) (touch_session sid s1 b)
              in (Inr sid, if fromHost \<and> kind = ''ice.error'' then b1\<lparr>br_sessions := map_del sid (br_sessions b1)\<rparr> else b1))"

definition relaySignal :: "bridge_env \<Rightarrow> socket \<Rightarrow> signal_frame \<Rightarrow> int \<Rightarrow> bridge \<Rightarrow> (rerror + string) \<times> bridge" where
  "relaySignal e ws fr t b =
     (let type = sf_type fr; sid = sf_session fr; payload = signalingPayload fr in
      if type \<notin> {''signal.open'', ''signal.relay'', ''signal.close''}
      then (Inl (invalid_input ''unsupported signaling frame''), b)
      else if \<not> (16 \<le> length sid \<and> length sid \<le> 128 \<and> list_all session_char sid)
      then (Inl (invalid_input ''invalid sessionId''), b)
      else if length (json_text (case sf_payload fr of None \<Rightarrow> JNull | Some v \<Rightarrow> v)) > MAX_SIGNAL_FRAME_BYTES
      then (Inl (invalid_input ''signaling payload too large''), b)
      else if type = ''signal.open'' then open_signal e ws fr payload t b
      else case map_of (br_sessions b) sid of
             None \<Rightarrow> (Inl (''unauthorized'', ''unknown signaling session''), b)
           | Some s \<Rightarrow>
               if ws \<noteq> ss_host s \<and> ws \<noteq> ss_client s then (Inl (''unauthorized'', ''unknown signaling session''), b)
               else if type = ''signal.close'' then (Inr sid, snd (closeSignalingSession sid (Some ws) ''closed'' b))
               else (case payload of
                       None \<Rightarrow> (Inl (invalid_input ''invalid signaling relay payload''), b)
                     | Some (pl, kind) \<Rightarrow>
                         if \<not> isValidSignalingPayload ''signal.relay'' pl
                         then (Inl (invalid_input ''invalid signaling relay payload''), b)
                         else relay_payload ws sid s pl kind t b))"

section \<open>TURN credentials\<close>

definition MAX_TURN_TTL_SECONDS :: int where "MAX_TURN_TTL_SECONDS = 600"

definition issueTurnCredentials ::
    "bridge_env \<Rightarrow> string \<Rightarrow> string \<Rightarrow> string \<Rightarrow> string \<Rightarrow> int option \<Rightarrow> int \<Rightarrow> rerror + turn_credentials" where
  "issueTurnCredentials e random serverId hostId subject ttl t =
     (case be_turn_secret e of
        None \<Rightarrow> Inl (''unavailable'', ''TURN issuer is not configured'')
      | Some secret \<Rightarrow>
          let ttlSeconds = max 60 (min MAX_TURN_TTL_SECONDS (case ttl of None \<Rightarrow> 300 | Some n \<Rightarrow> n));
              expires = t div 1000 + ttlSeconds;
              opaque = take 24 (sha256Hex e (serverId @ NUL @ hostId @ NUL @ subject @ NUL @ random));
              username = show_int expires @ '':'' @ opaque
          in Inr \<lparr>tc_username = username, tc_credential = hmac_sha1_base64 e secret username, tc_expires = expires * 1000,
                  tc_urls = [''stun:'' @ be_domain e @ '':'' @ be_turn_port e,
                             ''turn:'' @ be_domain e @ '':'' @ be_turn_port e @ ''?transport=udp'',
                             ''turns:'' @ be_domain e @ '':'' @ be_turn_tls_port e @ ''?transport=tcp'']\<rparr>)"

section \<open>Rate and origin\<close>

definition rateLimited :: "bridge_env \<Rightarrow> string \<Rightarrow> int \<Rightarrow> bridge \<Rightarrow> bool \<times> bridge" where
  "rateLimited e ip t b =
     (let fresh = (False, b\<lparr>br_rate := map_set ip \<lparr>wc_count = 1, wc_start = t\<rparr> (br_rate b)\<rparr>)
      in case map_of (br_rate b) ip of
           None \<Rightarrow> fresh
         | Some w \<Rightarrow>
             if t - wc_start w > RATE_WINDOW_MS then fresh
             else (wc_count w + 1 > be_rate_limit e, b\<lparr>br_rate := map_set ip (w\<lparr>wc_count := wc_count w + 1\<rparr>) (br_rate b)\<rparr>))"

definition js_space :: "char \<Rightarrow> bool" where
  "js_space ch \<longleftrightarrow> ch = CHR '' '' \<or> ch \<in> {CHR 0x09, CHR 0x0A, CHR 0x0B, CHR 0x0C, CHR 0x0D, CHR 0xA0}"

definition js_trim :: "string \<Rightarrow> string" where
  "js_trim s = rev (dropWhile js_space (rev (dropWhile js_space s)))"

fun split_commas :: "string \<Rightarrow> string \<Rightarrow> string list" where
  "split_commas acc [] = [acc]"
| "split_commas acc (ch # s) = (if ch = CHR '','' then acc # split_commas [] s else split_commas (acc @ [ch]) s)"

text \<open>\<open>forwardedFor\<close> is \<open>None\<close> unless it is one text.\<close>

definition resolveClientIp :: "bridge_env \<Rightarrow> string option \<Rightarrow> string option \<Rightarrow> string \<Rightarrow> string" where
  "resolveClientIp e remoteAddress forwardedFor trustedProxyList =
     (let addr = (case remoteAddress of None \<Rightarrow> ''unknown'' | Some a \<Rightarrow> a);
          remote = (case strip_prefix ''::ffff:'' addr of Some r \<Rightarrow> r | None \<Rightarrow> addr);
          trusted = filter (is_ip e) (map js_trim (split_commas [] trustedProxyList))
      in if remote \<notin> set trusted then remote
         else case forwardedFor of
                None \<Rightarrow> remote
              | Some h \<Rightarrow>
                  if js_trim h \<noteq> h \<or> CHR '','' \<in> set (js_trim h) \<or> \<not> is_ip e (js_trim h) then remote else js_trim h)"

end
