(* ===== verification/BridgeServer.thy ===== *)
theory BridgeServer
  imports BridgeVotes Signaling Transitions
begin

text \<open>
  The bridge as a server (\<open>startRendezvous\<close> and \<open>handleRendezvousFrame\<close> of \<open>apps/rendezvous/src/main.ts\<close>): one frame of a
  socket, a socket that comes or goes, the periodic clean-up, and the end of the process with a new start from the state
  file. \<open>bridge_step\<close> is one of these at any time, whatever the file system does with the writes; \<open>whole_step\<close> one whose
  writes are done as a whole or not at all.
\<close>

record turn_frame =
  tf_request :: "string option"
  tf_server :: "string option"
  tf_host :: "string option"
  tf_subject :: "string option"
  tf_ttl :: "int option"

text \<open>Frames by their \<open>type\<close>.\<close>

datatype (plugins only: code) bridge_msg =
    MHealth "string option"
  | MAccess access_frame
  | MCursor cursor_frame
  | MBegin begin_frame
  | MProve prove_frame
  | MSignal signal_frame
  | MTurn turn_frame
  | MWitness witness_frame
  | MClaim claim_frame
  | MRevoke string "revocation signed option"
  | MResolve string string
  | MUnknown

record bridge_draws =
  dr_token :: string
  dr_challenge :: string
  dr_nonce :: string
  dr_random :: string

definition turn_issue :: "bridge_env \<Rightarrow> string \<Rightarrow> socket \<Rightarrow> turn_frame \<Rightarrow> int \<Rightarrow> bridge \<Rightarrow> rerror + turn_credentials" where
  "turn_issue e random ws fr t b =
     (case map_of (br_socket_hosts b) ws of
        None \<Rightarrow> Inl (''unauthorized'', ''registered host socket required'')
      | Some sb \<Rightarrow>
          if Some (sb_server sb) \<noteq> tf_server fr \<or> Some (sb_host sb) \<noteq> tf_host fr
          then Inl (''unauthorized'', ''registered host socket required'')
          else issueTurnCredentials e random (sb_server sb) (sb_host sb)
                 (case tf_subject fr of None \<Rightarrow> ''session'' | Some s \<Rightarrow> s) (tf_ttl fr) t)"

definition malformed_frame :: bridge_frame where
  "malformed_frame = FError (invalid_input ''malformed frame'')"

definition or_malformed :: "('a \<Rightarrow> bridge_frame) \<Rightarrow> (exn + 'a) \<times> bridge \<Rightarrow> bridge_frame \<times> bridge" where
  "or_malformed f r = ((case fst r of Inl x \<Rightarrow> malformed_frame | Inr v \<Rightarrow> f v), snd r)"

text \<open>\<open>typeof v === "object"\<close> for a value that is not \<open>null\<close>\<close>

definition js_object :: "json \<Rightarrow> bool" where
  "js_object v \<longleftrightarrow> (case v of JObj _ \<Rightarrow> True | JArr _ \<Rightarrow> True | _ \<Rightarrow> False)"

definition handleRendezvousFrame ::
    "bridge_env \<Rightarrow> bridge_io \<Rightarrow> json \<Rightarrow> bridge_msg \<Rightarrow> int \<Rightarrow> bridge \<Rightarrow> bridge_frame \<times> bridge" where
  "handleRendezvousFrame e io v msg t b =
     (if \<not> js_object v then (malformed_frame, b)
      else case msg of
        MRevoke key rv \<Rightarrow> or_malformed FRevoked (revoke e io key rv True t b)
      | MResolve server fp \<Rightarrow> (case resolve server fp t b of (r, b1) \<Rightarrow> (FResolved r, b1))
      | _ \<Rightarrow> (FError (invalid_input ''unknown type''), b))"

text \<open>The answer to a frame; exceptions are caught. Only an object has a type.\<close>

definition answer_frame ::
    "bridge_env \<Rightarrow> bridge_io \<Rightarrow> bridge_draws \<Rightarrow> socket \<Rightarrow> json \<Rightarrow> bridge_msg \<Rightarrow> int \<Rightarrow> bridge \<Rightarrow> bridge_frame \<times> bridge" where
  "answer_frame e io dr ws v msg t b =
     (case (if js_object v then msg else MUnknown) of
        MHealth rq \<Rightarrow> (FHealth rq, b)
      | MAccess fr \<Rightarrow> or_malformed (FAccess (text_or_empty (af_request fr))) (issueHostAccess e io (dr_token dr) fr t b)
      | MCursor fr \<Rightarrow> (FCursor (text_or_empty (cf_request fr)) (registrationCursor e fr t b), b)
      | MBegin fr \<Rightarrow> or_malformed (\<lambda>x. x) (beginRegistration e (dr_challenge dr, dr_nonce dr) ws fr t b)
      | MProve fr \<Rightarrow> or_malformed (FRegistered (pf_request fr)) (proveRegistration e io ws fr t b)
      | MSignal fr \<Rightarrow> (case relaySignal e ws fr t b of (r, b1) \<Rightarrow> (FSignaled r, b1))
      | MTurn fr \<Rightarrow> (FTurn (tf_request fr) (turn_issue e (dr_random dr) ws fr t b), b)
      | MWitness fr \<Rightarrow> or_malformed (FWitness (text_or_empty (wf_request fr))) (witnessPrimary e fr t b)
      | MClaim fr \<Rightarrow> or_malformed (FVote (text_or_empty (cm_request fr))) (claimPromotionVote e io fr t b)
      | other \<Rightarrow> handleRendezvousFrame e io v other t b)"

text \<open>What arrives: a binary frame, or a text of so many bytes with the value it holds, if it is JSON, and its frame.\<close>

datatype (plugins only: code) raw_frame = RBinary | RText nat "(json \<times> bridge_msg) option"

definition close_socket :: "socket \<Rightarrow> bridge \<Rightarrow> bridge" where
  "close_socket ws b = b\<lparr>br_open := removeAll ws (br_open b)\<rparr>"

definition bridge_clientIp :: "bridge \<Rightarrow> socket \<Rightarrow> string" where
  "bridge_clientIp b ws = (case map_of (br_ips b) ws of None \<Rightarrow> ''unknown'' | Some ip \<Rightarrow> ip)"

definition on_message ::
    "bridge_env \<Rightarrow> bridge_io \<Rightarrow> bridge_draws \<Rightarrow> socket \<Rightarrow> raw_frame \<Rightarrow> int \<Rightarrow> bridge \<Rightarrow> bridge" where
  "on_message e io dr ws raw t b =
     (case raw of
        RBinary \<Rightarrow> close_socket ws b
      | RText bytes content \<Rightarrow>
          if bytes > MAX_RENDEZVOUS_FRAME_BYTES then close_socket ws b
          else let (limited, b1) = rateLimited e (bridge_clientIp b ws) t b
               in if limited then br_reply ws (FError (''rate_limited'', ''too many requests'')) b1
                  else (case content of
                          None \<Rightarrow> br_reply ws malformed_frame b1
                        | Some (v, msg) \<Rightarrow>
                            if \<not> isBoundedFrameStructure v
                            then br_reply ws (FError (invalid_input ''frame structure exceeds limits'')) b1
                            else if v = JNull then br_reply ws malformed_frame b1
                            else let (fr, b2) = answer_frame e io dr ws v msg t (cleanup t b1) in br_reply ws fr b2))"

definition on_connection :: "bridge_env \<Rightarrow> socket \<Rightarrow> string option \<Rightarrow> string option \<Rightarrow> bridge \<Rightarrow> bridge" where
  "on_connection e ws remote forwarded b =
     b\<lparr>br_open := js_add ws (br_open b), br_ips := map_set ws (resolveClientIp e remote forwarded (be_proxies e)) (br_ips b)\<rparr>"

definition on_close :: "int \<Rightarrow> socket \<Rightarrow> bridge \<Rightarrow> bridge" where
  "on_close t ws b =
     (let b1 = unbindSocket t ws (clearPendingRegistration ws (close_socket ws b))
      in b1\<lparr>br_ips := map_del ws (br_ips b1)\<rparr>)"

text \<open>A process that starts: \<open>None\<close> where it throws. Its sockets are gone; a line may have been cut when it ended.\<close>

definition startRendezvous :: "bridge_env \<Rightarrow> int \<Rightarrow> bool \<Rightarrow> bridge \<Rightarrow> bridge option" where
  "startRendezvous e t torn b0 =
     (let b = (resetRendezvousState b0)\<lparr>br_open := [], br_torn := torn\<rparr> in
      if be_production e \<and> (\<not> be_state_file e \<or> be_admin_key e = None) then None
      else case loadBridgeSigningMaterial e t of
             Inl x \<Rightarrow> None
           | Inr m \<Rightarrow>
               if be_production e \<and> m = None then None
               else loadRendezvousState e t (b\<lparr>br_signing := m\<rparr>))"

text \<open>
  A clock after 1970 and a day before the end of the safe integers; epochs, which rise by one at a time, below that end.
\<close>

definition clock_ok :: "int \<Rightarrow> bool" where
  "clock_ok t \<longleftrightarrow> 0 < t \<and> is_safe_integer (t + 24 * 3600000)"

definition epochs_left :: "bridge \<Rightarrow> bool" where
  "epochs_left b \<longleftrightarrow> (\<forall>(scope, ms) \<in> set (br_marks b). \<forall>(h, m) \<in> set ms. lm_epoch m < 9007199254740991)"

inductive bridge_step :: "bridge_env \<Rightarrow> bridge \<Rightarrow> bridge \<Rightarrow> bool" for e where
  connect: "ws \<notin> set (br_open b) \<Longrightarrow> map_of (br_socket_hosts b) ws = None \<Longrightarrow> bridge_step e b (on_connection e ws remote forwarded b)"
| shut: "bridge_step e b (close_socket ws b)"
| message: "clock_ok t \<Longrightarrow> epochs_left b \<Longrightarrow> bridge_step e b (on_message e io dr ws raw t b)"
| closed: "bridge_step e b (on_close t ws b)"
| tick: "bridge_step e b (cleanup t b)"
| restart: "startRendezvous e t torn b = Some b' \<Longrightarrow> bridge_step e b b'"

text \<open>
  Runs in which the writes of a frame are done as a whole or not at all: no line is cut, none is written and not synced,
  and no file is replaced by one the memory does not follow.
\<close>

definition io_atomic :: "bridge_io \<Rightarrow> bool" where
  "io_atomic io \<longleftrightarrow>
     io_pairing io \<in> {Synced, Unwritten} \<and> io_append io \<in> {Synced, Unwritten} \<and> io_compact io \<in> {Compacted, Kept_old}"

inductive whole_step :: "bridge_env \<Rightarrow> bridge \<Rightarrow> bridge \<Rightarrow> bool" for e where
  whole_message: "io_atomic io \<Longrightarrow> clock_ok t \<Longrightarrow> epochs_left b \<Longrightarrow> whole_step e b (on_message e io dr ws raw t b)"
| whole_connect: "ws \<notin> set (br_open b) \<Longrightarrow> map_of (br_socket_hosts b) ws = None \<Longrightarrow> whole_step e b (on_connection e ws remote forwarded b)"
| whole_shut: "whole_step e b (close_socket ws b)"
| whole_closed: "whole_step e b (on_close t ws b)"
| whole_tick: "whole_step e b (cleanup t b)"
| whole_restart: "startRendezvous e t torn b = Some b' \<Longrightarrow> whole_step e b b'"

definition new_bridge :: bridge where
  "new_bridge =
     \<lparr>br_records = [], br_revoked = [], br_marks = [], br_rate = [], br_host_sockets = [], br_sessions = [],
      br_socket_hosts = [], br_pending = [], br_claims = [], br_access = [], br_proofs = [], br_disconnected = [],
      br_nonces = [], br_pairings = [], br_votes = [], br_ips = [], br_seq = 0, br_hash = None, br_signing = None,
      br_file = [], br_torn = False, br_open = [], br_sent = []\<rparr>"

end
