(* ===== verification/BridgeLedger.thy ===== *)
theory BridgeLedger
  imports BridgeServer SelectionSafety
begin

text \<open>
  The ledger of a bridge. \<open>ledger_ok\<close> says that every entry stands under its own key, each credential under that of the host
  it was issued for, and passes the checks of the loader; a compacted file gives the ledger back to a new process.
\<close>

section \<open>What an operation leaves alone\<close>

lemma fold_keeps:
  assumes "\<And>x b. F (g x b) = F b"
  shows "F (fold g xs b) = F b"
  using assms by (induction xs arbitrary: b) simp_all

definition durable :: "bridge \<Rightarrow> _" where
  "durable b = (br_marks b, br_revoked b, br_votes b, br_pairings b, br_file b, br_torn b, br_seq b, br_hash b)"

named_theorems durable_simps

lemma durable_update [durable_simps]:
  "durable (b\<lparr>br_records := a1\<rparr>) = durable b" "durable (b\<lparr>br_rate := a2\<rparr>) = durable b"
  "durable (b\<lparr>br_host_sockets := a3\<rparr>) = durable b" "durable (b\<lparr>br_sessions := a4\<rparr>) = durable b"
  "durable (b\<lparr>br_socket_hosts := a5\<rparr>) = durable b" "durable (b\<lparr>br_pending := a6\<rparr>) = durable b"
  "durable (b\<lparr>br_claims := a7\<rparr>) = durable b" "durable (b\<lparr>br_access := a8\<rparr>) = durable b"
  "durable (b\<lparr>br_proofs := a9\<rparr>) = durable b" "durable (b\<lparr>br_disconnected := a10\<rparr>) = durable b"
  "durable (b\<lparr>br_nonces := a11\<rparr>) = durable b" "durable (b\<lparr>br_ips := a12\<rparr>) = durable b"
  "durable (b\<lparr>br_signing := a13\<rparr>) = durable b" "durable (b\<lparr>br_open := a14\<rparr>) = durable b"
  "durable (b\<lparr>br_sent := a15\<rparr>) = durable b"
  by (simp_all add: durable_def)

text \<open>
  A part \<open>F\<close> of the state that does not depend on the connections: sockets, sessions, pending handshakes, counters and what
  was sent. The operations on connections leave it alone.
\<close>

locale unconnected =
  fixes F :: "bridge \<Rightarrow> 'a"
  assumes F_update:
    "F (b\<lparr>br_rate := a1\<rparr>) = F b" "F (b\<lparr>br_host_sockets := a2\<rparr>) = F b" "F (b\<lparr>br_sessions := a3\<rparr>) = F b"
    "F (b\<lparr>br_socket_hosts := a4\<rparr>) = F b" "F (b\<lparr>br_pending := a5\<rparr>) = F b" "F (b\<lparr>br_claims := a6\<rparr>) = F b"
    "F (b\<lparr>br_proofs := a7\<rparr>) = F b" "F (b\<lparr>br_disconnected := a8\<rparr>) = F b" "F (b\<lparr>br_nonces := a9\<rparr>) = F b"
    "F (b\<lparr>br_ips := a10\<rparr>) = F b" "F (b\<lparr>br_signing := a11\<rparr>) = F b" "F (b\<lparr>br_open := a12\<rparr>) = F b"
    "F (b\<lparr>br_sent := a13\<rparr>) = F b"
begin

lemma reply: "F (br_reply ws fr b) = F b"
  by (simp add: br_reply_def F_update)

lemma close_session: "F (snd (closeSignalingSession sid src reason b)) = F b"
  by (auto simp: closeSignalingSession_def Let_def F_update reply split: option.splits)

lemma expired_sessions: "F (cleanupExpiredSignalingSessions t b) = F b"
  unfolding cleanupExpiredSignalingSessions_def by (rule fold_keeps) (auto simp: close_session)

lemma clear_pending: "F (clearPendingRegistration ws b) = F b"
  by (auto simp: clearPendingRegistration_def F_update split: option.splits)

lemma fold_close: "F (fold (\<lambda>(sid, s) b. if P s then snd (closeSignalingSession sid src reason b) else b) xs b) = F b"
  by (rule fold_keeps) (auto simp: close_session)

lemma unbind: "F (unbindSocket t ws b) = F b"
  by (auto simp: unbindSocket_def Let_def F_update fold_close split: option.splits)

lemma fold_unbind: "F (fold (\<lambda>(ws, x) b. if P ws x then unbindSocket t ws b else b) xs b) = F b"
  by (rule fold_keeps) (auto simp: unbind)

lemma fold_clear: "F (fold (\<lambda>(ws, p) b. if P ws p then clearPendingRegistration ws b else b) xs b) = F b"
  by (rule fold_keeps) (auto simp: clear_pending)

lemma tell_peers: "F (tell_peers ws fp server told b) = F b"
  unfolding tell_peers_def by (rule fold_keeps) (auto simp: reply)

lemma bind: "F (bind_socket t ws sb b) = F b"
  by (auto simp: bind_socket_def Let_def F_update unbind split: option.splits)

lemma close_it: "F (close_socket ws b) = F b"
  by (simp add: close_socket_def F_update)

lemma after_close: "F (on_close t ws b) = F b"
  by (simp add: on_close_def Let_def F_update unbind clear_pending close_it)

lemma connection: "F (on_connection e ws remote fwd b) = F b"
  by (simp add: on_connection_def F_update)

lemma limited: "F (snd (rateLimited e ip t b)) = F b"
  by (auto simp: rateLimited_def Let_def F_update split: option.split)

lemma signing: "F (snd (signing_material e t b)) = F b"
  by (auto simp: signing_material_def F_update split: option.splits sum.splits)

lemma open_session: "F (snd (open_signal e ws fr pl t b)) = F b"
  by (auto simp: open_signal_def Let_def touch_session_def F_update reply split: option.split prod.split)

lemma relay: "F (snd (relaySignal e ws fr t b)) = F b"
proof -
  have "F (snd (relay_payload ws sid s pl k t b)) = F b" for sid s pl k
    by (auto simp: relay_payload_def Let_def touch_session_def F_update reply)
  then show ?thesis
    using open_session close_session unfolding relaySignal_def Let_def by (auto split: option.split prod.split)
qed

lemmas connections = reply close_session expired_sessions clear_pending fold_close unbind fold_unbind fold_clear tell_peers bind
  close_it after_close connection limited signing open_session relay

end

interpretation durable_part: unconnected durable
  by standard (simp_all add: durable_simps)

interpretation access_part: unconnected br_access
  by standard simp_all

interpretation records_part: unconnected br_records
  by standard simp_all

declare durable_part.connections [durable_simps] access_part.connections [durable_simps]

text \<open>Only expired access entries go.\<close>

definition same_ledger :: "bridge \<Rightarrow> bridge \<Rightarrow> bool" where
  "same_ledger b b' \<longleftrightarrow> durable b' = durable b \<and> (\<exists>P. br_access b' = filter P (br_access b))"

lemma same_ledgerI: "durable b' = durable b \<Longrightarrow> br_access b' = br_access b \<Longrightarrow> same_ledger b b'"
  unfolding same_ledger_def by (auto intro: exI [of _ "\<lambda>_. True"])

lemma same_ledger_refl [simp]: "same_ledger b b"
  by (rule same_ledgerI) simp_all

lemma same_ledger_trans: "same_ledger b b' \<Longrightarrow> same_ledger b' b'' \<Longrightarrow> same_ledger b b''"
  unfolding same_ledger_def by (metis filter_filter)

lemma cleanup_fields:
  "durable (cleanup t b) = durable b" "br_access (cleanup t b) = filter (\<lambda>a. \<not> ha_expires (snd a) \<le> t) (br_access b)"
  by (simp_all only: cleanup_def Let_def durable_simps) (simp add: durable_simps)

lemma same_cleanup: "same_ledger b (cleanup t b)"
  unfolding same_ledger_def using cleanup_fields by blast

lemma same_signing: "same_ledger b (snd (signing_material e t b))"
  by (rule same_ledgerI) (simp_all add: durable_simps)

lemma same_bind: "same_ledger b (bind_socket t ws sb b)"
  by (rule same_ledgerI) (simp_all add: durable_simps)

section \<open>Maps and nested maps\<close>

definition nput :: "string \<Rightarrow> string \<Rightarrow> 'v \<Rightarrow> (string \<times> (string \<times> 'v) list) list \<Rightarrow> (string \<times> (string \<times> 'v) list) list" where
  "nput s k v m = map_set s (map_set k v (inner m s)) m"

lemma inner_map_set [simp]: "inner (map_set s n m) s' = (if s' = s then n else inner m s')"
  by (simp add: inner_def map_of_map_set)

lemma inner_nput: "map_of (inner (nput s k v m) s') k' = (if s' = s \<and> k' = k then Some v else map_of (inner m s') k')"
  by (simp add: nput_def map_of_map_set)

lemma map_of_at_key: "map_of (at_key k f m) k' = map_option (\<lambda>v. if k' = k then f v else v) (map_of m k')"
  by (induction m) (auto simp: at_key_def)

lemma inner_at_key: "f [] = [] \<Longrightarrow> inner (at_key s f m) s' = (if s' = s then f (inner m s') else inner m s')"
  by (auto simp: inner_def map_of_at_key split: option.splits)

lemma map_of_raise: "map_of (raise_marks g n ms) h
    = map_option (\<lambda>m. if lm_grant m = g \<and> lm_generation m < n then m\<lparr>lm_generation := n\<rparr> else m) (map_of ms h)"
  unfolding raise_marks_def by (simp only: map_of_map comp_def)

definition flat_ok :: "('k \<Rightarrow> 'v \<Rightarrow> bool) \<Rightarrow> ('k \<times> 'v) list \<Rightarrow> bool" where
  "flat_ok P m \<longleftrightarrow> distinct (map fst m) \<and> (\<forall>(k, v) \<in> set m. P k v)"

definition nested_ok :: "(string \<Rightarrow> string \<Rightarrow> 'v \<Rightarrow> bool) \<Rightarrow> (string \<times> (string \<times> 'v) list) list \<Rightarrow> bool" where
  "nested_ok P m \<longleftrightarrow> flat_ok (\<lambda>s n. n \<noteq> [] \<and> flat_ok (P s) n) m"

lemma flat_ok_Nil [simp]: "flat_ok P []"
  by (simp add: flat_ok_def)

lemma flat_ok_set: "flat_ok P m \<Longrightarrow> P k v \<Longrightarrow> flat_ok P (map_set k v m)"
  by (auto simp: flat_ok_def distinct_map_set dest!: values_map_set)

lemma flat_ok_filter: "flat_ok P m \<Longrightarrow> flat_ok P (filter Q m)"
  by (auto simp: flat_ok_def distinct_map_filter)

lemma flat_ok_get: "flat_ok P m \<Longrightarrow> map_of m k = Some v \<Longrightarrow> P k v"
  by (auto simp: flat_ok_def dest!: map_of_SomeD)

lemma map_set_not_Nil [simp]: "map_set k v m \<noteq> []"
  by (cases "(k, v, m)" rule: map_set.cases) auto

lemma nested_ok_Nil [simp]: "nested_ok P []"
  by (simp add: nested_ok_def)

lemma nested_ok_inner: "nested_ok P m \<Longrightarrow> flat_ok (P s) (inner m s)"
  by (auto simp: nested_ok_def inner_def split: option.splits dest: flat_ok_get)

lemma nested_ok_get: "nested_ok P m \<Longrightarrow> map_of (inner m s) k = Some v \<Longrightarrow> P s k v"
  using nested_ok_inner flat_ok_get by metis

lemma nested_ok_put: "nested_ok P m \<Longrightarrow> P s k v \<Longrightarrow> nested_ok P (nput s k v m)"
  unfolding nput_def nested_ok_def by (rule flat_ok_set) (auto intro: flat_ok_set nested_ok_inner simp flip: nested_ok_def)

lemma flat_ok_map:
  assumes "flat_ok P m" and "\<And>k v. P k v \<Longrightarrow> Q k (f k v)"
  shows "flat_ok Q (map (\<lambda>(k, v). (k, f k v)) m)"
  using assms by (induction m) (auto simp: flat_ok_def image_image split_beta)

lemma nested_ok_raise:
  assumes "nested_ok P m" and "\<And>s k v. P s k v \<Longrightarrow> P s k (v\<lparr>lm_generation := n\<rparr>)"
  shows "nested_ok P (at_key s (raise_marks g n) m)"
  unfolding nested_ok_def at_key_def
  by (rule flat_ok_map [OF assms(1) [unfolded nested_ok_def]])
    (auto simp: raise_marks_def intro!: flat_ok_map intro: assms(2))

lemma map_of_filter_distinct: "distinct (map fst m) \<Longrightarrow> map_of (filter P m) k = Some v \<Longrightarrow> map_of m k = Some v"
  by (metis filter_is_subset map_of_SomeD map_of_is_SomeI subsetD)

section \<open>Entries\<close>

definition mark_entry :: "string \<Rightarrow> string \<Rightarrow> ledger_mark \<Rightarrow> bool" where
  "mark_entry s h m \<longleftrightarrow> s = authorityScope (lm_authority m) (lm_server m) \<and> h = lm_host m \<and> persistedHighWater m"

definition revoked_entry :: "bridge_env \<Rightarrow> string \<Rightarrow> string \<Rightarrow> revocation_mark \<Rightarrow> bool" where
  "revoked_entry e s g k \<longleftrightarrow>
     (let rv = rk_revocation k; p = s_payload rv in
        g = rv_grant p \<and> rk_at k = rv_at p \<and> rk_generation k = rv_generation p
        \<and> verifySignedHostGrantRevocation e rv (rk_key k) = Some rv
        \<and> (\<exists>fp. publicKeyFingerprint e (rk_key k) = Some fp \<and> s = authorityScope fp (rv_server p)))"

definition vote_entry :: "string \<Rightarrow> vote_mark \<Rightarrow> bool" where
  "vote_entry k v \<longleftrightarrow> k = promotionVoteKey (vm_authority v) (vm_server v) (vm_epoch v) \<and> persistedPromotionVote v"

definition pairing_entry :: "string \<Rightarrow> pairing_consumption \<Rightarrow> bool" where
  "pairing_entry k p \<longleftrightarrow>
     k = pc_token p \<and> Hex64Schema (pc_token p) \<and> AuthorityFingerprintSchema (pc_authority p) \<and> is_safe_integer (pc_consumed p)
     \<and> is_safe_integer (pc_expires p)"

text \<open>
  A credential names no host: its key must be the one of the host it was issued to, the host of a grant the authority of
  the key signed and whose device signed the access proof.
\<close>

definition issued_for :: "bridge_env \<Rightarrow> string \<Rightarrow> host_access \<Rightarrow> bool" where
  "issued_for e k a \<longleftrightarrow>
     (\<exists>key fp v t (pr :: access_proof signed). let g = s_payload v; p = s_payload pr in
        publicKeyFingerprint e key = Some fp \<and> verifySignedHostGrant e v key t = Some v
        \<and> s_key pr = gp_device_key g \<and> xp_server p = gp_server g \<and> xp_host p = gp_host g \<and> xp_grant p = gp_grant g
        \<and> verifyCanonicalPayload e (s_key pr) BRIDGE_ACCESS_DOMAIN (access_proof_json p) (s_signature pr)
        \<and> xp_slot p \<in> {''registration'', ''witness''}
        \<and> k = hostBindingKey fp (gp_server g) (gp_host g) @ '':'' @ xp_slot p
        \<and> ha_grant a = gp_grant g \<and> ha_generation a = gp_generation g \<and> ha_proof a = xp_proof p
        \<and> ha_expires a = min (gp_expires g) (t + 24 * 3600000))"

definition access_entry :: "bridge_env \<Rightarrow> string \<Rightarrow> host_access \<Rightarrow> bool" where
  "access_entry e k a \<longleftrightarrow>
     issued_for e k a \<and> stored_access_key k = k \<and> Hex64Schema (ha_token a) \<and> is_safe_integer (ha_generation a)
     \<and> is_safe_integer (ha_expires a)"

definition ledger_ok :: "bridge_env \<Rightarrow> bridge \<Rightarrow> bool" where
  "ledger_ok e b \<longleftrightarrow>
     nested_ok mark_entry (br_marks b) \<and> nested_ok (revoked_entry e) (br_revoked b) \<and> flat_ok vote_entry (br_votes b)
     \<and> flat_ok pairing_entry (br_pairings b) \<and> flat_ok (access_entry e) (br_access b)"

lemma ledger_ok_same: "same_ledger b b' \<Longrightarrow> ledger_ok e b \<Longrightarrow> ledger_ok e b'"
  by (auto simp: same_ledger_def durable_def ledger_ok_def flat_ok_filter)

section \<open>Reading events\<close>

definition load_events :: "bridge_env \<Rightarrow> int \<Rightarrow> ledger_event list \<Rightarrow> bridge \<Rightarrow> bridge option" where
  "load_events e t evs b = load_lines e t (map Some (chain_lines e (br_seq b) (br_hash b) evs)) b"

lemma load_events_Nil [simp]: "load_events e t [] b = Some b"
  by (simp add: load_events_def)

lemma load_events_Cons:
  "load_events e t (ev # evs) b =
     (case apply_event e t ev b of
        None \<Rightarrow> None
      | Some b1 \<Rightarrow> load_events e t evs (b1\<lparr>br_seq := br_seq b + 1, br_hash := Some (line_hash e 1 (br_seq b + 1) (br_hash b) ev)\<rparr>))"
  by (simp add: load_events_def Let_def ledger_line_of_def split: option.splits)

lemma load_lines_append: "load_lines e t (ls @ ls') b = (case load_lines e t ls b of None \<Rightarrow> None | Some b' \<Rightarrow> load_lines e t ls' b')"
  by (induction e t ls b rule: load_lines.induct) (auto split: option.splits)

lemma load_events_append: "load_events e t (xs @ ys) b = (case load_events e t xs b of None \<Rightarrow> None | Some b' \<Rightarrow> load_events e t ys b')"
  by (induction xs arbitrary: b) (auto simp: load_events_Cons split: option.splits)

lemma load_events_chain:
  "load_events e t evs b = Some b' \<Longrightarrow>
     br_seq b' = br_seq b + int (length evs)
     \<and> br_hash b' = (if evs = [] then br_hash b else Some (ll_hash (last (chain_lines e (br_seq b) (br_hash b) evs))))"
proof (induction evs arbitrary: b)
  case (Cons ev evs)
  then show ?case
    by (cases evs) (auto simp: load_events_Cons Let_def ledger_line_of_def split: option.splits)
qed simp

lemma chain_lines_length [simp]: "length (chain_lines e n prev evs) = length evs"
  by (induction e n prev evs rule: chain_lines.induct) (simp_all add: Let_def)

text \<open>
  A table of the ledger and its event: \<open>look\<close> an entry up, \<open>add\<close> one, \<open>ev\<close> its event. \<open>J\<close> is what reading the event
  needs of the rest of the state.
\<close>

locale ledger_table =
  fixes e :: bridge_env and t :: int
    and P :: "'k \<Rightarrow> 'v \<Rightarrow> bool" and J :: "bridge \<Rightarrow> bool"
    and look :: "bridge \<Rightarrow> 'k \<Rightarrow> 'v option" and add :: "'k \<Rightarrow> 'v \<Rightarrow> bridge \<Rightarrow> bridge" and ev :: "'k \<Rightarrow> 'v \<Rightarrow> ledger_event"
  assumes read: "P k v \<Longrightarrow> J b \<Longrightarrow> look b k = None \<Longrightarrow> apply_event e t (ev k v) b = Some (add k v b)"
    and look_add: "look (add k v b) k' = (if k' = k then Some v else look b k')"
    and add_keeps: "J b \<Longrightarrow> J (add k v b)"
    and look_chain: "look (b\<lparr>br_seq := n, br_hash := h\<rparr>) k = look b k"
    and J_chain: "J b \<Longrightarrow> J (b\<lparr>br_seq := n, br_hash := h\<rparr>)"
    and add_chain: "add k v (b\<lparr>br_seq := n, br_hash := h\<rparr>) = (add k v b)\<lparr>br_seq := n, br_hash := h\<rparr>"
begin

lemma fold_add_chain:
  "fold (\<lambda>(k, v). add k v) xs (b\<lparr>br_seq := n, br_hash := h\<rparr>) = (fold (\<lambda>(k, v). add k v) xs b)\<lparr>br_seq := n, br_hash := h\<rparr>"
  by (induction xs arbitrary: b) (auto simp: add_chain)

lemma load_all:
  assumes "distinct (map fst xs)" and "\<forall>(k, v) \<in> set xs. P k v \<and> look b k = None" and "J b"
  shows "\<exists>n h. load_events e t (map (\<lambda>(k, v). ev k v) xs) b = Some ((fold (\<lambda>(k, v). add k v) xs b)\<lparr>br_seq := n, br_hash := h\<rparr>)"
  using assms
proof (induction xs arbitrary: b)
  case Nil
  show ?case by (rule exI [of _ "br_seq b"], rule exI [of _ "br_hash b"]) simp
next
  case (Cons x xs)
  obtain k v where x: "x = (k, v)" by (cases x)
  let ?b = "(add k v b)\<lparr>br_seq := br_seq b + 1, br_hash := Some (line_hash e 1 (br_seq b + 1) (br_hash b) (ev k v))\<rparr>"
  have r: "apply_event e t (ev k v) b = Some (add k v b)" using Cons.prems x by (auto intro: read)
  have "\<forall>(k', v') \<in> set xs. P k' v' \<and> look ?b k' = None"
  proof (clarify)
    fix k' v' assume mem: "(k', v') \<in> set xs"
    then have "k' \<noteq> k" using Cons.prems(1) x by force
    then show "P k' v' \<and> look ?b k' = None" using Cons.prems(2) mem by (auto simp: look_chain look_add)
  qed
  moreover have "J ?b" using Cons.prems(3) by (intro J_chain add_keeps)
  ultimately obtain n h where "load_events e t (map (\<lambda>(k, v). ev k v) xs) ?b = Some ((fold (\<lambda>(k, v). add k v) xs ?b)\<lparr>br_seq := n, br_hash := h\<rparr>)"
    using Cons.IH [of ?b] Cons.prems(1) by auto
  then show ?case by (auto simp: x load_events_Cons r fold_add_chain)
qed

end

definition mark_at :: "bridge \<Rightarrow> string \<times> string \<Rightarrow> ledger_mark option" where
  "mark_at b k = map_of (inner (br_marks b) (fst k)) (snd k)"

definition revoked_at :: "bridge \<Rightarrow> string \<times> string \<Rightarrow> revocation_mark option" where
  "revoked_at b k = map_of (inner (br_revoked b) (fst k)) (snd k)"

text \<open>A process that has read nothing yet.\<close>

definition unread :: "bridge \<Rightarrow> bool" where
  "unread b \<longleftrightarrow> br_marks b = [] \<and> br_records b = [] \<and> br_socket_hosts b = []"

lemma applyHighWaterMark_fresh:
  "s = authorityScope (lm_authority m) (lm_server m) \<Longrightarrow> map_of (inner (br_marks b) s) (lm_host m) = None \<Longrightarrow>
     applyHighWaterMark m b = (True, b\<lparr>br_marks := nput s (lm_host m) m (br_marks b)\<rparr>)"
  by (simp add: applyHighWaterMark_def Let_def nput_def)

lemma mark_read:
  assumes "mark_entry s h m" and "map_of (inner (br_marks b) s) h = None"
  shows "apply_event e t (EvHighWater m) b = Some (b\<lparr>br_marks := nput s h m (br_marks b)\<rparr>)"
proof -
  have h: "h = lm_host m" and p: "persistedHighWater m" and s: "s = authorityScope (lm_authority m) (lm_server m)"
    using assms(1) unfolding mark_entry_def by blast+
  have "applyHighWaterMark m b = (True, b\<lparr>br_marks := nput s (lm_host m) m (br_marks b)\<rparr>)"
    by (rule applyHighWaterMark_fresh [OF s]) (use assms(2) h in blast)
  then show ?thesis using p h by simp
qed

interpretation marks_table: ledger_table e t "\<lambda>k. mark_entry (fst k) (snd k)" "\<lambda>_. True" mark_at
  "\<lambda>k m b. b\<lparr>br_marks := nput (fst k) (snd k) m (br_marks b)\<rparr>" "\<lambda>_. EvHighWater" for e t
  by standard (simp_all add: mark_read mark_at_def inner_nput prod_eq_iff del: apply_event.simps)

interpretation votes_table: ledger_table e t vote_entry "\<lambda>_. True" "\<lambda>b. map_of (br_votes b)"
  "\<lambda>k v b. b\<lparr>br_votes := map_set k v (br_votes b)\<rparr>" "\<lambda>_. EvVote" for e t
  by standard (auto simp: vote_entry_def applyPromotionVote_def map_of_map_set)

interpretation pairings_table: ledger_table e t pairing_entry "\<lambda>_. True" "\<lambda>b. map_of (br_pairings b)"
  "\<lambda>k v b. b\<lparr>br_pairings := map_set k v (br_pairings b)\<rparr>" "\<lambda>_. EvPairing" for e t
  by standard (auto simp: pairing_entry_def map_of_map_set)

interpretation access_table: ledger_table e t "access_entry e" "\<lambda>_. True" "\<lambda>b. map_of (br_access b)"
  "\<lambda>k a b. b\<lparr>br_proofs := map_set (ha_proof a) (ha_expires a) (br_proofs b), br_access := map_set k a (br_access b)\<rparr>" EvAccess for e t
  by standard (auto simp: access_entry_def map_of_map_set)

lemma accepted_generation_Nil [simp]: "accepted_generation [] g = 0"
  by (simp add: accepted_generation_def)

lemma revoke_read:
  assumes "revoked_entry e s g k" and "map_of (inner (br_revoked b) s) g = None" and "unread b"
  shows "revoke e io (rk_key k) (Some (rk_revocation k)) False t b
     = (Inr (Inr (g, rk_at k, rk_generation k)), b\<lparr>br_revoked := nput s g k (br_revoked b)\<rparr>)"
proof -
  let ?rv = "rk_revocation k"
  obtain fp where fp: "publicKeyFingerprint e (rk_key k) = Some fp" and s: "s = authorityScope fp (rv_server (s_payload ?rv))"
    and g: "g = rv_grant (s_payload ?rv)" and k: "rk_at k = rv_at (s_payload ?rv)" "rk_generation k = rv_generation (s_payload ?rv)"
    and v: "verifySignedHostGrantRevocation e ?rv (rk_key k) = Some ?rv"
    using assms(1) by (auto simp: revoked_entry_def Let_def)
  have pos: "0 < rv_generation (s_payload ?rv)"
    using v by (auto simp: verifySignedHostGrantRevocation_def signed_schema_def HostGrantRevocationPayloadSchema_def positiveSchema_def
        split: if_splits)
  have e: "\<lparr>rk_at = rv_at (s_payload ?rv), rk_generation = rv_generation (s_payload ?rv), rk_key = rk_key k, rk_revocation = ?rv\<rparr> = k"
    using k by simp
  have a: "applyRevocation t fp (rk_key k) ?rv b = b\<lparr>br_revoked := nput s g k (br_revoked b)\<rparr>"
    using assms(3) unfolding applyRevocation_def Let_def e
    by (simp add: unread_def at_key_def nput_def s g)
  have n: "inner (br_marks b) x = []" for x using assms(3) by (simp add: unread_def inner_def)
  have q: "map_of (inner (br_revoked b) (authorityScope fp (rv_server (s_payload ?rv)))) (rv_grant (s_payload ?rv)) = None"
    using assms(2) by (simp add: s g)
  show ?thesis unfolding revoke_def Let_def using v fp pos a q k by (simp add: n g)
qed

interpretation revoked_table: ledger_table e t "\<lambda>k. revoked_entry e (fst k) (snd k)" unread revoked_at
  "\<lambda>k r b. b\<lparr>br_revoked := nput (fst k) (snd k) r (br_revoked b)\<rparr>" "\<lambda>_ r. EvRevocation (rk_key r) (rk_revocation r)" for e t
  by standard (simp_all add: revoked_at_def inner_nput unread_def revoke_read prod_eq_iff)

section \<open>A compacted file gives the ledger back\<close>

lemma map_set_fresh: "k \<notin> fst ` set m \<Longrightarrow> map_set k v m = m @ [(k, v)]"
  by (induction k v m rule: map_set.induct) auto

lemma map_set_last: "k \<notin> fst ` set m \<Longrightarrow> map_set k v (m @ [(k, v0)]) = m @ [(k, v)]"
  by (induction k v m rule: map_set.induct) auto

lemma map_of_not_key: "k \<notin> fst ` set m \<Longrightarrow> map_of m k = None"
  by (simp add: map_of_eq_None_iff)

lemma flat_rebuild: "distinct (map fst (m0 @ m)) \<Longrightarrow> fold (\<lambda>(k, v). map_set k v) m m0 = m0 @ m"
proof (induction m arbitrary: m0)
  case (Cons p m)
  obtain k v where p: "p = (k, v)" by (cases p)
  then have "map_set k v m0 = m0 @ [(k, v)]" using Cons.prems by (intro map_set_fresh) auto
  then show ?case using Cons.IH [of "m0 @ [(k, v)]"] Cons.prems p by simp
qed simp

definition flatten :: "(string \<times> (string \<times> 'v) list) list \<Rightarrow> ((string \<times> string) \<times> 'v) list" where
  "flatten m = concat (map (\<lambda>(s, n). map (\<lambda>(k, v). ((s, k), v)) n) m)"

lemma flatten_Cons: "flatten ((s, n) # m) = map (\<lambda>(k, v). ((s, k), v)) n @ flatten m"
  by (simp add: flatten_def)

lemma inner_part:
  assumes "s \<notin> fst ` set m0" and "distinct (map fst (n0 @ n))" and "n0 \<noteq> []"
  shows "fold (\<lambda>(k, v). nput (fst k) (snd k) v) (map (\<lambda>(k, v). ((s, k), v)) n) (m0 @ [(s, n0)]) = m0 @ [(s, n0 @ n)]"
  using assms
proof (induction n arbitrary: n0)
  case (Cons p n)
  obtain k v where p: "p = (k, v)" by (cases p)
  have "inner (m0 @ [(s, n0)]) s = n0" using Cons.prems(1) by (simp add: inner_def map_add_def map_of_not_key)
  moreover have "map_set k v n0 = n0 @ [(k, v)]" using Cons.prems(2) p by (intro map_set_fresh) auto
  ultimately have "nput s k v (m0 @ [(s, n0)]) = m0 @ [(s, n0 @ [(k, v)])]" using Cons.prems(1) by (simp add: nput_def map_set_last)
  then show ?case using Cons.IH [of "n0 @ [(k, v)]"] Cons.prems p by simp
qed simp

lemma nested_rebuild:
  assumes "distinct (map fst (m0 @ m))" and "\<forall>(s, n) \<in> set m. n \<noteq> [] \<and> distinct (map fst n)"
  shows "fold (\<lambda>(k, v). nput (fst k) (snd k) v) (flatten m) m0 = m0 @ m"
  using assms
proof (induction m arbitrary: m0)
  case (Cons p m)
  obtain s n where p: "p = (s, n)" by (cases p)
  then obtain k v n' where n: "n = (k, v) # n'" using Cons.prems(2) by (cases n) auto
  have s: "s \<notin> fst ` set m0" using Cons.prems(1) p by auto
  then have "nput s k v m0 = m0 @ [(s, [(k, v)])]" by (simp add: nput_def inner_def map_of_not_key map_set_fresh)
  moreover have "distinct (map fst ([(k, v)] @ n'))" using Cons.prems(2) p n by auto
  ultimately have "fold (\<lambda>(k, v). nput (fst k) (snd k) v) (map (\<lambda>(k, v). ((s, k), v)) n) m0 = m0 @ [(s, n)]"
    using inner_part [OF s, of "[(k, v)]" n'] n by simp
  then show ?case using Cons.IH [of "m0 @ [(s, n)]"] Cons.prems p by (simp add: flatten_def)
qed (simp add: flatten_def)

lemma flatten_spec:
  assumes "nested_ok Q m"
  shows "distinct (map fst (flatten m))" "\<forall>(k, v) \<in> set (flatten m). Q (fst k) (snd k) v"
    "fold (\<lambda>(k, v). nput (fst k) (snd k) v) (flatten m) [] = m"
proof -
  have *: "distinct (map fst m)" "\<forall>(s, n) \<in> set m. n \<noteq> [] \<and> distinct (map fst n)" "\<forall>(s, n) \<in> set m. \<forall>(k, v) \<in> set n. Q s k v"
    using assms by (auto simp: nested_ok_def flat_ok_def)
  then show "distinct (map fst (flatten m))"
  proof (induction m)
    case (Cons p m)
    obtain s n where p: "p = (s, n)" by (cases p)
    have "distinct (map fst n)" "s \<notin> fst ` set m" using Cons.prems p by auto
    then have "distinct (map (\<lambda>k. (s, k)) (map fst n))" by (simp only: distinct_map) (simp add: inj_on_def)
    then have d: "distinct (map fst (map (\<lambda>(k, v). ((s, k), v)) n))" by (simp add: comp_def split_beta)
    have ih: "distinct (map fst (flatten m))" using Cons p by simp
    have "set (map fst (map (\<lambda>(k, v). ((s, k), v)) n)) \<inter> set (map fst (flatten m)) = {}"
      using \<open>s \<notin> fst ` set m\<close> by (force simp: flatten_def)
    with d ih show ?case by (simp only: p flatten_Cons map_append distinct_append)
  qed (simp add: flatten_def)
  show "\<forall>(k, v) \<in> set (flatten m). Q (fst k) (snd k) v" using *(3) by (force simp: flatten_def)
  show "fold (\<lambda>(k, v). nput (fst k) (snd k) v) (flatten m) [] = m" using nested_rebuild [of "[]" m] * by simp
qed

lemma map_flatten: "map (\<lambda>(k, v). f v) (flatten m) = map f (concat (map (map snd \<circ> snd) m))"
  by (induction m) (auto simp: flatten_def comp_def split_beta)

text \<open>A bridge started with nothing, and what reading has to give.\<close>

definition unstarted :: "bridge \<Rightarrow> bool" where
  "unstarted b \<longleftrightarrow>
     br_marks b = [] \<and> br_revoked b = [] \<and> br_votes b = [] \<and> br_pairings b = [] \<and> br_access b = [] \<and> br_socket_hosts b = []
     \<and> br_records b = [] \<and> br_seq b = 0 \<and> br_hash b = None"

definition reads_as :: "bridge \<Rightarrow> bridge \<Rightarrow> bool" where
  "reads_as b' b \<longleftrightarrow>
     br_marks b' = br_marks b \<and> br_revoked b' = br_revoked b \<and> br_votes b' = br_votes b \<and> br_pairings b' = br_pairings b
     \<and> (\<forall>k a. map_of (br_access b) k = Some a \<longrightarrow> map_of (br_access b') k = Some a)
     \<and> distinct (map fst (br_access b')) \<and> br_socket_hosts b' = [] \<and> br_records b' = []"

lemma fold_marks:
  "fold (\<lambda>(k, v) b. b\<lparr>br_marks := nput (fst k) (snd k) v (br_marks b)\<rparr>) xs b
     = b\<lparr>br_marks := fold (\<lambda>(k, v). nput (fst k) (snd k) v) xs (br_marks b)\<rparr>"
  by (induction xs arbitrary: b) (auto simp: split_beta)

lemma fold_revoked:
  "fold (\<lambda>(k, v) b. b\<lparr>br_revoked := nput (fst k) (snd k) v (br_revoked b)\<rparr>) xs b
     = b\<lparr>br_revoked := fold (\<lambda>(k, v). nput (fst k) (snd k) v) xs (br_revoked b)\<rparr>"
  by (induction xs arbitrary: b) (auto simp: split_beta)

lemma fold_votes:
  "fold (\<lambda>(k, v) b. b\<lparr>br_votes := map_set k v (br_votes b)\<rparr>) xs b
     = b\<lparr>br_votes := fold (\<lambda>(k, v). map_set k v) xs (br_votes b)\<rparr>"
  by (induction xs arbitrary: b) (auto simp: split_beta)

lemma fold_pairings:
  "fold (\<lambda>(k, v) b. b\<lparr>br_pairings := map_set k v (br_pairings b)\<rparr>) xs b
     = b\<lparr>br_pairings := fold (\<lambda>(k, v). map_set k v) xs (br_pairings b)\<rparr>"
  by (induction xs arbitrary: b) (auto simp: split_beta)

lemma fold_access:
  "\<exists>p. fold (\<lambda>(k, a) b. b\<lparr>br_proofs := map_set (ha_proof a) (ha_expires a) (br_proofs b), br_access := map_set k a (br_access b)\<rparr>) xs b
     = b\<lparr>br_proofs := p, br_access := fold (\<lambda>(k, v). map_set k v) xs (br_access b)\<rparr>"
proof (induction xs arbitrary: b)
  case Nil
  show ?case by (rule exI [of _ "br_proofs b"]) simp
next
  case (Cons x xs)
  obtain k a where x: "x = (k, a)" by (cases x)
  let ?b = "b\<lparr>br_proofs := map_set (ha_proof a) (ha_expires a) (br_proofs b), br_access := map_set k a (br_access b)\<rparr>"
  from Cons.IH [of ?b] show ?case by (simp add: x)
qed

lemma compaction_reads_back:
  assumes "ledger_ok e b" and "\<forall>p \<in> set (br_access b). ha_expires (snd p) > t0" and "unstarted b0"
  shows "\<exists>b'. load_events e t (ledger_events t0 b) b0 = Some b' \<and> reads_as b' b"
proof -
  let ?R = "flatten (br_revoked b)" and ?M = "flatten (br_marks b)"
  have ok: "nested_ok mark_entry (br_marks b)" "nested_ok (revoked_entry e) (br_revoked b)" "flat_ok vote_entry (br_votes b)"
    "flat_ok pairing_entry (br_pairings b)" "flat_ok (access_entry e) (br_access b)"
    using assms(1) by (simp_all add: ledger_ok_def)
  have acc: "filter (\<lambda>p. ha_expires (snd p) > t0) (br_access b) = br_access b" using assms(2) by (simp add: filter_id_conv)
  have evs: "ledger_events t0 b
      = map (\<lambda>(k, v). EvRevocation (rk_key v) (rk_revocation v)) ?R @ map (\<lambda>(k, v). EvPairing v) (br_pairings b)
        @ map (\<lambda>(k, v). EvHighWater v) ?M @ map (\<lambda>(k, v). EvVote v) (br_votes b) @ map (\<lambda>(k, a). EvAccess k a) (br_access b)"
    unfolding ledger_events_def acc map_flatten by (simp add: comp_def split_beta)
  have u: "unread b0" "inner (br_revoked b0) s = []" for s using assms(3) by (simp_all add: unstarted_def unread_def inner_def)
  obtain n1 h1 where l1: "load_events e t (map (\<lambda>(k, v). EvRevocation (rk_key v) (rk_revocation v)) ?R) b0
      = Some (b0\<lparr>br_revoked := br_revoked b, br_seq := n1, br_hash := h1\<rparr>)" (is "_ = Some ?b1")
    using revoked_table.load_all [of ?R e b0 t] flatten_spec [OF ok(2)] u assms(3)
    by (auto simp: revoked_at_def fold_revoked unstarted_def)
  have fl: "distinct (map fst m) \<Longrightarrow> fold (\<lambda>(k, v). map_set k v) m [] = m" for m :: "(string \<times> 'v) list"
    using flat_rebuild [of "[]" m] by simp
  obtain n2 h2 where l2: "load_events e t (map (\<lambda>(k, v). EvPairing v) (br_pairings b)) ?b1
      = Some (?b1\<lparr>br_pairings := br_pairings b, br_seq := n2, br_hash := h2\<rparr>)" (is "_ = Some ?b2")
    using pairings_table.load_all [of "br_pairings b" ?b1 e t] ok(4) assms(3) fl [of "br_pairings b"]
    by (auto simp: fold_pairings unstarted_def flat_ok_def)
  obtain n3 h3 where l3: "load_events e t (map (\<lambda>(k, v). EvHighWater v) ?M) ?b2
      = Some (?b2\<lparr>br_marks := br_marks b, br_seq := n3, br_hash := h3\<rparr>)" (is "_ = Some ?b3")
    using marks_table.load_all [of ?M ?b2 e t] flatten_spec [OF ok(1)] assms(3)
    by (auto simp: mark_at_def inner_def fold_marks unstarted_def)
  obtain n4 h4 where l4: "load_events e t (map (\<lambda>(k, v). EvVote v) (br_votes b)) ?b3
      = Some (?b3\<lparr>br_votes := br_votes b, br_seq := n4, br_hash := h4\<rparr>)" (is "_ = Some ?b4")
    using votes_table.load_all [of "br_votes b" ?b3 e t] ok(3) assms(3) flat_rebuild [of "[]" "br_votes b"]
    by (auto simp: fold_votes unstarted_def flat_ok_def)
  obtain p where p: "fold (\<lambda>(k, a) b. b\<lparr>br_proofs := map_set (ha_proof a) (ha_expires a) (br_proofs b), br_access := map_set k a (br_access b)\<rparr>)
      (br_access b) ?b4 = ?b4\<lparr>br_proofs := p, br_access := fold (\<lambda>(k, v). map_set k v) (br_access b) (br_access ?b4)\<rparr>"
    using fold_access by blast
  obtain n5 h5 where l5: "load_events e t (map (\<lambda>(k, a). EvAccess k a) (br_access b)) ?b4
      = Some (?b4\<lparr>br_proofs := p, br_access := br_access b, br_seq := n5, br_hash := h5\<rparr>)" (is "_ = Some ?b5")
    using access_table.load_all [of "br_access b" e ?b4 t] ok(5) assms(3) flat_rebuild [of "[]" "br_access b"] p
    by (auto simp: unstarted_def flat_ok_def)
  have "load_events e t (ledger_events t0 b) b0 = Some ?b5"
    unfolding evs load_events_append l1 option.case l2 l3 l4 l5 ..
  moreover have "reads_as ?b5 b" using ok(5) assms(3) by (simp add: reads_as_def unstarted_def flat_ok_def)
  ultimately show ?thesis by blast
qed

end
