(* ===== verification/BridgeRestart.thy ===== *)
theory BridgeRestart
  imports BridgeLedger
begin

text \<open>
  The operations of a bridge against its state file. \<open>restorable\<close> says what a new process that reads the file finds: the
  ledger of the old one, as long as the writes are whole; nothing less than it, if it can be read at all, in every other
  run. \<open>ledger_below\<close> says that nothing is forgotten. Every operation keeps both, and \<open>ledger_ok\<close>.
\<close>

section \<open>Contracts\<close>

definition ledger_below :: "bridge \<Rightarrow> bridge \<Rightarrow> bool" where
  "ledger_below b b' \<longleftrightarrow>
     (\<forall>k m. mark_at b k = Some m \<longrightarrow>
        (\<exists>m'. mark_at b' k = Some m' \<and> lm_generation m \<le> lm_generation m' \<and> lm_epoch m \<le> lm_epoch m' \<and> lm_seq m \<le> lm_seq m'))
     \<and> (\<forall>k v. map_of (br_votes b) k = Some v \<longrightarrow> map_of (br_votes b') k = Some v)
     \<and> (\<forall>k r. revoked_at b k = Some r \<longrightarrow> (\<exists>r'. revoked_at b' k = Some r' \<and> rk_generation r \<le> rk_generation r'))
     \<and> (\<forall>k p. map_of (br_pairings b) k = Some p \<longrightarrow> map_of (br_pairings b') k = Some p)"

lemma ledger_below_refl [simp]: "ledger_below b b"
  by (auto simp: ledger_below_def)

lemma ledger_below_trans:
  assumes "ledger_below b b'" and "ledger_below b' b''"
  shows "ledger_below b b''"
  unfolding ledger_below_def
proof (intro conjI allI impI)
  fix k m assume "mark_at b k = Some m"
  with assms show "\<exists>m'. mark_at b'' k = Some m' \<and> lm_generation m \<le> lm_generation m' \<and> lm_epoch m \<le> lm_epoch m' \<and> lm_seq m \<le> lm_seq m'"
    unfolding ledger_below_def by (meson order_trans)
next
  fix k r assume "revoked_at b k = Some r"
  with assms show "\<exists>r'. revoked_at b'' k = Some r' \<and> rk_generation r \<le> rk_generation r'"
    unfolding ledger_below_def by (meson order_trans)
qed (use assms in \<open>simp_all add: ledger_below_def\<close>)

lemma reads_below: "reads_as b' b \<Longrightarrow> ledger_below b b'"
  by (auto simp: ledger_below_def reads_as_def mark_at_def revoked_at_def)

text \<open>
  What a process that reads the file finds, \<open>b'\<close>, against the memory \<open>b\<close>: the same, at the same place of the hash chain;
  or, after a write that was not done as a whole, no less, but at another place, so that the next line breaks the chain.
\<close>

definition read_follows :: "bool \<Rightarrow> bridge \<Rightarrow> bridge \<Rightarrow> bool" where
  "read_follows whole b b' \<longleftrightarrow>
     reads_as b' b \<and> br_seq b' = br_seq b \<and> br_hash b' = br_hash b
     \<or> \<not> whole \<and> (br_seq b', br_hash b') \<noteq> (br_seq b, br_hash b) \<and> ledger_below b b'"

text \<open>
  \<open>whole\<close>: all writes so far were done as a whole or not at all, so the file can be read and gives the memory back.
  Otherwise it may be unreadable, but what is read is never less than the memory.
\<close>

definition restorable :: "bool \<Rightarrow> bridge_env \<Rightarrow> bridge \<Rightarrow> bool" where
  "restorable whole e b \<longleftrightarrow>
     (whole \<longrightarrow> \<not> br_torn b)
     \<and> (\<forall>l k a. Some l \<in> set (br_file b) \<and> ll_event l = EvAccess k a \<longrightarrow> access_entry e k a)
     \<and> (\<forall>t b0. unstarted b0 \<longrightarrow>
          (case load_lines e t (br_file b) b0 of None \<Rightarrow> \<not> whole | Some b' \<Rightarrow> read_follows whole b b'))"

lemma restorable_file:
  assumes "restorable whole e b" and "unstarted b0"
  shows "(case load_lines e t (br_file b) b0 of None \<Rightarrow> \<not> whole | Some b' \<Rightarrow> read_follows whole b b')"
  using assms by (simp add: restorable_def)

lemma follows_below: "read_follows whole b b' \<Longrightarrow> ledger_below b b'"
  using reads_below by (auto simp: read_follows_def)

text \<open>An operation from \<open>b\<close> to \<open>b'\<close> that keeps the contracts.\<close>

definition kept :: "bool \<Rightarrow> bridge_env \<Rightarrow> bridge \<Rightarrow> bridge \<Rightarrow> bool" where
  "kept whole e b b' \<longleftrightarrow>
     (ledger_ok e b \<and> restorable whole e b \<longrightarrow> ledger_ok e b' \<and> restorable whole e b' \<and> ledger_below b b')"

lemma kept_refl [simp]: "kept whole e b b"
  by (simp add: kept_def)

lemma kept_trans: "kept whole e b b' \<Longrightarrow> kept whole e b' b'' \<Longrightarrow> kept whole e b b''"
  unfolding kept_def using ledger_below_trans by blast

lemma same_fields:
  assumes "durable b' = durable b"
  shows "br_marks b' = br_marks b" "br_revoked b' = br_revoked b" "br_votes b' = br_votes b" "br_pairings b' = br_pairings b"
    "br_file b' = br_file b" "br_torn b' = br_torn b" "br_seq b' = br_seq b" "br_hash b' = br_hash b"
  using assms by (simp_all add: durable_def)

lemma below_same:
  assumes "durable b' = durable b"
  shows "ledger_below b b'" and "ledger_below b x \<Longrightarrow> ledger_below b' x"
  unfolding ledger_below_def mark_at_def revoked_at_def same_fields [OF assms] by auto

lemma kept_same:
  assumes "same_ledger b b'"
  shows "kept whole e b b'"
  unfolding kept_def
proof (intro impI conjI)
  obtain P where d: "durable b' = durable b" and a: "br_access b' = filter P (br_access b)" using assms by (auto simp: same_ledger_def)
  assume ok: "ledger_ok e b \<and> restorable whole e b"
  then have "distinct (map fst (br_access b))" by (simp add: ledger_ok_def flat_ok_def)
  then have "map_of (br_access b') k = Some x \<Longrightarrow> map_of (br_access b) k = Some x" for k x
    unfolding a by (rule map_of_filter_distinct)
  then have "reads_as b0 b'" if "reads_as b0 b" for b0
    using that unfolding reads_as_def same_fields [OF d] by blast
  then have "read_follows whole b' b0" if "read_follows whole b b0" for b0
    using that below_same(2) [OF d] unfolding read_follows_def same_fields [OF d] by blast
  then have "case load_lines e t (br_file b) b0 of None \<Rightarrow> \<not> whole | Some x \<Rightarrow> read_follows whole b' x" if "unstarted b0" for t b0
    using restorable_file [OF conjunct2 [OF ok] that, of t] by (cases "load_lines e t (br_file b) b0") simp_all
  then show "restorable whole e b'" using ok unfolding restorable_def same_fields [OF d] by blast
  show "ledger_ok e b'" using ledger_ok_same [OF assms] ok by blast
  show "ledger_below b b'" by (rule below_same(1) [OF d])
qed

text \<open>What is asked of the environment.\<close>

definition env_ok :: "bridge_env \<Rightarrow> bool" where
  "env_ok e \<longleftrightarrow>
     be_state_file e \<and> (\<forall>s. Hex64Schema (sha256Hex e s)) \<and> (\<forall>k. AuthorityFingerprintSchema (fingerprint e k))
     \<and> (\<forall>s. is_uuid e s \<longrightarrow> length s = 36)"

section \<open>Appending\<close>

definition memory :: "bridge \<Rightarrow> _" where
  "memory b = (br_marks b, br_revoked b, br_votes b, br_pairings b, br_access b)"

definition file_state :: "bridge \<Rightarrow> _" where
  "file_state b = (br_file b, br_torn b, br_seq b, br_hash b)"

lemma memory_same:
  assumes "memory b2 = memory m"
  shows "ledger_ok e b2 = ledger_ok e m" "ledger_below b b2 = ledger_below b m" "reads_as b' b2 = reads_as b' m"
    "ledger_below b2 b = ledger_below m b"
proof -
  have f: "br_marks b2 = br_marks m" "br_revoked b2 = br_revoked m" "br_votes b2 = br_votes m" "br_pairings b2 = br_pairings m"
    "br_access b2 = br_access m"
    using assms by (simp_all add: memory_def)
  show "ledger_ok e b2 = ledger_ok e m" "ledger_below b b2 = ledger_below b m" "reads_as b' b2 = reads_as b' m"
    "ledger_below b2 b = ledger_below m b"
    unfolding ledger_ok_def ledger_below_def reads_as_def mark_at_def revoked_at_def f by (rule refl)+
qed

text \<open>An event whose line leads from the memory \<open>b\<close> to the memory \<open>m\<close>.\<close>

definition event_leads :: "bridge_env \<Rightarrow> ledger_event \<Rightarrow> bridge \<Rightarrow> bridge \<Rightarrow> bool" where
  "event_leads e ev b m \<longleftrightarrow>
     ledger_ok e m \<and> ledger_below b m \<and> (\<forall>k a. ev = EvAccess k a \<longrightarrow> access_entry e k a)
     \<and> (\<forall>t b'. reads_as b' b \<longrightarrow> (\<exists>b''. apply_event e t ev b' = Some b'' \<and> reads_as b'' m))"

lemma append_ok:
  assumes "appendStateEvent e oc ev b = (True, b1)" and "be_state_file e"
  shows "b1 = (write_line (ledger_line_of e (br_seq b + 1) (br_hash b) ev) b)
      \<lparr>br_seq := br_seq b + 1, br_hash := Some (line_hash e 1 (br_seq b + 1) (br_hash b) ev)\<rparr>"
  using assms by (cases oc) (auto simp: appendStateEvent_def Let_def ledger_line_of_def)

lemma append_failed:
  assumes "appendStateEvent e oc ev b = (False, b1)" and "be_state_file e"
  shows "oc = Unwritten \<and> b1 = b \<or> oc = Cut \<and> b1 = b\<lparr>br_torn := True\<rparr>
    \<or> oc = Unsynced \<and> b1 = write_line (ledger_line_of e (br_seq b + 1) (br_hash b) ev) b"
  using assms by (cases oc) (auto simp: appendStateEvent_def Let_def)

lemma append_memory:
  assumes "appendStateEvent e oc ev b = (ok, b1)" and "be_state_file e"
  shows "br_marks b1 = br_marks b" "br_revoked b1 = br_revoked b" "br_votes b1 = br_votes b" "br_pairings b1 = br_pairings b"
    "br_access b1 = br_access b" "br_records b1 = br_records b" "br_socket_hosts b1 = br_socket_hosts b"
  using assms by (cases oc; auto simp: appendStateEvent_def Let_def write_line_def)+

text \<open>What a process reads once the line of the event follows the file.\<close>

lemma read_line:
  assumes "restorable whole e b" and "event_leads e ev b m" and "unstarted b0"
  shows "case load_lines e t (br_file b @ [if br_torn b then None else Some (ledger_line_of e (br_seq b + 1) (br_hash b) ev)]) b0 of
      None \<Rightarrow> \<not> whole
    | Some b' \<Rightarrow> reads_as b' m \<and> br_seq b' = br_seq b + 1 \<and> br_hash b' = Some (line_hash e 1 (br_seq b + 1) (br_hash b) ev)"
proof (cases "load_lines e t (br_file b) b0")
  case None
  then show ?thesis using restorable_file [OF assms(1,3), of t] by (simp add: load_lines_append)
next
  case (Some b')
  with restorable_file [OF assms(1,3), of t] have f: "read_follows whole b b'" by simp
  show ?thesis
  proof (cases "br_torn b")
    case True
    then show ?thesis using assms(1) by (simp add: load_lines_append Some restorable_def)
  next
    case nt: False
    from f consider "reads_as b' b" "br_seq b' = br_seq b" "br_hash b' = br_hash b"
      | "\<not> whole" "br_seq b \<noteq> br_seq b' \<or> br_hash b \<noteq> br_hash b'"
      unfolding read_follows_def by auto
    then show ?thesis
    proof cases
      case 1
      obtain b'' where "apply_event e t ev b' = Some b''" "reads_as b'' m" using assms(2) 1(1) unfolding event_leads_def by blast
      then show ?thesis using 1(2,3) nt by (simp add: load_lines_append Some ledger_line_of_def reads_as_def)
    next
      case 2
      then show ?thesis using nt by (auto simp: load_lines_append Some ledger_line_of_def)
    qed
  qed
qed

lemma line_events:
  assumes "restorable whole e b" and "event_leads e ev b m"
    and "Some l \<in> set (br_file b @ [if br_torn b then None else Some (ledger_line_of e n h ev)])" and "ll_event l = EvAccess k a"
  shows "access_entry e k a"
  using assms by (auto simp: restorable_def event_leads_def ledger_line_of_def split: if_splits)

lemma restorable_appended:
  assumes r: "restorable whole e b" and leads: "event_leads e ev b m"
    and "appendStateEvent e oc ev b = (True, b1)" and "be_state_file e"
    and "memory b2 = memory m" and "file_state b2 = file_state b1"
  shows "restorable whole e b2"
  unfolding restorable_def
proof (intro conjI allI impI)
  let ?file = "br_file b @ [if br_torn b then None else Some (ledger_line_of e (br_seq b + 1) (br_hash b) ev)]"
  have f: "br_file b2 = ?file" "br_seq b2 = br_seq b + 1"
    "br_hash b2 = Some (line_hash e 1 (br_seq b + 1) (br_hash b) ev)" "\<not> br_torn b2"
    using assms(6) unfolding append_ok [OF assms(3,4)] file_state_def by (simp_all add: write_line_def)
  show "\<not> br_torn b2" by (rule f)
  show "access_entry e k a" if "Some l \<in> set (br_file b2) \<and> ll_event l = EvAccess k a" for l k a
    using line_events [OF r leads, of l "br_seq b + 1" "br_hash b"] that unfolding f(1) by blast
  show "case load_lines e t (br_file b2) b0 of None \<Rightarrow> \<not> whole | Some b' \<Rightarrow> read_follows whole b2 b'" if "unstarted b0" for t b0
    using read_line [OF r leads that, of t] unfolding f(1)
    by (cases "load_lines e t ?file b0") (simp_all add: read_follows_def f memory_same [OF assms(5)])
qed

lemma kept_failed:
  assumes leads: "ledger_ok e b \<Longrightarrow> event_leads e ev b m" and "appendStateEvent e oc ev b = (False, b1)" and "be_state_file e"
    and "whole \<longrightarrow> oc \<in> {Synced, Unwritten}"
  shows "kept whole e b b1"
proof -
  from append_failed [OF assms(2,3)] consider "b1 = b" | "\<not> whole" "b1 = b\<lparr>br_torn := True\<rparr>"
    | "\<not> whole" "b1 = write_line (ledger_line_of e (br_seq b + 1) (br_hash b) ev) b"
    using assms(4) by auto
  then show ?thesis
  proof cases
    case 2
    then have "memory b1 = memory b" by (simp add: memory_def)
    note m = memory_same [OF this]
    have f: "br_file b1 = br_file b" "br_seq b1 = br_seq b" "br_hash b1 = br_hash b" using 2(2) by simp_all
    show ?thesis using 2(1) unfolding kept_def restorable_def read_follows_def f m by simp
  next
    case 3
    let ?file = "br_file b @ [if br_torn b then None else Some (ledger_line_of e (br_seq b + 1) (br_hash b) ev)]"
    have f: "br_file b1 = ?file" "br_seq b1 = br_seq b" "br_hash b1 = br_hash b" using 3(2) by (simp_all add: write_line_def)
    have "memory b1 = memory b" using 3(2) by (simp add: memory_def write_line_def)
    note m = memory_same [OF this]
    show ?thesis
      unfolding kept_def
    proof (intro impI conjI)
      assume ok: "ledger_ok e b \<and> restorable whole e b"
      then have l: "event_leads e ev b m" using leads by blast
      have r: "restorable whole e b" using ok by blast
      have below: "ledger_below b m" using l by (simp add: event_leads_def)
      have "ledger_below b1 b'" if "reads_as b' m" for b'
        using ledger_below_trans [OF below reads_below [OF that]] by (simp add: m)
      then have "case load_lines e t (br_file b1) b0 of None \<Rightarrow> \<not> whole | Some b' \<Rightarrow> read_follows whole b1 b'" if "unstarted b0" for t b0
        using read_line [OF r l that, of t] 3(1) unfolding f(1) by (cases "load_lines e t ?file b0") (auto simp: read_follows_def f)
      moreover have "access_entry e k a" if "Some x \<in> set (br_file b1)" "ll_event x = EvAccess k a" for x k a
        using line_events [OF r l, of x "br_seq b + 1" "br_hash b"] that unfolding f(1) by blast
      ultimately show "restorable whole e b1" using 3(1) unfolding restorable_def by blast
    qed (simp_all add: m)
  qed simp
qed

lemma kept_append:
  assumes leads: "ledger_ok e b \<Longrightarrow> event_leads e ev b m" and a: "appendStateEvent e oc ev b = (ok, b1)" and "be_state_file e"
    and "whole \<longrightarrow> oc \<in> {Synced, Unwritten}" and "ok \<Longrightarrow> memory b2 = memory m \<and> file_state b2 = file_state b1"
  shows "kept whole e b (if ok then b2 else b1)"
proof (cases ok)
  case True
  then have s: "memory b2 = memory m" "file_state b2 = file_state b1" using assms(5) by blast+
  show ?thesis
    using restorable_appended [OF _ leads a [unfolded eqTrueI [OF True]] assms(3) s] leads True
    by (auto simp: kept_def memory_same [OF s(1)] event_leads_def)
next
  case False
  then show ?thesis using kept_failed [OF leads _ assms(3,4)] a by simp
qed

section \<open>Compaction\<close>

lemma chain_lines_Nil_iff: "chain_lines e n prev evs = [] \<longleftrightarrow> evs = []"
  by (cases evs) (simp_all add: Let_def)

lemma chain_line_event: "l \<in> set (chain_lines e n prev evs) \<Longrightarrow> ll_event l \<in> set evs"
  by (induction e n prev evs rule: chain_lines.induct) (auto simp: Let_def ledger_line_of_def)

lemma compacted_access:
  assumes "ledger_ok e b" and "Some l \<in> set (map Some (chain_lines e 0 None (ledger_events t b)))" and "ll_event l = EvAccess k a"
  shows "access_entry e k a"
proof -
  have "EvAccess k a \<in> set (ledger_events t b)" using chain_line_event [of l] assms(2,3) by auto
  then have "(k, a) \<in> set (br_access b)" by (auto simp: ledger_events_def)
  then show ?thesis using assms(1) by (auto simp: ledger_ok_def flat_ok_def)
qed

text \<open>The compacted file, with the place of the chain it ends at or another one.\<close>

lemma compacted_reads:
  assumes ok: "ledger_ok e b" and acc: "\<forall>p \<in> set (br_access b). ha_expires (snd p) > t" and "unstarted b0"
  shows "\<exists>b'. load_lines e t0 (map Some (chain_lines e 0 None (ledger_events t b))) b0 = Some b' \<and> reads_as b' b
    \<and> br_seq b' = int (length (chain_lines e 0 None (ledger_events t b)))
    \<and> br_hash b' = (let ls = chain_lines e 0 None (ledger_events t b) in if ls = [] then None else Some (ll_hash (last ls)))"
proof -
  obtain b2 where l: "load_events e t0 (ledger_events t b) b0 = Some b2" and r: "reads_as b2 b"
    using compaction_reads_back [OF ok acc assms(3)] by blast
  have z: "br_seq b0 = 0" "br_hash b0 = None" using assms(3) by (simp_all add: unstarted_def)
  have "load_lines e t0 (map Some (chain_lines e 0 None (ledger_events t b))) b0 = Some b2" using l by (simp add: load_events_def z)
  then show ?thesis using r load_events_chain [OF l] unfolding z by (simp add: chain_lines_Nil_iff Let_def)
qed

lemma kept_compact:
  assumes "maybeCompactState e io t b = (ok, b')" and "whole \<longrightarrow> io_compact io \<noteq> Undated"
  shows "kept whole e b b'"
proof -
  let ?b = "cleanup t b"
  let ?ls = "chain_lines e 0 None (ledger_events t ?b)"
  let ?u = "?b\<lparr>br_file := map Some ?ls, br_torn := False\<rparr>"
  let ?d = "?u\<lparr>br_seq := int (length ?ls), br_hash := (if ?ls = [] then None else Some (ll_hash (last ?ls)))\<rparr>"
  have c: "kept whole e b ?b" by (rule kept_same [OF same_cleanup])
  have acc: "\<forall>p \<in> set (br_access ?b). ha_expires (snd p) > t" by (auto simp: cleanup_fields)
  have new: "kept whole e ?b x"
    if x: "memory x = memory ?b" "br_file x = map Some ?ls" "\<not> br_torn x"
      and place: "(br_seq x, br_hash x) = (br_seq ?d, br_hash ?d) \<or> \<not> whole" for x
    unfolding kept_def
  proof (intro impI conjI)
    assume "ledger_ok e ?b \<and> restorable whole e ?b"
    then have ok: "ledger_ok e ?b" by blast
    note m = memory_same [OF x(1)]
    show "ledger_ok e x" "ledger_below ?b x" using ok by (simp_all add: m)
    show "restorable whole e x"
      unfolding restorable_def x(2)
    proof (intro conjI allI impI)
      show "\<not> br_torn x" by (rule x(3))
      show "access_entry e k a" if "Some l \<in> set (map Some ?ls) \<and> ll_event l = EvAccess k a" for l k a
        using compacted_access [OF ok] that by blast
      fix t0 b0 assume u: "unstarted b0"
      obtain b2 where l: "load_lines e t0 (map Some ?ls) b0 = Some b2" and r: "reads_as b2 ?b"
        and p: "br_seq b2 = int (length ?ls)" "br_hash b2 = (let ls = ?ls in if ls = [] then None else Some (ll_hash (last ls)))"
        using compacted_reads [OF ok acc u, of t0] by blast
      have "br_seq ?d = br_seq b2" "br_hash ?d = br_hash b2" by (simp_all add: p Let_def)
      then have "read_follows whole x b2"
        using r reads_below [OF r] place unfolding read_follows_def m by auto
      then show "case load_lines e t0 (map Some ?ls) b0 of None \<Rightarrow> \<not> whole | Some b' \<Rightarrow> read_follows whole x b'" by (simp add: l)
    qed
  qed
  have d: "kept whole e b ?d" by (rule kept_trans [OF c new]) (simp_all add: memory_def)
  have u: "kept whole e b ?u" if "io_compact io = Undated"
    by (rule kept_trans [OF c new]) (use that assms(2) in \<open>auto simp: memory_def\<close>)
  have "kept whole e b (snd (maybeCompactState e io t b))"
  proof (cases "\<not> be_state_file e \<or> br_file b = [] \<and> \<not> br_torn b \<or> \<not> io_big io \<and> br_seq b < 10000")
    case False
    then show ?thesis
      unfolding maybeCompactState_def Let_def using c d u by (cases "io_compact io") (simp_all only: snd_conv compact_outcome.case if_False de_Morgan_disj simp_thms)
  qed (auto simp: maybeCompactState_def)
  then show ?thesis using assms(1) by simp
qed

text \<open>An event appended, and the file compacted.\<close>

lemma kept_persisted:
  assumes leads: "ledger_ok e b \<Longrightarrow> event_leads e ev b m" and a: "appendStateEvent e (io_append io) ev b = (ok, b1)" and f: "be_state_file e"
    and io: "whole \<longrightarrow> io_atomic io" and same: "ok \<Longrightarrow> memory b2 = memory m \<and> file_state b2 = file_state b1"
  shows "\<not> ok \<Longrightarrow> kept whole e b b1" "ok \<Longrightarrow> kept whole e b b2" "ok \<Longrightarrow> kept whole e b (snd (maybeCompactState e io t b2))"
proof -
  have oc: "whole \<longrightarrow> io_append io \<in> {Synced, Unwritten}" "whole \<longrightarrow> io_compact io \<noteq> Undated" using io by (auto simp: io_atomic_def)
  note k = kept_append [OF leads a f oc(1) same]
  show "kept whole e b b1" if "\<not> ok" using k that by simp
  show k2: "kept whole e b b2" if ok using k that by simp
  show "kept whole e b (snd (maybeCompactState e io t b2))" if ok
    by (rule kept_trans [OF k2 [OF that] kept_compact [OF surjective_pairing oc(2)]])
qed

section \<open>Marks\<close>

text \<open>The outcome of \<open>applyHighWaterMark\<close> depends on the marks alone.\<close>

definition mark_refused :: "ledger_mark option \<Rightarrow> ledger_mark \<Rightarrow> bool" where
  "mark_refused current m \<longleftrightarrow>
     (case current of
        None \<Rightarrow> False
      | Some cur \<Rightarrow> lm_generation m < lm_generation cur \<or> (lm_generation m = lm_generation cur \<and> lm_grant m \<noteq> lm_grant cur)
                    \<or> lm_epoch m < lm_epoch cur \<or> lm_seq m \<le> lm_seq cur)"

definition mark_scope :: "ledger_mark \<Rightarrow> string" where
  "mark_scope m = authorityScope (lm_authority m) (lm_server m)"

lemma applyHighWaterMark_cases:
  "applyHighWaterMark m b =
     (if mark_refused (mark_at b (mark_scope m, lm_host m)) m then (False, b)
      else (True, b\<lparr>br_marks := nput (mark_scope m) (lm_host m) m (br_marks b)\<rparr>))"
  by (auto simp: applyHighWaterMark_def Let_def mark_refused_def mark_at_def mark_scope_def nput_def split: option.splits)

lemma mark_leads:
  assumes ok: "ledger_ok e b" and nr: "\<not> mark_refused (mark_at b (mark_scope m, lm_host m)) m" and p: "persistedHighWater m"
  shows "event_leads e (EvHighWater m) b (b\<lparr>br_marks := nput (mark_scope m) (lm_host m) m (br_marks b)\<rparr>)" (is "event_leads e _ b ?b2")
  unfolding event_leads_def
proof (intro conjI allI impI)
  have "mark_entry (mark_scope m) (lm_host m) m" using p by (simp add: mark_entry_def mark_scope_def)
  then show "ledger_ok e ?b2" using ok by (simp add: ledger_ok_def nested_ok_put)
  show "ledger_below b ?b2"
    unfolding ledger_below_def
  proof (intro conjI allI impI)
    fix k m0 assume k: "mark_at b k = Some m0"
    show "\<exists>m'. mark_at ?b2 k = Some m' \<and> lm_generation m0 \<le> lm_generation m' \<and> lm_epoch m0 \<le> lm_epoch m' \<and> lm_seq m0 \<le> lm_seq m'"
    proof (cases "k = (mark_scope m, lm_host m)")
      case True
      then show ?thesis using k nr by (simp add: mark_at_def inner_nput mark_refused_def)
    next
      case False
      then show ?thesis using k by (cases k) (auto simp: mark_at_def inner_nput)
    qed
  qed (simp_all add: revoked_at_def)
  fix t b' assume r: "reads_as b' b"
  have "mark_at b' (mark_scope m, lm_host m) = mark_at b (mark_scope m, lm_host m)" using r by (simp add: reads_as_def mark_at_def)
  then have "apply_event e t (EvHighWater m) b' = Some (b'\<lparr>br_marks := nput (mark_scope m) (lm_host m) m (br_marks b')\<rparr>)"
    using nr p by (simp add: applyHighWaterMark_cases)
  moreover have "reads_as (b'\<lparr>br_marks := nput (mark_scope m) (lm_host m) m (br_marks b')\<rparr>) ?b2" using r by (simp add: reads_as_def)
  ultimately show "\<exists>b''. apply_event e t (EvHighWater m) b' = Some b'' \<and> reads_as b'' ?b2" by blast
qed simp

section \<open>Votes\<close>

lemma applyPromotionVote_new:
  "map_of (br_votes b) (promotionVoteKey (vm_authority v) (vm_server v) (vm_epoch v)) = None \<Longrightarrow>
     applyPromotionVote v b = (True, b\<lparr>br_votes := map_set (promotionVoteKey (vm_authority v) (vm_server v) (vm_epoch v)) v (br_votes b)\<rparr>)"
  by (simp add: applyPromotionVote_def)

lemma vote_leads:
  assumes ok: "ledger_ok e b" and p: "persistedPromotionVote v"
    and new: "map_of (br_votes b) (promotionVoteKey (vm_authority v) (vm_server v) (vm_epoch v)) = None"
  shows "event_leads e (EvVote v) b
    (b\<lparr>br_votes := map_set (promotionVoteKey (vm_authority v) (vm_server v) (vm_epoch v)) v (br_votes b)\<rparr>)" (is "event_leads e _ b ?b2")
  unfolding event_leads_def
proof (intro conjI allI impI)
  let ?k = "promotionVoteKey (vm_authority v) (vm_server v) (vm_epoch v)"
  show "ledger_ok e ?b2" using ok p by (simp add: ledger_ok_def flat_ok_set vote_entry_def)
  show "ledger_below b ?b2" unfolding ledger_below_def using new by (auto simp: mark_at_def revoked_at_def map_of_map_set)
  fix t b' assume r: "reads_as b' b"
  then have "apply_event e t (EvVote v) b' = Some (b'\<lparr>br_votes := map_set ?k v (br_votes b')\<rparr>)"
    using new p by (simp add: applyPromotionVote_new reads_as_def)
  moreover have "reads_as (b'\<lparr>br_votes := map_set ?k v (br_votes b')\<rparr>) ?b2" using r by (simp add: reads_as_def)
  ultimately show "\<exists>b''. apply_event e t (EvVote v) b' = Some b'' \<and> reads_as b'' ?b2" by blast
qed simp

section \<open>Pairings and access\<close>

lemma pairing_leads:
  assumes ok: "ledger_ok e b" and p: "pairing_entry (pc_token p) p" and new: "map_of (br_pairings b) (pc_token p) = None"
  shows "event_leads e (EvPairing p) b (b\<lparr>br_pairings := map_set (pc_token p) p (br_pairings b)\<rparr>)" (is "event_leads e _ b ?b2")
  unfolding event_leads_def
proof (intro conjI allI impI)
  show "ledger_ok e ?b2" using ok p by (simp add: ledger_ok_def flat_ok_set)
  show "ledger_below b ?b2" unfolding ledger_below_def using new by (auto simp: mark_at_def revoked_at_def map_of_map_set)
  fix t b' assume r: "reads_as b' b"
  have "apply_event e t (EvPairing p) b' = Some (b'\<lparr>br_pairings := map_set (pc_token p) p (br_pairings b')\<rparr>)"
    using p by (simp add: pairing_entry_def)
  moreover have "reads_as (b'\<lparr>br_pairings := map_set (pc_token p) p (br_pairings b')\<rparr>) ?b2" using r by (simp add: reads_as_def)
  ultimately show "\<exists>b''. apply_event e t (EvPairing p) b' = Some b'' \<and> reads_as b'' ?b2" by blast
qed simp

lemma access_leads:
  assumes ok: "ledger_ok e b" and p: "access_entry e k a"
  shows "event_leads e (EvAccess k a) b (b\<lparr>br_access := map_set k a (br_access b)\<rparr>)" (is "event_leads e _ b ?b2")
  unfolding event_leads_def
proof (intro conjI allI impI)
  show "ledger_ok e ?b2" using ok p by (simp add: ledger_ok_def flat_ok_set)
  show "ledger_below b ?b2" unfolding ledger_below_def by (auto simp: mark_at_def revoked_at_def)
  show "access_entry e k' a'" if "EvAccess k a = EvAccess k' a'" for k' a' using that p by simp
  fix t b' assume r: "reads_as b' b"
  let ?b = "b'\<lparr>br_proofs := map_set (ha_proof a) (ha_expires a) (br_proofs b'), br_access := map_set k a (br_access b')\<rparr>"
  have "apply_event e t (EvAccess k a) b' = Some ?b" using p by (simp add: access_entry_def)
  moreover have "reads_as ?b ?b2" using r by (auto simp: reads_as_def map_of_map_set distinct_map_set)
  ultimately show "\<exists>b''. apply_event e t (EvAccess k a) b' = Some b'' \<and> reads_as b'' ?b2" by blast
qed

section \<open>Revocations\<close>

definition revoked_mark :: "string \<Rightarrow> revocation signed \<Rightarrow> revocation_mark" where
  "revoked_mark key rv = \<lparr>rk_at = rv_at (s_payload rv), rk_generation = rv_generation (s_payload rv), rk_key = key, rk_revocation = rv\<rparr>"

lemma applyRevocation_fields:
  fixes rv :: "revocation signed"
  defines "p \<equiv> s_payload rv"
  shows "br_revoked (applyRevocation t fp key rv b)
       = nput (authorityScope fp (rv_server p)) (rv_grant p) (revoked_mark key rv) (br_revoked b)"
    "br_marks (applyRevocation t fp key rv b) = at_key (authorityScope fp (rv_server p)) (raise_marks (rv_grant p) (rv_generation p)) (br_marks b)"
    "br_votes (applyRevocation t fp key rv b) = br_votes b" "br_pairings (applyRevocation t fp key rv b) = br_pairings b"
    "br_access (applyRevocation t fp key rv b) = br_access b" "br_file (applyRevocation t fp key rv b) = br_file b"
    "br_torn (applyRevocation t fp key rv b) = br_torn b" "br_seq (applyRevocation t fp key rv b) = br_seq b"
    "br_hash (applyRevocation t fp key rv b) = br_hash b"
proof -
  let ?b1 = "b\<lparr>br_revoked := map_set (authorityScope fp (rv_server p)) (map_set (rv_grant p) (revoked_mark key rv)
                  (inner (br_revoked b) (authorityScope fp (rv_server p)))) (br_revoked b),
               br_records := at_key (authorityScope fp (rv_server p)) (drop_revoked_records (rv_grant p) (rv_generation p)) (br_records b),
               br_marks := at_key (authorityScope fp (rv_server p)) (raise_marks (rv_grant p) (rv_generation p)) (br_marks b)\<rparr>"
  have d: "durable (applyRevocation t fp key rv b) = durable ?b1" "br_access (applyRevocation t fp key rv b) = br_access ?b1"
    by (simp_all add: applyRevocation_def Let_def durable_simps revoked_mark_def p_def)
  show "br_revoked (applyRevocation t fp key rv b) = nput (authorityScope fp (rv_server p)) (rv_grant p) (revoked_mark key rv) (br_revoked b)"
    "br_marks (applyRevocation t fp key rv b) = at_key (authorityScope fp (rv_server p)) (raise_marks (rv_grant p) (rv_generation p)) (br_marks b)"
    "br_votes (applyRevocation t fp key rv b) = br_votes b" "br_pairings (applyRevocation t fp key rv b) = br_pairings b"
    "br_access (applyRevocation t fp key rv b) = br_access b" "br_file (applyRevocation t fp key rv b) = br_file b"
    "br_torn (applyRevocation t fp key rv b) = br_torn b" "br_seq (applyRevocation t fp key rv b) = br_seq b"
    "br_hash (applyRevocation t fp key rv b) = br_hash b"
    using same_fields [OF d(1)] d(2) by (simp_all add: nput_def)
qed

definition revocation_new :: "bridge_env \<Rightarrow> bridge \<Rightarrow> string \<Rightarrow> string \<Rightarrow> revocation signed \<Rightarrow> bool" where
  "revocation_new e b fp key rv \<longleftrightarrow>
     (let p = s_payload rv; scope = authorityScope fp (rv_server p); previous = revoked_at b (scope, rv_grant p) in
        (case previous of None \<Rightarrow> True
         | Some k \<Rightarrow>
             \<not> (rv_generation p = rk_generation k \<and> rv_at p = rk_at k \<and> rk_key k = key
                \<and> revocation_text (rk_revocation k) = revocation_text rv)
             \<and> \<not> (rv_generation p < rk_generation k \<or> (rv_generation p = rk_generation k \<and> rv_at p \<le> rk_at k)))
        \<and> \<not> rv_generation p \<le> accepted_generation (inner (br_marks b) scope) (rv_grant p))"

lemma revoke_again:
  assumes "verifySignedHostGrantRevocation e rv key = Some rv" and "publicKeyFingerprint e key = Some fp" and "revocation_new e b fp key rv"
  shows "revoke e io key (Some rv) False t b
     = (Inr (Inr (rv_grant (s_payload rv), rv_at (s_payload rv), rv_generation (s_payload rv))), applyRevocation t fp key rv b)"
  using assms(3) unfolding revoke_def Let_def revocation_new_def revoked_at_def
  by (auto simp: assms(1,2) split: option.splits)

lemma revoke_persists:
  assumes "revoke e io key rv0 True t b = (r, b')"
  shows "b' = b \<or>
     (\<exists>rv fp ok b1. verifySignedHostGrantRevocation e rv key = Some rv \<and> publicKeyFingerprint e key = Some fp
        \<and> revocation_new e b fp key rv \<and> appendStateEvent e (io_append io) (EvRevocation key rv) b = (ok, b1)
        \<and> b' = (if ok then snd (maybeCompactState e io t (applyRevocation t fp key rv b1)) else b1))"
proof (cases "b' = b")
  case False
  then obtain rv fp where rv0: "rv0 = Some rv" and v: "verifySignedHostGrantRevocation e rv key = Some rv"
    and fp: "publicKeyFingerprint e key = Some fp"
    using assms by (auto simp: revoke_def verifySignedHostGrantRevocation_def split: option.splits if_splits)
  have n: "revocation_new e b fp key rv"
    using assms False unfolding rv0 revoke_def Let_def revocation_new_def revoked_at_def
    by (auto simp: v fp split: option.splits if_splits)
  obtain ok b1 where a: "appendStateEvent e (io_append io) (EvRevocation key rv) b = (ok, b1)"
    by (cases "appendStateEvent e (io_append io) (EvRevocation key rv) b")
  have "b' = (if ok then snd (maybeCompactState e io t (applyRevocation t fp key rv b1)) else b1)"
    using assms False unfolding rv0 revoke_def Let_def
    by (auto simp: v fp a split: option.splits if_splits prod.splits)
  with v fp n a show ?thesis by blast
qed simp

lemma revoked_generation_positive:
  "verifySignedHostGrantRevocation e rv key = Some rv' \<Longrightarrow> positiveSchema (rv_generation (s_payload rv))"
  by (auto simp: verifySignedHostGrantRevocation_def signed_schema_def HostGrantRevocationPayloadSchema_def split: if_splits)

lemma revocation_ok:
  assumes ok: "ledger_ok e b" and v: "verifySignedHostGrantRevocation e rv key = Some rv" and fp: "publicKeyFingerprint e key = Some fp"
  shows "ledger_ok e (applyRevocation t fp key rv b)"
proof -
  let ?s = "authorityScope fp (rv_server (s_payload rv))"
  let ?g = "rv_grant (s_payload rv)"
  have e: "revoked_entry e ?s ?g (revoked_mark key rv)"
    using v fp by (auto simp: revoked_entry_def revoked_mark_def)
  have "positiveSchema (rv_generation (s_payload rv))" by (rule revoked_generation_positive [OF v])
  then have m: "mark_entry s h x \<Longrightarrow> mark_entry s h (x\<lparr>lm_generation := rv_generation (s_payload rv)\<rparr>)" for s h x
    by (auto simp: mark_entry_def persistedHighWater_def positiveSchema_def)
  have "nested_ok mark_entry (at_key ?s (raise_marks ?g (rv_generation (s_payload rv))) (br_marks b))"
    using ok m by (intro nested_ok_raise) (auto simp: ledger_ok_def)
  then show ?thesis
    using ok e by (simp add: ledger_ok_def applyRevocation_fields nested_ok_put)
qed

lemma revocation_leads:
  assumes ok: "ledger_ok e b" and v: "verifySignedHostGrantRevocation e rv key = Some rv" and fp: "publicKeyFingerprint e key = Some fp"
    and new: "revocation_new e b fp key rv"
  shows "event_leads e (EvRevocation key rv) b (applyRevocation t fp key rv b)" (is "event_leads e _ b ?b2")
  unfolding event_leads_def
proof (intro conjI allI impI)
  note ap = applyRevocation_fields
  let ?s = "authorityScope fp (rv_server (s_payload rv))"
  let ?g = "rv_grant (s_payload rv)"
  show "\<exists>b''. apply_event e t0 (EvRevocation key rv) b' = Some b'' \<and> reads_as b'' ?b2" if r: "reads_as b' b" for t0 b'
  proof -
    have "revocation_new e b' fp key rv" using new r by (simp add: revocation_new_def revoked_at_def reads_as_def)
    then have "apply_event e t0 (EvRevocation key rv) b' = Some (applyRevocation t0 fp key rv b')"
      by (simp add: revoke_again [OF v fp])
    moreover have "br_socket_hosts (applyRevocation t0 fp key rv b') = []" "br_records (applyRevocation t0 fp key rv b') = []"
      using r by (simp_all add: reads_as_def applyRevocation_def Let_def at_key_def)
    then have "reads_as (applyRevocation t0 fp key rv b') ?b2" using r unfolding reads_as_def by (simp add: ap)
    ultimately show ?thesis by blast
  qed
  show "ledger_ok e ?b2" by (rule revocation_ok [OF ok v fp])
  show "ledger_below b ?b2"
    unfolding ledger_below_def
  proof (intro conjI allI impI)
    fix k x assume k: "mark_at b k = Some x"
    have "raise_marks ?g (rv_generation (s_payload rv)) [] = []" by (simp add: raise_marks_def)
    then have "mark_at ?b2 k = Some (if fst k = ?s \<and> lm_grant x = ?g \<and> lm_generation x < rv_generation (s_payload rv)
                                     then x\<lparr>lm_generation := rv_generation (s_payload rv)\<rparr> else x)"
      using k by (cases "fst k = ?s") (simp_all add: mark_at_def ap inner_at_key map_of_raise)
    then show "\<exists>m'. mark_at ?b2 k = Some m' \<and> lm_generation x \<le> lm_generation m' \<and> lm_epoch x \<le> lm_epoch m' \<and> lm_seq x \<le> lm_seq m'"
      by simp
  next
    fix k x assume k: "revoked_at b k = Some x"
    show "\<exists>r'. revoked_at ?b2 k = Some r' \<and> rk_generation x \<le> rk_generation r'"
    proof (cases "k = (?s, ?g)")
      case True
      with k new show ?thesis by (auto simp: revoked_at_def ap inner_nput revoked_mark_def revocation_new_def Let_def)
    next
      case False
      then show ?thesis using k by (cases k) (auto simp: revoked_at_def ap inner_nput)
    qed
  qed (simp_all add: ap)
qed simp

lemma kept_revoke:
  assumes "revoke e io key rv0 True t b = (r, b')" and "be_state_file e" and "whole \<longrightarrow> io_atomic io"
  shows "kept whole e b b'"
  using revoke_persists [OF assms(1)]
proof (elim disjE exE conjE)
  fix rv fp ok b1
  assume v: "verifySignedHostGrantRevocation e rv key = Some rv" and fp: "publicKeyFingerprint e key = Some fp"
    and new: "revocation_new e b fp key rv" and a: "appendStateEvent e (io_append io) (EvRevocation key rv) b = (ok, b1)"
    and b': "b' = (if ok then snd (maybeCompactState e io t (applyRevocation t fp key rv b1)) else b1)"
  have "memory (applyRevocation t fp key rv b1) = memory (applyRevocation t fp key rv b)"
    "file_state (applyRevocation t fp key rv b1) = file_state b1"
    using append_memory [OF a assms(2)] by (simp_all add: memory_def file_state_def applyRevocation_fields)
  then show ?thesis using kept_persisted [OF revocation_leads [OF _ v fp new] a assms(2,3)] b' by simp
qed simp

section \<open>Operations\<close>

lemma access_key_slots:
  "stored_access_key (k @ '':registration'') = k @ '':registration''" "stored_access_key (k @ '':witness'') = k @ '':witness''"
  by (simp_all add: stored_access_key_def strip_slot_def strip_prefix_def)

lemma kept_grant_access:
  fixes pr :: "access_proof signed"
  assumes "env_ok e" and "clock_ok t" and io: "whole \<longrightarrow> io_atomic io" and fp: "publicKeyFingerprint e key = Some fp"
    and v: "verifySignedHostGrant e v key t = Some v" and ok: "access_proof_ok e b0 scope (s_payload v) pr t"
  shows "kept whole e b (snd (grant_access e io tok t fp (s_payload v) (s_payload pr) b))"
proof -
  let ?g = "s_payload v"
  let ?p = "s_payload pr"
  let ?a = "\<lparr>ha_token = sha256Hex e tok, ha_grant = gp_grant ?g, ha_generation = gp_generation ?g,
             ha_expires = min (gp_expires ?g) (t + 24 * 3600000), ha_proof = xp_proof ?p\<rparr>"
  let ?k = "hostBindingKey fp (gp_server ?g) (gp_host ?g) @ '':'' @ xp_slot ?p"
  have f: "be_state_file e" using assms(1) by (simp add: env_ok_def)
  have slot: "xp_slot ?p \<in> {''registration'', ''witness''}" using ok by (simp add: access_proof_ok_def Let_def)
  then have "stored_access_key ?k = ?k" using access_key_slots by auto
  moreover have "HostGrantPayloadSchema e ?g" using v by (auto simp: verifySignedHostGrant_def signed_schema_def split: if_splits)
  then have "is_safe_integer (gp_generation ?g)" "is_safe_integer (min (gp_expires ?g) (t + 24 * 3600000))"
    using assms(2) by (auto simp: HostGrantPayloadSchema_def positiveSchema_def timestampSchema_def clock_ok_def min_def)
  moreover have "issued_for e ?k ?a"
    unfolding issued_for_def Let_def
    by (rule exI [of _ key], rule exI [of _ fp], rule exI [of _ v], rule exI [of _ t], rule exI [of _ pr])
      (use fp v ok slot in \<open>auto simp: access_proof_ok_def Let_def\<close>)
  ultimately have ent: "access_entry e ?k ?a" using assms(1) by (simp add: access_entry_def env_ok_def)
  obtain ok' b1 where a: "appendStateEvent e (io_append io) (EvAccess ?k ?a) b = (ok', b1)"
    by (cases "appendStateEvent e (io_append io) (EvAccess ?k ?a) b")
  let ?b2 = "b1\<lparr>br_proofs := map_set (xp_proof ?p) (xp_expires ?p) (br_proofs b1), br_access := map_set ?k ?a (br_access b1)\<rparr>"
  have "memory ?b2 = memory (b\<lparr>br_access := map_set ?k ?a (br_access b)\<rparr>)" "file_state ?b2 = file_state b1"
    using append_memory [OF a f] by (simp_all add: memory_def file_state_def)
  note k = kept_persisted [OF access_leads [OF _ ent] a f io conjI [OF this]]
  show ?thesis
    unfolding grant_access_def Let_def using k(1) k(3) [of t] a by (auto split: prod.split)
qed

lemma verified_grant_schema: "verifySignedHostGrant e v k t = Some g \<Longrightarrow> HostGrantPayloadSchema e (s_payload g) \<and> g = v"
  by (auto simp: verifySignedHostGrant_def signed_schema_def split: if_splits)

lemma pairing_payload_bounds: "pairing_payload j t = Some (br, ex) \<Longrightarrow> is_safe_integer ex"
  by (auto simp: pairing_payload_def split: json.splits option.splits if_splits)

lemma pairing_token_bounds: "env_ok e \<Longrightarrow> pairingTokenPayload e v t = Some (h, br, ex) \<Longrightarrow> Hex64Schema h \<and> is_safe_integer ex"
  by (auto simp: pairingTokenPayload_def env_ok_def dest: pairing_payload_bounds split: option.splits if_splits prod.splits)

lemma kept_pairing_token:
  assumes "env_ok e" and "clock_ok t" and "whole \<longrightarrow> oc \<in> {Synced, Unwritten}" and "AuthorityFingerprintSchema (ps_authority ps)"
  shows "kept whole e b (snd (consumePairingToken e oc v ps t b))"
proof (cases "pairingTokenPayload e v t")
  case (Some x)
  obtain h br ex where x: "x = (h, br, ex)" by (cases x)
  let ?p = "\<lparr>pc_token = h, pc_bridge = ps_bridge ps, pc_authority = ps_authority ps, pc_server = ps_server ps,
             pc_host = ps_host ps, pc_consumed = t, pc_expires = ex\<rparr>"
  have "is_safe_integer t" using assms(2) by (auto simp: clock_ok_def is_safe_integer_def)
  then have ent: "pairing_entry (pc_token ?p) ?p"
    using pairing_token_bounds [OF assms(1) Some [unfolded x]] assms(4) by (simp add: pairing_entry_def)
  obtain ok b1 where a: "appendStateEvent e oc (EvPairing ?p) b = (ok, b1)" by (cases "appendStateEvent e oc (EvPairing ?p) b")
  have f: "be_state_file e" using assms(1) by (simp add: env_ok_def)
  have "memory (b1\<lparr>br_pairings := map_set h ?p (br_pairings b1)\<rparr>) = memory (b\<lparr>br_pairings := map_set (pc_token ?p) ?p (br_pairings b)\<rparr>)"
    "file_state (b1\<lparr>br_pairings := map_set h ?p (br_pairings b1)\<rparr>) = file_state b1"
    using append_memory [OF a f] by (simp_all add: memory_def file_state_def)
  then have "kept whole e b (if ok then b1\<lparr>br_pairings := map_set h ?p (br_pairings b1)\<rparr> else b1)" if "map_of (br_pairings b) h = None"
    using kept_append [OF pairing_leads [OF _ ent] a f assms(3)] that by simp
  then show ?thesis
    using a by (auto simp: consumePairingToken_def Some x Let_def split: prod.splits option.splits)
qed (simp add: consumePairingToken_def)

lemma fingerprint_schema: "env_ok e \<Longrightarrow> publicKeyFingerprint e k = Some fp \<Longrightarrow> AuthorityFingerprintSchema fp"
  by (auto simp: publicKeyFingerprint_def ed25519Fingerprint_def env_ok_def split: if_splits sum.splits)

lemma kept_issue:
  assumes "env_ok e" and "clock_ok t" and "whole \<longrightarrow> io_atomic io"
  shows "kept whole e b (snd (issueHostAccess e io tok fr t b))"
proof -
  have step: "kept whole e b (snd (grant_access e io tok t fp (s_payload g) (s_payload pr) b'))"
    if "kept whole e b b'" and v: "verifySignedHostGrant e v k t = Some g" and fp: "publicKeyFingerprint e k = Some fp"
      and ok: "access_proof_ok e b scope (s_payload g) pr t" for fp g pr b' v k scope
  proof -
    have "verifySignedHostGrant e g k t = Some g" using v verified_grant_schema [OF v] by simp
    from kept_trans [OF that(1) kept_grant_access [OF assms fp this ok]] show ?thesis .
  qed
  have oc: "whole \<longrightarrow> io_pairing io \<in> {Synced, Unwritten}" using assms(3) by (auto simp: io_atomic_def)
  have pair: "kept whole e b b'"
    if "consumePairingToken e (io_pairing io) tk \<lparr>ps_bridge = x, ps_authority = fp, ps_server = y, ps_host = z\<rparr> t b = (r, b')"
      "publicKeyFingerprint e k = Some fp" for tk x fp y z r b' k
    using kept_pairing_token [OF assms(1,2) oc, of "\<lparr>ps_bridge = x, ps_authority = fp, ps_server = y, ps_host = z\<rparr>" b tk]
      fingerprint_schema [OF assms(1) that(2)] that(1) by simp
  show ?thesis
    unfolding issueHostAccess_def Let_def
    by (auto split: option.split prod.split bool.split intro: step pair)
qed

text \<open>What validation guarantees of an accepted registration.\<close>

definition certified :: "bridge_env \<Rightarrow> bridge \<Rightarrow> verified_registration \<Rightarrow> (string \<times> ledger_mark) list \<Rightarrow> int \<Rightarrow> bool" where
  "certified e b v marks t \<longleftrightarrow>
     (\<exists>b1. validPromotionCertificate e (vr_certificate v) (s_payload (vr_record v)) (s_payload (vr_grant v)) marks (highest_epoch marks) t b
             = (Inr True, b1))"

definition validated :: "bridge_env \<Rightarrow> bridge \<Rightarrow> verified_registration \<Rightarrow> int \<Rightarrow> bool" where
  "validated e b v t \<longleftrightarrow>
     (let r = s_payload (vr_record v); g = s_payload (vr_grant v); scope = authorityScope (vr_fingerprint v) (hr_server r);
          marks = inner (br_marks b) scope
      in publicKeyFingerprint e (vr_key v) = Some (vr_fingerprint v)
         \<and> verifyHostRegistration e (vr_record v) (vr_grant v) (vr_key v) [] t = Some (vr_record v, vr_grant v)
         \<and> \<not> grant_revoked b scope g
         \<and> vr_hash v = record_hash e (vr_record v)
         \<and> epoch_conflict marks r = None \<and> chain_conflict (mark_at b (scope, hr_host r)) r g (vr_hash v) = None
         \<and> (marks \<noteq> [] \<and> hr_role r = Primary \<and> hr_epoch r > highest_epoch marks \<longrightarrow> certified e b v marks t)
         \<and> (map_of (inner (br_records b) scope) (hr_host r) = None \<longrightarrow> length (inner (br_records b) scope) < MAX_RECORDS_PER_SERVER))"

lemma verify_registration_parts:
  assumes "verifyHostRegistration e rec grant key revoked t = Some (record, g)"
  shows "record = rec" "g = grant" "verifyHostRegistration e rec grant key [] t = Some (rec, grant)"
    "gp_grant (s_payload grant) \<notin> set revoked" "HostGrantPayloadSchema e (s_payload grant)" "HostRecordPayloadSchema e (s_payload rec)"
    "hr_grant (s_payload rec) = gp_grant (s_payload grant)" "hr_server (s_payload rec) = gp_server (s_payload grant)"
    "hr_host (s_payload rec) = gp_host (s_payload grant)"
  using assms
  by (auto simp: verifyHostRegistration_def verifySignedHostGrant_def verifySignedHostRecord_def signed_schema_def SignedHostRecordSchema_def
      split: option.splits if_splits)

lemma certificate_same: "same_ledger b (snd (validPromotionCertificate e cert r g marks n t b))"
  using same_signing [of b e t]
  by (auto simp: validPromotionCertificate_def Let_def split: option.splits prod.splits sum.splits)

lemma signing_records: "br_records (snd (signing_material e t b)) = br_records b"
  by (auto simp: signing_material_def split: option.splits sum.splits)

lemma certificate_records: "br_records (snd (validPromotionCertificate e cert r g marks n t b)) = br_records b"
  using signing_records [of e t b]
  by (auto simp: validPromotionCertificate_def Let_def split: option.splits prod.splits sum.splits)

lemma admit_facts:
  assumes "admit_registration e fp key cert record grant t b = (x, b1)"
  shows "same_ledger b b1" "br_records b1 = br_records b"
    "x = Inr (Inr v) \<Longrightarrow>
       v = \<lparr>vr_fingerprint = fp, vr_key = key, vr_grant = grant, vr_record = record, vr_hash = record_hash e record, vr_certificate = cert\<rparr>
       \<and> (let r = s_payload record; scope = authorityScope fp (hr_server r); marks = inner (br_marks b) scope in
            (marks \<noteq> [] \<and> hr_role r = Primary \<and> hr_epoch r > highest_epoch marks \<longrightarrow> certified e b v marks t)
            \<and> (map_of (inner (br_records b) scope) (hr_host r) = None \<longrightarrow> length (inner (br_records b) scope) < MAX_RECORDS_PER_SERVER))"
proof -
  let ?r = "s_payload record"
  let ?scope = "authorityScope fp (hr_server ?r)"
  let ?marks = "inner (br_marks b) ?scope"
  let ?c = "if ?marks \<noteq> [] \<and> hr_role ?r = Primary \<and> hr_epoch ?r > highest_epoch ?marks
            then validPromotionCertificate e cert ?r (s_payload grant) ?marks (highest_epoch ?marks) t b else (Inr True, b)"
  obtain c b2 where c: "?c = (c, b2)" by (cases ?c)
  have b1: "b1 = b2" using assms c by (auto simp: admit_registration_def Let_def split: sum.splits if_splits)
  have "same_ledger b (snd ?c)" "br_records (snd ?c) = br_records b"
    using certificate_same certificate_records by auto
  then show rec: "same_ledger b b1" "br_records b1 = br_records b" unfolding c b1 by simp_all
  assume "x = Inr (Inr v)"
  then have ok: "c = Inr True"
    and v: "v = \<lparr>vr_fingerprint = fp, vr_key = key, vr_grant = grant, vr_record = record, vr_hash = record_hash e record, vr_certificate = cert\<rparr>"
    and q: "map_of (inner (br_records b) ?scope) (hr_host ?r) = None \<longrightarrow> length (inner (br_records b) ?scope) < MAX_RECORDS_PER_SERVER"
    using assms c rec(2) unfolding b1 by (auto simp: admit_registration_def Let_def split: sum.splits if_splits)
  have "certified e b v ?marks t" if "?marks \<noteq> [] \<and> hr_role ?r = Primary \<and> hr_epoch ?r > highest_epoch ?marks"
    using c that ok by (auto simp: certified_def v)
  then show "v = \<lparr>vr_fingerprint = fp, vr_key = key, vr_grant = grant, vr_record = record, vr_hash = record_hash e record, vr_certificate = cert\<rparr>
       \<and> (let r = s_payload record; scope = authorityScope fp (hr_server r); marks = inner (br_marks b) scope in
            (marks \<noteq> [] \<and> hr_role r = Primary \<and> hr_epoch r > highest_epoch marks \<longrightarrow> certified e b v marks t)
            \<and> (map_of (inner (br_records b) scope) (hr_host r) = None \<longrightarrow> length (inner (br_records b) scope) < MAX_RECORDS_PER_SERVER))"
    using v q by (simp add: Let_def)
qed

lemma validate_facts:
  assumes "validateRegistration e fr t b = (x, b1)"
  shows "same_ledger b b1" "br_records b1 = br_records b" "x = Inr (Inr v) \<Longrightarrow> validated e b v t"
proof -
  have main: "same_ledger b b1 \<and> br_records b1 = br_records b \<and> (x = Inr (Inr v) \<longrightarrow> validated e b v t)"
  proof (cases "\<exists>err. (x, b1) = (Inr (Inl err), b)")
    case False
    obtain fp grant0 record0 where fp: "publicKeyFingerprint e (rf_key fr) = Some fp" and g0: "rf_grant fr = Some grant0"
      and r0: "rf_record fr = Some record0"
      using assms False by (auto simp: validateRegistration_def split: option.splits)
    let ?scope = "authorityScope fp (hr_server (s_payload record0))"
    let ?revoked = "if grant_revoked b ?scope (s_payload grant0) then [gp_grant (s_payload grant0)] else []"
    obtain rcd grant where ver: "verifyHostRegistration e record0 grant0 (rf_key fr) ?revoked t = Some (rcd, grant)"
      using assms False by (auto simp: validateRegistration_def fp g0 r0 Let_def split: option.splits if_splits)
    note vp = verify_registration_parts [OF ver]
    have nrev: "\<not> grant_revoked b ?scope (s_payload grant0)" using vp(4) by (auto split: if_splits)
    let ?marks = "inner (br_marks b) ?scope"
    let ?r = "s_payload record0"
    have ec: "epoch_conflict ?marks ?r = None" and cc: "chain_conflict (map_of ?marks (hr_host ?r)) ?r (s_payload grant0) (record_hash e record0) = None"
      and ad: "admit_registration e fp (rf_key fr) (rf_certificate fr) record0 grant0 t b = (x, b1)"
      using assms False unfolding validateRegistration_def Let_def fp g0 r0
      by (auto simp: ver vp(1,2) simp del: not_None_eq split: option.splits if_splits)
    note af = admit_facts [OF ad]
    show ?thesis
    proof (intro conjI impI)
      assume "x = Inr (Inr v)"
      note a3 = af(3) [OF this]
      then show "validated e b v t"
        using fp vp(3) nrev ec cc by (auto simp: validated_def Let_def mark_at_def)
    qed (rule af(1), rule af(2))
  qed auto
  then show "same_ledger b b1" "br_records b1 = br_records b" "x = Inr (Inr v) \<Longrightarrow> validated e b v t" by blast+
qed

lemma registered_mark_fields:
  "mark_scope (registered_mark v) = authorityScope (vr_fingerprint v) (hr_server (s_payload (vr_record v)))"
  "lm_host (registered_mark v) = hr_host (s_payload (vr_record v))" "lm_epoch (registered_mark v) = hr_epoch (s_payload (vr_record v))"
  "lm_seq (registered_mark v) = hr_seq (s_payload (vr_record v))" "lm_hash (registered_mark v) = vr_hash v"
  "lm_grant (registered_mark v) = gp_grant (s_payload (vr_grant v))"
  "lm_generation (registered_mark v) = gp_generation (s_payload (vr_grant v))"
  "lm_role (registered_mark v) = Some (hr_role (s_payload (vr_record v)))" "lm_authority (registered_mark v) = vr_fingerprint v"
  "lm_server (registered_mark v) = hr_server (s_payload (vr_record v))"
  by (simp_all add: registered_mark_def mark_scope_def Let_def)

lemma validated_mark:
  assumes "env_ok e" and "validated e b v t"
  shows "persistedHighWater (registered_mark v)"
proof -
  have ver: "verifyHostRegistration e (vr_record v) (vr_grant v) (vr_key v) [] t = Some (vr_record v, vr_grant v)"
    and fp: "publicKeyFingerprint e (vr_key v) = Some (vr_fingerprint v)" and h: "vr_hash v = record_hash e (vr_record v)"
    using assms(2) by (simp_all add: validated_def Let_def)
  have "AuthorityFingerprintSchema (vr_fingerprint v)" by (rule fingerprint_schema [OF assms(1) fp])
  moreover have "Hex64Schema (vr_hash v)" using assms(1) by (simp add: h record_hash_def env_ok_def)
  ultimately show ?thesis
    using verify_registration_parts(5,6) [OF ver]
    by (simp add: persistedHighWater_def registered_mark_fields HostGrantPayloadSchema_def HostRecordPayloadSchema_def
        hostIdSchema_def text_between_def timestampSchema_def positiveSchema_def)
qed

text \<open>A validated registration is never refused by the ledger.\<close>

definition repeats :: "bridge \<Rightarrow> ledger_mark \<Rightarrow> bool" where
  "repeats b m \<longleftrightarrow>
     (case mark_at b (mark_scope m, lm_host m) of
        None \<Rightarrow> False
      | Some cur \<Rightarrow> lm_hash cur = lm_hash m \<and> lm_seq cur = lm_seq m \<and> lm_epoch cur = lm_epoch m \<and> lm_grant cur = lm_grant m)"

lemma validated_not_refused:
  assumes "validated e b v t" and "\<not> repeats b (registered_mark v)"
  shows "\<not> mark_refused (mark_at b (mark_scope (registered_mark v), lm_host (registered_mark v))) (registered_mark v)"
proof -
  let ?r = "s_payload (vr_record v)"
  let ?g = "s_payload (vr_grant v)"
  have "chain_conflict (mark_at b (mark_scope (registered_mark v), hr_host ?r)) ?r ?g (vr_hash v) = None"
    and ver: "verifyHostRegistration e (vr_record v) (vr_grant v) (vr_key v) [] t = Some (vr_record v, vr_grant v)"
    using assms(1) unfolding validated_def Let_def registered_mark_fields by blast+
  moreover have "hr_grant ?r = gp_grant ?g" using verify_registration_parts(7) [OF ver] .
  ultimately show ?thesis
    using assms(2)
    by (cases "mark_at b (mark_scope (registered_mark v), hr_host ?r)")
      (auto simp: mark_refused_def repeats_def registered_mark_fields chain_conflict_def same_registration_def split: if_splits)
qed

lemma commit_mark_cases:
  "commit_mark e io t m b =
     (if repeats b m then (Inr None, b)
      else if mark_at b (mark_scope m, lm_host m) = None \<and> nested_size (br_marks b) \<ge> MAX_DURABLE_ENTRIES
      then (Inr (Some (''unavailable'', ''host ledger capacity reached'')), b)
      else let (ok, b1) = appendStateEvent e (io_append io) (EvHighWater m) b
           in if \<not> ok then (Inr (Some (''unavailable'', ''registration state could not be persisted'')), b1)
              else let (applied, b2) = applyHighWaterMark m b1
                   in if \<not> applied then (Inr (Some (conflict ''registration high-water mark changed'')), b2)
                      else let (ok2, b3) = maybeCompactState e io t b2
                           in (if ok2 then Inr None else Inl (AppError ''io''), b3))"
  unfolding commit_mark_def Let_def repeats_def mark_at_def mark_scope_def fst_conv snd_conv
  by (cases "map_of (inner (br_marks b) (authorityScope (lm_authority m) (lm_server m))) (lm_host m)") simp_all

text \<open>All the ledger needs of a validated registration.\<close>

definition commits :: "bridge_env \<Rightarrow> bridge \<Rightarrow> verified_registration \<Rightarrow> bool" where
  "commits e b v \<longleftrightarrow>
     persistedHighWater (registered_mark v)
     \<and> (repeats b (registered_mark v)
        \<or> \<not> mark_refused (mark_at b (mark_scope (registered_mark v), lm_host (registered_mark v))) (registered_mark v))"

lemma validated_commits: "env_ok e \<Longrightarrow> validated e b v t \<Longrightarrow> commits e b v"
  unfolding commits_def using validated_mark validated_not_refused by blast

lemma commits_same: "durable b' = durable b \<Longrightarrow> commits e b v \<Longrightarrow> commits e b' v"
  by (simp add: commits_def repeats_def mark_at_def durable_def)

lemma kept_commit_mark:
  assumes "env_ok e" and "whole \<longrightarrow> io_atomic io" and "commits e b v"
  shows "kept whole e b (snd (commit_mark e io t (registered_mark v) b))"
proof (cases "repeats b (registered_mark v)")
  case False
  let ?m = "registered_mark v"
  let ?new = "\<lambda>b. b\<lparr>br_marks := nput (mark_scope ?m) (lm_host ?m) ?m (br_marks b)\<rparr>"
  have f: "be_state_file e" using assms(1) by (simp add: env_ok_def)
  have c: "\<not> mark_refused (mark_at b (mark_scope ?m, lm_host ?m)) ?m" "persistedHighWater ?m"
    using assms(3) False by (simp_all add: commits_def)
  obtain ok b1 where a: "appendStateEvent e (io_append io) (EvHighWater ?m) b = (ok, b1)"
    by (cases "appendStateEvent e (io_append io) (EvHighWater ?m) b")
  have mem: "br_marks b1 = br_marks b" by (rule append_memory(1) [OF a f])
  then have ap: "applyHighWaterMark ?m b1 = (True, ?new b1)" using c(1) by (simp add: applyHighWaterMark_cases mark_at_def)
  have "memory (?new b1) = memory (?new b)" "file_state (?new b1) = file_state b1"
    using append_memory [OF a f] by (simp_all add: memory_def file_state_def)
  note k = kept_persisted [OF mark_leads [OF _ c] a f assms(2) conjI [OF this]]
  show ?thesis
    unfolding commit_mark_cases using k(1,2) k(3) [of t] False by (auto simp: Let_def a ap split: prod.split)
qed (simp add: commit_mark_cases)

lemma kept_commit:
  assumes "env_ok e" and "whole \<longrightarrow> io_atomic io" and "commits e b v"
  shows "kept whole e b (snd (commitRegistration e io t ws v b))"
proof -
  obtain x b1 where c: "commit_mark e io t (registered_mark v) b = (x, b1)" by (cases "commit_mark e io t (registered_mark v) b")
  then have k: "kept whole e b b1" using kept_commit_mark [OF assms] by (metis snd_conv)
  have s: "same_ledger b1 (snd (commitRegistration e io t ws v b))"
    unfolding commitRegistration_def c
    by (rule same_ledgerI)
      (auto simp: Let_def durable_simps bind_socket_def split: sum.split option.split)
  show ?thesis by (rule kept_trans [OF k kept_same [OF s]])
qed

section \<open>Frames\<close>

lemma same_clear: "same_ledger b (clearPendingRegistration ws b)"
  by (rule same_ledgerI) (simp_all add: durable_simps)

lemma prove_cases:
  assumes "proveRegistration e io ws fr t b = (x, b')"
  obtains b2 where "same_ledger b b2" "br_records b2 = br_records b" "b' = b2"
  | b1 b2 v where "same_ledger b b1" "br_records b1 = br_records b" "validated e b1 v t" "same_ledger b1 b2" "br_records b2 = br_records b1"
      "commitRegistration e io t ws v b2 = (x, b')"
proof (cases "map_of (br_pending b) ws")
  case None
  then have "b' = b" using assms by (simp add: proveRegistration_def)
  then show thesis by (rule that(1) [OF same_ledger_refl refl])
next
  case (Some p)
  let ?b1 = "clearPendingRegistration ws b"
  let ?fr = "\<lparr>rf_key = pd_key p, rf_grant = Some (pd_grant p), rf_record = Some (pd_record p), rf_certificate = pd_certificate p\<rparr>"
  obtain y b2 where v: "validateRegistration e ?fr t ?b1 = (y, b2)" by (cases "validateRegistration e ?fr t ?b1")
  have s: "same_ledger b ?b1" "same_ledger ?b1 b2" "br_records b2 = br_records ?b1"
    using same_clear validate_facts(1,2) [OF v] by blast+
  have r: "br_records ?b1 = br_records b" by (rule records_part.clear_pending)
  show thesis
  proof (cases "\<exists>w. y = Inr (Inr w) \<and> (x, b') = commitRegistration e io t ws w b2")
    case True
    then obtain w where w: "y = Inr (Inr w)" "commitRegistration e io t ws w b2 = (x, b')" by auto
    show thesis by (rule that(2) [OF s(1) r validate_facts(3) [OF v w(1)] s(2,3) w(2)])
  next
    case False
    then have "b' = ?b1 \<or> b' = b2"
      using assms v by (auto simp: proveRegistration_def Some Let_def split: if_splits sum.splits)
    then show thesis using that(1) s r same_ledger_trans by metis
  qed
qed

lemma kept_prove:
  assumes "env_ok e" and "whole \<longrightarrow> io_atomic io" and "proveRegistration e io ws fr t b = (x, b')"
  shows "kept whole e b b'"
proof -
  from assms(3) consider "same_ledger b b'" | b1 b2 v where "same_ledger b b1" "validated e b1 v t" "same_ledger b1 b2"
      "commitRegistration e io t ws v b2 = (x, b')"
    by (rule prove_cases) blast+
  then show ?thesis
  proof cases
    case 2
    have "commits e b2 v"
      using commits_same validated_commits [OF assms(1) 2(2)] 2(3) by (simp add: same_ledger_def)
    then have "kept whole e b2 b'" using kept_commit [OF assms(1,2), of b2 v t ws] 2(4) by simp
    moreover have "kept whole e b b2" by (rule kept_same [OF same_ledger_trans [OF 2(1,3)]])
    ultimately show ?thesis using kept_trans by blast
  qed (rule kept_same)
qed

lemma same_begin:
  assumes "beginRegistration e dr ws fr t b = (x, b')"
  shows "same_ledger b b'"
proof -
  let ?b = "cleanup t b"
  obtain y b1 where v: "validateRegistration e (bf_registration fr) t ?b = (y, b1)" by (cases "validateRegistration e (bf_registration fr) t ?b")
  have s: "same_ledger b ?b" "same_ledger b b1"
    using same_cleanup validate_facts(1) [OF v] same_ledger_trans by blast+
  have u: "same_ledger b (b1\<lparr>br_pending := p, br_claims := q\<rparr>)" for p q
    by (rule same_ledger_trans [OF s(2) same_ledgerI]) (simp_all add: durable_simps)
  show ?thesis
    using assms s u unfolding beginRegistration_def Let_def v
    by (auto split: option.splits if_splits sum.splits)
qed

lemma same_witness: "same_ledger b (snd (witnessPrimary e fr t b))"
proof -
  have u: "same_ledger b (snd (signing_material e t (b\<lparr>br_nonces := n\<rparr>)))" for n
    by (rule same_ledger_trans [OF same_ledgerI same_signing]) (simp_all add: durable_simps)
  have "same_ledger b b2" if "signing_material e t (b\<lparr>br_nonces := n\<rparr>) = (x, b2)" for n x b2
    using u [of n] that by simp
  then show ?thesis
    unfolding witnessPrimary_def Let_def by (auto split: option.split prod.split sum.split)
qed

lemma same_relay: "same_ledger b (snd (relaySignal e ws fr t b))"
  by (rule same_ledgerI) (simp_all add: durable_simps)

lemma same_resolve: "same_ledger b (snd (resolve server fp t b))"
  using same_cleanup by (auto simp: resolve_def Let_def)

section \<open>Voting\<close>

lemma js_sort_hd: "js_sort cmp xs = y # ys \<Longrightarrow> y \<in> set xs"
  by (metis js_sort_simps(1) list.set_intros(1))

lemma known_primary_mark:
  assumes "known_primary (inner (br_marks b) s) = Some m"
  shows "(s, inner (br_marks b) s) \<in> set (br_marks b)" "m \<in> snd ` set (inner (br_marks b) s)" "lm_role m = Some Primary"
proof -
  have "m \<in> set (filter (\<lambda>m. lm_role m = Some Primary) (map snd (inner (br_marks b) s)))"
    using assms by (auto simp: known_primary_def split: list.splits dest!: js_sort_hd)
  then show m: "m \<in> snd ` set (inner (br_marks b) s)" "lm_role m = Some Primary" by auto
  then have "inner (br_marks b) s \<noteq> []" by auto
  then show "(s, inner (br_marks b) s) \<in> set (br_marks b)" by (auto simp: inner_def split: option.splits dest: map_of_SomeD)
qed

lemma epochs_left_primary: "epochs_left b \<Longrightarrow> known_primary (inner (br_marks b) s) = Some m \<Longrightarrow> lm_epoch m < 9007199254740991"
proof -
  assume l: "epochs_left b" and k: "known_primary (inner (br_marks b) s) = Some m"
  from known_primary_mark(2) [OF k] obtain h where h: "(h, m) \<in> set (inner (br_marks b) s)" by auto
  from bspec [OF l [unfolded epochs_left_def] known_primary_mark(1) [OF k]] h show ?thesis by auto
qed

lemma vote_persists:
  assumes "env_ok e" and "clock_ok t" and "BridgeWitnessPayloadSchema e p" and "AuthorityFingerprintSchema fp" and "bw_epoch p < 9007199254740991"
  shows "persistedPromotionVote (vote_for fp p t)"
proof -
  have "is_safe_integer t" "0 < t" using assms(2) by (auto simp: clock_ok_def is_safe_integer_def)
  moreover have "is_safe_integer (bw_epoch p + 1)" "0 \<le> bw_epoch p"
    using assms(3,5) by (auto simp: BridgeWitnessPayloadSchema_def timestampSchema_def is_safe_integer_def)
  ultimately show ?thesis
    using assms(1,3,4) by (simp add: persistedPromotionVote_def vote_for_def BridgeWitnessPayloadSchema_def env_ok_def text_between_def)
qed

lemma kept_durable_vote:
  assumes "be_state_file e" and "whole \<longrightarrow> io_atomic io" and "durable_vote e io t v ex b = (x, b')" and p: "persistedPromotionVote v"
    and "ex = map_of (br_votes b) (promotionVoteKey (vm_authority v) (vm_server v) (vm_epoch v))"
  shows "kept whole e b b'"
proof (cases ex)
  case None
  let ?new = "\<lambda>b. b\<lparr>br_votes := map_set (promotionVoteKey (vm_authority v) (vm_server v) (vm_epoch v)) v (br_votes b)\<rparr>"
  obtain ok b1 where a: "appendStateEvent e (io_append io) (EvVote v) b = (ok, b1)" by (cases "appendStateEvent e (io_append io) (EvVote v) b")
  have new: "map_of (br_votes b) (promotionVoteKey (vm_authority v) (vm_server v) (vm_epoch v)) = None" using assms(5) None by simp
  then have ap: "applyPromotionVote v b1 = (True, ?new b1)"
    using append_memory(3) [OF a assms(1)] by (simp add: applyPromotionVote_new)
  have "memory (?new b1) = memory (?new b)" "file_state (?new b1) = file_state b1"
    using append_memory [OF a assms(1)] by (simp_all add: memory_def file_state_def)
  note k = kept_persisted [OF vote_leads [OF _ p new] a assms(1,2) conjI [OF this]]
  show ?thesis
    using assms(3) k(1,2) k(3) [of t] by (auto simp: durable_vote_def None Let_def a ap split: if_splits prod.splits)
qed (use assms(3) in \<open>simp add: durable_vote_def\<close>)

lemma kept_claim:
  assumes "env_ok e" and "clock_ok t" and "whole \<longrightarrow> io_atomic io" and "epochs_left b"
  shows "kept whole e b (snd (claimPromotionVote e io fr t b))"
proof -
  obtain x b1 where s: "signing_material e t b = (x, b1)" by (cases "signing_material e t b")
  have k1: "kept whole e b b1" using kept_same [OF same_signing [of b e t]] s by simp
  have ep: "epochs_left b1" using assms(4) same_signing [of b e t] s by (simp add: epochs_left_def same_ledger_def durable_def)
  have kept: "kept whole e b b2"
    if w: "verifySignedBridgeWitness e w d t = Some w'" and fp: "AuthorityFingerprintSchema fp"
      and pr: "known_primary (inner (br_marks b1) sc) = Some k" "lm_epoch k = bw_epoch (s_payload w')"
      and v: "durable_vote e io t (vote_for fp (s_payload w') t)
        (map_of (br_votes b1) (promotionVoteKey fp (bw_server (s_payload w')) (bw_epoch (s_payload w') + 1))) b1 = (y, b2)" for w d w' fp sc k y b2
  proof (rule kept_trans [OF k1])
    have "BridgeWitnessPayloadSchema e (s_payload w')"
      using w by (auto simp: verifySignedBridgeWitness_def signed_schema_def split: if_splits)
    then have "persistedPromotionVote (vote_for fp (s_payload w') t)"
      using vote_persists [OF assms(1,2) _ fp] epochs_left_primary [OF ep pr(1)] pr(2) by simp
    then show "kept whole e b1 b2"
      using assms(1,3) kept_durable_vote [OF _ _ v] by (simp add: env_ok_def vote_for_def)
  qed
  show ?thesis
    unfolding claimPromotionVote_def s Let_def using k1 kept
    by (auto split: sum.splits option.splits prod.splits)
qed

text \<open>The state a claim ends in: the vote is the only thing it may add.\<close>

lemma claim_state:
  assumes "b1 = snd (signing_material e t b)"
  shows "\<exists>v ex. snd (claimPromotionVote e io fr t b) \<in> {b, b1, snd (durable_vote e io t v ex b1)}"
proof -
  obtain x where s: "signing_material e t b = (x, b1)" using assms by (cases "signing_material e t b") simp
  show ?thesis
  proof (cases "text_or_empty (cm_request fr) = [] \<or> x = Inr None \<or> (\<exists>err. x = Inl err)")
    case True
    then show ?thesis by (auto simp: claimPromotionVote_def s)
  next
    case False
    then obtain d seed where x: "x = Inr (Some (d, seed))" by (cases x) auto
    show ?thesis
    proof (cases "case cm_witness fr of None \<Rightarrow> None | Some w \<Rightarrow> verifySignedBridgeWitness e w d t")
      case None
      then show ?thesis using False by (simp add: claimPromotionVote_def s x)
    next
      case (Some w)
      let ?v = "vote_for (toLowerCase (cm_authority fr)) (s_payload w) t"
      let ?ex = "map_of (br_votes b1) (promotionVoteKey (toLowerCase (cm_authority fr)) (bw_server (s_payload w)) (bw_epoch (s_payload w) + 1))"
      obtain y b2 where v: "durable_vote e io t ?v ?ex b1 = (y, b2)" by (cases "durable_vote e io t ?v ?ex b1")
      have "snd (claimPromotionVote e io fr t b) \<in> {b, b1, b2}"
        using False by (simp add: claimPromotionVote_def s x Some Let_def v split: sum.split)
      then show ?thesis using v by (intro exI [of _ ?v] exI [of _ ?ex]) simp
    qed
  qed
qed

section \<open>The server\<close>

lemma kept_rendezvous:
  assumes "env_ok e" and "whole \<longrightarrow> io_atomic io"
  shows "kept whole e b (snd (handleRendezvousFrame e io v msg t b))"
proof (cases msg)
  case (MRevoke key rv)
  have "be_state_file e" using assms(1) by (simp add: env_ok_def)
  then show ?thesis
    using kept_revoke [OF surjective_pairing _ assms(2)] by (simp add: handleRendezvousFrame_def MRevoke or_malformed_def kept_same)
qed (use same_resolve in \<open>simp_all add: handleRendezvousFrame_def kept_same split_beta\<close>)

lemma kept_answer:
  assumes "env_ok e" and "clock_ok t" and "whole \<longrightarrow> io_atomic io" and "epochs_left b"
  shows "kept whole e b (snd (answer_frame e io dr ws v msg t b))"
proof (cases "if js_object v then msg else MUnknown")
  case (MBegin fr)
  have "same_ledger b (snd (beginRegistration e (dr_challenge dr, dr_nonce dr) ws fr t b))" by (rule same_begin [OF surjective_pairing])
  then show ?thesis by (simp add: answer_frame_def MBegin or_malformed_def kept_same)
next
  case (MProve fr)
  show ?thesis using kept_prove [OF assms(1,3) surjective_pairing] by (simp add: answer_frame_def MProve or_malformed_def)
qed (use kept_issue [OF assms(1-3)] kept_claim [OF assms] same_witness same_relay kept_rendezvous [OF assms(1,3)]
    in \<open>simp_all add: answer_frame_def or_malformed_def kept_same split_beta del: if_splits\<close>)

lemma same_reply: "same_ledger b (br_reply ws fr b)"
  by (rule same_ledgerI) (simp_all add: durable_simps)

lemma same_limited: "same_ledger b (snd (rateLimited e ip t b))"
  by (rule same_ledgerI) (simp_all add: durable_simps)

lemma same_close: "same_ledger b (close_socket ws b)"
  by (rule same_ledgerI) (simp_all add: durable_simps)

lemma kept_message:
  assumes "env_ok e" and "clock_ok t" and "whole \<longrightarrow> io_atomic io" and "epochs_left b"
  shows "kept whole e b (on_message e io dr ws raw t b)"
proof -
  let ?r = "rateLimited e (bridge_clientIp b ws) t b"
  let ?c = "cleanup t (snd ?r)"
  have sc: "same_ledger b ?c" by (rule same_ledger_trans [OF same_limited same_cleanup])
  then have "epochs_left ?c" using assms(4) by (simp add: epochs_left_def same_ledger_def durable_def)
  then have k: "kept whole e b (snd (answer_frame e io dr ws v msg t ?c))" for v msg
    using kept_trans [OF kept_same [OF sc] kept_answer [OF assms(1-3)]] by blast
  have r: "kept whole e b (br_reply ws fr (snd (answer_frame e io dr ws v msg t ?c)))" for fr v msg
    by (rule kept_trans [OF k kept_same [OF same_reply]])
  have q: "kept whole e b (br_reply ws fr (snd ?r))" for fr
    by (rule kept_same [OF same_ledger_trans [OF same_limited same_reply]])
  show ?thesis
    using r q kept_same [OF same_close] unfolding on_message_def by (auto simp: split_beta Let_def split: raw_frame.split option.split)
qed

lemma same_on_close: "same_ledger b (on_close t ws b)"
  by (rule same_ledgerI) (simp_all add: durable_simps)

lemma same_connection: "same_ledger b (on_connection e ws remote fwd b)"
  by (rule same_ledgerI) (simp_all add: durable_simps)

section \<open>Starting again\<close>

text \<open>Reading depends on nothing but the file.\<close>

definition alike :: "bridge \<Rightarrow> bridge \<Rightarrow> bool" where
  "alike b b' \<longleftrightarrow>
     br_marks b' = br_marks b \<and> br_revoked b' = br_revoked b \<and> br_votes b' = br_votes b \<and> br_pairings b' = br_pairings b
     \<and> br_access b' = br_access b \<and> br_seq b' = br_seq b \<and> br_hash b' = br_hash b
     \<and> br_socket_hosts b = [] \<and> br_records b = [] \<and> br_socket_hosts b' = [] \<and> br_records b' = []"

lemma alike_mark:
  assumes "alike b b'"
  shows "fst (applyHighWaterMark m b') = fst (applyHighWaterMark m b)" "alike (snd (applyHighWaterMark m b)) (snd (applyHighWaterMark m b'))"
  using assms by (auto simp: applyHighWaterMark_cases alike_def mark_at_def)

lemma alike_vote:
  assumes "alike b b'"
  shows "fst (applyPromotionVote v b') = fst (applyPromotionVote v b)" "alike (snd (applyPromotionVote v b)) (snd (applyPromotionVote v b'))"
  using assms by (auto simp: applyPromotionVote_def Let_def alike_def split: option.split)

lemma revoke_reads:
  assumes "\<not> persist" and "alike b b'"
  shows "fst (revoke e io key rv persist t b) = fst (revoke e io key rv persist t' b')"
    "alike (snd (revoke e io key rv persist t b)) (snd (revoke e io key rv persist t' b'))"
proof -
  have "alike (applyRevocation t fp key x b) (applyRevocation t' fp key x b')" for fp x
    using assms(2) unfolding alike_def by (simp add: applyRevocation_fields) (simp add: applyRevocation_def Let_def at_key_def)
  then show "fst (revoke e io key rv persist t b) = fst (revoke e io key rv persist t' b')"
    "alike (snd (revoke e io key rv persist t b)) (snd (revoke e io key rv persist t' b'))"
    using assms by (auto simp: revoke_def Let_def alike_def split: option.split)
qed

lemma alike_event:
  assumes "alike b b'" and "apply_event e t ev b = Some b1"
  shows "\<exists>b1'. apply_event e t' ev b' = Some b1' \<and> alike b1 b1'"
proof (cases ev)
  case (EvHighWater m)
  then show ?thesis using assms alike_mark [OF assms(1), of m] by (auto simp: split_beta split: if_splits)
next
  case (EvVote v)
  then show ?thesis using assms alike_vote [OF assms(1), of v] by (auto simp: split_beta split: if_splits)
next
  case (EvRevocation key rv)
  let ?io = "\<lparr>io_pairing = Synced, io_append = Synced, io_big = False, io_compact = Compacted\<rparr>"
  have "\<not> False" by simp
  note rr = revoke_reads [OF this assms(1), of e ?io key "Some rv" t t']
  obtain x y where x: "revoke e ?io key (Some rv) False t b = (x, y)" by (cases "revoke e ?io key (Some rv) False t b")
  obtain x' y' where x': "revoke e ?io key (Some rv) False t' b' = (x', y')" by (cases "revoke e ?io key (Some rv) False t' b'")
  show ?thesis using assms(2) rr unfolding EvRevocation apply_event.simps x x' by (auto split: sum.splits)
qed (use assms in \<open>auto simp: alike_def split: if_splits\<close>)

lemma alike_load:
  "load_lines e t ls b = Some b1 \<Longrightarrow> alike b b' \<Longrightarrow> \<exists>b1'. load_lines e t' ls b' = Some b1' \<and> alike b1 b1'"
proof (induction e t ls b arbitrary: b' rule: load_lines.induct)
  case (3 e t l ls b)
  have sq: "br_seq b' = br_seq b" "br_hash b' = br_hash b" using "3.prems"(2) by (simp_all add: alike_def)
  have c: "\<not> (ll_version l \<noteq> 1 \<or> ll_seq l \<noteq> br_seq b + 1 \<or> ll_previous l \<noteq> br_hash b
         \<or> ll_hash l \<noteq> line_hash e (ll_version l) (ll_seq l) (ll_previous l) (ll_event l))"
    using "3.prems"(1) by (auto split: if_splits)
  obtain b2 where b2: "apply_event e t (ll_event l) b = Some b2"
    and l: "load_lines e t ls (b2\<lparr>br_seq := ll_seq l, br_hash := Some (ll_hash l)\<rparr>) = Some b1"
    using "3.prems"(1) c by (auto split: option.splits)
  obtain b2' where b2': "apply_event e t' (ll_event l) b' = Some b2'" "alike b2 b2'" using alike_event [OF "3.prems"(2) b2] by blast
  then have "alike (b2\<lparr>br_seq := ll_seq l, br_hash := Some (ll_hash l)\<rparr>) (b2'\<lparr>br_seq := ll_seq l, br_hash := Some (ll_hash l)\<rparr>)"
    by (simp add: alike_def)
  from "3.IH" [OF c b2 l this] show ?case using c b2'(1) sq by auto
qed auto

lemma revoke_reads_entry:
  assumes "revoke e io key (Some rv) False t b = (Inr (Inr x), b')"
  shows "b' = b \<or> (\<exists>fp. verifySignedHostGrantRevocation e rv key = Some rv \<and> publicKeyFingerprint e key = Some fp
    \<and> b' = applyRevocation t fp key rv b)"
  using assms unfolding revoke_def Let_def
  by (auto simp: verifySignedHostGrantRevocation_def split: option.splits if_splits)

lemma event_ok:
  assumes ok: "ledger_ok e b" and ev: "apply_event e t ev b = Some b'" and acc: "\<And>k a. ev = EvAccess k a \<Longrightarrow> access_entry e k a"
  shows "ledger_ok e b'"
proof (cases ev)
  case (EvHighWater m)
  then have p: "persistedHighWater m" and b': "b' = b\<lparr>br_marks := nput (mark_scope m) (lm_host m) m (br_marks b)\<rparr>"
    using ev by (auto simp: applyHighWaterMark_cases split: if_splits)
  have "mark_entry (mark_scope m) (lm_host m) m" using p by (simp add: mark_entry_def mark_scope_def)
  then show ?thesis using ok by (simp add: b' ledger_ok_def nested_ok_put)
next
  case (EvVote v)
  then have "persistedPromotionVote v"
    "b' = b \<or> b' = b\<lparr>br_votes := map_set (promotionVoteKey (vm_authority v) (vm_server v) (vm_epoch v)) v (br_votes b)\<rparr>"
    using ev by (auto simp: applyPromotionVote_def Let_def split: if_splits option.splits)
  then show ?thesis using ok by (auto simp: ledger_ok_def vote_entry_def intro!: flat_ok_set)
next
  case (EvRevocation key rv)
  then obtain io x where "revoke e io key (Some rv) False t b = (Inr (Inr x), b')"
    using ev by (auto split: prod.splits sum.splits)
  from revoke_reads_entry [OF this] show ?thesis using ok revocation_ok by blast
next
  case (EvAccess k a)
  note a = acc [OF EvAccess]
  then have "stored_access_key k = k" by (simp add: access_entry_def)
  then show ?thesis using ev ok a by (auto simp: EvAccess ledger_ok_def intro!: flat_ok_set split: if_splits)
next
  case (EvPairing p)
  then show ?thesis using ev ok by (auto simp: ledger_ok_def pairing_entry_def intro!: flat_ok_set split: if_splits)
qed

lemma load_ok:
  "load_lines e t ls b = Some b' \<Longrightarrow> ledger_ok e b \<Longrightarrow>
     (\<forall>l k a. Some l \<in> set ls \<and> ll_event l = EvAccess k a \<longrightarrow> access_entry e k a) \<Longrightarrow> ledger_ok e b'"
proof (induction e t ls b rule: load_lines.induct)
  case (3 e t l ls b)
  have c: "\<not> (ll_version l \<noteq> 1 \<or> ll_seq l \<noteq> br_seq b + 1 \<or> ll_previous l \<noteq> br_hash b
         \<or> ll_hash l \<noteq> line_hash e (ll_version l) (ll_seq l) (ll_previous l) (ll_event l))"
    using "3.prems"(1) by (auto split: if_splits)
  obtain b2 where b2: "apply_event e t (ll_event l) b = Some b2"
    and l: "load_lines e t ls (b2\<lparr>br_seq := ll_seq l, br_hash := Some (ll_hash l)\<rparr>) = Some b'"
    using "3.prems"(1) c by (auto split: option.splits)
  have "ledger_ok e b2" using event_ok [OF "3.prems"(2) b2] "3.prems"(3) by auto
  then have "ledger_ok e (b2\<lparr>br_seq := ll_seq l, br_hash := Some (ll_hash l)\<rparr>)" by (simp add: ledger_ok_def)
  from "3.IH" [OF c b2 l this] show ?case using "3.prems"(3) by auto
qed auto

lemma event_file: "apply_event e t ev b = Some b' \<Longrightarrow> br_file b' = br_file b \<and> br_torn b' = br_torn b"
proof (cases ev)
  case (EvRevocation key rv)
  assume a: "apply_event e t ev b = Some b'"
  have "br_file (snd (revoke e io key (Some rv) False t b)) = br_file b \<and> br_torn (snd (revoke e io key (Some rv) False t b)) = br_torn b" for io
    by (auto simp: revoke_def Let_def applyRevocation_fields split: option.split)
  then show ?thesis
    using a by (auto simp: EvRevocation split: sum.splits prod.splits) (metis snd_conv)+
qed (auto simp: applyHighWaterMark_cases applyPromotionVote_def Let_def split: if_splits option.splits)

lemma load_file: "load_lines e t ls b = Some b' \<Longrightarrow> br_file b' = br_file b \<and> br_torn b' = br_torn b"
proof (induction e t ls b rule: load_lines.induct)
  case (3 e t l ls b)
  then show ?case using event_file by (auto split: if_splits option.splits)
qed auto

definition start_state :: "bool \<Rightarrow> signing_material option \<Rightarrow> bridge \<Rightarrow> bridge" where
  "start_state torn m b =
     (resetRendezvousState b)\<lparr>br_open := [], br_torn := False, br_signing := m, br_seq := 0, br_hash := None\<rparr>"

lemma start_state_fields: "unstarted (start_state torn m b)" "br_file (start_state torn m b) = br_file b" "\<not> br_torn (start_state torn m b)"
  by (simp_all add: start_state_def resetRendezvousState_def unstarted_def)

lemma start_load:
  assumes "be_state_file e"
  shows "startRendezvous e t torn b =
     (if be_production e \<and> be_admin_key e = None then None
      else case loadBridgeSigningMaterial e t of
             Inl x \<Rightarrow> None
           | Inr m \<Rightarrow> if be_production e \<and> m = None then None else load_lines e t (br_file b) (start_state torn m b))"
  using assms
  by (simp add: startRendezvous_def loadRendezvousState_def Let_def start_state_def resetRendezvousState_def split: sum.split)

lemma kept_restart:
  assumes "be_state_file e" and "startRendezvous e t torn b = Some b'"
  shows "kept whole e b b'"
  unfolding kept_def
proof (intro impI)
  assume ok: "ledger_ok e b \<and> restorable whole e b"
  obtain m where l: "load_lines e t (br_file b) (start_state torn m b) = Some b'"
    using assms(2) unfolding start_load [OF assms(1)] by (auto split: if_splits sum.splits)
  have below: "ledger_below b b'"
    using restorable_file [OF conjunct2 [OF ok] start_state_fields(1) [of torn m b], of t] l follows_below by simp
  have f: "br_file b' = br_file b" "\<not> br_torn b'"
    using load_file [OF l] start_state_fields [of torn m b] by simp_all
  have acc: "\<forall>l k a. Some l \<in> set (br_file b) \<and> ll_event l = EvAccess k a \<longrightarrow> access_entry e k a"
    using ok by (simp add: restorable_def)
  have "ledger_ok e (start_state torn m b)" by (simp add: start_state_def resetRendezvousState_def ledger_ok_def)
  then have ok': "ledger_ok e b'" by (rule load_ok [OF l _ acc])
  moreover have "restorable whole e b'"
    unfolding restorable_def f(1)
  proof (intro conjI allI impI)
    fix t0 b0 assume u: "unstarted b0"
    then have "alike (start_state torn m b) b0" using start_state_fields(1) [of torn m b] by (simp add: alike_def unstarted_def)
    from alike_load [OF l this] obtain b1 where b1: "load_lines e t0 (br_file b) b0 = Some b1" "alike b' b1" by blast
    have "distinct (map fst (br_access b'))" using ok' by (simp add: ledger_ok_def flat_ok_def)
    then have "read_follows whole b' b1" using b1(2) by (simp add: read_follows_def alike_def reads_as_def)
    then show "case load_lines e t0 (br_file b) b0 of None \<Rightarrow> \<not> whole | Some x \<Rightarrow> read_follows whole b' x" by (simp add: b1(1))
  qed (use f(2) acc in blast)+
  ultimately show "ledger_ok e b' \<and> restorable whole e b' \<and> ledger_below b b'" using below by blast
qed

lemma kept_step:
  assumes "env_ok e" and "bridge_step e b b'"
  shows "kept False e b b'"
  using assms(2)
proof cases
  case (message t io dr ws raw)
  then show ?thesis using kept_message [OF assms(1)] by simp
next
  case (restart t torn)
  moreover have "be_state_file e" using assms(1) by (simp add: env_ok_def)
  ultimately show ?thesis using kept_restart by blast
qed (use same_connection same_close same_on_close same_cleanup kept_same in blast)+

lemma kept_whole_step:
  assumes "env_ok e" and "whole_step e b b'"
  shows "kept True e b b'"
  using assms(2)
proof cases
  case (whole_message io t dr ws raw)
  then show ?thesis using kept_message [OF assms(1)] by simp
next
  case (whole_restart t torn)
  moreover have "be_state_file e" using assms(1) by (simp add: env_ok_def)
  ultimately show ?thesis using kept_restart by blast
qed (use same_connection same_close same_on_close same_cleanup kept_same in blast)+

lemma whole_run: "rtranclp (whole_step e) b b' \<Longrightarrow> rtranclp (bridge_step e) b b'"
  by (rule mono_rtranclp [rule_format]) (auto elim!: whole_step.cases intro: bridge_step.intros)

lemma new_bridge_ok: "ledger_ok e new_bridge \<and> restorable whole e new_bridge"
  by (auto simp: ledger_ok_def new_bridge_def restorable_def read_follows_def unstarted_def reads_as_def)

definition ledger_inv :: "bridge_env \<Rightarrow> bridge \<Rightarrow> bool" where
  "ledger_inv e b \<longleftrightarrow> env_ok e \<longrightarrow> ledger_ok e b \<and> restorable False e b"

interpretation ledger_invariant: step_invariant "bridge_step e" "ledger_inv e" for e
  by standard (use kept_step in \<open>auto simp: ledger_inv_def kept_def\<close>)

definition whole_inv :: "bridge_env \<Rightarrow> bridge \<Rightarrow> bool" where
  "whole_inv e b \<longleftrightarrow> env_ok e \<longrightarrow> ledger_ok e b \<and> restorable True e b"

interpretation whole_invariant: step_invariant "whole_step e" "whole_inv e" for e
  by standard (use kept_whole_step in \<open>auto simp: whole_inv_def kept_def\<close>)

definition ledger_grows :: "bridge_env \<Rightarrow> bridge \<Rightarrow> bridge \<Rightarrow> bool" where
  "ledger_grows e b b' \<longleftrightarrow> (env_ok e \<and> ledger_inv e b \<longrightarrow> ledger_inv e b' \<and> ledger_below b b')"

interpretation ledger_progress: step_progress "bridge_step e" "ledger_grows e" for e
proof
  show "ledger_grows e b b'" if "bridge_step e b b'" for b b'
    using kept_step [OF _ that] by (auto simp: ledger_grows_def ledger_inv_def kept_def)
qed (auto simp: ledger_grows_def intro: ledger_below_trans)

lemma reachable_inv: "rtranclp (bridge_step e) new_bridge b \<Longrightarrow> ledger_inv e b"
  using ledger_invariant.run_keeps new_bridge_ok by (metis ledger_inv_def)

lemma whole_reachable: "rtranclp (whole_step e) new_bridge b \<Longrightarrow> whole_inv e b"
  using whole_invariant.run_keeps new_bridge_ok by (metis whole_inv_def)

text \<open>
  C17. The ledger stays well formed. In every run, whatever becomes of the writes, each mark, revocation, vote and consumed
  pairing stands under the key its own fields give, and each credential under the key of a host with a grant its authority
  signed and a proof its device signed, whose grant, generation, proof and expiry the credential carries; each has the form
  the loader of the state file asks for, and each revocation verifies.
\<close>

theorem bridge_ledger_well_formed:
  assumes "env_ok e" and "rtranclp (bridge_step e) new_bridge b"
  shows "ledger_ok e b"
  using reachable_inv [OF assms(2)] assms(1) by (simp add: ledger_inv_def)

text \<open>
  C5. A restart loses nothing. Take any run of a bridge with a state file in which each write is done as a whole or not at
  all: appends that fail, compactions that succeed or fail before the file is replaced, earlier restarts. Even if the process
  then ends in the middle of a write, the next start succeeds and has the same marks, revocations, votes and consumed
  pairings, and every credential. (C18 says what happens after a write of the other kind.)
\<close>

theorem bridge_restart_recovers:
  assumes "env_ok e" and "rtranclp (whole_step e) new_bridge b" and "loadBridgeSigningMaterial e t = Inr m"
    and "be_production e \<longrightarrow> be_admin_key e \<noteq> None \<and> m \<noteq> None"
  shows "\<exists>b'. startRendezvous e t torn b = Some b' \<and> br_marks b' = br_marks b \<and> br_revoked b' = br_revoked b
    \<and> br_votes b' = br_votes b \<and> br_pairings b' = br_pairings b
    \<and> (\<forall>k a. map_of (br_access b) k = Some a \<longrightarrow> map_of (br_access b') k = Some a)"
proof -
  have "restorable True e b" using whole_reachable [OF assms(2)] assms(1) by (simp add: whole_inv_def)
  from restorable_file [OF this start_state_fields(1) [of torn m b], of t]
  obtain b' where l: "load_lines e t (br_file b) (start_state torn m b) = Some b'" and r: "reads_as b' b"
    by (auto simp: read_follows_def split: option.splits)
  have "be_state_file e" using assms(1) by (simp add: env_ok_def)
  then have "startRendezvous e t torn b = Some b'" using assms(3,4) l by (auto simp: start_load)
  with r show ?thesis by (auto simp: reads_as_def)
qed

text \<open>
  C16. What a bridge has accepted it does not forget. In any run, whatever becomes of the writes and with every restart that
  succeeds, no mark of a host falls in grant generation, epoch or record number, no vote changes, no revocation falls back,
  and a pairing stays consumed.
\<close>

theorem bridge_never_forgets:
  assumes "env_ok e" and "rtranclp (bridge_step e) new_bridge b" and "rtranclp (bridge_step e) b b'"
  shows "ledger_below b b'"
  using ledger_progress.run_below [OF assms(3)] reachable_inv [OF assms(2)] assms(1) by (simp add: ledger_grows_def)

end
