(* ===== verification/BridgeSafety.thy ===== *)
theory BridgeSafety
  imports BridgeRestart
begin

text \<open>
  What hosts and clients may rely on: a bridge votes once in an election, a higher epoch needs a certificate with the
  bridge's own vote, two certificates of one epoch name one host, and no revoked grant is served.
\<close>

section \<open>Receipts and votes\<close>

text \<open>A bridge whose ledger is in order, as it is after every run.\<close>

definition bridge_consistent :: "bridge_env \<Rightarrow> bridge \<Rightarrow> bool" where
  "bridge_consistent e b \<longleftrightarrow> env_ok e \<and> ledger_ok e b \<and> restorable False e b"

lemma reachable_consistent: "env_ok e \<Longrightarrow> rtranclp (bridge_step e) new_bridge b \<Longrightarrow> bridge_consistent e b"
  using reachable_inv by (simp add: bridge_consistent_def ledger_inv_def)

lemma consistent_run: "bridge_consistent e b \<Longrightarrow> rtranclp (bridge_step e) b b' \<Longrightarrow> bridge_consistent e b' \<and> ledger_below b b'"
  using ledger_progress.run_below [of e b b'] by (simp add: bridge_consistent_def ledger_grows_def ledger_inv_def)

definition vote_of :: "bridge \<Rightarrow> string \<Rightarrow> string \<Rightarrow> int \<Rightarrow> vote_mark option" where
  "vote_of b fp server epoch = map_of (br_votes b) (promotionVoteKey fp server epoch)"

lemma toLowerCase_length [simp]: "length (toLowerCase s) = length s"
  by (simp add: toLowerCase_def)

text \<open>The key of a kept vote determines what follows the fingerprint.\<close>

lemma vote_key_tail:
  assumes "promotionVoteKey fp server epoch = promotionVoteKey fp' server' epoch'" and "length fp = 64" and "length fp' = 64"
  shows "promotionVoteKey fp server epoch = promotionVoteKey fp server' epoch'"
proof -
  have "take 64 (promotionVoteKey fp server epoch) = toLowerCase fp" "take 64 (promotionVoteKey fp' server' epoch') = toLowerCase fp'"
    using assms(2,3) by (simp_all add: promotionVoteKey_def authorityScope_def)
  then have "toLowerCase fp = toLowerCase fp'" using assms(1) by simp
  then have "promotionVoteKey fp server' epoch' = promotionVoteKey fp' server' epoch'"
    by (simp add: promotionVoteKey_def authorityScope_def)
  then show ?thesis using assms(1) by (simp only:)
qed

lemma durable_vote_result:
  assumes "durable_vote e io t v ex b = (Inr (Inr vote), b')" and "be_state_file e"
    and "ex = map_of (br_votes b) (promotionVoteKey (vm_authority v) (vm_server v) (vm_epoch v))"
  shows "map_of (br_votes b') (promotionVoteKey (vm_authority v) (vm_server v) (vm_epoch v)) = Some vote"
proof (cases ex)
  case None
  let ?k = "promotionVoteKey (vm_authority v) (vm_server v) (vm_epoch v)"
  obtain b1 where a: "appendStateEvent e (io_append io) (EvVote v) b = (True, b1)" and vote: "vote = v"
    and b': "b' = snd (maybeCompactState e io t (snd (applyPromotionVote v b1)))"
    using assms(1) by (auto simp: durable_vote_def None Let_def split: if_splits prod.splits)
  have "map_of (br_votes b1) ?k = None" using append_memory(3) [OF a assms(2)] assms(3) None by simp
  then have "map_of (br_votes (snd (applyPromotionVote v b1))) ?k = Some v" by (simp add: applyPromotionVote_new map_of_map_set)
  moreover have "br_votes b' = br_votes (snd (applyPromotionVote v b1))"
    unfolding b' maybeCompactState_def Let_def using same_fields(3) [OF cleanup_fields(1)] by (simp split: compact_outcome.split)
  ultimately show ?thesis by (simp add: vote)
next
  case (Some v')
  then show ?thesis using assms by (simp add: durable_vote_def)
qed

text \<open>An accepted claim, taken apart.\<close>

lemma claim_accepted:
  assumes "claimPromotionVote e io fr t b = (Inr (Inr rc), b')"
  obtains d seed b1 w0 w k vote where "signing_material e t b = (Inr (Some (d, seed)), b1)" and "cm_witness fr = Some w0"
    and "verifySignedBridgeWitness e w0 d t = Some w" and "\<not> bw_online (s_payload w)"
    and "AuthorityFingerprintSchema (toLowerCase (cm_authority fr))"
    and "known_primary (inner (br_marks b1) (authorityScope (toLowerCase (cm_authority fr)) (bw_server (s_payload w)))) = Some k"
    and "lm_host k = bw_primary (s_payload w)" and "lm_hash k = bw_record_hash (s_payload w)" and "lm_epoch k = bw_epoch (s_payload w)"
    and "\<not> primary_present e b1 (hostBindingKey (toLowerCase (cm_authority fr)) (bw_server (s_payload w)) (bw_primary (s_payload w))) t"
    and "durable_vote e io t (vote_for (toLowerCase (cm_authority fr)) (s_payload w) t)
       (map_of (br_votes b1) (promotionVoteKey (toLowerCase (cm_authority fr)) (bw_server (s_payload w)) (bw_epoch (s_payload w) + 1))) b1
       = (Inr (Inr vote), b')"
    and "s_payload rc = vote_receipt (bd_bridge (s_payload d)) (text_or_empty (cm_request fr)) (s_payload w) t vote"
    and "\<forall>v. map_of (br_votes b1) (promotionVoteKey (toLowerCase (cm_authority fr)) (bw_server (s_payload w)) (bw_epoch (s_payload w) + 1))
           = Some v \<longrightarrow> vm_candidate v = bw_replica (s_payload w)"
proof -
  let ?fp = "toLowerCase (cm_authority fr)"
  have "\<exists>m b1. signing_material e t b = (Inr (Some m), b1)"
    using assms by (auto simp: claimPromotionVote_def split: if_splits sum.splits prod.splits option.splits)
  then obtain d seed b1 where s: "signing_material e t b = (Inr (Some (d, seed)), b1)" by auto
  have "\<exists>w0 w. cm_witness fr = Some w0 \<and> verifySignedBridgeWitness e w0 d t = Some w"
    using assms unfolding claimPromotionVote_def s Let_def by (auto split: if_splits option.splits)
  then obtain w0 w where w0: "cm_witness fr = Some w0" and w: "verifySignedBridgeWitness e w0 d t = Some w" by blast
  let ?p = "s_payload w"
  let ?ex = "map_of (br_votes b1) (promotionVoteKey ?fp (bw_server ?p) (bw_epoch ?p + 1))"
  note c = assms [unfolded claimPromotionVote_def s Let_def prod.case sum.case option.case w0 w]
  have "\<exists>k. known_primary (inner (br_marks b1) (authorityScope ?fp (bw_server ?p))) = Some k
      \<and> lm_host k = bw_primary ?p \<and> lm_hash k = bw_record_hash ?p \<and> lm_epoch k = bw_epoch ?p"
    using c by (auto split: if_splits option.splits)
  then obtain k where k: "known_primary (inner (br_marks b1) (authorityScope ?fp (bw_server ?p))) = Some k" "lm_host k = bw_primary ?p"
    "lm_hash k = bw_record_hash ?p" "lm_epoch k = bw_epoch ?p" by blast
  have n: "\<not> bw_online ?p" "AuthorityFingerprintSchema ?fp"
    "\<not> primary_present e b1 (hostBindingKey ?fp (bw_server ?p) (bw_primary ?p)) t"
    using c by (auto split: if_splits option.splits)
  have ex: "\<forall>v. ?ex = Some v \<longrightarrow> vm_candidate v = bw_replica ?p"
    using c by (auto split: if_splits option.splits)
  have "\<exists>vote. durable_vote e io t (vote_for ?fp ?p t) ?ex b1 = (Inr (Inr vote), b')
      \<and> s_payload rc = vote_receipt (bd_bridge (s_payload d)) (text_or_empty (cm_request fr)) ?p t vote"
    using c by (cases "durable_vote e io t (vote_for ?fp ?p t) ?ex b1") (auto split: if_splits option.splits sum.splits)
  then obtain vote where "durable_vote e io t (vote_for ?fp ?p t) ?ex b1 = (Inr (Inr vote), b')"
      "s_payload rc = vote_receipt (bd_bridge (s_payload d)) (text_or_empty (cm_request fr)) ?p t vote" by blast
  then show thesis by (rule that [OF s w0 w n(1,2) k n(3) _ _ ex])
qed

lemma signed_receipt_is_vote:
  assumes "bridge_consistent e b" and "claimPromotionVote e io fr t b = (Inr (Inr rc), b')"
  shows "\<exists>vote. vote_of b' (toLowerCase (cm_authority fr)) (pv_server (s_payload rc)) (pv_election (s_payload rc)) = Some vote
    \<and> vm_candidate vote = pv_candidate (s_payload rc) \<and> vm_primary vote = pv_primary (s_payload rc)
    \<and> vm_record_hash vote = pv_record_hash (s_payload rc)"
proof -
  let ?fp = "toLowerCase (cm_authority fr)"
  from assms(2) obtain d seed b1 w0 w k vote where s: "signing_material e t b = (Inr (Some (d, seed)), b1)" and "cm_witness fr = Some w0"
    and "verifySignedBridgeWitness e w0 d t = Some w" and "\<not> bw_online (s_payload w)" and fp: "AuthorityFingerprintSchema ?fp"
    and "known_primary (inner (br_marks b1) (authorityScope ?fp (bw_server (s_payload w)))) = Some k"
    and "lm_host k = bw_primary (s_payload w)" and "lm_hash k = bw_record_hash (s_payload w)" and "lm_epoch k = bw_epoch (s_payload w)"
    and "\<not> primary_present e b1 (hostBindingKey ?fp (bw_server (s_payload w)) (bw_primary (s_payload w))) t"
    and dv: "durable_vote e io t (vote_for ?fp (s_payload w) t)
       (map_of (br_votes b1) (promotionVoteKey ?fp (bw_server (s_payload w)) (bw_epoch (s_payload w) + 1))) b1 = (Inr (Inr vote), b')"
    and rc: "s_payload rc = vote_receipt (bd_bridge (s_payload d)) (text_or_empty (cm_request fr)) (s_payload w) t vote"
    and "\<forall>v. map_of (br_votes b1) (promotionVoteKey ?fp (bw_server (s_payload w)) (bw_epoch (s_payload w) + 1)) = Some v
           \<longrightarrow> vm_candidate v = bw_replica (s_payload w)"
    by (rule claim_accepted)
  have ok: "ledger_ok e b1" using ledger_ok_same [OF same_signing [of b e t]] s assms(1) by (simp add: bridge_consistent_def)
  have f: "be_state_file e" using assms(1) by (simp add: bridge_consistent_def env_ok_def)
  let ?k = "promotionVoteKey ?fp (bw_server (s_payload w)) (bw_epoch (s_payload w) + 1)"
  have k: "map_of (br_votes b') ?k = Some vote"
    using durable_vote_result [OF dv f] by (simp add: vote_for_def)
  have "vote_entry ?k vote \<or> vote = vote_for ?fp (s_payload w) t"
  proof (cases "map_of (br_votes b1) ?k")
    case None
    then show ?thesis using dv by (auto simp: durable_vote_def Let_def split: if_splits prod.splits)
  next
    case (Some v)
    then have "vote_entry ?k v" using ok flat_ok_get by (auto simp: ledger_ok_def)
    then show ?thesis using dv Some by (simp add: durable_vote_def)
  qed
  then have "?k = promotionVoteKey ?fp (vm_server vote) (vm_epoch vote)"
  proof
    assume v: "vote_entry ?k vote"
    then have "length (vm_authority vote) = 64" by (simp add: vote_entry_def persistedPromotionVote_def AuthorityFingerprintSchema_def)
    moreover have "length ?fp = 64" using fp by (simp add: AuthorityFingerprintSchema_def)
    moreover have "?k = promotionVoteKey (vm_authority vote) (vm_server vote) (vm_epoch vote)" using v by (simp add: vote_entry_def)
    ultimately show ?thesis using vote_key_tail by blast
  qed (simp add: vote_for_def)
  then have "vote_of b' ?fp (vm_server vote) (vm_epoch vote) = Some vote" using k by (simp only: vote_of_def)
  then show ?thesis by (intro exI [of _ vote]) (simp add: rc vote_receipt_def)
qed

lemma claim_keeps:
  assumes "bridge_consistent e b" and "claimPromotionVote e io fr t b = (r, b')" and "clock_ok t" and "epochs_left b"
  shows "bridge_consistent e b' \<and> ledger_below b b'"
proof -
  have "env_ok e" using assms(1) by (simp add: bridge_consistent_def)
  from kept_claim [OF this assms(3), of False io b fr] assms(1,2,4) show ?thesis by (simp add: kept_def bridge_consistent_def)
qed

text \<open>
  C6. A bridge votes once. Two receipts a bridge signs for the same community and the same election epoch, the second
  after any further run with any number of restarts and whatever becomes of the writes, name the same candidate, primary and checkpoint.
\<close>

theorem bridge_votes_once:
  assumes "bridge_consistent e b" and "clock_ok t" and "epochs_left b"
    and "claimPromotionVote e io fr t b = (Inr (Inr rc), b1)" and "rtranclp (bridge_step e) b1 b2"
    and "clock_ok t'" and "epochs_left b2"
    and "claimPromotionVote e io' fr' t' b2 = (Inr (Inr rc'), b3)"
    and "toLowerCase (cm_authority fr') = toLowerCase (cm_authority fr)"
    and "pv_server (s_payload rc') = pv_server (s_payload rc)" and "pv_election (s_payload rc') = pv_election (s_payload rc)"
  shows "pv_candidate (s_payload rc') = pv_candidate (s_payload rc) \<and> pv_primary (s_payload rc') = pv_primary (s_payload rc)
    \<and> pv_record_hash (s_payload rc') = pv_record_hash (s_payload rc)"
proof -
  note k1 = claim_keeps [OF assms(1,4,2,3)]
  have k2: "bridge_consistent e b2" "ledger_below b1 b2" using consistent_run [OF _ assms(5)] k1 by blast+
  note k3 = claim_keeps [OF k2(1) assms(8,6,7)]
  obtain v where v: "vote_of b1 (toLowerCase (cm_authority fr)) (pv_server (s_payload rc)) (pv_election (s_payload rc)) = Some v"
    "vm_candidate v = pv_candidate (s_payload rc)" "vm_primary v = pv_primary (s_payload rc)"
    "vm_record_hash v = pv_record_hash (s_payload rc)"
    using signed_receipt_is_vote [OF assms(1,4)] by blast
  obtain v' where v': "vote_of b3 (toLowerCase (cm_authority fr)) (pv_server (s_payload rc)) (pv_election (s_payload rc)) = Some v'"
    "vm_candidate v' = pv_candidate (s_payload rc')" "vm_primary v' = pv_primary (s_payload rc')"
    "vm_record_hash v' = pv_record_hash (s_payload rc')"
    using signed_receipt_is_vote [OF k2(1) assms(8)] assms(9-11) by auto
  have "ledger_below b1 b3" using k2(2) k3 ledger_below_trans by blast
  with v(1) v'(1) have "v' = v" by (simp add: vote_of_def ledger_below_def)
  with v v' show ?thesis by simp
qed

section \<open>Certificates\<close>

lemma certificate_bridges:
  assumes "certificate_ok e b d approved r primary n t items ids rqs own" and "distinct ids" and "set ids \<subseteq> set approved"
  shows "\<exists>more. distinct (more @ ids) \<and> set (more @ ids) \<subseteq> set approved \<and> 2 \<le> length (more @ ids)
    \<and> (\<forall>i \<in> set more. \<exists>v. Some v \<in> set items \<and> pv_bridge (s_payload v) = i \<and> certificate_receipt_ok e approved r primary n t v)
    \<and> (own \<or> (\<exists>v. Some v \<in> set items \<and> pv_bridge (s_payload v) = bd_bridge (s_payload d) \<and> own_vote_ok b d r primary v))"
  using assms
proof (induction e b d approved r primary n t items ids rqs own rule: certificate_ok.induct)
  case (1 e b d approved r primary n t ids rqs own)
  then show ?case by (intro exI [of _ "[]"]) simp
next
  case (3 e b d approved r primary n t v items ids rqs own)
  let ?i = "pv_bridge (s_payload v)"
  let ?mine = "?i = bd_bridge (s_payload d)"
  have v: "certificate_receipt_ok e approved r primary n t v" "?i \<notin> set ids" "?mine \<Longrightarrow> own_vote_ok b d r primary v"
    and rest: "certificate_ok e b d approved r primary n t items (?i # ids) (pv_request (s_payload v) # rqs) (own \<or> ?mine)"
    using "3.prems"(1) by (auto simp: Let_def)
  have "?i \<in> set approved" using v(1) by (simp add: certificate_receipt_ok_def Let_def)
  then obtain more where more: "distinct (more @ ?i # ids)" "set (more @ ?i # ids) \<subseteq> set approved" "2 \<le> length (more @ ?i # ids)"
    "\<forall>i \<in> set more. \<exists>v. Some v \<in> set items \<and> pv_bridge (s_payload v) = i \<and> certificate_receipt_ok e approved r primary n t v"
    "(own \<or> ?mine) \<or> (\<exists>v. Some v \<in> set items \<and> pv_bridge (s_payload v) = bd_bridge (s_payload d) \<and> own_vote_ok b d r primary v)"
    using "3.IH" [OF refl refl rest] "3.prems" v(2) by auto
  show ?case
  proof (intro exI [of _ "more @ [?i]"] conjI ballI)
    fix i assume "i \<in> set (more @ [?i])"
    then show "\<exists>va. Some va \<in> set (Some v # items) \<and> pv_bridge (s_payload va) = i \<and> certificate_receipt_ok e approved r primary n t va"
      using more(4) v(1) by auto
  next
    show "own \<or> (\<exists>va. Some va \<in> set (Some v # items) \<and> pv_bridge (s_payload va) = bd_bridge (s_payload d) \<and> own_vote_ok b d r primary va)"
      using more(5) v(3) by auto
  qed (use more in auto)
qed simp

lemma validate_parts:
  assumes "validateRegistration e fr t b = (Inr (Inr v), b1)"
  shows "rf_grant fr = Some (vr_grant v) \<and> rf_record fr = Some (vr_record v) \<and> vr_key v = rf_key fr \<and> vr_certificate v = rf_certificate fr"
proof -
  obtain fp grant0 record0 where fp: "publicKeyFingerprint e (rf_key fr) = Some fp" and g0: "rf_grant fr = Some grant0"
    and r0: "rf_record fr = Some record0"
    using assms by (auto simp: validateRegistration_def split: option.splits)
  let ?scope = "authorityScope fp (hr_server (s_payload record0))"
  let ?revoked = "if grant_revoked b ?scope (s_payload grant0) then [gp_grant (s_payload grant0)] else []"
  obtain rcd grant where ver: "verifyHostRegistration e record0 grant0 (rf_key fr) ?revoked t = Some (rcd, grant)"
    using assms by (auto simp: validateRegistration_def fp g0 r0 Let_def split: option.splits if_splits)
  have ad: "admit_registration e fp (rf_key fr) (rf_certificate fr) record0 grant0 t b = (Inr (Inr v), b1)"
    using assms unfolding validateRegistration_def Let_def fp g0 r0
    by (auto simp: ver verify_registration_parts(1,2) [OF ver] simp del: not_None_eq split: option.splits if_splits)
  from admit_facts(3) [OF ad refl] show ?thesis using g0 r0 by auto
qed

lemma prove_accepted:
  assumes "proveRegistration e io ws fr t b = (Inr (Inr rd), b')" and "map_of (br_pending b) ws = Some p"
  obtains v b1 where "validated e b1 v t" and "same_ledger b b1" and "br_records b1 = br_records b" and "vr_record v = pd_record p" and "vr_grant v = pd_grant p"
    and "vr_key v = pd_key p" and "vr_certificate v = pd_certificate p" and "rd_role rd = hr_role (s_payload (pd_record p))"
    and "rd_epoch rd = hr_epoch (s_payload (pd_record p))"
proof -
  let ?b1 = "clearPendingRegistration ws b"
  let ?fr = "\<lparr>rf_key = pd_key p, rf_grant = Some (pd_grant p), rf_record = Some (pd_record p), rf_certificate = pd_certificate p\<rparr>"
  obtain y b2 where va: "validateRegistration e ?fr t ?b1 = (y, b2)" by (cases "validateRegistration e ?fr t ?b1")
  obtain v where v: "y = Inr (Inr v)" and c: "commitRegistration e io t ws v b2 = (Inr (Inr rd), b')"
    using assms va by (auto simp: proveRegistration_def Let_def split: if_splits sum.splits)
  have parts: "vr_grant v = pd_grant p" "vr_record v = pd_record p" "vr_key v = pd_key p" "vr_certificate v = pd_certificate p"
    using validate_parts [OF va [unfolded v]] by simp_all
  have "rd_role rd = hr_role (s_payload (vr_record v)) \<and> rd_epoch rd = hr_epoch (s_payload (vr_record v))"
    using c by (auto simp: commitRegistration_def Let_def split: sum.splits option.splits prod.splits)
  moreover have "br_records ?b1 = br_records b" by (simp add: clearPendingRegistration_def split: option.split)
  ultimately show thesis
    using that [OF validate_facts(3) [OF va v] same_clear _ parts(2,1,3,4)] parts(2) by simp
qed

lemma certificate_accepted:
  assumes "validPromotionCertificate e cert r g marks n t b = (Inr True, b')"
  shows "\<exists>items primary d. cert = Some items \<and> current_primary marks n = Some primary
    \<and> \<not> length (remdups (case gp_witness g of None \<Rightarrow> [] | Some ids \<Rightarrow> ids)) < 2
    \<and> certificate_ok e b' d (remdups (case gp_witness g of None \<Rightarrow> [] | Some ids \<Rightarrow> ids)) r primary n t items [] [] False
    \<and> b' = snd (signing_material e t b)"
proof (cases cert)
  case None
  then show ?thesis using assms by (simp add: validPromotionCertificate_def)
next
  case (Some items)
  note items = this
  obtain primary where primary: "current_primary marks n = Some primary"
    using assms items by (cases "current_primary marks n") (simp_all add: validPromotionCertificate_def Let_def split: if_splits)
  obtain y b1 where sm: "signing_material e t b = (y, b1)" by (cases "signing_material e t b")
  show ?thesis
  proof (cases y)
    case (Inl x)
    then show ?thesis using assms items primary sm by (simp add: validPromotionCertificate_def Let_def split: if_splits)
  next
    case (Inr d)
    then obtain m where m: "d = Some m"
      using assms items primary sm by (cases d) (simp_all add: validPromotionCertificate_def Let_def split: if_splits)
    obtain dd seed where "m = (dd, seed)" by (cases m)
    then have "certificate_ok e b1 dd (remdups (case gp_witness g of None \<Rightarrow> [] | Some ids \<Rightarrow> ids)) r primary n t items [] [] False"
        "b' = b1" "\<not> length (remdups (case gp_witness g of None \<Rightarrow> [] | Some ids \<Rightarrow> ids)) < 2"
      using assms items primary sm Inr m by (auto simp: validPromotionCertificate_def Let_def split: if_splits)
    then show ?thesis using items primary sm by auto
  qed
qed

text \<open>
  C7. No host raises the epoch of a community alone. A bridge that accepts a primary above the highest epoch it knows
  accepts the next epoch only, and has a certificate with valid receipts of at least two different bridges that the
  authority named in the grant, and a vote of its own for this host.
\<close>

theorem raised_epoch_certified:
  assumes "proveRegistration e io ws fr t b = (Inr (Inr rd), b')" and "map_of (br_pending b) ws = Some p"
    and "publicKeyFingerprint e (pd_key p) = Some fp" and "rd_role rd = Primary"
    and "marks = inner (br_marks b) (authorityScope fp (hr_server (s_payload (pd_record p))))" and "marks \<noteq> []"
    and "rd_epoch rd > highest_epoch marks"
  shows "rd_epoch rd = highest_epoch marks + 1
    \<and> (\<exists>items primary ids vote. pd_certificate p = Some items \<and> current_primary marks (highest_epoch marks) = Some primary
         \<and> distinct ids \<and> 2 \<le> length ids \<and> gp_witness (s_payload (pd_grant p)) \<noteq> None
         \<and> set ids \<subseteq> set (the (gp_witness (s_payload (pd_grant p))))
         \<and> (\<forall>i \<in> set ids. \<exists>v. Some v \<in> set items \<and> pv_bridge (s_payload v) = i
              \<and> certificate_receipt_ok e (the (gp_witness (s_payload (pd_grant p)))) (s_payload (pd_record p)) primary
                  (highest_epoch marks) t v)
         \<and> vote_of b (lm_authority primary) (hr_server (s_payload (pd_record p))) (rd_epoch rd) = Some vote
         \<and> vm_candidate vote = hr_host (s_payload (pd_record p)))"
proof -
  from assms(1,2) obtain v b1 where va: "validated e b1 v t" and sl: "same_ledger b b1" and "br_records b1 = br_records b"
    and v: "vr_record v = pd_record p" "vr_grant v = pd_grant p" "vr_key v = pd_key p" "vr_certificate v = pd_certificate p"
    and rd: "rd_role rd = hr_role (s_payload (pd_record p))" "rd_epoch rd = hr_epoch (s_payload (pd_record p))"
    by (rule prove_accepted)
  let ?r = "s_payload (pd_record p)"
  let ?g = "s_payload (pd_grant p)"
  have m1: "br_marks b1 = br_marks b" using sl by (simp add: same_ledger_def durable_def)
  have "vr_fingerprint v = fp" using va assms(3) by (simp add: validated_def Let_def v)
  then have cert: "certified e b1 v marks t" and ec: "epoch_conflict marks ?r = None"
    using va assms(4-7) rd unfolding validated_def Let_def v m1 by auto
  have ep: "rd_epoch rd = highest_epoch marks + 1"
    using ec assms(6,7) rd(2) by (auto simp: epoch_conflict_def split: if_splits)
  from cert obtain b2 where c: "validPromotionCertificate e (pd_certificate p) ?r ?g marks (highest_epoch marks) t b1 = (Inr True, b2)"
    by (auto simp: certified_def v)
  let ?ap = "remdups (case gp_witness ?g of None \<Rightarrow> [] | Some ids \<Rightarrow> ids)"
  obtain items primary d where it: "pd_certificate p = Some items" and pr: "current_primary marks (highest_epoch marks) = Some primary"
    and len: "\<not> length ?ap < 2" and co: "certificate_ok e b2 d ?ap ?r primary (highest_epoch marks) t items [] [] False"
    and b2: "b2 = snd (signing_material e t b1)"
    using certificate_accepted [OF c] by blast
  from len obtain ws where w: "gp_witness ?g = Some ws" by (cases "gp_witness ?g") auto
  have votes: "br_votes b2 = br_votes b"
    using same_signing [of b1 e t] sl unfolding b2 by (simp add: same_ledger_def durable_def)
  obtain ids where ids: "distinct ids" "set ids \<subseteq> set ?ap" "2 \<le> length ids"
    "\<forall>i \<in> set ids. \<exists>v. Some v \<in> set items \<and> pv_bridge (s_payload v) = i \<and> certificate_receipt_ok e ?ap ?r primary (highest_epoch marks) t v"
    "\<exists>v. Some v \<in> set items \<and> pv_bridge (s_payload v) = bd_bridge (s_payload d) \<and> own_vote_ok b2 d ?r primary v"
    using certificate_bridges [OF co] by auto
  then obtain vote where vote: "map_of (br_votes b2) (promotionVoteKey (lm_authority primary) (hr_server ?r) (hr_epoch ?r)) = Some vote"
    "vm_candidate vote = hr_host ?r"
    by (auto simp: own_vote_ok_def split: option.splits)
  have rok: "certificate_receipt_ok e (remdups ws) ?r primary n t x = certificate_receipt_ok e ws ?r primary n t x" for n x
    by (simp add: certificate_receipt_ok_def)
  show ?thesis
    using ep it pr ids(1-4) vote rd(2) unfolding votes vote_of_def w
    by (intro conjI exI [of _ items] exI [of _ primary] exI [of _ ids] exI [of _ vote]) (simp_all add: vote_of_def rok)
qed

text \<open>
  A receipt as bridge \<open>i\<close> issued it, somewhere in a run that ends in the state \<open>B i\<close>.
\<close>

definition issued_by :: "bridge_env \<Rightarrow> bridge \<Rightarrow> string \<Rightarrow> promotion_vote signed \<Rightarrow> bool" where
  "issued_by e b_end fp v \<longleftrightarrow>
     (\<exists>b io fr t b1. bridge_consistent e b \<and> clock_ok t \<and> epochs_left b
        \<and> claimPromotionVote e io fr t b = (Inr (Inr v), b1) \<and> toLowerCase (cm_authority fr) = toLowerCase fp
        \<and> rtranclp (bridge_step e) b1 b_end)"

lemma issued_vote:
  assumes "issued_by e b_end fp v"
  shows "\<exists>vote. vote_of b_end (toLowerCase fp) (pv_server (s_payload v)) (pv_election (s_payload v)) = Some vote
    \<and> vm_candidate vote = pv_candidate (s_payload v)"
proof -
  from assms obtain b io fr t b1 where c: "bridge_consistent e b" "claimPromotionVote e io fr t b = (Inr (Inr v), b1)"
    and h: "clock_ok t" "epochs_left b" and fp: "toLowerCase (cm_authority fr) = toLowerCase fp"
    and run: "rtranclp (bridge_step e) b1 b_end"
    by (auto simp: issued_by_def)
  have "ledger_below b1 b_end" using claim_keeps [OF c h] consistent_run run by blast
  with signed_receipt_is_vote [OF c] fp show ?thesis by (auto simp: vote_of_def ledger_below_def)
qed

text \<open>
  C8. One election, one winner. Two certificates that two bridges accept for registrations of the same community and
  epoch, over the same at most three witness bridges, name the same host, if every receipt was issued by the bridge it
  names: certificates of two receipts each share a bridge, and that bridge voted once.
\<close>

theorem one_winner_per_epoch:
  assumes "certificate_ok e1 b1 d1 approved r1 primary1 n1 t1 items1 [] [] False"
    and "certificate_ok e2 b2 d2 approved r2 primary2 n2 t2 items2 [] [] False"
    and "distinct approved" and "length approved \<le> 3"
    and "hr_server r1 = hr_server r2" and "hr_epoch r1 = hr_epoch r2"
    and "\<forall>v. Some v \<in> set items1 \<union> set items2 \<longrightarrow> issued_by (E (pv_bridge (s_payload v))) (B (pv_bridge (s_payload v))) fp v"
  shows "hr_host r1 = hr_host r2"
proof -
  obtain ids1 where i1: "distinct ids1" "set ids1 \<subseteq> set approved" "2 \<le> length ids1"
    "\<forall>i \<in> set ids1. \<exists>v. Some v \<in> set items1 \<and> pv_bridge (s_payload v) = i \<and> certificate_receipt_ok e1 approved r1 primary1 n1 t1 v"
    using certificate_bridges [OF assms(1)] by auto
  obtain ids2 where i2: "distinct ids2" "set ids2 \<subseteq> set approved" "2 \<le> length ids2"
    "\<forall>i \<in> set ids2. \<exists>v. Some v \<in> set items2 \<and> pv_bridge (s_payload v) = i \<and> certificate_receipt_ok e2 approved r2 primary2 n2 t2 v"
    using certificate_bridges [OF assms(2)] by auto
  have "set ids1 \<inter> set ids2 \<noteq> {}"
  proof
    assume "set ids1 \<inter> set ids2 = {}"
    then have "card (set ids1 \<union> set ids2) = length ids1 + length ids2"
      using i1(1) i2(1) by (simp add: card_Un_disjoint distinct_card)
    moreover have "card (set ids1 \<union> set ids2) \<le> card (set approved)" using i1(2) i2(2) by (intro card_mono) auto
    moreover have "card (set approved) \<le> 3" using assms(3,4) by (simp add: distinct_card)
    ultimately show False using i1(3) i2(3) by linarith
  qed
  then obtain i where "i \<in> set ids1" "i \<in> set ids2" by blast
  with i1(4) i2(4) obtain v1 v2 where v1: "Some v1 \<in> set items1" "pv_bridge (s_payload v1) = i" "certificate_receipt_ok e1 approved r1 primary1 n1 t1 v1"
    and v2: "Some v2 \<in> set items2" "pv_bridge (s_payload v2) = i" "certificate_receipt_ok e2 approved r2 primary2 n2 t2 v2" by blast
  have r1: "pv_candidate (s_payload v1) = hr_host r1" "pv_server (s_payload v1) = hr_server r1" "pv_election (s_payload v1) = hr_epoch r1"
    using v1(3) by (simp_all add: certificate_receipt_ok_def Let_def)
  have r2: "pv_candidate (s_payload v2) = hr_host r2" "pv_server (s_payload v2) = hr_server r2" "pv_election (s_payload v2) = hr_epoch r2"
    using v2(3) by (simp_all add: certificate_receipt_ok_def Let_def)
  have "issued_by (E i) (B i) fp v1" "issued_by (E i) (B i) fp v2" using assms(7) v1(1,2) v2(1,2) by auto
  from issued_vote [OF this(1)] issued_vote [OF this(2)] show ?thesis using r1 r2 assms(5,6) by auto
qed

section \<open>A failed write\<close>

lemma chain_broken: "ll_seq l = ll_seq l' \<Longrightarrow> load_lines e t (ls @ [Some l, Some l']) b0 = None"
  by (auto simp: load_lines_append [of e t ls] split: option.split)

text \<open>
  C18. One failed \<open>fsync\<close> can make a bridge unable to start. If a line is written but its \<open>fsync\<close> fails, the call throws and
  the sequence number stays; the next event repeats the number, and every later start from the file throws.
\<close>

theorem failed_sync_ends_restarts:
  assumes "bridge_consistent e b" and "appendStateEvent e Unsynced ev b = (False, b1)" and "appendStateEvent e Synced ev' b1 = (True, b2)"
  shows "startRendezvous e t torn b2 = None"
proof -
  have f: "be_state_file e" using assms(1) by (simp add: bridge_consistent_def env_ok_def)
  let ?l = "ledger_line_of e (br_seq b + 1) (br_hash b)"
  have 1: "br_file b1 = br_file b @ [if br_torn b then None else Some (?l ev)]" "br_seq b1 = br_seq b" "br_hash b1 = br_hash b" "\<not> br_torn b1"
    using assms(2) f by (auto simp: appendStateEvent_def Let_def write_line_def)
  have 2: "br_file b2 = br_file b @ [if br_torn b then None else Some (?l ev), Some (?l ev')]"
    using assms(3) f 1 by (auto simp: appendStateEvent_def Let_def write_line_def)
  have "load_lines e t (br_file b2) (start_state torn m b2) = None" for m
  proof (cases "br_torn b")
    case True
    then show ?thesis by (simp add: 2 load_lines_append split: option.split)
  next
    case False
    then show ?thesis using chain_broken [of "?l ev" "?l ev'"] by (simp add: 2 ledger_line_of_def)
  qed
  then show ?thesis by (simp add: start_load [OF f] split: sum.split)
qed

end
