(* ===== verification/BridgeRecords.thy ===== *)
theory BridgeRecords
  imports BridgeSafety
begin

text \<open>
  The records a bridge serves. \<open>served_ok\<close> says that every record stands under its community and host, that the authority of
  the community has signed its grant and the granted device the record, that the grant is not revoked, and that a community
  has at most sixteen records. Every operation keeps it.
\<close>

section \<open>The invariant\<close>

definition record_ok :: "bridge_env \<Rightarrow> bridge \<Rightarrow> string \<Rightarrow> string \<Rightarrow> stored_record \<Rightarrow> bool" where
  "record_ok e b scope h s \<longleftrightarrow>
     (let r = s_payload (sr_record s) in
        publicKeyFingerprint e (sr_key s) = Some (sr_fingerprint s)
        \<and> (\<exists>t. verifyHostRegistration e (sr_record s) (sr_grant s) (sr_key s) [] t = Some (sr_record s, sr_grant s))
        \<and> scope = authorityScope (sr_fingerprint s) (hr_server r) \<and> h = hr_host r \<and> sr_expires s \<le> hr_expires r
        \<and> \<not> grant_revoked b scope (s_payload (sr_grant s)))"

definition served_ok :: "bridge_env \<Rightarrow> bridge \<Rightarrow> bool" where
  "served_ok e b \<longleftrightarrow>
     flat_ok (\<lambda>scope hosts. length hosts \<le> MAX_RECORDS_PER_SERVER \<and> flat_ok (record_ok e b scope) hosts) (br_records b)"

lemma served_inner:
  assumes "served_ok e b"
  shows "length (inner (br_records b) scope) \<le> MAX_RECORDS_PER_SERVER" "flat_ok (record_ok e b scope) (inner (br_records b) scope)"
  using assms by (auto simp: inner_def served_ok_def dest: flat_ok_get split: option.splits)

lemma flat_ok_mono: "flat_ok P m \<Longrightarrow> (\<And>k v. P k v \<Longrightarrow> Q k v) \<Longrightarrow> flat_ok Q m"
  by (auto simp: flat_ok_def)

lemma record_ok_revoked: "br_revoked b' = br_revoked b \<Longrightarrow> record_ok e b' = record_ok e b"
  by (intro ext) (simp add: record_ok_def grant_revoked_def)

text \<open>Records may go; what is revoked stays as it is.\<close>

definition fewer_records :: "(string \<times> (string \<times> stored_record) list) list \<Rightarrow> (string \<times> (string \<times> stored_record) list) list \<Rightarrow> bool" where
  "fewer_records m m' \<longleftrightarrow> (\<exists>P Q. m' = filter Q (map (\<lambda>(scope, hosts). (scope, filter (P scope) hosts)) m))"

definition served_less :: "bridge \<Rightarrow> bridge \<Rightarrow> bool" where
  "served_less b b' \<longleftrightarrow> br_revoked b' = br_revoked b \<and> fewer_records (br_records b) (br_records b')"

lemma fewer_records_refl [simp]: "fewer_records m m"
  unfolding fewer_records_def by (rule exI [of _ "\<lambda>_ _. True"], rule exI [of _ "\<lambda>_. True"]) (induction m, auto)

lemma served_less_refl: "br_revoked b' = br_revoked b \<Longrightarrow> br_records b' = br_records b \<Longrightarrow> served_less b b'"
  by (simp add: served_less_def)

lemma served_less_ok:
  assumes "served_ok e b" and "served_less b b'"
  shows "served_ok e b'"
proof -
  from assms(2) obtain P Q where r: "br_revoked b' = br_revoked b"
    and m: "br_records b' = filter Q (map (\<lambda>(scope, hosts). (scope, filter (P scope) hosts)) (br_records b))"
    by (auto simp: served_less_def fewer_records_def)
  show ?thesis
    unfolding served_ok_def m record_ok_revoked [OF r]
  proof (rule flat_ok_filter, rule flat_ok_map [OF assms(1) [unfolded served_ok_def]])
    show "length (filter (P scope) hosts) \<le> MAX_RECORDS_PER_SERVER \<and> flat_ok (record_ok e b scope) (filter (P scope) hosts)"
      if "length hosts \<le> MAX_RECORDS_PER_SERVER \<and> flat_ok (record_ok e b scope) hosts" for scope hosts
      using that length_filter_le [of "P scope" hosts] flat_ok_filter by (metis le_trans)
  qed
qed

definition keeps_served :: "bridge_env \<Rightarrow> bridge \<Rightarrow> bridge \<Rightarrow> bool" where
  "keeps_served e b b' \<longleftrightarrow> (served_ok e b \<longrightarrow> served_ok e b')"

lemma keeps_refl [simp]: "keeps_served e b b"
  by (simp add: keeps_served_def)

lemma keeps_trans: "keeps_served e b b' \<Longrightarrow> keeps_served e b' b'' \<Longrightarrow> keeps_served e b b''"
  by (simp add: keeps_served_def)

lemma keeps_less: "served_less b b' \<Longrightarrow> keeps_served e b b'"
  using served_less_ok by (auto simp: keeps_served_def)

section \<open>Operations that add no record\<close>

definition served :: "bridge \<Rightarrow> _" where
  "served b = (br_records b, br_revoked b)"

named_theorems served_simps

interpretation served_part: unconnected served
  by standard (simp_all add: served_def)

declare served_part.connections [served_simps] served_part.F_update [served_simps]

lemma served_update [served_simps]:
  "served (b\<lparr>br_access := a1\<rparr>) = served b" "served (b\<lparr>br_pairings := a2\<rparr>) = served b" "served (b\<lparr>br_votes := a3\<rparr>) = served b"
  "served (b\<lparr>br_marks := a4\<rparr>) = served b" "served (b\<lparr>br_file := a5\<rparr>) = served b" "served (b\<lparr>br_torn := a6\<rparr>) = served b"
  "served (b\<lparr>br_seq := a7\<rparr>) = served b" "served (b\<lparr>br_hash := a8\<rparr>) = served b"
  by (simp_all add: served_def)

lemma less_served: "served b' = served b \<Longrightarrow> served_less b b'"
  by (rule served_less_refl) (simp_all add: served_def)

lemma keeps_same: "served b' = served b \<Longrightarrow> keeps_served e b b'"
  by (rule keeps_less [OF less_served])

lemma served_append [served_simps]: "served (snd (appendStateEvent e oc ev b)) = served b"
  by (auto simp: appendStateEvent_def Let_def write_line_def served_simps split: append_outcome.split)

lemma served_appended: "appendStateEvent e oc ev b = (k, b1) \<Longrightarrow> served b1 = served b"
  using served_append [of e oc ev b] by simp

lemma less_cleanup: "served_less b (cleanup t b)"
proof -
  have "served (cleanup t b) = (drop_expired_records t (br_records b), br_revoked b)"
    unfolding cleanup_def Let_def by (simp only: served_simps) (simp add: served_def)
  moreover have "fewer_records m (drop_expired_records t m)" for m
    unfolding fewer_records_def drop_expired_records_def
    by (rule exI [of _ "\<lambda>_ h. \<not> sr_expires (snd h) \<le> t"], rule exI [of _ "\<lambda>p. snd p \<noteq> []"]) simp
  ultimately show ?thesis by (simp add: served_def served_less_def)
qed

lemma less_compact: "served_less b (snd (maybeCompactState e io t b))"
proof -
  have "served_less b ((cleanup t b)\<lparr>br_file := f, br_torn := False, br_seq := n, br_hash := h\<rparr>)"
    "served_less b ((cleanup t b)\<lparr>br_file := f, br_torn := False\<rparr>)" for f n h
    using less_cleanup [of b t] by (simp_all add: served_less_def)
  then show ?thesis using less_cleanup by (simp add: maybeCompactState_def Let_def served_less_refl split: compact_outcome.split)
qed

lemma keeps_cleanup: "keeps_served e b (cleanup t b)"
  by (rule keeps_less [OF less_cleanup])

lemma keeps_compact: "keeps_served e b (snd (maybeCompactState e' io t b))"
  by (rule keeps_less [OF less_compact])

text \<open>An append, an entry of another table, and a compaction\<close>

lemma keeps_entry:
  assumes "served b1 = served b" and "maybeCompactState e io t b1 = (ok, b2)"
  shows "keeps_served e b b2"
  using keeps_trans [OF keeps_same [OF assms(1)] keeps_compact [of e b1 e io t]] assms(2) by simp

lemma served_pairing: "consumePairingToken e oc v ps t b = (r, b1) \<Longrightarrow> served b1 = served b"
  by (auto simp: consumePairingToken_def Let_def served_simps dest: served_appended split: option.splits prod.splits if_splits)

lemma keeps_grant_access: "keeps_served e b (snd (grant_access e io tok t fp g p b))"
proof -
  have "keeps_served e b b2"
    if "appendStateEvent e oc ev b = (k, b1)" "maybeCompactState e io t (b1\<lparr>br_proofs := x, br_access := y\<rparr>) = (k2, b2)" for oc ev k b1 x y k2 b2
    by (rule keeps_entry [OF _ that(2)]) (simp add: served_simps served_appended [OF that(1)])
  moreover have "keeps_served e b b1" if "appendStateEvent e oc ev b = (k, b1)" for oc ev k b1
    by (rule keeps_same [OF served_appended [OF that]])
  ultimately show ?thesis unfolding grant_access_def Let_def by (auto split: prod.split)
qed

lemma keeps_issue: "keeps_served e b (snd (issueHostAccess e io tok fr t b))"
proof -
  have "keeps_served e b (snd (grant_access e io tok t fp g x b1))" if "consumePairingToken e oc v ps t b = (r, b1)" for oc v ps r b1 fp g x
    by (rule keeps_trans [OF keeps_same [OF served_pairing [OF that]] keeps_grant_access])
  moreover have "keeps_served e b b1" if "consumePairingToken e oc v ps t b = (r, b1)" for oc v ps r b1
    by (rule keeps_same [OF served_pairing [OF that]])
  ultimately show ?thesis
    using keeps_grant_access unfolding issueHostAccess_def Let_def by (auto split: option.split prod.split bool.split)
qed

section \<open>A registration\<close>

lemma length_map_set: "length (map_set k v m) = (if map_of m k = None then Suc (length m) else length m)"
  by (induction m) (auto split: if_splits)

lemma drop_in_inner:
  assumes "fewer_records m m'" and "distinct (map fst m)"
  shows "\<exists>P. inner m' scope = filter P (inner m scope) \<or> inner m' scope = []"
proof -
  obtain P Q where m': "m' = filter Q (map (\<lambda>(scope, hosts). (scope, filter (P scope) hosts)) m)"
    using assms(1) by (auto simp: fewer_records_def)
  have "inner (filter Q (map (\<lambda>(scope, hosts). (scope, filter (P scope) hosts)) m)) scope \<in> {filter (P scope) (inner m scope), []}"
    using assms(2)
  proof (induction m)
    case (Cons p m)
    obtain s hosts where p: "p = (s, hosts)" by (cases p)
    have "inner (filter Q (map (\<lambda>(scope, hosts). (scope, filter (P scope) hosts)) m)) scope = []" if "scope = s"
    proof -
      have "map_of (filter Q (map (\<lambda>(scope, hosts). (scope, filter (P scope) hosts)) m)) s = None"
        using Cons.prems by (force simp: p map_of_eq_None_iff)
      then show ?thesis by (simp add: inner_def that)
    qed
    then show ?case using Cons by (auto simp: p inner_def split: if_splits)
  qed (simp add: inner_def)
  then show ?thesis unfolding m' by auto
qed

lemma commit_less: "served_less b (snd (commit_mark e io t m b))"
proof -
  have "served_less b b1" if "appendStateEvent e oc ev b = (k, b1)" for oc ev k b1
    by (rule less_served [OF served_appended [OF that]])
  moreover have "served_less b b2" if "appendStateEvent e oc ev b = (k, b1)" "applyHighWaterMark m b1 = (a, b2)" for oc ev k b1 a b2
    using that(2) served_appended [OF that(1)] by (intro less_served) (auto simp: applyHighWaterMark_cases served_simps split: if_splits)
  moreover have "served_less b b3"
    if "appendStateEvent e oc ev b = (k, b1)" "applyHighWaterMark m b1 = (a, b2)" "maybeCompactState e io t b2 = (c, b3)" for oc ev k b1 a b2 c b3
  proof -
    have "served b2 = served b"
      using that(2) served_appended [OF that(1)] by (auto simp: applyHighWaterMark_cases served_simps split: if_splits)
    then show ?thesis using less_compact [of b2 e io t] that(3) by (simp add: served_less_def served_def)
  qed
  ultimately show ?thesis unfolding commit_mark_cases by (auto simp: Let_def served_less_refl split: prod.split)
qed

text \<open>What a registration needs to be stored.\<close>

definition recordable :: "bridge_env \<Rightarrow> bridge \<Rightarrow> verified_registration \<Rightarrow> bool" where
  "recordable e b v \<longleftrightarrow>
     (let r = s_payload (vr_record v); g = s_payload (vr_grant v); scope = authorityScope (vr_fingerprint v) (hr_server r)
      in publicKeyFingerprint e (vr_key v) = Some (vr_fingerprint v)
         \<and> (\<exists>t. verifyHostRegistration e (vr_record v) (vr_grant v) (vr_key v) [] t = Some (vr_record v, vr_grant v))
         \<and> \<not> grant_revoked b scope g
         \<and> (map_of (inner (br_records b) scope) (hr_host r) = None \<longrightarrow> length (inner (br_records b) scope) < MAX_RECORDS_PER_SERVER))"

lemma validated_recordable: "validated e b v t \<Longrightarrow> served b' = served b \<Longrightarrow> recordable e b' v"
  by (auto simp: recordable_def validated_def Let_def grant_revoked_def served_def)

lemma keeps_commit:
  assumes "recordable e b v"
  shows "keeps_served e b (snd (commitRegistration e io t' ws v b))"
  unfolding keeps_served_def
proof
  assume ok: "served_ok e b"
  let ?r = "s_payload (vr_record v)"
  let ?scope = "authorityScope (vr_fingerprint v) (hr_server ?r)"
  obtain x b1 where c: "commit_mark e io t' (registered_mark v) b = (x, b1)" by (cases "commit_mark e io t' (registered_mark v) b")
  have less: "served_less b b1" using commit_less [of b e io t' "registered_mark v"] c by simp
  have ok1: "served_ok e b1" by (rule served_less_ok [OF ok less])
  have rv: "br_revoked b1 = br_revoked b" using less by (simp add: served_less_def)
  let ?s = "\<lparr>sr_record = vr_record v, sr_grant = vr_grant v, sr_key = vr_key v, sr_fingerprint = vr_fingerprint v,
             sr_expires = min (hr_expires ?r) (t' + be_max_ttl e), sr_certificate = vr_certificate v\<rparr>"
  let ?b2 = "b1\<lparr>br_records := map_set ?scope (map_set (hr_host ?r) ?s (inner (br_records b1) ?scope)) (br_records b1)\<rparr>"
  have rec: "record_ok e b1 ?scope (hr_host ?r) ?s"
    using assms by (auto simp: record_ok_def recordable_def Let_def grant_revoked_def rv)
  have len: "length (map_set (hr_host ?r) ?s (inner (br_records b1) ?scope)) \<le> MAX_RECORDS_PER_SERVER"
  proof -
    have q: "map_of (inner (br_records b) ?scope) (hr_host ?r) = None \<Longrightarrow> length (inner (br_records b) ?scope) < MAX_RECORDS_PER_SERVER"
      using assms by (simp add: recordable_def Let_def)
    have "distinct (map fst (br_records b))" "fewer_records (br_records b) (br_records b1)"
      using ok less by (simp_all add: served_ok_def flat_ok_def served_less_def)
    then obtain P where "inner (br_records b1) ?scope = filter P (inner (br_records b) ?scope) \<or> inner (br_records b1) ?scope = []"
      using drop_in_inner by blast
    then have "map_of (inner (br_records b1) ?scope) (hr_host ?r) = None \<Longrightarrow> length (inner (br_records b1) ?scope) < MAX_RECORDS_PER_SERVER"
    proof
      assume f: "inner (br_records b1) ?scope = filter P (inner (br_records b) ?scope)" and n: "map_of (inner (br_records b1) ?scope) (hr_host ?r) = None"
      show ?thesis
      proof (cases "map_of (inner (br_records b) ?scope) (hr_host ?r) = None")
        case True
        then show ?thesis unfolding f by (rule le_less_trans [OF length_filter_le q])
      next
        case False
        then have "filter P (inner (br_records b) ?scope) \<noteq> inner (br_records b) ?scope" using n f by auto
        then have "length (filter P (inner (br_records b) ?scope)) < length (inner (br_records b) ?scope)"
          by (metis filter_id_conv length_filter_less)
        then show ?thesis using served_inner(1) [OF ok, of ?scope] by (simp add: f)
      qed
    qed (simp add: MAX_RECORDS_PER_SERVER_def)
    then show ?thesis using served_inner(1) [OF ok1, of ?scope] by (auto simp: length_map_set)
  qed
  have "served_ok e ?b2"
    using ok1 len flat_ok_set [OF served_inner(2) [OF ok1] rec]
    by (auto simp: served_ok_def record_ok_revoked [of ?b2 b1] intro!: flat_ok_set)
  moreover have "served (snd (commitRegistration e io t' ws v b)) \<in> {served b1, served ?b2}"
    unfolding commitRegistration_def c by (auto simp: Let_def served_simps split: sum.split option.split)
  ultimately show "served_ok e (snd (commitRegistration e io t' ws v b))"
    using served_less_ok [OF ok1 less_served] served_less_ok [OF \<open>served_ok e ?b2\<close> less_served] by auto
qed

lemma same_served: "same_ledger b b' \<Longrightarrow> br_records b' = br_records b \<Longrightarrow> served b' = served b"
  by (simp add: served_def same_ledger_def durable_def)

lemma keeps_prove: "keeps_served e b (snd (proveRegistration e io ws fr t b))"
proof -
  obtain x b' where p: "proveRegistration e io ws fr t b = (x, b')" by (cases "proveRegistration e io ws fr t b")
  show ?thesis
    unfolding p snd_conv
  proof (rule prove_cases [OF p])
    fix b2 assume "same_ledger b b2" "br_records b2 = br_records b" "b' = b2"
    then show "keeps_served e b b'" using keeps_same same_served by blast
  next
    fix b1 b2 v
    assume a: "same_ledger b b1" "br_records b1 = br_records b" "validated e b1 v t" "same_ledger b1 b2" "br_records b2 = br_records b1"
      and c: "commitRegistration e io t ws v b2 = (x, b')"
    have s: "served b1 = served b" "served b2 = served b1" using a same_served by blast+
    then have "keeps_served e b b2" by (intro keeps_same) simp
    moreover have "keeps_served e b2 b'" using keeps_commit [OF validated_recordable [OF a(3) s(2)], of io t ws] c by simp
    ultimately show "keeps_served e b b'" by (rule keeps_trans)
  qed
qed

lemma keeps_begin: "keeps_served e b (snd (beginRegistration e dr ws fr t b))"
proof -
  let ?b = "cleanup t b"
  obtain y b1 where v: "validateRegistration e (bf_registration fr) t ?b = (y, b1)" by (cases "validateRegistration e (bf_registration fr) t ?b")
  have s: "served b1 = served ?b" by (rule same_served [OF validate_facts(1,2) [OF v]])
  have "served (snd (beginRegistration e dr ws fr t b)) = served ?b"
    unfolding beginRegistration_def Let_def v using s
    by (auto simp: served_simps split: option.split sum.split)
  then show ?thesis using keeps_trans [OF keeps_cleanup keeps_same] by blast
qed

section \<open>A revocation\<close>

lemma keeps_revocation: "keeps_served e b (applyRevocation t fp key rv b)"
  unfolding keeps_served_def
proof
  assume ok: "served_ok e b"
  let ?p = "s_payload rv"
  let ?scope = "authorityScope fp (rv_server ?p)"
  let ?b1 = "b\<lparr>br_revoked := nput ?scope (rv_grant ?p) (revoked_mark key rv) (br_revoked b),
               br_records := at_key ?scope (drop_revoked_records (rv_grant ?p) (rv_generation ?p)) (br_records b)\<rparr>"
  have s: "served (applyRevocation t fp key rv b) = served ?b1"
    by (simp add: applyRevocation_def Let_def served_simps) (simp add: served_def nput_def revoked_mark_def)
  let ?keep = "\<lambda>scope hosts. if scope = ?scope then drop_revoked_records (rv_grant ?p) (rv_generation ?p) hosts else hosts"
  have m: "br_records ?b1 = map (\<lambda>(scope, hosts). (scope, ?keep scope hosts)) (br_records b)"
    by (simp add: at_key_def)
  have "served_ok e ?b1"
    unfolding served_ok_def m
  proof (rule flat_ok_map [OF ok [unfolded served_ok_def]], rule conjI)
    fix scope hosts assume h: "length hosts \<le> MAX_RECORDS_PER_SERVER \<and> flat_ok (record_ok e b scope) hosts"
    show "length (?keep scope hosts) \<le> MAX_RECORDS_PER_SERVER"
      using h le_trans [OF length_filter_le] by (auto simp: drop_revoked_records_def)
    have "grant_revoked ?b1 scope g \<longleftrightarrow> (if scope = ?scope \<and> gp_grant g = rv_grant ?p then gp_generation g \<le> rv_generation ?p else grant_revoked b scope g)" for g
      by (simp add: grant_revoked_def inner_nput revoked_mark_def)
    then have "record_ok e ?b1 scope k s"
      if "record_ok e b scope k s" "scope = ?scope \<Longrightarrow> \<not> (gp_grant (s_payload (sr_grant s)) = rv_grant ?p \<and> gp_generation (s_payload (sr_grant s)) \<le> rv_generation ?p)"
      for k s
      using that by (auto simp: record_ok_def Let_def)
    then show "flat_ok (record_ok e ?b1 scope) (?keep scope hosts)"
      using h by (auto simp: flat_ok_def drop_revoked_records_def distinct_map_filter)
  qed
  then show "served_ok e (applyRevocation t fp key rv b)" using served_less_ok [OF _ less_served [OF s]] by blast
qed

lemma keeps_revoke: "keeps_served e b (snd (revoke e io key rv persist t b))"
proof -
  have "keeps_served e b b1" if "appendStateEvent e oc ev b = (k, b1)" for oc ev k b1
    by (rule keeps_same [OF served_appended [OF that]])
  moreover have "keeps_served e b b3"
    if "appendStateEvent e oc ev b = (k, b1)" "maybeCompactState e io t (applyRevocation t fp key r b1) = (c, b3)" for oc ev k b1 fp r c b3
  proof -
    have "keeps_served e b (applyRevocation t fp key r b1)"
      by (rule keeps_trans [OF keeps_same [OF served_appended [OF that(1)]] keeps_revocation])
    then show ?thesis using keeps_trans [OF _ keeps_compact [of e _ e io t]] that(2) by (metis snd_conv)
  qed
  ultimately show ?thesis
    using keeps_revocation unfolding revoke_def Let_def by (auto split: option.split prod.split)
qed

section \<open>The server\<close>

lemma served_vote: "applyPromotionVote v b = (a, b2) \<Longrightarrow> served b2 = served b"
  by (auto simp: applyPromotionVote_def Let_def served_simps split: option.splits)

lemma keeps_durable_vote: "keeps_served e b (snd (durable_vote e io t v ex b))"
proof (cases ex)
  case None
  obtain k b1 where ap: "appendStateEvent e (io_append io) (EvVote v) b = (k, b1)" by (cases "appendStateEvent e (io_append io) (EvVote v) b")
  obtain a b2 where vo: "applyPromotionVote v b1 = (a, b2)" by (cases "applyPromotionVote v b1")
  obtain c b3 where co: "maybeCompactState e io t b2 = (c, b3)" by (cases "maybeCompactState e io t b2")
  have "served b2 = served b" using served_vote [OF vo] served_appended [OF ap] by simp
  then have "keeps_served e b b1" "keeps_served e b b2" "keeps_served e b b3"
    using served_appended [OF ap] by (simp_all add: keeps_same keeps_entry [OF _ co])
  then show ?thesis by (simp add: durable_vote_def None Let_def ap vo co)
qed (simp add: durable_vote_def)

lemma keeps_claim: "keeps_served e b (snd (claimPromotionVote e io fr t b))"
proof -
  let ?b1 = "snd (signing_material e t b)"
  have k: "keeps_served e b ?b1" by (rule keeps_same [OF served_part.signing])
  obtain v ex where "snd (claimPromotionVote e io fr t b) \<in> {b, ?b1, snd (durable_vote e io t v ex ?b1)}" using claim_state [OF refl] by blast
  then show ?thesis using k keeps_trans [OF k keeps_durable_vote] by auto
qed

lemma keeps_witness: "keeps_served e b (snd (witnessPrimary e fr t b))"
proof (rule keeps_same)
  have "served b2 = served b" if "signing_material e t (b\<lparr>br_nonces := n\<rparr>) = (y, b2)" for n y b2
    using served_part.signing [of e t "b\<lparr>br_nonces := n\<rparr>"] that by (simp add: served_simps)
  then show "served (snd (witnessPrimary e fr t b)) = served b"
    unfolding witnessPrimary_def Let_def by (auto split: option.split prod.split sum.split)
qed

lemma keeps_resolve: "keeps_served e b (snd (resolve server fp t b))"
  using keeps_cleanup by (auto simp: resolve_def Let_def)

lemma keeps_answer: "keeps_served e b (snd (answer_frame e io dr ws v msg t b))"
proof -
  have "keeps_served e b (snd (handleRendezvousFrame e io v m t b))" for m
    using keeps_revoke keeps_resolve by (cases m) (simp_all add: handleRendezvousFrame_def or_malformed_def split_beta)
  then show ?thesis
    using keeps_issue keeps_begin keeps_prove keeps_claim keeps_witness keeps_same [OF served_part.relay]
    by (cases "if js_object v then msg else MUnknown") (simp_all add: answer_frame_def or_malformed_def split_beta)
qed

lemma keeps_message: "keeps_served e b (on_message e io dr ws raw t b)"
proof -
  let ?r = "rateLimited e (bridge_clientIp b ws) t b"
  let ?c = "cleanup t (snd ?r)"
  have r: "keeps_served e b (snd ?r)" by (rule keeps_same [OF served_part.limited])
  have q: "keeps_served e b (br_reply ws fr (snd ?r))" for fr
    by (rule keeps_trans [OF r keeps_same [OF served_part.reply]])
  have "keeps_served e b (snd (answer_frame e io dr ws v msg t ?c))" for v msg
    by (rule keeps_trans [OF keeps_trans [OF r keeps_cleanup] keeps_answer])
  then have a: "keeps_served e b (br_reply ws fr (snd (answer_frame e io dr ws v msg t ?c)))" for fr v msg
    using keeps_trans [OF _ keeps_same [OF served_part.reply]] by blast
  show ?thesis
    using a q keeps_same [OF served_part.close_it] unfolding on_message_def
    by (auto simp: split_beta Let_def split: raw_frame.split option.split)
qed

lemma started_empty: "startRendezvous e t torn b = Some b' \<Longrightarrow> br_records b' = []"
proof -
  assume st: "startRendezvous e t torn b = Some b'"
  show ?thesis
  proof (cases "be_state_file e")
    case True
    then obtain m where l: "load_lines e t (br_file b) (start_state torn m b) = Some b'"
      using st unfolding start_load [OF True] by (auto split: if_splits sum.splits)
    have "alike (start_state torn m b) (start_state torn m b)"
      using start_state_fields(1) [of torn m b] by (simp add: alike_def unstarted_def)
    from alike_load [OF l this, of t] show ?thesis by (auto simp: alike_def)
  next
    case False
    then show ?thesis
      using st by (auto simp: startRendezvous_def loadRendezvousState_def Let_def resetRendezvousState_def split: if_splits sum.splits)
  qed
qed

lemma keeps_step:
  assumes "bridge_step e b b'"
  shows "keeps_served e b b'"
  using assms
proof cases
  case (restart t torn)
  then show ?thesis using started_empty by (auto simp: keeps_served_def served_ok_def)
qed (simp_all add: keeps_message keeps_cleanup keeps_same served_part.connections)

interpretation served_invariant: step_invariant "bridge_step e" "served_ok e" for e
  by standard (use keeps_step in \<open>simp add: keeps_served_def\<close>)

text \<open>A new bridge serves nothing; every run of a bridge that is in order leaves it in order.\<close>

definition serving_ok :: "bridge_env \<Rightarrow> bridge \<Rightarrow> bool" where
  "serving_ok e b \<longleftrightarrow> bridge_consistent e b \<and> served_ok e b"

lemma new_bridge_serving: "env_ok e \<Longrightarrow> serving_ok e new_bridge"
  using new_bridge_ok by (simp add: serving_ok_def bridge_consistent_def served_ok_def new_bridge_def)

lemma serving_run: "serving_ok e b \<Longrightarrow> rtranclp (bridge_step e) b b' \<Longrightarrow> serving_ok e b'"
  using served_invariant.run_keeps [of e b b'] consistent_run [of e b b'] by (simp add: serving_ok_def)

text \<open>A scope determines the authority and the community.\<close>

lemma scope_parts:
  assumes "authorityScope fp server = authorityScope fp' server'" and "length fp = length fp'"
  shows "toLowerCase fp = toLowerCase fp'" "server = server'"
  using assms by (simp_all add: authorityScope_def toLowerCase_def)

lemma revoked_listed:
  assumes "ledger_ok e b" and "(g, k) \<in> set (inner (br_revoked b) scope)"
  shows "map_of (inner (br_revoked b) scope) g = Some k" "g = rv_grant (s_payload (rk_revocation k))"
    "rk_generation k = rv_generation (s_payload (rk_revocation k))"
proof -
  have f: "flat_ok (revoked_entry e scope) (inner (br_revoked b) scope)" using assms(1) by (simp add: ledger_ok_def nested_ok_inner)
  then show "map_of (inner (br_revoked b) scope) g = Some k" using assms(2) by (auto simp: flat_ok_def)
  show "g = rv_grant (s_payload (rk_revocation k))" "rk_generation k = rv_generation (s_payload (rk_revocation k))"
    using f assms(2) by (auto simp: flat_ok_def revoked_entry_def Let_def)
qed

text \<open>
  C9. A bridge serves only what the authority allows now. Whatever a bridge in order answers to \<open>resolve\<close> after any run, every
  record carries a grant signed by the authority asked for and a signature of the granted device, belongs to the community
  asked for and has not expired, and no revocation in the answer covers its grant; there are at most sixteen.
\<close>

theorem resolve_serves_authorised:
  assumes "serving_ok e b0" and "rtranclp (bridge_step e) b0 b" and "resolve server authority t b = (Inr rs, b')"
    and "(rec, grant, key) \<in> set (rs_records rs)"
  shows "publicKeyFingerprint e key = Some (toLowerCase authority)
    \<and> (\<exists>t0. verifyHostRegistration e rec grant key [] t0 = Some (rec, grant))
    \<and> hr_server (s_payload rec) = server \<and> t < hr_expires (s_payload rec)
    \<and> (\<forall>(k, rv) \<in> set (rs_revocations rs). rv_grant (s_payload rv) = gp_grant (s_payload grant)
          \<longrightarrow> rv_generation (s_payload rv) < gp_generation (s_payload grant))
    \<and> length (rs_records rs) \<le> 16"
proof -
  let ?b = "cleanup t b"
  let ?scope = "authorityScope authority server"
  let ?hosts = "filter (\<lambda>s. sr_fingerprint s = toLowerCase authority \<and> sr_expires s > t) (map snd (inner (br_records ?b) ?scope))"
  have "served_ok e b" "ledger_ok e b" using serving_run [OF assms(1,2)] by (simp_all add: serving_ok_def bridge_consistent_def)
  then have ok: "served_ok e ?b" and lk: "ledger_ok e ?b" using served_less_ok less_cleanup ledger_ok_same [OF same_cleanup] by blast+
  have au: "AuthorityFingerprintSchema authority"
    and rs: "rs_records rs = map (\<lambda>s. (sr_record s, sr_grant s, sr_key s)) (js_sort by_epoch_role ?hosts)"
    "rs_revocations rs = map (\<lambda>k. (rk_key k, rk_revocation k)) (js_sort by_generation_at (map snd (inner (br_revoked ?b) ?scope)))"
    using assms(3) by (auto simp: resolve_def Let_def split: if_splits)
  obtain h s where s: "(h, s) \<in> set (inner (br_records ?b) ?scope)" "sr_fingerprint s = toLowerCase authority" "sr_expires s > t"
    "rec = sr_record s" "grant = sr_grant s" "key = sr_key s"
    using assms(4) by (auto simp: rs)
  have r: "record_ok e ?b ?scope h s" using served_inner(2) [OF ok, of ?scope] s(1) by (auto simp: flat_ok_def)
  have k: "publicKeyFingerprint e (sr_key s) = Some (toLowerCase authority)"
    and v: "\<exists>t0. verifyHostRegistration e (sr_record s) (sr_grant s) (sr_key s) [] t0 = Some (sr_record s, sr_grant s)"
    and sc: "?scope = authorityScope (toLowerCase authority) (hr_server (s_payload (sr_record s)))"
    and ex: "sr_expires s \<le> hr_expires (s_payload (sr_record s))" and nr: "\<not> grant_revoked ?b ?scope (s_payload (sr_grant s))"
    using r s(2) by (auto simp: record_ok_def Let_def)
  have sv: "hr_server (s_payload (sr_record s)) = server"
    using scope_parts(2) [OF sc] by (simp add: toLowerCase_def)
  have rv: "rv_generation (s_payload rv) < gp_generation (s_payload (sr_grant s))"
    if "(k', rv) \<in> set (rs_revocations rs)" "rv_grant (s_payload rv) = gp_grant (s_payload (sr_grant s))" for k' rv
  proof -
    have "rv \<in> rk_revocation ` snd ` set (inner (br_revoked ?b) ?scope)" using that(1) by (auto simp: rs)
    then obtain g m where m: "(g, m) \<in> set (inner (br_revoked ?b) ?scope)" "rv = rk_revocation m" by auto
    note l = revoked_listed [OF lk m(1)]
    show ?thesis using nr l that(2) m(2) by (simp add: grant_revoked_def)
  qed
  have "length (rs_records rs) \<le> 16"
    using order_trans [OF length_filter_le served_inner(1) [OF ok]] by (simp add: rs filter_map MAX_RECORDS_PER_SERVER_def)
  then show ?thesis using k v sv ex s(3) rv by (auto simp: s(4-6))
qed

end
