(* ===== verification/SignalingLimits.thy ===== *)
theory SignalingLimits
  imports BridgeRestart
begin

text \<open>
  What a client can make a bridge hold: a frame it reads has at most 512 nodes in at most eight levels, and the signaling
  sessions stay within the limits in total, per host and per client, in every run.
\<close>

section \<open>Frames\<close>

text \<open>The limits as a description of the value, without a count that is carried along.\<close>

fun json_nodes :: "json \<Rightarrow> nat" where
  "json_nodes (JArr xs) = Suc (sum_list (map json_nodes xs))"
| "json_nodes (JObj o1) = Suc (sum_list (map (json_nodes \<circ> snd) o1))"
| "json_nodes _ = 1"

fun shape_ok :: "nat \<Rightarrow> json \<Rightarrow> bool" where
  "shape_ok depth (JStr s) \<longleftrightarrow> depth \<le> MAX_FRAME_DEPTH \<and> length s \<le> MAX_RENDEZVOUS_FRAME_BYTES"
| "shape_ok depth (JArr xs) \<longleftrightarrow>
     depth \<le> MAX_FRAME_DEPTH \<and> length xs \<le> MAX_OBJECT_KEYS \<and> list_all (shape_ok (Suc depth)) xs"
| "shape_ok depth (JObj o1) \<longleftrightarrow>
     depth \<le> MAX_FRAME_DEPTH \<and> length o1 \<le> MAX_OBJECT_KEYS
     \<and> list_all (\<lambda>p. length (fst p) \<le> 128 \<and> shape_ok (Suc depth) (snd p)) o1"
| "shape_ok depth _ \<longleftrightarrow> depth \<le> MAX_FRAME_DEPTH"

lemma json_nodes_positive: "1 \<le> json_nodes v"
  by (cases v) simp_all

definition entry_ok :: "nat \<Rightarrow> string \<times> json \<Rightarrow> bool" where
  "entry_ok depth p \<longleftrightarrow> length (fst p) \<le> 128 \<and> shape_ok depth (snd p)"

definition counted :: "bool \<times> nat \<Rightarrow> bool \<Rightarrow> nat \<Rightarrow> nat \<Rightarrow> bool" where
  "counted r shape n k \<longleftrightarrow> (fst r \<longleftrightarrow> shape \<and> (k = 0 \<or> n + k \<le> MAX_FRAME_NODES)) \<and> (fst r \<longrightarrow> snd r = n + k)"

definition items_nodes :: "json list \<Rightarrow> nat" where
  "items_nodes xs = sum_list (map json_nodes xs)"

definition entries_nodes :: "(string \<times> json) list \<Rightarrow> nat" where
  "entries_nodes ps = sum_list (map (json_nodes \<circ> snd) ps)"

lemma nodes_simps:
  "items_nodes [] = 0" "items_nodes (x # xs) = json_nodes x + items_nodes xs"
  "entries_nodes [] = 0" "entries_nodes ((k, x) # ps) = json_nodes x + entries_nodes ps"
  "json_nodes (JArr xs) = Suc (items_nodes xs)" "json_nodes (JObj ps) = Suc (entries_nodes ps)"
  "shape_ok depth (JObj ps) \<longleftrightarrow> depth \<le> MAX_FRAME_DEPTH \<and> length ps \<le> MAX_OBJECT_KEYS \<and> list_all (entry_ok (Suc depth)) ps"
  by (simp_all add: items_nodes_def entries_nodes_def entry_ok_def [abs_def])

lemma visit_counts:
  "counted (visit v depth n) (shape_ok depth v) n (json_nodes v)"
  "counted (visit_items xs depth n) (list_all (shape_ok depth) xs) n (items_nodes xs)"
  "counted (visit_entries ps depth n) (list_all (entry_ok depth) ps) n (entries_nodes ps)"
proof (induction v depth n and xs depth n and ps depth n rule: visit_visit_items_visit_entries.induct)
  case (1 item depth n)
  show ?case
  proof (cases "Suc n > MAX_FRAME_NODES \<or> depth > MAX_FRAME_DEPTH")
    case True
    then show ?thesis using json_nodes_positive [of item] by (cases item) (auto simp: counted_def)
  next
    case False
    then show ?thesis
      using "1.IH" [OF refl] by (cases item) (auto simp: counted_def Let_def nodes_simps simp del: json_nodes.simps(1,2) shape_ok.simps(3))
  qed
next
  case (3 x xs depth n)
  obtain ok n' where v: "visit x depth n = (ok, n')" by (cases "visit x depth n")
  show ?case using "3.IH"(1) "3.IH"(2) [OF v [symmetric]] json_nodes_positive [of x] by (auto simp: v counted_def nodes_simps simp del: visit.simps)
next
  case (5 k x xs depth n)
  obtain ok n' where v: "visit x depth n = (ok, n')" by (cases "visit x depth n")
  show ?case
  proof (cases "length k > 128")
    case False
    then show ?thesis
      using "5.IH"(1) [OF False] "5.IH"(2) [OF False v [symmetric]] json_nodes_positive [of x] by (auto simp: v counted_def entry_ok_def nodes_simps simp del: visit.simps)
  qed (use json_nodes_positive [of x] in \<open>simp add: counted_def entry_ok_def\<close>)
qed (simp_all add: counted_def nodes_simps)

text \<open>
  C20. The check of a frame, which counts as it goes and stops at the first violation, accepts exactly the values of at most
  512 nodes in which every level, array, object, key and text is within its limit.
\<close>

theorem frame_check_is_shape:
  "isBoundedFrameStructure v = (shape_ok 0 v \<and> json_nodes v \<le> MAX_FRAME_NODES)"
  using visit_counts(1) [of v 0 0] json_nodes_positive [of v] by (auto simp: isBoundedFrameStructure_def counted_def)

section \<open>Sessions\<close>

definition sessions_ok :: "bridge_env \<Rightarrow> bridge \<Rightarrow> bool" where
  "sessions_ok e b \<longleftrightarrow>
     length (br_sessions b) \<le> be_max_sessions e
     \<and> (\<forall>ws. length (filter (\<lambda>p. ss_host (snd p) = ws) (br_sessions b)) \<le> be_max_per_host e)
     \<and> (\<forall>ws. length (filter (\<lambda>p. ss_client (snd p) = ws) (br_sessions b)) \<le> be_max_per_client e)"

text \<open>Most operations at most close sessions.\<close>

definition fewer_sessions :: "bridge \<Rightarrow> bridge \<Rightarrow> bool" where
  "fewer_sessions b b' \<longleftrightarrow> (\<exists>P. br_sessions b' = filter P (br_sessions b))"

lemma closing_same: "br_sessions b' = br_sessions b \<Longrightarrow> fewer_sessions b b'"
  unfolding fewer_sessions_def by (auto intro: exI [of _ "\<lambda>_. True"])

lemma closing_refl [simp]: "fewer_sessions b b"
  by (rule closing_same) simp

lemma closing_trans: "fewer_sessions b b' \<Longrightarrow> fewer_sessions b' b'' \<Longrightarrow> fewer_sessions b b''"
  unfolding fewer_sessions_def by (metis filter_filter)

lemma closing_fold:
  assumes "\<And>x b. fewer_sessions b (g x b)"
  shows "fewer_sessions b (fold g xs b)"
  by (induction xs arbitrary: b) (auto intro: closing_trans assms)

lemma closing_ok: "sessions_ok e b \<Longrightarrow> fewer_sessions b b' \<Longrightarrow> sessions_ok e b'"
proof -
  assume ok: "sessions_ok e b" and "fewer_sessions b b'"
  then obtain P where P: "br_sessions b' = filter P (br_sessions b)" by (auto simp: fewer_sessions_def)
  have "length (filter Q (filter P xs)) \<le> length (filter Q xs)" for Q and xs :: "(string \<times> signaling_session) list"
    by (induction xs) auto
  then show ?thesis using ok length_filter_le [of P "br_sessions b"] unfolding sessions_ok_def P by (meson order_trans)
qed

lemma sessions_reply: "br_sessions (br_reply ws fr b) = br_sessions b"
  by (simp add: br_reply_def)

lemma closing_close: "fewer_sessions b (snd (closeSignalingSession sid src reason b))"
  unfolding fewer_sessions_def
  by (cases "map_of (br_sessions b) sid")
    (auto simp: closeSignalingSession_def Let_def sessions_reply map_del_def intro: exI [of _ "\<lambda>_. True"])

lemma closing_expired: "fewer_sessions b (cleanupExpiredSignalingSessions t b)"
  unfolding cleanupExpiredSignalingSessions_def by (rule closing_fold) (auto simp: closing_close)

lemma sessions_clear: "br_sessions (clearPendingRegistration ws b) = br_sessions b"
  by (simp add: clearPendingRegistration_def split: option.split)

lemma closing_unbind: "fewer_sessions b (unbindSocket t ws b)"
  unfolding unbindSocket_def Let_def
  by (rule closing_trans [OF closing_same closing_fold]) (auto simp: closing_close split: option.split)

lemma closing_cleanup: "fewer_sessions b (cleanup t b)"
proof -
  let ?b1 = "b\<lparr>br_records := r, br_rate := q\<rparr>"
  have 1: "fewer_sessions b (cleanupExpiredSignalingSessions t (b\<lparr>br_records := r, br_rate := q\<rparr>))" for r q
    by (rule closing_trans [OF closing_same closing_expired]) simp
  have 2: "fewer_sessions b (fold (\<lambda>(ws, sb) b. if sb_expires sb \<le> t then unbindSocket t ws b else b) xs b2)" if "fewer_sessions b b2" for xs b2
    by (rule closing_trans [OF that closing_fold]) (auto simp: closing_unbind)
  have 3: "fewer_sessions b (fold (\<lambda>(ws, p) b. if pd_expires p \<le> t then clearPendingRegistration ws b else b) xs b2)" if "fewer_sessions b b2" for xs b2
    by (rule closing_trans [OF that closing_fold]) (auto simp: sessions_clear closing_same)
  have 4: "fewer_sessions b (b2\<lparr>br_access := x, br_proofs := y\<rparr>)" if "fewer_sessions b b2" for b2 x y
    using that by (simp add: fewer_sessions_def)
  show ?thesis unfolding cleanup_def Let_def by (intro 4 3 2 1)
qed

lemma sessions_append: "appendStateEvent e oc ev b = (k, b1) \<Longrightarrow> br_sessions b1 = br_sessions b"
  by (auto simp: appendStateEvent_def Let_def write_line_def split: append_outcome.splits if_splits)

lemma closing_compact: "fewer_sessions b (snd (maybeCompactState e io t b))"
proof -
  have "fewer_sessions b ((cleanup t b)\<lparr>br_file := f, br_torn := False, br_seq := n, br_hash := h\<rparr>)"
    "fewer_sessions b ((cleanup t b)\<lparr>br_file := f, br_torn := False\<rparr>)" for f n h
    using closing_cleanup [of b t] by (simp_all add: fewer_sessions_def)
  then show ?thesis using closing_cleanup by (simp add: maybeCompactState_def Let_def split: compact_outcome.split)
qed

text \<open>An append, an entry of a table, and a compaction\<close>

lemma closing_entry:
  assumes "br_sessions b1 = br_sessions b" and "maybeCompactState e io t b1 = (ok, b2)"
  shows "fewer_sessions b b2"
  using closing_trans [OF closing_same [OF assms(1)] closing_compact [of b1 e io t]] assms(2) by simp

lemma sessions_signing: "br_sessions (snd (signing_material e t b)) = br_sessions b"
  by (auto simp: signing_material_def split: option.split sum.split)

lemma sessions_mark: "applyHighWaterMark m b = (a, b1) \<Longrightarrow> br_sessions b1 = br_sessions b"
  by (auto simp: applyHighWaterMark_cases split: if_splits)

lemma sessions_vote: "applyPromotionVote v b = (a, b1) \<Longrightarrow> br_sessions b1 = br_sessions b"
  by (auto simp: applyPromotionVote_def Let_def split: option.splits)

lemma sessions_pairing: "consumePairingToken e oc v ps t b = (r, b1) \<Longrightarrow> br_sessions b1 = br_sessions b"
  by (auto simp: consumePairingToken_def Let_def dest: sessions_append split: option.splits prod.splits if_splits)

section \<open>Operations\<close>

lemma certificate_state: "snd (validPromotionCertificate e cert r g marks n t b) \<in> {b, snd (signing_material e t b)}"
  by (auto simp: validPromotionCertificate_def Let_def split: option.split prod.split sum.split)

lemma admit_state: "snd (admit_registration e fp key cert record grant t b) \<in> {b, snd (signing_material e t b)}"
proof -
  have c: "b1 \<in> {b, snd (signing_material e t b)}"
    if "validPromotionCertificate e c r g ms n t b = (x, b1)" for c r g ms n x b1
    using certificate_state [of e c r g ms n t b] that by simp
  show ?thesis unfolding admit_registration_def Let_def by (auto split: prod.split sum.split dest: c)
qed

lemma sessions_validate: "validateRegistration e fr t b = (x, b1) \<Longrightarrow> br_sessions b1 = br_sessions b"
proof -
  have "br_sessions (snd (admit_registration e fp key cert rc grant t b)) = br_sessions b" for fp key cert rc grant
    using admit_state [of e fp key cert rc grant t b] sessions_signing [of e t b] by auto
  then have "br_sessions (snd (validateRegistration e fr t b)) = br_sessions b"
    unfolding validateRegistration_def Let_def by (auto split: option.split prod.split)
  then show "validateRegistration e fr t b = (x, b1) \<Longrightarrow> br_sessions b1 = br_sessions b" by simp
qed

lemma closing_bind: "fewer_sessions b (bind_socket t ws sb b)"
proof -
  have "fewer_sessions b (unbindSocket t old (unbindSocket t ws b))" for old
    by (rule closing_trans [OF closing_unbind closing_unbind])
  then show ?thesis using closing_unbind [of b t ws] by (auto simp: bind_socket_def Let_def fewer_sessions_def split: option.split)
qed

lemma sessions_tell: "br_sessions (tell_peers ws fp server told b) = br_sessions b"
  unfolding tell_peers_def by (rule fold_keeps) (auto simp: sessions_reply)

lemma closing_commit_mark: "fewer_sessions b (snd (commit_mark e io t m b))"
proof -
  have "fewer_sessions b b1" if "appendStateEvent e oc ev b = (k, b1)" for oc ev k b1
    by (rule closing_same [OF sessions_append [OF that]])
  moreover have "fewer_sessions b b2" if "appendStateEvent e oc ev b = (k, b1)" "applyHighWaterMark m b1 = (a, b2)" for oc ev k b1 a b2
    using sessions_append [OF that(1)] sessions_mark [OF that(2)] by (intro closing_same) simp
  moreover have "fewer_sessions b b3"
    if "appendStateEvent e oc ev b = (k, b1)" "applyHighWaterMark m b1 = (a, b2)" "maybeCompactState e io t b2 = (c, b3)" for oc ev k b1 a b2 c b3
    using sessions_append [OF that(1)] sessions_mark [OF that(2)] by (intro closing_entry [OF _ that(3)]) simp
  ultimately show ?thesis unfolding commit_mark_cases by (auto simp: Let_def split: prod.split)
qed

lemma closing_commit: "fewer_sessions b (snd (commitRegistration e io t ws v b))"
proof -
  obtain x b1 where c: "commit_mark e io t (registered_mark v) b = (x, b1)" by (cases "commit_mark e io t (registered_mark v) b")
  have k: "fewer_sessions b b1" using closing_commit_mark [of b e io t "registered_mark v"] c by simp
  have b: "fewer_sessions b (bind_socket t ws sb (b1\<lparr>br_records := r\<rparr>))" for sb r
    by (rule closing_trans [OF closing_trans [OF k closing_same] closing_bind]) simp
  have "fewer_sessions b (tell_peers ws fp sv told (bind_socket t ws sb (b1\<lparr>br_records := r\<rparr>)))" for fp sv told sb r
    by (rule closing_trans [OF b closing_same [OF sessions_tell]])
  with k b show ?thesis unfolding commitRegistration_def c by (auto simp: Let_def split: sum.split option.split)
qed

lemma closing_prove: "fewer_sessions b (snd (proveRegistration e io ws fr t b))"
proof (cases "map_of (br_pending b) ws")
  case (Some p)
  let ?b1 = "clearPendingRegistration ws b"
  have 1: "fewer_sessions b ?b1" by (rule closing_same [OF sessions_clear])
  have 2: "fewer_sessions b b2" if "validateRegistration e f t ?b1 = (y, b2)" for f y b2
    by (rule closing_trans [OF 1 closing_same [OF sessions_validate [OF that]]])
  have "fewer_sessions b (snd (commitRegistration e io t ws v b2))" if "validateRegistration e f t ?b1 = (y, b2)" for f y b2 v
    by (rule closing_trans [OF 2 [OF that] closing_commit])
  with 1 2 show ?thesis unfolding proveRegistration_def Some Let_def by (auto split: prod.split sum.split)
qed (simp add: proveRegistration_def)

lemma closing_begin: "fewer_sessions b (snd (beginRegistration e dr ws fr t b))"
proof -
  let ?b = "cleanup t b"
  obtain y b1 where v: "validateRegistration e (bf_registration fr) t ?b = (y, b1)" by (cases "validateRegistration e (bf_registration fr) t ?b")
  have "br_sessions (snd (beginRegistration e dr ws fr t b)) = br_sessions ?b"
    unfolding beginRegistration_def Let_def v using sessions_validate [OF v] by (auto split: option.split sum.split)
  then show ?thesis using closing_cleanup [of b t] by (simp add: fewer_sessions_def)
qed

lemma closing_issue: "fewer_sessions b (snd (issueHostAccess e io tok fr t b))"
proof -
  have g: "fewer_sessions b (snd (grant_access e io tok t fp g p b))" for fp g p b
  proof -
    have "fewer_sessions b b1" if "appendStateEvent e oc ev b = (k, b1)" for oc ev k b1
      by (rule closing_same [OF sessions_append [OF that]])
    moreover have "fewer_sessions b b2"
      if "appendStateEvent e oc ev b = (k, b1)" "maybeCompactState e io t (b1\<lparr>br_proofs := x, br_access := y\<rparr>) = (k2, b2)" for oc ev k b1 x y k2 b2
      using sessions_append [OF that(1)] by (intro closing_entry [OF _ that(2)]) simp
    ultimately show ?thesis unfolding grant_access_def Let_def by (auto split: prod.split)
  qed
  have p: "fewer_sessions b b1" if "consumePairingToken e oc v ps t b = (r, b1)" for oc v ps r b1
    by (rule closing_same [OF sessions_pairing [OF that]])
  have "fewer_sessions b (snd (grant_access e io tok t fp gr x b1))" if "consumePairingToken e oc v ps t b = (r, b1)" for oc v ps r b1 fp gr x
    by (rule closing_trans [OF p [OF that] g])
  with g p show ?thesis unfolding issueHostAccess_def Let_def by (auto split: option.split prod.split bool.split)
qed

lemma closing_revocation: "fewer_sessions b (applyRevocation t fp key rv b)"
  unfolding applyRevocation_def Let_def
  by (rule closing_trans [OF closing_same closing_fold]) (auto simp: closing_unbind)

lemma closing_revoke: "fewer_sessions b (snd (revoke e io key rv persist t b))"
proof -
  have "fewer_sessions b b1" if "appendStateEvent e oc ev b = (k, b1)" for oc ev k b1
    by (rule closing_same [OF sessions_append [OF that]])
  moreover have "fewer_sessions b b3"
    if "appendStateEvent e oc ev b = (k, b1)" "maybeCompactState e io t (applyRevocation t fp key r b1) = (c, b3)" for oc ev k b1 fp r c b3
  proof -
    have "fewer_sessions b (applyRevocation t fp key r b1)"
      by (rule closing_trans [OF closing_same [OF sessions_append [OF that(1)]] closing_revocation])
    from closing_trans [OF this closing_compact [of _ e io t]] that(2) show ?thesis by simp
  qed
  ultimately show ?thesis using closing_revocation unfolding revoke_def Let_def by (auto split: option.split prod.split)
qed

lemma closing_durable_vote: "fewer_sessions b (snd (durable_vote e io t v ex b))"
proof (cases ex)
  case None
  obtain k b1 where ap: "appendStateEvent e (io_append io) (EvVote v) b = (k, b1)" by (cases "appendStateEvent e (io_append io) (EvVote v) b")
  obtain a b2 where vo: "applyPromotionVote v b1 = (a, b2)" by (cases "applyPromotionVote v b1")
  obtain c b3 where co: "maybeCompactState e io t b2 = (c, b3)" by (cases "maybeCompactState e io t b2")
  have "br_sessions b1 = br_sessions b" "br_sessions b2 = br_sessions b" using sessions_append [OF ap] sessions_vote [OF vo] by simp_all
  then show ?thesis using closing_entry [OF _ co] by (simp add: durable_vote_def None Let_def ap vo co closing_same)
qed (simp add: durable_vote_def)

lemma closing_witness: "fewer_sessions b (snd (witnessPrimary e fr t b))"
proof (rule closing_same)
  have "br_sessions b2 = br_sessions b" if "signing_material e t (b\<lparr>br_nonces := n\<rparr>) = (y, b2)" for n y b2
    using sessions_signing [of e t "b\<lparr>br_nonces := n\<rparr>"] that by simp
  then show "br_sessions (snd (witnessPrimary e fr t b)) = br_sessions b"
    unfolding witnessPrimary_def Let_def by (auto split: option.split prod.split sum.split)
qed

lemma closing_resolve: "fewer_sessions b (snd (resolve server fp t b))"
  using closing_cleanup by (auto simp: resolve_def Let_def)

lemma closing_claim: "fewer_sessions b (snd (claimPromotionVote e io fr t b))"
proof -
  let ?b1 = "snd (signing_material e t b)"
  have k: "fewer_sessions b ?b1" by (rule closing_same [OF sessions_signing])
  obtain v ex where "snd (claimPromotionVote e io fr t b) \<in> {b, ?b1, snd (durable_vote e io t v ex ?b1)}" using claim_state [OF refl] by blast
  then show ?thesis using k closing_trans [OF k closing_durable_vote] by auto
qed

section \<open>The limits\<close>

text \<open>A session that is used keeps its two ends; its place in the map does not change.\<close>

lemma count_touched:
  assumes "map_of m sid = Some s" and "Q s' = Q s"
  shows "length (filter (\<lambda>p. Q (snd p)) (map_set sid s' m)) = length (filter (\<lambda>p. Q (snd p)) m)"
  using assms by (induction m) (auto split: if_splits)

lemma length_touched: "map_of m sid = Some s \<Longrightarrow> length (map_set sid s' m) = length m"
  by (induction m) (auto split: if_splits)

lemma touched_ok:
  assumes "sessions_ok e b" and "map_of (br_sessions b) sid = Some s" and "ss_host s' = ss_host s" and "ss_client s' = ss_client s"
  shows "sessions_ok e (touch_session sid s' b)"
  using assms(1) length_touched [OF assms(2)] count_touched [OF assms(2), of "\<lambda>s. ss_host s = w" s' for w]
    count_touched [OF assms(2), of "\<lambda>s. ss_client s = w" s' for w] assms(3,4)
  by (simp add: sessions_ok_def touch_session_def)

lemma new_key: "map_of m k = None \<Longrightarrow> map_set k v m = m @ [(k, v)]"
  by (induction m) auto

lemma opened_ok:
  assumes "sessions_ok e b" and "map_of (br_sessions b) sid = None"
    and "signalingAdmissionReason e (map snd (br_sessions b)) (ss_host s) (ss_client s) = None"
  shows "sessions_ok e (touch_session sid s b)"
  using assms
  by (auto simp: sessions_ok_def touch_session_def new_key signalingAdmissionReason_def filter_map comp_def split: if_splits)

lemma sessions_ok_reply: "sessions_ok e (br_reply ws fr b) = sessions_ok e b"
  by (simp add: sessions_ok_def sessions_reply)

lemma relay_limits:
  assumes "sessions_ok e b"
  shows "sessions_ok e (snd (relaySignal e ws fr t b))"
proof -
  let ?sid = "sf_session fr"
  have op: "sessions_ok e (snd (open_signal e ws fr pl t b))" for pl
  proof -
    have t: "sessions_ok e (touch_session ?sid (s\<lparr>ss_expires := x\<rparr>) b)" if "map_of (br_sessions b) ?sid = Some s" for s x
      by (rule touched_ok [OF assms that]) simp_all
    have n: "sessions_ok e (touch_session ?sid \<lparr>ss_host = h, ss_client = ws, ss_expires = x, ss_authorized = False\<rparr> b)"
      if "map_of (br_sessions b) ?sid = None" "signalingAdmissionReason e (map snd (br_sessions b)) h ws = None" for h x
      by (rule opened_ok [OF assms that(1)]) (simp add: that(2))
    show ?thesis
      using assms t n unfolding open_signal_def Let_def by (auto simp: sessions_ok_reply split: option.split prod.split)
  qed
  have rl: "sessions_ok e (snd (relay_payload ws ?sid s pl k t b))" if m: "map_of (br_sessions b) ?sid = Some s" for s pl k
  proof -
    have t: "sessions_ok e (br_reply p f (touch_session ?sid s' b))" if "ss_host s' = ss_host s" "ss_client s' = ss_client s" for s' p f
      using touched_ok [OF assms m that] by (simp add: sessions_ok_reply)
    have d: "sessions_ok e (b'\<lparr>br_sessions := map_del ?sid (br_sessions b')\<rparr>)" if "sessions_ok e b'" for b'
    proof (rule closing_ok [OF that])
      show "fewer_sessions b' (b'\<lparr>br_sessions := map_del ?sid (br_sessions b')\<rparr>)"
        by (auto simp: fewer_sessions_def map_del_def)
    qed
    show ?thesis using assms by (simp add: relay_payload_def Let_def t d)
  qed
  have "sessions_ok e (snd (closeSignalingSession sid src r b))" for sid src r by (rule closing_ok [OF assms closing_close])
  then show ?thesis using assms op rl unfolding relaySignal_def Let_def by (auto split: option.split prod.split)
qed

lemma answer_limits: "sessions_ok e b \<Longrightarrow> sessions_ok e (snd (answer_frame e io dr ws v msg t b))"
proof -
  assume ok: "sessions_ok e b"
  have "fewer_sessions b (snd (handleRendezvousFrame e io v m t b))" for m
    using closing_revoke closing_resolve by (cases m) (simp_all add: handleRendezvousFrame_def or_malformed_def split_beta)
  then show ?thesis
    using relay_limits [OF ok] closing_ok [OF ok] closing_issue closing_begin closing_prove closing_claim closing_witness ok
    by (cases "if js_object v then msg else MUnknown") (simp_all add: answer_frame_def or_malformed_def split_beta)
qed

lemma message_limits: "sessions_ok e b \<Longrightarrow> sessions_ok e (on_message e io dr ws raw t b)"
proof -
  assume ok: "sessions_ok e b"
  let ?r = "rateLimited e (bridge_clientIp b ws) t b"
  have "br_sessions (snd ?r) = br_sessions b" by (auto simp: rateLimited_def Let_def split: option.split)
  then have r: "sessions_ok e (snd ?r)" using ok by (simp add: sessions_ok_def)
  then have "sessions_ok e (cleanup t (snd ?r))" using closing_ok closing_cleanup by blast
  then have "sessions_ok e (br_reply ws fr (snd (answer_frame e io dr ws v msg t (cleanup t (snd ?r)))))" for fr v msg
    using answer_limits by (simp add: sessions_ok_reply)
  moreover have "sessions_ok e (close_socket ws b)" using ok by (simp add: sessions_ok_def close_socket_def)
  ultimately show ?thesis
    using r unfolding on_message_def by (auto simp: split_beta Let_def sessions_ok_reply split: raw_frame.split option.split)
qed

lemma started_sessions: "startRendezvous e t torn b = Some b' \<Longrightarrow> br_sessions b' = []"
proof -
  assume st: "startRendezvous e t torn b = Some b'"
  have ev: "br_sessions b2 = br_sessions b1" if "apply_event e t ev b1 = Some b2" "br_socket_hosts b1 = []" for ev b1 b2
  proof (cases ev)
    case (EvRevocation key rv)
    have "br_sessions (snd (revoke e io key (Some rv) False t b1)) = br_sessions b1" for io
      using that(2) by (auto simp: revoke_def Let_def applyRevocation_def split: option.split)
    then show ?thesis using that(1) by (auto simp: EvRevocation split: sum.splits prod.splits) (metis snd_conv)
  qed (use that in \<open>auto simp: applyHighWaterMark_cases applyPromotionVote_def Let_def split: if_splits option.splits\<close>)
  have sh: "br_socket_hosts b2 = []" if "apply_event e t ev b1 = Some b2" "alike b1 b1" for ev b1 b2
    using alike_event [OF that(2,1), of t] by (auto simp: alike_def)
  have "br_sessions b2 = br_sessions b1" if "load_lines e t ls b1 = Some b2" "alike b1 b1" for ls b1 b2
    using that
  proof (induction ls arbitrary: b1)
    case (Cons l ls)
    then obtain ln b3 where l: "l = Some ln" "apply_event e t (ll_event ln) b1 = Some b3"
      and r: "load_lines e t ls (b3\<lparr>br_seq := ll_seq ln, br_hash := Some (ll_hash ln)\<rparr>) = Some b2"
      by (cases l) (auto split: if_splits option.splits)
    have "alike b3 b3" using alike_event [OF Cons.prems(2) l(2), of t] l(2) by auto
    then have "alike (b3\<lparr>br_seq := ll_seq ln, br_hash := Some (ll_hash ln)\<rparr>) (b3\<lparr>br_seq := ll_seq ln, br_hash := Some (ll_hash ln)\<rparr>)"
      by (simp add: alike_def)
    from Cons.IH [OF r this] ev [OF l(2)] Cons.prems(2) show ?case by (simp add: alike_def)
  qed simp
  then show ?thesis
    using st by (auto simp: startRendezvous_def loadRendezvousState_def Let_def resetRendezvousState_def alike_def split: if_splits sum.splits)
qed

interpretation limits_invariant: step_invariant "bridge_step e" "sessions_ok e" for e
proof
  fix b b' assume ok: "sessions_ok e b" and "bridge_step e b b'"
  from this(2) show "sessions_ok e b'"
  proof cases
    case (restart t torn)
    then show ?thesis using started_sessions by (simp add: sessions_ok_def)
  next
    case (closed t ws)
    have "fewer_sessions b (unbindSocket t ws (clearPendingRegistration ws (close_socket ws b)))"
      by (rule closing_trans [OF closing_same closing_unbind]) (simp add: sessions_clear close_socket_def)
    then have "fewer_sessions b b'" by (simp add: closed on_close_def Let_def fewer_sessions_def)
    then show ?thesis using closing_ok ok by blast
  next
    case (message io t dr ws raw)
    then show ?thesis using message_limits [OF ok] by simp
  next
    case (tick t)
    then show ?thesis using closing_ok [OF ok closing_cleanup] by simp
  next
    case (connect ws remote forwarded)
    then show ?thesis using ok by (simp add: sessions_ok_def on_connection_def)
  next
    case (shut ws)
    then show ?thesis using ok by (simp add: sessions_ok_def close_socket_def)
  qed
qed

text \<open>
  C19. Signaling stays within its limits. In every run of a bridge, whatever clients and hosts send, the sessions are at most
  the configured number in total, for one host and for one client.
\<close>

theorem signaling_within_limits:
  assumes "rtranclp (bridge_step e) new_bridge b"
  shows "length (br_sessions b) \<le> be_max_sessions e
    \<and> length (filter (\<lambda>p. ss_host (snd p) = ws) (br_sessions b)) \<le> be_max_per_host e
    \<and> length (filter (\<lambda>p. ss_client (snd p) = ws) (br_sessions b)) \<le> be_max_per_client e"
proof -
  have "sessions_ok e new_bridge" by (simp add: sessions_ok_def new_bridge_def)
  then have "sessions_ok e b" using limits_invariant.run_keeps assms by blast
  then show ?thesis by (simp add: sessions_ok_def)
qed

end
