(* ===== verification/BridgeExamples.thy ===== *)
theory BridgeExamples
  imports BridgeRecords SignalingLimits
begin

text \<open>
  Runs of two bridges that serve one community: a revocation, an election with a vote of each bridge, and the registration
  of the winner with the two receipts. They show that the theorems on bridges speak of runs that exist.
\<close>

section \<open>The environment\<close>

definition rdv_fp :: "string \<Rightarrow> string" where
  "rdv_fp k = (if k = sample_key ''B1'' then replicate 64 CHR ''1'' else if k = sample_key ''B2'' then replicate 64 CHR ''2'' else zeros)"

definition rdv_env :: bridge_env where
  "rdv_env =
     \<lparr>is_uuid = (\<lambda>s. length s = 36), parse_url = parse_url sample_crypto, sha256Hex = (\<lambda>s. zeros), public_key = sample_key,
      fingerprint = rdv_fp, sign_message = (\<lambda>k m. sample_signature), verify_message = (\<lambda>k m s. s = sample_signature),
      hmac_sha256 = (\<lambda>k s. []), hmac_sha1_base64 = (\<lambda>k s. []), json_parse = (\<lambda>s. None), is_ip = (\<lambda>s. False),
      be_production = False, be_state_file = True, be_admin_key = None, be_hosts_per_community = Some 32, be_grace = Some 30000,
      be_max_ttl = 7200000, be_rate_limit = 120, be_max_sessions = 1024, be_max_per_host = 128, be_max_per_client = 8,
      be_turn_secret = None, be_domain = [], be_turn_port = [], be_turn_tls_port = [], be_proxies = [], be_signing = None\<rparr>"

definition rdv_io :: bridge_io where
  "rdv_io = \<lparr>io_pairing = Synced, io_append = Synced, io_big = False, io_compact = Compacted\<rparr>"

definition rdv_draws :: bridge_draws where
  "rdv_draws = \<lparr>dr_token = [], dr_challenge = [], dr_nonce = [], dr_random = []\<rparr>"

lemma rdv_env_fields [simp]:
  "is_uuid rdv_env s \<longleftrightarrow> length s = 36" "parse_url rdv_env = parse_url sample_crypto" "sha256Hex rdv_env s = zeros"
  "public_key rdv_env = sample_key" "fingerprint rdv_env k = rdv_fp k" "sign_message rdv_env k m = sample_signature"
  "verify_message rdv_env k m s \<longleftrightarrow> s = sample_signature" "be_state_file rdv_env" "\<not> be_production rdv_env"
  "be_admin_key rdv_env = None" "be_signing rdv_env = None" "be_grace rdv_env = Some 30000" "be_max_ttl rdv_env = 7200000"
  by (simp_all add: rdv_env_def)

lemma rdv_fp_hex [simp]: "AuthorityFingerprintSchema (rdv_fp k)" "Hex64Schema (rdv_fp k)"
  by (auto simp: rdv_fp_def AuthorityFingerprintSchema_def Hex64Schema_def zeros_def list_all_iff hex_any_char_def hex_lower_char_def)

lemma zeros_fingerprint [simp]: "AuthorityFingerprintSchema zeros"
  by (simp add: zeros_def AuthorityFingerprintSchema_def hex_any_char_def hex_lower_char_def list_all_iff)

lemma rdv_env_ok: "env_ok rdv_env"
  by (simp add: env_ok_def)

lemma rdv_io_fields [simp]:
  "io_append rdv_io = Synced" "io_pairing rdv_io = Synced" "\<not> io_big rdv_io" "io_compact rdv_io = Compacted" "io_atomic rdv_io"
  by (simp_all add: rdv_io_def io_atomic_def)

section \<open>A revocation\<close>

definition rdv_server :: string where "rdv_server = replicate 36 CHR ''5''"

definition rdv_grant_id :: string where "rdv_grant_id = replicate 36 CHR ''6''"

definition rdv_revocation :: revocation where
  "rdv_revocation = \<lparr>rv_grant = rdv_grant_id, rv_server = rdv_server, rv_host = ''h1'', rv_issuer = ''ann'', rv_at = 50,
                     rv_generation = 3, rv_reason = None\<rparr>"

definition rdv_revoke :: raw_frame where
  "rdv_revoke = RText 900 (Some (JObj [], MRevoke (sample_key ''as'') (Some (sample_signed rdv_revocation ''as''))))"

definition rdv_revoked :: bridge where
  "rdv_revoked = on_message rdv_env rdv_io rdv_draws 1 rdv_revoke 100 new_bridge"

lemma rdv_revoked_whole: "rtranclp (whole_step rdv_env) new_bridge rdv_revoked"
proof -
  have s: "epochs_left new_bridge" "clock_ok 100"
    by (simp_all add: epochs_left_def new_bridge_def clock_ok_def is_safe_integer_def)
  show ?thesis
    unfolding rdv_revoked_def by (intro r_into_rtranclp whole_step.whole_message s) simp
qed

lemmas rdv_revoked_run = whole_run [OF rdv_revoked_whole]

theorem bridge_restart_recovers_witness:
  "\<exists>b'. startRendezvous rdv_env 200 True rdv_revoked = Some b' \<and> br_revoked b' = br_revoked rdv_revoked"
proof -
  have "loadBridgeSigningMaterial rdv_env 200 = Inr None" by (simp add: loadBridgeSigningMaterial_def)
  from bridge_restart_recovers [OF rdv_env_ok rdv_revoked_whole this, of True] show ?thesis by auto
qed

theorem bridge_never_forgets_witness: "ledger_below rdv_revoked (cleanup 200 rdv_revoked)"
  by (rule bridge_never_forgets [OF rdv_env_ok rdv_revoked_run]) (rule r_into_rtranclp, rule bridge_step.tick)

theorem bridge_ledger_well_formed_witness: "ledger_ok rdv_env rdv_revoked"
  by (rule bridge_ledger_well_formed [OF rdv_env_ok rdv_revoked_run])

theorem signaling_within_limits_witness: "length (br_sessions rdv_revoked) \<le> 1024"
  using signaling_within_limits [OF rdv_revoked_run] by (simp add: rdv_env_def)

section \<open>Two bridges and an election\<close>

definition rdv_bridge_id :: "string \<Rightarrow> string" where
  "rdv_bridge_id n = ''ed25519:'' @ rdv_fp (sample_key n)"

definition rdv_descriptor :: "string \<Rightarrow> bridge_descriptor signed" where
  "rdv_descriptor n = sample_signed \<lparr>bd_bridge = rdv_bridge_id n, bd_endpoints = [''wss://a''], bd_issued = 1, bd_expires = 1000000\<rparr> n"

definition rdv_mark :: ledger_mark where
  "rdv_mark = \<lparr>lm_authority = zeros, lm_server = rdv_server, lm_host = ''h1'', lm_epoch = 1, lm_seq = 1, lm_hash = zeros,
               lm_grant = rdv_grant_id, lm_generation = 1, lm_role = Some Primary\<rparr>"

text \<open>The old primary has registered and is gone since time 1.\<close>

definition rdv_state :: "string \<Rightarrow> bridge" where
  "rdv_state n =
     new_bridge\<lparr>br_marks := [(authorityScope zeros rdv_server, [(''h1'', rdv_mark)])],
                br_disconnected := [(hostBindingKey zeros rdv_server ''h1'', 1)],
                br_signing := Some (rdv_descriptor n, sample_key n),
                br_file := [Some (ledger_line_of rdv_env 1 None (EvHighWater rdv_mark))], br_seq := 1, br_hash := Some zeros\<rparr>"

definition rdv_witness :: "string \<Rightarrow> bridge_witness" where
  "rdv_witness n =
     \<lparr>bw_bridge = rdv_bridge_id n, bw_request = replicate 36 CHR ''7'', bw_server = rdv_server, bw_replica = ''h2'',
      bw_primary = ''h1'', bw_record_hash = zeros, bw_epoch = 1, bw_online = False, bw_observed = 100000, bw_expires = 105000\<rparr>"

definition rdv_claim :: "string \<Rightarrow> claim_frame" where
  "rdv_claim n = \<lparr>cm_request = Some n, cm_witness = Some (sample_signed (rdv_witness n) n), cm_authority = zeros\<rparr>"

definition rdv_vote :: "int \<Rightarrow> vote_mark" where
  "rdv_vote t = \<lparr>vm_authority = zeros, vm_server = rdv_server, vm_epoch = 2, vm_candidate = ''h2'', vm_primary = ''h1'',
                 vm_record_hash = zeros, vm_granted = t\<rparr>"

definition rdv_receipt :: "string \<Rightarrow> int \<Rightarrow> promotion_vote signed" where
  "rdv_receipt n t =
     sample_signed (vote_receipt (rdv_bridge_id n) n (rdv_witness n) t (rdv_vote 100000)) n"

definition rdv_voted :: "string \<Rightarrow> bridge" where
  "rdv_voted n =
     (rdv_state n)\<lparr>br_votes := [(promotionVoteKey zeros rdv_server 2, rdv_vote 100000)],
                   br_file := br_file (rdv_state n) @ [Some (ledger_line_of rdv_env 2 (Some zeros) (EvVote (rdv_vote 100000)))],
                   br_seq := 2\<rparr>"

lemma rdv_witness_verified:
  assumes "100000 \<le> t" and "t < 105000"
  shows "verifySignedBridgeWitness rdv_env (sample_signed (rdv_witness n) n) (rdv_descriptor n) t = Some (sample_signed (rdv_witness n) n)"
proof -
  have dom: "signatureMessage d v = Inr (d @ NUL @ canonicalJson v)" if "d \<in> set SIGNATURE_DOMAINS" for d v
    using domains_ok [OF that] by (simp add: signatureMessage_def)
  have d: "verifySignedBridgeDescriptor rdv_env (rdv_descriptor n) t = Some (rdv_descriptor n)"
    using assms dom by (auto simp: verifySignedBridgeDescriptor_def rdv_descriptor_def sample_signed_def signed_schema_def
        BridgeDescriptorPayloadSchema_def verifySigned_def verifyCanonicalPayload_def SIGNATURE_DOMAINS_def schema_bytes
        ed25519Fingerprint_def rdv_bridge_id_def text_between_def endpointSchema_def timestampSchema_def is_safe_integer_def
        sample_crypto_def rdv_fp_def zeros_def)
  have w: "BridgeWitnessPayloadSchema rdv_env (rdv_witness n)"
    by (simp add: BridgeWitnessPayloadSchema_def rdv_witness_def rdv_bridge_id_def rdv_server_def text_between_def timestampSchema_def
        positiveSchema_def is_safe_integer_def)
  show ?thesis
    using assms d w dom
    by (simp add: verifySignedBridgeWitness_def sample_signed_def signed_schema_def verifySigned_def verifyCanonicalPayload_def
        SIGNATURE_DOMAINS_def schema_bytes rdv_descriptor_def) (simp add: rdv_witness_def)
qed

lemma rdv_domain: "signatureMessage BridgeState.PROMOTION_VOTE_DOMAIN v = Inr (BridgeState.PROMOTION_VOTE_DOMAIN @ NUL @ canonicalJson v)"
  by (simp add: signatureMessage_def signature_domain_ok_def BridgeState.PROMOTION_VOTE_DOMAIN_def less_eq_char_def)

text \<open>A claim at a bridge that knows the old primary and its absence.\<close>

lemma rdv_claim_answer:
  assumes "n \<noteq> []" and "100000 \<le> t" and "t < 105000" and "br_signing b = Some (rdv_descriptor n, sample_key n)"
    and "br_marks b = br_marks (rdv_state n)" and "br_disconnected b = br_disconnected (rdv_state n)" and "br_host_sockets b = []"
    and ex: "map_of (br_votes b) (promotionVoteKey zeros rdv_server 2) \<in> {None, Some (rdv_vote 100000)}"
    and v: "durable_vote rdv_env rdv_io t (rdv_vote t) (map_of (br_votes b) (promotionVoteKey zeros rdv_server 2)) b
      = (Inr (Inr (rdv_vote 100000)), b')"
  shows "claimPromotionVote rdv_env rdv_io (rdv_claim n) t b = (Inr (Inr (rdv_receipt n t)), b')"
proof -
  let ?w = "sample_signed (rdv_witness n) n"
  have s: "signing_material rdv_env t b = (Inr (Some (rdv_descriptor n, sample_key n)), b)"
    using assms(4) by (simp add: signing_material_def)
  have k: "known_primary (inner (br_marks b) (authorityScope zeros rdv_server)) = Some rdv_mark"
    using assms(5) by (simp add: rdv_state_def inner_def known_primary_def rdv_mark_def js_sort_def)
  have p: "\<not> primary_present rdv_env b (hostBindingKey zeros rdv_server ''h1'') t"
    using assms(2,6,7) by (simp add: primary_present_def rdv_state_def absenceGraceMs_def)
  have wf: "bw_bridge (rdv_witness n) = rdv_bridge_id n" "\<not> bw_online (rdv_witness n)" "bw_server (rdv_witness n) = rdv_server"
    "bw_epoch (rdv_witness n) = 1" "bw_replica (rdv_witness n) = ''h2''" "bw_primary (rdv_witness n) = ''h1''"
    "bw_record_hash (rdv_witness n) = zeros"
    by (simp_all add: rdv_witness_def)
  have vf: "vote_for zeros (rdv_witness n) t = rdv_vote t" by (simp add: vote_for_def wf rdv_vote_def)
  have mf: "lm_host rdv_mark = ''h1''" "lm_hash rdv_mark = zeros" "lm_epoch rdv_mark = 1" by (simp_all add: rdv_mark_def)
  have vo: "vm_candidate (rdv_vote u) = ''h2''" "vm_primary (rdv_vote u) = ''h1''" "vm_record_hash (rdv_vote u) = zeros" for u
    by (simp_all add: rdv_vote_def)
  have pl: "s_payload ?w = rdv_witness n" "bd_bridge (s_payload (rdv_descriptor n)) = rdv_bridge_id n" "s_key (rdv_descriptor n) = sample_key n"
    by (simp_all add: sample_signed_def rdv_descriptor_def)
  have cf: "text_or_empty (cm_request (rdv_claim n)) = n" "cm_witness (rdv_claim n) = Some ?w" "cm_authority (rdv_claim n) = zeros"
    by (simp_all add: rdv_claim_def text_or_empty_def)
  have c: "\<not> (case map_of (br_votes b) (promotionVoteKey zeros rdv_server 2) of None \<Rightarrow> False
      | Some x \<Rightarrow> vm_candidate x \<noteq> bw_replica (rdv_witness n) \<or> vm_primary x \<noteq> bw_primary (rdv_witness n)
                 \<or> vm_record_hash x \<noteq> bw_record_hash (rdv_witness n))"
    using ex by (auto simp: vo wf)
  show ?thesis
    using assms(1-3) c rdv_witness_verified [of t n]
    by (simp add: claimPromotionVote_def Let_def cf s pl wf k p mf vf v signCanonicalPayload_def rdv_domain rdv_receipt_def)
qed

lemma rdv_claimed:
  assumes "n \<noteq> []"
  shows "claimPromotionVote rdv_env rdv_io (rdv_claim n) 100000 (rdv_state n) = (Inr (Inr (rdv_receipt n 100000)), rdv_voted n)"
proof (rule rdv_claim_answer [OF assms])
  have none: "map_of (br_votes (rdv_state n)) k = None" for k by (simp add: rdv_state_def new_bridge_def)
  show "durable_vote rdv_env rdv_io 100000 (rdv_vote 100000) (map_of (br_votes (rdv_state n)) (promotionVoteKey zeros rdv_server 2)) (rdv_state n)
      = (Inr (Inr (rdv_vote 100000)), rdv_voted n)"
    unfolding none
    by (simp add: durable_vote_def durableEntryCount_def rdv_state_def new_bridge_def nested_size_def MAX_DURABLE_ENTRIES_def
        appendStateEvent_def Let_def ledger_line_of_def write_line_def applyPromotionVote_def maybeCompactState_def rdv_vote_def
        rdv_voted_def line_hash_def)
qed (simp_all add: rdv_state_def new_bridge_def)

text \<open>A state whose file is the chain of its events is consistent.\<close>

lemma chain_file_consistent:
  assumes "env_ok e" and "ledger_ok e b" and "br_access b = []" and "\<not> br_torn b" and "br_file b = map Some (chain_lines e 0 None (ledger_events 0 b))"
    and "br_seq b = int (length (ledger_events 0 b))" and "br_hash b = (case ledger_events 0 b of [] \<Rightarrow> None | _ \<Rightarrow> Some (ll_hash (last (chain_lines e 0 None (ledger_events 0 b)))))"
  shows "bridge_consistent e b"
proof -
  have reads: "\<exists>b'. load_lines e t (br_file b) b0 = Some b' \<and> reads_as b' b \<and> br_seq b' = br_seq b \<and> br_hash b' = br_hash b"
    if u: "unstarted b0" for t b0
  proof -
    obtain b' where l: "load_events e t (ledger_events 0 b) b0 = Some b'" and r: "reads_as b' b"
      using compaction_reads_back [OF assms(2) _ u, of 0 t] assms(3) by auto
    have z: "br_seq b0 = 0" "br_hash b0 = None" using u by (simp_all add: unstarted_def)
    have "load_lines e t (br_file b) b0 = Some b'" using l by (simp add: load_events_def z assms(5))
    moreover have "br_seq b' = br_seq b" "br_hash b' = br_hash b"
      using load_events_chain [OF l] unfolding z assms(6,7) by (simp_all add: chain_lines_Nil_iff split: list.split)
    ultimately show ?thesis using r by blast
  qed
  have "case load_lines e t (br_file b) b0 of None \<Rightarrow> \<not> False | Some b' \<Rightarrow> read_follows False b b'" if "unstarted b0" for t b0
    using reads [OF that, of t] by (auto simp: read_follows_def)
  moreover have "access_entry e k a" if "Some l \<in> set (br_file b)" "ll_event l = EvAccess k a" for l k a
    using compacted_access [OF assms(2)] that unfolding assms(5) by blast
  ultimately show ?thesis using assms(1,2) unfolding bridge_consistent_def restorable_def by blast
qed

lemma rdv_state_consistent: "bridge_consistent rdv_env (rdv_state n)"
proof (rule chain_file_consistent)
  have "mark_entry (authorityScope zeros rdv_server) ''h1'' rdv_mark"
    by (simp add: mark_entry_def rdv_mark_def persistedHighWater_def is_safe_integer_def)
  then show "ledger_ok rdv_env (rdv_state n)"
    by (simp add: ledger_ok_def rdv_state_def new_bridge_def nested_ok_def flat_ok_def)
  have evs: "ledger_events 0 (rdv_state n) = [EvHighWater rdv_mark]"
    by (simp add: ledger_events_def rdv_state_def new_bridge_def)
  show "br_file (rdv_state n) = map Some (chain_lines rdv_env 0 None (ledger_events 0 (rdv_state n)))"
    unfolding evs by (simp add: rdv_state_def Let_def)
  show "br_seq (rdv_state n) = int (length (ledger_events 0 (rdv_state n)))" unfolding evs by (simp add: rdv_state_def)
  show "br_hash (rdv_state n) = (case ledger_events 0 (rdv_state n) of [] \<Rightarrow> None
      | _ \<Rightarrow> Some (ll_hash (last (chain_lines rdv_env 0 None (ledger_events 0 (rdv_state n))))))"
    unfolding evs by (simp add: rdv_state_def ledger_line_of_def line_hash_def Let_def)
qed (simp_all add: rdv_env_ok rdv_state_def new_bridge_def)

lemma rdv_epochs: "epochs_left (rdv_state n)" "epochs_left (rdv_voted n)"
  by (simp_all add: epochs_left_def rdv_state_def rdv_voted_def rdv_mark_def)

lemma rdv_clock: "clock_ok t" if "0 < t" "t \<le> 1000000"
  using that by (simp add: clock_ok_def is_safe_integer_def)

text \<open>A second claim of the same replica, two seconds later, gets the vote of the first.\<close>

lemma rdv_claimed_again:
  assumes "n \<noteq> []"
  shows "claimPromotionVote rdv_env rdv_io (rdv_claim n) 102000 (rdv_voted n) = (Inr (Inr (rdv_receipt n 102000)), rdv_voted n)"
  by (rule rdv_claim_answer [OF assms]) (simp_all add: rdv_voted_def rdv_state_def new_bridge_def durable_vote_def)

theorem bridge_votes_once_witness:
  "pv_candidate (s_payload (rdv_receipt ''B1'' 102000)) = pv_candidate (s_payload (rdv_receipt ''B1'' 100000))
   \<and> pv_candidate (s_payload (rdv_receipt ''B1'' 100000)) = ''h2''"
proof -
  have f: "pv_server (s_payload (rdv_receipt ''B1'' 102000)) = pv_server (s_payload (rdv_receipt ''B1'' 100000))"
    "pv_election (s_payload (rdv_receipt ''B1'' 102000)) = pv_election (s_payload (rdv_receipt ''B1'' 100000))"
    "pv_candidate (s_payload (rdv_receipt ''B1'' 100000)) = ''h2''"
    by (simp_all add: rdv_receipt_def sample_signed_def vote_receipt_def rdv_vote_def)
  have c: "claimPromotionVote rdv_env rdv_io (rdv_claim ''B1'') 100000 (rdv_state ''B1'') = (Inr (Inr (rdv_receipt ''B1'' 100000)), rdv_voted ''B1'')"
    "claimPromotionVote rdv_env rdv_io (rdv_claim ''B1'') 102000 (rdv_voted ''B1'') = (Inr (Inr (rdv_receipt ''B1'' 102000)), rdv_voted ''B1'')"
    by (rule rdv_claimed rdv_claimed_again, simp)+
  show ?thesis
    using bridge_votes_once [OF rdv_state_consistent rdv_clock rdv_epochs(1) c(1) rtranclp.rtrancl_refl rdv_clock
        rdv_epochs(2) c(2) refl f(1,2)] f(3) by simp
qed

theorem failed_sync_ends_restarts_witness:
  "startRendezvous rdv_env 100000 False (snd (appendStateEvent rdv_env Synced (EvVote (rdv_vote 100000))
     (snd (appendStateEvent rdv_env Unsynced (EvVote (rdv_vote 100000)) (rdv_state ''B1''))))) = None"
proof -
  let ?ev = "EvVote (rdv_vote 100000)"
  obtain b1 where 1: "appendStateEvent rdv_env Unsynced ?ev (rdv_state ''B1'') = (False, b1)" by (simp add: appendStateEvent_def Let_def)
  obtain b2 where 2: "appendStateEvent rdv_env Synced ?ev b1 = (True, b2)" by (simp add: appendStateEvent_def Let_def)
  from failed_sync_ends_restarts [OF rdv_state_consistent 1 2] show ?thesis by (simp add: 1 2)
qed

section \<open>The winner registers\<close>

definition rdv_grant :: grant_payload where
  "rdv_grant =
     \<lparr>gp_grant = rdv_grant_id, gp_server = rdv_server, gp_issuer = ''ann'', gp_subject = ''ann'', gp_subject_key = sample_key ''ka'',
      gp_device_key = sample_key ''hs'', gp_host = ''h2'', gp_caps = [Register, Replicate, Promote],
      gp_witness = Some [rdv_bridge_id ''B1'', rdv_bridge_id ''B2''], gp_generation = 1, gp_issued = 10, gp_expires = 500000\<rparr>"

definition rdv_record :: host_record where
  "rdv_record =
     \<lparr>hr_server = rdv_server, hr_grant = rdv_grant_id, hr_host = ''h2'', hr_role = Primary, hr_epoch = 2, hr_seq = 1,
      hr_previous = None, hr_endpoints = [''wss://a''], hr_candidates = [], hr_issued = 99990, hr_ttl = 9000,
      hr_expires = 108990\<rparr>"

definition rdv_items :: certificate where
  "rdv_items = [Some (rdv_receipt ''B1'' 100000), Some (rdv_receipt ''B2'' 100000)]"

definition rdv_winner :: "host_record \<Rightarrow> bool" where
  "rdv_winner r \<longleftrightarrow> hr_server r = rdv_server \<and> hr_host r = ''h2'' \<and> hr_epoch r = 2"

lemma rdv_receipt_fields [simp]:
  "s_key (rdv_receipt n t) = sample_key n" "s_signature (rdv_receipt n t) = sample_signature"
  "pv_bridge (s_payload (rdv_receipt n t)) = rdv_bridge_id n" "pv_request (s_payload (rdv_receipt n t)) = n"
  "pv_server (s_payload (rdv_receipt n t)) = rdv_server" "pv_candidate (s_payload (rdv_receipt n t)) = ''h2''"
  "pv_primary (s_payload (rdv_receipt n t)) = ''h1''" "pv_record_hash (s_payload (rdv_receipt n t)) = zeros"
  "pv_primary_epoch (s_payload (rdv_receipt n t)) = 1" "pv_election (s_payload (rdv_receipt n t)) = 2"
  "pv_granted (s_payload (rdv_receipt n t)) = 100000" "pv_issued (s_payload (rdv_receipt n t)) = t"
  "pv_expires (s_payload (rdv_receipt n t)) = t + 24 * 3600000"
  by (simp_all add: rdv_receipt_def sample_signed_def vote_receipt_def rdv_vote_def rdv_witness_def)

lemma rdv_descriptor_fields [simp]:
  "bd_bridge (s_payload (rdv_descriptor n)) = rdv_bridge_id n" "s_key (rdv_descriptor n) = sample_key n"
  by (simp_all add: rdv_descriptor_def sample_signed_def)

lemma rdv_receipt_ok:
  assumes "n = ''B1'' \<or> n = ''B2''" and "100000 \<le> t" and "t < 200000" and "set approved = {rdv_bridge_id ''B1'', rdv_bridge_id ''B2''}"
    and "rdv_winner r"
  shows "certificate_receipt_ok rdv_env approved r rdv_mark 1 t (rdv_receipt n 100000)"
proof -
  have sg: "canonical_bytes sample_signature 64"
    using schema_bytes(2) [of sample_signature] by (simp add: canonical_bytes_def) (simp add: sample_signature_def list_all_iff)
  have "length n = 2" "rdv_bridge_id n \<in> set approved" using assms(1,4) by auto
  then show ?thesis
    using assms(2,3,5) sg
    by (simp add: certificate_receipt_ok_def Let_def ed25519Fingerprint_def verifyCanonicalPayload_def schema_bytes rdv_domain
        rdv_winner_def is_safe_integer_def)
      (simp add: rdv_mark_def rdv_bridge_id_def)
qed

lemma rdv_ids: "rdv_bridge_id ''B1'' \<noteq> rdv_bridge_id ''B2''"
  by (simp add: rdv_bridge_id_def rdv_fp_def) (simp add: sample_key_def b64url_char_def B64URL_ALPHABET_def)

lemma rdv_certificate:
  assumes "n = ''B1'' \<or> n = ''B2''" and "100000 \<le> t" and "t < 200000" and "br_votes b = br_votes (rdv_voted n)"
    and "set approved = {rdv_bridge_id ''B1'', rdv_bridge_id ''B2''}" and "rdv_winner r"
  shows "certificate_ok rdv_env b (rdv_descriptor n) approved r rdv_mark 1 t rdv_items [] [] False"
proof -
  have own: "own_vote_ok b (rdv_descriptor n) r rdv_mark (rdv_receipt n 100000)"
    using assms(4,6) by (simp add: own_vote_ok_def) (simp add: rdv_voted_def rdv_winner_def rdv_mark_def rdv_vote_def)
  have ok: "certificate_receipt_ok rdv_env approved r rdv_mark 1 t (rdv_receipt ''B1'' 100000)"
    "certificate_receipt_ok rdv_env approved r rdv_mark 1 t (rdv_receipt ''B2'' 100000)"
    by (rule rdv_receipt_ok [OF _ assms(2,3,5,6)], simp)+
  from assms(1) show ?thesis
  proof
    assume "n = ''B1''"
    with ok own show ?thesis by (simp add: rdv_items_def Let_def rdv_ids rdv_ids [symmetric])
  next
    assume "n = ''B2''"
    with ok own show ?thesis by (simp add: rdv_items_def Let_def rdv_ids rdv_ids [symmetric])
  qed
qed

lemma rdv_issued: "n \<noteq> [] \<Longrightarrow> issued_by rdv_env (rdv_voted n) zeros (rdv_receipt n 100000)"
  unfolding issued_by_def
  by (rule exI [of _ "rdv_state n"], rule exI [of _ rdv_io], rule exI [of _ "rdv_claim n"], rule exI [of _ 100000], rule exI [of _ "rdv_voted n"])
    (simp add: rdv_state_consistent rdv_clock rdv_epochs rdv_claimed, simp add: rdv_claim_def)

text \<open>
  The winner, and a renewal of its record, at the two bridges.\<close>

theorem one_winner_per_epoch_witness:
  "hr_host rdv_record = hr_host (rdv_record\<lparr>hr_seq := 2, hr_previous := Some zeros\<rparr>) \<and> hr_host rdv_record = ''h2''"
proof -
  let ?ids = "[rdv_bridge_id ''B1'', rdv_bridge_id ''B2'']"
  let ?next = "rdv_record\<lparr>hr_seq := 2, hr_previous := Some zeros\<rparr>"
  have w: "rdv_winner rdv_record" "rdv_winner ?next" by (simp_all add: rdv_winner_def rdv_record_def)
  have c: "certificate_ok rdv_env (rdv_voted ''B1'') (rdv_descriptor ''B1'') ?ids rdv_record rdv_mark 1 100000 rdv_items [] [] False"
    "certificate_ok rdv_env (rdv_voted ''B2'') (rdv_descriptor ''B2'') ?ids ?next rdv_mark 1 102000 rdv_items [] [] False"
    using w by (simp_all add: rdv_certificate)
  let ?B = "\<lambda>i. if i = rdv_bridge_id ''B1'' then rdv_voted ''B1'' else rdv_voted ''B2''"
  have i: "\<forall>v. Some v \<in> set rdv_items \<union> set rdv_items \<longrightarrow> issued_by ((\<lambda>_. rdv_env) (pv_bridge (s_payload v))) (?B (pv_bridge (s_payload v))) zeros v"
    using rdv_issued rdv_ids by (auto simp: rdv_items_def)
  have "distinct ?ids" "length ?ids \<le> 3" "hr_server rdv_record = hr_server ?next" "hr_epoch rdv_record = hr_epoch ?next"
    using rdv_ids by simp_all
  from one_winner_per_epoch [OF c this i] show ?thesis by (simp add: rdv_record_def)
qed

definition rdv_pending :: pending_registration where
  "rdv_pending =
     \<lparr>pd_request = ''rq'', pd_challenge = ''ch'', pd_nonce = ''no'', pd_hash = zeros, pd_created = 100000, pd_expires = 130000,
      pd_claim = [], pd_fingerprint = zeros, pd_key = sample_key ''as'', pd_record = sample_signed rdv_record ''hs'',
      pd_grant = sample_signed rdv_grant ''as'', pd_certificate = Some rdv_items\<rparr>"

definition rdv_proof :: registration_proof where
  "rdv_proof = \<lparr>rp_server = rdv_server, rp_host = ''h2'', rp_grant = rdv_grant_id, rp_record_hash = zeros, rp_challenge = ''ch'',
                rp_nonce = ''no'', rp_issued = 100000, rp_expires = 110000\<rparr>"

definition rdv_prove :: prove_frame where
  "rdv_prove = \<lparr>pf_request = Some ''rq'', pf_challenge = Some ''ch'', pf_proof = Some (sample_signed rdv_proof ''hs'')\<rparr>"

definition rdv_proving :: bridge where
  "rdv_proving = (rdv_voted ''B1'')\<lparr>br_pending := [(7, rdv_pending)]\<rparr>"

lemma rdv_schemas:
  "HostGrantPayloadSchema rdv_env rdv_grant" "HostRecordPayloadSchema rdv_env rdv_record"
proof -
  have "length (rdv_bridge_id n) = 72" for n by (simp add: rdv_bridge_id_def rdv_fp_def zeros_def)
  then show "HostGrantPayloadSchema rdv_env rdv_grant"
    using rdv_ids
    by (simp add: HostGrantPayloadSchema_def rdv_grant_def identityIdSchema_def rdv_grant_id_def rdv_server_def witnessIdsSchema_def
        hostIdSchema_def text_between_def hostCapabilitiesSchema_def positiveSchema_def timestampSchema_def is_safe_integer_def)
  show "HostRecordPayloadSchema rdv_env rdv_record"
    by (simp add: HostRecordPayloadSchema_def rdv_record_def hostIdSchema_def rdv_grant_id_def rdv_server_def
        text_between_def endpointSchema_def positiveSchema_def timestampSchema_def is_safe_integer_def sample_crypto_def)
qed

lemma rdv_verified_with:
  assumes "g = rdv_grant\<lparr>gp_generation := n\<rparr>" and "0 < n" and "n < 100"
  shows "verifyHostRegistration rdv_env (sample_signed rdv_record ''hs'') (sample_signed g ''as'') (sample_key ''as'') [] 100000
     = Some (sample_signed rdv_record ''hs'', sample_signed g ''as'')"
proof -
  have dom: "signatureMessage d v = Inr (d @ NUL @ canonicalJson v)" if "d \<in> set SIGNATURE_DOMAINS" for d v
    using domains_ok [OF that] by (simp add: signatureMessage_def)
  have s: "HostGrantPayloadSchema rdv_env g"
    using rdv_schemas(1) assms by (simp add: HostGrantPayloadSchema_def positiveSchema_def is_safe_integer_def)
  have g: "verifySignedHostGrant rdv_env (sample_signed g ''as'') (sample_key ''as'') 100000 = Some (sample_signed g ''as'')"
    using s dom by (simp add: verifySignedHostGrant_def signed_schema_def sample_signed_def verifySigned_def
        verifyCanonicalPayload_def SIGNATURE_DOMAINS_def schema_bytes) (simp add: assms(1) rdv_grant_def)
  have r: "verifySignedHostRecord rdv_env (sample_signed rdv_record ''hs'') (sample_key ''hs'') 100000 = Some (sample_signed rdv_record ''hs'')"
    using rdv_schemas(2) dom by (simp add: verifySignedHostRecord_def SignedHostRecordSchema_def signed_schema_def sample_signed_def
        verifySigned_def verifyCanonicalPayload_def SIGNATURE_DOMAINS_def schema_bytes) (simp add: rdv_record_def)
  have "gp_device_key (s_payload (sample_signed g ''as'')) = sample_key ''hs''" by (simp add: sample_signed_def rdv_grant_def assms(1))
  then show ?thesis
    using g r by (simp add: verifyHostRegistration_def) (simp add: sample_signed_def rdv_grant_def rdv_record_def assms(1))
qed

lemma rdv_verified:
  "verifyHostRegistration rdv_env (sample_signed rdv_record ''hs'') (sample_signed rdv_grant ''as'') (sample_key ''as'') [] 100000
     = Some (sample_signed rdv_record ''hs'', sample_signed rdv_grant ''as'')"
  by (rule rdv_verified_with [of _ 1]) (simp_all add: rdv_grant_def)

lemma rdv_proof_ok: "validRegistrationProof rdv_env rdv_pending (Some (sample_signed rdv_proof ''hs'')) 100000"
proof -
  have dom: "signatureMessage REGISTRATION_PROOF_DOMAIN v = Inr (REGISTRATION_PROOF_DOMAIN @ NUL @ canonicalJson v)" for v
    by (simp add: signatureMessage_def signature_domain_ok_def REGISTRATION_PROOF_DOMAIN_def less_eq_char_def)
  have sg: "canonical_bytes sample_signature 64"
    using schema_bytes(2) [of sample_signature] by (simp add: canonical_bytes_def) (simp add: sample_signature_def list_all_iff)
  have k: "canonical_bytes (sample_key n) 32" for n
    using schema_bytes(1) [of "sample_key n"] sample_key_ok [of n] by (simp add: canonical_bytes_def PublicKeySchema_def)
  show ?thesis
    using sg k dom
    by (simp add: validRegistrationProof_def Let_def sample_signed_def verifyCanonicalPayload_def schema_bytes)
      (simp add: rdv_pending_def rdv_proof_def rdv_record_def rdv_grant_def sample_signed_def is_safe_integer_def
        REGISTRATION_PROOF_CLOCK_SKEW_MS_def)
qed

definition rdv_checked :: verified_registration where
  "rdv_checked =
     \<lparr>vr_fingerprint = zeros, vr_key = sample_key ''as'', vr_grant = sample_signed rdv_grant ''as'',
      vr_record = sample_signed rdv_record ''hs'', vr_hash = zeros, vr_certificate = Some rdv_items\<rparr>"

lemma rdv_authority: "publicKeyFingerprint rdv_env (sample_key ''as'') = Some zeros"
proof -
  have "rdv_fp (sample_key ''as'') = zeros"
    by (simp add: rdv_fp_def) (simp add: sample_key_def b64url_char_def B64URL_ALPHABET_def)
  then show ?thesis by (simp add: publicKeyFingerprint_def ed25519Fingerprint_def schema_bytes)
qed

lemma rdv_validated:
  "validateRegistration rdv_env \<lparr>rf_key = sample_key ''as'', rf_grant = Some (sample_signed rdv_grant ''as''),
      rf_record = Some (sample_signed rdv_record ''hs''), rf_certificate = Some rdv_items\<rparr> 100000 (rdv_voted ''B1'')
    = (Inr (Inr rdv_checked), rdv_voted ''B1'')"
proof -
  let ?b = "rdv_voted ''B1''"
  have pl: "s_payload (sample_signed x n) = x" for x n by (simp add: sample_signed_def)
  have sch: "signed_schema (HostGrantPayloadSchema rdv_env) (sample_signed rdv_grant ''as'')" "SignedHostRecordSchema rdv_env (sample_signed rdv_record ''hs'')"
    using rdv_schemas by (simp_all add: signed_schema_def SignedHostRecordSchema_def sample_signed_def)
  have rf: "hr_server rdv_record = rdv_server" "hr_host rdv_record = ''h2''" "hr_role rdv_record = Primary" "hr_epoch rdv_record = 2"
    "hr_seq rdv_record = 1" "hr_previous rdv_record = None"
    by (simp_all add: rdv_record_def)
  have gf: "gp_grant rdv_grant = rdv_grant_id" "gp_witness rdv_grant = Some [rdv_bridge_id ''B1'', rdv_bridge_id ''B2'']"
    by (simp_all add: rdv_grant_def)
  have bf: "inner (br_marks ?b) (authorityScope zeros rdv_server) = [(''h1'', rdv_mark)]" "br_revoked ?b = []" "br_records ?b = []"
    "br_signing ?b = Some (rdv_descriptor ''B1'', sample_key ''B1'')"
    by (simp_all add: rdv_voted_def rdv_state_def new_bridge_def inner_def)
  have h: "highest_epoch [(''h1'', rdv_mark)] = 1" by (simp add: highest_epoch_def rdv_mark_def)
  have pr: "current_primary [(''h1'', rdv_mark)] 1 = Some rdv_mark" by (simp add: current_primary_def rdv_mark_def js_sort_def)
  have w: "rdv_winner rdv_record" by (simp add: rdv_winner_def rf)
  have c: "validPromotionCertificate rdv_env (Some rdv_items) rdv_record rdv_grant [(''h1'', rdv_mark)] 1 100000 ?b = (Inr True, ?b)"
    using rdv_certificate [of "''B1''" 100000 ?b "[rdv_bridge_id ''B1'', rdv_bridge_id ''B2'']", OF _ _ _ refl _ w] rdv_ids
    by (simp add: validPromotionCertificate_def Let_def gf pr signing_material_def bf) (simp add: rdv_items_def)
  have inn: "inner [] k = []" for k by (simp add: inner_def)
  have a: "admit_registration rdv_env zeros (sample_key ''as'') (Some rdv_items) (sample_signed rdv_record ''hs'')
      (sample_signed rdv_grant ''as'') 100000 ?b = (Inr (Inr rdv_checked), ?b)"
    by (simp add: admit_registration_def Let_def pl rf bf h c inn MAX_RECORDS_PER_SERVER_def record_hash_def rdv_checked_def)
  have nr: "\<not> grant_revoked ?b s g" for s g by (simp add: grant_revoked_def bf inn)
  have ec: "epoch_conflict [(''h1'', rdv_mark)] rdv_record = None" by (simp add: epoch_conflict_def h rf)
  have cc: "chain_conflict None rdv_record g x = None" for g x by (simp add: chain_conflict_def rf)
  show ?thesis
    by (simp add: validateRegistration_def rdv_authority sch Let_def pl rf bf nr rdv_verified ec cc a)
qed

lemma rdv_proved:
  "\<exists>rd b'. proveRegistration rdv_env rdv_io 7 rdv_prove 100000 rdv_proving = (Inr (Inr rd), b') \<and> rd_role rd = Primary \<and> rd_epoch rd = 2"
proof -
  have cl: "clearPendingRegistration 7 rdv_proving = rdv_voted ''B1''"
    by (simp add: clearPendingRegistration_def rdv_proving_def map_del_def rdv_voted_def rdv_state_def new_bridge_def)
  have pf: "pd_request rdv_pending = ''rq''" "pd_challenge rdv_pending = ''ch''" "pd_expires rdv_pending = 130000" "pd_hash rdv_pending = zeros"
    "pd_key rdv_pending = sample_key ''as''" "pd_grant rdv_pending = sample_signed rdv_grant ''as''"
    "pd_record rdv_pending = sample_signed rdv_record ''hs''" "pd_certificate rdv_pending = Some rdv_items"
    by (simp_all add: rdv_pending_def)
  have m: "\<exists>b2. commit_mark rdv_env rdv_io 100000 (registered_mark rdv_checked) (rdv_voted ''B1'') = (Inr None, b2)"
    by (simp add: commit_mark_cases repeats_def registered_mark_fields registered_mark_def mark_scope_def mark_at_def rdv_checked_def
        sample_signed_def rdv_record_def rdv_grant_def rdv_voted_def rdv_state_def new_bridge_def inner_def nested_size_def
        MAX_DURABLE_ENTRIES_def appendStateEvent_def Let_def write_line_def applyHighWaterMark_def maybeCompactState_def
        ledger_line_of_def)
  then obtain b2 where "commit_mark rdv_env rdv_io 100000 (registered_mark rdv_checked) (rdv_voted ''B1'') = (Inr None, b2)" ..
  moreover have "hr_role (s_payload (vr_record rdv_checked)) = Primary" "hr_epoch (s_payload (vr_record rdv_checked)) = 2"
    by (simp_all add: rdv_checked_def sample_signed_def rdv_record_def)
  moreover have "map_of (br_pending rdv_proving) 7 = Some rdv_pending" by (simp add: rdv_proving_def)
  moreover have "vr_hash rdv_checked = zeros" by (simp add: rdv_checked_def)
  ultimately show ?thesis
    using rdv_proof_ok rdv_validated
    by (simp add: proveRegistration_def cl pf Let_def rdv_prove_def commitRegistration_def)
qed

theorem raised_epoch_certified_witness:
  "\<exists>items vote. pd_certificate rdv_pending = Some items \<and> vote_of rdv_proving zeros rdv_server 2 = Some vote \<and> vm_candidate vote = ''h2''"
proof -
  obtain rd b' where p: "proveRegistration rdv_env rdv_io 7 rdv_prove 100000 rdv_proving = (Inr (Inr rd), b')"
    and rd: "rd_role rd = Primary" "rd_epoch rd = 2" using rdv_proved by blast
  have pn: "map_of (br_pending rdv_proving) 7 = Some rdv_pending" by (simp add: rdv_proving_def)
  have pf: "pd_key rdv_pending = sample_key ''as''" "pd_record rdv_pending = sample_signed rdv_record ''hs''"
    by (simp_all add: rdv_pending_def)
  have rf: "hr_server rdv_record = rdv_server" "hr_host rdv_record = ''h2''" "s_payload (sample_signed rdv_record ''hs'') = rdv_record"
    by (simp_all add: rdv_record_def sample_signed_def)
  have marks: "[(''h1'', rdv_mark)] = inner (br_marks rdv_proving) (authorityScope zeros (hr_server (s_payload (pd_record rdv_pending))))"
    by (simp add: pf rf) (simp add: rdv_proving_def rdv_voted_def rdv_state_def inner_def rdv_record_def)
  have h: "highest_epoch [(''h1'', rdv_mark)] = 1" by (simp add: highest_epoch_def rdv_mark_def)
  have "publicKeyFingerprint rdv_env (pd_key rdv_pending) = Some zeros" by (simp add: pf rdv_authority)
  from raised_epoch_certified [OF p pn this rd(1) marks _] rd(2) h
  obtain items primary vote where it: "pd_certificate rdv_pending = Some items" "current_primary [(''h1'', rdv_mark)] 1 = Some primary"
    "vote_of rdv_proving (lm_authority primary) rdv_server 2 = Some vote" "vm_candidate vote = ''h2''"
    by (auto simp: pf rf)
  from it(2) have "lm_authority primary = zeros" by (auto simp: current_primary_def rdv_mark_def js_sort_def)
  with it show ?thesis by auto
qed

section \<open>A community that is served\<close>

text \<open>The grant of the host has been given anew after a revocation.\<close>

definition rdv_stored :: stored_record where
  "rdv_stored =
     \<lparr>sr_record = sample_signed rdv_record ''hs'', sr_grant = sample_signed (rdv_grant\<lparr>gp_generation := 5\<rparr>) ''as'', sr_key = sample_key ''as'',
      sr_fingerprint = zeros, sr_expires = 108990, sr_certificate = None\<rparr>"

definition rdv_kept_revocation :: revocation_mark where
  "rdv_kept_revocation = revoked_mark (sample_key ''as'') (sample_signed rdv_revocation ''as'')"

definition rdv_serving :: bridge where
  "rdv_serving =
     new_bridge\<lparr>br_records := [(authorityScope zeros rdv_server, [(''h2'', rdv_stored)])],
                br_revoked := [(authorityScope zeros rdv_server, [(rdv_grant_id, rdv_kept_revocation)])],
                br_file := [Some (ledger_line_of rdv_env 1 None (EvRevocation (sample_key ''as'') (sample_signed rdv_revocation ''as'')))],
                br_seq := 1, br_hash := Some zeros\<rparr>"

lemma rdv_renewed:
  "verifyHostRegistration rdv_env (sample_signed rdv_record ''hs'') (sample_signed (rdv_grant\<lparr>gp_generation := 5\<rparr>) ''as'') (sample_key ''as'')
     [] 100000 = Some (sample_signed rdv_record ''hs'', sample_signed (rdv_grant\<lparr>gp_generation := 5\<rparr>) ''as'')"
  by (rule rdv_verified_with [OF refl]) simp_all

lemma rdv_serving_ok: "serving_ok rdv_env rdv_serving"
proof -
  have dom: "signatureMessage d v = Inr (d @ NUL @ canonicalJson v)" if "d \<in> set SIGNATURE_DOMAINS" for d v
    using domains_ok [OF that] by (simp add: signatureMessage_def)
  have rv: "verifySignedHostGrantRevocation rdv_env (sample_signed rdv_revocation ''as'') (sample_key ''as'') = Some (sample_signed rdv_revocation ''as'')"
    using dom by (simp add: verifySignedHostGrantRevocation_def signed_schema_def sample_signed_def verifySigned_def
        verifyCanonicalPayload_def SIGNATURE_DOMAINS_def schema_bytes HostGrantRevocationPayloadSchema_def)
      (simp add: rdv_revocation_def rdv_server_def rdv_grant_id_def hostIdSchema_def identityIdSchema_def text_between_def
        timestampSchema_def positiveSchema_def is_safe_integer_def)
  have evs: "ledger_events 0 rdv_serving = [EvRevocation (sample_key ''as'') (sample_signed rdv_revocation ''as'')]"
    by (simp add: ledger_events_def rdv_serving_def new_bridge_def rdv_kept_revocation_def revoked_mark_def)
  have "revoked_entry rdv_env (authorityScope zeros rdv_server) rdv_grant_id rdv_kept_revocation"
    using rv rdv_authority by (simp add: revoked_entry_def rdv_kept_revocation_def revoked_mark_def Let_def) (simp add: sample_signed_def rdv_revocation_def)
  then have l: "ledger_ok rdv_env rdv_serving"
    by (simp add: ledger_ok_def rdv_serving_def new_bridge_def nested_ok_def flat_ok_def)
  have "bridge_consistent rdv_env rdv_serving"
  proof (rule chain_file_consistent [OF rdv_env_ok l])
    show "br_file rdv_serving = map Some (chain_lines rdv_env 0 None (ledger_events 0 rdv_serving))"
      unfolding evs by (simp add: rdv_serving_def Let_def)
    show "br_seq rdv_serving = int (length (ledger_events 0 rdv_serving))" unfolding evs by (simp add: rdv_serving_def)
    show "br_hash rdv_serving = (case ledger_events 0 rdv_serving of [] \<Rightarrow> None
        | _ \<Rightarrow> Some (ll_hash (last (chain_lines rdv_env 0 None (ledger_events 0 rdv_serving)))))"
      unfolding evs by (simp add: rdv_serving_def ledger_line_of_def line_hash_def Let_def)
  qed (simp_all add: rdv_serving_def new_bridge_def)
  moreover have "record_ok rdv_env rdv_serving (authorityScope zeros rdv_server) ''h2'' rdv_stored"
  proof -
    have "\<exists>t. verifyHostRegistration rdv_env (sr_record rdv_stored) (sr_grant rdv_stored) (sr_key rdv_stored) [] t
        = Some (sr_record rdv_stored, sr_grant rdv_stored)"
      by (rule exI [of _ 100000]) (simp add: rdv_stored_def rdv_renewed)
    moreover have "\<not> grant_revoked rdv_serving (authorityScope zeros rdv_server) (s_payload (sr_grant rdv_stored))"
      by (simp add: grant_revoked_def rdv_serving_def inner_def rdv_stored_def sample_signed_def rdv_grant_def rdv_kept_revocation_def
          revoked_mark_def rdv_revocation_def)
    ultimately show ?thesis
      using rdv_authority by (simp add: record_ok_def Let_def) (simp add: rdv_stored_def sample_signed_def rdv_record_def)
  qed
  then have "served_ok rdv_env rdv_serving"
    by (simp add: served_ok_def flat_ok_def MAX_RECORDS_PER_SERVER_def) (simp add: rdv_serving_def)
  ultimately show ?thesis by (simp add: serving_ok_def)
qed

definition rdv_resolution :: resolution where
  "rdv_resolution =
     \<lparr>rs_records = [(sample_signed rdv_record ''hs'', sample_signed (rdv_grant\<lparr>gp_generation := 5\<rparr>) ''as'', sample_key ''as'')],
      rs_revocations = [(sample_key ''as'', sample_signed rdv_revocation ''as'')], rs_at = 100000\<rparr>"

lemma rdv_resolved: "resolve rdv_server zeros 100000 rdv_serving = (Inr rdv_resolution, cleanup 100000 rdv_serving)"
proof -
  have "served (cleanup 100000 rdv_serving) = (drop_expired_records 100000 (br_records rdv_serving), br_revoked rdv_serving)"
    unfolding cleanup_def Let_def by (simp only: served_simps) (simp add: served_def)
  then have "br_records (cleanup 100000 rdv_serving) = br_records rdv_serving" "br_revoked (cleanup 100000 rdv_serving) = br_revoked rdv_serving"
    by (simp_all add: served_def drop_expired_records_def rdv_serving_def rdv_stored_def)
  then show ?thesis
    by (simp add: resolve_def Let_def) (simp add: rdv_serving_def inner_def js_sort_def rdv_stored_def rdv_kept_revocation_def revoked_mark_def rdv_resolution_def)
qed

theorem resolve_serves_authorised_witness:
  "publicKeyFingerprint rdv_env (sample_key ''as'') = Some zeros \<and> hr_server rdv_record = rdv_server
   \<and> rv_generation rdv_revocation < gp_generation (rdv_grant\<lparr>gp_generation := 5\<rparr>)"
proof -
  let ?g = "sample_signed (rdv_grant\<lparr>gp_generation := 5\<rparr>) ''as''"
  have m: "(sample_signed rdv_record ''hs'', ?g, sample_key ''as'') \<in> set (rs_records rdv_resolution)"
    and r: "(sample_key ''as'', sample_signed rdv_revocation ''as'') \<in> set (rs_revocations rdv_resolution)"
    by (simp_all add: rdv_resolution_def)
  have p: "s_payload (sample_signed x n) = x" for x n by (simp add: sample_signed_def)
  have g: "rv_grant rdv_revocation = gp_grant (rdv_grant\<lparr>gp_generation := 5\<rparr>)" by (simp add: rdv_revocation_def rdv_grant_def)
  from resolve_serves_authorised [OF rdv_serving_ok rtranclp.rtrancl_refl rdv_resolved m] r g show ?thesis
    by (auto simp: p)
qed

end
