(* ===== verification/Spec2Isabelle.thy ===== *)
theory Spec2Isabelle
  imports Transfers Replication GatewayRuns SelectionSafety BridgeExamples
begin

text \<open>
  A verification library for janjacord, a self-hosted encrypted community chat.

  The program. A community is served by one host process (\<open>apps/janjanode\<close>): a WebSocket gateway
  (\<open>gateway.ts\<close>) turns frames into calls of the service object (\<open>server.service.ts\<close>), which keeps its
  state in an encrypted SQLite database (\<open>store.ts\<close>) and emits events the gateway pushes to sockets. Members hold
  roles whose permissions are decided by \<open>packages/permissions\<close>; messages and attachments pass through a bounded
  spool; a primary host may be replaced by a replica, which is enrolled with a grant and promoted under the control of
  bridges (\<open>registration-quorum.ts\<close>). What hosts, bridges and members say to each other is signed
  (\<open>packages/protocol/src/connectivity.ts\<close>, \<open>packages/crypto\<close>) and validated by \<open>packages/schemas\<close>.

  Foundations.
  \<^item> \<open>Prelude\<close>: error codes and results (an error code the client is told, or an exception), tables with primary keys
    and the locale \<open>keyed_table\<close> interpreted on the tables of the store, JSON values, decimal numbers.
  \<^item> \<open>Transitions\<close>: the locales \<open>step_invariant\<close> and \<open>step_progress\<close>, runs of a step relation.
  \<^item> \<open>Permissions\<close>: \<open>packages/permissions/src/index.ts\<close> and the roles and channels of
    \<open>packages/schemas/src/domain.ts\<close>.
  \<^item> \<open>Quorum\<close>: \<open>registration-quorum.ts\<close> and the witness quorum of \<open>server.service.ts\<close>.
  \<^item> \<open>Protocol\<close>: fragmentation, the replay window and the sequence tracker of \<open>packages/protocol/src/index.ts\<close>.
  \<^item> \<open>AttachmentCodec\<close>: \<open>packages/protocol/src/attachments.ts\<close> and the base64 check of
    \<open>packages/schemas/src/envelope.ts\<close>.
  \<^item> \<open>Canonical\<close>: canonical JSON, signature domains and signed payloads (\<open>packages/crypto/src/index.ts\<close>); the text
    of a value determines it.
  \<^item> \<open>Connectivity\<close>: the signed documents, their schemas (\<open>packages/schemas/src/connectivity.ts\<close>), creation and
    verification (\<open>packages/protocol/src/connectivity.ts\<close>, \<open>bridge-witness.ts\<close>).
  \<^item> \<open>Commands\<close>: the schemas of commands, envelopes and call signals (\<open>packages/schemas/src/commands.ts\<close>,
    \<open>envelope.ts\<close>).
  \<^item> \<open>IceConfig\<close>: TURN and STUN configuration (\<open>packages/networking/src/index.ts\<close>, the ICE table of the service).

  The host. \<open>HostState\<close> has the rows and tables of \<open>store.ts\<close> as records and lists (\<open>db\<close>), the fields of the service
  object (\<open>host\<close>: database, emitted events, replay window, sequence trackers, calls, writer flag, registration state)
  and what an operation reads from outside (\<open>world\<close>: clock, environment variables, cryptography). An operation is a
  function from \<open>host\<close> to a result and a \<open>host\<close>; random values are arguments.
  \<^item> \<open>Store\<close>: spool accounting, the authority migration and snapshot replacement of \<open>store.ts\<close>.
  \<^item> \<open>Views\<close>: configuration and the state a member sees.
  \<^item> \<open>Membership\<close>: boot, joining, leaving, ownership, device links, roles, kick and ban, with the
    invariant \<open>community_ok\<close> that each of them keeps.
  \<^item> \<open>Administration\<close>: invites, ICE access, channels.
  \<^item> \<open>Messages\<close>: the spool, acknowledgement and retention, the MLS mailbox, calls and presence, with \<open>usage_ok\<close> and
    \<open>spool_ok\<close>.
  \<^item> \<open>Transfers\<close>: attachments in chunks, with \<open>transfers_ok\<close> and \<open>pending_ok\<close>.
  \<^item> \<open>Grants\<close>: bridges, host candidates and grants, with \<open>grants_ok\<close>.
  \<^item> \<open>Writer\<close> and \<open>Authority\<close>: the writer state and its witness sets, registration, resuming, fencing, promotion.
  \<^item> \<open>Replication\<close>: sealed enrollment and snapshots.
  \<^item> \<open>Invariants\<close>: \<open>host_ok\<close>, the conjunction of the invariants above, kept by every operation; the frame conditions
    \<open>same_community\<close>, \<open>same_messages\<close>, \<open>same_grants\<close> say which tables an operation leaves alone.

  The gateway. \<open>Sessions\<close> has the fields of \<open>SignalingGateway\<close> as the record \<open>gateway\<close>, with the frames sent and the
  sockets closed as lists; \<open>Gateway\<close> the frame handlers, the routing of commands, and \<open>gateway_step\<close>, one event of a
  socket, a timer or a periodic loop at any time. \<open>GatewaySafety\<close> proves that every run keeps \<open>host_ok\<close> and how a socket
  gets an identity; \<open>GatewayLimits\<close> what a host without write authority serves, and the limits on connections and
  uploads; \<open>GatewayRuns\<close> gives runs, among them runs that show defects.

  The client. \<open>HostSelection\<close> is \<open>packages/networking/src/connectivity.ts\<close> and \<open>selectHostRegistrations\<close>: bridges answer
  with signed registrations, the client keeps a mark per host. \<open>SelectionSafety\<close> shows that marks never fall, that every
  answer gets one verdict, and that what is selected carries the authority's signature.

  The bridge. A bridge (\<open>apps/rendezvous/src/main.ts\<close>) is the meeting point of hosts and clients: hosts register signed
  records under a high-water mark, clients resolve them and signal through it, and it votes once when a primary is replaced.
  Its state is the record \<open>bridge\<close>; what it decides is first appended to a hash-chained state file.
  \<^item> \<open>BridgeState\<close>: settings, stored values, frames, the module's maps. \<open>Bridge\<close>: sockets, clean-up and the ledger
    (\<open>appendStateEvent\<close>, \<open>maybeCompactState\<close>). \<open>BridgeHosts\<close>: pairing and access credentials. \<open>BridgeRegistration\<close>:
    \<open>validateRegistration\<close>, \<open>validPromotionCertificate\<close>, the handshake. \<open>BridgeCommit\<close>: \<open>commitRegistration\<close>, \<open>revoke\<close>,
    \<open>resolve\<close>, \<open>loadRendezvousState\<close>. \<open>BridgeVotes\<close>: \<open>witnessPrimary\<close>, \<open>claimPromotionVote\<close>. \<open>Signaling\<close>: \<open>relaySignal\<close>,
    frame checks, TURN credentials, \<open>rateLimited\<close>. \<open>BridgeServer\<close>: \<open>startRendezvous\<close> as \<open>bridge_step\<close>, one event of a
    socket, the periodic clean-up, or the end of the process with a new start.
  \<^item> \<open>BridgeLedger\<close> and \<open>BridgeRestart\<close>: in every run the ledger is well formed, credentials stand under the key of the
    host they were issued for (\<open>issued_for\<close>) and nothing accepted is forgotten; in runs of whole writes (\<open>whole_step\<close>) the
    file reads back as the ledger in memory, also after compaction; the locale \<open>ledger_table\<close> is the contract of the
    five kinds of events, \<open>unconnected\<close> that of a part of the state connections do not touch.
  \<^item> \<open>BridgeSafety\<close>: one vote in an election, certificates for higher epochs, one winner, and what a failed \<open>fsync\<close> does.
    \<open>BridgeRecords\<close>: what \<open>resolve\<close> serves. \<open>SignalingLimits\<close>: bounds on frames and sessions. \<open>BridgeExamples\<close>: runs.
  The clock is read once for an event. A step handles a message with any outcome of the writes: an append is synced, not
  done, cut, or written without being synced (\<open>append_outcome\<close>); a compaction replaces the file, leaves it, or throws after
  it replaced the file (\<open>compact_outcome\<close>). A restart is a start that succeeds; \<open>failed_sync_ends_restarts\<close> shows that one
  need not. \<open>whole_step\<close> leaves out the outcomes that part the file from the memory. A step has a clock a day before the
  end of the safe integers (\<open>clock_ok\<close>) and epochs below that end (\<open>epochs_left\<close>). What is asked of the environment is
  \<open>env_ok\<close>: a state file, and hashes and identifiers of their documented form. Frames are typed; an absent field is \<open>None\<close>.

  Numbers. JavaScript numbers that stay integers are \<open>int\<close>; where the code checks for safe integers, so does the model.
  The token bucket counts in units of 1/500 token, as the code adds 2/1000 of a token per millisecond. No definition takes
  fuel: loops run over lists.

  Bounds on texts. Texts are lists of 8-bit characters; lengths are counted in them.

  Not modelled. The primitives of cryptography (Ed25519, SHA-256, HMAC, AES-GCM, key wrapping), SQLCipher, the URL parser,
  UUID patterns, the text form of invites and the collation of \<open>localeCompare\<close> are fields of \<open>world\<close> or \<open>replica_env\<close>, with
  what is required of them as hypotheses. Timers and sockets are the events of \<open>gateway_step\<close>. The user
  interfaces (desktop, mobile), the sockets and WebRTC transport of the networking client, the push relay and the Rust
  bindings of MLS are outside: user interfaces, process control and I/O. Of the bridge, the permissions of its files and the
  reading of secrets from them are left out.
\<close>

end
